(* ===== verification/H2_Prelude.thy ===== *)
theory H2_Prelude
  imports Main "HOL-Library.Word"
begin

text \<open>
  What every other theory of the development shares: the widths of the Rust integers, byte
  strings, the result of a fallible Rust function, the big-endian encodings that the frame
  codec writes and reads, and the two lemma collections \<open>wire_simps\<close> (equations that
  evaluate encoders and decoders on byte lists) and \<open>outcome_elims\<close> (inversion of a successful
  chain of \<open>?\<close>).

  Conventions. A \<open>usize\<close> that is the length of a buffer is a \<open>nat\<close>; one whose overflow the
  code handles is a 64-bit word. A byte buffer (\<open>Bytes\<close>, \<open>BytesMut\<close>, \<open>&[u8]\<close>) is the list of
  its bytes; \<open>put_*\<close> appends the big-endian bytes of its argument. A Rust \<open>Result\<close> is an
  \<open>outcome\<close>, whose third constructor stands for a panic (a failed \<open>assert!\<close>, an index out of
  range, \<open>unwrap\<close> of \<open>None\<close>). A function with \<open>&mut self\<close> returns its outcome and the new
  state, also on the error paths, because Rust keeps what was written before the \<open>?\<close>.
  Logging (\<open>tracing\<close>) has no state and is dropped.
\<close>

unbundle bit_operations_syntax

named_theorems wire_simps \<open>evaluation of the byte-level encoders and decoders\<close>
named_theorems outcome_elims \<open>inversion of successful outcomes\<close>

section \<open>Integers and byte strings\<close>

type_synonym u8 = "8 word"
type_synonym u16 = "16 word"
type_synonym u32 = "32 word"
type_synonym u64 = "64 word"
type_synonym i32 = "32 word"
type_synonym usize = "64 word"
type_synonym bytes = "u8 list"

text \<open>Counters and limits of type \<open>usize\<close> are natural numbers; where the code handles their overflow
  the bound is written out.\<close>

definition USIZE_MAX :: nat where "USIZE_MAX = 2 ^ 64 - 1"

section \<open>Results\<close>

datatype ('a, 'e) outcome = Ok 'a | Err 'e | Panic

fun bind_outcome :: "('a, 'e) outcome \<Rightarrow> ('a \<Rightarrow> ('b, 'e) outcome) \<Rightarrow> ('b, 'e) outcome" where
  "bind_outcome (Ok x) f = f x"
| "bind_outcome (Err e) f = Err e"
| "bind_outcome Panic f = Panic"

fun map_err :: "('e \<Rightarrow> 'f) \<Rightarrow> ('a, 'e) outcome \<Rightarrow> ('a, 'f) outcome" where
  "map_err g (Ok x) = Ok x"
| "map_err g (Err e) = Err (g e)"
| "map_err g Panic = Panic"

definition or_panic :: "'a option \<Rightarrow> ('a, 'e) outcome" where
  "or_panic v = (case v of Some x \<Rightarrow> Ok x | None \<Rightarrow> Panic)"

lemma bind_outcome_Ok_iff [outcome_elims]:
  "bind_outcome m f = Ok y \<longleftrightarrow> (\<exists>x. m = Ok x \<and> f x = Ok y)"
  by (cases m) auto

lemma bind_outcome_Err_iff [outcome_elims]:
  "bind_outcome m f = Err e \<longleftrightarrow> m = Err e \<or> (\<exists>x. m = Ok x \<and> f x = Err e)"
  by (cases m) auto

lemma bind_outcome_Panic_iff [outcome_elims]:
  "bind_outcome m f = Panic \<longleftrightarrow> m = Panic \<or> (\<exists>x. m = Ok x \<and> f x = Panic)"
  by (cases m) auto

lemma map_err_Ok_iff [outcome_elims, simp]: "map_err g m = Ok x \<longleftrightarrow> m = Ok x"
  by (cases m) auto

lemma map_err_Panic_iff [outcome_elims, simp]: "map_err g m = Panic \<longleftrightarrow> m = Panic"
  by (cases m) auto

lemma or_panic_Ok_iff [outcome_elims, simp]: "or_panic v = Ok x \<longleftrightarrow> v = Some x"
  by (cases v) (auto simp: or_panic_def)

lemma or_panic_Panic_iff [outcome_elims, simp]: "or_panic v = Panic \<longleftrightarrow> v = None"
  by (cases v) (auto simp: or_panic_def)

lemma or_panic_not_Err [simp]: "or_panic v \<noteq> Err e"
  by (cases v) (auto simp: or_panic_def)

lemma or_panic_Some [simp]: "or_panic (Some x) = Ok x"
  by (simp add: or_panic_def)

section \<open>Big-endian encodings\<close>

definition put_u16 :: "u16 \<Rightarrow> bytes" where
  "put_u16 w = [ucast (drop_bit 8 w), ucast w]"

definition put_u32 :: "u32 \<Rightarrow> bytes" where
  "put_u32 w = [ucast (drop_bit 24 w), ucast (drop_bit 16 w), ucast (drop_bit 8 w), ucast w]"

text \<open>\<open>put_uint (n as u64, 3)\<close>: the three low bytes, most significant first.\<close>

definition put_uint3 :: "nat \<Rightarrow> bytes" where
  "put_uint3 n = (let w = (of_nat n :: u64) in [ucast (drop_bit 16 w), ucast (drop_bit 8 w), ucast w])"

definition be_u16 :: "u8 \<Rightarrow> u8 \<Rightarrow> u16" where
  "be_u16 a b = push_bit 8 (ucast a) OR ucast b"

definition be_u32 :: "u8 \<Rightarrow> u8 \<Rightarrow> u8 \<Rightarrow> u8 \<Rightarrow> u32" where
  "be_u32 a b c d =
     push_bit 24 (ucast a) OR push_bit 16 (ucast b) OR push_bit 8 (ucast c) OR push_bit 0 (ucast d)"

definition be_uint3 :: "u8 \<Rightarrow> u8 \<Rightarrow> u8 \<Rightarrow> nat" where
  "be_uint3 a b c = unat a * 65536 + unat b * 256 + unat c"

text \<open>The macro \<open>unpack_octets_4!(buf, offset, u32)\<close>: four indexed reads, each of which panics
  past the end.\<close>

definition unpack_octets_4 :: "bytes \<Rightarrow> nat \<Rightarrow> u32 option" where
  "unpack_octets_4 buf off =
     (if off + 3 < length buf
      then Some (be_u32 (buf ! (off + 0)) (buf ! (off + 1)) (buf ! (off + 2)) (buf ! (off + 3)))
      else None)"

lemma length_put [simp]:
  "length (put_u16 v) = 2" "length (put_u32 w) = 4" "length (put_uint3 n) = 3"
  by (simp_all add: put_u16_def put_u32_def put_uint3_def Let_def)

lemma be_u16_put [simp]: "be_u16 (ucast (drop_bit 8 w)) (ucast w) = w"
  by (rule bit_word_eqI) (auto simp: be_u16_def bit_simps)

lemma bit_u8_beyond [simp]: "8 \<le> n \<Longrightarrow> \<not> bit (b :: u8) n"
  by (auto dest: bit_imp_le_length)

lemma be_u32_put [simp]:
  "be_u32 (ucast (drop_bit 24 w)) (ucast (drop_bit 16 w)) (ucast (drop_bit 8 w)) (ucast w) = w"
proof (rule bit_word_eqI)
  fix n :: nat
  assume "n < LENGTH(32)"
  then show "bit (be_u32 (ucast (drop_bit 24 w)) (ucast (drop_bit 16 w)) (ucast (drop_bit 8 w))
      (ucast w)) n = bit w n"
    by (cases "n < 8"; cases "n < 16"; cases "n < 24") (auto simp: be_u32_def bit_simps)
qed

lemma be_u32_inj_bytes [simp]:
  "ucast (drop_bit 24 (be_u32 a b c d)) = a" "ucast (drop_bit 16 (be_u32 a b c d)) = b"
  "ucast (drop_bit 8 (be_u32 a b c d)) = c" "ucast (be_u32 a b c d) = d"
  by (auto intro!: bit_word_eqI simp: be_u32_def bit_simps)

lemma put_u32_be_u32 [wire_simps]: "put_u32 (be_u32 a b c d) = [a, b, c, d]"
  by (simp add: put_u32_def)

lemma unpack_octets_4_Cons [wire_simps]:
  "unpack_octets_4 (a # b # c # d # rest) 0 = Some (be_u32 a b c d)"
  by (simp add: unpack_octets_4_def numeral_3_eq_3)

lemma unpack_octets_4_drop [wire_simps]:
  "unpack_octets_4 (pre @ suf) (length pre) = unpack_octets_4 suf 0"
  by (simp add: unpack_octets_4_def nth_append numeral_eq_Suc)

lemma unpack_put_u32 [wire_simps]: "unpack_octets_4 (put_u32 w @ rest) 0 = Some w"
  by (simp add: put_u32_def unpack_octets_4_Cons)

lemma unpack_octets_4_None [simp]: "unpack_octets_4 buf off = None \<longleftrightarrow> length buf \<le> off + 3"
  by (simp add: unpack_octets_4_def not_less)

lemma unpack_octets_4_Some: "length buf > off + 3 \<Longrightarrow> \<exists>w. unpack_octets_4 buf off = Some w"
  by (simp add: unpack_octets_4_def)

lemma be_uint3_put:
  assumes "n < 2 ^ 24"
  shows "be_uint3 (put_uint3 n ! 0) (put_uint3 n ! 1) (put_uint3 n ! 2) = n"
proof -
  have w: "unat (of_nat n :: u64) = n"
    using assms by (simp add: unat_of_nat take_bit_nat_eq_self_iff)
  have b: "unat (ucast (drop_bit k (of_nat n :: u64)) :: u8) = n div 2 ^ k mod 256" for k
    by (simp add: unsigned_ucast_eq unat_drop_bit_eq w take_bit_eq_mod) (simp add: drop_bit_eq_div)
  have "be_uint3 (put_uint3 n ! 0) (put_uint3 n ! 1) (put_uint3 n ! 2) =
      (n div 65536 mod 256) * 65536 + (n div 256 mod 256) * 256 + n mod 256"
    using b [of 16] b [of 8] b [of 0] by (simp add: put_uint3_def be_uint3_def Let_def)
  also have "\<dots> = (n div 256 div 256 * 256 + n div 256 mod 256) * 256 + n mod 256"
    using assms by (simp add: div_mult2_eq [symmetric])
  also have "\<dots> = n" by (simp only: div_mult_mod_eq)
  finally show ?thesis .
qed

text \<open>Four bytes are exactly one \<open>u32\<close>; used to invert a successful load.\<close>

lemma length_4_put_u32: "length bs = 4 \<Longrightarrow> \<exists>w. bs = put_u32 w"
proof -
  assume "length bs = 4"
  then obtain a b c d where "bs = [a, b, c, d]"
    by (auto simp: numeral_eq_Suc length_Suc_conv)
  then have "bs = put_u32 (be_u32 a b c d)" by (simp add: put_u32_be_u32)
  then show ?thesis ..
qed

section \<open>The reserved most significant bit\<close>

text \<open>\<open>1 << 31\<close> as the simplifier writes it; \<open>StreamId\<close> and \<open>WindowUpdate\<close> both clear this bit.\<close>

lemma bit_msb_u32: "bit (0x80000000 :: u32) n \<longleftrightarrow> n = 31"
proof -
  have "(0x80000000 :: u32) = push_bit 31 1" by simp
  then have "bit (0x80000000 :: u32) n \<longleftrightarrow> bit (push_bit 31 1 :: u32) n" by simp
  also have "\<dots> \<longleftrightarrow> n = 31" by (auto simp only: bit_simps) auto
  finally show ?thesis .
qed

lemma clear_msb_u32: "(w :: u32) AND NOT (push_bit 31 1) = take_bit 31 w"
  by (rule bit_word_eqI) (auto simp only: bit_simps, auto)

lemma and_msb_u32: "(w :: u32) AND 0x80000000 = (if bit w 31 then 0x80000000 else 0)"
proof (rule bit_word_eqI)
  fix n :: nat
  show "bit (w AND 0x80000000) n = bit (if bit w 31 then 0x80000000 else 0 :: u32) n"
    by (cases "bit w 31") (auto simp add: bit_and_iff bit_msb_u32 simp del: bit_numeral_word_iff)
qed

lemma test_msb_u32: "(w :: u32) AND 0x80000000 = 0x80000000 \<longleftrightarrow> bit w 31"
  "(w :: u32) AND 0x80000000 = 0 \<longleftrightarrow> \<not> bit w 31"
  by (simp_all add: and_msb_u32)

lemma unat_take_bit_31: "unat (take_bit 31 (w :: u32)) < 2147483648"
  using take_bit_nat_less_exp [of 31 "unat w"] by (simp add: unsigned_take_bit_eq)

lemma take_bit_31_id: "unat (w :: u32) < 2147483648 \<longleftrightarrow> take_bit 31 w = w"
proof
  assume "unat w < 2147483648"
  then have "unat (take_bit 31 w) = unat w"
    by (simp add: unsigned_take_bit_eq take_bit_nat_eq_self_iff)
  then show "take_bit 31 w = w" by (simp only: word_unat_eq_iff)
next
  assume "take_bit 31 w = w"
  then show "unat w < 2147483648" using unat_take_bit_31 [of w] by simp
qed

lemma not_bit_31_iff: "\<not> bit (w :: u32) 31 \<longleftrightarrow> unat w < 2147483648"
proof -
  have "take_bit 31 w = w \<longleftrightarrow> \<not> bit w 31"
  proof
    assume "take_bit 31 w = w"
    then have "bit w 31 = bit (take_bit 31 w) 31" by simp
    then show "\<not> bit w 31" by (simp add: bit_take_bit_iff)
  next
    assume nb: "\<not> bit w 31"
    show "take_bit 31 w = w"
    proof (rule bit_word_eqI)
      fix n :: nat
      assume "n < LENGTH(32)"
      with nb show "bit (take_bit 31 w) n = bit w n"
        by (cases "n = 31") (auto simp: bit_take_bit_iff)
    qed
  qed
  then show ?thesis by (simp add: take_bit_31_id)
qed

section \<open>Signed 32-bit arithmetic\<close>

text \<open>An \<open>i32\<close> is a 32-bit word read with \<open>sint\<close>; \<open>x as i32\<close> of a \<open>u32\<close> is the same word.\<close>

definition in_i32 :: "int \<Rightarrow> bool" where
  "in_i32 i \<longleftrightarrow> - 2147483648 \<le> i \<and> i \<le> 2147483647"

definition i32_checked_add :: "i32 \<Rightarrow> i32 \<Rightarrow> i32 option" where
  "i32_checked_add a b = (if in_i32 (sint a + sint b) then Some (a + b) else None)"

definition i32_checked_sub :: "i32 \<Rightarrow> i32 \<Rightarrow> i32 option" where
  "i32_checked_sub a b = (if in_i32 (sint a - sint b) then Some (a - b) else None)"

lemma sint_in_i32: "in_i32 (sint (w :: i32))"
  using sint_range_size [of w] by (simp add: in_i32_def word_size)

lemma sint_of_in_i32: "in_i32 i \<Longrightarrow> sint (word_of_int i :: i32) = i"
  by (simp add: in_i32_def signed_of_int signed_take_bit_int_eq_self)

lemma sint_eqI: "sint (a :: i32) = sint b \<Longrightarrow> a = b"
  by (rule signed_word_eqI) simp

lemma i32_checked_add_Some:
  "i32_checked_add a b = Some c \<longleftrightarrow> in_i32 (sint a + sint b) \<and> sint c = sint a + sint b"
proof -
  have "in_i32 (sint a + sint b) \<Longrightarrow> sint (a + b) = sint a + sint b"
    using sint_of_in_i32 [of "sint a + sint b"] by simp
  then show ?thesis by (auto simp: i32_checked_add_def intro: sint_eqI)
qed

lemma i32_checked_sub_Some:
  "i32_checked_sub a b = Some c \<longleftrightarrow> in_i32 (sint a - sint b) \<and> sint c = sint a - sint b"
proof -
  have "in_i32 (sint a - sint b) \<Longrightarrow> sint (a - b) = sint a - sint b"
    using sint_of_in_i32 [of "sint a - sint b"] by simp
  then show ?thesis by (auto simp: i32_checked_sub_def intro: sint_eqI)
qed

lemma i32_checked_None [simp]:
  "i32_checked_add a b = None \<longleftrightarrow> \<not> in_i32 (sint a + sint b)"
  "i32_checked_sub a b = None \<longleftrightarrow> \<not> in_i32 (sint a - sint b)"
  by (simp_all add: i32_checked_add_def i32_checked_sub_def)

lemma sint_uint_31: "uint (w :: u32) < 2147483648 \<Longrightarrow> sint w = uint w"
proof -
  assume "uint w < 2147483648"
  moreover have "- (2 ^ 31) \<le> uint w" by (rule order_trans [OF _ uint_ge_0]) simp
  ultimately have "signed_take_bit 31 (uint w) = uint w"
    by (intro signed_take_bit_int_eq_self) simp_all
  then show ?thesis by (simp add: sint_uint)
qed

section \<open>Lists\<close>

lemma list_all_nth_conv: "list_all P xs \<longleftrightarrow> (\<forall>i < length xs. P (xs ! i))"
  by (simp add: list_all_length)

lemma take_drop_split: "n \<le> length xs \<Longrightarrow> xs = take n xs @ drop n xs"
  by simp

end
