(* ===== verification/Error_Types.thy ===== *)
theory Error_Types
  imports H2_Prelude
begin

text \<open>
  The error values of the crate: HTTP/2 reasons (\<open>src/frame/reason.rs\<close>), HPACK decoding errors
  (\<open>src/hpack/decoder.rs\<close>), frame loading errors (\<open>src/frame/mod.rs\<close>), connection and stream
  errors with their initiator (\<open>src/proto/error.rs\<close>), and the errors a user of the library
  causes (\<open>src/codec/error.rs\<close>). \<open>stream_id\<close> is declared here because errors carry it.
\<close>

section \<open>Stream identifiers and reasons\<close>

text \<open>\<open>struct StreamId(u32)\<close> with the derived order of its number.\<close>

datatype stream_id = StreamId (sid_val: u32)

instantiation stream_id :: linorder
begin

definition less_eq_stream_id :: "stream_id \<Rightarrow> stream_id \<Rightarrow> bool" where
  "less_eq_stream_id a b \<longleftrightarrow> sid_val a \<le> sid_val b"

definition less_stream_id :: "stream_id \<Rightarrow> stream_id \<Rightarrow> bool" where
  "less_stream_id a b \<longleftrightarrow> sid_val a < sid_val b"

instance
  by standard (auto simp: less_eq_stream_id_def less_stream_id_def intro: stream_id.expand)

end

datatype reason = Reason (reason_code: u32)

definition NO_ERROR :: reason where "NO_ERROR = Reason 0"
definition PROTOCOL_ERROR :: reason where "PROTOCOL_ERROR = Reason 1"
definition INTERNAL_ERROR :: reason where "INTERNAL_ERROR = Reason 2"
definition FLOW_CONTROL_ERROR :: reason where "FLOW_CONTROL_ERROR = Reason 3"
definition SETTINGS_TIMEOUT :: reason where "SETTINGS_TIMEOUT = Reason 4"
definition STREAM_CLOSED :: reason where "STREAM_CLOSED = Reason 5"
definition FRAME_SIZE_ERROR :: reason where "FRAME_SIZE_ERROR = Reason 6"
definition REFUSED_STREAM :: reason where "REFUSED_STREAM = Reason 7"
definition CANCEL :: reason where "CANCEL = Reason 8"
definition COMPRESSION_ERROR :: reason where "COMPRESSION_ERROR = Reason 9"
definition CONNECT_ERROR :: reason where "CONNECT_ERROR = Reason 10"
definition ENHANCE_YOUR_CALM :: reason where "ENHANCE_YOUR_CALM = Reason 11"
definition INADEQUATE_SECURITY :: reason where "INADEQUATE_SECURITY = Reason 12"
definition HTTP_1_1_REQUIRED :: reason where "HTTP_1_1_REQUIRED = Reason 13"

lemmas reason_defs = NO_ERROR_def PROTOCOL_ERROR_def INTERNAL_ERROR_def FLOW_CONTROL_ERROR_def
  SETTINGS_TIMEOUT_def STREAM_CLOSED_def FRAME_SIZE_ERROR_def REFUSED_STREAM_def CANCEL_def
  COMPRESSION_ERROR_def CONNECT_ERROR_def ENHANCE_YOUR_CALM_def INADEQUATE_SECURITY_def
  HTTP_1_1_REQUIRED_def

section \<open>Decoding errors\<close>

datatype need_more = UnexpectedEndOfStream | IntegerUnderflow | StringUnderflow

datatype decoder_error =
    InvalidRepresentation
  | InvalidIntegerPrefix
  | InvalidTableIndex
  | InvalidHuffmanCode
  | InvalidUtf8
  | InvalidStatusCode
  | InvalidPseudoheader
  | InvalidMaxDynamicSize
  | IntegerOverflow
  | NeedMore need_more

datatype frame_error =
    BadFrameSize
  | TooMuchPadding
  | InvalidSettingValue
  | InvalidWindowUpdateValue
  | InvalidPayloadLength
  | InvalidPayloadAckSettings
  | InvalidStreamId
  | MalformedMessage
  | HeaderListWayTooLarge
  | InvalidDependencyId
  | Hpack decoder_error

section \<open>Connection and stream errors\<close>

datatype initiator = User | Library | Remote

text \<open>\<open>io::ErrorKind\<close> is the standard library's; the crate makes or compares four of its values and
  passes the others through.\<close>

datatype io_error_kind = BrokenPipe | WriteZero | InvalidData | UnexpectedEof | OtherKind nat

datatype proto_error =
    ErrReset stream_id reason initiator
  | ErrGoAway bytes reason initiator
  | ErrIo io_error_kind "string option"

datatype user_error =
    InactiveStreamId
  | UnexpectedFrameType
  | PayloadTooBig
  | Rejected
  | ReleaseCapacityTooBig
  | OverflowedStreamId
  | MalformedHeaders
  | MissingUriSchemeAndAuthority
  | PollResetAfterSendResponse
  | SendPingWhilePending
  | SendSettingsWhilePending
  | PeerDisabledServerPush
  | InvalidInformationalStatusCode

datatype send_error = SendConnection proto_error | SendUser user_error

fun initiator_is_local :: "initiator \<Rightarrow> bool" where
  "initiator_is_local User = True"
| "initiator_is_local Library = True"
| "initiator_is_local Remote = False"

fun initiator_is_library :: "initiator \<Rightarrow> bool" where
  "initiator_is_library Library = True"
| "initiator_is_library _ = False"

fun error_is_local :: "proto_error \<Rightarrow> bool" where
  "error_is_local (ErrReset _ _ i) = initiator_is_local i"
| "error_is_local (ErrGoAway _ _ i) = initiator_is_local i"
| "error_is_local (ErrIo _ _) = True"

definition user_go_away :: "reason \<Rightarrow> proto_error" where
  "user_go_away r = ErrGoAway [] r User"

definition library_reset :: "stream_id \<Rightarrow> reason \<Rightarrow> proto_error" where
  "library_reset i r = ErrReset i r Library"

definition library_go_away :: "reason \<Rightarrow> proto_error" where
  "library_go_away r = ErrGoAway [] r Library"

definition library_go_away_data :: "reason \<Rightarrow> bytes \<Rightarrow> proto_error" where
  "library_go_away_data r d = ErrGoAway d r Library"

definition remote_reset :: "stream_id \<Rightarrow> reason \<Rightarrow> proto_error" where
  "remote_reset i r = ErrReset i r Remote"

definition remote_go_away :: "bytes \<Rightarrow> reason \<Rightarrow> proto_error" where
  "remote_go_away d r = ErrGoAway d r Remote"

lemmas proto_error_defs = user_go_away_def library_reset_def library_go_away_def
  library_go_away_data_def remote_reset_def remote_go_away_def

lemma error_is_local_constructors [simp]:
  "error_is_local (user_go_away r)" "error_is_local (library_reset i r)"
  "error_is_local (library_go_away r)" "error_is_local (library_go_away_data r d)"
  "\<not> error_is_local (remote_reset i r)" "\<not> error_is_local (remote_go_away d r)"
  by (simp_all add: proto_error_defs)

section \<open>The public error\<close>

text \<open>An \<open>io::Error\<close> is its kind and the message of its inner error, when it has one.\<close>

datatype error_kind =
    ErrorReset stream_id reason initiator
  | ErrorGoAway bytes reason initiator
  | ErrorReason reason
  | ErrorUser user_error
  | ErrorIo io_error_kind "string option"

fun error_reason :: "error_kind \<Rightarrow> reason option" where
  "error_reason (ErrorReset _ r _) = Some r"
| "error_reason (ErrorGoAway _ r _) = Some r"
| "error_reason (ErrorReason r) = Some r"
| "error_reason _ = None"

fun error_is_io :: "error_kind \<Rightarrow> bool" where
  "error_is_io (ErrorIo _ _) = True"
| "error_is_io _ = False"

fun error_is_go_away :: "error_kind \<Rightarrow> bool" where
  "error_is_go_away (ErrorGoAway _ _ _) = True"
| "error_is_go_away _ = False"

fun error_is_reset :: "error_kind \<Rightarrow> bool" where
  "error_is_reset (ErrorReset _ _ _) = True"
| "error_is_reset _ = False"

fun error_is_remote :: "error_kind \<Rightarrow> bool" where
  "error_is_remote (ErrorGoAway _ _ Remote) = True"
| "error_is_remote (ErrorReset _ _ Remote) = True"
| "error_is_remote _ = False"

fun error_is_library :: "error_kind \<Rightarrow> bool" where
  "error_is_library (ErrorGoAway _ _ Library) = True"
| "error_is_library (ErrorReset _ _ Library) = True"
| "error_is_library _ = False"

fun error_from_proto :: "proto_error \<Rightarrow> error_kind" where
  "error_from_proto (ErrReset i r ini) = ErrorReset i r ini"
| "error_from_proto (ErrGoAway d r ini) = ErrorGoAway d r ini"
| "error_from_proto (ErrIo k inner) = ErrorIo k inner"

fun error_from_send :: "send_error \<Rightarrow> error_kind" where
  "error_from_send (SendUser e) = ErrorUser e"
| "error_from_send (SendConnection e) = error_from_proto e"

end
