(* ===== verification/Frame_Head.thy ===== *)
theory Frame_Head
  imports Error_Types
begin

text \<open>
  Stream identifiers (\<open>src/frame/stream_id.rs\<close>) and the nine byte frame head
  (\<open>src/frame/head.rs\<close>): parsing, encoding, the initiator of an identifier, the next identifier
  of the same initiator.
\<close>

section \<open>Stream identifiers\<close>

definition STREAM_ID_MASK :: u32 where "STREAM_ID_MASK = push_bit 31 1"

definition STREAM_ID_ZERO :: stream_id where "STREAM_ID_ZERO = StreamId 0"

text \<open>\<open>StreamId::MAX\<close> is \<open>u32::MAX >> 1\<close>.\<close>

definition STREAM_ID_MAX :: stream_id where "STREAM_ID_MAX = StreamId (drop_bit 1 (- 1))"

definition stream_id_parse :: "bytes \<Rightarrow> (stream_id \<times> bool) option" where
  "stream_id_parse buf =
     (case unpack_octets_4 buf 0 of
        None \<Rightarrow> None
      | Some unpacked \<Rightarrow>
          Some (StreamId (unpacked AND NOT STREAM_ID_MASK), unpacked AND STREAM_ID_MASK = STREAM_ID_MASK))"

definition is_client_initiated :: "stream_id \<Rightarrow> bool" where
  "is_client_initiated i \<longleftrightarrow> sid_val i \<noteq> 0 \<and> sid_val i mod 2 = 1"

definition is_server_initiated :: "stream_id \<Rightarrow> bool" where
  "is_server_initiated i \<longleftrightarrow> sid_val i \<noteq> 0 \<and> sid_val i mod 2 = 0"

definition sid_is_zero :: "stream_id \<Rightarrow> bool" where
  "sid_is_zero i \<longleftrightarrow> sid_val i = 0"

datatype stream_id_overflow = StreamIdOverflow

text \<open>\<open>self.0 + 2\<close> is checked arithmetic: an overflow of \<open>u32\<close> is a panic.\<close>

definition next_id :: "stream_id \<Rightarrow> (stream_id, stream_id_overflow) outcome" where
  "next_id i =
     (if unat (sid_val i) + 2 \<ge> 2 ^ 32 then Panic
      else let nxt = sid_val i + 2 in
        if nxt > sid_val STREAM_ID_MAX then Err StreamIdOverflow else Ok (StreamId nxt))"

text \<open>\<open>StreamId::from(u32)\<close> asserts that the most significant bit is clear.\<close>

definition stream_id_from :: "u32 \<Rightarrow> stream_id option" where
  "stream_id_from src = (if src AND STREAM_ID_MASK = 0 then Some (StreamId src) else None)"

definition sid_valid :: "stream_id \<Rightarrow> bool" where
  "sid_valid i \<longleftrightarrow> i \<le> STREAM_ID_MAX"

lemma sid_max_val [simp]: "sid_val STREAM_ID_MAX = 0x7FFFFFFF"
  by (simp add: STREAM_ID_MAX_def mask_eq_exp_minus_1)

lemma sid_mask_val: "STREAM_ID_MASK = 0x80000000"
  by (simp add: STREAM_ID_MASK_def)

lemma sid_valid_iff: "sid_valid i \<longleftrightarrow> unat (sid_val i) < 2147483648"
  by (simp add: sid_valid_def less_eq_stream_id_def word_le_nat_alt) arith

lemma sid_valid_zero [simp]: "sid_valid STREAM_ID_ZERO" "sid_is_zero STREAM_ID_ZERO"
  by (simp_all add: sid_valid_iff STREAM_ID_ZERO_def sid_is_zero_def)

lemma stream_id_parse_eq:
  "stream_id_parse buf =
     map_option (\<lambda>w. (StreamId (take_bit 31 w), bit w 31)) (unpack_octets_4 buf 0)"
  by (simp add: stream_id_parse_def STREAM_ID_MASK_def clear_msb_u32 [simplified] test_msb_u32 split: option.splits)

lemma stream_id_parse_valid: "stream_id_parse buf = Some (i, f) \<Longrightarrow> sid_valid i"
  using unat_take_bit_31 by (auto simp: stream_id_parse_eq sid_valid_iff)

lemma stream_id_parse_put [wire_simps]:
  "sid_valid i \<Longrightarrow> stream_id_parse (put_u32 (sid_val i) @ rest) = Some (i, False)"
  by (simp add: stream_id_parse_eq unpack_put_u32 sid_valid_iff not_bit_31_iff take_bit_31_id)

lemma stream_id_parse_None [simp]: "stream_id_parse buf = None \<longleftrightarrow> length buf < 4"
  by (auto simp: stream_id_parse_eq)

lemma stream_id_from_iff: "stream_id_from w = Some i \<longleftrightarrow> i = StreamId w \<and> sid_valid i"
  by (auto simp: stream_id_from_def sid_mask_val test_msb_u32 not_bit_31_iff sid_valid_iff)

lemma odd_even_sid:
  "is_client_initiated i \<longleftrightarrow> odd (unat (sid_val i))"
  "is_server_initiated i \<longleftrightarrow> sid_val i \<noteq> 0 \<and> even (unat (sid_val i))"
proof -
  have m: "unat (sid_val i mod 2) = unat (sid_val i) mod 2"
    by (simp add: unat_mod)
  have "sid_val i mod 2 = 1 \<longleftrightarrow> odd (unat (sid_val i))"
    by (simp add: word_unat_eq_iff m odd_iff_mod_2_eq_one)
  moreover have "sid_val i mod 2 = 0 \<longleftrightarrow> even (unat (sid_val i))"
    by (simp add: word_unat_eq_iff m even_iff_mod_2_eq_zero)
  ultimately show "is_client_initiated i \<longleftrightarrow> odd (unat (sid_val i))"
    "is_server_initiated i \<longleftrightarrow> sid_val i \<noteq> 0 \<and> even (unat (sid_val i))"
    by (auto simp: is_client_initiated_def is_server_initiated_def)
qed

lemma next_id_Ok:
  assumes "next_id i = Ok j"
  shows "unat (sid_val j) = unat (sid_val i) + 2" "sid_valid j"
proof -
  from assms have lt: "unat (sid_val i) + 2 < 2 ^ 32" and j: "sid_val j = sid_val i + 2"
    and le: "\<not> sid_val i + 2 > 0x7FFFFFFF"
    by (auto simp: next_id_def Let_def split: if_splits)
  show u: "unat (sid_val j) = unat (sid_val i) + 2"
    using lt j by (simp add: unat_word_ariths)
  show "sid_valid j"
    using le by (simp add: sid_valid_def less_eq_stream_id_def j not_less)
qed

lemma next_id_Err_iff:
  assumes "sid_valid i"
  shows "next_id i = Err e \<longleftrightarrow> unat (sid_val i) + 2 \<ge> 2147483648" "next_id i \<noteq> Panic"
proof -
  have lt: "unat (sid_val i) < 2147483648" using assms by (simp add: sid_valid_iff)
  then have "unat (sid_val i + 2) = unat (sid_val i) + 2" by (simp add: unat_word_ariths)
  with lt show "next_id i = Err e \<longleftrightarrow> unat (sid_val i) + 2 \<ge> 2147483648"
    by (cases e) (auto simp add: next_id_def Let_def word_less_nat_alt)
  show "next_id i \<noteq> Panic" using lt by (simp add: next_id_def Let_def)
qed

section \<open>Frame kinds\<close>

datatype kind =
    KindData | KindHeaders | KindPriority | KindReset | KindSettings | KindPushPromise
  | KindPing | KindGoAway | KindWindowUpdate | KindContinuation | KindUnknown

definition kind_new :: "u8 \<Rightarrow> kind" where
  "kind_new byte =
     (if byte = 0 then KindData
      else if byte = 1 then KindHeaders
      else if byte = 2 then KindPriority
      else if byte = 3 then KindReset
      else if byte = 4 then KindSettings
      else if byte = 5 then KindPushPromise
      else if byte = 6 then KindPing
      else if byte = 7 then KindGoAway
      else if byte = 8 then KindWindowUpdate
      else if byte = 9 then KindContinuation
      else KindUnknown)"

text \<open>\<open>self.kind as u8\<close>: the discriminants of \<open>#[repr(u8)] enum Kind\<close>.\<close>

fun kind_as_u8 :: "kind \<Rightarrow> u8" where
  "kind_as_u8 KindData = 0"
| "kind_as_u8 KindHeaders = 1"
| "kind_as_u8 KindPriority = 2"
| "kind_as_u8 KindReset = 3"
| "kind_as_u8 KindSettings = 4"
| "kind_as_u8 KindPushPromise = 5"
| "kind_as_u8 KindPing = 6"
| "kind_as_u8 KindGoAway = 7"
| "kind_as_u8 KindWindowUpdate = 8"
| "kind_as_u8 KindContinuation = 9"
| "kind_as_u8 KindUnknown = 10"

lemma kind_new_as_u8 [simp]: "kind_new (kind_as_u8 k) = k"
  by (cases k) (simp_all add: kind_new_def)

section \<open>Frame heads\<close>

definition HEADER_LEN :: nat where "HEADER_LEN = 9"

record head =
  hd_kind :: kind
  hd_flag :: u8
  hd_stream_id :: stream_id

definition head_new :: "kind \<Rightarrow> u8 \<Rightarrow> stream_id \<Rightarrow> head" where
  "head_new k fl i = \<lparr>hd_kind = k, hd_flag = fl, hd_stream_id = i\<rparr>"

text \<open>\<open>header[5..]\<close>, \<open>header[3]\<close> and \<open>header[4]\<close> panic on a header that is too short; the length
  prefix in bytes 0 to 2 is not read here but by the length delimited codec in front.\<close>

definition head_parse :: "bytes \<Rightarrow> head option" where
  "head_parse header =
     (if length header < 5 then None
      else case stream_id_parse (drop 5 header) of
        None \<Rightarrow> None
      | Some (i, _) \<Rightarrow>
          Some \<lparr>hd_kind = kind_new (header ! 3), hd_flag = header ! 4, hd_stream_id = i\<rparr>)"

definition head_encode :: "head \<Rightarrow> nat \<Rightarrow> bytes \<Rightarrow> bytes" where
  "head_encode h payload_len dst =
     dst @ put_uint3 payload_len @ [kind_as_u8 (hd_kind h)] @ [hd_flag h] @
       put_u32 (sid_val (hd_stream_id h))"

lemma head_new_sel [simp]:
  "hd_kind (head_new k fl i) = k" "hd_flag (head_new k fl i) = fl"
  "hd_stream_id (head_new k fl i) = i"
  by (simp_all add: head_new_def)

lemma length_head_encode [simp]: "length (head_encode h n dst) = length dst + HEADER_LEN"
  by (simp add: head_encode_def HEADER_LEN_def)

lemma head_encode_append: "head_encode h n (dst @ dst') = dst @ head_encode h n dst'"
  by (simp add: head_encode_def)

lemma drop_head_encode [simp]: "drop HEADER_LEN (head_encode h n [] @ rest) = rest"
  by (simp add: HEADER_LEN_def head_encode_def)

lemma put_uint3_Cons: "\<exists>a b c. put_uint3 n = [a, b, c]"
  by (simp add: put_uint3_def Let_def)

lemma head_parse_encode [wire_simps]:
  assumes "sid_valid (hd_stream_id h)"
  shows "head_parse (head_encode h n [] @ rest) = Some h"
proof -
  obtain a b c where "put_uint3 n = [a, b, c]" using put_uint3_Cons by blast
  then show ?thesis
    using assms by (simp add: head_parse_def head_encode_def stream_id_parse_put)
qed

lemma head_encode_length_field:
  assumes "n < 2 ^ 24"
  shows "be_uint3 ((head_encode h n [] @ rest) ! 0) ((head_encode h n [] @ rest) ! 1)
    ((head_encode h n [] @ rest) ! 2) = n"
  using be_uint3_put [OF assms] by (simp add: head_encode_def nth_append)

lemma head_parse_None_iff: "head_parse bs = None \<longleftrightarrow> length bs < HEADER_LEN"
proof (cases "length bs < 9")
  case True
  then have none: "stream_id_parse (drop 5 bs) = None" by simp
  show ?thesis using True by (simp add: head_parse_def HEADER_LEN_def none del: stream_id_parse_None)
next
  case False
  then have "\<not> length (drop 5 bs) < 4" by simp
  then obtain i f where "stream_id_parse (drop 5 bs) = Some (i, f)"
    using stream_id_parse_None [of "drop 5 bs"] by (cases "stream_id_parse (drop 5 bs)") auto
  with False show ?thesis by (simp add: head_parse_def HEADER_LEN_def)
qed

lemma head_parse_valid: "head_parse bs = Some h \<Longrightarrow> sid_valid (hd_stream_id h)"
  by (auto simp: head_parse_def dest: stream_id_parse_valid split: option.splits if_splits)

section \<open>The contract of a frame type\<close>

text \<open>What \<open>decode_frame\<close> does with a frame whose kind it knows: parse the head, drop its nine
  bytes, load the payload.\<close>

definition load_wire ::
  "(head \<Rightarrow> bytes \<Rightarrow> ('f, frame_error) outcome) \<Rightarrow> bytes \<Rightarrow> ('f, frame_error) outcome" where
  "load_wire load bs =
     (case head_parse bs of None \<Rightarrow> Panic | Some h \<Rightarrow> load h (drop HEADER_LEN bs))"

text \<open>Every frame type that the library both sends and receives has an encoder that appends its
  head and payload, and a loader that accepts what the encoder wrote.\<close>

locale frame_codec =
  fixes hd_of :: "'f \<Rightarrow> head"
    and payload_of :: "'f \<Rightarrow> bytes"
    and encode :: "'f \<Rightarrow> bytes \<Rightarrow> bytes"
    and load :: "head \<Rightarrow> bytes \<Rightarrow> ('f, frame_error) outcome"
    and wf :: "'f \<Rightarrow> bool"
  assumes encode_eq: "encode f dst = head_encode (hd_of f) (length (payload_of f)) dst @ payload_of f"
    and load_payload: "wf f \<Longrightarrow> load (hd_of f) (payload_of f) = Ok f"
    and head_valid: "wf f \<Longrightarrow> sid_valid (hd_stream_id (hd_of f))"
    and payload_short: "wf f \<Longrightarrow> length (payload_of f) < 2 ^ 24"
begin

lemma encode_appends: "encode f dst = dst @ encode f []"
  by (simp add: encode_eq head_encode_def)

lemma wire_head: "wf f \<Longrightarrow> head_parse (encode f []) = Some (hd_of f)"
  by (simp only: encode_eq head_parse_encode head_valid)

lemma wire_length_field:
  assumes "wf f"
  shows "be_uint3 (encode f [] ! 0) (encode f [] ! 1) (encode f [] ! 2) + HEADER_LEN
    = length (encode f [])"
proof -
  have "encode f [] = head_encode (hd_of f) (length (payload_of f)) [] @ payload_of f"
    by (rule encode_eq [of f "[]"])
  then show ?thesis
    by (simp only: head_encode_length_field [OF payload_short [OF assms]]) simp
qed

lemma wire_roundtrip: "wf f \<Longrightarrow> load_wire load (encode f []) = Ok f"
proof -
  assume wf: "wf f"
  have "drop HEADER_LEN (encode f []) = payload_of f"
    by (simp only: encode_eq drop_head_encode)
  then show ?thesis by (simp only: load_wire_def wire_head [OF wf] option.case load_payload [OF wf])
qed

lemma encode_inj: "wf f \<Longrightarrow> wf g \<Longrightarrow> encode f [] = encode g [] \<Longrightarrow> f = g"
  by (metis outcome.inject(1) wire_roundtrip)

end

end
