(* ===== verification/Frame_Control.thy ===== *)
theory Frame_Control
  imports Frame_Head
begin

text \<open>
  The connection control frames and the per stream control frames: PING (\<open>src/frame/ping.rs\<close>),
  PRIORITY (\<open>src/frame/priority.rs\<close>), RST_STREAM (\<open>src/frame/reset.rs\<close>), WINDOW_UPDATE
  (\<open>src/frame/window_update.rs\<close>) and GOAWAY (\<open>src/frame/go_away.rs\<close>): loading with every rejected
  payload, encoding, and the interpretation of \<open>frame_codec\<close> for each frame that is sent.
\<close>

section \<open>PING\<close>

record ping =
  ping_ack :: bool
  ping_payload :: bytes

definition PING_ACK_FLAG :: u8 where "PING_ACK_FLAG = 1"

definition SHUTDOWN_PAYLOAD :: bytes where
  "SHUTDOWN_PAYLOAD = [0x0b, 0x7b, 0xa2, 0xf0, 0x8b, 0x9b, 0xfe, 0x54]"

definition USER_PAYLOAD :: bytes where
  "USER_PAYLOAD = [0x3b, 0x7c, 0xdb, 0x7a, 0x0b, 0x87, 0x16, 0xb4]"

definition ping_new :: "bytes \<Rightarrow> ping" where
  "ping_new p = \<lparr>ping_ack = False, ping_payload = p\<rparr>"

definition ping_pong :: "bytes \<Rightarrow> ping" where
  "ping_pong p = \<lparr>ping_ack = True, ping_payload = p\<rparr>"

definition ping_load :: "head \<Rightarrow> bytes \<Rightarrow> (ping, frame_error) outcome" where
  "ping_load h bs =
     (if hd_kind h \<noteq> KindPing then Panic
      else if \<not> sid_is_zero (hd_stream_id h) then Err InvalidStreamId
      else if length bs \<noteq> 8 then Err BadFrameSize
      else Ok \<lparr>ping_ack = (hd_flag h AND PING_ACK_FLAG \<noteq> 0), ping_payload = bs\<rparr>)"

definition ping_head :: "ping \<Rightarrow> head" where
  "ping_head p = head_new KindPing (if ping_ack p then PING_ACK_FLAG else 0) STREAM_ID_ZERO"

definition ping_encode :: "ping \<Rightarrow> bytes \<Rightarrow> bytes" where
  "ping_encode p dst = head_encode (ping_head p) (length (ping_payload p)) dst @ ping_payload p"

definition ping_wf :: "ping \<Rightarrow> bool" where
  "ping_wf p \<longleftrightarrow> length (ping_payload p) = 8"

interpretation ping_wire: frame_codec ping_head ping_payload ping_encode ping_load ping_wf
proof
  fix p dst
  show "ping_encode p dst = head_encode (ping_head p) (length (ping_payload p)) dst @ ping_payload p"
    by (simp add: ping_encode_def)
  assume "ping_wf p"
  then show "ping_load (ping_head p) (ping_payload p) = Ok p"
    "sid_valid (hd_stream_id (ping_head p))" "length (ping_payload p) < 2 ^ 24"
    by (simp_all add: ping_load_def ping_head_def ping_wf_def PING_ACK_FLAG_def)
qed

section \<open>PRIORITY\<close>

record stream_dependency =
  dep_id :: stream_id
  dep_weight :: u8
  dep_is_exclusive :: bool

record priority =
  prio_stream_id :: stream_id
  prio_dependency :: stream_dependency

definition stream_dependency_load :: "bytes \<Rightarrow> (stream_dependency, frame_error) outcome" where
  "stream_dependency_load src =
     (if length src \<noteq> 5 then Err InvalidPayloadLength
      else bind_outcome (or_panic (stream_id_parse (take 4 src))) (\<lambda>(i, exclusive).
        Ok \<lparr>dep_id = i, dep_weight = src ! 4, dep_is_exclusive = exclusive\<rparr>))"

definition priority_load :: "head \<Rightarrow> bytes \<Rightarrow> (priority, frame_error) outcome" where
  "priority_load h payload =
     bind_outcome (stream_dependency_load payload) (\<lambda>dep.
       if dep_id dep = hd_stream_id h then Err InvalidDependencyId
       else Ok \<lparr>prio_stream_id = hd_stream_id h, prio_dependency = dep\<rparr>)"

lemma stream_dependency_load_no_panic [simp]: "stream_dependency_load src \<noteq> Panic"
  using stream_id_parse_None [of "take 4 src"]
  by (auto simp: stream_dependency_load_def bind_outcome_Panic_iff)

lemma priority_load_no_panic: "priority_load h payload \<noteq> Panic"
  by (simp add: priority_load_def bind_outcome_Panic_iff)

lemma priority_load_not_self:
  "priority_load h payload = Ok p \<Longrightarrow> dep_id (prio_dependency p) \<noteq> prio_stream_id p"
  by (auto simp: priority_load_def bind_outcome_Ok_iff split: if_splits)

section \<open>RST\_STREAM\<close>

record reset =
  rst_stream_id :: stream_id
  rst_error_code :: reason

definition reset_new :: "stream_id \<Rightarrow> reason \<Rightarrow> reset" where
  "reset_new i e = \<lparr>rst_stream_id = i, rst_error_code = e\<rparr>"

definition reset_load :: "head \<Rightarrow> bytes \<Rightarrow> (reset, frame_error) outcome" where
  "reset_load h payload =
     (if length payload \<noteq> 4 then Err InvalidPayloadLength
      else bind_outcome (or_panic (unpack_octets_4 payload 0)) (\<lambda>code.
        Ok \<lparr>rst_stream_id = hd_stream_id h, rst_error_code = Reason code\<rparr>))"

definition reset_head :: "reset \<Rightarrow> head" where
  "reset_head r = head_new KindReset 0 (rst_stream_id r)"

definition reset_encode :: "reset \<Rightarrow> bytes \<Rightarrow> bytes" where
  "reset_encode r dst = head_encode (reset_head r) 4 dst @ put_u32 (reason_code (rst_error_code r))"

definition reset_payload :: "reset \<Rightarrow> bytes" where
  "reset_payload r = put_u32 (reason_code (rst_error_code r))"

definition reset_wf :: "reset \<Rightarrow> bool" where
  "reset_wf r \<longleftrightarrow> sid_valid (rst_stream_id r)"

interpretation reset_wire: frame_codec reset_head reset_payload reset_encode reset_load reset_wf
proof
  fix r dst
  show "reset_encode r dst = head_encode (reset_head r) (length (reset_payload r)) dst @ reset_payload r"
    by (simp add: reset_encode_def reset_payload_def)
  assume "reset_wf r"
  then show "reset_load (reset_head r) (reset_payload r) = Ok r"
    "sid_valid (hd_stream_id (reset_head r))" "length (reset_payload r) < 2 ^ 24"
    using unpack_put_u32 [of "reason_code (rst_error_code r)" "[]"]
    by (simp_all add: reset_load_def reset_head_def reset_payload_def reset_wf_def)
qed

section \<open>WINDOW\_UPDATE\<close>

record window_update =
  wu_stream_id :: stream_id
  wu_size_increment :: u32

definition SIZE_INCREMENT_MASK :: u32 where "SIZE_INCREMENT_MASK = push_bit 31 1"

definition window_update_new :: "stream_id \<Rightarrow> u32 \<Rightarrow> window_update" where
  "window_update_new i n = \<lparr>wu_stream_id = i, wu_size_increment = n\<rparr>"

definition window_update_load :: "head \<Rightarrow> bytes \<Rightarrow> (window_update, frame_error) outcome" where
  "window_update_load h payload =
     (if hd_kind h \<noteq> KindWindowUpdate then Panic
      else if length payload \<noteq> 4 then Err BadFrameSize
      else bind_outcome (or_panic (unpack_octets_4 payload 0)) (\<lambda>raw.
        let size_increment = raw AND NOT SIZE_INCREMENT_MASK in
        if size_increment = 0 then Err InvalidWindowUpdateValue
        else Ok \<lparr>wu_stream_id = hd_stream_id h, wu_size_increment = size_increment\<rparr>))"

definition window_update_head :: "window_update \<Rightarrow> head" where
  "window_update_head w = head_new KindWindowUpdate 0 (wu_stream_id w)"

definition window_update_encode :: "window_update \<Rightarrow> bytes \<Rightarrow> bytes" where
  "window_update_encode w dst =
     head_encode (window_update_head w) 4 dst @ put_u32 (wu_size_increment w)"

definition window_update_payload :: "window_update \<Rightarrow> bytes" where
  "window_update_payload w = put_u32 (wu_size_increment w)"

definition window_update_wf :: "window_update \<Rightarrow> bool" where
  "window_update_wf w \<longleftrightarrow> sid_valid (wu_stream_id w) \<and> wu_size_increment w \<noteq> 0
     \<and> unat (wu_size_increment w) < 2147483648"

lemma window_update_load_eq:
  "window_update_load h payload =
     (if hd_kind h \<noteq> KindWindowUpdate then Panic
      else if length payload \<noteq> 4 then Err BadFrameSize
      else bind_outcome (or_panic (unpack_octets_4 payload 0)) (\<lambda>raw.
        if take_bit 31 raw = 0 then Err InvalidWindowUpdateValue
        else Ok \<lparr>wu_stream_id = hd_stream_id h, wu_size_increment = take_bit 31 raw\<rparr>))"
  by (simp only: window_update_load_def SIZE_INCREMENT_MASK_def clear_msb_u32 Let_def)

lemma window_update_load_range:
  assumes "window_update_load h payload = Ok w"
  shows "0 < unat (wu_size_increment w)" "unat (wu_size_increment w) < 2147483648"
proof -
  from assms obtain raw where "wu_size_increment w = take_bit 31 raw" "take_bit 31 raw \<noteq> 0"
    by (auto simp: window_update_load_eq bind_outcome_Ok_iff split: if_splits)
  then show "0 < unat (wu_size_increment w)" "unat (wu_size_increment w) < 2147483648"
    using unat_take_bit_31 [of raw] by (simp_all add: unat_gt_0)
qed

interpretation window_update_wire: frame_codec window_update_head window_update_payload
  window_update_encode window_update_load window_update_wf
proof
  fix w dst
  show "window_update_encode w dst =
      head_encode (window_update_head w) (length (window_update_payload w)) dst
        @ window_update_payload w"
    by (simp add: window_update_encode_def window_update_payload_def)
  assume wf: "window_update_wf w"
  then show "window_update_load (window_update_head w) (window_update_payload w) = Ok w"
    using unpack_put_u32 [of "wu_size_increment w" "[]"]
    by (simp add: window_update_load_eq window_update_head_def window_update_payload_def
        window_update_wf_def take_bit_31_id)
  from wf show "sid_valid (hd_stream_id (window_update_head w))"
    "length (window_update_payload w) < 2 ^ 24"
    by (simp_all add: window_update_head_def window_update_payload_def window_update_wf_def)
qed

section \<open>GOAWAY\<close>

record go_away_frame =
  ga_last_stream_id :: stream_id
  ga_error_code :: reason
  ga_debug_data :: bytes

definition go_away_new :: "stream_id \<Rightarrow> reason \<Rightarrow> go_away_frame" where
  "go_away_new i r = \<lparr>ga_last_stream_id = i, ga_error_code = r, ga_debug_data = []\<rparr>"

definition go_away_with_debug_data :: "stream_id \<Rightarrow> reason \<Rightarrow> bytes \<Rightarrow> go_away_frame" where
  "go_away_with_debug_data i r d = \<lparr>ga_last_stream_id = i, ga_error_code = r, ga_debug_data = d\<rparr>"

definition go_away_load :: "head \<Rightarrow> bytes \<Rightarrow> (go_away_frame, frame_error) outcome" where
  "go_away_load h payload =
     (if hd_kind h \<noteq> KindGoAway then Panic
      else if \<not> sid_is_zero (hd_stream_id h) then Err InvalidStreamId
      else if length payload < 8 then Err BadFrameSize
      else bind_outcome (or_panic (stream_id_parse (take 4 payload))) (\<lambda>(last_stream_id, _).
        bind_outcome (or_panic (unpack_octets_4 payload 4)) (\<lambda>code.
        Ok \<lparr>ga_last_stream_id = last_stream_id, ga_error_code = Reason code,
            ga_debug_data = drop 8 payload\<rparr>)))"

definition go_away_head :: "go_away_frame \<Rightarrow> head" where
  "go_away_head g = head_new KindGoAway 0 STREAM_ID_ZERO"

definition go_away_encode :: "go_away_frame \<Rightarrow> bytes \<Rightarrow> bytes" where
  "go_away_encode g dst =
     head_encode (go_away_head g) (8 + length (ga_debug_data g)) dst
       @ put_u32 (sid_val (ga_last_stream_id g)) @ put_u32 (reason_code (ga_error_code g))
       @ ga_debug_data g"

definition go_away_payload :: "go_away_frame \<Rightarrow> bytes" where
  "go_away_payload g =
     put_u32 (sid_val (ga_last_stream_id g)) @ put_u32 (reason_code (ga_error_code g))
       @ ga_debug_data g"

definition go_away_wf :: "go_away_frame \<Rightarrow> bool" where
  "go_away_wf g \<longleftrightarrow> sid_valid (ga_last_stream_id g) \<and> length (ga_debug_data g) + 8 < 2 ^ 24"

lemma go_away_load_payload:
  assumes "go_away_wf g"
  shows "go_away_load (go_away_head g) (go_away_payload g) = Ok g"
proof -
  let ?i = "put_u32 (sid_val (ga_last_stream_id g))" and ?c = "put_u32 (reason_code (ga_error_code g))"
  have i: "stream_id_parse (take 4 (go_away_payload g)) = Some (ga_last_stream_id g, False)"
    using assms stream_id_parse_put [of "ga_last_stream_id g" "[]"]
    by (simp add: go_away_payload_def go_away_wf_def)
  have c: "unpack_octets_4 (go_away_payload g) 4 = Some (reason_code (ga_error_code g))"
    using unpack_octets_4_drop [of ?i "?c @ ga_debug_data g"]
    by (simp add: go_away_payload_def unpack_put_u32)
  have "drop 8 (go_away_payload g) = ga_debug_data g" "\<not> length (go_away_payload g) < 8"
    by (simp_all add: go_away_payload_def)
  with i c show ?thesis by (simp add: go_away_load_def go_away_head_def)
qed

interpretation go_away_wire: frame_codec go_away_head go_away_payload go_away_encode go_away_load
  go_away_wf
proof
  fix g dst
  show "go_away_encode g dst =
      head_encode (go_away_head g) (length (go_away_payload g)) dst @ go_away_payload g"
    by (simp add: go_away_encode_def go_away_payload_def add.commute)
  assume wf: "go_away_wf g"
  then show "go_away_load (go_away_head g) (go_away_payload g) = Ok g"
    by (rule go_away_load_payload)
  from wf show "sid_valid (hd_stream_id (go_away_head g))" "length (go_away_payload g) < 2 ^ 24"
    by (simp_all add: go_away_head_def go_away_payload_def go_away_wf_def)
qed

end
