(* ===== verification/Frame_Settings.thy ===== *)
theory Frame_Settings
  imports Frame_Head
begin

text \<open>
  The SETTINGS frame (\<open>src/frame/settings.rs\<close>): the seven settings the library knows, loading of
  a payload in chunks of six bytes with every rejected value, encoding, and the interpretation of
  \<open>frame_codec\<close>.
\<close>

section \<open>Settings and their values\<close>

record settings =
  set_flags :: u8
  set_header_table_size :: "u32 option"
  set_enable_push :: "u32 option"
  set_max_concurrent_streams :: "u32 option"
  set_initial_window_size :: "u32 option"
  set_max_frame_size :: "u32 option"
  set_max_header_list_size :: "u32 option"
  set_enable_connect_protocol :: "u32 option"

datatype setting =
    HeaderTableSize u32
  | EnablePush u32
  | MaxConcurrentStreams u32
  | InitialWindowSize u32
  | MaxFrameSize u32
  | MaxHeaderListSize u32
  | EnableConnectProtocol u32

definition SETTINGS_ACK :: u8 where "SETTINGS_ACK = 1"

definition SETTINGS_ALL :: u8 where "SETTINGS_ALL = SETTINGS_ACK"

definition DEFAULT_SETTINGS_HEADER_TABLE_SIZE :: nat where
  "DEFAULT_SETTINGS_HEADER_TABLE_SIZE = 4096"

definition DEFAULT_INITIAL_WINDOW_SIZE :: u32 where "DEFAULT_INITIAL_WINDOW_SIZE = 65535"

definition DEFAULT_MAX_FRAME_SIZE :: u32 where "DEFAULT_MAX_FRAME_SIZE = 16384"

definition MAX_INITIAL_WINDOW_SIZE :: nat where "MAX_INITIAL_WINDOW_SIZE = 2 ^ 31 - 1"

definition MAX_MAX_FRAME_SIZE :: u32 where "MAX_MAX_FRAME_SIZE = push_bit 24 1 - 1"

definition settings_flags_load :: "u8 \<Rightarrow> u8" where
  "settings_flags_load bits = bits AND SETTINGS_ALL"

definition settings_flags_is_ack :: "u8 \<Rightarrow> bool" where
  "settings_flags_is_ack fl \<longleftrightarrow> fl AND SETTINGS_ACK = SETTINGS_ACK"

definition settings_default :: settings where
  "settings_default = \<lparr>set_flags = 0, set_header_table_size = None, set_enable_push = None,
     set_max_concurrent_streams = None, set_initial_window_size = None, set_max_frame_size = None,
     set_max_header_list_size = None, set_enable_connect_protocol = None\<rparr>"

definition settings_ack :: settings where
  "settings_ack = settings_default\<lparr>set_flags := SETTINGS_ACK\<rparr>"

definition settings_is_ack :: "settings \<Rightarrow> bool" where
  "settings_is_ack s = settings_flags_is_ack (set_flags s)"

definition settings_is_push_enabled :: "settings \<Rightarrow> bool option" where
  "settings_is_push_enabled s = map_option (\<lambda>v. v \<noteq> 0) (set_enable_push s)"

definition settings_set_enable_push :: "settings \<Rightarrow> bool \<Rightarrow> settings" where
  "settings_set_enable_push s enable = s\<lparr>set_enable_push := Some (if enable then 1 else 0)\<rparr>"

definition settings_is_extended_connect_protocol_enabled :: "settings \<Rightarrow> bool option" where
  "settings_is_extended_connect_protocol_enabled s =
     map_option (\<lambda>v. v \<noteq> 0) (set_enable_connect_protocol s)"

text \<open>The setter of the frame size asserts the range that RFC 9113 allows; \<open>None\<close> is its panic.\<close>

definition settings_set_max_frame_size :: "settings \<Rightarrow> u32 option \<Rightarrow> settings option" where
  "settings_set_max_frame_size s sz =
     (case sz of
        None \<Rightarrow> Some (s\<lparr>set_max_frame_size := None\<rparr>)
      | Some v \<Rightarrow>
          if DEFAULT_MAX_FRAME_SIZE \<le> v \<and> v \<le> MAX_MAX_FRAME_SIZE
          then Some (s\<lparr>set_max_frame_size := Some v\<rparr>) else None)"

section \<open>One setting\<close>

definition setting_from_id :: "u16 \<Rightarrow> u32 \<Rightarrow> setting option" where
  "setting_from_id i val =
     (if i = 1 then Some (HeaderTableSize val)
      else if i = 2 then Some (EnablePush val)
      else if i = 3 then Some (MaxConcurrentStreams val)
      else if i = 4 then Some (InitialWindowSize val)
      else if i = 5 then Some (MaxFrameSize val)
      else if i = 6 then Some (MaxHeaderListSize val)
      else if i = 8 then Some (EnableConnectProtocol val)
      else None)"

text \<open>\<open>raw[0]\<close>, \<open>raw[1]\<close> and the four octets after them; a shorter slice panics.\<close>

definition setting_load :: "bytes \<Rightarrow> (setting option, frame_error) outcome" where
  "setting_load raw =
     (if length raw < 2 then Panic
      else bind_outcome (or_panic (unpack_octets_4 raw 2)) (\<lambda>val.
        Ok (setting_from_id (push_bit 8 (ucast (raw ! 0)) OR ucast (raw ! 1)) val)))"

fun setting_encode_pair :: "setting \<Rightarrow> u16 \<times> u32" where
  "setting_encode_pair (HeaderTableSize v) = (1, v)"
| "setting_encode_pair (EnablePush v) = (2, v)"
| "setting_encode_pair (MaxConcurrentStreams v) = (3, v)"
| "setting_encode_pair (InitialWindowSize v) = (4, v)"
| "setting_encode_pair (MaxFrameSize v) = (5, v)"
| "setting_encode_pair (MaxHeaderListSize v) = (6, v)"
| "setting_encode_pair (EnableConnectProtocol v) = (8, v)"

definition setting_encode :: "setting \<Rightarrow> bytes \<Rightarrow> bytes" where
  "setting_encode s dst = (case setting_encode_pair s of (k, val) \<Rightarrow> dst @ put_u16 k @ put_u32 val)"

section \<open>Loading\<close>

text \<open>The body of the loop over \<open>payload.chunks(6)\<close>.\<close>

fun settings_load_one :: "settings \<Rightarrow> setting option \<Rightarrow> (settings, frame_error) outcome" where
  "settings_load_one s (Some (HeaderTableSize v)) = Ok (s\<lparr>set_header_table_size := Some v\<rparr>)"
| "settings_load_one s (Some (EnablePush v)) =
     (if v = 0 \<or> v = 1 then Ok (s\<lparr>set_enable_push := Some v\<rparr>) else Err InvalidSettingValue)"
| "settings_load_one s (Some (MaxConcurrentStreams v)) =
     Ok (s\<lparr>set_max_concurrent_streams := Some v\<rparr>)"
| "settings_load_one s (Some (InitialWindowSize v)) =
     (if unat v > MAX_INITIAL_WINDOW_SIZE then Err InvalidSettingValue
      else Ok (s\<lparr>set_initial_window_size := Some v\<rparr>))"
| "settings_load_one s (Some (MaxFrameSize v)) =
     (if DEFAULT_MAX_FRAME_SIZE \<le> v \<and> v \<le> MAX_MAX_FRAME_SIZE
      then Ok (s\<lparr>set_max_frame_size := Some v\<rparr>) else Err InvalidSettingValue)"
| "settings_load_one s (Some (MaxHeaderListSize v)) =
     Ok (s\<lparr>set_max_header_list_size := Some v\<rparr>)"
| "settings_load_one s (Some (EnableConnectProtocol v)) =
     (if v = 0 \<or> v = 1 then Ok (s\<lparr>set_enable_connect_protocol := Some v\<rparr>)
      else Err InvalidSettingValue)"
| "settings_load_one s None = Ok s"

function settings_load_chunks :: "settings \<Rightarrow> bytes \<Rightarrow> (settings, frame_error) outcome" where
  "settings_load_chunks s payload =
     (if payload = [] then Ok s
      else bind_outcome (setting_load (take 6 payload)) (\<lambda>st.
        bind_outcome (settings_load_one s st) (\<lambda>s'.
          settings_load_chunks s' (drop 6 payload))))"
  by pat_completeness auto

termination by (relation "measure (\<lambda>(s, payload). length payload)") auto

declare settings_load_chunks.simps [simp del]

definition settings_load :: "head \<Rightarrow> bytes \<Rightarrow> (settings, frame_error) outcome" where
  "settings_load h payload =
     (if hd_kind h \<noteq> KindSettings then Panic
      else if \<not> sid_is_zero (hd_stream_id h) then Err InvalidStreamId
      else let fl = settings_flags_load (hd_flag h) in
        if settings_flags_is_ack fl
        then (if payload \<noteq> [] then Err InvalidPayloadLength else Ok settings_ack)
        else if length payload mod 6 \<noteq> 0 then Err InvalidPayloadAckSettings
        else settings_load_chunks settings_default payload)"

section \<open>Encoding\<close>

fun for_field :: "('a \<Rightarrow> 'b) \<Rightarrow> 'a option \<Rightarrow> 'b list" where
  "for_field f None = []"
| "for_field f (Some v) = [f v]"

text \<open>\<open>for_each\<close> calls its closure on these settings, in this order.\<close>

definition settings_for_each :: "settings \<Rightarrow> setting list" where
  "settings_for_each s =
     for_field HeaderTableSize (set_header_table_size s) @
     for_field EnablePush (set_enable_push s) @
     for_field MaxConcurrentStreams (set_max_concurrent_streams s) @
     for_field InitialWindowSize (set_initial_window_size s) @
     for_field MaxFrameSize (set_max_frame_size s) @
     for_field MaxHeaderListSize (set_max_header_list_size s) @
     for_field EnableConnectProtocol (set_enable_connect_protocol s)"

definition settings_payload_len :: "settings \<Rightarrow> nat" where
  "settings_payload_len s = foldl (\<lambda>n _. n + 6) 0 (settings_for_each s)"

definition settings_head :: "settings \<Rightarrow> head" where
  "settings_head s = head_new KindSettings (set_flags s) STREAM_ID_ZERO"

definition settings_encode :: "settings \<Rightarrow> bytes \<Rightarrow> bytes" where
  "settings_encode s dst =
     foldl (\<lambda>b st. setting_encode st b)
       (head_encode (settings_head s) (settings_payload_len s) dst) (settings_for_each s)"

definition settings_payload :: "settings \<Rightarrow> bytes" where
  "settings_payload s = concat (map (\<lambda>st. setting_encode st []) (settings_for_each s))"

definition settings_values_ok :: "settings \<Rightarrow> bool" where
  "settings_values_ok s \<longleftrightarrow>
     (case set_enable_push s of None \<Rightarrow> True | Some v \<Rightarrow> v = 0 \<or> v = 1) \<and>
     (case set_initial_window_size s of None \<Rightarrow> True | Some v \<Rightarrow> unat v \<le> MAX_INITIAL_WINDOW_SIZE) \<and>
     (case set_max_frame_size s of None \<Rightarrow> True
        | Some v \<Rightarrow> DEFAULT_MAX_FRAME_SIZE \<le> v \<and> v \<le> MAX_MAX_FRAME_SIZE) \<and>
     (case set_enable_connect_protocol s of None \<Rightarrow> True | Some v \<Rightarrow> v = 0 \<or> v = 1)"

definition settings_wf :: "settings \<Rightarrow> bool" where
  "settings_wf s \<longleftrightarrow> s = settings_ack \<or> (set_flags s = 0 \<and> settings_values_ok s)"

lemma length_setting_encode [simp]: "length (setting_encode st dst) = length dst + 6"
  by (simp add: setting_encode_def split: prod.split)

lemma setting_encode_append: "setting_encode st dst = dst @ setting_encode st []"
  by (simp add: setting_encode_def split: prod.split)

lemma take_6_setting_encode [simp]:
  "take 6 (setting_encode st [] @ rest) = setting_encode st []"
  "drop 6 (setting_encode st [] @ rest) = rest"
  by simp_all

lemma setting_encode_not_Nil [simp]: "setting_encode st dst \<noteq> []"
  by (metis length_setting_encode add_is_0 list.size(3) zero_neq_numeral)

lemma setting_load_encode [wire_simps]: "setting_load (setting_encode st []) = Ok (Some st)"
proof -
  have k: "push_bit 8 (ucast (ucast (drop_bit 8 w) :: u8)) OR ucast (ucast w :: u8) = (w :: u16)" for w
    using be_u16_put [of w] by (simp add: be_u16_def)
  have val: "unpack_octets_4 (put_u16 w @ put_u32 v) 2 = Some v" for w v
    using unpack_octets_4_drop [of "put_u16 w" "put_u32 v"] unpack_put_u32 [of v "[]"] by simp
  show ?thesis
    by (cases st) (simp_all add: setting_encode_def setting_load_def val,
        simp_all add: put_u16_def setting_from_id_def)
qed

lemma settings_load_chunks_encode:
  "settings_load_chunks s (setting_encode st [] @ rest) =
     bind_outcome (settings_load_one s (Some st)) (\<lambda>s'. settings_load_chunks s' rest)"
  by (subst settings_load_chunks.simps) (simp add: setting_load_encode)

lemma settings_payload_len_eq: "settings_payload_len s = 6 * length (settings_for_each s)"
proof -
  have "foldl (\<lambda>n _. n + 6) k xs = k + 6 * length xs" for k :: nat and xs :: "setting list"
    by (induction xs arbitrary: k) auto
  then show ?thesis by (simp add: settings_payload_len_def)
qed

lemma length_settings_payload [simp]: "length (settings_payload s) = settings_payload_len s"
proof -
  have "length (concat (map (\<lambda>st. setting_encode st []) xs)) = 6 * length xs" for xs
    by (induction xs) auto
  then show ?thesis by (simp add: settings_payload_def settings_payload_len_eq)
qed

lemma settings_encode_eq:
  "settings_encode s dst =
     head_encode (settings_head s) (length (settings_payload s)) dst @ settings_payload s"
proof -
  have "foldl (\<lambda>b st. setting_encode st b) b xs = b @ concat (map (\<lambda>st. setting_encode st []) xs)" for b xs
  proof (induction xs arbitrary: b)
    case (Cons st xs)
    show ?case by (simp add: Cons.IH) (subst setting_encode_append, simp)
  qed simp
  then show ?thesis by (simp add: settings_encode_def settings_payload_def [symmetric])
qed

lemma length_settings_for_each: "length (settings_for_each s) \<le> 7"
proof -
  have le: "length (for_field (f :: u32 \<Rightarrow> setting) v) \<le> 1" for f v by (cases v) auto
  show ?thesis
    using le [of HeaderTableSize "set_header_table_size s"] le [of EnablePush "set_enable_push s"]
      le [of MaxConcurrentStreams "set_max_concurrent_streams s"]
      le [of InitialWindowSize "set_initial_window_size s"] le [of MaxFrameSize "set_max_frame_size s"]
      le [of MaxHeaderListSize "set_max_header_list_size s"]
      le [of EnableConnectProtocol "set_enable_connect_protocol s"]
    by (simp add: settings_for_each_def)
qed

section \<open>What a loaded frame contains\<close>

fun settings_load_list :: "settings \<Rightarrow> setting list \<Rightarrow> (settings, frame_error) outcome" where
  "settings_load_list s [] = Ok s"
| "settings_load_list s (st # sts) =
     bind_outcome (settings_load_one s (Some st)) (\<lambda>s'. settings_load_list s' sts)"

lemma settings_load_chunks_list:
  "settings_load_chunks s (concat (map (\<lambda>st. setting_encode st []) sts)) = settings_load_list s sts"
proof (induction sts arbitrary: s)
  case Nil
  show ?case by (simp add: settings_load_chunks.simps)
next
  case (Cons st sts)
  show ?case by (simp add: settings_load_chunks_encode Cons.IH)
qed

lemma settings_load_list_append:
  "settings_load_list s (xs @ ys) =
     bind_outcome (settings_load_list s xs) (\<lambda>s'. settings_load_list s' ys)"
proof (induction xs arbitrary: s)
  case (Cons x xs)
  show ?case by (cases "settings_load_one s (Some x)") (simp_all add: Cons.IH)
qed simp

lemma for_field_eq: "for_field f v = (case v of None \<Rightarrow> [] | Some x \<Rightarrow> [f x])"
  by (cases v) simp_all

lemma settings_load_list_fields:
  "set_header_table_size s = None \<Longrightarrow>
     settings_load_list s (for_field HeaderTableSize o1) =
       Ok (s\<lparr>set_header_table_size := o1\<rparr>)"
  "set_enable_push s = None \<Longrightarrow> (case o2 of None \<Rightarrow> True | Some v \<Rightarrow> v = 0 \<or> v = 1) \<Longrightarrow>
     settings_load_list s (for_field EnablePush o2) =
       Ok (s\<lparr>set_enable_push := o2\<rparr>)"
  "set_max_concurrent_streams s = None \<Longrightarrow>
     settings_load_list s (for_field MaxConcurrentStreams o3) =
       Ok (s\<lparr>set_max_concurrent_streams := o3\<rparr>)"
  "set_initial_window_size s = None \<Longrightarrow>
     (case o4 of None \<Rightarrow> True | Some v \<Rightarrow> unat v \<le> MAX_INITIAL_WINDOW_SIZE) \<Longrightarrow>
     settings_load_list s (for_field InitialWindowSize o4) =
       Ok (s\<lparr>set_initial_window_size := o4\<rparr>)"
  "set_max_frame_size s = None \<Longrightarrow>
     (case o5 of None \<Rightarrow> True | Some v \<Rightarrow> DEFAULT_MAX_FRAME_SIZE \<le> v \<and> v \<le> MAX_MAX_FRAME_SIZE) \<Longrightarrow>
     settings_load_list s (for_field MaxFrameSize o5) =
       Ok (s\<lparr>set_max_frame_size := o5\<rparr>)"
  "set_max_header_list_size s = None \<Longrightarrow>
     settings_load_list s (for_field MaxHeaderListSize o6) =
       Ok (s\<lparr>set_max_header_list_size := o6\<rparr>)"
  "set_enable_connect_protocol s = None \<Longrightarrow> (case o7 of None \<Rightarrow> True | Some v \<Rightarrow> v = 0 \<or> v = 1) \<Longrightarrow>
     settings_load_list s (for_field EnableConnectProtocol o7) =
       Ok (s\<lparr>set_enable_connect_protocol := o7\<rparr>)"
  by (cases s, auto simp: for_field_eq split: option.splits)+

lemma settings_load_payload:
  assumes "set_flags s = 0" "settings_values_ok s"
  shows "settings_load_chunks settings_default (settings_payload s) = Ok s"
  using assms unfolding settings_payload_def settings_load_chunks_list settings_for_each_def
  by (simp add: settings_load_list_append settings_default_def settings_load_list_fields
      settings_values_ok_def)

lemma settings_load_one_ok:
  "settings_load_one s st = Ok s' \<Longrightarrow> settings_values_ok s \<Longrightarrow>
     settings_values_ok s' \<and> set_flags s' = set_flags s"
  by (cases "(s, st)" rule: settings_load_one.cases)
    (auto simp: settings_values_ok_def split: if_splits)

lemma settings_load_chunks_ok:
  "settings_load_chunks s payload = Ok s' \<Longrightarrow> settings_values_ok s \<Longrightarrow>
     settings_values_ok s' \<and> set_flags s' = set_flags s"
proof (induction s payload rule: settings_load_chunks.induct)
  case (1 s payload)
  show ?case
  proof (cases "payload = []")
    case True
    then show ?thesis using 1 by (simp add: settings_load_chunks.simps)
  next
    case False
    then obtain st t where st: "setting_load (take 6 payload) = Ok st" "settings_load_one s st = Ok t"
      and rec: "settings_load_chunks t (drop 6 payload) = Ok s'"
      using "1.prems"(1) by (auto simp: settings_load_chunks.simps [of s] bind_outcome_Ok_iff)
    show ?thesis
      using "1.IH" [OF False rec] settings_load_one_ok [OF st(2) "1.prems"(2)] by simp
  qed
qed

lemma settings_default_ok [simp]: "settings_values_ok settings_default" "set_flags settings_default = 0"
  by (simp_all add: settings_default_def settings_values_ok_def)

lemma settings_load_wf: "settings_load h payload = Ok s \<Longrightarrow> settings_wf s"
  using settings_load_chunks_ok [of settings_default payload s]
  by (auto simp: settings_load_def settings_wf_def Let_def split: if_splits)

lemma setting_load_no_panic: "6 \<le> length raw \<Longrightarrow> setting_load raw \<noteq> Panic"
  by (auto simp: setting_load_def bind_outcome_Panic_iff)

lemma settings_load_one_no_panic [simp]: "settings_load_one s st \<noteq> Panic"
  by (cases "(s, st)" rule: settings_load_one.cases) auto

lemma settings_load_chunks_no_panic:
  "length payload mod 6 = 0 \<Longrightarrow> settings_load_chunks s payload \<noteq> Panic"
proof (induction s payload rule: settings_load_chunks.induct)
  case (1 s payload)
  show ?case
  proof (cases "payload = []")
    case True
    then show ?thesis by (simp add: settings_load_chunks.simps)
  next
    case False
    have "6 \<le> length payload"
      using False "1.prems" by (metis dvd_imp_le length_greater_0_conv mod_0_imp_dvd)
    then have m: "length (drop 6 payload) mod 6 = 0" "setting_load (take 6 payload) \<noteq> Panic"
      using "1.prems" by (simp_all add: setting_load_no_panic le_mod_geq [symmetric])
    then show ?thesis
      using "1.IH" [OF False m(1)]
      by (auto simp: settings_load_chunks.simps [of s] bind_outcome_Panic_iff)
  qed
qed

lemma settings_head_sel [simp]:
  "hd_kind (settings_head s) = KindSettings" "hd_flag (settings_head s) = set_flags s"
  "hd_stream_id (settings_head s) = STREAM_ID_ZERO"
  by (simp_all add: settings_head_def)

interpretation settings_wire: frame_codec settings_head settings_payload settings_encode settings_load
  settings_wf
proof
  fix s dst
  show "settings_encode s dst =
      head_encode (settings_head s) (length (settings_payload s)) dst @ settings_payload s"
    by (rule settings_encode_eq)
  show "length (settings_payload s) < 2 ^ 24"
    using length_settings_for_each [of s] by (simp add: settings_payload_len_eq)
  show "sid_valid (hd_stream_id (settings_head s))" by simp
  assume "settings_wf s"
  then consider "s = settings_ack" | "set_flags s = 0" "settings_values_ok s"
    by (auto simp: settings_wf_def)
  then show "settings_load (settings_head s) (settings_payload s) = Ok s"
  proof cases
    case 1
    then show ?thesis
      by (simp add: settings_load_def settings_flags_load_def settings_flags_is_ack_def
          settings_ack_def settings_default_def SETTINGS_ACK_def SETTINGS_ALL_def settings_payload_def
          settings_for_each_def)
  next
    case 2
    have "settings_payload_len s mod 6 = 0" by (simp add: settings_payload_len_eq)
    with 2 show ?thesis
      by (simp add: settings_load_def settings_load_payload settings_flags_load_def
          settings_flags_is_ack_def SETTINGS_ACK_def)
  qed
qed

end
