(* ===== verification/Frame_Data.thy ===== *)
theory Frame_Data
  imports Frame_Head
begin

text \<open>
  The DATA frame (\<open>src/frame/data.rs\<close>) and the removal of padding (\<open>src/frame/util.rs\<close>): loading,
  the length that counts against the flow control windows, encoding of a chunk, and the
  interpretation of \<open>frame_codec\<close> for the unpadded frames that the library sends.
\<close>

section \<open>Padding\<close>

text \<open>\<open>strip_padding\<close> has \<open>&mut Bytes\<close>: the payload is part of the result. \<open>advance(1)\<close> and
  \<open>truncate\<close> are \<open>drop 1\<close> and \<open>take\<close>.\<close>

definition strip_padding :: "bytes \<Rightarrow> (u8 \<times> bytes, frame_error) outcome" where
  "strip_padding payload =
     (let payload_len = length payload in
      if payload_len = 0 then Err TooMuchPadding
      else let pad_len = unat (payload ! 0) in
        if pad_len \<ge> payload_len then Err TooMuchPadding
        else Ok (of_nat pad_len, take (payload_len - pad_len - 1) (drop 1 payload)))"

lemma strip_padding_no_panic [simp]: "strip_padding payload \<noteq> Panic"
  by (simp add: strip_padding_def Let_def)

lemma strip_padding_Ok_iff:
  "strip_padding payload = Ok (pad, rest) \<longleftrightarrow>
     (\<exists>padding. payload = pad # rest @ padding \<and> length padding = unat pad)"
proof
  assume ok: "strip_padding payload = Ok (pad, rest)"
  then obtain b bs where p: "payload = b # bs" by (cases payload) (auto simp: strip_padding_def)
  have le: "unat b \<le> length bs" and pad: "pad = b" and rest: "rest = take (length bs - unat b) bs"
    using ok by (auto simp: strip_padding_def p Let_def not_le split: if_splits)
  have "payload = pad # rest @ drop (length bs - unat b) bs" by (simp add: p pad rest)
  moreover have "length (drop (length bs - unat b) bs) = unat pad" using le pad by simp
  ultimately show "\<exists>padding. payload = pad # rest @ padding \<and> length padding = unat pad" by blast
next
  assume "\<exists>padding. payload = pad # rest @ padding \<and> length padding = unat pad"
  then show "strip_padding payload = Ok (pad, rest)"
    by (auto simp: strip_padding_def Let_def)
qed

section \<open>DATA frames\<close>

record 'b data_frame =
  data_stream_id :: stream_id
  data_data :: 'b
  data_flags :: u8
  data_pad_len :: "u8 option"

definition DATA_END_STREAM :: u8 where "DATA_END_STREAM = 1"
definition DATA_PADDED :: u8 where "DATA_PADDED = 8"
definition DATA_ALL :: u8 where "DATA_ALL = DATA_END_STREAM OR DATA_PADDED"

definition data_flags_load :: "u8 \<Rightarrow> u8" where
  "data_flags_load bits = bits AND DATA_ALL"

definition data_flags_is_padded :: "u8 \<Rightarrow> bool" where
  "data_flags_is_padded fl \<longleftrightarrow> fl AND DATA_PADDED = DATA_PADDED"

definition data_new :: "stream_id \<Rightarrow> 'b \<Rightarrow> 'b data_frame option" where
  "data_new i payload =
     (if sid_is_zero i then None
      else Some \<lparr>data_stream_id = i, data_data = payload, data_flags = 0, data_pad_len = None\<rparr>)"

definition data_is_end_stream :: "'b data_frame \<Rightarrow> bool" where
  "data_is_end_stream f \<longleftrightarrow> data_flags f AND DATA_END_STREAM = DATA_END_STREAM"

definition data_set_end_stream :: "'b data_frame \<Rightarrow> bool \<Rightarrow> 'b data_frame" where
  "data_set_end_stream f val =
     (if val then f\<lparr>data_flags := data_flags f OR DATA_END_STREAM\<rparr>
      else f\<lparr>data_flags := data_flags f AND NOT DATA_END_STREAM\<rparr>)"

definition data_map :: "('b \<Rightarrow> 'c) \<Rightarrow> 'b data_frame \<Rightarrow> 'c data_frame" where
  "data_map g f = \<lparr>data_stream_id = data_stream_id f, data_data = g (data_data f),
     data_flags = data_flags f, data_pad_len = data_pad_len f\<rparr>"

definition data_head :: "'b data_frame \<Rightarrow> head" where
  "data_head f = head_new KindData (data_flags f) (data_stream_id f)"

definition data_load :: "head \<Rightarrow> bytes \<Rightarrow> (bytes data_frame, frame_error) outcome" where
  "data_load h payload =
     (let fl = data_flags_load (hd_flag h) in
      if sid_is_zero (hd_stream_id h) then Err InvalidStreamId
      else bind_outcome
        (if data_flags_is_padded fl
         then bind_outcome (strip_padding payload) (\<lambda>(len, payload'). Ok (Some len, payload'))
         else Ok (None, payload))
        (\<lambda>(pad_len, payload').
          Ok \<lparr>data_stream_id = hd_stream_id h, data_data = payload', data_flags = fl,
              data_pad_len = pad_len\<rparr>))"

definition flow_controlled_len :: "bytes data_frame \<Rightarrow> nat" where
  "flow_controlled_len f =
     (case data_pad_len f of
        Some pad_len \<Rightarrow> length (data_data f) + unat pad_len + 1
      | None \<Rightarrow> length (data_data f))"

text \<open>\<open>encode_chunk\<close> appends to a \<open>BytesMut\<close> whose free space the caller has reserved
  (\<open>room\<close>); the assertion compares it with the length of the data only. The data is drained.\<close>

definition data_encode_chunk ::
  "nat \<Rightarrow> bytes data_frame \<Rightarrow> bytes \<Rightarrow> (bytes data_frame \<times> bytes) option" where
  "data_encode_chunk room f dst =
     (let len = length (data_data f) in
      if room < len then None
      else Some (f\<lparr>data_data := []\<rparr>, head_encode (data_head f) len dst @ data_data f))"

definition data_encode :: "bytes data_frame \<Rightarrow> bytes \<Rightarrow> bytes" where
  "data_encode f dst = head_encode (data_head f) (length (data_data f)) dst @ data_data f"

definition data_wf :: "bytes data_frame \<Rightarrow> bool" where
  "data_wf f \<longleftrightarrow> sid_valid (data_stream_id f) \<and> \<not> sid_is_zero (data_stream_id f)
     \<and> data_flags f AND DATA_END_STREAM = data_flags f \<and> data_pad_len f = None
     \<and> length (data_data f) < 2 ^ 24"

lemma data_encode_chunk_eq:
  "data_encode_chunk room f dst =
     (if room < length (data_data f) then None
      else Some (f\<lparr>data_data := []\<rparr>, data_encode f dst))"
  by (simp add: data_encode_chunk_def data_encode_def Let_def)

lemma data_flags_defs: "DATA_ALL = 9" "DATA_PADDED = 8" "DATA_END_STREAM = 1"
  by (simp_all add: DATA_ALL_def DATA_PADDED_def DATA_END_STREAM_def)

lemma data_end_stream_flags:
  assumes "fl AND DATA_END_STREAM = (fl :: u8)"
  shows "data_flags_load fl = fl" "\<not> data_flags_is_padded fl"
proof -
  have "fl AND 9 = (fl AND 1) AND 9" using assms by (simp only: data_flags_defs)
  also have "\<dots> = fl AND 1" by (simp only: and.assoc) simp
  also have "\<dots> = fl" using assms by (simp only: data_flags_defs)
  finally show "data_flags_load fl = fl" by (simp only: data_flags_load_def data_flags_defs)
  have "fl AND 8 = (fl AND 1) AND 8" using assms by (simp only: data_flags_defs)
  also have "\<dots> = 0" by (simp only: and.assoc) simp
  finally show "\<not> data_flags_is_padded fl" by (simp add: data_flags_is_padded_def data_flags_defs)
qed

interpretation data_wire: frame_codec data_head data_data data_encode data_load data_wf
proof
  fix f :: "bytes data_frame" and dst
  show "data_encode f dst = head_encode (data_head f) (length (data_data f)) dst @ data_data f"
    by (simp add: data_encode_def)
  assume wf: "data_wf f"
  then show "data_load (data_head f) (data_data f) = Ok f"
    by (simp add: data_load_def data_head_def data_wf_def data_end_stream_flags)
  from wf show "sid_valid (hd_stream_id (data_head f))" "length (data_data f) < 2 ^ 24"
    by (simp_all add: data_head_def data_wf_def)
qed

lemma data_load_no_panic [simp]: "data_load h payload \<noteq> Panic"
  by (auto simp: data_load_def Let_def bind_outcome_Panic_iff split: if_splits)

lemma data_load_Ok:
  assumes "data_load h payload = Ok f"
  shows "data_stream_id f = hd_stream_id h" "\<not> sid_is_zero (data_stream_id f)"
    "data_flags f = data_flags_load (hd_flag h)"
    "data_pad_len f = None \<Longrightarrow> data_data f = payload"
    "data_pad_len f = Some n \<Longrightarrow>
       \<exists>padding. payload = n # data_data f @ padding \<and> length padding = unat n"
  using assms by (auto simp: data_load_def Let_def bind_outcome_Ok_iff strip_padding_Ok_iff split: if_splits)

lemma data_load_flow_controlled:
  "data_load h payload = Ok f \<Longrightarrow> flow_controlled_len f = length payload"
  using data_load_Ok [of h payload f]
  by (auto simp: flow_controlled_len_def split: option.splits)

lemma data_set_end_stream_is [simp]: "data_is_end_stream (data_set_end_stream f v) = v"
proof -
  have "(w OR 1) AND 1 = (1 :: u8)" "(w AND NOT 1) AND 1 = (0 :: u8)" for w
    by (rule bit_word_eqI, auto simp: bit_simps)+
  then show ?thesis
    by (simp add: data_is_end_stream_def data_set_end_stream_def DATA_END_STREAM_def)
qed

end
