(* ===== verification/Flow_Control.thy ===== *)
theory Flow_Control
  imports Error_Types "HOL-Library.Signed_Division"
begin

text \<open>
  Flow control windows (\<open>src/proto/streams/flow_control.rs\<close>). A \<open>Window\<close> is an \<open>i32\<close> that may go
  negative; \<open>FlowControl\<close> pairs the window the peer knows about with the one the library knows
  about. Every operation is given with its new state on the error paths too. The lemmas read
  each operation on the mathematical integers: which sums are refused and what an accepted
  operation does.
\<close>

section \<open>Windows\<close>

datatype window = Window (win_val: i32)

abbreviation win_int :: "window \<Rightarrow> int" where "win_int w \<equiv> sint (win_val w)"

definition MAX_WINDOW_SIZE :: u32 where "MAX_WINDOW_SIZE = push_bit 31 1 - 1"

definition window_as_size :: "window \<Rightarrow> u32" where
  "window_as_size w = (if win_int w < 0 then 0 else win_val w)"

text \<open>\<open>checked_size\<close> asserts that the window is not negative.\<close>

definition window_checked_size :: "window \<Rightarrow> u32 option" where
  "window_checked_size w = (if win_int w \<ge> 0 then Some (win_val w) else None)"

definition window_decrease_by :: "window \<Rightarrow> u32 \<Rightarrow> (unit, reason) outcome \<times> window" where
  "window_decrease_by w other =
     (case i32_checked_sub (win_val w) other of
        Some v \<Rightarrow> (Ok (), Window v)
      | None \<Rightarrow> (Err FLOW_CONTROL_ERROR, w))"

definition window_add :: "window \<Rightarrow> u32 \<Rightarrow> (window, reason) outcome" where
  "window_add w other =
     (case i32_checked_add (win_val w) other of
        Some v \<Rightarrow> Ok (Window v)
      | None \<Rightarrow> Err FLOW_CONTROL_ERROR)"

definition window_increase_by :: "window \<Rightarrow> u32 \<Rightarrow> (unit, reason) outcome \<times> window" where
  "window_increase_by w other =
     (case window_add w other of
        Ok other' \<Rightarrow> (Ok (), Window (win_val other'))
      | Err e \<Rightarrow> (Err e, w)
      | Panic \<Rightarrow> (Panic, w))"

text \<open>Comparison of a window with a \<open>usize\<close>: a negative window is less than every size.\<close>

definition window_eq_usize :: "window \<Rightarrow> nat \<Rightarrow> bool" where
  "window_eq_usize w n \<longleftrightarrow> (if win_int w < 0 then False else unat (win_val w) = n)"

definition window_lt_usize :: "window \<Rightarrow> nat \<Rightarrow> bool" where
  "window_lt_usize w n \<longleftrightarrow> (if win_int w < 0 then True else unat (win_val w) < n)"

section \<open>Flow control\<close>

record flow_control =
  fc_window_size :: window
  fc_available :: window

definition UNCLAIMED_NUMERATOR :: int where "UNCLAIMED_NUMERATOR = 1"
definition UNCLAIMED_DENOMINATOR :: int where "UNCLAIMED_DENOMINATOR = 2"

definition flow_new :: flow_control where
  "flow_new = \<lparr>fc_window_size = Window 0, fc_available = Window 0\<rparr>"

definition flow_window_size :: "flow_control \<Rightarrow> u32" where
  "flow_window_size fc = window_as_size (fc_window_size fc)"

definition has_unavailable :: "flow_control \<Rightarrow> bool" where
  "has_unavailable fc =
     (if window_lt_usize (fc_window_size fc) 0 then False
      else win_int (fc_window_size fc) > win_int (fc_available fc))"

definition claim_capacity :: "flow_control \<Rightarrow> u32 \<Rightarrow> (unit, reason) outcome \<times> flow_control" where
  "claim_capacity fc capacity =
     (case window_decrease_by (fc_available fc) capacity of (r, w) \<Rightarrow> (r, fc\<lparr>fc_available := w\<rparr>))"

definition assign_capacity :: "flow_control \<Rightarrow> u32 \<Rightarrow> (unit, reason) outcome \<times> flow_control" where
  "assign_capacity fc capacity =
     (case window_increase_by (fc_available fc) capacity of (r, w) \<Rightarrow> (r, fc\<lparr>fc_available := w\<rparr>))"

text \<open>The subtraction \<open>available.0 - window_size.0\<close> is unchecked \<open>i32\<close> arithmetic, so a difference out
  of range is a panic; the division truncates towards zero.\<close>

definition unclaimed_capacity :: "flow_control \<Rightarrow> (u32 option, 'e) outcome" where
  "unclaimed_capacity fc =
     (let available = win_int (fc_available fc); window_size = win_int (fc_window_size fc) in
      if window_size \<ge> available then Ok None
      else if \<not> in_i32 (available - window_size) then Panic
      else let unclaimed = available - window_size;
               threshold = (window_size sdiv UNCLAIMED_DENOMINATOR) * UNCLAIMED_NUMERATOR in
        if unclaimed < threshold then Ok None else Ok (Some (word_of_int unclaimed)))"

text \<open>\<open>overflowing_add\<close> is the wrapped sum and whether it wrapped.\<close>

definition inc_window :: "flow_control \<Rightarrow> u32 \<Rightarrow> (unit, reason) outcome \<times> flow_control" where
  "inc_window fc sz =
     (let val = win_val (fc_window_size fc) + sz;
          overflow = (sint val \<noteq> win_int (fc_window_size fc) + sint sz) in
      if overflow then (Err FLOW_CONTROL_ERROR, fc)
      else if sint val > sint MAX_WINDOW_SIZE then (Err FLOW_CONTROL_ERROR, fc)
      else (Ok (), fc\<lparr>fc_window_size := Window val\<rparr>))"

definition dec_send_window :: "flow_control \<Rightarrow> u32 \<Rightarrow> (unit, reason) outcome \<times> flow_control" where
  "dec_send_window fc sz =
     (case window_decrease_by (fc_window_size fc) sz of (r, w) \<Rightarrow> (r, fc\<lparr>fc_window_size := w\<rparr>))"

text \<open>The first of two checked subtractions has already written its field when the second fails.\<close>

definition dec_both :: "flow_control \<Rightarrow> u32 \<Rightarrow> (unit, reason) outcome \<times> flow_control" where
  "dec_both fc sz =
     (case window_decrease_by (fc_window_size fc) sz of
        (Ok _, w) \<Rightarrow>
          (case window_decrease_by (fc_available fc) sz of
             (r, a) \<Rightarrow> (r, fc\<lparr>fc_window_size := w, fc_available := a\<rparr>))
      | (r, w) \<Rightarrow> (r, fc\<lparr>fc_window_size := w\<rparr>))"

definition dec_recv_window :: "flow_control \<Rightarrow> u32 \<Rightarrow> (unit, reason) outcome \<times> flow_control" where
  "dec_recv_window fc sz = dec_both fc sz"

definition flow_send_data :: "flow_control \<Rightarrow> u32 \<Rightarrow> (unit, reason) outcome \<times> flow_control" where
  "flow_send_data fc sz =
     (if sz > 0
      then (if \<not> win_int (fc_window_size fc) \<ge> sint sz then (Panic, fc) else dec_both fc sz)
      else (Ok (), fc))"

section \<open>The operations on the integers\<close>

lemma window_eqI: "win_int v = win_int w \<Longrightarrow> v = w"
  by (simp add: window.expand signed_word_eqI)

lemma MAX_WINDOW_SIZE_sint [simp]: "sint MAX_WINDOW_SIZE = 2147483647"
  by (simp add: MAX_WINDOW_SIZE_def)

lemma window_decrease_by_cases:
  "window_decrease_by w sz =
     (if in_i32 (win_int w - sint sz) then (Ok (), Window (word_of_int (win_int w - sint sz)))
      else (Err FLOW_CONTROL_ERROR, w))"
  by (auto simp: window_decrease_by_def i32_checked_sub_def)

lemma window_increase_by_cases:
  "window_increase_by w sz =
     (if in_i32 (win_int w + sint sz) then (Ok (), Window (word_of_int (win_int w + sint sz)))
      else (Err FLOW_CONTROL_ERROR, w))"
  by (auto simp: window_increase_by_def window_add_def i32_checked_add_def)

lemma inc_window_cases:
  assumes "uint sz < 2147483648"
  shows "inc_window fc sz =
     (if win_int (fc_window_size fc) + uint sz \<le> 2147483647
      then (Ok (), fc\<lparr>fc_window_size := Window (word_of_int (win_int (fc_window_size fc) + uint sz))\<rparr>)
      else (Err FLOW_CONTROL_ERROR, fc))"
proof -
  let ?w = "fc_window_size fc"
  have sz: "sint sz = uint sz" using assms by (rule sint_uint_31)
  have val: "win_val ?w + sz = word_of_int (win_int ?w + uint sz)" by (simp flip: sz)
  have lo: "- 2147483648 \<le> win_int ?w" using sint_in_i32 [of "win_val ?w"] by (simp add: in_i32_def)
  show ?thesis
  proof (cases "win_int ?w + uint sz \<le> 2147483647")
    case True
    moreover have "0 \<le> uint sz" by simp
    ultimately have "in_i32 (win_int ?w + uint sz)" using lo unfolding in_i32_def by linarith
    from sint_of_in_i32 [OF this] True show ?thesis
      unfolding inc_window_def Let_def val sz by simp
  next
    case False
    then have "sint (win_val ?w + sz) \<noteq> win_int ?w + sint sz"
      using sint_in_i32 [of "win_val ?w + sz"] by (simp add: in_i32_def sz)
    with False show ?thesis by (simp add: inc_window_def)
  qed
qed

lemma flow_send_data_within:
  assumes "uint sz < 2147483648" "uint sz \<le> win_int (fc_window_size fc)"
    "uint sz \<le> win_int (fc_available fc)"
  shows "flow_send_data fc sz =
     (Ok (), \<lparr>fc_window_size = Window (word_of_int (win_int (fc_window_size fc) - uint sz)),
        fc_available = Window (word_of_int (win_int (fc_available fc) - uint sz))\<rparr>)"
proof -
  have sz: "sint sz = uint sz" using assms(1) by (rule sint_uint_31)
  have rng: "in_i32 (win_int (fc_window_size fc) - uint sz)"
    "in_i32 (win_int (fc_available fc) - uint sz)"
    using assms(2,3) sint_in_i32 [of "win_val (fc_window_size fc)"]
      sint_in_i32 [of "win_val (fc_available fc)"] uint_ge_0 [of sz]
    unfolding in_i32_def by linarith+
  show ?thesis
  proof (cases "sz = 0")
    case True
    then show ?thesis by (simp add: flow_send_data_def)
  next
    case False
    then have "sz > 0" by (simp add: word_neq_0_conv)
    with rng assms(2) show ?thesis
      by (simp add: flow_send_data_def dec_both_def window_decrease_by_cases sz)
  qed
qed

text \<open>C19: A \<open>WINDOW_UPDATE\<close> increment below \<open>2 ^ 31\<close> (all that the frame can carry) is added exactly
  when the sum is at most \<open>MAX_WINDOW_SIZE\<close>; otherwise the result is \<open>FLOW_CONTROL_ERROR\<close> and the
  state is unchanged.\<close>

theorem inc_window_exact:
  assumes "uint sz < 2147483648"
  shows "case inc_window fc sz of
      (Ok _, fc') \<Rightarrow> win_int (fc_window_size fc') = win_int (fc_window_size fc) + uint sz
        \<and> win_int (fc_window_size fc') \<le> sint MAX_WINDOW_SIZE \<and> fc_available fc' = fc_available fc
    | (r, fc') \<Rightarrow> r = Err FLOW_CONTROL_ERROR \<and> fc' = fc
        \<and> win_int (fc_window_size fc) + uint sz > sint MAX_WINDOW_SIZE"
proof -
  have "- 2147483648 \<le> win_int (fc_window_size fc)"
    using sint_in_i32 [of "win_val (fc_window_size fc)"] by (simp add: in_i32_def)
  then have "win_int (fc_window_size fc) + uint sz \<le> 2147483647 \<Longrightarrow>
      in_i32 (win_int (fc_window_size fc) + uint sz)"
    using uint_ge_0 [of sz] unfolding in_i32_def by linarith
  then show ?thesis
    by (simp add: inc_window_cases [OF assms] sint_of_in_i32 del: of_int_add)
qed

lemma inc_window_exact_witness:
  "case inc_window (flow_new\<lparr>fc_window_size := Window 65535\<rparr>) 100 of
      (Ok _, fc') \<Rightarrow> win_int (fc_window_size fc') = 65635
    | _ \<Rightarrow> False"
  using inc_window_exact [of 100 "flow_new\<lparr>fc_window_size := Window 65535\<rparr>"]
  by (simp add: inc_window_def flow_new_def Let_def)

end
