(* ===== verification/Stream_State.thy ===== *)
theory Stream_State
  imports Frame_Control
begin

text \<open>
  The state of an HTTP/2 stream (\<open>src/proto/streams/state.rs\<close>): every transition and every query of
  \<open>State\<close>, as the code has them. The second half abstracts a stream to the states of its two
  directions: the transitions opened by HEADERS act on one direction only and accept exactly
  the awaiting one. The third half is the step relation of a stream, its reachability and the order in
  which the two directions advance.
\<close>

section \<open>States and transitions\<close>

datatype peer = AwaitingHeaders | Streaming

datatype cause =
    EndStream
  | CauseError proto_error
  | ErrorAfterEndStream proto_error
  | ScheduledLibraryReset reason

datatype inner =
    Idle
  | ReservedLocal
  | ReservedRemote
  | Open peer peer
  | HalfClosedLocal peer
  | HalfClosedRemote peer
  | Closed cause

text \<open>\<open>Open { local, remote }\<close> has its fields in this order.\<close>

fun send_open :: "bool \<Rightarrow> inner \<Rightarrow> (unit, user_error) outcome \<times> inner" where
  "send_open eos Idle = (Ok (), if eos then HalfClosedLocal AwaitingHeaders else Open Streaming AwaitingHeaders)"
| "send_open eos (Open AwaitingHeaders remote) =
     (Ok (), if eos then HalfClosedLocal remote else Open Streaming remote)"
| "send_open eos (HalfClosedRemote AwaitingHeaders) =
     (Ok (), if eos then Closed EndStream else HalfClosedRemote Streaming)"
| "send_open eos ReservedLocal =
     (Ok (), if eos then Closed EndStream else HalfClosedRemote Streaming)"
| "send_open eos s = (Err UnexpectedFrameType, s)"

text \<open>\<open>recv_open\<close> reads two facts of its HEADERS frame, END_STREAM and whether it is a 1xx response.\<close>

fun recv_open :: "bool \<Rightarrow> bool \<Rightarrow> inner \<Rightarrow> (bool, proto_error) outcome \<times> inner" where
  "recv_open eos informational Idle =
     (Ok True, if eos then HalfClosedRemote AwaitingHeaders
       else Open AwaitingHeaders (if informational then AwaitingHeaders else Streaming))"
| "recv_open eos informational ReservedRemote =
     (Ok True, if eos then Closed EndStream
       else if informational then ReservedRemote else HalfClosedLocal Streaming)"
| "recv_open eos informational (Open loc AwaitingHeaders) =
     (Ok False, if eos then HalfClosedRemote loc
       else Open loc (if informational then AwaitingHeaders else Streaming))"
| "recv_open eos informational (HalfClosedLocal AwaitingHeaders) =
     (Ok False, if eos then Closed EndStream
       else if informational then HalfClosedLocal AwaitingHeaders else HalfClosedLocal Streaming)"
| "recv_open eos informational s = (Err (library_go_away PROTOCOL_ERROR), s)"

fun reserve_remote :: "inner \<Rightarrow> (unit, proto_error) outcome \<times> inner" where
  "reserve_remote Idle = (Ok (), ReservedRemote)"
| "reserve_remote s = (Err (library_go_away PROTOCOL_ERROR), s)"

fun reserve_local :: "inner \<Rightarrow> (unit, user_error) outcome \<times> inner" where
  "reserve_local Idle = (Ok (), ReservedLocal)"
| "reserve_local s = (Err UnexpectedFrameType, s)"

fun recv_close :: "inner \<Rightarrow> (unit, proto_error) outcome \<times> inner" where
  "recv_close (Open loc _) = (Ok (), HalfClosedRemote loc)"
| "recv_close (HalfClosedLocal _) = (Ok (), Closed EndStream)"
| "recv_close s = (Err (library_go_away PROTOCOL_ERROR), s)"

fun is_recv_end_stream :: "inner \<Rightarrow> bool" where
  "is_recv_end_stream (Closed EndStream) = True"
| "is_recv_end_stream (Closed (ErrorAfterEndStream _)) = True"
| "is_recv_end_stream (HalfClosedRemote _) = True"
| "is_recv_end_stream _ = False"

fun is_closed :: "inner \<Rightarrow> bool" where
  "is_closed (Closed _) = True"
| "is_closed _ = False"

definition close_with_error :: "inner \<Rightarrow> proto_error \<Rightarrow> inner" where
  "close_with_error s e =
     Closed (if is_recv_end_stream s then ErrorAfterEndStream e else CauseError e)"

definition recv_reset_state :: "reset \<Rightarrow> bool \<Rightarrow> inner \<Rightarrow> inner" where
  "recv_reset_state frame queued s =
     (if is_closed s \<and> \<not> queued then s
      else close_with_error s (remote_reset (rst_stream_id frame) (rst_error_code frame)))"

definition handle_error :: "proto_error \<Rightarrow> inner \<Rightarrow> inner" where
  "handle_error err s = (if is_closed s then s else close_with_error s err)"

definition recv_eof :: "inner \<Rightarrow> inner" where
  "recv_eof s = (if is_closed s then s else close_with_error s
     (ErrIo BrokenPipe (Some ''stream closed because of a broken pipe'')))"

text \<open>\<open>None\<close> is the panic of \<open>send_close\<close>.\<close>

fun send_close :: "inner \<Rightarrow> inner option" where
  "send_close (Open _ remote) = Some (HalfClosedLocal remote)"
| "send_close (HalfClosedRemote _) = Some (Closed EndStream)"
| "send_close _ = None"

definition set_reset :: "stream_id \<Rightarrow> reason \<Rightarrow> initiator \<Rightarrow> inner \<Rightarrow> inner" where
  "set_reset i r ini s = Closed (CauseError (ErrReset i r ini))"

text \<open>\<open>debug_assert!(!self.is_closed())\<close> panics in the profile that is modelled.\<close>

definition set_scheduled_reset :: "reason \<Rightarrow> inner \<Rightarrow> inner option" where
  "set_scheduled_reset r s = (if is_closed s then None else Some (Closed (ScheduledLibraryReset r)))"

section \<open>Queries\<close>

fun get_scheduled_reset :: "inner \<Rightarrow> reason option" where
  "get_scheduled_reset (Closed (ScheduledLibraryReset r)) = Some r"
| "get_scheduled_reset _ = None"

fun is_scheduled_reset :: "inner \<Rightarrow> bool" where
  "is_scheduled_reset (Closed (ScheduledLibraryReset _)) = True"
| "is_scheduled_reset _ = False"

fun is_local_error :: "inner \<Rightarrow> bool" where
  "is_local_error (Closed (CauseError e)) = error_is_local e"
| "is_local_error (Closed (ErrorAfterEndStream e)) = error_is_local e"
| "is_local_error (Closed (ScheduledLibraryReset _)) = True"
| "is_local_error _ = False"

fun is_remote_reset :: "inner \<Rightarrow> bool" where
  "is_remote_reset (Closed (CauseError (ErrReset _ _ Remote))) = True"
| "is_remote_reset (Closed (ErrorAfterEndStream (ErrReset _ _ Remote))) = True"
| "is_remote_reset _ = False"

fun is_reset :: "inner \<Rightarrow> bool" where
  "is_reset (Closed EndStream) = False"
| "is_reset (Closed _) = True"
| "is_reset _ = False"

fun is_send_streaming :: "inner \<Rightarrow> bool" where
  "is_send_streaming (Open Streaming _) = True"
| "is_send_streaming (HalfClosedRemote Streaming) = True"
| "is_send_streaming _ = False"

fun is_recv_headers :: "inner \<Rightarrow> bool" where
  "is_recv_headers Idle = True"
| "is_recv_headers (Open _ AwaitingHeaders) = True"
| "is_recv_headers (HalfClosedLocal AwaitingHeaders) = True"
| "is_recv_headers ReservedRemote = True"
| "is_recv_headers _ = False"

fun is_recv_streaming :: "inner \<Rightarrow> bool" where
  "is_recv_streaming (Open _ Streaming) = True"
| "is_recv_streaming (HalfClosedLocal Streaming) = True"
| "is_recv_streaming _ = False"

fun is_send_closed :: "inner \<Rightarrow> bool" where
  "is_send_closed (Closed _) = True"
| "is_send_closed (HalfClosedLocal _) = True"
| "is_send_closed ReservedRemote = True"
| "is_send_closed _ = False"

fun is_idle :: "inner \<Rightarrow> bool" where
  "is_idle Idle = True"
| "is_idle _ = False"

fun ensure_recv_open :: "inner \<Rightarrow> (bool, proto_error) outcome" where
  "ensure_recv_open (Closed (CauseError e)) = Err e"
| "ensure_recv_open (Closed (ScheduledLibraryReset r)) = Err (library_go_away r)"
| "ensure_recv_open (Closed EndStream) = Ok False"
| "ensure_recv_open (Closed (ErrorAfterEndStream _)) = Ok False"
| "ensure_recv_open (HalfClosedRemote _) = Ok False"
| "ensure_recv_open ReservedLocal = Ok False"
| "ensure_recv_open _ = Ok True"

datatype poll_reset = PollAwaitingHeaders | PollStreaming

fun ensure_reason :: "inner \<Rightarrow> poll_reset \<Rightarrow> (reason option, error_kind) outcome" where
  "ensure_reason (Closed (CauseError (ErrReset _ r _))) mode = Ok (Some r)"
| "ensure_reason (Closed (ErrorAfterEndStream (ErrReset _ r _))) mode = Ok (Some r)"
| "ensure_reason (Closed (CauseError (ErrGoAway _ r _))) mode = Ok (Some r)"
| "ensure_reason (Closed (ErrorAfterEndStream (ErrGoAway _ r _))) mode = Ok (Some r)"
| "ensure_reason (Closed (ScheduledLibraryReset r)) mode = Ok (Some r)"
| "ensure_reason (Closed (CauseError e)) mode = Err (error_from_proto e)"
| "ensure_reason (Closed (ErrorAfterEndStream e)) mode = Err (error_from_proto e)"
| "ensure_reason (Open Streaming _) mode =
     (case mode of PollAwaitingHeaders \<Rightarrow> Err (ErrorUser PollResetAfterSendResponse)
      | PollStreaming \<Rightarrow> Ok None)"
| "ensure_reason (HalfClosedRemote Streaming) mode =
     (case mode of PollAwaitingHeaders \<Rightarrow> Err (ErrorUser PollResetAfterSendResponse)
      | PollStreaming \<Rightarrow> Ok None)"
| "ensure_reason _ mode = Ok None"

section \<open>The two directions of a stream\<close>

datatype half = HalfAwaiting | HalfStreaming | HalfShut

fun half_of_peer :: "peer \<Rightarrow> half" where
  "half_of_peer AwaitingHeaders = HalfAwaiting"
| "half_of_peer Streaming = HalfStreaming"

fun send_half :: "inner \<Rightarrow> half" where
  "send_half Idle = HalfAwaiting"
| "send_half ReservedLocal = HalfAwaiting"
| "send_half (Open loc _) = half_of_peer loc"
| "send_half (HalfClosedRemote loc) = half_of_peer loc"
| "send_half _ = HalfShut"

fun recv_half :: "inner \<Rightarrow> half" where
  "recv_half Idle = HalfAwaiting"
| "recv_half ReservedRemote = HalfAwaiting"
| "recv_half (Open _ remote) = half_of_peer remote"
| "recv_half (HalfClosedLocal remote) = half_of_peer remote"
| "recv_half _ = HalfShut"

fun half_rank :: "half \<Rightarrow> nat" where
  "half_rank HalfAwaiting = 0" | "half_rank HalfStreaming = 1" | "half_rank HalfShut = 2"

text \<open>What a HEADERS frame does to the direction it travels in.\<close>

definition half_open :: "bool \<Rightarrow> bool \<Rightarrow> half \<Rightarrow> half option" where
  "half_open eos informational h =
     (if h = HalfAwaiting
      then Some (if eos then HalfShut else if informational then HalfAwaiting else HalfStreaming)
      else None)"

lemma half_of_peer_eq [simp]:
  "half_of_peer p = HalfAwaiting \<longleftrightarrow> p = AwaitingHeaders"
  "half_of_peer p = HalfStreaming \<longleftrightarrow> p = Streaming" "half_of_peer p \<noteq> HalfShut"
  by (cases p; simp)+

lemma send_open_half:
  "case send_open eos s of
      (Ok _, s') \<Rightarrow> half_open eos False (send_half s) = Some (send_half s') \<and> recv_half s' = recv_half s
    | (r, s') \<Rightarrow> half_open eos False (send_half s) = None \<and> r = Err UnexpectedFrameType \<and> s' = s"
  by (cases "(eos, s)" rule: send_open.cases) (simp_all add: half_open_def)

lemma recv_open_half:
  "case recv_open eos info s of
      (Ok _, s') \<Rightarrow> half_open eos info (recv_half s) = Some (recv_half s') \<and> send_half s' = send_half s
    | (r, s') \<Rightarrow> half_open eos info (recv_half s) = None
        \<and> r = Err (library_go_away PROTOCOL_ERROR) \<and> s' = s"
  by (cases "(eos, info, s)" rule: recv_open.cases) (simp_all add: half_open_def)

lemma is_send_streaming_half: "is_send_streaming s \<longleftrightarrow> send_half s = HalfStreaming"
  by (cases s rule: is_send_streaming.cases) simp_all

lemma is_recv_streaming_half: "is_recv_streaming s \<longleftrightarrow> recv_half s = HalfStreaming"
  by (cases s rule: is_recv_streaming.cases) simp_all

lemma is_send_closed_half: "is_send_closed s \<longleftrightarrow> send_half s = HalfShut"
  by (cases s rule: is_send_closed.cases) simp_all

lemma is_recv_headers_half: "is_recv_headers s \<longleftrightarrow> recv_half s = HalfAwaiting"
  by (cases s rule: is_recv_headers.cases) simp_all

lemmas half_queries = is_send_streaming_half is_recv_streaming_half is_send_closed_half
  is_recv_headers_half

lemma ensure_recv_open_half:
  "ensure_recv_open s = Ok True \<longleftrightarrow> recv_half s \<noteq> HalfShut"
  by (cases s rule: ensure_recv_open.cases) simp_all

lemma is_closed_iff: "is_closed s \<longleftrightarrow> (\<exists>c. s = Closed c)"
  by (cases s) simp_all

lemma closed_halves: "is_closed s \<Longrightarrow> send_half s = HalfShut \<and> recv_half s = HalfShut"
  by (auto simp: is_closed_iff)

section \<open>The stream as a transition system\<close>

text \<open>The calls that change a \<open>State\<close>. A call that panics has no step.\<close>

datatype stream_event =
    SendOpen bool
  | RecvOpen bool bool
  | ReserveRemote
  | ReserveLocal
  | RecvClose
  | RecvReset reset bool
  | HandleError proto_error
  | RecvEof
  | SendClose
  | SetReset stream_id reason initiator
  | SetScheduledReset reason

fun stream_event_step :: "stream_event \<Rightarrow> inner \<Rightarrow> inner option" where
  "stream_event_step (SendOpen eos) s = Some (snd (send_open eos s))"
| "stream_event_step (RecvOpen eos info) s = Some (snd (recv_open eos info s))"
| "stream_event_step ReserveRemote s = Some (snd (reserve_remote s))"
| "stream_event_step ReserveLocal s = Some (snd (reserve_local s))"
| "stream_event_step RecvClose s = Some (snd (recv_close s))"
| "stream_event_step (RecvReset f queued) s = Some (recv_reset_state f queued s)"
| "stream_event_step (HandleError e) s = Some (handle_error e s)"
| "stream_event_step RecvEof s = Some (recv_eof s)"
| "stream_event_step SendClose s = send_close s"
| "stream_event_step (SetReset i r ini) s = Some (set_reset i r ini s)"
| "stream_event_step (SetScheduledReset r) s = set_scheduled_reset r s"

inductive stream_step :: "inner \<Rightarrow> stream_event \<Rightarrow> inner \<Rightarrow> bool" where
  step: "stream_event_step ev s = Some s' \<Longrightarrow> stream_step s ev s'"

code_pred (modes: i \<Rightarrow> i \<Rightarrow> o \<Rightarrow> bool) stream_step .

inductive_simps stream_step_iff: "stream_step s ev s'"
inductive_cases stream_stepE [elim!]: "stream_step s ev s'"

inductive stream_run :: "inner \<Rightarrow> stream_event list \<Rightarrow> inner \<Rightarrow> bool" where
  run_Nil: "stream_run s [] s"
| run_Cons: "stream_step s ev s' \<Longrightarrow> stream_run s' evs t \<Longrightarrow> stream_run s (ev # evs) t"

inductive_simps stream_run_simps: "stream_run s [] t" "stream_run s (ev # evs) t"

lemma half_rank_mono_open:
  "half_open eos info h = Some h' \<Longrightarrow> half_rank h \<le> half_rank h'"
  by (auto simp: half_open_def split: if_splits)

lemma half_rank_le_2: "half_rank h \<le> 2"
  by (cases h) simp_all

lemma close_with_error_halves [simp]:
  "send_half (close_with_error s e) = HalfShut" "recv_half (close_with_error s e) = HalfShut"
  "is_closed (close_with_error s e)"
  by (simp_all add: close_with_error_def)

lemma half_rank_of_peer [simp]: "half_rank (half_of_peer p) \<le> 2" "half_rank h \<le> 2"
  by (simp_all add: half_rank_le_2)

lemma send_open_rank:
  "half_rank (send_half s) \<le> half_rank (send_half (snd (send_open eos s)))"
  "recv_half (snd (send_open eos s)) = recv_half s"
  using send_open_half [of eos s] by (auto split: prod.splits outcome.splits dest: half_rank_mono_open)

lemma recv_open_rank:
  "half_rank (recv_half s) \<le> half_rank (recv_half (snd (recv_open eos info s)))"
  "send_half (snd (recv_open eos info s)) = send_half s"
  using recv_open_half [of eos info s]
  by (auto split: prod.splits outcome.splits dest: half_rank_mono_open)

lemma close_transitions:
  "recv_half (snd (recv_close s)) = (if fst (recv_close s) = Ok () then HalfShut else recv_half s)"
  "send_half (snd (recv_close s)) = send_half s"
  by (cases s; simp; fail)+

lemma send_close_halves:
  "send_close s = Some s' \<Longrightarrow> send_half s' = HalfShut \<and> recv_half s' = recv_half s"
  by (cases s) auto

lemma reserve_rank:
  "half_rank (send_half s) \<le> half_rank (send_half (snd (reserve_remote s)))"
  "half_rank (recv_half s) \<le> half_rank (recv_half (snd (reserve_remote s)))"
  "half_rank (send_half s) \<le> half_rank (send_half (snd (reserve_local s)))"
  "half_rank (recv_half s) \<le> half_rank (recv_half (snd (reserve_local s)))"
  by (cases s; simp; fail)+

lemma close_all_halves:
  "send_half (handle_error e s) = HalfShut"
  "recv_half (handle_error e s) = HalfShut" "send_half (recv_eof s) = HalfShut"
  "recv_half (recv_eof s) = HalfShut" "send_half (recv_reset_state f q s) = HalfShut"
  "recv_half (recv_reset_state f q s) = HalfShut" "send_half (set_reset i r ini s) = HalfShut"
  "recv_half (set_reset i r ini s) = HalfShut"
  "set_scheduled_reset r s = Some s' \<Longrightarrow> send_half s' = HalfShut \<and> recv_half s' = HalfShut"
  using closed_halves [of s]
  by (auto simp: handle_error_def recv_eof_def recv_reset_state_def set_reset_def
      set_scheduled_reset_def split: if_splits)

lemma stream_step_send_rank:
  "stream_step s ev s' \<Longrightarrow> half_rank (send_half s) \<le> half_rank (send_half s')"
  by (cases ev) (auto simp: send_open_rank recv_open_rank close_transitions reserve_rank
      close_all_halves dest!: send_close_halves)

lemma stream_step_recv_rank:
  "stream_step s ev s' \<Longrightarrow> half_rank (recv_half s) \<le> half_rank (recv_half s')"
  by (cases ev) (auto simp: send_open_rank recv_open_rank close_transitions reserve_rank
      close_all_halves dest!: send_close_halves)

lemma stream_step_closed: "stream_step (Closed c) ev s' \<Longrightarrow> is_closed s'"
  by (cases ev) (auto simp: recv_reset_state_def handle_error_def recv_eof_def set_reset_def
      set_scheduled_reset_def)

lemma open_not_idle:
  "snd (send_open eos s) = Idle \<Longrightarrow> False" "snd (recv_open eos info s) = Idle \<Longrightarrow> False"
  if "s \<noteq> Idle"
  using that by (cases "(eos, s)" rule: send_open.cases; auto split: if_splits)
    (cases "(eos, info, s)" rule: recv_open.cases; use that in \<open>auto split: if_splits\<close>)

lemma stream_step_not_idle: "stream_step s ev s' \<Longrightarrow> s \<noteq> Idle \<Longrightarrow> s' \<noteq> Idle"
proof (cases ev)
  case SendOpen
  then show "stream_step s ev s' \<Longrightarrow> s \<noteq> Idle \<Longrightarrow> s' \<noteq> Idle"
    by (auto dest: open_not_idle)
next
  case RecvOpen
  then show "stream_step s ev s' \<Longrightarrow> s \<noteq> Idle \<Longrightarrow> s' \<noteq> Idle"
    by (auto dest: open_not_idle)
qed (cases s; auto simp: recv_reset_state_def handle_error_def recv_eof_def set_reset_def
      set_scheduled_reset_def close_with_error_def split: if_splits)+

lemma stream_run_ranks:
  "stream_run s evs t \<Longrightarrow> half_rank (send_half s) \<le> half_rank (send_half t)
     \<and> half_rank (recv_half s) \<le> half_rank (recv_half t)"
proof (induction rule: stream_run.induct)
  case (run_Cons s ev s' evs t)
  then show ?case
    using stream_step_send_rank [OF run_Cons.hyps(1)] stream_step_recv_rank [OF run_Cons.hyps(1)]
    by linarith
qed simp

lemma stream_run_not_idle: "stream_run s evs t \<Longrightarrow> s \<noteq> Idle \<Longrightarrow> t \<noteq> Idle"
  by (induction rule: stream_run.induct) (metis stream_step_not_idle)+

lemma stream_run_closed: "stream_run s evs t \<Longrightarrow> is_closed s \<Longrightarrow> is_closed t"
  by (induction rule: stream_run.induct) (metis is_closed_iff stream_step_closed)+

section \<open>Properties\<close>

text \<open>C8: HEADERS frames are the two independent half automata of RFC 9113: \<open>send_open\<close> is accepted
  exactly when the sending half awaits headers, and then advances only that half; \<open>recv_open\<close> is
  accepted exactly when the receiving half awaits headers, advances only that half, and stays
  in place on a 1xx response. A refused call leaves the state as it was and is a local error or a
  connection error.\<close>

theorem open_refines_halves:
  "(case send_open eos s of
      (Ok _, s') \<Rightarrow> half_open eos False (send_half s) = Some (send_half s') \<and> recv_half s' = recv_half s
    | (r, s') \<Rightarrow> half_open eos False (send_half s) = None \<and> r = Err UnexpectedFrameType \<and> s' = s) \<and>
   (case recv_open eos info s of
      (Ok _, s') \<Rightarrow> half_open eos info (recv_half s) = Some (recv_half s') \<and> send_half s' = send_half s
    | (r, s') \<Rightarrow> half_open eos info (recv_half s) = None
        \<and> r = Err (library_go_away PROTOCOL_ERROR) \<and> s' = s)"
  by (rule conjI, rule send_open_half, rule recv_open_half)

text \<open>C9: Whatever calls a stream sees, in any order, its two directions only advance (awaiting,
  streaming, shut), a closed stream stays closed, and a stream that has left \<open>Idle\<close> is never idle
  again.\<close>

theorem stream_run_monotone:
  assumes "stream_run s evs t"
  shows "half_rank (send_half s) \<le> half_rank (send_half t) \<and>
    half_rank (recv_half s) \<le> half_rank (recv_half t) \<and>
    (is_closed s \<longrightarrow> is_closed t) \<and> (t = Idle \<longrightarrow> s = Idle)"
  using stream_run_ranks [OF assms] stream_run_closed [OF assms] stream_run_not_idle [OF assms]
  by blast

lemma stream_run_monotone_witness:
  "half_rank (recv_half (Open Streaming Streaming)) \<le> half_rank (recv_half (Closed EndStream)) \<and>
   is_closed (recv_eof (Closed EndStream))"
proof -
  have r1: "stream_run (Open Streaming Streaming) [RecvClose, SendClose] (Closed EndStream)"
    and r2: "stream_run (Closed EndStream) [RecvEof] (recv_eof (Closed EndStream))"
    by (simp_all add: stream_run_simps stream_step_iff)
  from stream_run_monotone [OF r1] stream_run_monotone [OF r2] show ?thesis by simp
qed

text \<open>C10: Once END_STREAM was received, a reset by the peer, a connection error or the end of the
  transport closes the stream without forgetting it: the received data stays readable
  (\<open>ensure_recv_open\<close> reports the end of the stream, not the error), and the error is still what
  the sending half reports.\<close>

theorem end_stream_survives_failures:
  assumes "is_recv_end_stream s"
  shows "ensure_recv_open (handle_error e s) = Ok False \<and>
    ensure_recv_open (recv_eof s) = Ok False \<and>
    ensure_recv_open (recv_reset_state frame queued s) = Ok False \<and>
    (\<not> is_closed s \<or> queued \<longrightarrow>
       ensure_reason (recv_reset_state frame queued s) mode = Ok (Some (rst_error_code frame)))"
  using assms
  by (cases s rule: is_recv_end_stream.cases)
    (simp_all add: handle_error_def recv_eof_def recv_reset_state_def close_with_error_def
        remote_reset_def)

lemma end_stream_survives_failures_witness:
  "ensure_reason (recv_reset_state (reset_new (StreamId 1) NO_ERROR) True (HalfClosedRemote Streaming))
     PollStreaming = Ok (Some NO_ERROR)"
  using end_stream_survives_failures [of "HalfClosedRemote Streaming" _ "reset_new (StreamId 1) NO_ERROR"
      True PollStreaming]
  by (simp add: reset_new_def)

end
