(* ===== verification/Linked_List.thy ===== *)
theory Linked_List
  imports H2_Prelude
begin

text \<open>
  What the two intrusive linked lists of the library share, the frame deques
  (\<open>src/proto/streams/buffer.rs\<close>) and the stream queues (\<open>src/proto/streams/store.rs\<close>): chains of keys
  under a next function, the list that a head and a tail stand for, and the contract of a queue as the
  locale \<open>fifo\<close>, whose lemmas say that elements leave in the order of the abstract list.
\<close>

section \<open>Chains\<close>

fun chain :: "('k \<Rightarrow> 'k option) \<Rightarrow> 'k list \<Rightarrow> bool" where
  "chain nxt [] \<longleftrightarrow> True"
| "chain nxt [k] \<longleftrightarrow> nxt k = None"
| "chain nxt (k # k' # ks) \<longleftrightarrow> nxt k = Some k' \<and> chain nxt (k' # ks)"

text \<open>A list with head and tail indices; both are absent exactly when it is empty.\<close>

definition linked :: "('k \<Rightarrow> 'k option) \<Rightarrow> ('k \<times> 'k) option \<Rightarrow> 'k list \<Rightarrow> bool" where
  "linked nxt ix ks \<longleftrightarrow> distinct ks \<and> chain nxt ks \<and>
     (case ix of None \<Rightarrow> ks = [] | Some (h, t) \<Rightarrow> ks \<noteq> [] \<and> hd ks = h \<and> last ks = t)"

lemma chain_Cons_tl: "chain nxt (k # ks) \<Longrightarrow> chain nxt ks"
  by (cases ks) auto

lemma chain_next: "chain nxt (k # ks) \<Longrightarrow> nxt k = (case ks of [] \<Rightarrow> None | k' # _ \<Rightarrow> Some k')"
  by (cases ks) auto

lemma chain_ConsI:
  "chain nxt ks \<Longrightarrow> nxt k = (case ks of [] \<Rightarrow> None | k' # _ \<Rightarrow> Some k') \<Longrightarrow> chain nxt (k # ks)"
  by (cases ks) auto

lemma chain_cong: "(\<And>k. k \<in> set ks \<Longrightarrow> m k = nxt k) \<Longrightarrow> chain m ks \<longleftrightarrow> chain nxt ks"
  by (induction nxt ks rule: chain.induct) auto

lemma chain_last: "chain nxt (ks @ [t]) \<Longrightarrow> nxt t = None"
  by (induction ks) (auto dest: chain_Cons_tl)

lemma chain_snoc:
  assumes "chain nxt (ks @ [t])" "\<And>k. k \<in> set ks \<Longrightarrow> m k = nxt k" "m t = Some new" "m new = None"
  shows "chain m (ks @ [t, new])"
  using assms
proof (induction ks)
  case (Cons k ks)
  from Cons.prems have "chain m (ks @ [t, new])"
    by (intro Cons.IH) (auto dest: chain_Cons_tl)
  moreover have "m k = (case ks @ [t, new] of [] \<Rightarrow> None | k' # _ \<Rightarrow> Some k')"
    using Cons.prems(1,2) by (cases ks) auto
  ultimately show ?case by (simp add: chain_ConsI)
qed simp

lemma linked_None [simp]: "linked nxt None ks \<longleftrightarrow> ks = []"
  by (auto simp: linked_def)

lemma linked_Nil [simp]: "linked nxt ix [] \<longleftrightarrow> ix = None"
  by (auto simp: linked_def split: option.splits)

lemma linked_Some: "linked nxt (Some (h, t)) ks \<longleftrightarrow>
    distinct ks \<and> chain nxt ks \<and> ks \<noteq> [] \<and> hd ks = h \<and> last ks = t"
  by (simp add: linked_def)

lemma linked_cong:
  "(\<And>k. k \<in> set ks \<Longrightarrow> m k = nxt k) \<Longrightarrow> linked m ix ks \<longleftrightarrow> linked nxt ix ks"
  unfolding linked_def by (simp cong: chain_cong)

lemma linked_ends: "linked nxt (Some (h, t)) ks \<Longrightarrow> h \<in> set ks \<and> t \<in> set ks"
  by (auto simp: linked_Some)

lemma linked_tail_next: "linked nxt (Some (h, t)) ks \<Longrightarrow> nxt t = None"
  by (metis append_butlast_last_id chain_last linked_Some)

lemma linked_single: "m k = None \<Longrightarrow> linked m (Some (k, k)) [k]"
  by (simp add: linked_Some)

lemma linked_push_back:
  assumes "linked nxt (Some (h, t)) ks" "new \<notin> set ks"
    "\<And>k. k \<in> set ks \<Longrightarrow> k \<noteq> t \<Longrightarrow> m k = nxt k" "m t = Some new" "m new = None"
  shows "linked m (Some (h, new)) (ks @ [new])"
proof -
  from assms(1) obtain ks' where ks: "ks = ks' @ [t]"
    by (metis append_butlast_last_id linked_Some)
  with assms have "chain m (ks' @ [t, new])"
    by (intro chain_snoc [of nxt]) (auto simp: linked_Some)
  with assms(1,2) ks show ?thesis
    by (cases ks') (auto simp: linked_Some)
qed

lemma linked_push_front:
  assumes "linked nxt (Some (h, t)) ks" "new \<notin> set ks"
    "\<And>k. k \<in> set ks \<Longrightarrow> m k = nxt k" "m new = Some h"
  shows "linked m (Some (new, t)) (new # ks)"
proof -
  from assms(1) obtain ks' where ks: "ks = h # ks'" by (cases ks) (auto simp: linked_Some)
  have "chain m ks" using assms(1,3) chain_cong [of ks m nxt] by (simp add: linked_Some)
  with assms ks show ?thesis by (auto simp: linked_Some)
qed

lemma linked_pop_last:
  assumes "linked nxt (Some (h, h)) ks"
  shows "ks = [h]" "nxt h = None"
proof -
  from assms obtain ks' where ks: "ks = h # ks'" by (cases ks) (auto simp: linked_Some)
  with assms show one: "ks = [h]"
    using last_in_set [of ks'] by (auto simp: linked_Some split: if_splits)
  from assms one show "nxt h = None" by (simp add: linked_Some)
qed

lemma linked_pop_more:
  assumes "linked nxt (Some (h, t)) ks" "h \<noteq> t"
    "\<And>k. k \<in> set ks \<Longrightarrow> k \<noteq> h \<Longrightarrow> m k = nxt k"
  shows "\<exists>h' ks'. ks = h # h' # ks' \<and> nxt h = Some h' \<and> linked m (Some (h', t)) (h' # ks')"
proof -
  from assms(1,2) obtain h' ks' where ks: "ks = h # h' # ks'"
    by (cases ks; cases "tl ks") (auto simp: linked_Some)
  with assms(1) have "chain nxt (h' # ks')" "nxt h = Some h'"
    by (auto simp: linked_Some)
  moreover have "chain m (h' # ks') \<longleftrightarrow> chain nxt (h' # ks')"
    using assms(1,3) ks by (intro chain_cong) (auto simp: linked_Some)
  ultimately show ?thesis using assms(1) ks by (auto simp: linked_Some)
qed

section \<open>The contract of a queue\<close>

text \<open>\<open>pops pop n s\<close> pops \<open>n\<close> times and collects what came out.\<close>

fun pops :: "('s \<Rightarrow> ('x option \<times> 's) option) \<Rightarrow> nat \<Rightarrow> 's \<Rightarrow> ('x option list \<times> 's) option" where
  "pops pop 0 s = Some ([], s)"
| "pops pop (Suc n) s =
     (case pop s of None \<Rightarrow> None
      | Some (x, s') \<Rightarrow> map_option (\<lambda>(xs, t). (x # xs, t)) (pops pop n s'))"

text \<open>A push may refuse its element (\<open>ok\<close>); a push or a pop that returns \<open>None\<close> has panicked.\<close>

locale fifo =
  fixes repr :: "'s \<Rightarrow> 'x list \<Rightarrow> bool"
    and ok :: "'s \<Rightarrow> 'e \<Rightarrow> bool"
    and elem :: "'s \<Rightarrow> 'e \<Rightarrow> 'x"
    and push_back :: "'e \<Rightarrow> 's \<Rightarrow> 's option"
    and push_front :: "'e \<Rightarrow> 's \<Rightarrow> 's option"
    and pop :: "'s \<Rightarrow> ('x option \<times> 's) option"
  assumes push_back_repr:
      "repr s xs \<Longrightarrow> ok s e \<Longrightarrow> \<exists>s'. push_back e s = Some s' \<and> repr s' (xs @ [elem s e])"
    and push_front_repr:
      "repr s xs \<Longrightarrow> ok s e \<Longrightarrow> \<exists>s'. push_front e s = Some s' \<and> repr s' (elem s e # xs)"
    and pop_Nil: "repr s [] \<Longrightarrow> pop s = Some (None, s)"
    and pop_Cons: "repr s (x # xs) \<Longrightarrow> \<exists>s'. pop s = Some (Some x, s') \<and> repr s' xs"
begin

lemma pops_repr: "repr s (xs @ ys) \<Longrightarrow> \<exists>s'. pops pop (length xs) s = Some (map Some xs, s') \<and> repr s' ys"
proof (induction xs arbitrary: s)
  case (Cons x xs)
  then obtain s1 where s1: "pop s = Some (Some x, s1)" "repr s1 (xs @ ys)"
    using pop_Cons [of s x "xs @ ys"] by auto
  with Cons.IH [OF s1(2)] show ?case by auto
qed simp

lemma drain: "repr s xs \<Longrightarrow> \<exists>s'. pops pop (Suc (length xs)) s = Some (map Some xs @ [None], s')"
proof (induction xs arbitrary: s)
  case Nil
  then show ?case by (simp add: pop_Nil)
next
  case (Cons x xs)
  then obtain s1 where s1: "pop s = Some (Some x, s1)" "repr s1 xs"
    using pop_Cons [of s x xs] by auto
  with Cons.IH [OF s1(2)] show ?case by auto
qed

lemma push_back_then_drain:
  assumes "repr s xs" "ok s e"
  shows "\<exists>s' t. push_back e s = Some s' \<and>
    pops pop (Suc (Suc (length xs))) s' = Some (map Some xs @ [Some (elem s e), None], t)"
proof -
  from push_back_repr [OF assms] obtain s' where "push_back e s = Some s'" "repr s' (xs @ [elem s e])"
    by blast
  with drain [of s' "xs @ [elem s e]"] show ?thesis by auto
qed

lemma push_front_then_pop:
  assumes "repr s xs" "ok s e"
  shows "\<exists>s' t. push_front e s = Some s' \<and> pop s' = Some (Some (elem s e), t) \<and> repr t xs"
  using push_front_repr [OF assms] pop_Cons by blast

end

end
