(* ===== verification/Frame_Buffer.thy ===== *)
theory Frame_Buffer
  imports Linked_List
begin

text \<open>
  The frame buffer (\<open>src/proto/streams/buffer.rs\<close>): one slab holds the slots of many deques, each
  a singly linked list with head and tail indices. The slab is the partial map from its occupied
  keys; the key that \<open>Slab::insert\<close> chose is an argument of the pushes, and what the lemmas
  assume of it is what the slab promises: it was vacant. The operations refine lists, and leave
  every other deque of the same slab as it was.
\<close>

section \<open>The operations\<close>

record 'v slot =
  slot_value :: 'v
  slot_next :: "nat option"

type_synonym 'v buffer = "nat \<Rightarrow> 'v slot option"

record buf_indices =
  ix_head :: nat
  ix_tail :: nat

type_synonym deque = "buf_indices option"

definition deque_new :: deque where "deque_new = None"

definition deque_is_empty :: "deque \<Rightarrow> bool" where "deque_is_empty d \<longleftrightarrow> d = None"

text \<open>\<open>None\<close> is a panic: \<open>buf.slab[idxs.tail]\<close> of a vacant key.\<close>

definition deque_push_back ::
  "nat \<Rightarrow> 'v \<Rightarrow> deque \<times> 'v buffer \<Rightarrow> (deque \<times> 'v buffer) option" where
  "deque_push_back key v s =
     (case s of (d, buf) \<Rightarrow>
      let slab = buf(key \<mapsto> \<lparr>slot_value = v, slot_next = None\<rparr>) in
      case d of
        Some idxs \<Rightarrow>
          (case slab (ix_tail idxs) of
             None \<Rightarrow> None
           | Some old \<Rightarrow> Some (Some (idxs\<lparr>ix_tail := key\<rparr>),
               slab(ix_tail idxs \<mapsto> old\<lparr>slot_next := Some key\<rparr>)))
      | None \<Rightarrow> Some (Some \<lparr>ix_head = key, ix_tail = key\<rparr>, slab))"

definition deque_push_front ::
  "nat \<Rightarrow> 'v \<Rightarrow> deque \<times> 'v buffer \<Rightarrow> (deque \<times> 'v buffer) option" where
  "deque_push_front key v s =
     (case s of (d, buf) \<Rightarrow>
      let slab = buf(key \<mapsto> \<lparr>slot_value = v, slot_next = None\<rparr>) in
      case d of
        Some idxs \<Rightarrow>
          (case slab key of
             None \<Rightarrow> None
           | Some sl \<Rightarrow> Some (Some (idxs\<lparr>ix_head := key\<rparr>),
               slab(key \<mapsto> sl\<lparr>slot_next := Some (ix_head idxs)\<rparr>)))
      | None \<Rightarrow> Some (Some \<lparr>ix_head = key, ix_tail = key\<rparr>, slab))"

text \<open>\<open>Slab::remove\<close> of a vacant key, the \<open>assert!\<close> and the \<open>unwrap\<close> are the panics.\<close>

definition deque_pop_front ::
  "deque \<times> 'v buffer \<Rightarrow> ('v option \<times> (deque \<times> 'v buffer)) option" where
  "deque_pop_front s =
     (case s of (d, buf) \<Rightarrow>
      case d of
        Some idxs \<Rightarrow>
          (case buf (ix_head idxs) of
             None \<Rightarrow> None
           | Some sl \<Rightarrow>
               let slab = buf(ix_head idxs := None) in
               if ix_head idxs = ix_tail idxs
               then (if slot_next sl = None then Some (Some (slot_value sl), (None, slab)) else None)
               else (case slot_next sl of
                       None \<Rightarrow> None
                     | Some nxt \<Rightarrow> Some (Some (slot_value sl), (Some (idxs\<lparr>ix_head := nxt\<rparr>), slab))))
      | None \<Rightarrow> Some (None, (None, buf)))"

section \<open>Refinement of lists\<close>

definition buf_next :: "'v buffer \<Rightarrow> nat \<Rightarrow> nat option" where
  "buf_next buf k = Option.bind (buf k) slot_next"

definition deque_ends :: "deque \<Rightarrow> (nat \<times> nat) option" where
  "deque_ends d = map_option (\<lambda>ix. (ix_head ix, ix_tail ix)) d"

text \<open>\<open>deque_keys d buf ks\<close>: the deque is the list of slots \<open>ks\<close>; \<open>deque_values buf ks\<close> are their frames.\<close>

definition deque_keys :: "deque \<times> 'v buffer \<Rightarrow> nat list \<Rightarrow> bool" where
  "deque_keys s ks \<longleftrightarrow> (case s of (d, buf) \<Rightarrow>
     linked (buf_next buf) (deque_ends d) ks \<and> set ks \<subseteq> dom buf)"

definition deque_values :: "'v buffer \<Rightarrow> nat list \<Rightarrow> 'v list" where
  "deque_values buf ks = map (\<lambda>k. slot_value (the (buf k))) ks"

definition deque_repr :: "deque \<times> 'v buffer \<Rightarrow> 'v list \<Rightarrow> bool" where
  "deque_repr s vs \<longleftrightarrow> (\<exists>ks. deque_keys s ks \<and> deque_values (snd s) ks = vs)"

lemma buf_next_upd: "buf_next (buf(k := s)) k' = (if k' = k then Option.bind s slot_next else buf_next buf k')"
  by (simp add: buf_next_def)

lemma deque_keys_None [simp]: "deque_keys (None, buf) ks \<longleftrightarrow> ks = []"
  by (auto simp: deque_keys_def deque_ends_def)

lemma deque_keys_Some: "deque_keys (Some ix, buf) ks \<longleftrightarrow>
    linked (buf_next buf) (Some (ix_head ix, ix_tail ix)) ks \<and> set ks \<subseteq> dom buf"
  by (simp add: deque_keys_def deque_ends_def)

lemma deque_values_upd [simp]: "k \<notin> set ks \<Longrightarrow> deque_values (buf(k := s)) ks = deque_values buf ks"
  by (auto simp: deque_values_def)

text \<open>Slots that an operation does not touch keep their place in every other deque.\<close>

lemma deque_keys_frame:
  assumes "deque_keys (d, buf) ks" "\<And>k. k \<in> set ks \<Longrightarrow> buf' k = buf k"
  shows "deque_keys (d, buf') ks" "deque_values buf' ks = deque_values buf ks"
proof -
  have "linked (buf_next buf') (deque_ends d) ks \<longleftrightarrow> linked (buf_next buf) (deque_ends d) ks"
    using assms(2) by (intro linked_cong) (simp add: buf_next_def)
  moreover have "set ks \<subseteq> dom buf'"
  proof
    fix k assume "k \<in> set ks"
    then have "k \<in> dom buf" "buf' k = buf k" using assms by (auto simp: deque_keys_def)
    then show "k \<in> dom buf'" by (simp add: domIff)
  qed
  ultimately show "deque_keys (d, buf') ks" using assms(1) by (simp add: deque_keys_def)
  show "deque_values buf' ks = deque_values buf ks" using assms(2) by (simp add: deque_values_def)
qed

lemma deque_push_back_keys:
  assumes keys: "deque_keys (d, buf) ks" and key: "key \<notin> dom buf"
  shows "\<exists>d' buf'. deque_push_back key v (d, buf) = Some (d', buf') \<and> deque_keys (d', buf') (ks @ [key])
    \<and> deque_values buf' (ks @ [key]) = deque_values buf ks @ [v]
    \<and> (\<forall>k. k \<notin> insert key (set ks) \<longrightarrow> buf' k = buf k)"
proof (cases d)
  case None
  then show ?thesis using keys
    by (simp add: deque_push_back_def deque_keys_Some linked_single buf_next_upd deque_values_def)
next
  case (Some ix)
  let ?h = "ix_head ix" and ?t = "ix_tail ix"
  let ?slab = "buf(key \<mapsto> \<lparr>slot_value = v, slot_next = None\<rparr>)"
  from keys Some have lk: "linked (buf_next buf) (Some (?h, ?t)) ks" and dom: "set ks \<subseteq> dom buf"
    by (simp_all add: deque_keys_Some)
  from linked_ends [OF lk] dom obtain old where old: "buf ?t = Some old" by auto
  have new: "key \<notin> set ks" and nt: "key \<noteq> ?t" using dom key old by auto
  let ?buf = "?slab(?t \<mapsto> old\<lparr>slot_next := Some key\<rparr>)"
  have "linked (buf_next ?buf) (Some (?h, key)) (ks @ [key])"
    using nt new by (intro linked_push_back [OF lk new]) (auto simp: buf_next_upd)
  moreover have "deque_values ?buf (ks @ [key]) = deque_values buf ks @ [v]"
    using new nt old by (auto simp: deque_values_def)
  moreover have "deque_push_back key v (d, buf) = Some (Some (ix\<lparr>ix_tail := key\<rparr>), ?buf)"
    using Some old nt by (simp add: deque_push_back_def)
  moreover have "\<forall>k. k \<notin> insert key (set ks) \<longrightarrow> ?buf k = buf k"
    using linked_ends [OF lk] by auto
  ultimately show ?thesis using dom by (auto simp: deque_keys_Some)
qed

lemma deque_push_front_keys:
  assumes keys: "deque_keys (d, buf) ks" and key: "key \<notin> dom buf"
  shows "\<exists>d' buf'. deque_push_front key v (d, buf) = Some (d', buf') \<and> deque_keys (d', buf') (key # ks)
    \<and> deque_values buf' (key # ks) = v # deque_values buf ks
    \<and> (\<forall>k. k \<notin> insert key (set ks) \<longrightarrow> buf' k = buf k)"
proof (cases d)
  case None
  then show ?thesis using keys
    by (simp add: deque_push_front_def deque_keys_Some linked_single buf_next_upd deque_values_def)
next
  case (Some ix)
  let ?h = "ix_head ix" and ?t = "ix_tail ix"
  let ?buf = "buf(key \<mapsto> \<lparr>slot_value = v, slot_next = Some ?h\<rparr>)"
  from keys Some have lk: "linked (buf_next buf) (Some (?h, ?t)) ks" and dom: "set ks \<subseteq> dom buf"
    by (simp_all add: deque_keys_Some)
  have new: "key \<notin> set ks" using dom key by auto
  have "linked (buf_next ?buf) (Some (key, ?t)) (key # ks)"
    using new by (intro linked_push_front [OF lk new]) (auto simp: buf_next_upd)
  moreover have "deque_values ?buf (key # ks) = v # deque_values buf ks"
    using new by (simp add: deque_values_def)
  moreover have "deque_push_front key v (d, buf) = Some (Some (ix\<lparr>ix_head := key\<rparr>), ?buf)"
    using Some by (simp add: deque_push_front_def)
  ultimately show ?thesis using dom by (auto simp: deque_keys_Some)
qed

lemma deque_pop_front_keys:
  assumes keys: "deque_keys (d, buf) (k # ks)"
  shows "\<exists>d' buf'. deque_pop_front (d, buf) = Some (Some (slot_value (the (buf k))), (d', buf'))
    \<and> deque_keys (d', buf') ks \<and> deque_values buf' ks = deque_values buf ks
    \<and> buf' = buf(k := None)"
proof -
  from keys obtain ix where d: "d = Some ix" by (cases d) auto
  let ?h = "ix_head ix" and ?t = "ix_tail ix"
  from keys d have lk: "linked (buf_next buf) (Some (?h, ?t)) (k # ks)"
    and dom: "set (k # ks) \<subseteq> dom buf" by (simp_all add: deque_keys_Some)
  then have h: "?h = k" and nk: "k \<notin> set ks" by (auto simp: linked_Some)
  from dom obtain sl where sl: "buf k = Some sl" by auto
  show ?thesis
  proof (cases "?h = ?t")
    case True
    with lk linked_pop_last [of "buf_next buf" ?h "k # ks"] have "ks = []" "buf_next buf k = None"
      by (auto simp: h)
    with True d h sl show ?thesis
      by (simp add: deque_pop_front_def buf_next_def deque_values_def)
  next
    case False
    from linked_pop_more [OF lk False, of "buf_next (buf(k := None))"] h
    obtain h' ks' where ks: "ks = h' # ks'" and nx: "buf_next buf k = Some h'"
      and lk': "linked (buf_next (buf(k := None))) (Some (h', ?t)) (h' # ks')"
      by (auto simp: buf_next_upd)
    with False d h sl dom nk show ?thesis
      by (auto simp: deque_pop_front_def deque_keys_Some buf_next_def)
  qed
qed

lemma deque_keys_Nil: "deque_keys (d, buf) [] \<longleftrightarrow> d = None"
  by (cases d) (auto simp: deque_keys_Some)

lemma deque_repr_Cons:
  "deque_repr (d, buf) (v # vs) \<longleftrightarrow>
     (\<exists>k ks. deque_keys (d, buf) (k # ks) \<and> slot_value (the (buf k)) = v \<and> deque_values buf ks = vs)"
  by (auto simp: deque_repr_def deque_values_def map_eq_Cons_conv)

text \<open>The deque as a queue: the pushed element is the slab's key with the frame.\<close>

interpretation buffer_fifo: fifo deque_repr "\<lambda>s (key, v). key \<notin> dom (snd s)" "\<lambda>s (key, v). v"
  "\<lambda>(key, v). deque_push_back key v" "\<lambda>(key, v). deque_push_front key v" deque_pop_front
proof
  fix s :: "deque \<times> 'v buffer" and xs and e :: "nat \<times> 'v"
  obtain d buf where s: "s = (d, buf)" by (cases s)
  obtain key v where e: "e = (key, v)" by (cases e)
  assume "deque_repr s xs" and "case e of (key, v) \<Rightarrow> key \<notin> dom (snd s)"
  then obtain ks where ks: "deque_keys (d, buf) ks" "deque_values buf ks = xs" "key \<notin> dom buf"
    by (auto simp: deque_repr_def s e)
  from deque_push_back_keys [OF ks(1,3), of v]
  show "\<exists>s'. (case e of (key, v) \<Rightarrow> deque_push_back key v) s = Some s'
      \<and> deque_repr s' (xs @ [case e of (key, v) \<Rightarrow> v])"
    by (auto simp: s e deque_repr_def ks(2))
  from deque_push_front_keys [OF ks(1,3), of v]
  show "\<exists>s'. (case e of (key, v) \<Rightarrow> deque_push_front key v) s = Some s'
      \<and> deque_repr s' ((case e of (key, v) \<Rightarrow> v) # xs)"
    by (auto simp: s e deque_repr_def ks(2))
next
  fix s :: "deque \<times> 'v buffer"
  assume "deque_repr s []"
  then show "deque_pop_front s = Some (None, s)"
    by (cases s) (auto simp: deque_repr_def deque_values_def deque_keys_Nil deque_pop_front_def)
next
  fix s :: "deque \<times> 'v buffer" and x xs
  assume "deque_repr s (x # xs)"
  then obtain d buf k ks where s: "s = (d, buf)" and k: "deque_keys (d, buf) (k # ks)"
    "slot_value (the (buf k)) = x" "deque_values buf ks = xs"
    by (cases s) (auto simp: deque_repr_Cons)
  from deque_pop_front_keys [OF k(1)] k(2,3)
  show "\<exists>s'. deque_pop_front s = Some (Some x, s') \<and> deque_repr s' xs"
    by (auto simp: s deque_repr_def)
qed

section \<open>Properties\<close>

text \<open>C16: In a slab shared by many deques, pushing a frame with a key the slab had vacant and popping
  everything returns the buffered frames in order with the new frame last; no index panics.\<close>

theorem deque_is_fifo:
  assumes "deque_repr (d, buf) vs" "key \<notin> dom buf"
  shows "\<exists>s t. deque_push_back key v (d, buf) = Some s \<and>
    pops deque_pop_front (Suc (Suc (length vs))) s = Some (map Some vs @ [Some v, None], t)"
  using buffer_fifo.push_back_then_drain [of "(d, buf)" vs "(key, v)"] assms by simp

lemma deque_is_fifo_witness:
  "\<exists>s t. deque_push_back 7 ''b'' (Some \<lparr>ix_head = 3, ix_tail = 3\<rparr>, [3 \<mapsto> \<lparr>slot_value = ''a'', slot_next = None\<rparr>])
      = Some s \<and> pops deque_pop_front 3 s = Some ([Some ''a'', Some ''b'', None], t)"
proof -
  have "deque_repr (Some \<lparr>ix_head = 3, ix_tail = 3\<rparr>, [3 \<mapsto> \<lparr>slot_value = ''a'', slot_next = None\<rparr>]) [''a'']"
    unfolding deque_repr_def
    by (rule exI [of _ "[3]"])
      (simp add: deque_keys_Some linked_single buf_next_def deque_values_def)
  from deque_is_fifo [OF this, of 7 "''b''"] show ?thesis by (simp add: numeral_eq_Suc)
qed

text \<open>C17: Deques that share a slab do not interfere: whatever is pushed to one deque (with a key that
  was vacant) or popped from it, a deque with disjoint slots keeps its keys and its frames.\<close>

theorem deques_isolated:
  assumes "deque_keys (d1, buf) ks1" "deque_keys (d2, buf) ks2" "set ks1 \<inter> set ks2 = {}" "key \<notin> dom buf"
  shows "(\<forall>d' buf'. deque_push_back key v (d1, buf) = Some (d', buf') \<longrightarrow>
        deque_keys (d2, buf') ks2 \<and> deque_values buf' ks2 = deque_values buf ks2) \<and>
    (\<forall>d' buf'. deque_push_front key v (d1, buf) = Some (d', buf') \<longrightarrow>
        deque_keys (d2, buf') ks2 \<and> deque_values buf' ks2 = deque_values buf ks2) \<and>
    (\<forall>x d' buf'. deque_pop_front (d1, buf) = Some (x, (d', buf')) \<longrightarrow>
        deque_keys (d2, buf') ks2 \<and> deque_values buf' ks2 = deque_values buf ks2)"
proof -
  have dis: "k \<in> set ks2 \<Longrightarrow> k \<notin> insert key (set ks1)" for k
    using assms by (auto simp: deque_keys_def)
  have keep: "(\<And>k. k \<in> set ks2 \<Longrightarrow> buf' k = buf k) \<Longrightarrow>
      deque_keys (d2, buf') ks2 \<and> deque_values buf' ks2 = deque_values buf ks2" for buf'
    using deque_keys_frame [OF assms(2)] by blast
  show ?thesis
  proof (intro conjI)
    show "\<forall>d' buf'. deque_push_back key v (d1, buf) = Some (d', buf') \<longrightarrow>
        deque_keys (d2, buf') ks2 \<and> deque_values buf' ks2 = deque_values buf ks2"
      using deque_push_back_keys [OF assms(1,4), of v] dis by (auto intro!: keep)
    show "\<forall>d' buf'. deque_push_front key v (d1, buf) = Some (d', buf') \<longrightarrow>
        deque_keys (d2, buf') ks2 \<and> deque_values buf' ks2 = deque_values buf ks2"
      using deque_push_front_keys [OF assms(1,4), of v] dis by (auto intro!: keep)
    show "\<forall>x d' buf'. deque_pop_front (d1, buf) = Some (x, (d', buf')) \<longrightarrow>
        deque_keys (d2, buf') ks2 \<and> deque_values buf' ks2 = deque_values buf ks2"
    proof (cases ks1)
      case Nil
      with assms(1) have "d1 = None" by (simp add: deque_keys_Nil)
      then show ?thesis using assms(2) by (auto simp: deque_pop_front_def)
    next
      case (Cons k ks)
      then show ?thesis
        using deque_pop_front_keys [of d1 buf k ks] assms(1) dis by (auto intro!: keep)
    qed
  qed
qed

lemma deques_isolated_witness:
  "case deque_push_back 5 ''c'' (Some \<lparr>ix_head = 1, ix_tail = 1\<rparr>,
      [1 \<mapsto> \<lparr>slot_value = ''a'', slot_next = None\<rparr>, 2 \<mapsto> \<lparr>slot_value = ''b'', slot_next = None\<rparr>]) of
    Some (d', buf') \<Rightarrow> deque_keys (Some \<lparr>ix_head = 2, ix_tail = 2\<rparr>, buf') [2]
      \<and> deque_values buf' [2] = [''b'']
  | None \<Rightarrow> False"
proof -
  let ?buf = "[1 \<mapsto> \<lparr>slot_value = ''a'', slot_next = None\<rparr>, 2 \<mapsto> \<lparr>slot_value = ''b'', slot_next = None\<rparr>]"
  have "deque_keys (Some \<lparr>ix_head = 1, ix_tail = 1\<rparr>, ?buf) [1]"
    "deque_keys (Some \<lparr>ix_head = 2, ix_tail = 2\<rparr>, ?buf) [2]"
    by (simp_all add: deque_keys_Some linked_single buf_next_def)
  from deques_isolated [OF this, of 5 "''c''"] show ?thesis
    by (simp add: deque_push_back_def deque_values_def split: option.split)
qed

end
