(* ===== verification/Stream_Record.thy ===== *)
theory Stream_Record
  imports Stream_State Flow_Control Frame_Buffer
begin

text \<open>
  One stream (\<open>src/proto/streams/stream.rs\<close>): the record with all its fields, the predicates that
  decide when it is closed and when it may be dropped, its send capacity, the accounting of data
  sent, the content-length check, and the six instances of the trait \<open>store::Next\<close> that link
  streams into queues.

  A waker is a number. \<open>Waker::wake\<close> is an effect outside the stream; the ghost field \<open>st_woken\<close>
  logs the wakers that the stream's operations woke, oldest first. An \<open>Instant\<close> is a natural
  number. \<open>buffered_send_data\<close> is a byte count of memory that is held, a \<open>nat\<close>; the two window sizes
  keep their 32 bits. A function that can panic (an \<open>assert!\<close>, \<open>expect\<close>, overflow, or a
  \<open>debug_assert!\<close>) returns an option.
\<close>

section \<open>The record\<close>

record key =
  key_index :: u32
  key_stream_id :: stream_id

record store_indices =
  sx_head :: key
  sx_tail :: key

type_synonym queue = "store_indices option"

datatype content_length = Omitted | Head | Remaining u64

type_synonym waker = nat

record stream =
  st_id :: stream_id
  st_state :: inner
  st_is_counted :: bool
  st_ref_count :: usize
  st_next_pending_send :: "key option"
  st_is_pending_send :: bool
  st_send_flow :: flow_control
  st_requested_send_capacity :: u32
  st_buffered_send_data :: nat
  st_send_task :: "waker option"
  st_pending_send :: deque
  st_next_pending_send_capacity :: "key option"
  st_is_pending_send_capacity :: bool
  st_send_capacity_inc :: bool
  st_next_open :: "key option"
  st_is_pending_open :: bool
  st_is_pending_push :: bool
  st_next_pending_accept :: "key option"
  st_is_pending_accept :: bool
  st_recv_flow :: flow_control
  st_in_flight_recv_data :: u32
  st_next_window_update :: "key option"
  st_is_pending_window_update :: bool
  st_reset_at :: "nat option"
  st_next_reset_expire :: "key option"
  st_pending_recv :: deque
  st_is_recv :: bool
  st_recv_task :: "waker option"
  st_push_task :: "waker option"
  st_pending_push_promises :: queue
  st_content_length :: content_length
  st_woken :: "waker list"

definition stream_new :: "stream_id \<Rightarrow> u32 \<Rightarrow> u32 \<Rightarrow> stream option" where
  "stream_new i init_send_window init_recv_window =
     (case inc_window flow_new init_recv_window of
        (Ok _, recv_flow) \<Rightarrow>
          (case assign_capacity recv_flow init_recv_window of
             (Ok _, recv_flow') \<Rightarrow>
               (case inc_window flow_new init_send_window of
                  (Ok _, send_flow) \<Rightarrow> Some \<lparr>
                    st_id = i, st_state = Idle, st_is_counted = False, st_ref_count = 0,
                    st_next_pending_send = None, st_is_pending_send = False,
                    st_send_flow = send_flow, st_requested_send_capacity = 0,
                    st_buffered_send_data = 0, st_send_task = None, st_pending_send = deque_new,
                    st_next_pending_send_capacity = None, st_is_pending_send_capacity = False,
                    st_send_capacity_inc = False, st_next_open = None, st_is_pending_open = False,
                    st_is_pending_push = False, st_next_pending_accept = None,
                    st_is_pending_accept = False, st_recv_flow = recv_flow',
                    st_in_flight_recv_data = 0, st_next_window_update = None,
                    st_is_pending_window_update = False, st_reset_at = None,
                    st_next_reset_expire = None, st_pending_recv = deque_new, st_is_recv = True,
                    st_recv_task = None, st_push_task = None, st_pending_push_promises = None,
                    st_content_length = Omitted, st_woken = []\<rparr>
                | _ \<Rightarrow> None)
           | _ \<Rightarrow> None)
      | _ \<Rightarrow> None)"

section \<open>Reference counts and predicates\<close>

definition stream_ref_inc :: "stream \<Rightarrow> stream option" where
  "stream_ref_inc s =
     (if st_ref_count s < - 1 then Some (s\<lparr>st_ref_count := st_ref_count s + 1\<rparr>) else None)"

definition stream_ref_dec :: "stream \<Rightarrow> stream option" where
  "stream_ref_dec s =
     (if st_ref_count s > 0 then Some (s\<lparr>st_ref_count := st_ref_count s - 1\<rparr>) else None)"

definition is_pending_reset_expiration :: "stream \<Rightarrow> bool" where
  "is_pending_reset_expiration s \<longleftrightarrow> st_reset_at s \<noteq> None"

definition is_send_ready :: "stream \<Rightarrow> bool" where
  "is_send_ready s \<longleftrightarrow> \<not> st_is_pending_open s \<and> \<not> st_is_pending_push s"

definition stream_is_closed :: "stream \<Rightarrow> bool" where
  "stream_is_closed s \<longleftrightarrow>
     is_closed (st_state s) \<and> deque_is_empty (st_pending_send s) \<and> st_buffered_send_data s = 0"

definition is_released :: "stream \<Rightarrow> bool" where
  "is_released s \<longleftrightarrow> stream_is_closed s \<and> st_ref_count s = 0 \<and>
     \<not> st_is_pending_send s \<and> \<not> st_is_pending_send_capacity s \<and>
     \<not> st_is_pending_accept s \<and> \<not> st_is_pending_window_update s \<and>
     \<not> st_is_pending_open s \<and> st_reset_at s = None"

definition is_canceled_interest :: "stream \<Rightarrow> bool" where
  "is_canceled_interest s \<longleftrightarrow> st_ref_count s = 0 \<and> \<not> is_closed (st_state s)"

section \<open>Tasks\<close>

definition notify_send :: "stream \<Rightarrow> stream" where
  "notify_send s =
     (case st_send_task s of None \<Rightarrow> s
      | Some w \<Rightarrow> s\<lparr>st_send_task := None, st_woken := st_woken s @ [w]\<rparr>)"

definition wait_send :: "waker \<Rightarrow> stream \<Rightarrow> stream" where
  "wait_send w s = s\<lparr>st_send_task := Some w\<rparr>"

definition notify_recv :: "stream \<Rightarrow> stream" where
  "notify_recv s =
     (case st_recv_task s of None \<Rightarrow> s
      | Some w \<Rightarrow> s\<lparr>st_recv_task := None, st_woken := st_woken s @ [w]\<rparr>)"

definition notify_push :: "stream \<Rightarrow> stream" where
  "notify_push s =
     (case st_push_task s of None \<Rightarrow> s
      | Some w \<Rightarrow> s\<lparr>st_push_task := None, st_woken := st_woken s @ [w]\<rparr>)"

definition notify_capacity :: "stream \<Rightarrow> stream" where
  "notify_capacity s = notify_send (s\<lparr>st_send_capacity_inc := True\<rparr>)"

definition stream_set_reset :: "reason \<Rightarrow> initiator \<Rightarrow> stream \<Rightarrow> stream" where
  "stream_set_reset r ini s =
     notify_recv (notify_push (notify_send (s\<lparr>st_state := set_reset (st_id s) r ini (st_state s)\<rparr>)))"

section \<open>Send capacity\<close>

text \<open>\<open>available.min(max_buffer_size).saturating_sub(buffered) as WindowSize\<close>; subtraction of \<open>nat\<close>
  saturates.\<close>

definition stream_capacity :: "nat \<Rightarrow> stream \<Rightarrow> u32" where
  "stream_capacity max_buffer_size s =
     (let available = unat (window_as_size (fc_available (st_send_flow s)));
          buffered = st_buffered_send_data s in
      of_nat (min available max_buffer_size - buffered))"

definition stream_assign_capacity :: "u32 \<Rightarrow> nat \<Rightarrow> stream \<Rightarrow> stream option" where
  "stream_assign_capacity capacity max_buffer_size s =
     (let prev_capacity = stream_capacity max_buffer_size s in
      if \<not> capacity > 0 then None
      else case assign_capacity (st_send_flow s) capacity of
        (Ok _, fc) \<Rightarrow>
          (let s' = s\<lparr>st_send_flow := fc\<rparr> in
           Some (if prev_capacity < stream_capacity max_buffer_size s' then notify_capacity s' else s'))
      | _ \<Rightarrow> None)"

definition stream_send_data :: "u32 \<Rightarrow> nat \<Rightarrow> stream \<Rightarrow> stream option" where
  "stream_send_data len max_buffer_size s =
     (let prev_capacity = stream_capacity max_buffer_size s in
      case flow_send_data (st_send_flow s) len of
        (Ok _, fc) \<Rightarrow>
          if \<not> st_buffered_send_data s \<ge> unat len then None
          else if st_requested_send_capacity s < len then None
          else (let s' = s\<lparr>st_send_flow := fc,
                          st_buffered_send_data := st_buffered_send_data s - unat len,
                          st_requested_send_capacity := st_requested_send_capacity s - len\<rparr> in
            Some (if prev_capacity < stream_capacity max_buffer_size s' then notify_capacity s' else s'))
      | _ \<Rightarrow> None)"

section \<open>Content length\<close>

text \<open>\<open>len as u64\<close> of a buffer length.\<close>

definition dec_content_length :: "nat \<Rightarrow> stream \<Rightarrow> (unit, unit) outcome \<times> stream" where
  "dec_content_length len s =
     (case st_content_length s of
        Remaining rem \<Rightarrow>
          (if (of_nat len :: u64) \<le> rem
           then (Ok (), s\<lparr>st_content_length := Remaining (rem - of_nat len)\<rparr>)
           else (Err (), s))
      | Head \<Rightarrow> if len \<noteq> 0 then (Err (), s) else (Ok (), s)
      | Omitted \<Rightarrow> (Ok (), s))"

definition ensure_content_length_zero :: "stream \<Rightarrow> (unit, unit) outcome" where
  "ensure_content_length_zero s =
     (case st_content_length s of
        Remaining rem \<Rightarrow> if rem = 0 then Ok () else Err ()
      | _ \<Rightarrow> Ok ())"

section \<open>The instances of \<open>store::Next\<close>\<close>

text \<open>The dictionary of the trait. \<open>take_next\<close> is \<open>next\<close> followed by \<open>set_next None\<close> in every instance.\<close>

record next_ops =
  nx_next :: "stream \<Rightarrow> key option"
  nx_set_next :: "key option \<Rightarrow> stream \<Rightarrow> stream"
  nx_is_queued :: "stream \<Rightarrow> bool"
  nx_set_queued :: "bool \<Rightarrow> stream \<Rightarrow> stream option"

datatype queue_name = NextAccept | NextSend | NextSendCapacity | NextWindowUpdate | NextOpen | NextResetExpire

text \<open>\<open>now\<close> is what \<open>Instant::now()\<close> returns; only \<open>NextResetExpire\<close> reads the clock.\<close>

fun next_of :: "nat \<Rightarrow> queue_name \<Rightarrow> next_ops" where
  "next_of now NextAccept = \<lparr>
     nx_next = st_next_pending_accept,
     nx_set_next = (\<lambda>k s. s\<lparr>st_next_pending_accept := k\<rparr>),
     nx_is_queued = st_is_pending_accept,
     nx_set_queued = (\<lambda>v s. Some (s\<lparr>st_is_pending_accept := v\<rparr>))\<rparr>"
| "next_of now NextSend = \<lparr>
     nx_next = st_next_pending_send,
     nx_set_next = (\<lambda>k s. s\<lparr>st_next_pending_send := k\<rparr>),
     nx_is_queued = st_is_pending_send,
     nx_set_queued = (\<lambda>v s. if v \<and> st_is_pending_open s then None
       else Some (s\<lparr>st_is_pending_send := v\<rparr>))\<rparr>"
| "next_of now NextSendCapacity = \<lparr>
     nx_next = st_next_pending_send_capacity,
     nx_set_next = (\<lambda>k s. s\<lparr>st_next_pending_send_capacity := k\<rparr>),
     nx_is_queued = st_is_pending_send_capacity,
     nx_set_queued = (\<lambda>v s. Some (s\<lparr>st_is_pending_send_capacity := v\<rparr>))\<rparr>"
| "next_of now NextWindowUpdate = \<lparr>
     nx_next = st_next_window_update,
     nx_set_next = (\<lambda>k s. s\<lparr>st_next_window_update := k\<rparr>),
     nx_is_queued = st_is_pending_window_update,
     nx_set_queued = (\<lambda>v s. Some (s\<lparr>st_is_pending_window_update := v\<rparr>))\<rparr>"
| "next_of now NextOpen = \<lparr>
     nx_next = st_next_open,
     nx_set_next = (\<lambda>k s. s\<lparr>st_next_open := k\<rparr>),
     nx_is_queued = st_is_pending_open,
     nx_set_queued = (\<lambda>v s. if v \<and> st_is_pending_send s then None
       else Some (s\<lparr>st_is_pending_open := v\<rparr>))\<rparr>"
| "next_of now NextResetExpire = \<lparr>
     nx_next = st_next_reset_expire,
     nx_set_next = (\<lambda>k s. s\<lparr>st_next_reset_expire := k\<rparr>),
     nx_is_queued = (\<lambda>s. st_reset_at s \<noteq> None),
     nx_set_queued = (\<lambda>v s. Some (s\<lparr>st_reset_at := (if v then Some now else None)\<rparr>))\<rparr>"

section \<open>Facts about one stream\<close>

lemma notify_sel [simp]:
  "st_state (notify_send s) = st_state s" "st_state (notify_recv s) = st_state s"
  "st_state (notify_push s) = st_state s" "st_id (notify_send s) = st_id s"
  "st_id (notify_recv s) = st_id s" "st_id (notify_push s) = st_id s"
  "st_send_flow (notify_send s) = st_send_flow s" "st_recv_flow (notify_send s) = st_recv_flow s"
  "st_buffered_send_data (notify_send s) = st_buffered_send_data s"
  "st_requested_send_capacity (notify_send s) = st_requested_send_capacity s"
  by (simp_all add: notify_send_def notify_recv_def notify_push_def split: option.splits)

lemma notify_capacity_sel [simp]:
  "st_state (notify_capacity s) = st_state s" "st_id (notify_capacity s) = st_id s"
  "st_send_flow (notify_capacity s) = st_send_flow s"
  "st_buffered_send_data (notify_capacity s) = st_buffered_send_data s"
  "st_requested_send_capacity (notify_capacity s) = st_requested_send_capacity s"
  by (simp_all add: notify_capacity_def)

lemma stream_new_fields:
  assumes "stream_new i ws wr = Some s"
  shows "st_id s = i" "st_state s = Idle" "st_ref_count s = 0" "\<not> st_is_counted s"
    "win_int (fc_window_size (st_send_flow s)) = sint ws"
    "win_int (fc_window_size (st_recv_flow s)) = sint wr"
    "win_int (fc_available (st_recv_flow s)) = sint wr" "win_int (fc_available (st_send_flow s)) = 0"
  using assms
  by (auto simp: stream_new_def inc_window_def flow_new_def assign_capacity_def
      window_increase_by_cases Let_def sint_of_in_i32 split: prod.splits outcome.splits if_splits)

lemma ref_dec_inc:
  assumes "stream_ref_inc s = Some t"
  shows "stream_ref_dec t = Some s"
proof -
  from assms have lt: "st_ref_count s < - 1" and t: "t = s\<lparr>st_ref_count := st_ref_count s + 1\<rparr>"
    by (auto simp: stream_ref_inc_def split: if_splits)
  have "st_ref_count s + 1 \<noteq> 0" using lt by (simp add: eq_neg_iff_add_eq_0 [symmetric])
  then show ?thesis by (simp add: stream_ref_dec_def t word_neq_0_conv)
qed

end
