(* ===== verification/Store_Queue.thy ===== *)
theory Store_Queue
  imports Stream_Record "HOL-Library.Multiset"
begin

text \<open>
  The stream store and its intrusive queues (\<open>src/proto/streams/store.rs\<close>). The slab is the partial map
  from occupied indices to streams; the index that \<open>Slab::insert\<close> chose is an argument. The
  \<open>IndexMap\<close> from stream identifiers to slab indices is the association list in its index order,
  whose \<open>swap_remove\<close> moves the last entry into the hole. A \<open>Ptr\<close> is its key; dereferencing it goes
  through the store and panics (\<open>None\<close>) on a dangling key. \<open>Queue<N>\<close> is generic over the trait
  \<open>Next\<close>: its operations take the trait's dictionary, and the locale \<open>next_trait\<close> holds what they need of
  it.
\<close>

section \<open>The store\<close>

record store =
  sto_slab :: "nat \<Rightarrow> stream option"
  sto_ids :: "(stream_id \<times> u32) list"

definition store_new :: store where
  "store_new = \<lparr>sto_slab = (\<lambda>_. None), sto_ids = []\<rparr>"

definition store_index :: "store \<Rightarrow> key \<Rightarrow> stream option" where
  "store_index st k =
     (case sto_slab st (unat (key_index k)) of
        Some s \<Rightarrow> if st_id s = key_stream_id k then Some s else None
      | None \<Rightarrow> None)"

definition store_put :: "key \<Rightarrow> stream \<Rightarrow> store \<Rightarrow> store" where
  "store_put k s st = st\<lparr>sto_slab := (sto_slab st)(unat (key_index k) \<mapsto> s)\<rparr>"

text \<open>A write through \<open>&mut store[key]\<close>.\<close>

definition store_modify :: "key \<Rightarrow> (stream \<Rightarrow> stream) \<Rightarrow> store \<Rightarrow> store option" where
  "store_modify k f st = map_option (\<lambda>s. store_put k (f s) st) (store_index st k)"

definition store_find :: "stream_id \<Rightarrow> store \<Rightarrow> key option" where
  "store_find i st = map_option (\<lambda>ix. \<lparr>key_index = ix, key_stream_id = i\<rparr>) (map_of (sto_ids st) i)"

text \<open>\<open>assert!(self.ids.insert(id, index).is_none())\<close>; a new entry is the last one.\<close>

definition store_insert :: "nat \<Rightarrow> stream_id \<Rightarrow> stream \<Rightarrow> store \<Rightarrow> (key \<times> store) option" where
  "store_insert n i val st =
     (let index = of_nat n in
      if map_of (sto_ids st) i \<noteq> None then None
      else Some (\<lparr>key_index = index, key_stream_id = i\<rparr>,
        st\<lparr>sto_slab := (sto_slab st)(n \<mapsto> val), sto_ids := sto_ids st @ [(i, index)]\<rparr>))"

text \<open>\<open>VacantEntry::insert\<close>, on the entry of \<open>i\<close> that \<open>find_entry\<close> found vacant.\<close>

definition vacant_insert :: "nat \<Rightarrow> stream_id \<Rightarrow> stream \<Rightarrow> store \<Rightarrow> key \<times> store" where
  "vacant_insert n i val st =
     (let index = of_nat n in
      (\<lparr>key_index = index, key_stream_id = st_id val\<rparr>,
       st\<lparr>sto_slab := (sto_slab st)(n \<mapsto> val), sto_ids := sto_ids st @ [(i, index)]\<rparr>))"

fun index_of_key :: "'k \<Rightarrow> ('k \<times> 'v) list \<Rightarrow> nat option" where
  "index_of_key k [] = None"
| "index_of_key k ((k', _) # xs) = (if k' = k then Some 0 else map_option Suc (index_of_key k xs))"

definition swap_remove :: "'k \<Rightarrow> ('k \<times> 'v) list \<Rightarrow> ('k \<times> 'v) list" where
  "swap_remove k xs =
     (case index_of_key k xs of None \<Rightarrow> xs | Some i \<Rightarrow> butlast (xs[i := last xs]))"

definition ptr_unlink :: "key \<Rightarrow> store \<Rightarrow> store" where
  "ptr_unlink k st = st\<lparr>sto_ids := swap_remove (key_stream_id k) (sto_ids st)\<rparr>"

definition ptr_remove :: "key \<Rightarrow> store \<Rightarrow> (stream_id \<times> store) option" where
  "ptr_remove k st =
     (if map_of (sto_ids st) (key_stream_id k) \<noteq> None then None
      else case sto_slab st (unat (key_index k)) of
        None \<Rightarrow> None
      | Some s \<Rightarrow>
          if st_id s \<noteq> key_stream_id k then None
          else Some (st_id s, st\<lparr>sto_slab := (sto_slab st)(unat (key_index k) := None)\<rparr>))"

text \<open>\<open>try_for_each\<close>: the closure works on a state of its own that contains the store (\<open>get\<close>). The
  loop bound shrinks when the closure removed its entry; \<open>get_index(i).unwrap()\<close> and the
  \<open>debug_assert!\<close> are the panics.\<close>

function try_for_each ::
  "('s \<Rightarrow> store) \<Rightarrow> (key \<Rightarrow> 's \<Rightarrow> (unit, 'e) outcome \<times> 's) \<Rightarrow> nat \<Rightarrow> nat \<Rightarrow> 's
     \<Rightarrow> (unit, 'e) outcome \<times> 's" where
  "try_for_each get f len i s =
     (if i < len
      then (if i < length (sto_ids (get s))
        then (case sto_ids (get s) ! i of (sid, index) \<Rightarrow>
          (case f \<lparr>key_index = index, key_stream_id = sid\<rparr> s of
             (Ok _, s') \<Rightarrow>
               let new_len = length (sto_ids (get s')) in
               if new_len < len
               then (if new_len \<noteq> len - 1 then (Panic, s') else try_for_each get f (len - 1) i s')
               else try_for_each get f len (i + 1) s'
           | (r, s') \<Rightarrow> (r, s')))
        else (Panic, s))
      else (Ok (), s))"
  by pat_completeness auto

termination by (relation "measure (\<lambda>(get, f, len, i, s). len - i)") auto

declare try_for_each.simps [simp del]

definition store_try_for_each ::
  "('s \<Rightarrow> store) \<Rightarrow> (key \<Rightarrow> 's \<Rightarrow> (unit, 'e) outcome \<times> 's) \<Rightarrow> 's \<Rightarrow> (unit, 'e) outcome \<times> 's" where
  "store_try_for_each get f s = try_for_each get f (length (sto_ids (get s))) 0 s"

section \<open>Queues of streams\<close>

definition queue_new :: queue where "queue_new = None"

definition queue_is_empty :: "queue \<Rightarrow> bool" where "queue_is_empty q \<longleftrightarrow> q = None"

text \<open>\<open>Queue::take\<close> leaves an empty queue behind.\<close>

definition queue_take :: "queue \<Rightarrow> queue \<times> queue" where "queue_take q = (q, None)"

definition queue_push :: "next_ops \<Rightarrow> key \<Rightarrow> queue \<times> store \<Rightarrow> (bool \<times> (queue \<times> store)) option" where
  "queue_push N k qs =
     (case qs of (q, st) \<Rightarrow>
      Option.bind (store_index st k) (\<lambda>s.
      if nx_is_queued N s then Some (False, (q, st))
      else Option.bind (nx_set_queued N True s) (\<lambda>s1.
        let st1 = store_put k s1 st in
        if nx_next N s1 \<noteq> None then None
        else case q of
          Some idxs \<Rightarrow>
            Option.bind (store_modify (sx_tail idxs) (nx_set_next N (Some k)) st1) (\<lambda>st2.
              Some (True, (Some (idxs\<lparr>sx_tail := k\<rparr>), st2)))
        | None \<Rightarrow> Some (True, (Some \<lparr>sx_head = k, sx_tail = k\<rparr>, st1)))))"

definition queue_push_front ::
  "next_ops \<Rightarrow> key \<Rightarrow> queue \<times> store \<Rightarrow> (bool \<times> (queue \<times> store)) option" where
  "queue_push_front N k qs =
     (case qs of (q, st) \<Rightarrow>
      Option.bind (store_index st k) (\<lambda>s.
      if nx_is_queued N s then Some (False, (q, st))
      else Option.bind (nx_set_queued N True s) (\<lambda>s1.
        let st1 = store_put k s1 st in
        if nx_next N s1 \<noteq> None then None
        else case q of
          Some idxs \<Rightarrow>
            let head_key = sx_head idxs in
            Option.bind (store_modify k (nx_set_next N (Some head_key)) st1) (\<lambda>st2.
              Some (True, (Some (idxs\<lparr>sx_head := k\<rparr>), st2)))
        | None \<Rightarrow> Some (True, (Some \<lparr>sx_head = k, sx_tail = k\<rparr>, st1)))))"

definition queue_pop :: "next_ops \<Rightarrow> queue \<times> store \<Rightarrow> (key option \<times> (queue \<times> store)) option" where
  "queue_pop N qs =
     (case qs of (q, st) \<Rightarrow>
      case q of
        Some idxs \<Rightarrow>
          Option.bind (store_index st (sx_head idxs)) (\<lambda>s.
            let finish = (\<lambda>q' s1.
              if \<not> nx_is_queued N s1 then None
              else Option.bind (nx_set_queued N False s1) (\<lambda>s2.
                Some (Some (sx_head idxs), (q', store_put (sx_head idxs) s2 st)))) in
            if sx_head idxs = sx_tail idxs
            then (if nx_next N s \<noteq> None then None else finish None s)
            else (case nx_next N s of
                    None \<Rightarrow> None
                  | Some nxt \<Rightarrow> finish (Some (idxs\<lparr>sx_head := nxt\<rparr>)) (nx_set_next N None s)))
      | None \<Rightarrow> Some (None, (None, st)))"

definition queue_pop_if ::
  "next_ops \<Rightarrow> (stream \<Rightarrow> bool) \<Rightarrow> queue \<times> store \<Rightarrow> (key option \<times> (queue \<times> store)) option" where
  "queue_pop_if N f qs =
     (case qs of (q, st) \<Rightarrow>
      case q of
        Some idxs \<Rightarrow>
          Option.bind (store_index st (sx_head idxs)) (\<lambda>s.
            if f s then queue_pop N (q, st) else Some (None, (q, st)))
      | None \<Rightarrow> Some (None, (q, st)))"

section \<open>The store as a map of keys\<close>

lemma store_index_put:
  assumes "store_index st k = Some s0" "st_id s = st_id s0"
  shows "store_index (store_put k s st) k' = (if k' = k then Some s else store_index st k')"
proof -
  from assms have slab: "sto_slab st (unat (key_index k)) = Some s0" and ids: "st_id s = key_stream_id k"
    "st_id s0 = key_stream_id k"
    by (auto simp: store_index_def split: option.splits if_splits)
  have "unat (key_index k') = unat (key_index k) \<Longrightarrow> key_stream_id k = key_stream_id k' \<Longrightarrow> k' = k"
    by (simp add: word_unat_eq_iff)
  with slab ids show ?thesis
    by (cases "unat (key_index k') = unat (key_index k)")
      (auto simp: store_index_def store_put_def)
qed

lemma store_index_id: "store_index st k = Some s \<Longrightarrow> st_id s = key_stream_id k"
  by (auto simp: store_index_def split: option.splits if_splits)

lemma store_ids_put [simp]: "sto_ids (store_put k s st) = sto_ids st"
  by (simp add: store_put_def)

lemma store_modify_Some: "store_index st k = Some s \<Longrightarrow> store_modify k f st = Some (store_put k (f s) st)"
  by (simp add: store_modify_def)

section \<open>Queues refine lists of keys\<close>

definition queue_next :: "next_ops \<Rightarrow> store \<Rightarrow> key \<Rightarrow> key option" where
  "queue_next N st k = Option.bind (store_index st k) (nx_next N)"

definition queue_ends :: "queue \<Rightarrow> (key \<times> key) option" where
  "queue_ends q = map_option (\<lambda>ix. (sx_head ix, sx_tail ix)) q"

definition queue_keys :: "next_ops \<Rightarrow> queue \<times> store \<Rightarrow> key list \<Rightarrow> bool" where
  "queue_keys N qs ks \<longleftrightarrow> (case qs of (q, st) \<Rightarrow>
     linked (queue_next N st) (queue_ends q) ks \<and>
     (\<forall>k \<in> set ks. \<exists>s. store_index st k = Some s \<and> nx_is_queued N s))"

text \<open>A stream that may be pushed: it is in the store, in no queue of this link, and no
  \<open>debug_assert!\<close> of the trait instance objects.\<close>

definition queueable :: "next_ops \<Rightarrow> store \<Rightarrow> key \<Rightarrow> bool" where
  "queueable N st k \<longleftrightarrow> (\<exists>s. store_index st k = Some s \<and> \<not> nx_is_queued N s \<and> nx_next N s = None
     \<and> nx_set_queued N True s \<noteq> None)"

definition pushed :: "(bool \<times> (queue \<times> store)) option \<Rightarrow> (queue \<times> store) option" where
  "pushed r = (case r of Some (True, qs) \<Rightarrow> Some qs | _ \<Rightarrow> None)"

locale next_trait =
  fixes N :: next_ops
  assumes set_next_id: "st_id (nx_set_next N v s) = st_id s"
    and next_set_next: "nx_next N (nx_set_next N v s) = v"
    and queued_set_next: "nx_is_queued N (nx_set_next N v s) = nx_is_queued N s"
    and set_queued: "nx_set_queued N b s = Some s' \<Longrightarrow>
      st_id s' = st_id s \<and> nx_next N s' = nx_next N s \<and> nx_is_queued N s' = b"
    and set_queued_False: "nx_set_queued N False s \<noteq> None"
begin

lemma queue_keys_None: "queue_keys N (None, st) ks \<longleftrightarrow> ks = []"
  by (auto simp: queue_keys_def queue_ends_def)

lemma queue_keys_Nil: "queue_keys N (q, st) [] \<longleftrightarrow> q = None"
  by (simp add: queue_keys_def queue_ends_def)

lemma queue_next_put:
  "store_index st k = Some s0 \<Longrightarrow> st_id s = st_id s0 \<Longrightarrow>
     queue_next N (store_put k s st) k' = (if k' = k then nx_next N s else queue_next N st k')"
  by (simp add: queue_next_def store_index_put)

lemma push_queued:
  "store_index st k = Some s \<Longrightarrow> nx_is_queued N s \<Longrightarrow> queue_push N k (q, st) = Some (False, (q, st))"
  "store_index st k = Some s \<Longrightarrow> nx_is_queued N s \<Longrightarrow> queue_push_front N k (q, st) = Some (False, (q, st))"
  by (simp_all add: queue_push_def queue_push_front_def)

lemma push_back_keys:
  assumes "queue_keys N (q, st) ks" "queueable N st k"
  shows "\<exists>q' st'. queue_push N k (q, st) = Some (True, (q', st')) \<and> queue_keys N (q', st') (ks @ [k])"
proof -
  from assms(2) obtain s s1 where s: "store_index st k = Some s" "\<not> nx_is_queued N s" "nx_next N s = None"
    and s1: "nx_set_queued N True s = Some s1" by (auto simp: queueable_def)
  from set_queued [OF s1] s have s1': "st_id s1 = st_id s" "nx_next N s1 = None" "nx_is_queued N s1"
    by simp_all
  let ?st1 = "store_put k s1 st"
  note ix1 = store_index_put [OF s(1) s1'(1)]
  have new: "k \<notin> set ks" using assms(1) s by (auto simp: queue_keys_def)
  show ?thesis
  proof (cases q)
    case None
    then have "ks = []" using assms(1) by (simp add: queue_keys_None)
    with None s s1 s1' show ?thesis
      by (simp add: queue_push_def queue_keys_def queue_ends_def linked_single queue_next_def ix1)
  next
    case (Some idxs)
    let ?h = "sx_head idxs" and ?t = "sx_tail idxs"
    from assms(1) Some have lk: "linked (queue_next N st) (Some (?h, ?t)) ks"
      and q: "\<And>k. k \<in> set ks \<Longrightarrow> \<exists>s. store_index st k = Some s \<and> nx_is_queued N s"
      by (simp_all add: queue_keys_def queue_ends_def)
    from linked_ends [OF lk] q obtain t where t: "store_index st ?t = Some t" "nx_is_queued N t" by blast
    have tk: "?t \<noteq> k" using linked_ends [OF lk] new by auto
    have t1: "store_index ?st1 ?t = Some t" using t tk by (simp add: ix1)
    let ?t' = "nx_set_next N (Some k) t" and ?st2 = "store_put ?t (nx_set_next N (Some k) t) ?st1"
    note ix2 = store_index_put [OF t1, of ?t', simplified set_next_id [of "Some k" t], OF refl]
    have push: "queue_push N k (q, st) = Some (True, (Some (idxs\<lparr>sx_tail := k\<rparr>), ?st2))"
      using Some s s1 s1' t1 by (simp add: queue_push_def store_modify_Some)
    have "linked (queue_next N ?st2) (Some (?h, k)) (ks @ [k])"
      by (rule linked_push_back [OF lk new])
        (use tk new s1' in \<open>auto simp: queue_next_def ix2 ix1 next_set_next\<close>)
    moreover have "\<forall>k' \<in> set (ks @ [k]). \<exists>s. store_index ?st2 k' = Some s \<and> nx_is_queued N s"
      using q t tk s1' by (auto simp: ix2 ix1 queued_set_next)
    ultimately have "queue_keys N (Some (idxs\<lparr>sx_tail := k\<rparr>), ?st2) (ks @ [k])"
      by (simp add: queue_keys_def queue_ends_def)
    with push show ?thesis by blast
  qed
qed

lemma push_front_keys:
  assumes "queue_keys N (q, st) ks" "queueable N st k"
  shows "\<exists>q' st'. queue_push_front N k (q, st) = Some (True, (q', st')) \<and> queue_keys N (q', st') (k # ks)"
proof -
  from assms(2) obtain s s1 where s: "store_index st k = Some s" "\<not> nx_is_queued N s" "nx_next N s = None"
    and s1: "nx_set_queued N True s = Some s1" by (auto simp: queueable_def)
  from set_queued [OF s1] s have s1': "st_id s1 = st_id s" "nx_next N s1 = None" "nx_is_queued N s1"
    by simp_all
  let ?st1 = "store_put k s1 st"
  note ix1 = store_index_put [OF s(1) s1'(1)]
  have new: "k \<notin> set ks" using assms(1) s by (auto simp: queue_keys_def)
  show ?thesis
  proof (cases q)
    case None
    then have "ks = []" using assms(1) by (simp add: queue_keys_None)
    with None s s1 s1' show ?thesis
      by (simp add: queue_push_front_def queue_keys_def queue_ends_def linked_single queue_next_def ix1)
  next
    case (Some idxs)
    let ?h = "sx_head idxs" and ?t = "sx_tail idxs"
    from assms(1) Some have lk: "linked (queue_next N st) (Some (?h, ?t)) ks"
      and q: "\<And>k. k \<in> set ks \<Longrightarrow> \<exists>s. store_index st k = Some s \<and> nx_is_queued N s"
      by (simp_all add: queue_keys_def queue_ends_def)
    have k1: "store_index ?st1 k = Some s1" by (simp add: ix1)
    let ?st2 = "store_put k (nx_set_next N (Some ?h) s1) ?st1"
    note ix2 = store_index_put [OF k1, of "nx_set_next N (Some ?h) s1",
      simplified set_next_id [of "Some ?h" s1], OF refl]
    have push: "queue_push_front N k (q, st) = Some (True, (Some (idxs\<lparr>sx_head := k\<rparr>), ?st2))"
      using Some s s1 s1' k1 by (simp add: queue_push_front_def store_modify_Some)
    have "linked (queue_next N ?st2) (Some (k, ?t)) (k # ks)"
      by (rule linked_push_front [OF lk new])
        (use new in \<open>auto simp: queue_next_def ix2 ix1 next_set_next\<close>)
    moreover have "\<forall>k' \<in> set (k # ks). \<exists>s. store_index ?st2 k' = Some s \<and> nx_is_queued N s"
      using q s1' new by (auto simp: ix2 ix1 queued_set_next)
    ultimately have "queue_keys N (Some (idxs\<lparr>sx_head := k\<rparr>), ?st2) (k # ks)"
      by (simp add: queue_keys_def queue_ends_def)
    with push show ?thesis by blast
  qed
qed

lemma pop_keys:
  assumes "queue_keys N (q, st) (k # ks)"
  shows "\<exists>q' st' s s'. queue_pop N (q, st) = Some (Some k, (q', st')) \<and> queue_keys N (q', st') ks
    \<and> store_index st k = Some s \<and> st' = store_put k s' st \<and> st_id s' = st_id s
    \<and> \<not> nx_is_queued N s' \<and> nx_next N s' = None"
proof -
  from assms obtain idxs where q: "q = Some idxs" by (cases q) (auto simp: queue_keys_None)
  let ?h = "sx_head idxs" and ?t = "sx_tail idxs"
  from assms q have lk: "linked (queue_next N st) (Some (?h, ?t)) (k # ks)"
    and qd: "\<And>k'. k' \<in> set (k # ks) \<Longrightarrow> \<exists>s. store_index st k' = Some s \<and> nx_is_queued N s"
    by (auto simp: queue_keys_def queue_ends_def)
  then have h: "?h = k" and nk: "k \<notin> set ks" by (auto simp: linked_Some)
  from qd obtain s where s: "store_index st k = Some s" "nx_is_queued N s" by fastforce
  define s1 where "s1 = (if ?h = ?t then s else nx_set_next N None s)"
  have s1: "nx_is_queued N s1" "st_id s1 = st_id s" by (simp_all add: s1_def s queued_set_next set_next_id)
  from set_queued_False obtain s2 where s2: "nx_set_queued N False s1 = Some s2" by fastforce
  note s2' = set_queued [OF s2]
  let ?st' = "store_put k s2 st"
  have id2: "st_id s2 = st_id s" using s2' s1 by simp
  note ix = store_index_put [OF s(1) id2]
  have other: "\<And>k'. k' \<in> set ks \<Longrightarrow> queue_next N ?st' k' = queue_next N st k'"
    using nk by (auto simp: queue_next_def ix)
  have qs: "\<forall>k' \<in> set ks. \<exists>s. store_index ?st' k' = Some s \<and> nx_is_queued N s"
    using qd nk by (auto simp: ix)
  show ?thesis
  proof (cases "?h = ?t")
    case True
    with lk linked_pop_last [of "queue_next N st" ?h "k # ks"] have one: "ks = []" "queue_next N st k = None"
      by (auto simp: h)
    then have "nx_next N s = None" by (simp add: queue_next_def s)
    with True q h s s2 s2' id2 one show ?thesis
      by (auto simp: queue_pop_def s1_def queue_keys_None)
  next
    case False
    from linked_pop_more [OF lk False, of "queue_next N ?st'"] h other
    obtain h' ks' where ks: "ks = h' # ks'" and nx: "queue_next N st k = Some h'"
      and lk': "linked (queue_next N ?st') (Some (h', ?t)) (h' # ks')"
      by auto
    have "nx_next N s = Some h'" using nx by (simp add: queue_next_def s)
    then have pop: "queue_pop N (q, st) = Some (Some k, (Some (idxs\<lparr>sx_head := h'\<rparr>), ?st'))"
      using False q h s s1 s2 by (simp add: queue_pop_def s1_def)
    have "nx_next N s2 = None" "\<not> nx_is_queued N s2" using s2' False by (simp_all add: s1_def next_set_next)
    moreover have "queue_keys N (Some (idxs\<lparr>sx_head := h'\<rparr>), ?st') ks"
      using lk' qs ks by (simp add: queue_keys_def queue_ends_def)
    ultimately show ?thesis using pop s(1) id2 by blast
  qed
qed

end

sublocale next_trait \<subseteq> fifo "queue_keys N" "\<lambda>(q, st). queueable N st" "\<lambda>_ k. k"
  "\<lambda>k qs. pushed (queue_push N k qs)" "\<lambda>k qs. pushed (queue_push_front N k qs)" "queue_pop N"
proof
  fix s :: "queue \<times> store" and xs and e :: key
  obtain q st where s: "s = (q, st)" by (cases s)
  assume "queue_keys N s xs" "(case s of (q, st) \<Rightarrow> queueable N st) e"
  then have "queue_keys N (q, st) xs" "queueable N st e" by (simp_all add: s)
  from push_back_keys [OF this] push_front_keys [OF this]
  show "\<exists>s'. pushed (queue_push N e s) = Some s' \<and> queue_keys N s' (xs @ [e])"
    "\<exists>s'. pushed (queue_push_front N e s) = Some s' \<and> queue_keys N s' (e # xs)"
    by (auto simp: s pushed_def)
next
  fix s :: "queue \<times> store" and x xs
  show "queue_keys N s [] \<Longrightarrow> queue_pop N s = Some (None, s)"
    by (cases s) (simp add: queue_keys_Nil queue_pop_def)
  show "queue_keys N s (x # xs) \<Longrightarrow> \<exists>s'. queue_pop N s = Some (Some x, s') \<and> queue_keys N s' xs"
    using pop_keys by (cases s) blast
qed

interpretation store_queue: next_trait "next_of now n" for now n
  by unfold_locales (cases n; auto split: if_splits)+

section \<open>Iteration\<close>

definition key_of :: "stream_id \<times> u32 \<Rightarrow> key" where
  "key_of e = \<lparr>key_index = snd e, key_stream_id = fst e\<rparr>"

text \<open>What a closure of \<open>try_for_each\<close> may do to the identifiers: nothing, or unlink its own stream.\<close>

definition visits :: "('s \<Rightarrow> store) \<Rightarrow> ('s \<Rightarrow> key list) \<Rightarrow> (key \<Rightarrow> 's \<Rightarrow> (unit, 'e) outcome \<times> 's) \<Rightarrow> bool" where
  "visits get vis f \<longleftrightarrow> (\<forall>k s. fst (f k s) = Ok () \<and> vis (snd (f k s)) = vis s @ [k] \<and>
     (sto_ids (get (snd (f k s))) = sto_ids (get s) \<or>
      sto_ids (get (snd (f k s))) = swap_remove (key_stream_id k) (sto_ids (get s))))"

lemma index_of_key_nth:
  "distinct (map fst xs) \<Longrightarrow> i < length xs \<Longrightarrow> index_of_key (fst (xs ! i)) xs = Some i"
proof (induction xs arbitrary: i)
  case (Cons x xs)
  show ?case
  proof (cases i)
    case 0
    then show ?thesis by (cases x) simp
  next
    case (Suc j)
    with Cons.prems have "fst (xs ! j) \<noteq> fst x" by (metis Suc_less_eq distinct.simps(2) length_Cons length_map
      list.simps(9) nth_map nth_mem)
    with Suc Cons show ?thesis by (cases x) auto
  qed
qed simp

lemma swap_remove_nth:
  assumes "distinct (map fst xs)" "i < length xs"
  shows "swap_remove (fst (xs ! i)) xs = butlast (xs[i := last xs])"
  using index_of_key_nth [OF assms] by (simp add: swap_remove_def)

lemma mset_drop_swap:
  assumes "i < length xs"
  shows "add_mset (xs ! i) (mset (drop i (butlast (xs[i := last xs])))) = mset (drop i xs)"
proof -
  from assms obtain a b where xs: "xs = a @ xs ! i # b" and a: "length a = i"
    by (metis id_take_nth_drop length_take min.absorb4)
  show ?thesis
  proof (cases b rule: rev_cases)
    case Nil
    with xs a have "xs[i := last xs] = xs" "butlast xs = a" "drop i xs = [xs ! i]"
      by (metis append_Nil2 last_snoc list_update_id, metis butlast_snoc, metis append_eq_conv_conj)
    with a show ?thesis by simp
  next
    case (snoc b' l)
    with xs a have l: "last xs = l" by (metis append_is_Nil_conv last_ConsR last_appendR last_snoc list.distinct(1))
    have upd: "xs[i := l] = (a @ l # b') @ [l]" using xs a snoc
      by (metis append.assoc append_Cons list_update_length)
    have "drop i xs = xs ! i # b' @ [l]" using xs a snoc by (metis append_eq_conv_conj)
    then show ?thesis by (simp add: l upd butlast_append a)
  qed
qed

lemma mset_swap:
  assumes "i < length xs"
  shows "add_mset (xs ! i) (mset (butlast (xs[i := last xs]))) = mset xs"
proof -
  let ?new = "butlast (xs[i := last xs])"
  have "mset ?new = mset (take i ?new) + mset (drop i ?new)"
    by (metis append_take_drop_id mset_append)
  moreover have "take i ?new = take i xs" using assms by (simp add: take_butlast)
  moreover have "mset xs = mset (take i xs) + mset (drop i xs)"
    by (metis append_take_drop_id mset_append)
  ultimately show ?thesis using mset_drop_swap [OF assms] by (metis union_mset_add_mset_right)
qed

lemma try_for_each_visits:
  assumes f: "visits get vis f"
  shows "distinct (map fst (sto_ids (get s))) \<Longrightarrow> len = length (sto_ids (get s)) \<Longrightarrow>
    \<exists>s'. try_for_each get f len i s = (Ok (), s') \<and>
      mset (vis s') = mset (vis s) + mset (map key_of (drop i (sto_ids (get s))))"
proof (induction "len - i" arbitrary: i len s rule: less_induct)
  case less
  let ?xs = "sto_ids (get s)"
  show ?case
  proof (cases "i < len")
    case False
    then have "try_for_each get f len i s = (Ok (), s)"
      by (simp add: try_for_each.simps [of get f len i s])
    with False show ?thesis using less.prems by simp
  next
    case True
    then have il: "i < length ?xs" using less.prems by simp
    define k where "k = key_of (?xs ! i)"
    obtain sid index where e: "?xs ! i = (sid, index)" by (cases "?xs ! i")
    then have k: "\<lparr>key_index = index, key_stream_id = sid\<rparr> = k" by (simp add: k_def key_of_def)
    obtain r s' where fk: "f k s = (r, s')" by fastforce
    with f have r: "r = Ok ()" and vis: "vis s' = vis s @ [k]"
      and ids: "sto_ids (get s') = ?xs \<or> sto_ids (get s') = swap_remove (key_stream_id k) ?xs"
      unfolding visits_def by (metis fst_conv snd_conv)+
    have drop: "drop i ?xs = ?xs ! i # drop (Suc i) ?xs" using il by (simp add: Cons_nth_drop_Suc)
    have run: "try_for_each get f len i s =
        (let new_len = length (sto_ids (get s')) in
         if new_len < len then (if new_len \<noteq> len - 1 then (Panic, s') else try_for_each get f (len - 1) i s')
         else try_for_each get f len (i + 1) s')"
      using True il fk r by (simp add: try_for_each.simps [of get f len i s] e k)
    have "sto_ids (get s') = ?xs \<or> sto_ids (get s') = butlast (?xs[i := last ?xs])"
      using ids swap_remove_nth [OF less.prems(1) il] by (simp add: k_def key_of_def)
    then show ?thesis
    proof
      assume same: "sto_ids (get s') = ?xs"
      then have "try_for_each get f len i s = try_for_each get f len (i + 1) s'"
        using run less.prems by simp
      moreover have "\<exists>t. try_for_each get f len (i + 1) s' = (Ok (), t) \<and>
          mset (vis t) = mset (vis s') + mset (map key_of (drop (i + 1) (sto_ids (get s'))))"
        using True same less.prems by (intro less.hyps) auto
      ultimately show ?thesis by (simp add: vis same drop k_def)
    next
      assume rem: "sto_ids (get s') = butlast (?xs[i := last ?xs])"
      have ms: "add_mset (?xs ! i) (mset (sto_ids (get s'))) = mset ?xs"
        unfolding rem by (rule mset_swap [OF il])
      have "mset (?xs ! i # sto_ids (get s')) = mset ?xs" using ms by simp
      then have "mset (map fst (?xs ! i # sto_ids (get s'))) = mset (map fst ?xs)"
        unfolding mset_map by (rule arg_cong)
      then have "distinct (map fst (?xs ! i # sto_ids (get s')))"
        using less.prems(1) mset_eq_imp_distinct_iff by blast
      then have dist: "distinct (map fst (sto_ids (get s')))" by simp
      have len': "length (sto_ids (get s')) = len - 1" using rem less.prems by simp
      then have "try_for_each get f len i s = try_for_each get f (len - 1) i s'"
        using run True by simp
      moreover have "\<exists>t. try_for_each get f (len - 1) i s' = (Ok (), t) \<and>
          mset (vis t) = mset (vis s') + mset (map key_of (drop i (sto_ids (get s'))))"
        using True len' dist by (intro less.hyps) auto
      moreover have "mset (map key_of (drop i ?xs)) =
          add_mset k (mset (map key_of (drop i (sto_ids (get s')))))"
        using mset_drop_swap [OF il, symmetric] by (simp add: rem k_def)
      ultimately show ?thesis by (simp add: vis)
    qed
  qed
qed

section \<open>Properties\<close>

text \<open>C11: Every queue of streams (accept, send, send capacity, window update, open, reset expiration) is a
  first-in first-out list of the streams pushed: pushing a stream that is in no queue of this
  link succeeds, and popping until empty yields the queued streams in order with the new one
  last; no key is dangling and no assertion fails on the way.\<close>

theorem queue_is_fifo:
  assumes "queue_keys (next_of now n) (q, st) ks" "queueable (next_of now n) st k"
  shows "\<exists>qs t. queue_push (next_of now n) k (q, st) = Some (True, qs) \<and>
    pops (queue_pop (next_of now n)) (Suc (Suc (length ks))) qs = Some (map Some ks @ [Some k, None], t)"
proof -
  from store_queue.push_back_keys [OF assms] obtain q' st' where
    push: "queue_push (next_of now n) k (q, st) = Some (True, (q', st'))" by blast
  from store_queue.push_back_then_drain [of now n "(q, st)" ks k] assms push show ?thesis
    by (auto simp: pushed_def)
qed

definition sample_stream :: "stream_id \<Rightarrow> stream" where
  "sample_stream i = the (stream_new i 65535 65535)"

lemma sample_stream_Some: "\<exists>s. stream_new i 65535 65535 = Some s"
  by (simp add: stream_new_def inc_window_def flow_new_def Let_def assign_capacity_def
      window_increase_by_cases in_i32_def)

lemma sample_stream_fields:
  "st_id (sample_stream i) = i" "\<not> st_is_pending_send (sample_stream i)"
  "\<not> st_is_pending_open (sample_stream i)" "st_next_pending_send (sample_stream i) = None"
proof -
  from sample_stream_Some obtain s where s: "stream_new i 65535 65535 = Some s" by blast
  then have "sample_stream i = s" by (simp add: sample_stream_def)
  moreover have "\<not> st_is_pending_send s" "\<not> st_is_pending_open s" "st_next_pending_send s = None"
    using s by (auto simp: stream_new_def split: prod.splits outcome.splits)
  ultimately show "st_id (sample_stream i) = i" "\<not> st_is_pending_send (sample_stream i)"
    "\<not> st_is_pending_open (sample_stream i)" "st_next_pending_send (sample_stream i) = None"
    using stream_new_fields(1) [OF s] by simp_all
qed

lemma queue_is_fifo_witness:
  "\<exists>qs t. queue_push (next_of 0 NextSend) \<lparr>key_index = 0, key_stream_id = StreamId 1\<rparr>
      (None, snd (vacant_insert 0 (StreamId 1) (sample_stream (StreamId 1)) store_new)) = Some (True, qs) \<and>
    pops (queue_pop (next_of 0 NextSend)) (Suc (Suc 0)) qs =
      Some ([Some \<lparr>key_index = 0, key_stream_id = StreamId 1\<rparr>, None], t)"
proof -
  let ?st = "snd (vacant_insert 0 (StreamId 1) (sample_stream (StreamId 1)) store_new)"
  have "queue_keys (next_of 0 NextSend) (None, ?st) []"
    by (simp only: store_queue.queue_keys_None)
  moreover have "queueable (next_of 0 NextSend) ?st \<lparr>key_index = 0, key_stream_id = StreamId 1\<rparr>"
    by (simp add: queueable_def vacant_insert_def store_index_def store_new_def sample_stream_fields)
  ultimately show ?thesis
    by (rule queue_is_fifo [of 0 NextSend None ?st "[]", simplified list.size list.map append_Nil])
qed

text \<open>C13: A key outlives its stream only as a dangling one: after the stream is removed, and whatever
  stream the slab then stores under whatever free index, dereferencing the old key panics
  instead of reaching the new stream, as long as the new stream has another identifier.\<close>

theorem stale_key_dangles:
  assumes "ptr_remove k st = Some (i, st')" "st_id val = j" "j \<noteq> key_stream_id k"
  shows "store_index st' k = None \<and> store_index (snd (vacant_insert n j val st')) k = None"
  using assms by (auto simp: ptr_remove_def store_index_def vacant_insert_def Let_def
      split: if_splits option.splits)

lemma stale_key_dangles_witness:
  "store_index (snd (vacant_insert 0 (StreamId 3) (sample_stream (StreamId 3))
      \<lparr>sto_slab = (\<lambda>_. None), sto_ids = []\<rparr>)) \<lparr>key_index = 0, key_stream_id = StreamId 1\<rparr> = None"
proof -
  have "ptr_remove \<lparr>key_index = 0, key_stream_id = StreamId 1\<rparr>
      \<lparr>sto_slab = [0 \<mapsto> sample_stream (StreamId 1)], sto_ids = []\<rparr> =
      Some (StreamId 1, \<lparr>sto_slab = (\<lambda>_. None), sto_ids = []\<rparr>)"
    by (simp add: ptr_remove_def sample_stream_fields)
  from stale_key_dangles [OF this, of "sample_stream (StreamId 3)" "StreamId 3" 0] show ?thesis
    by (simp add: sample_stream_fields)
qed

text \<open>C12: Iterating over the store while unlinking streams misses none and repeats none: if the
  closure always succeeds and at most unlinks the stream it is given, every stream that was linked
  is visited exactly once, and the loop's assertion never fails.\<close>

theorem for_each_visits_all:
  assumes "visits get vis f" "distinct (map fst (sto_ids (get s)))"
  shows "\<exists>s'. store_try_for_each get f s = (Ok (), s') \<and>
    mset (vis s') = mset (vis s) + mset (map key_of (sto_ids (get s)))"
  using try_for_each_visits [OF assms(1) assms(2) refl, of 0] by (simp add: store_try_for_each_def)

lemma for_each_visits_all_witness:
  "\<exists>s'. store_try_for_each fst (\<lambda>k (st, log). ((Ok () :: (unit, unit) outcome), (ptr_unlink k st, log @ [k])))
      (\<lparr>sto_slab = (\<lambda>_. None), sto_ids = [(StreamId 1, 0), (StreamId 3, 1), (StreamId 5, 2)]\<rparr>, []) = (Ok (), s') \<and>
    mset (snd s') = mset (map key_of [(StreamId 1, 0), (StreamId 3, 1), (StreamId 5, 2)])"
  using for_each_visits_all [of fst snd
      "\<lambda>k (st, log). ((Ok () :: (unit, unit) outcome), (ptr_unlink k st, log @ [k]))"
      "(\<lparr>sto_slab = (\<lambda>_. None), sto_ids = [(StreamId 1, 0), (StreamId 3, 1), (StreamId 5, 2)]\<rparr>, [])"]
  by (simp add: visits_def ptr_unlink_def split: prod.splits)

end
