(* ===== verification/Counts.thy ===== *)
theory Counts
  imports Store_Queue Frame_Settings
begin

text \<open>
  The connection's peer role (\<open>src/proto/peer.rs\<close>), the configuration of the streams
  (\<open>src/proto/streams/mod.rs\<close>), and \<open>Counts\<close> (\<open>src/proto/streams/counts.rs\<close>): how many streams each side has
  open, how many were reset, and the budget for the framing overhead of DATA frames. The main
  invariant ties the two stream counters to the streams in the store that are marked as counted.
\<close>

section \<open>The peer\<close>

datatype dyn = Client | Server

datatype open_mode = OpenPushPromise | OpenHeaders

definition dyn_is_server :: "dyn \<Rightarrow> bool" where "dyn_is_server p \<longleftrightarrow> p = Server"

text \<open>\<open>assert!(!id.is_zero())\<close>\<close>

definition is_local_init :: "dyn \<Rightarrow> stream_id \<Rightarrow> bool option" where
  "is_local_init p i = (if sid_is_zero i then None else Some (dyn_is_server p = is_server_initiated i))"

fun is_push_promise :: "open_mode \<Rightarrow> bool" where
  "is_push_promise OpenPushPromise = True"
| "is_push_promise OpenHeaders = False"

definition ensure_can_open :: "dyn \<Rightarrow> stream_id \<Rightarrow> open_mode \<Rightarrow> (unit, proto_error) outcome" where
  "ensure_can_open p i mode =
     (if dyn_is_server p
      then (if is_push_promise mode \<or> \<not> is_client_initiated i
            then Err (library_go_away PROTOCOL_ERROR) else Ok ())
      else (if \<not> is_push_promise mode \<or> \<not> is_server_initiated i
            then Err (library_go_away PROTOCOL_ERROR) else Ok ()))"

section \<open>Configuration\<close>

definition DEFAULT_REMOTE_RESET_STREAM_MAX :: nat where "DEFAULT_REMOTE_RESET_STREAM_MAX = 20"
definition DEFAULT_LOCAL_RESET_COUNT_MAX :: nat where "DEFAULT_LOCAL_RESET_COUNT_MAX = 1024"
definition DEFAULT_DATA_FRAME_OVERHEAD_THRESHOLD :: nat where
  "DEFAULT_DATA_FRAME_OVERHEAD_THRESHOLD = 256"
definition DEFAULT_DATA_FRAME_BUDGET :: nat where
  "DEFAULT_DATA_FRAME_BUDGET = DEFAULT_DATA_FRAME_OVERHEAD_THRESHOLD * 100"
definition MAX_RECV_EMPTY_DATA_FRAMES :: nat where "MAX_RECV_EMPTY_DATA_FRAMES = 100"
definition DEFAULT_RESET_STREAM_MAX :: nat where "DEFAULT_RESET_STREAM_MAX = 50"

datatype data_frame_budget = BudgetAuto | BudgetConfigured nat

fun budget_resolve :: "data_frame_budget \<Rightarrow> u32 option \<Rightarrow> nat" where
  "budget_resolve (BudgetConfigured budget) connection_window = budget"
| "budget_resolve BudgetAuto connection_window =
     (let window = (case connection_window of Some w \<Rightarrow> w | None \<Rightarrow> DEFAULT_INITIAL_WINDOW_SIZE);
          budget = unat window div 2 in
      max budget DEFAULT_DATA_FRAME_BUDGET)"

fun budget_is_auto :: "data_frame_budget \<Rightarrow> bool" where
  "budget_is_auto BudgetAuto = True"
| "budget_is_auto (BudgetConfigured _) = False"

record config =
  cfg_initial_max_send_streams :: nat
  cfg_local_max_buffer_size :: nat
  cfg_local_next_stream_id :: stream_id
  cfg_local_push_enabled :: bool
  cfg_extended_connect_protocol_enabled :: bool
  cfg_local_reset_duration :: nat
  cfg_local_reset_max :: nat
  cfg_remote_reset_max :: nat
  cfg_remote_init_window_sz :: u32
  cfg_remote_max_initiated :: "nat option"
  cfg_local_max_error_reset_streams :: "nat option"
  cfg_data_frame_budget :: data_frame_budget

section \<open>The budget\<close>

record budget =
  bud_spent :: nat
  bud_max :: nat

datatype budget_exhausted = BudgetExhausted

definition budget_new :: "nat \<Rightarrow> budget" where
  "budget_new mx = \<lparr>bud_spent = 0, bud_max = mx\<rparr>"

definition budget_consume :: "nat \<Rightarrow> budget \<Rightarrow> (unit, budget_exhausted) outcome \<times> budget" where
  "budget_consume amount b =
     (if bud_spent b + amount > USIZE_MAX then (Err BudgetExhausted, b)
      else let spent = bud_spent b + amount in
        if spent > bud_max b then (Err BudgetExhausted, b) else (Ok (), b\<lparr>bud_spent := spent\<rparr>))"

definition budget_replenish :: "nat \<Rightarrow> budget \<Rightarrow> budget" where
  "budget_replenish amount b = b\<lparr>bud_spent := bud_spent b - amount\<rparr>"

definition budget_set_max :: "nat \<Rightarrow> budget \<Rightarrow> budget" where
  "budget_set_max mx b = b\<lparr>bud_max := mx\<rparr>"

section \<open>Counts\<close>

record counts =
  cnt_peer :: dyn
  cnt_max_send_streams :: nat
  cnt_num_send_streams :: nat
  cnt_max_recv_streams :: nat
  cnt_num_recv_streams :: nat
  cnt_max_local_reset_streams :: nat
  cnt_num_local_reset_streams :: nat
  cnt_max_remote_reset_streams :: nat
  cnt_num_remote_reset_streams :: nat
  cnt_max_local_error_reset_streams :: "nat option"
  cnt_num_local_error_reset_streams :: nat
  cnt_data_frame_budget :: budget
  cnt_data_frame_budget_is_auto :: bool
  cnt_num_recv_empty_data_frames :: nat

definition counts_new :: "dyn \<Rightarrow> config \<Rightarrow> counts" where
  "counts_new p cfg = \<lparr>
     cnt_peer = p,
     cnt_max_send_streams = cfg_initial_max_send_streams cfg,
     cnt_num_send_streams = 0,
     cnt_max_recv_streams =
       (case cfg_remote_max_initiated cfg of Some n \<Rightarrow> n | None \<Rightarrow> USIZE_MAX),
     cnt_num_recv_streams = 0,
     cnt_max_local_reset_streams = cfg_local_reset_max cfg,
     cnt_num_local_reset_streams = 0,
     cnt_max_remote_reset_streams = cfg_remote_reset_max cfg,
     cnt_num_remote_reset_streams = 0,
     cnt_max_local_error_reset_streams = cfg_local_max_error_reset_streams cfg,
     cnt_num_local_error_reset_streams = 0,
     cnt_data_frame_budget = budget_new (budget_resolve (cfg_data_frame_budget cfg) None),
     cnt_data_frame_budget_is_auto = budget_is_auto (cfg_data_frame_budget cfg),
     cnt_num_recv_empty_data_frames = 0\<rparr>"

definition set_target_connection_window_size :: "u32 \<Rightarrow> counts \<Rightarrow> counts" where
  "set_target_connection_window_size sz c =
     (if cnt_data_frame_budget_is_auto c
      then c\<lparr>cnt_data_frame_budget :=
        budget_set_max (budget_resolve BudgetAuto (Some sz)) (cnt_data_frame_budget c)\<rparr>
      else c)"

definition record_data_frame :: "nat \<Rightarrow> counts \<Rightarrow> (unit, budget_exhausted) outcome \<times> counts" where
  "record_data_frame payload_len c =
     (if payload_len = 0
      then (if cnt_num_recv_empty_data_frames c + 1 > USIZE_MAX then (Err BudgetExhausted, c)
            else let c' = c\<lparr>cnt_num_recv_empty_data_frames := cnt_num_recv_empty_data_frames c + 1\<rparr> in
              if cnt_num_recv_empty_data_frames c' > MAX_RECV_EMPTY_DATA_FRAMES
              then (Err BudgetExhausted, c') else (Ok (), c'))
      else if payload_len < DEFAULT_DATA_FRAME_OVERHEAD_THRESHOLD
      then (case budget_consume (DEFAULT_DATA_FRAME_OVERHEAD_THRESHOLD - payload_len)
                (cnt_data_frame_budget c) of
              (r, b) \<Rightarrow> (r, c\<lparr>cnt_data_frame_budget := b\<rparr>))
      else (Ok (), c\<lparr>cnt_data_frame_budget :=
              budget_replenish (payload_len - DEFAULT_DATA_FRAME_OVERHEAD_THRESHOLD)
                (cnt_data_frame_budget c)\<rparr>))"

definition release_data_frame :: "nat \<Rightarrow> counts \<Rightarrow> counts" where
  "release_data_frame payload_len c =
     (if payload_len \<noteq> 0 \<and> payload_len < DEFAULT_DATA_FRAME_OVERHEAD_THRESHOLD
      then c\<lparr>cnt_data_frame_budget :=
        budget_replenish (DEFAULT_DATA_FRAME_OVERHEAD_THRESHOLD - payload_len) (cnt_data_frame_budget c)\<rparr>
      else c)"

definition next_send_stream_will_reach_capacity :: "counts \<Rightarrow> bool" where
  "next_send_stream_will_reach_capacity c \<longleftrightarrow> cnt_max_send_streams c \<le> cnt_num_send_streams c + 1"

definition has_streams :: "counts \<Rightarrow> bool" where
  "has_streams c \<longleftrightarrow> cnt_num_send_streams c \<noteq> 0 \<or> cnt_num_recv_streams c \<noteq> 0"

definition can_inc_num_local_error_resets :: "counts \<Rightarrow> bool" where
  "can_inc_num_local_error_resets c =
     (case cnt_max_local_error_reset_streams c of
        Some mx \<Rightarrow> mx > cnt_num_local_error_reset_streams c
      | None \<Rightarrow> True)"

definition inc_num_local_error_resets :: "counts \<Rightarrow> counts option" where
  "inc_num_local_error_resets c =
     (if can_inc_num_local_error_resets c \<and> cnt_num_local_error_reset_streams c < USIZE_MAX
      then Some (c\<lparr>cnt_num_local_error_reset_streams := cnt_num_local_error_reset_streams c + 1\<rparr>)
      else None)"

definition can_inc_num_recv_streams :: "counts \<Rightarrow> bool" where
  "can_inc_num_recv_streams c \<longleftrightarrow> cnt_max_recv_streams c > cnt_num_recv_streams c"

definition inc_num_recv_streams :: "stream \<Rightarrow> counts \<Rightarrow> (stream \<times> counts) option" where
  "inc_num_recv_streams s c =
     (if can_inc_num_recv_streams c \<and> \<not> st_is_counted s
      then Some (s\<lparr>st_is_counted := True\<rparr>, c\<lparr>cnt_num_recv_streams := cnt_num_recv_streams c + 1\<rparr>)
      else None)"

definition can_inc_num_send_streams :: "counts \<Rightarrow> bool" where
  "can_inc_num_send_streams c \<longleftrightarrow> cnt_max_send_streams c > cnt_num_send_streams c"

definition inc_num_send_streams :: "stream \<Rightarrow> counts \<Rightarrow> (stream \<times> counts) option" where
  "inc_num_send_streams s c =
     (if can_inc_num_send_streams c \<and> \<not> st_is_counted s
      then Some (s\<lparr>st_is_counted := True\<rparr>, c\<lparr>cnt_num_send_streams := cnt_num_send_streams c + 1\<rparr>)
      else None)"

definition can_inc_num_reset_streams :: "counts \<Rightarrow> bool" where
  "can_inc_num_reset_streams c \<longleftrightarrow> cnt_max_local_reset_streams c > cnt_num_local_reset_streams c"

definition inc_num_reset_streams :: "counts \<Rightarrow> counts option" where
  "inc_num_reset_streams c =
     (if can_inc_num_reset_streams c
      then Some (c\<lparr>cnt_num_local_reset_streams := cnt_num_local_reset_streams c + 1\<rparr>) else None)"

definition can_inc_num_remote_reset_streams :: "counts \<Rightarrow> bool" where
  "can_inc_num_remote_reset_streams c \<longleftrightarrow>
     cnt_max_remote_reset_streams c > cnt_num_remote_reset_streams c"

definition inc_num_remote_reset_streams :: "counts \<Rightarrow> counts option" where
  "inc_num_remote_reset_streams c =
     (if can_inc_num_remote_reset_streams c
      then Some (c\<lparr>cnt_num_remote_reset_streams := cnt_num_remote_reset_streams c + 1\<rparr>) else None)"

definition dec_num_remote_reset_streams :: "counts \<Rightarrow> counts option" where
  "dec_num_remote_reset_streams c =
     (if cnt_num_remote_reset_streams c > 0
      then Some (c\<lparr>cnt_num_remote_reset_streams := cnt_num_remote_reset_streams c - 1\<rparr>) else None)"

definition counts_apply_remote_settings :: "settings \<Rightarrow> bool \<Rightarrow> counts \<Rightarrow> counts" where
  "counts_apply_remote_settings s is_initial c =
     (case set_max_concurrent_streams s of
        Some v \<Rightarrow> c\<lparr>cnt_max_send_streams := unat v\<rparr>
      | None \<Rightarrow> if is_initial then c\<lparr>cnt_max_send_streams := USIZE_MAX\<rparr> else c)"

definition dec_num_reset_streams :: "counts \<Rightarrow> counts option" where
  "dec_num_reset_streams c =
     (if cnt_num_local_reset_streams c > 0
      then Some (c\<lparr>cnt_num_local_reset_streams := cnt_num_local_reset_streams c - 1\<rparr>) else None)"

definition dec_num_streams :: "stream \<Rightarrow> counts \<Rightarrow> (stream \<times> counts) option" where
  "dec_num_streams s c =
     (if \<not> st_is_counted s then None
      else Option.bind (is_local_init (cnt_peer c) (st_id s)) (\<lambda>local.
        if local
        then (if cnt_num_send_streams c > 0
              then Some (s\<lparr>st_is_counted := False\<rparr>, c\<lparr>cnt_num_send_streams := cnt_num_send_streams c - 1\<rparr>)
              else None)
        else (if cnt_num_recv_streams c > 0
              then Some (s\<lparr>st_is_counted := False\<rparr>, c\<lparr>cnt_num_recv_streams := cnt_num_recv_streams c - 1\<rparr>)
              else None)))"

text \<open>\<open>transition_after\<close> works on the counters and, through its \<open>Ptr\<close>, on the store.\<close>

definition transition_after :: "key \<Rightarrow> bool \<Rightarrow> counts \<times> store \<Rightarrow> (counts \<times> store) option" where
  "transition_after k is_reset_counted cs =
     (case cs of (c, st) \<Rightarrow>
      Option.bind (store_index st k) (\<lambda>s.
      Option.bind
        (if stream_is_closed s
         then Option.bind
           (if \<not> is_pending_reset_expiration s
            then (let st1 = ptr_unlink k st in
                  if is_reset_counted then map_option (\<lambda>c1. (c1, st1)) (dec_num_reset_streams c)
                  else Some (c, st1))
            else Some (c, st))
           (\<lambda>(c1, st1).
             if \<not> is_scheduled_reset (st_state s) \<and> st_is_counted s
             then map_option (\<lambda>(s2, c2). (c2, store_put k s2 st1)) (dec_num_streams s c1)
             else Some (c1, st1))
         else Some (c, st))
        (\<lambda>(c3, st3).
          Option.bind (store_index st3 k) (\<lambda>s3.
            if is_released s3 then map_option (\<lambda>(_, st4). (c3, st4)) (ptr_remove k st3)
            else Some (c3, st3)))))"

text \<open>\<open>transition(stream, f)\<close>: the closure's result, the counters and the store, around \<open>transition_after\<close>.\<close>

definition counts_transition ::
  "key \<Rightarrow> (counts \<times> store \<Rightarrow> ('r \<times> (counts \<times> store)) option) \<Rightarrow> counts \<times> store
     \<Rightarrow> ('r \<times> (counts \<times> store)) option" where
  "counts_transition k f cs =
     Option.bind (store_index (snd cs) k) (\<lambda>s.
       let is_pending_reset = is_pending_reset_expiration s in
       Option.bind (f cs) (\<lambda>(ret, cs').
         map_option (\<lambda>cs''. (ret, cs'')) (transition_after k is_pending_reset cs')))"

section \<open>The counters count the streams\<close>

definition counted :: "dyn \<Rightarrow> bool \<Rightarrow> store \<Rightarrow> nat set" where
  "counted p local st =
     {n. \<exists>s. sto_slab st n = Some s \<and> st_is_counted s \<and> is_local_init p (st_id s) = Some local}"

text \<open>\<open>counts_off n m\<close>: the counters are the numbers of counted streams plus \<open>n\<close> and \<open>m\<close>, which is how many
  streams of each side were dropped from the store without being uncounted.\<close>

definition counts_off :: "nat \<Rightarrow> nat \<Rightarrow> counts \<times> store \<Rightarrow> bool" where
  "counts_off n m cs \<longleftrightarrow> (case cs of (c, st) \<Rightarrow> finite (dom (sto_slab st)) \<and>
     cnt_num_send_streams c = card (counted (cnt_peer c) True st) + n \<and>
     cnt_num_recv_streams c = card (counted (cnt_peer c) False st) + m)"

text \<open>The one case of \<open>transition_after\<close> in which a stream leaves the store while it is counted: it is dropped
  as released although its reset is still scheduled, and a stream with a scheduled reset is not uncounted.\<close>

definition drops_counted :: "stream \<Rightarrow> bool" where
  "drops_counted s \<longleftrightarrow> is_scheduled_reset (st_state s) \<and> st_is_counted s \<and> is_released s"

lemma finite_counted: "finite (dom (sto_slab st)) \<Longrightarrow> finite (counted p local st)"
  by (rule finite_subset [of _ "dom (sto_slab st)"]) (auto simp: counted_def)

lemma counted_slab_cong: "sto_slab st' = sto_slab st \<Longrightarrow> counted p local st' = counted p local st"
  by (simp add: counted_def)

lemma counts_off_slab_cong:
  "sto_slab st' = sto_slab st \<Longrightarrow> counts_off n m (c, st') \<longleftrightarrow> counts_off n m (c, st)"
  using counted_slab_cong [of st' st] by (simp add: counts_off_def)

lemma slab_of_index: "store_index st k = Some s \<Longrightarrow> sto_slab st (unat (key_index k)) = Some s"
  by (auto simp: store_index_def split: option.splits if_splits)

lemma counted_put:
  assumes "is_local_init p (st_id s) = Some l"
  shows "counted p b (store_put k s st) =
    (if b = l \<and> st_is_counted s then insert (unat (key_index k)) (counted p b st)
     else counted p b st - {unat (key_index k)})"
  using assms by (auto simp: counted_def store_put_def split: if_splits)

lemma counted_member:
  "store_index st k = Some s \<Longrightarrow> is_local_init p (st_id s) = Some l \<Longrightarrow>
     unat (key_index k) \<in> counted p b st \<longleftrightarrow> b = l \<and> st_is_counted s"
  by (auto simp: counted_def dest: slab_of_index)

lemma is_local_init_Some: "\<not> sid_is_zero i \<Longrightarrow> \<exists>l. is_local_init p i = Some l"
  by (simp add: is_local_init_def)

lemma counts_off_finite: "counts_off n m (c, st) \<Longrightarrow> finite (counted p b st)"
  by (simp add: counts_off_def finite_counted)

lemma dom_store_put: "dom (sto_slab (store_put k s st)) = insert (unat (key_index k)) (dom (sto_slab st))"
  by (auto simp: store_put_def)

lemma dec_num_streams_inv:
  assumes "counts_off n m (c, st)" "store_index st k = Some s" "dec_num_streams s c = Some (s', c')"
  shows "counts_off n m (c', store_put k s' st)" "st_id s' = st_id s" "\<not> st_is_counted s'"
proof -
  from assms(3) obtain l where l: "is_local_init (cnt_peer c) (st_id s) = Some l" and cs: "st_is_counted s"
    and s': "s' = s\<lparr>st_is_counted := False\<rparr>"
    and c': "c' = (if l then c\<lparr>cnt_num_send_streams := cnt_num_send_streams c - 1\<rparr>
      else c\<lparr>cnt_num_recv_streams := cnt_num_recv_streams c - 1\<rparr>)"
    by (auto simp: dec_num_streams_def bind_eq_Some_conv split: if_splits)
  let ?n = "unat (key_index k)"
  have put: "counted (cnt_peer c) b (store_put k s' st) = counted (cnt_peer c) b st - {?n}" for b
    using counted_put [of "cnt_peer c" s' l b k st] l s' by simp
  have mem: "?n \<in> counted (cnt_peer c) b st \<longleftrightarrow> b = l" for b
    using counted_member [OF assms(2) l] cs by simp
  have "card (counted (cnt_peer c) b st - {?n}) = card (counted (cnt_peer c) b st) - (if b = l then 1 else 0)" for b
    using counts_off_finite [OF assms(1)] mem [of b] by (auto simp: card_Diff_singleton)
  moreover have "card (counted (cnt_peer c) l st) > 0"
    using counts_off_finite [OF assms(1)] mem [of l] by (auto simp: card_gt_0_iff)
  ultimately show "counts_off n m (c', store_put k s' st)"
    using put assms(1) c' by (cases l) (simp_all add: counts_off_def dom_store_put)
  show "st_id s' = st_id s" "\<not> st_is_counted s'" by (simp_all add: s')
qed

lemma dec_num_streams_no_panic:
  assumes "counts_off n m (c, st)" "store_index st k = Some s" "st_is_counted s" "\<not> sid_is_zero (st_id s)"
  shows "dec_num_streams s c \<noteq> None"
proof -
  from is_local_init_Some [OF assms(4)] obtain l where l: "is_local_init (cnt_peer c) (st_id s) = Some l"
    by blast
  then have "unat (key_index k) \<in> counted (cnt_peer c) l st"
    using counted_member [OF assms(2) l] assms(3) by simp
  then have "card (counted (cnt_peer c) l st) > 0"
    using counts_off_finite [OF assms(1)] by (auto simp: card_gt_0_iff)
  with assms(1,3) l show ?thesis
    by (cases l) (auto simp: dec_num_streams_def counts_off_def)
qed

lemma ptr_remove_off:
  assumes "counts_off n m (c, st)" "store_index st k = Some s" "ptr_remove k st = Some (i, st')"
  shows "counts_off
      (n + (if st_is_counted s \<and> is_local_init (cnt_peer c) (st_id s) = Some True then 1 else 0))
      (m + (if st_is_counted s \<and> is_local_init (cnt_peer c) (st_id s) = Some False then 1 else 0)) (c, st')"
    "store_index st' k = None"
proof -
  let ?n = "unat (key_index k)"
  from assms(2,3) have st': "sto_slab st' = (sto_slab st)(?n := None)"
    by (auto simp: ptr_remove_def split: if_splits option.splits)
  then show "store_index st' k = None" by (simp add: store_index_def)
  have mem: "?n \<in> counted p b st \<longleftrightarrow> st_is_counted s \<and> is_local_init p (st_id s) = Some b" for p b
    using slab_of_index [OF assms(2)] by (auto simp: counted_def)
  have put: "counted p b st' = counted p b st - {?n}" for p b by (auto simp: counted_def st' split: if_splits)
  have card: "card (counted p b st') + (if ?n \<in> counted p b st then 1 else 0) = card (counted p b st)" for p b
    using counts_off_finite [OF assms(1), of p b] put
    by (auto simp: card_Suc_Diff1 simp del: card_Diff_insert)
  have "dom (sto_slab st') \<subseteq> dom (sto_slab st)" by (auto simp: st')
  then show "counts_off
      (n + (if st_is_counted s \<and> is_local_init (cnt_peer c) (st_id s) = Some True then 1 else 0))
      (m + (if st_is_counted s \<and> is_local_init (cnt_peer c) (st_id s) = Some False then 1 else 0)) (c, st')"
    using assms(1) card [of "cnt_peer c" True] card [of "cnt_peer c" False] mem
    by (auto simp: counts_off_def intro: finite_subset split: if_splits)
qed

lemma inc_num_streams_inv:
  assumes "counts_off n m (c, st)" "store_index st k = Some s"
    "is_local_init (cnt_peer c) (st_id s) = Some l"
    "(if l then inc_num_send_streams s c else inc_num_recv_streams s c) = Some (s', c')"
  shows "counts_off n m (c', store_put k s' st)"
    "if l then cnt_num_send_streams c' \<le> cnt_max_send_streams c'
     else cnt_num_recv_streams c' \<le> cnt_max_recv_streams c'"
proof -
  from assms(4) have ns: "\<not> st_is_counted s" and s': "s' = s\<lparr>st_is_counted := True\<rparr>"
    and c': "c' = (if l then c\<lparr>cnt_num_send_streams := cnt_num_send_streams c + 1\<rparr>
      else c\<lparr>cnt_num_recv_streams := cnt_num_recv_streams c + 1\<rparr>)"
    and lim: "if l then can_inc_num_send_streams c else can_inc_num_recv_streams c"
    by (auto simp: inc_num_send_streams_def inc_num_recv_streams_def split: if_splits)
  let ?n = "unat (key_index k)"
  have put: "counted (cnt_peer c) b (store_put k s' st) =
      (if b = l then insert ?n (counted (cnt_peer c) b st) else counted (cnt_peer c) b st - {?n})" for b
    using counted_put [of "cnt_peer c" s' l b k st] assms(3) s' by simp
  have "?n \<notin> counted (cnt_peer c) b st" for b
    using counted_member [OF assms(2,3)] ns by simp
  then have "card (counted (cnt_peer c) b (store_put k s' st)) =
      card (counted (cnt_peer c) b st) + (if b = l then 1 else 0)" for b
    using counts_off_finite [OF assms(1)] put by simp
  with assms(1) c' show "counts_off n m (c', store_put k s' st)"
    by (cases l) (simp_all add: counts_off_def dom_store_put)
  show "if l then cnt_num_send_streams c' \<le> cnt_max_send_streams c'
     else cnt_num_recv_streams c' \<le> cnt_max_recv_streams c'"
    using lim by (cases l) (simp_all add: c' can_inc_num_send_streams_def can_inc_num_recv_streams_def)
qed

lemma counts_off_reset_cong:
  "dec_num_reset_streams c = Some c' \<Longrightarrow>
     counts_off n m (c', st) = counts_off n m (c, st) \<and> cnt_peer c' = cnt_peer c"
  by (auto simp: dec_num_reset_streams_def counts_off_def split: if_splits)

lemma unlink_slab [simp]: "sto_slab (ptr_unlink k st) = sto_slab st" "store_index (ptr_unlink k st) k' = store_index st k'"
  by (simp_all add: ptr_unlink_def store_index_def)

text \<open>The part of \<open>transition_after\<close> up to the release of the stream.\<close>

definition transition_close :: "key \<Rightarrow> bool \<Rightarrow> stream \<Rightarrow> counts \<times> store \<Rightarrow> (counts \<times> store) option" where
  "transition_close k is_reset_counted s cs =
     (case cs of (c, st) \<Rightarrow>
      (if stream_is_closed s
         then Option.bind
           (if \<not> is_pending_reset_expiration s
            then (let st1 = ptr_unlink k st in
                  if is_reset_counted then map_option (\<lambda>c1. (c1, st1)) (dec_num_reset_streams c)
                  else Some (c, st1))
            else Some (c, st))
           (\<lambda>(c1, st1).
             if \<not> is_scheduled_reset (st_state s) \<and> st_is_counted s
             then map_option (\<lambda>(s2, c2). (c2, store_put k s2 st1)) (dec_num_streams s c1)
             else Some (c1, st1))
         else Some (c, st)))"

lemma transition_after_split:
  "transition_after k b (c, st) = Option.bind (store_index st k) (\<lambda>s.
     Option.bind (transition_close k b s (c, st)) (\<lambda>(c3, st3).
       Option.bind (store_index st3 k) (\<lambda>s3.
         if is_released s3 then map_option (\<lambda>(_, st4). (c3, st4)) (ptr_remove k st3)
         else Some (c3, st3))))"
  by (simp add: transition_after_def transition_close_def)

lemma transition_close_inv:
  assumes inv: "counts_off n m (c, st)" and s: "store_index st k = Some s"
    and cl: "transition_close k b s (c, st) = Some (c3, st3)"
  shows "counts_off n m (c3, st3) \<and> cnt_peer c3 = cnt_peer c \<and> (\<exists>s3. store_index st3 k = Some s3 \<and>
    (is_scheduled_reset (st_state s) \<or> \<not> stream_is_closed s \<longrightarrow> s3 = s) \<and>
    (stream_is_closed s \<and> \<not> is_scheduled_reset (st_state s) \<longrightarrow> \<not> st_is_counted s3))"
proof (cases "stream_is_closed s")
  case False
  with assms show ?thesis by (auto simp: transition_close_def)
next
  case True
  define mid where "mid = (if \<not> is_pending_reset_expiration s
    then (let st1 = ptr_unlink k st in
          if b then map_option (\<lambda>c1. (c1, st1)) (dec_num_reset_streams c) else Some (c, st1))
    else Some (c, st))"
  have un: "counts_off n m (c, ptr_unlink k st) = counts_off n m (c, st)" for c
    by (rule counts_off_slab_cong) simp
  from cl True obtain c1 st1 where mid: "mid = Some (c1, st1)"
    and rest: "(if \<not> is_scheduled_reset (st_state s) \<and> st_is_counted s
             then map_option (\<lambda>(s2, c2). (c2, store_put k s2 st1)) (dec_num_streams s c1)
             else Some (c1, st1)) = Some (c3, st3)"
    unfolding transition_close_def mid_def by (auto simp: bind_eq_Some_conv)
  have c1: "counts_off n m (c1, st1) = counts_off n m (c, st)" and st1: "store_index st1 k = Some s"
    and peer: "cnt_peer c1 = cnt_peer c"
    using mid s un [of c1] un [of c] counts_off_reset_cong [of c c1 n m st]
    by (cases "is_pending_reset_expiration s"; cases b; force simp: mid_def Let_def)+
  show ?thesis
  proof (cases "\<not> is_scheduled_reset (st_state s) \<and> st_is_counted s")
    case False
    with rest c1 st1 inv peer show ?thesis by auto
  next
    case dec: True
    with rest obtain s2 where d: "dec_num_streams s c1 = Some (s2, c3)" and st3: "st3 = store_put k s2 st1"
      by auto
    from dec_num_streams_inv [OF _ st1 d] c1 inv
    have "counts_off n m (c3, st3)" "st_id s2 = st_id s" "\<not> st_is_counted s2" by (simp_all add: st3)
    moreover from d peer have "cnt_peer c3 = cnt_peer c"
      by (auto simp: dec_num_streams_def bind_eq_Some_conv split: if_splits)
    ultimately show ?thesis using True store_index_put [OF st1, of s2] dec by (simp add: st3)
  qed
qed

lemma transition_after_off:
  assumes inv: "counts_off n m (c, st)" and s: "store_index st k = Some s"
    and t: "transition_after k b (c, st) = Some (c', st')"
  shows "counts_off (n + (if drops_counted s \<and> is_local_init (cnt_peer c) (st_id s) = Some True then 1 else 0))
      (m + (if drops_counted s \<and> is_local_init (cnt_peer c) (st_id s) = Some False then 1 else 0)) (c', st')"
    "stream_is_closed s \<Longrightarrow> \<not> is_scheduled_reset (st_state s) \<Longrightarrow> store_index st' k = Some s' \<Longrightarrow>
      \<not> st_is_counted s'"
proof -
  from s t obtain c3 st3 s3 where
        cl: "transition_close k b s (c, st) = Some (c3, st3)" and s3: "store_index st3 k = Some s3"
    and r: "(if is_released s3 then map_option (\<lambda>(_, st4). (c3, st4)) (ptr_remove k st3)
         else Some (c3, st3)) = Some (c', st')"
    by (auto simp: transition_after_split bind_eq_Some_conv)
  from transition_close_inv [OF inv s cl] s3 have inv3: "counts_off n m (c3, st3)"
    and peer: "cnt_peer c3 = cnt_peer c"
    and same: "is_scheduled_reset (st_state s) \<or> \<not> stream_is_closed s \<Longrightarrow> s3 = s"
    and un: "stream_is_closed s \<Longrightarrow> \<not> is_scheduled_reset (st_state s) \<Longrightarrow> \<not> st_is_counted s3"
    by auto
  have drops: "drops_counted s \<longleftrightarrow> is_released s3 \<and> st_is_counted s3"
  proof (cases "is_scheduled_reset (st_state s) \<or> \<not> stream_is_closed s")
    case True
    then show ?thesis using same by (auto simp: drops_counted_def is_released_def)
  next
    case False
    then show ?thesis using un by (auto simp: drops_counted_def)
  qed
  have id_: "s3 = s" if "drops_counted s" using that same by (simp add: drops_counted_def)
  show "counts_off (n + (if drops_counted s \<and> is_local_init (cnt_peer c) (st_id s) = Some True then 1 else 0))
      (m + (if drops_counted s \<and> is_local_init (cnt_peer c) (st_id s) = Some False then 1 else 0)) (c', st')"
  proof (cases "is_released s3")
    case True
    with r obtain i where p: "ptr_remove k st3 = Some (i, st')" "c' = c3" by auto
    from drops True have d: "st_is_counted s3 \<longleftrightarrow> drops_counted s" by simp
    show ?thesis
    proof (cases "drops_counted s")
      case dc: True
      with ptr_remove_off(1) [OF inv3 s3 p(1)] peer d id_ [OF dc] p(2) show ?thesis by simp
    next
      case False
      with ptr_remove_off(1) [OF inv3 s3 p(1)] d p(2) show ?thesis by simp
    qed
  qed (use r inv3 drops in simp)
  show "\<not> st_is_counted s'"
    if "stream_is_closed s" "\<not> is_scheduled_reset (st_state s)" "store_index st' k = Some s'"
  proof (cases "is_released s3")
    case True
    with r obtain i where "ptr_remove k st3 = Some (i, st')" by auto
    with ptr_remove_off(2) [OF inv3 s3] that(3) show ?thesis by simp
  qed (use r un that s3 in auto)
qed

section \<open>Properties\<close>


text \<open>Closing a stream never trips the assertions on the stream counters: when the counters count the
  streams, the counted stream's own counter is positive.\<close>

theorem uncount_never_panics:
  assumes "counts_off n m (c, st)" "store_index st k = Some s" "st_is_counted s" "\<not> sid_is_zero (st_id s)"
  shows "dec_num_streams s c \<noteq> None"
  using dec_num_streams_no_panic [OF assms] .

text \<open>One stream of the peer, counted, closed and no longer referred to: once properly closed, once with a
  scheduled reset.\<close>

definition count_sample :: "inner \<Rightarrow> stream" where
  "count_sample state = (sample_stream (StreamId 1))\<lparr>st_is_counted := True, st_state := state\<rparr>"

definition count_sample_counts :: counts where
  "count_sample_counts = counts_new Server \<lparr>cfg_initial_max_send_streams = 0, cfg_local_max_buffer_size = 0,
      cfg_local_next_stream_id = StreamId 2, cfg_local_push_enabled = False,
      cfg_extended_connect_protocol_enabled = False, cfg_local_reset_duration = 0, cfg_local_reset_max = 0,
      cfg_remote_reset_max = 0, cfg_remote_init_window_sz = 65535, cfg_remote_max_initiated = None,
      cfg_local_max_error_reset_streams = None, cfg_data_frame_budget = BudgetAuto\<rparr>
      \<lparr>cnt_num_recv_streams := 1\<rparr>"

definition count_sample_after :: "inner \<Rightarrow> (counts \<times> store) option" where
  "count_sample_after state = transition_after \<lparr>key_index = 0, key_stream_id = StreamId 1\<rparr> False
     (count_sample_counts, \<lparr>sto_slab = [0 \<mapsto> count_sample state], sto_ids = [(StreamId 1, 0)]\<rparr>)"

lemma count_sample_fields:
  "st_id (count_sample state) = StreamId 1" "st_is_counted (count_sample state)"
  "st_state (count_sample state) = state" "st_reset_at (count_sample state) = None"
  "stream_is_closed (count_sample state) = is_closed state"
  "is_released (count_sample state) = is_closed state"
  "is_released (count_sample state\<lparr>st_is_counted := False\<rparr>) = is_closed state"
proof -
  from sample_stream_Some obtain s where s: "stream_new (StreamId 1) 65535 65535 = Some s" by blast
  then have eq: "sample_stream (StreamId 1) = s" by (simp add: sample_stream_def)
  have "st_id s = StreamId 1" "st_reset_at s = None" "deque_is_empty (st_pending_send s)"
    "st_buffered_send_data s = 0" "st_ref_count s = 0" "\<not> st_is_pending_send s" "\<not> st_is_pending_send_capacity s"
    "\<not> st_is_pending_accept s" "\<not> st_is_pending_window_update s" "\<not> st_is_pending_open s"
    using s by (auto simp: stream_new_def deque_is_empty_def deque_new_def split: prod.splits outcome.splits)
  then show "st_id (count_sample state) = StreamId 1" "st_is_counted (count_sample state)"
    "st_state (count_sample state) = state" "st_reset_at (count_sample state) = None"
    "stream_is_closed (count_sample state) = is_closed state"
    "is_released (count_sample state) = is_closed state"
    "is_released (count_sample state\<lparr>st_is_counted := False\<rparr>) = is_closed state"
    by (simp_all add: count_sample_def eq is_released_def stream_is_closed_def)
qed

lemma count_sample_after_eval:
  "count_sample_after (Closed EndStream) =
     Some (count_sample_counts\<lparr>cnt_num_recv_streams := 0\<rparr>, \<lparr>sto_slab = Map.empty, sto_ids = []\<rparr>)"
  "count_sample_after (Closed (ScheduledLibraryReset NO_ERROR)) =
     Some (count_sample_counts, \<lparr>sto_slab = Map.empty, sto_ids = []\<rparr>)"
  by (simp_all add: count_sample_after_def transition_after_def store_index_def count_sample_fields
      is_pending_reset_expiration_def ptr_unlink_def swap_remove_def store_put_def ptr_remove_def
      dec_num_streams_def is_local_init_def sid_is_zero_def dyn_is_server_def is_server_initiated_def
      count_sample_counts_def counts_new_def)

lemma count_sample_off:
  "counts_off 0 0 (count_sample_counts, \<lparr>sto_slab = [0 \<mapsto> count_sample state], sto_ids = ids\<rparr>)"
proof -
  have l: "is_local_init Server (StreamId 1) = Some False"
    by (simp add: is_local_init_def sid_is_zero_def dyn_is_server_def is_server_initiated_def)
  have "counted Server True \<lparr>sto_slab = [0 \<mapsto> count_sample state], sto_ids = ids\<rparr> = {}"
    "counted Server False \<lparr>sto_slab = [0 \<mapsto> count_sample state], sto_ids = ids\<rparr> = {0}"
    by (auto simp: counted_def count_sample_def sample_stream_fields l split: if_splits)
  then show ?thesis by (simp add: counts_off_def count_sample_counts_def counts_new_def)
qed


lemma uncount_never_panics_witness:
  "dec_num_streams (sample_stream (StreamId 1)\<lparr>st_is_counted := True\<rparr>)
     \<lparr>cnt_peer = Client, cnt_max_send_streams = 9, cnt_num_send_streams = 1, cnt_max_recv_streams = 9,
       cnt_num_recv_streams = 0, cnt_max_local_reset_streams = 9, cnt_num_local_reset_streams = 0,
       cnt_max_remote_reset_streams = 9, cnt_num_remote_reset_streams = 0,
       cnt_max_local_error_reset_streams = None, cnt_num_local_error_reset_streams = 0,
       cnt_data_frame_budget = budget_new 9, cnt_data_frame_budget_is_auto = False,
       cnt_num_recv_empty_data_frames = 0\<rparr> \<noteq> None"
proof -
  let ?s = "sample_stream (StreamId 1)\<lparr>st_is_counted := True\<rparr>"
  let ?st = "\<lparr>sto_slab = [0 \<mapsto> ?s], sto_ids = []\<rparr>"
  have l: "is_local_init Client (StreamId 1) = Some True"
    by (simp add: is_local_init_def sid_is_zero_def dyn_is_server_def is_server_initiated_def)
  have "counted Client True ?st = {0}" "counted Client False ?st = {}"
    by (auto simp: counted_def sample_stream_fields l split: if_splits)
  then show ?thesis
    by (intro uncount_never_panics [where n = 0 and m = 0 and st = ?st and k = "\<lparr>key_index = 0, key_stream_id = StreamId 1\<rparr>"])
      (simp_all add: counts_off_def store_index_def sample_stream_fields sid_is_zero_def)
qed

section \<open>Floods of tiny DATA frames\<close>

text \<open>What the connection does to the budget: a DATA frame is recorded when it is received, released when the user
  takes its data, and the budget is resized with the target window of the connection. A run ends with
  \<open>None\<close> when a frame is refused.\<close>

datatype budget_event = RecordData nat | ReleaseData nat | TargetWindow u32

fun data_run :: "budget_event list \<Rightarrow> counts \<Rightarrow> counts option" where
  "data_run [] c = Some c"
| "data_run (RecordData n # es) c =
     (case record_data_frame n c of (Ok _, c') \<Rightarrow> data_run es c' | _ \<Rightarrow> None)"
| "data_run (ReleaseData n # es) c = data_run es (release_data_frame n c)"
| "data_run (TargetWindow sz # es) c = data_run es (set_target_connection_window_size sz c)"

text \<open>The largest budget in force during the run.\<close>

fun budget_ceiling :: "budget_event list \<Rightarrow> counts \<Rightarrow> nat" where
  "budget_ceiling [] c = bud_max (cnt_data_frame_budget c)"
| "budget_ceiling (TargetWindow sz # es) c =
     max (bud_max (cnt_data_frame_budget c)) (budget_ceiling es (set_target_connection_window_size sz c))"
| "budget_ceiling (e # es) c = budget_ceiling es c"

definition frame_overhead :: "nat \<Rightarrow> nat" where
  "frame_overhead n = (if n = 0 then 0 else DEFAULT_DATA_FRAME_OVERHEAD_THRESHOLD - n)"

definition frame_credit :: "nat \<Rightarrow> nat" where
  "frame_credit n = n - DEFAULT_DATA_FRAME_OVERHEAD_THRESHOLD"

fun recorded_frame :: "budget_event \<Rightarrow> nat list" where
  "recorded_frame (RecordData n) = [n]" | "recorded_frame _ = []"

fun released_frame :: "budget_event \<Rightarrow> nat list" where
  "released_frame (ReleaseData n) = [n]" | "released_frame _ = []"

definition frames_recorded :: "budget_event list \<Rightarrow> nat list" where
  "frames_recorded es = concat (map recorded_frame es)"

definition frames_released :: "budget_event list \<Rightarrow> nat list" where
  "frames_released es = concat (map released_frame es)"

lemma frames_simps [simp]:
  "frames_recorded [] = []" "frames_recorded (RecordData n # es) = n # frames_recorded es"
  "frames_recorded (ReleaseData n # es) = frames_recorded es"
  "frames_recorded (TargetWindow w # es) = frames_recorded es"
  "frames_released [] = []" "frames_released (RecordData n # es) = frames_released es"
  "frames_released (ReleaseData n # es) = n # frames_released es"
  "frames_released (TargetWindow w # es) = frames_released es"
  by (simp_all add: frames_recorded_def frames_released_def)

lemma record_data_frame_step:
  assumes "record_data_frame n c = (Ok (), c')"
  shows "bud_spent (cnt_data_frame_budget c) + frame_overhead n
      \<le> bud_spent (cnt_data_frame_budget c') + frame_credit n"
    "bud_spent (cnt_data_frame_budget c') \<le>
       max (bud_spent (cnt_data_frame_budget c)) (bud_max (cnt_data_frame_budget c))"
    "bud_max (cnt_data_frame_budget c') = bud_max (cnt_data_frame_budget c)"
    "cnt_data_frame_budget_is_auto c' = cnt_data_frame_budget_is_auto c"
    "cnt_num_recv_empty_data_frames c' = cnt_num_recv_empty_data_frames c + (if n = 0 then 1 else 0)"
    "n = 0 \<Longrightarrow> cnt_num_recv_empty_data_frames c' \<le> MAX_RECV_EMPTY_DATA_FRAMES"
  using assms
  by (auto simp: record_data_frame_def budget_consume_def budget_replenish_def frame_overhead_def
      frame_credit_def Let_def split: if_splits prod.splits)

lemma release_data_frame_step:
  "bud_spent (cnt_data_frame_budget c) \<le> bud_spent (cnt_data_frame_budget (release_data_frame n c)) + frame_overhead n"
  "bud_spent (cnt_data_frame_budget (release_data_frame n c)) \<le> bud_spent (cnt_data_frame_budget c)"
  "bud_max (cnt_data_frame_budget (release_data_frame n c)) = bud_max (cnt_data_frame_budget c)"
  "cnt_data_frame_budget_is_auto (release_data_frame n c) = cnt_data_frame_budget_is_auto c"
  "cnt_num_recv_empty_data_frames (release_data_frame n c) = cnt_num_recv_empty_data_frames c"
  by (auto simp: release_data_frame_def budget_replenish_def frame_overhead_def)

lemma target_window_step:
  "bud_spent (cnt_data_frame_budget (set_target_connection_window_size w c)) = bud_spent (cnt_data_frame_budget c)"
  "cnt_num_recv_empty_data_frames (set_target_connection_window_size w c) = cnt_num_recv_empty_data_frames c"
  by (simp_all add: set_target_connection_window_size_def budget_set_max_def)

text \<open>The ceiling depends on the budget's size only.\<close>

lemma budget_ceiling_cong:
  "bud_max (cnt_data_frame_budget c) = bud_max (cnt_data_frame_budget c') \<Longrightarrow>
     cnt_data_frame_budget_is_auto c = cnt_data_frame_budget_is_auto c' \<Longrightarrow>
     budget_ceiling es c = budget_ceiling es c'"
proof (induction es arbitrary: c c')
  case (Cons e es)
  show ?case
  proof (cases e)
    case (TargetWindow w)
    have "budget_ceiling es (set_target_connection_window_size w c) =
        budget_ceiling es (set_target_connection_window_size w c')"
      using Cons.prems
      by (intro Cons.IH) (simp_all add: set_target_connection_window_size_def budget_set_max_def)
    with TargetWindow Cons.prems show ?thesis by simp
  next
    case (RecordData n)
    with Cons.IH [OF Cons.prems] show ?thesis by simp
  next
    case (ReleaseData n)
    with Cons.IH [OF Cons.prems] show ?thesis by simp
  qed
qed simp

lemma budget_ceiling_max: "bud_max (cnt_data_frame_budget c) \<le> budget_ceiling es c"
  by (induction es c rule: budget_ceiling.induct) auto

lemma data_run_step:
  "data_run es c = Some c' \<Longrightarrow>
    bud_spent (cnt_data_frame_budget c) + sum_list (map frame_overhead (frames_recorded es))
      \<le> bud_spent (cnt_data_frame_budget c') + sum_list (map frame_credit (frames_recorded es))
        + sum_list (map frame_overhead (frames_released es)) \<and>
    bud_spent (cnt_data_frame_budget c') \<le> max (bud_spent (cnt_data_frame_budget c)) (budget_ceiling es c) \<and>
    cnt_num_recv_empty_data_frames c' = cnt_num_recv_empty_data_frames c + count_list (frames_recorded es) 0 \<and>
    (0 \<in> set (frames_recorded es) \<longrightarrow> cnt_num_recv_empty_data_frames c' \<le> MAX_RECV_EMPTY_DATA_FRAMES)"
proof (induction es arbitrary: c)
  case (Cons e es)
  show ?case
  proof (cases e)
    case (RecordData n)
    with Cons.prems obtain c1 where r: "record_data_frame n c = (Ok (), c1)" and ra: "data_run es c1 = Some c'"
      by (auto split: prod.splits outcome.splits)
    note st = record_data_frame_step [OF r]
    from st have "budget_ceiling es c1 = budget_ceiling es c" by (intro budget_ceiling_cong)
    with Cons.IH [OF ra] st(1,2,5,6) budget_ceiling_max [of c es] RecordData
      count_notin [of 0 "frames_recorded es"] show ?thesis
      by (cases "0 \<in> set (frames_recorded es)"; cases "n = 0"; simp)
  next
    case (ReleaseData n)
    have "budget_ceiling es (release_data_frame n c) = budget_ceiling es c"
      by (intro budget_ceiling_cong) (simp_all add: release_data_frame_step)
    with Cons.IH [of "release_data_frame n c"] Cons.prems ReleaseData release_data_frame_step [where c = c and n = n]
    show ?thesis by (auto simp: max_def split: if_splits)
  next
    case (TargetWindow w)
    with Cons.IH [of "set_target_connection_window_size w c"] Cons.prems show ?thesis
      by (auto simp: target_window_step)
  qed
qed simp



end
