(* ===== verification/Ping_Pong.thy ===== *)
theory Ping_Pong
  imports Frame_Control
begin

text \<open>
  PING handling of a connection (\<open>src/proto/ping_pong.rs\<close>): the answers to the peer's pings, the ping of
  a graceful shutdown, and the user's pings, whose state is an atomic shared between the
  connection task and the user's handle. The codec is seen through the result of its \<open>poll_ready\<close> (an
  argument) and the PING frames given to \<open>buffer\<close> (a result). The second half interleaves the two
  tasks at the grain of single atomic accesses and proves the protocol of the shared state.
\<close>

section \<open>Polling\<close>

datatype 'a poll = Ready 'a | Pending

text \<open>What \<open>dst.poll_ready(cx)\<close> returned: ready, pending, or an I/O error.\<close>

datatype io_poll = IoReady | IoPending | IoError io_error_kind "string option"

definition broken_pipe :: proto_error where "broken_pipe = ErrIo BrokenPipe None"

section \<open>The user's handle\<close>

definition USER_STATE_EMPTY :: nat where "USER_STATE_EMPTY = 0"
definition USER_STATE_PENDING_PING :: nat where "USER_STATE_PENDING_PING = 1"
definition USER_STATE_PENDING_PONG :: nat where "USER_STATE_PENDING_PONG = 2"
definition USER_STATE_RECEIVED_PONG :: nat where "USER_STATE_RECEIVED_PONG = 3"
definition USER_STATE_CLOSED :: nat where "USER_STATE_CLOSED = 4"

lemmas user_state_defs = USER_STATE_EMPTY_def USER_STATE_PENDING_PING_def USER_STATE_PENDING_PONG_def
  USER_STATE_RECEIVED_PONG_def USER_STATE_CLOSED_def

text \<open>\<open>up_woken\<close> logs the wakers that were woken.\<close>

record user_pings_inner =
  up_state :: nat
  up_ping_task :: "nat option"
  up_pong_task :: "nat option"
  up_woken :: "nat list"

text \<open>\<open>compare_exchange(current, new)\<close> with \<open>unwrap_or_else(|v| v)\<close>: the previous value in both cases.\<close>

definition user_cas :: "nat \<Rightarrow> nat \<Rightarrow> user_pings_inner \<Rightarrow> nat \<times> user_pings_inner" where
  "user_cas current new u =
     (up_state u, if up_state u = current then u\<lparr>up_state := new\<rparr> else u)"

definition wake_ping_task :: "user_pings_inner \<Rightarrow> user_pings_inner" where
  "wake_ping_task u = (case up_ping_task u of None \<Rightarrow> u
     | Some w \<Rightarrow> u\<lparr>up_ping_task := None, up_woken := up_woken u @ [w]\<rparr>)"

definition wake_pong_task :: "user_pings_inner \<Rightarrow> user_pings_inner" where
  "wake_pong_task u = (case up_pong_task u of None \<Rightarrow> u
     | Some w \<Rightarrow> u\<lparr>up_pong_task := None, up_woken := up_woken u @ [w]\<rparr>)"

definition user_send_ping ::
  "user_pings_inner \<Rightarrow> (unit, proto_error option) outcome \<times> user_pings_inner" where
  "user_send_ping u =
     (case user_cas USER_STATE_EMPTY USER_STATE_PENDING_PING u of
        (prev, u') \<Rightarrow>
          if prev = USER_STATE_EMPTY then (Ok (), wake_ping_task u')
          else if prev = USER_STATE_CLOSED then (Err (Some broken_pipe), u')
          else (Err None, u'))"

definition user_poll_pong ::
  "nat \<Rightarrow> user_pings_inner \<Rightarrow> (unit, proto_error) outcome poll \<times> user_pings_inner" where
  "user_poll_pong waker u =
     (case user_cas USER_STATE_RECEIVED_PONG USER_STATE_EMPTY (u\<lparr>up_pong_task := Some waker\<rparr>) of
        (prev, u') \<Rightarrow>
          if prev = USER_STATE_RECEIVED_PONG then (Ready (Ok ()), u')
          else if prev = USER_STATE_CLOSED then (Ready (Err broken_pipe), u')
          else (Pending, u'))"

definition receive_pong :: "user_pings_inner \<Rightarrow> bool \<times> user_pings_inner" where
  "receive_pong u =
     (case user_cas USER_STATE_PENDING_PONG USER_STATE_RECEIVED_PONG u of
        (prev, u') \<Rightarrow>
          if prev = USER_STATE_PENDING_PONG then (True, wake_pong_task u') else (False, u'))"

definition user_pings_rx_drop :: "user_pings_inner \<Rightarrow> user_pings_inner" where
  "user_pings_rx_drop u = wake_pong_task (u\<lparr>up_state := USER_STATE_CLOSED\<rparr>)"

section \<open>The connection's side\<close>

record pending_ping =
  pp_payload :: bytes
  pp_sent :: bool

record ping_pong_state =
  pp_pending_ping :: "pending_ping option"
  pp_pending_pong :: "bytes option"
  pp_user_pings :: "user_pings_inner option"

datatype received_ping = MustAck | Unknown | Shutdown

definition ping_pong_new :: ping_pong_state where
  "ping_pong_new = \<lparr>pp_pending_ping = None, pp_pending_pong = None, pp_user_pings = None\<rparr>"

definition take_user_pings :: "ping_pong_state \<Rightarrow> user_pings_inner option \<times> ping_pong_state" where
  "take_user_pings p =
     (if pp_user_pings p \<noteq> None then (None, p)
      else let u = \<lparr>up_state = USER_STATE_EMPTY, up_ping_task = None, up_pong_task = None, up_woken = []\<rparr> in
        (Some u, p\<lparr>pp_user_pings := Some u\<rparr>))"

definition ping_shutdown :: "ping_pong_state \<Rightarrow> ping_pong_state option" where
  "ping_shutdown p =
     (if pp_pending_ping p \<noteq> None then None
      else Some (p\<lparr>pp_pending_ping := Some \<lparr>pp_payload = SHUTDOWN_PAYLOAD, pp_sent = False\<rparr>\<rparr>))"

definition recv_ping :: "ping \<Rightarrow> ping_pong_state \<Rightarrow> (received_ping \<times> ping_pong_state) option" where
  "recv_ping f p =
     (if pp_pending_pong p \<noteq> None then None
      else if ping_ack f
      then (let users = (\<lambda>p.
              case pp_user_pings p of
                Some u \<Rightarrow>
                  if ping_payload f = USER_PAYLOAD
                  then (case receive_pong u of (_, u') \<Rightarrow> Some (Unknown, p\<lparr>pp_user_pings := Some u'\<rparr>))
                  else Some (Unknown, p)
              | None \<Rightarrow> Some (Unknown, p)) in
            case pp_pending_ping p of
              Some pending \<Rightarrow>
                if pp_payload pending = ping_payload f
                then (if pp_payload pending = SHUTDOWN_PAYLOAD
                      then Some (Shutdown, p\<lparr>pp_pending_ping := None\<rparr>) else None)
                else users p
            | None \<Rightarrow> users p)
      else Some (MustAck, p\<lparr>pp_pending_pong := Some (ping_payload f)\<rparr>))"

text \<open>The PING frames buffered, the poll result and the new state. On an I/O error the taken pong is
  lost, as in the code.\<close>

definition send_pending_pong ::
  "io_poll \<Rightarrow> ping_pong_state \<Rightarrow> ping list \<times> (unit, proto_error) outcome poll \<times> ping_pong_state" where
  "send_pending_pong ready p =
     (case pp_pending_pong p of
        Some pong \<Rightarrow>
          (let p' = p\<lparr>pp_pending_pong := None\<rparr> in
           case ready of
             IoError k m \<Rightarrow> ([], Ready (Err (ErrIo k m)), p')
           | IoPending \<Rightarrow> ([], Pending, p'\<lparr>pp_pending_pong := Some pong\<rparr>)
           | IoReady \<Rightarrow> ([ping_pong pong], Ready (Ok ()), p'))
      | None \<Rightarrow> ([], Ready (Ok ()), p))"

definition send_pending_ping ::
  "nat \<Rightarrow> io_poll \<Rightarrow> ping_pong_state \<Rightarrow>
     ping list \<times> (unit, proto_error) outcome poll \<times> ping_pong_state" where
  "send_pending_ping waker ready p =
     (case pp_pending_ping p of
        Some ping \<Rightarrow>
          if \<not> pp_sent ping
          then (case ready of
                  IoError k m \<Rightarrow> ([], Ready (Err (ErrIo k m)), p)
                | IoPending \<Rightarrow> ([], Pending, p)
                | IoReady \<Rightarrow> ([ping_new (pp_payload ping)], Ready (Ok ()),
                    p\<lparr>pp_pending_ping := Some (ping\<lparr>pp_sent := True\<rparr>)\<rparr>))
          else ([], Ready (Ok ()), p)
      | None \<Rightarrow>
          (case pp_user_pings p of
             Some users \<Rightarrow>
               if up_state users = USER_STATE_PENDING_PING
               then (case ready of
                       IoError k m \<Rightarrow> ([], Ready (Err (ErrIo k m)), p)
                     | IoPending \<Rightarrow> ([], Pending, p)
                     | IoReady \<Rightarrow> ([ping_new USER_PAYLOAD], Ready (Ok ()),
                         p\<lparr>pp_user_pings := Some (users\<lparr>up_state := USER_STATE_PENDING_PONG\<rparr>)\<rparr>))
               else ([], Ready (Ok ()), p\<lparr>pp_user_pings := Some (users\<lparr>up_ping_task := Some waker\<rparr>)\<rparr>)
           | None \<Rightarrow> ([], Ready (Ok ()), p)))"

section \<open>The shared state under interleaving\<close>

text \<open>The user's handle and the connection run on different tasks. The user's calls and \<open>receive_pong\<close> access
  the atomic once, and are one step each; \<open>send_pending_ping\<close> loads it and stores it later, and is two:
  \<open>conn_load\<close>, after which the user may run, and \<open>conn_send\<close>, which is \<open>send_pending_ping\<close> on the state as it
  is by then, except that it sees the value loaded before. Everything else of \<open>PingPong\<close> belongs to the
  connection alone.\<close>

definition send_pending_ping_loaded ::
  "nat \<Rightarrow> nat \<Rightarrow> io_poll \<Rightarrow> ping_pong_state \<Rightarrow>
     ping list \<times> (unit, proto_error) outcome poll \<times> ping_pong_state" where
  "send_pending_ping_loaded v waker ready p =
     (case pp_user_pings p of
        None \<Rightarrow> send_pending_ping waker ready p
      | Some now \<Rightarrow>
          (case send_pending_ping waker ready (p\<lparr>pp_user_pings := Some (now\<lparr>up_state := v\<rparr>)\<rparr>) of
             (fs, r, p') \<Rightarrow> (fs, r, p'\<lparr>pp_user_pings := map_option (\<lambda>u.
               if up_state u = v then u\<lparr>up_state := up_state now\<rparr> else u) (pp_user_pings p')\<rparr>)))"

lemma send_pending_ping_loaded_now:
  "(case pp_user_pings p of None \<Rightarrow> True | Some u \<Rightarrow> v = up_state u) \<Longrightarrow>
     send_pending_ping_loaded v waker ready p = send_pending_ping waker ready p"
  by (auto simp: send_pending_ping_loaded_def send_pending_ping_def split: option.splits io_poll.splits)

text \<open>The log is a ghost: the PING frames the connection wrote and those it read, in one order.
  \<open>pi_requested\<close> counts the pings \<open>send_ping\<close> accepted and \<open>pi_delivered\<close> the pongs \<open>poll_pong\<close> returned.\<close>

datatype ping_event = Wrote ping | Heard ping

record ping_sys =
  pi_conn :: ping_pong_state
  pi_loaded :: "nat option"
  pi_dropped :: bool
  pi_log :: "ping_event list"
  pi_requested :: nat
  pi_delivered :: nat

definition user_state_of :: "ping_pong_state \<Rightarrow> nat" where
  "user_state_of p = (case pp_user_pings p of None \<Rightarrow> USER_STATE_EMPTY | Some u \<Rightarrow> up_state u)"

inductive ping_step :: "ping_sys \<Rightarrow> ping_sys \<Rightarrow> bool" where
  take: "\<not> pi_dropped s \<Longrightarrow> pi_loaded s = None \<Longrightarrow> take_user_pings (pi_conn s) = (r, p) \<Longrightarrow>
    ping_step s (s\<lparr>pi_conn := p\<rparr>)"
| user_send: "pp_user_pings (pi_conn s) = Some u \<Longrightarrow> user_send_ping u = (r, u') \<Longrightarrow>
    ping_step s (s\<lparr>pi_conn := (pi_conn s)\<lparr>pp_user_pings := Some u'\<rparr>,
      pi_requested := pi_requested s + (if r = Ok () then 1 else 0)\<rparr>)"
| user_poll: "pp_user_pings (pi_conn s) = Some u \<Longrightarrow> user_poll_pong w u = (r, u') \<Longrightarrow>
    ping_step s (s\<lparr>pi_conn := (pi_conn s)\<lparr>pp_user_pings := Some u'\<rparr>,
      pi_delivered := pi_delivered s + (if r = Ready (Ok ()) then 1 else 0)\<rparr>)"
| conn_load: "\<not> pi_dropped s \<Longrightarrow> pi_loaded s = None \<Longrightarrow>
    ping_step s (s\<lparr>pi_loaded := Some (user_state_of (pi_conn s))\<rparr>)"
| conn_send: "pi_loaded s = Some v \<Longrightarrow> send_pending_ping_loaded v w ready (pi_conn s) = (fs, r, p) \<Longrightarrow>
    ping_step s (s\<lparr>pi_conn := p, pi_loaded := None, pi_log := pi_log s @ map Wrote fs\<rparr>)"
| conn_recv: "\<not> pi_dropped s \<Longrightarrow> pi_loaded s = None \<Longrightarrow> recv_ping f (pi_conn s) = Some (r, p) \<Longrightarrow>
    ping_step s (s\<lparr>pi_conn := p, pi_log := pi_log s @ [Heard f]\<rparr>)"
| conn_pong: "\<not> pi_dropped s \<Longrightarrow> pi_loaded s = None \<Longrightarrow> send_pending_pong ready (pi_conn s) = (fs, r, p) \<Longrightarrow>
    ping_step s (s\<lparr>pi_conn := p, pi_log := pi_log s @ map Wrote fs\<rparr>)"
| conn_shutdown: "\<not> pi_dropped s \<Longrightarrow> pi_loaded s = None \<Longrightarrow> ping_shutdown (pi_conn s) = Some p \<Longrightarrow>
    ping_step s (s\<lparr>pi_conn := p\<rparr>)"
| conn_drop: "\<not> pi_dropped s \<Longrightarrow> pi_loaded s = None \<Longrightarrow>
    ping_step s (s\<lparr>pi_conn := (pi_conn s)\<lparr>pp_user_pings := map_option user_pings_rx_drop (pp_user_pings (pi_conn s))\<rparr>,
      pi_dropped := True\<rparr>)"

definition ping_init :: ping_sys where
  "ping_init = \<lparr>pi_conn = ping_pong_new, pi_loaded = None, pi_dropped = False, pi_log = [],
     pi_requested = 0, pi_delivered = 0\<rparr>"

inductive ping_reachable :: "ping_sys \<Rightarrow> bool" where
  init: "ping_reachable ping_init"
| step: "ping_reachable s \<Longrightarrow> ping_step s s' \<Longrightarrow> ping_reachable s'"

text \<open>What the frames say of the user's pings: the user PINGs written, and the PONGs with the user's
  payload that were read while a written user PING had not been answered.\<close>

definition user_ping_written :: "ping_event \<Rightarrow> bool" where
  "user_ping_written e = (case e of Wrote f \<Rightarrow> \<not> ping_ack f \<and> ping_payload f = USER_PAYLOAD | _ \<Rightarrow> False)"

definition user_pong_heard :: "ping_event \<Rightarrow> bool" where
  "user_pong_heard e = (case e of Heard f \<Rightarrow> ping_ack f \<and> ping_payload f = USER_PAYLOAD | _ \<Rightarrow> False)"

definition answer_step :: "ping_event \<Rightarrow> bool \<times> nat \<Rightarrow> bool \<times> nat" where
  "answer_step e a =
     (if user_ping_written e then (True, snd a)
      else if user_pong_heard e \<and> fst a then (False, Suc (snd a)) else a)"

definition pings_written :: "ping_event list \<Rightarrow> nat" where
  "pings_written lg = length (filter user_ping_written lg)"

definition pings_answered :: "ping_event list \<Rightarrow> nat" where
  "pings_answered lg = snd (fold answer_step lg (False, 0))"

section \<open>The invariant of the interleaving\<close>

definition ping_open :: "nat \<Rightarrow> ping_event list \<Rightarrow> nat \<Rightarrow> nat \<Rightarrow> bool" where
  "ping_open st lg requested delivered \<longleftrightarrow>
     st \<le> 3 \<and> requested = delivered + (if st = 0 then 0 else 1) \<and>
     pings_written lg = delivered + (if st = 2 \<or> st = 3 then 1 else 0) \<and>
     fold answer_step lg (False, 0) = (st = 2, delivered + (if st = 3 then 1 else 0))"

definition ping_inv :: "ping_sys \<Rightarrow> bool" where
  "ping_inv s \<longleftrightarrow>
     (\<forall>pp. pp_pending_ping (pi_conn s) = Some pp \<longrightarrow> pp_payload pp = SHUTDOWN_PAYLOAD) \<and>
     (pi_loaded s = Some 1 \<longrightarrow> user_state_of (pi_conn s) = 1) \<and>
     (if pi_dropped s
      then pi_loaded s = None \<and> (pp_user_pings (pi_conn s) \<noteq> None \<longrightarrow> user_state_of (pi_conn s) = 4) \<and>
        pi_delivered s \<le> pings_answered (pi_log s) \<and> pings_answered (pi_log s) \<le> pings_written (pi_log s) \<and>
        pings_written (pi_log s) \<le> pi_requested s \<and> pi_requested s \<le> pi_delivered s + 1
      else ping_open (user_state_of (pi_conn s)) (pi_log s) (pi_requested s) (pi_delivered s))"

lemma wake_tasks_state [simp]:
  "up_state (wake_ping_task u) = up_state u" "up_state (wake_pong_task u) = up_state u"
  by (simp_all add: wake_ping_task_def wake_pong_task_def split: option.split)

lemma shutdown_not_user [simp]: "SHUTDOWN_PAYLOAD \<noteq> USER_PAYLOAD" "USER_PAYLOAD \<noteq> SHUTDOWN_PAYLOAD"
  by (simp_all add: SHUTDOWN_PAYLOAD_def USER_PAYLOAD_def)

lemma log_append:
  "pings_written (lg @ [e]) = pings_written lg + (if user_ping_written e then 1 else 0)"
  "fold answer_step (lg @ [e]) a = answer_step e (fold answer_step lg a)"
  by (simp_all add: pings_written_def)

lemma log_neutral:
  "\<not> user_ping_written e \<Longrightarrow> \<not> user_pong_heard e \<Longrightarrow> ping_open st (lg @ [e]) = ping_open st lg"
  by (simp add: ping_open_def log_append answer_step_def fun_eq_iff)

lemmas ping_events = user_ping_written_def user_pong_heard_def ping_new_def ping_pong_def

lemma ping_inv_init: "ping_inv ping_init"
  by (simp add: ping_inv_def ping_init_def ping_pong_new_def ping_open_def user_state_of_def user_state_defs
      pings_written_def)

text \<open>The four accesses of the atomic.\<close>

lemma ping_open_send:
  assumes "user_send_ping u = (r, u')" "ping_open (up_state u) lg rq dl"
  shows "ping_open (up_state u') lg (rq + (if r = Ok () then 1 else 0)) dl \<and>
    (up_state u = 1 \<longrightarrow> up_state u' = 1)"
  using assms
  by (auto simp: user_send_ping_def user_cas_def user_state_defs ping_open_def split: if_splits)

lemma ping_open_poll:
  assumes "user_poll_pong w u = (r, u')" "ping_open (up_state u) lg rq dl"
  shows "ping_open (up_state u') lg rq (dl + (if r = Ready (Ok ()) then 1 else 0)) \<and>
    (up_state u = 1 \<longrightarrow> up_state u' = 1)"
  using assms
  by (auto simp: user_poll_pong_def user_cas_def user_state_defs ping_open_def split: if_splits)

lemma user_calls_closed:
  "up_state u = 4 \<Longrightarrow> user_send_ping u = (Err (Some broken_pipe), u)"
  "up_state u = 4 \<Longrightarrow> user_poll_pong w u = (Ready (Err broken_pipe), u\<lparr>up_pong_task := Some w\<rparr>)"
  by (simp_all add: user_send_ping_def user_poll_pong_def user_cas_def user_state_defs)

lemma user_calls_open:
  "up_state u \<le> 3 \<Longrightarrow> fst (user_poll_pong w u) = (if up_state u = 3 then Ready (Ok ()) else Pending)"
  "up_state u \<le> 3 \<Longrightarrow> fst (user_send_ping u) = (if up_state u = 0 then Ok () else Err None)"
  by (auto simp: user_send_ping_def user_poll_pong_def user_cas_def user_state_defs)

lemma ping_open_recv:
  assumes "recv_ping f p = Some (r, p')"
    and "\<forall>pp. pp_pending_ping p = Some pp \<longrightarrow> pp_payload pp = SHUTDOWN_PAYLOAD"
    and "ping_open (user_state_of p) lg rq dl"
  shows "ping_open (user_state_of p') (lg @ [Heard f]) rq dl \<and>
    (\<forall>pp. pp_pending_ping p' = Some pp \<longrightarrow> pp_payload pp = SHUTDOWN_PAYLOAD)"
proof (cases "ping_ack f \<and> ping_payload f = USER_PAYLOAD")
  case False
  then have "ping_open st (lg @ [Heard f]) = ping_open st lg" for st
    by (intro log_neutral) (auto simp: ping_events)
  with False assms show ?thesis
    by (auto simp: recv_ping_def user_state_of_def Let_def split: if_splits option.splits)
next
  case True
  with assms(1,2) have p': "p' = (case pp_user_pings p of None \<Rightarrow> p
      | Some u \<Rightarrow> p\<lparr>pp_user_pings := Some (snd (receive_pong u))\<rparr>)"
    by (auto simp: recv_ping_def split: if_splits option.splits prod.splits)
  have ev: "\<not> user_ping_written (Heard f)" "user_pong_heard (Heard f)"
    using True by (simp_all add: ping_events)
  show ?thesis
  proof (cases "pp_user_pings p")
    case None
    with assms p' ev show ?thesis
      by (auto simp: user_state_of_def ping_open_def log_append answer_step_def user_state_defs)
  next
    case (Some u)
    with assms(3) have "ping_open (up_state u) lg rq dl" by (simp add: user_state_of_def)
    then have "ping_open (up_state (snd (receive_pong u))) (lg @ [Heard f]) rq dl"
      using ev by (auto simp: receive_pong_def user_cas_def user_state_defs ping_open_def log_append
          answer_step_def)
    with Some assms(2) p' show ?thesis by (simp add: user_state_of_def)
  qed
qed

lemma ping_open_write:
  assumes "send_pending_ping_loaded v w ready p = (fs, r, p')"
    and "\<forall>pp. pp_pending_ping p = Some pp \<longrightarrow> pp_payload pp = SHUTDOWN_PAYLOAD"
    and "v = 1 \<longrightarrow> user_state_of p = 1" and "ping_open (user_state_of p) lg rq dl"
  shows "ping_open (user_state_of p') (lg @ map Wrote fs) rq dl \<and>
    (\<forall>pp. pp_pending_ping p' = Some pp \<longrightarrow> pp_payload pp = SHUTDOWN_PAYLOAD)"
proof (cases "pp_pending_ping p")
  case (Some pp)
  with assms(2) have sh: "pp_payload pp = SHUTDOWN_PAYLOAD" by simp
  have neutral: "ping_open st (lg @ [Wrote (ping_new SHUTDOWN_PAYLOAD)]) = ping_open st lg" for st
    by (rule log_neutral) (simp_all add: ping_events)
  from Some sh assms neutral show ?thesis
    by (auto simp: send_pending_ping_loaded_def send_pending_ping_def user_state_of_def
        split: option.splits io_poll.splits if_splits)
next
  case None
  show ?thesis
  proof (cases "pp_user_pings p")
    case None
    with \<open>pp_pending_ping p = None\<close> assms show ?thesis
      by (auto simp: send_pending_ping_loaded_def send_pending_ping_def)
  next
    case (Some u)
    then have st: "user_state_of p = up_state u" by (simp add: user_state_of_def)
    show ?thesis
    proof (cases "v = 1 \<and> ready = IoReady")
      case True
      with Some None assms(1) have "fs = [ping_new USER_PAYLOAD]" "pp_pending_ping p' = None"
          "user_state_of p' = 2"
        by (auto simp: send_pending_ping_loaded_def send_pending_ping_def user_state_defs user_state_of_def)
      moreover have "ping_open 2 (lg @ [Wrote (ping_new USER_PAYLOAD)]) rq dl"
        using assms(3,4) True by (simp add: ping_open_def log_append answer_step_def ping_events)
      ultimately show ?thesis by simp
    next
      case False
      with Some None assms(1) have "fs = []" "pp_pending_ping p' = None" "user_state_of p' = up_state u"
        by (auto simp: send_pending_ping_loaded_def send_pending_ping_def user_state_defs user_state_of_def
            split: io_poll.splits if_splits)
      with assms(4) st show ?thesis by simp
    qed
  qed
qed

lemma ping_open_pong:
  assumes "send_pending_pong ready p = (fs, r, p')" "ping_open st lg rq dl"
  shows "ping_open st (lg @ map Wrote fs) rq dl \<and> user_state_of p' = user_state_of p \<and>
    pp_pending_ping p' = pp_pending_ping p"
proof -
  have "ping_open st (lg @ [Wrote (ping_pong b)]) = ping_open st lg" for b
    by (rule log_neutral) (simp_all add: ping_events)
  with assms show ?thesis
    by (auto simp: send_pending_pong_def user_state_of_def Let_def split: option.splits io_poll.splits)
qed

lemma ping_inv_step: "ping_step s s' \<Longrightarrow> ping_inv s \<Longrightarrow> ping_inv s'"
proof (induction rule: ping_step.induct)
  case (take s r p)
  then show ?case
    by (auto simp: ping_inv_def take_user_pings_def user_state_of_def user_state_defs Let_def
        split: if_splits option.splits)
next
  case (user_send s u r u')
  then show ?case
    using ping_open_send [OF user_send(2), of "pi_log s" "pi_requested s" "pi_delivered s"]
      user_calls_closed(1) [of u]
    by (auto simp: ping_inv_def user_state_of_def split: if_splits)
next
  case (user_poll s u w r u')
  then show ?case
    using ping_open_poll [OF user_poll(2), of "pi_log s" "pi_requested s" "pi_delivered s"]
      user_calls_closed(2) [of u w]
    by (auto simp: ping_inv_def user_state_of_def split: if_splits)
next
  case (conn_load s)
  then show ?case by (simp add: ping_inv_def)
next
  case (conn_send s v w ready fs r p)
  from conn_send(1,3) have live: "\<not> pi_dropped s" by (auto simp: ping_inv_def)
  with conn_send(1,3) have "\<forall>pp. pp_pending_ping (pi_conn s) = Some pp \<longrightarrow> pp_payload pp = SHUTDOWN_PAYLOAD"
      "v = 1 \<longrightarrow> user_state_of (pi_conn s) = 1"
      "ping_open (user_state_of (pi_conn s)) (pi_log s) (pi_requested s) (pi_delivered s)"
    by (simp_all add: ping_inv_def)
  from ping_open_write [OF conn_send(2) this] live show ?case by (simp add: ping_inv_def)
next
  case (conn_recv s f r p)
  from conn_recv(1,4) have "\<forall>pp. pp_pending_ping (pi_conn s) = Some pp \<longrightarrow> pp_payload pp = SHUTDOWN_PAYLOAD"
      "ping_open (user_state_of (pi_conn s)) (pi_log s) (pi_requested s) (pi_delivered s)"
    by (simp_all add: ping_inv_def)
  from ping_open_recv [OF conn_recv(3) this] conn_recv(1,2) show ?case by (simp add: ping_inv_def)
next
  case (conn_pong s ready fs r p)
  from conn_pong(1,4) have inv: "\<forall>pp. pp_pending_ping (pi_conn s) = Some pp \<longrightarrow> pp_payload pp = SHUTDOWN_PAYLOAD"
      "ping_open (user_state_of (pi_conn s)) (pi_log s) (pi_requested s) (pi_delivered s)"
    by (simp_all add: ping_inv_def)
  from ping_open_pong [OF conn_pong(3) inv(2)] inv(1) conn_pong(1,2) show ?case by (simp add: ping_inv_def)
next
  case (conn_shutdown s p)
  then show ?case by (auto simp: ping_inv_def ping_shutdown_def user_state_of_def split: if_splits)
next
  case (conn_drop s)
  then show ?case
    by (auto simp: ping_inv_def ping_open_def pings_answered_def user_state_of_def user_pings_rx_drop_def
        user_state_defs)
qed

lemma ping_reachable_inv: "ping_reachable s \<Longrightarrow> ping_inv s"
  by (induction rule: ping_reachable.induct) (auto intro: ping_inv_init ping_inv_step)

section \<open>Properties\<close>

text \<open>C21: However the user's handle and the connection interleave: when the connection has loaded
  \<open>PENDING_PING\<close> the state stays so until it stores \<open>PENDING_PONG\<close> (the separate load and store lose no
  update). The pongs delivered to the user are answers, that is PING acknowledgements with the user's
  payload read while a written user PING was unanswered; the answers are no more than the user PINGs
  written, these no more than the pings requested, and at most one request is outstanding. While the connection
  lives, \<open>poll_pong\<close> succeeds exactly when an answer has not been delivered yet, and \<open>send_ping\<close> exactly when
  all requests have been; once it is dropped both report the broken pipe.\<close>

theorem user_ping_protocol:
  assumes "ping_reachable s"
  shows "(pi_loaded s = Some USER_STATE_PENDING_PING \<longrightarrow>
      user_state_of (pi_conn s) = USER_STATE_PENDING_PING) \<and>
    pi_delivered s \<le> pings_answered (pi_log s) \<and> pings_answered (pi_log s) \<le> pings_written (pi_log s) \<and>
    pings_written (pi_log s) \<le> pi_requested s \<and> pi_requested s \<le> pi_delivered s + 1 \<and>
    (\<forall>u. pp_user_pings (pi_conn s) = Some u \<longrightarrow>
      fst (user_poll_pong w u) =
        (if pi_dropped s then Ready (Err broken_pipe)
         else if pi_delivered s < pings_answered (pi_log s) then Ready (Ok ()) else Pending) \<and>
      fst (user_send_ping u) =
        (if pi_dropped s then Err (Some broken_pipe)
         else if pi_requested s = pi_delivered s then Ok () else Err None))"
proof -
  note inv = ping_reachable_inv [OF assms]
  show ?thesis
  proof (cases "pi_dropped s")
    case True
    with inv show ?thesis
      by (auto simp: ping_inv_def user_state_of_def user_calls_closed)
  next
    case False
    let ?st = "user_state_of (pi_conn s)"
    from False inv have open_: "ping_open ?st (pi_log s) (pi_requested s) (pi_delivered s)"
      and loaded: "pi_loaded s = Some 1 \<longrightarrow> ?st = 1" by (simp_all add: ping_inv_def)
    from open_ have "?st \<le> 3" and counts: "pi_requested s = pi_delivered s + (if ?st = 0 then 0 else 1)"
        "pings_written (pi_log s) = pi_delivered s + (if ?st = 2 \<or> ?st = 3 then 1 else 0)"
        "pings_answered (pi_log s) = pi_delivered s + (if ?st = 3 then 1 else 0)"
      by (simp_all add: ping_open_def pings_answered_def)
    have "fst (user_poll_pong w u) = (if ?st = 3 then Ready (Ok ()) else Pending) \<and>
        fst (user_send_ping u) = (if ?st = 0 then Ok () else Err None)"
      if "pp_user_pings (pi_conn s) = Some u" for u
      using that \<open>?st \<le> 3\<close> by (simp add: user_state_of_def user_calls_open)
    with False loaded counts show ?thesis by (simp add: user_state_defs)
  qed
qed

text \<open>A run: the connection looks at the state, the user requests a ping, the connection registers its
  waker, looks again, writes the ping, reads two PONGs and the user takes the answer.\<close>

definition ping_at ::
  "nat \<Rightarrow> nat option \<Rightarrow> nat option \<Rightarrow> ping_event list \<Rightarrow> nat \<Rightarrow> ping_sys" where
  "ping_at st task loaded lg requested =
     \<lparr>pi_conn = ping_pong_new\<lparr>pp_user_pings := Some \<lparr>up_state = st, up_ping_task = task,
        up_pong_task = None, up_woken = []\<rparr>\<rparr>,
      pi_loaded = loaded, pi_dropped = False, pi_log = lg, pi_requested = requested, pi_delivered = 0\<rparr>"

lemmas ping_eval = ping_at_def ping_init_def take_user_pings_def ping_pong_new_def user_state_of_def
  user_state_defs user_send_ping_def user_cas_def wake_ping_task_def send_pending_ping_loaded_def
  send_pending_ping_def recv_ping_def receive_pong_def wake_pong_task_def ping_events

lemma ping_run_taken: "ping_reachable (ping_at 0 None None [] 0)"
proof (rule ping_reachable.step [OF ping_reachable.init])
  show "ping_step ping_init (ping_at 0 None None [] 0)"
    using ping_step.take [of ping_init "fst (take_user_pings ping_pong_new)" "snd (take_user_pings ping_pong_new)"]
    by (simp add: ping_eval Let_def)
qed

lemma ping_run_missed: "ping_reachable (ping_at 1 (Some 7) None [] 1)"
proof -
  have "ping_step (ping_at 0 None None [] 0) (ping_at 0 None (Some 0) [] 0)"
    using ping_step.conn_load [of "ping_at 0 None None [] 0"] by (simp add: ping_eval)
  with ping_run_taken have a: "ping_reachable (ping_at 0 None (Some 0) [] 0)" by (rule ping_reachable.step)
  have "ping_step (ping_at 0 None (Some 0) [] 0) (ping_at 1 None (Some 0) [] 1)"
    using ping_step.user_send [of "ping_at 0 None (Some 0) [] 0" _ "Ok ()"] by (simp add: ping_eval)
  with a have b: "ping_reachable (ping_at 1 None (Some 0) [] 1)" by (rule ping_reachable.step)
  have "ping_step (ping_at 1 None (Some 0) [] 1) (ping_at 1 (Some 7) None [] 1)"
    using ping_step.conn_send [of "ping_at 1 None (Some 0) [] 1" 0 7 IoReady] by (simp add: ping_eval)
  with b show ?thesis by (rule ping_reachable.step)
qed

text \<open>In that state the user has asked for a ping, the connection has returned from \<open>send_pending_ping\<close>
  without writing it, and no waker was woken: the connection looked before it registered, so the
  ping is written only when something else polls the connection. (\<open>poll_pong\<close> registers first, for
  this reason.)\<close>

lemma ping_wakeup_lost:
  "\<exists>s u. ping_reachable s \<and> pp_user_pings (pi_conn s) = Some u \<and> pi_loaded s = None \<and> pi_log s = [] \<and>
     up_state u = USER_STATE_PENDING_PING \<and> up_ping_task u \<noteq> None \<and> up_woken u = []"
  using ping_run_missed by (force simp: ping_at_def USER_STATE_PENDING_PING_def)

definition ping_sample :: ping_sys where
  "ping_sample = ping_at 3 (Some 7) None
     [Wrote (ping_new USER_PAYLOAD), Heard (ping_pong SHUTDOWN_PAYLOAD), Heard (ping_pong USER_PAYLOAD)] 1"

lemma ping_sample_reachable: "ping_reachable ping_sample"
proof -
  let ?lg1 = "[Wrote (ping_new USER_PAYLOAD)]"
  let ?lg2 = "?lg1 @ [Heard (ping_pong SHUTDOWN_PAYLOAD)]"
  have "ping_step (ping_at 1 (Some 7) None [] 1) (ping_at 1 (Some 7) (Some 1) [] 1)"
    using ping_step.conn_load [of "ping_at 1 (Some 7) None [] 1"] by (simp add: ping_eval)
  with ping_run_missed have a: "ping_reachable (ping_at 1 (Some 7) (Some 1) [] 1)"
    by (rule ping_reachable.step)
  have "ping_step (ping_at 1 (Some 7) (Some 1) [] 1) (ping_at 2 (Some 7) None ?lg1 1)"
    using ping_step.conn_send [of "ping_at 1 (Some 7) (Some 1) [] 1" 1 7 IoReady] by (simp add: ping_eval)
  with a have b: "ping_reachable (ping_at 2 (Some 7) None ?lg1 1)" by (rule ping_reachable.step)
  have "ping_step (ping_at 2 (Some 7) None ?lg1 1) (ping_at 2 (Some 7) None ?lg2 1)"
    using ping_step.conn_recv [of "ping_at 2 (Some 7) None ?lg1 1" "ping_pong SHUTDOWN_PAYLOAD"]
    by (simp add: ping_eval)
  with b have c: "ping_reachable (ping_at 2 (Some 7) None ?lg2 1)" by (rule ping_reachable.step)
  have "ping_step (ping_at 2 (Some 7) None ?lg2 1) ping_sample"
    using ping_step.conn_recv [of "ping_at 2 (Some 7) None ?lg2 1" "ping_pong USER_PAYLOAD"]
    by (simp add: ping_eval ping_sample_def)
  with c show ?thesis by (rule ping_reachable.step)
qed

lemma user_ping_protocol_witness:
  "pings_answered (pi_log ping_sample) = 1 \<and> pi_delivered ping_sample = 0 \<and>
    (case pp_user_pings (pi_conn ping_sample) of None \<Rightarrow> False
     | Some u \<Rightarrow> fst (user_poll_pong 7 u) = Ready (Ok ()) \<and> fst (user_send_ping u) = Err None)"
  using user_ping_protocol [OF ping_sample_reachable, of 7]
  by (simp add: ping_sample_def ping_at_def pings_answered_def answer_step_def ping_events)

text \<open>C22: A PING of the peer is answered by exactly one PONG with its payload, as soon as the codec is
  ready; until then no further PING can be taken (the assertion of \<open>recv_ping\<close>), and a pending poll keeps
  the answer.\<close>

theorem ping_is_answered:
  assumes "\<not> ping_ack f" "pp_pending_pong p = None"
  shows "\<exists>p'. recv_ping f p = Some (MustAck, p') \<and> recv_ping g p' = None \<and>
    send_pending_pong IoPending p' = ([], Pending, p') \<and>
    send_pending_pong IoReady p' = ([ping_pong (ping_payload f)], Ready (Ok ()), p)"
  using assms by (simp add: recv_ping_def send_pending_pong_def)

lemma ping_is_answered_witness:
  "\<exists>p'. recv_ping (ping_new SHUTDOWN_PAYLOAD) ping_pong_new = Some (MustAck, p') \<and>
    send_pending_pong IoReady p' = ([ping_pong SHUTDOWN_PAYLOAD], Ready (Ok ()), ping_pong_new)"
  using ping_is_answered [of "ping_new SHUTDOWN_PAYLOAD" ping_pong_new "ping_new USER_PAYLOAD"]
  by (auto simp: ping_new_def ping_pong_new_def)

end
