(* ===== verification/Go_Away.thy ===== *)
theory Go_Away
  imports Ping_Pong
begin

text \<open>
  The sending of GOAWAY frames (\<open>src/proto/go_away.rs\<close>): what was announced, the frame still to be
  written, and the decisions to close now or when idle. The step relation at the end shows that
  the last stream identifiers a connection announces never increase.
\<close>

record going_away =
  goi_last_processed_id :: stream_id
  goi_reason :: reason

record go_away_state =
  gos_close_now :: bool
  gos_going_away :: "going_away option"
  gos_is_user_initiated :: bool
  gos_pending :: "go_away_frame option"

definition go_away_state_new :: go_away_state where
  "go_away_state_new = \<lparr>gos_close_now = False, gos_going_away = None, gos_is_user_initiated = False,
     gos_pending = None\<rparr>"

text \<open>\<open>None\<close> is the failed assertion on the stream identifiers.\<close>

definition go_away :: "go_away_frame \<Rightarrow> go_away_state \<Rightarrow> go_away_state option" where
  "go_away f s =
     (if (case gos_going_away s of Some g \<Rightarrow> \<not> ga_last_stream_id f \<le> goi_last_processed_id g | None \<Rightarrow> False)
      then None
      else Some (s\<lparr>gos_going_away := Some \<lparr>goi_last_processed_id = ga_last_stream_id f,
                                         goi_reason = ga_error_code f\<rparr>,
                 gos_pending := Some f\<rparr>))"

definition go_away_now :: "go_away_frame \<Rightarrow> go_away_state \<Rightarrow> go_away_state option" where
  "go_away_now f s =
     (let s' = s\<lparr>gos_close_now := True\<rparr> in
      if (case gos_going_away s' of
            Some g \<Rightarrow> goi_last_processed_id g = ga_last_stream_id f \<and> goi_reason g = ga_error_code f
          | None \<Rightarrow> False)
      then Some s' else go_away f s')"

definition go_away_from_user :: "go_away_frame \<Rightarrow> go_away_state \<Rightarrow> go_away_state option" where
  "go_away_from_user f s = go_away_now f (s\<lparr>gos_is_user_initiated := True\<rparr>)"

definition is_going_away :: "go_away_state \<Rightarrow> bool" where
  "is_going_away s \<longleftrightarrow> gos_going_away s \<noteq> None"

definition should_close_now :: "go_away_state \<Rightarrow> bool" where
  "should_close_now s \<longleftrightarrow> gos_pending s = None \<and> gos_close_now s"

definition should_close_on_idle :: "go_away_state \<Rightarrow> bool" where
  "should_close_on_idle s \<longleftrightarrow> \<not> gos_close_now s \<and>
     (case gos_going_away s of Some g \<Rightarrow> goi_last_processed_id g \<noteq> STREAM_ID_MAX | None \<Rightarrow> False)"

text \<open>The GOAWAY frames buffered, \<open>Poll<Option<io::Result<Reason>>>\<close> and the new state.\<close>

definition send_pending_go_away ::
  "io_poll \<Rightarrow> go_away_state \<Rightarrow>
     go_away_frame list \<times> (reason, proto_error) outcome option poll \<times> go_away_state" where
  "send_pending_go_away ready s =
     (case gos_pending s of
        Some f \<Rightarrow>
          (let s' = s\<lparr>gos_pending := None\<rparr> in
           case ready of
             IoError k m \<Rightarrow> ([], Ready (Some (Err (ErrIo k m))), s')
           | IoPending \<Rightarrow> ([], Pending, s'\<lparr>gos_pending := Some f\<rparr>)
           | IoReady \<Rightarrow> ([f], Ready (Some (Ok (ga_error_code f))), s'))
      | None \<Rightarrow>
          if should_close_now s
          then (case map_option goi_reason (gos_going_away s) of
                  Some r \<Rightarrow> ([], Ready (Some (Ok r)), s)
                | None \<Rightarrow> ([], Ready None, s))
          else ([], Ready None, s))"

section \<open>The frames on the wire\<close>

text \<open>A run of the component: the calls that did not panic, with the frames written so far.\<close>

inductive go_away_run :: "go_away_state \<Rightarrow> go_away_frame list \<Rightarrow> bool" where
  new: "go_away_run go_away_state_new []"
| run_go_away: "go_away_run s fs \<Longrightarrow> go_away f s = Some s' \<Longrightarrow> go_away_run s' fs"
| run_now: "go_away_run s fs \<Longrightarrow> go_away_now f s = Some s' \<Longrightarrow> go_away_run s' fs"
| run_user: "go_away_run s fs \<Longrightarrow> go_away_from_user f s = Some s' \<Longrightarrow> go_away_run s' fs"
| run_send: "go_away_run s fs \<Longrightarrow> send_pending_go_away ready s = (out, r, s') \<Longrightarrow> go_away_run s' (fs @ out)"

definition go_away_inv :: "go_away_state \<Rightarrow> go_away_frame list \<Rightarrow> bool" where
  "go_away_inv s fs \<longleftrightarrow> sorted_wrt (\<lambda>f g. ga_last_stream_id g \<le> ga_last_stream_id f) fs \<and>
     (\<forall>f \<in> set fs. \<exists>g. gos_going_away s = Some g \<and> goi_last_processed_id g \<le> ga_last_stream_id f) \<and>
     (\<forall>f. gos_pending s = Some f \<longrightarrow>
        gos_going_away s = Some \<lparr>goi_last_processed_id = ga_last_stream_id f, goi_reason = ga_error_code f\<rparr>)"

lemma go_away_inv_go_away: "go_away f s = Some s' \<Longrightarrow> go_away_inv s fs \<Longrightarrow> go_away_inv s' fs"
  by (fastforce simp: go_away_def go_away_inv_def split: option.splits if_splits)

lemma go_away_inv_flags:
  "go_away_inv (s\<lparr>gos_close_now := b\<rparr>) fs = go_away_inv s fs"
  "go_away_inv (s\<lparr>gos_is_user_initiated := b\<rparr>) fs = go_away_inv s fs"
  by (simp_all add: go_away_inv_def)

lemma go_away_inv_now: "go_away_now f s = Some s' \<Longrightarrow> go_away_inv s fs \<Longrightarrow> go_away_inv s' fs"
  by (auto simp: go_away_now_def Let_def go_away_inv_flags split: if_splits dest: go_away_inv_go_away)

lemma go_away_inv_send:
  "send_pending_go_away ready s = (out, r, s') \<Longrightarrow> go_away_inv s fs \<Longrightarrow> go_away_inv s' (fs @ out)"
  by (cases "gos_pending s"; cases ready)
    (auto simp: send_pending_go_away_def go_away_inv_def sorted_wrt_append split: if_splits option.splits)

lemma go_away_run_inv: "go_away_run s fs \<Longrightarrow> go_away_inv s fs"
proof (induction rule: go_away_run.induct)
  case new
  show ?case by (simp add: go_away_inv_def go_away_state_new_def)
next
  case (run_user s fs f s')
  then show ?case
    using go_away_inv_now [of f "s\<lparr>gos_is_user_initiated := True\<rparr>"]
    by (simp add: go_away_from_user_def go_away_inv_flags)
qed (auto intro: go_away_inv_go_away go_away_inv_now go_away_inv_send)

section \<open>Properties\<close>

text \<open>C23: The GOAWAY frames that a connection writes have non-increasing last stream identifiers, whatever
  graceful, immediate and user-initiated shutdowns are mixed, and an immediate shutdown that
  repeats the announced identifier and reason adds no frame.\<close>

theorem go_away_ids_never_increase:
  assumes "go_away_run s fs"
  shows "sorted_wrt (\<lambda>f g. ga_last_stream_id g \<le> ga_last_stream_id f) fs \<and>
    (\<forall>f g. gos_going_away s = Some g \<and> goi_last_processed_id g = ga_last_stream_id f \<and>
       goi_reason g = ga_error_code f \<longrightarrow>
       map_option gos_pending (go_away_now f s) = Some (gos_pending s))"
  using go_away_run_inv [OF assms] by (simp add: go_away_inv_def go_away_now_def Let_def)

lemma go_away_ids_never_increase_witness:
  "sorted_wrt (\<lambda>f g. ga_last_stream_id g \<le> ga_last_stream_id f)
     [go_away_new STREAM_ID_MAX NO_ERROR, go_away_new (StreamId 5) NO_ERROR]"
proof -
  define s1 where "s1 = the (go_away (go_away_new STREAM_ID_MAX NO_ERROR) go_away_state_new)"
  define s2 where "s2 = snd (snd (send_pending_go_away IoReady s1))"
  define s3 where "s3 = the (go_away (go_away_new (StreamId 5) NO_ERROR) s2)"
  define s4 where "s4 = snd (snd (send_pending_go_away IoReady s3))"
  note ds = s1_def s2_def s3_def s4_def go_away_def go_away_new_def go_away_state_new_def
    send_pending_go_away_def less_eq_stream_id_def
  have r1: "go_away_run s1 []"
    by (rule run_go_away [OF go_away_run.new, of "go_away_new STREAM_ID_MAX NO_ERROR"]) (simp add: ds)
  have r2: "go_away_run s2 ([] @ [go_away_new STREAM_ID_MAX NO_ERROR])"
    by (rule run_send [OF r1, of IoReady _ "Ready (Some (Ok NO_ERROR))"]) (simp add: ds)
  have r3: "go_away_run s3 ([] @ [go_away_new STREAM_ID_MAX NO_ERROR])"
    by (rule run_go_away [OF r2, of "go_away_new (StreamId 5) NO_ERROR"]) (simp add: ds)
  have r4: "go_away_run s4 (([] @ [go_away_new STREAM_ID_MAX NO_ERROR]) @ [go_away_new (StreamId 5) NO_ERROR])"
    by (rule run_send [OF r3, of IoReady _ "Ready (Some (Ok NO_ERROR))"]) (simp add: ds)
  from go_away_ids_never_increase [OF r4] show ?thesis by simp
qed

end
