(* ===== verification/Settings_Sync.thy ===== *)
theory Settings_Sync
  imports Ping_Pong Frame_Settings
begin

text \<open>
  The SETTINGS exchange of a connection (\<open>src/proto/settings.rs\<close>). What the component does to the codec
  is the sequence of \<open>codec_op\<close> it calls, in order; \<open>poll_ready\<close> of the codec is an argument, once per
  call. The streams' \<open>apply_local_settings\<close> and \<open>apply_remote_settings\<close> are arguments that act on a state
  of their own, so that the order of the acknowledgement, the codec's new limits and the streams' new
  limits is explicit.
\<close>

section \<open>State and operations\<close>

datatype local_settings = ToSend settings | WaitingAck settings | Synced

record settings_sync =
  sy_local :: local_settings
  sy_remote :: "settings option"
  sy_has_received_remote_initial_settings :: bool

datatype codec_op =
    SetMaxRecvFrameSize nat
  | SetMaxRecvHeaderListSize nat
  | SetRecvHeaderTableSize nat
  | SetSendHeaderTableSize nat
  | SetMaxSendFrameSize nat
  | BufferSettings settings

definition settings_sync_new :: "settings \<Rightarrow> settings_sync" where
  "settings_sync_new l = \<lparr>sy_local = WaitingAck l, sy_remote = None,
     sy_has_received_remote_initial_settings = False\<rparr>"

definition opt_op :: "(nat \<Rightarrow> codec_op) \<Rightarrow> u32 option \<Rightarrow> codec_op list" where
  "opt_op mk v = (case v of None \<Rightarrow> [] | Some w \<Rightarrow> [mk (unat w)])"

text \<open>The result is \<open>None\<close> on the failed \<open>assert!(self.remote.is_none())\<close>.\<close>

definition recv_settings ::
  "(settings \<Rightarrow> 's \<Rightarrow> (unit, proto_error) outcome \<times> 's) \<Rightarrow> settings \<Rightarrow> settings_sync \<times> 's
     \<Rightarrow> (codec_op list \<times> (unit, proto_error) outcome \<times> (settings_sync \<times> 's)) option" where
  "recv_settings apply_local frame ss =
     (case ss of (s, streams) \<Rightarrow>
      if settings_is_ack frame
      then (case sy_local s of
              WaitingAck l \<Rightarrow>
                (let ops = opt_op SetMaxRecvFrameSize (set_max_frame_size l) @
                     opt_op SetMaxRecvHeaderListSize (set_max_header_list_size l) @
                     opt_op SetRecvHeaderTableSize (set_header_table_size l) in
                 case apply_local l streams of
                   (Ok _, streams') \<Rightarrow> Some (ops, Ok (), (s\<lparr>sy_local := Synced\<rparr>, streams'))
                 | (r, streams') \<Rightarrow> Some (ops, r, (s, streams')))
            | _ \<Rightarrow> Some ([], Err (library_go_away PROTOCOL_ERROR), (s, streams)))
      else if sy_remote s \<noteq> None then None
      else Some ([], Ok (), (s\<lparr>sy_remote := Some frame\<rparr>, streams)))"

definition send_settings :: "settings \<Rightarrow> settings_sync \<Rightarrow> ((unit, user_error) outcome \<times> settings_sync) option" where
  "send_settings frame s =
     (if settings_is_ack frame then None
      else case sy_local s of
        Synced \<Rightarrow> Some (Ok (), s\<lparr>sy_local := ToSend frame\<rparr>)
      | _ \<Rightarrow> Some (Err SendSettingsWhilePending, s))"

definition mark_remote_initial_settings_as_received :: "settings_sync \<Rightarrow> bool \<times> settings_sync" where
  "mark_remote_initial_settings_as_received s =
     (\<not> sy_has_received_remote_initial_settings s, s\<lparr>sy_has_received_remote_initial_settings := True\<rparr>)"

text \<open>The part of \<open>poll_send\<close> after the remote settings are done.\<close>

definition poll_send_local ::
  "io_poll \<Rightarrow> settings_sync \<Rightarrow> codec_op list \<times> (unit, proto_error) outcome poll \<times> settings_sync" where
  "poll_send_local ready s =
     (case sy_local s of
        ToSend l \<Rightarrow>
          (case ready of
             IoError k m \<Rightarrow> ([], Ready (Err (ErrIo k m)), s)
           | IoPending \<Rightarrow> ([], Pending, s)
           | IoReady \<Rightarrow> ([BufferSettings l], Ready (Ok ()), s\<lparr>sy_local := WaitingAck l\<rparr>))
      | _ \<Rightarrow> ([], Ready (Ok ()), s))"

definition settings_poll_send ::
  "(settings \<Rightarrow> bool \<Rightarrow> 's \<Rightarrow> (unit, proto_error) outcome \<times> 's) \<Rightarrow> io_poll \<Rightarrow> io_poll \<Rightarrow> settings_sync \<times> 's
     \<Rightarrow> codec_op list \<times> (unit, proto_error) outcome poll \<times> (settings_sync \<times> 's)" where
  "settings_poll_send apply_remote ready1 ready2 ss =
     (case ss of (s, streams) \<Rightarrow>
      case sy_remote s of
        Some r \<Rightarrow>
          (case ready1 of
             IoError k m \<Rightarrow> ([], Ready (Err (ErrIo k m)), (s, streams))
           | IoPending \<Rightarrow> ([], Pending, (s, streams))
           | IoReady \<Rightarrow>
               (let ack = [BufferSettings settings_ack] in
                case mark_remote_initial_settings_as_received s of (is_initial, s1) \<Rightarrow>
                case apply_remote r is_initial streams of
                  (Ok _, streams') \<Rightarrow>
                    (let ops = ack @ opt_op SetSendHeaderTableSize (set_header_table_size r) @
                         opt_op SetMaxSendFrameSize (set_max_frame_size r) in
                     case poll_send_local ready2 (s1\<lparr>sy_remote := None\<rparr>) of
                       (ops2, p, s2) \<Rightarrow> (ops @ ops2, p, (s2, streams')))
                | (e, streams') \<Rightarrow> (ack, Ready e, (s1, streams'))))
      | None \<Rightarrow>
          (case poll_send_local ready2 (s\<lparr>sy_remote := None\<rparr>) of
             (ops2, p, s2) \<Rightarrow> (ops2, p, (s2, streams))))"

text \<open>The part of \<open>poll_send\<close> for the remote settings: the ACK, and what they change.\<close>

definition poll_send_remote ::
  "(settings \<Rightarrow> bool \<Rightarrow> 's \<Rightarrow> (unit, proto_error) outcome \<times> 's) \<Rightarrow> io_poll \<Rightarrow> settings_sync \<times> 's
     \<Rightarrow> codec_op list \<times> (unit, proto_error) outcome poll \<times> (settings_sync \<times> 's)" where
  "poll_send_remote apply_remote ready ss =
     (case ss of (s, streams) \<Rightarrow>
      case sy_remote s of
        Some r \<Rightarrow>
          (case ready of
             IoError k m \<Rightarrow> ([], Ready (Err (ErrIo k m)), (s, streams))
           | IoPending \<Rightarrow> ([], Pending, (s, streams))
           | IoReady \<Rightarrow>
               (let ack = [BufferSettings settings_ack] in
                case mark_remote_initial_settings_as_received s of (is_initial, s1) \<Rightarrow>
                case apply_remote r is_initial streams of
                  (Ok _, streams') \<Rightarrow>
                    (ack @ opt_op SetSendHeaderTableSize (set_header_table_size r) @
                       opt_op SetMaxSendFrameSize (set_max_frame_size r),
                     Ready (Ok ()), (s1\<lparr>sy_remote := None\<rparr>, streams'))
                | (e, streams') \<Rightarrow> (ack, Ready e, (s1, streams'))))
      | None \<Rightarrow> ([], Ready (Ok ()), (s\<lparr>sy_remote := None\<rparr>, streams)))"

lemma settings_poll_send_parts:
  "settings_poll_send apply_remote ready1 ready2 ss =
     (case poll_send_remote apply_remote ready1 ss of
        (ops1, Ready (Ok _), (s, streams)) \<Rightarrow>
          (case poll_send_local ready2 s of (ops2, p, s) \<Rightarrow> (ops1 @ ops2, p, (s, streams)))
      | r \<Rightarrow> r)"
  unfolding settings_poll_send_def poll_send_remote_def
  by (auto simp: Let_def split: prod.splits option.splits io_poll.splits outcome.splits)

section \<open>A run of the exchange\<close>

text \<open>Received frames, sent settings and polls in any order, between any steps of the streams: the streams
  are any state, \<open>apply_local\<close> and \<open>apply_remote\<close> any functions that change it and may fail, and between
  two calls the state may change in any way. \<open>sr_log\<close> is a ghost: each application of settings to the
  streams, written by \<open>logged_local\<close> and \<open>logged_remote\<close> around the function that was passed in.
  \<open>sr_ops\<close> holds the codec calls made so far, \<open>sr_heard\<close> every SETTINGS frame received. A call that fails
  ends the run (the connection then sends its GOAWAY and reads and polls no more settings).\<close>

datatype sync_event = Applied_Local settings | Applied_Remote settings bool

record 's sync_run =
  sr_state :: settings_sync
  sr_streams :: 's
  sr_log :: "sync_event list"
  sr_heard :: "settings list"
  sr_ops :: "codec_op list"
  sr_failed :: bool

definition logged_local ::
  "(settings \<Rightarrow> 's \<Rightarrow> (unit, proto_error) outcome \<times> 's) \<Rightarrow>
   settings \<Rightarrow> 's \<times> sync_event list \<Rightarrow> (unit, proto_error) outcome \<times> ('s \<times> sync_event list)" where
  "logged_local apply_local l sl =
     (case apply_local l (fst sl) of (r, s') \<Rightarrow> (r, (s', snd sl @ [Applied_Local l])))"

definition logged_remote ::
  "(settings \<Rightarrow> bool \<Rightarrow> 's \<Rightarrow> (unit, proto_error) outcome \<times> 's) \<Rightarrow>
   settings \<Rightarrow> bool \<Rightarrow> 's \<times> sync_event list \<Rightarrow> (unit, proto_error) outcome \<times> ('s \<times> sync_event list)" where
  "logged_remote apply_remote x is_initial sl =
     (case apply_remote x is_initial (fst sl) of (r, s') \<Rightarrow> (r, (s', snd sl @ [Applied_Remote x is_initial])))"

definition sync_start :: "settings \<Rightarrow> 's \<Rightarrow> 's sync_run" where
  "sync_start l0 s0 = \<lparr>sr_state = settings_sync_new l0, sr_streams = s0, sr_log = [], sr_heard = [],
     sr_ops = [], sr_failed = False\<rparr>"

inductive sync_reach ::
  "(settings \<Rightarrow> 's \<Rightarrow> (unit, proto_error) outcome \<times> 's) \<Rightarrow>
   (settings \<Rightarrow> bool \<Rightarrow> 's \<Rightarrow> (unit, proto_error) outcome \<times> 's) \<Rightarrow> settings \<Rightarrow> 's sync_run \<Rightarrow> bool"
  for apply_local apply_remote l0 where
  start: "\<not> settings_is_ack l0 \<Longrightarrow> sync_reach apply_local apply_remote l0 (sync_start l0 s0)"
| streams: "sync_reach apply_local apply_remote l0 r \<Longrightarrow>
    sync_reach apply_local apply_remote l0 (r\<lparr>sr_streams := s'\<rparr>)"
| recv: "sync_reach apply_local apply_remote l0 r \<Longrightarrow> \<not> sr_failed r \<Longrightarrow>
    recv_settings (logged_local apply_local) frame (sr_state r, (sr_streams r, sr_log r)) =
      Some (ops, res, (s, (st, lg))) \<Longrightarrow>
    sync_reach apply_local apply_remote l0 (r\<lparr>sr_state := s, sr_streams := st, sr_log := lg,
      sr_heard := sr_heard r @ [frame], sr_ops := sr_ops r @ ops, sr_failed := (res \<noteq> Ok ())\<rparr>)"
| send: "sync_reach apply_local apply_remote l0 r \<Longrightarrow> send_settings frame (sr_state r) = Some (res, s) \<Longrightarrow>
    sync_reach apply_local apply_remote l0 (r\<lparr>sr_state := s\<rparr>)"
| poll: "sync_reach apply_local apply_remote l0 r \<Longrightarrow> \<not> sr_failed r \<Longrightarrow>
    settings_poll_send (logged_remote apply_remote) ready1 ready2 (sr_state r, (sr_streams r, sr_log r)) =
      (ops, p, (s, (st, lg))) \<Longrightarrow>
    sync_reach apply_local apply_remote l0 (r\<lparr>sr_state := s, sr_streams := st, sr_log := lg,
      sr_ops := sr_ops r @ ops, sr_failed := (p \<noteq> Pending \<and> p \<noteq> Ready (Ok ()))\<rparr>)"

text \<open>What is read off the log, the codec calls and the frames heard.\<close>

definition locals_applied :: "sync_event list \<Rightarrow> settings list" where
  "locals_applied lg = concat (map (\<lambda>e. case e of Applied_Local l \<Rightarrow> [l] | _ \<Rightarrow> []) lg)"

definition remotes_applied :: "sync_event list \<Rightarrow> (settings \<times> bool) list" where
  "remotes_applied lg = concat (map (\<lambda>e. case e of Applied_Remote x b \<Rightarrow> [(x, b)] | _ \<Rightarrow> []) lg)"

definition acks_of :: "codec_op list \<Rightarrow> nat" where
  "acks_of ops = length (filter (\<lambda>op. op = BufferSettings settings_ack) ops)"

definition announced_by :: "codec_op list \<Rightarrow> settings list" where
  "announced_by ops = concat (map (\<lambda>op. case op of BufferSettings x \<Rightarrow>
     if settings_is_ack x then [] else [x] | _ \<Rightarrow> []) ops)"

fun recv_limit_op :: "codec_op \<Rightarrow> bool" where
  "recv_limit_op (SetMaxRecvFrameSize _) = True"
| "recv_limit_op (SetMaxRecvHeaderListSize _) = True"
| "recv_limit_op (SetRecvHeaderTableSize _) = True"
| "recv_limit_op _ = False"

fun send_limit_op :: "codec_op \<Rightarrow> bool" where
  "send_limit_op (SetSendHeaderTableSize _) = True"
| "send_limit_op (SetMaxSendFrameSize _) = True"
| "send_limit_op _ = False"

text \<open>The codec limits a SETTINGS frame sets: ours when it is acknowledged, the peer's when it is applied.\<close>

definition recv_limits :: "settings \<Rightarrow> codec_op list" where
  "recv_limits l = opt_op SetMaxRecvFrameSize (set_max_frame_size l) @
     opt_op SetMaxRecvHeaderListSize (set_max_header_list_size l) @
     opt_op SetRecvHeaderTableSize (set_header_table_size l)"

definition send_limits :: "settings \<Rightarrow> codec_op list" where
  "send_limits x = opt_op SetSendHeaderTableSize (set_header_table_size x) @
     opt_op SetMaxSendFrameSize (set_max_frame_size x)"

definition waiting_local :: "local_settings \<Rightarrow> settings list" where
  "waiting_local x = (case x of WaitingAck l \<Rightarrow> [l] | _ \<Rightarrow> [])"

abbreviation "peer_settings heard \<equiv> filter (\<lambda>f. \<not> settings_is_ack f) heard"
abbreviation "peer_acks heard \<equiv> filter settings_is_ack heard"

text \<open>What holds in every state, what holds while no call has failed, and what is left after a failure.\<close>

definition sync_books :: "settings_sync \<Rightarrow> sync_event list \<Rightarrow> codec_op list \<Rightarrow> bool" where
  "sync_books s lg ops \<longleftrightarrow>
     acks_of ops = length (remotes_applied lg) \<and>
     map snd (remotes_applied lg) = map (\<lambda>i. i = 0) [0..<length (remotes_applied lg)] \<and>
     (sy_has_received_remote_initial_settings s \<longleftrightarrow> remotes_applied lg \<noteq> []) \<and>
     filter recv_limit_op ops = concat (map recv_limits (locals_applied lg)) \<and>
     (case sy_local s of Synced \<Rightarrow> True | ToSend l \<Rightarrow> \<not> settings_is_ack l | WaitingAck l \<Rightarrow> \<not> settings_is_ack l)"

definition sync_ok ::
  "settings \<Rightarrow> settings_sync \<Rightarrow> sync_event list \<Rightarrow> settings list \<Rightarrow> codec_op list \<Rightarrow> bool" where
  "sync_ok l0 s lg heard ops \<longleftrightarrow>
     sync_books s lg ops \<and>
     peer_settings heard = map fst (remotes_applied lg) @ (case sy_remote s of None \<Rightarrow> [] | Some x \<Rightarrow> [x]) \<and>
     length (peer_acks heard) = length (locals_applied lg) \<and>
     l0 # announced_by ops = locals_applied lg @ waiting_local (sy_local s) \<and>
     filter send_limit_op ops = concat (map (send_limits \<circ> fst) (remotes_applied lg))"

definition sync_ended ::
  "settings \<Rightarrow> settings_sync \<Rightarrow> sync_event list \<Rightarrow> settings list \<Rightarrow> codec_op list \<Rightarrow> bool" where
  "sync_ended l0 s lg heard ops \<longleftrightarrow>
     sync_books s lg ops \<and>
     (\<exists>rest. peer_settings heard = map fst (remotes_applied lg) @ rest \<and> length rest \<le> 1) \<and>
     (\<exists>rest. l0 # announced_by ops = locals_applied lg @ rest \<and> length rest \<le> 1) \<and>
     length (locals_applied lg) \<le> length (peer_acks heard) \<and>
     (\<exists>rest. concat (map (send_limits \<circ> fst) (remotes_applied lg)) = filter send_limit_op ops @ rest)"

lemma settings_ack_is_ack [simp]: "settings_is_ack settings_ack"
  by (simp add: settings_is_ack_def settings_ack_def settings_flags_is_ack_def)

lemma log_simps [simp]:
  "locals_applied [] = []" "locals_applied (xs @ ys) = locals_applied xs @ locals_applied ys"
  "locals_applied [Applied_Local l] = [l]" "locals_applied [Applied_Remote x b] = []"
  "remotes_applied [] = []" "remotes_applied (xs @ ys) = remotes_applied xs @ remotes_applied ys"
  "remotes_applied [Applied_Local l] = []" "remotes_applied [Applied_Remote x b] = [(x, b)]"
  by (simp_all add: locals_applied_def remotes_applied_def)

lemma acks_of_simps [simp]:
  "acks_of [] = 0" "acks_of (xs @ ys) = acks_of xs + acks_of ys"
  "acks_of (BufferSettings x # ops) = (if x = settings_ack then 1 else 0) + acks_of ops"
  by (simp_all add: acks_of_def)

lemma announced_by_simps [simp]:
  "announced_by [] = []" "announced_by (xs @ ys) = announced_by xs @ announced_by ys"
  "announced_by (BufferSettings x # ops) = (if settings_is_ack x then [] else [x]) @ announced_by ops"
  by (simp_all add: announced_by_def)

lemma limits_simps [simp]:
  "acks_of (recv_limits l) = 0" "announced_by (recv_limits l) = []"
  "filter recv_limit_op (recv_limits l) = recv_limits l" "filter send_limit_op (recv_limits l) = []"
  "acks_of (send_limits l) = 0" "announced_by (send_limits l) = []"
  "filter recv_limit_op (send_limits l) = []" "filter send_limit_op (send_limits l) = send_limits l"
  by (auto simp: recv_limits_def send_limits_def opt_op_def acks_of_def announced_by_def split: option.split)

lemma waiting_local_simps [simp]:
  "waiting_local (WaitingAck l) = [l]" "waiting_local (ToSend l) = []" "waiting_local Synced = []"
  by (simp_all add: waiting_local_def)

lemma sync_ok_ended: "sync_ok l0 s lg heard ops \<Longrightarrow> sync_ended l0 s lg heard ops"
  by (auto simp: sync_ok_def sync_ended_def waiting_local_def split: option.splits local_settings.splits)

text \<open>The peer's frames: an ACK applies our settings, anything else waits to be acknowledged.\<close>

lemma recv_settings_logged:
  "recv_settings (logged_local f) frame (s, (st, lg)) =
     (if settings_is_ack frame
      then (case sy_local s of
              WaitingAck l \<Rightarrow> (case f l st of (res, st') \<Rightarrow>
                Some (recv_limits l, res,
                  (if res = Ok () then s\<lparr>sy_local := Synced\<rparr> else s, (st', lg @ [Applied_Local l]))))
            | _ \<Rightarrow> Some ([], Err (library_go_away PROTOCOL_ERROR), (s, (st, lg))))
      else if sy_remote s \<noteq> None then None
      else Some ([], Ok (), (s\<lparr>sy_remote := Some frame\<rparr>, (st, lg))))"
  by (auto simp: recv_settings_def logged_local_def recv_limits_def Let_def
      split: local_settings.split prod.split outcome.split)

lemma sync_recv:
  assumes "recv_settings (logged_local f) frame (s, (st, lg)) = Some (ops', res, (s', (st', lg')))"
    and "sync_ok l0 s lg heard ops"
  shows "if res = Ok () then sync_ok l0 s' lg' (heard @ [frame]) (ops @ ops')
    else sync_ended l0 s' lg' (heard @ [frame]) (ops @ ops')"
proof (cases "settings_is_ack frame")
  case False
  with assms show ?thesis
    by (auto simp: recv_settings_logged sync_ok_def sync_books_def split: if_splits)
next
  case ack: True
  show ?thesis
  proof (cases "sy_local s")
    case (WaitingAck l)
    with ack assms show ?thesis
      by (cases "f l st") (auto simp: recv_settings_logged sync_ok_def sync_ended_def sync_books_def
          split: option.splits if_splits)
  next
    case (ToSend l)
    with ack assms have "sync_ended l0 s lg (heard @ [frame]) ops"
      by (auto simp: sync_ok_def sync_ended_def split: option.splits)
    with ack assms ToSend show ?thesis by (auto simp: recv_settings_logged)
  next
    case Synced
    with ack assms have "sync_ended l0 s lg (heard @ [frame]) ops"
      by (auto simp: sync_ok_def sync_ended_def split: option.splits)
    with ack assms Synced show ?thesis by (auto simp: recv_settings_logged)
  qed
qed

text \<open>The polls: the peer's settings first, with their ACK, then ours.\<close>

lemma poll_send_remote_logged:
  "poll_send_remote (logged_remote g) ready (s, (st, lg)) =
     (case sy_remote s of
        None \<Rightarrow> ([], Ready (Ok ()), (s\<lparr>sy_remote := None\<rparr>, (st, lg)))
      | Some x \<Rightarrow>
          (case ready of
             IoError k m \<Rightarrow> ([], Ready (Err (ErrIo k m)), (s, (st, lg)))
           | IoPending \<Rightarrow> ([], Pending, (s, (st, lg)))
           | IoReady \<Rightarrow>
               (let first = \<not> sy_has_received_remote_initial_settings s;
                    s1 = s\<lparr>sy_has_received_remote_initial_settings := True\<rparr> in
                case g x first st of (res, st') \<Rightarrow>
                  (BufferSettings settings_ack # (if res = Ok () then send_limits x else []), Ready res,
                   (if res = Ok () then s1\<lparr>sy_remote := None\<rparr> else s1, (st', lg @ [Applied_Remote x first]))))))"
  by (auto simp: poll_send_remote_def logged_remote_def send_limits_def Let_def
      mark_remote_initial_settings_as_received_def
      split: option.split prod.split outcome.split io_poll.split)

lemma sync_poll_remote:
  assumes "poll_send_remote (logged_remote g) ready (s, (st, lg)) = (ops', p, (s', (st', lg')))"
    and "sync_ok l0 s lg heard ops"
  shows "if p = Pending \<or> p = Ready (Ok ()) then sync_ok l0 s' lg' heard (ops @ ops')
    else sync_ended l0 s' lg' heard (ops @ ops')"
proof (cases "\<exists>x. sy_remote s = Some x \<and> ready = IoReady")
  case False
  with assms sync_ok_ended [OF assms(2)] show ?thesis
    by (auto simp: poll_send_remote_logged sync_ok_def sync_books_def split: option.splits io_poll.splits)
next
  case True
  then obtain x where x: "sy_remote s = Some x" "ready = IoReady" by auto
  obtain res st1 where g: "g x (\<not> sy_has_received_remote_initial_settings s) st = (res, st1)" by fastforce
  from assms(1) x g have eq:
      "ops' = BufferSettings settings_ack # (if res = Ok () then send_limits x else [])" "p = Ready res"
      "s' = (if res = Ok () then s\<lparr>sy_has_received_remote_initial_settings := True, sy_remote := None\<rparr>
         else s\<lparr>sy_has_received_remote_initial_settings := True\<rparr>)"
      "lg' = lg @ [Applied_Remote x (\<not> sy_has_received_remote_initial_settings s)]"
    by (simp_all add: poll_send_remote_logged Let_def)
  from assms(2) have books: "sync_books s' lg' (ops @ ops')"
    by (auto simp: eq sync_ok_def sync_books_def)
  show ?thesis
  proof (cases "res = Ok ()")
    case True
    with assms(2) x books show ?thesis by (simp add: eq sync_ok_def)
  next
    case False
    with assms(2) x books show ?thesis
      by (auto simp: eq sync_ok_def sync_ended_def waiting_local_def split: local_settings.splits)
  qed
qed

lemma sync_poll_local:
  assumes "poll_send_local ready s = (ops', p, s')" "sync_ok l0 s lg heard ops"
  shows "sync_ok l0 s' lg heard (ops @ ops')"
  using assms by (cases ready) (auto simp: poll_send_local_def sync_ok_def sync_books_def
      split: local_settings.splits)

lemma sync_poll:
  assumes "settings_poll_send (logged_remote g) ready1 ready2 (s, (st, lg)) = (ops', p, (s', (st', lg')))"
    and "sync_ok l0 s lg heard ops"
  shows "if p = Pending \<or> p = Ready (Ok ()) then sync_ok l0 s' lg' heard (ops @ ops')
    else sync_ended l0 s' lg' heard (ops @ ops')"
proof -
  obtain ops1 p1 s1 st1 lg1 where
    r: "poll_send_remote (logged_remote g) ready1 (s, (st, lg)) = (ops1, p1, (s1, (st1, lg1)))"
    by (metis prod_cases3)
  note inv1 = sync_poll_remote [OF r assms(2)]
  show ?thesis
  proof (cases "p1 = Ready (Ok ())")
    case False
    with assms(1) r inv1 show ?thesis
      by (cases p1) (auto simp: settings_poll_send_parts split: outcome.splits)
  next
    case True
    obtain ops2 p2 s2 where l: "poll_send_local ready2 s1 = (ops2, p2, s2)" by (metis prod_cases3)
    from True inv1 have "sync_ok l0 s1 lg1 heard (ops @ ops1)" by simp
    from sync_poll_local [OF l this] have "sync_ok l0 s2 lg1 heard (ops @ ops1 @ ops2)" by simp
    moreover from True assms(1) r l have "ops' = ops1 @ ops2" "p = p2" "s' = s2" "lg' = lg1"
      by (simp_all add: settings_poll_send_parts)
    ultimately show ?thesis using sync_ok_ended by auto
  qed
qed

lemma sync_send:
  "send_settings frame s = Some (res, s') \<Longrightarrow> sync_ok l0 s lg heard ops \<Longrightarrow> sync_ok l0 s' lg heard ops"
  "send_settings frame s = Some (res, s') \<Longrightarrow> sync_ended l0 s lg heard ops \<Longrightarrow> sync_ended l0 s' lg heard ops"
  by (auto simp: send_settings_def sync_ok_def sync_ended_def sync_books_def
      split: if_splits local_settings.splits)

lemma sync_reach_inv:
  "sync_reach f g l0 r \<Longrightarrow>
     if sr_failed r then sync_ended l0 (sr_state r) (sr_log r) (sr_heard r) (sr_ops r)
     else sync_ok l0 (sr_state r) (sr_log r) (sr_heard r) (sr_ops r)"
proof (induction rule: sync_reach.induct)
  case (start s0)
  then show ?case
    by (simp add: sync_start_def sync_ok_def sync_books_def settings_sync_new_def)
next
  case (streams r s')
  then show ?case by simp
next
  case (recv r frame ops res s st lg)
  with sync_recv [OF recv(3)] show ?case by auto
next
  case (send r frame res s)
  with sync_send show ?case by (auto split: if_splits)
next
  case (poll r ready1 ready2 ops p s st lg)
  with sync_poll [OF poll(3)] show ?case by auto
qed

section \<open>Properties\<close>

text \<open>C20: Whatever the streams do, in every run of received SETTINGS, sent settings and polls: each ACK
  written goes with one application of the peer's settings to the streams, and the first application
  alone is told that it is the initial one. As long as no call has failed, the settings applied are the
  peer's SETTINGS frames in the order received, less the one that still waits for its ACK; our own
  settings are applied in the order announced, once per ACK of the peer, less the one that still waits;
  and the limits given to the codec are those of the settings applied, ours on the reading side and the
  peer's on the writing side. An ACK that nothing waits for is a connection error that changes nothing.
  After a call failed the settings applied are still a prefix of those received and of those announced,
  at most one shorter.\<close>

theorem settings_acknowledged_once:
  assumes "sync_reach apply_local apply_remote l0 r"
  shows "acks_of (sr_ops r) = length (remotes_applied (sr_log r)) \<and>
    map snd (remotes_applied (sr_log r)) = map (\<lambda>i. i = 0) [0..<length (remotes_applied (sr_log r))] \<and>
    filter recv_limit_op (sr_ops r) = concat (map recv_limits (locals_applied (sr_log r))) \<and>
    (\<not> sr_failed r \<longrightarrow>
      peer_settings (sr_heard r) = map fst (remotes_applied (sr_log r)) @
        (case sy_remote (sr_state r) of None \<Rightarrow> [] | Some x \<Rightarrow> [x]) \<and>
      l0 # announced_by (sr_ops r) = locals_applied (sr_log r) @ waiting_local (sy_local (sr_state r)) \<and>
      length (peer_acks (sr_heard r)) = length (locals_applied (sr_log r)) \<and>
      filter send_limit_op (sr_ops r) = concat (map (send_limits \<circ> fst) (remotes_applied (sr_log r))) \<and>
      (settings_is_ack frame \<and> l0 # announced_by (sr_ops r) = locals_applied (sr_log r) \<longrightarrow>
        recv_settings apply_local frame (sr_state r, sr_streams r) =
          Some ([], Err (library_go_away PROTOCOL_ERROR), (sr_state r, sr_streams r)))) \<and>
    (sr_failed r \<longrightarrow>
      (\<exists>rest. peer_settings (sr_heard r) = map fst (remotes_applied (sr_log r)) @ rest \<and> length rest \<le> 1) \<and>
      (\<exists>rest. l0 # announced_by (sr_ops r) = locals_applied (sr_log r) @ rest \<and> length rest \<le> 1))"
  using sync_reach_inv [OF assms]
  by (auto simp: sync_ok_def sync_ended_def sync_books_def recv_settings_def waiting_local_def
      split: if_splits local_settings.splits)

text \<open>A run on streams that count: the peer's settings are received, acknowledged and applied, then ours
  are acknowledged.\<close>

definition count_local :: "settings \<Rightarrow> nat \<Rightarrow> (unit, proto_error) outcome \<times> nat" where
  "count_local l n = (Ok (), n + 1)"

definition count_remote :: "settings \<Rightarrow> bool \<Rightarrow> nat \<Rightarrow> (unit, proto_error) outcome \<times> nat" where
  "count_remote x is_initial n = (Ok (), n + 10)"

definition sync_sample :: settings where
  "sync_sample = settings_default\<lparr>set_max_frame_size := Some 32768\<rparr>"

definition sync_sample_run :: "nat sync_run" where
  "sync_sample_run = \<lparr>
     sr_state = \<lparr>sy_local = Synced, sy_remote = None, sy_has_received_remote_initial_settings = True\<rparr>,
     sr_streams = 11, sr_log = [Applied_Remote sync_sample True, Applied_Local sync_sample],
     sr_heard = [sync_sample, settings_ack],
     sr_ops = [BufferSettings settings_ack, SetMaxSendFrameSize 32768, SetMaxRecvFrameSize 32768],
     sr_failed = False\<rparr>"

lemma sync_sample_not_ack: "\<not> settings_is_ack sync_sample"
  by (simp add: settings_is_ack_def sync_sample_def settings_default_def settings_flags_is_ack_def SETTINGS_ACK_def)

lemma sync_sample_fields:
  "set_max_frame_size sync_sample = Some 32768" "set_max_header_list_size sync_sample = None"
  "set_header_table_size sync_sample = None"
  by (simp_all add: sync_sample_def settings_default_def)

lemma sync_sample_reach: "sync_reach count_local count_remote sync_sample sync_sample_run"
proof -
  note nack = sync_sample_not_ack
  let ?r0 = "sync_start sync_sample (0::nat)"
  let ?s1 = "settings_sync_new sync_sample\<lparr>sy_remote := Some sync_sample\<rparr>"
  let ?s2 = "?s1\<lparr>sy_has_received_remote_initial_settings := True, sy_remote := None\<rparr>"
  let ?ops = "[BufferSettings settings_ack, SetMaxSendFrameSize 32768]"
  have r0: "sync_reach count_local count_remote sync_sample ?r0" by (rule sync_reach.start [OF nack])
  have "recv_settings (logged_local count_local) sync_sample (sr_state ?r0, (sr_streams ?r0, sr_log ?r0)) =
      Some ([], Ok (), (?s1, (0, [])))"
    using nack by (simp add: recv_settings_def sync_start_def settings_sync_new_def)
  from sync_reach.recv [OF r0 _ this]
  have r1: "sync_reach count_local count_remote sync_sample
      (?r0\<lparr>sr_state := ?s1, sr_streams := 0, sr_log := [], sr_heard := [sync_sample]\<rparr>)" (is "sync_reach _ _ _ ?r1")
    by (simp add: sync_start_def)
  have "settings_poll_send (logged_remote count_remote) IoReady IoReady
      (sr_state ?r1, (sr_streams ?r1, sr_log ?r1)) =
      (?ops, Ready (Ok ()), (?s2, (10, [Applied_Remote sync_sample True])))"
    by (simp add: settings_poll_send_parts poll_send_remote_logged poll_send_local_def count_remote_def
        settings_sync_new_def send_limits_def opt_op_def sync_sample_fields)
  from sync_reach.poll [OF r1 _ this]
  have r2: "sync_reach count_local count_remote sync_sample
      (?r1\<lparr>sr_state := ?s2, sr_streams := 10, sr_log := [Applied_Remote sync_sample True], sr_ops := ?ops\<rparr>)"
      (is "sync_reach _ _ _ ?r2")
    by (simp add: sync_start_def)
  have "recv_settings (logged_local count_local) settings_ack (sr_state ?r2, (sr_streams ?r2, sr_log ?r2)) =
      Some ([SetMaxRecvFrameSize 32768], Ok (), (?s2\<lparr>sy_local := Synced\<rparr>,
        (11, [Applied_Remote sync_sample True, Applied_Local sync_sample])))"
    by (simp add: recv_settings_logged settings_sync_new_def count_local_def recv_limits_def opt_op_def
        sync_sample_fields)
  from sync_reach.recv [OF r2 _ this] show ?thesis
    by (simp add: sync_start_def sync_sample_run_def settings_sync_new_def)
qed

lemma settings_acknowledged_once_witness:
  "acks_of (sr_ops sync_sample_run) = 1 \<and>
    peer_settings (sr_heard sync_sample_run) = [sync_sample] \<and>
    recv_settings count_local settings_ack (sr_state sync_sample_run, 11) =
      Some ([], Err (library_go_away PROTOCOL_ERROR), (sr_state sync_sample_run, 11))"
  using settings_acknowledged_once [OF sync_sample_reach, of settings_ack]
  by (simp add: sync_sample_run_def remotes_applied_def locals_applied_def acks_of_def announced_by_def
      sync_sample_not_ack sync_sample_fields recv_limits_def send_limits_def opt_op_def)

end
