(* ===== verification/Hpack_Int.thy ===== *)
theory Hpack_Int
  imports Error_Types
begin

text \<open>
  The prefixed integers of HPACK: \<open>encode_int\<close> (\<open>src/hpack/encoder.rs\<close>) and \<open>decode_int\<close>
  (\<open>src/hpack/decoder.rs\<close>), with the bound of five octets that the decoder puts on an integer. A
  \<open>usize\<close> is a natural number here; \<open>value as u8\<close> is \<open>of_nat\<close> to eight bits.
\<close>

section \<open>Encoding\<close>

definition encode_int_one_byte :: "nat \<Rightarrow> nat \<Rightarrow> bool" where
  "encode_int_one_byte value prefix_bits = (let mask = 2 ^ prefix_bits - 1 in value < mask)"

fun encode_int_rest :: "nat \<Rightarrow> bytes" where
  "encode_int_rest value =
     (if value \<ge> 128 then (0x80 OR of_nat value) # encode_int_rest (value div 128) else [of_nat value])"

declare encode_int_rest.simps [simp del]

definition encode_int :: "nat \<Rightarrow> nat \<Rightarrow> u8 \<Rightarrow> bytes \<Rightarrow> bytes" where
  "encode_int value prefix_bits first_byte dst =
     (if encode_int_one_byte value prefix_bits then dst @ [first_byte OR of_nat value]
      else let low = 2 ^ prefix_bits - 1 in
        dst @ [first_byte OR of_nat low] @ encode_int_rest (value - low))"

section \<open>Decoding\<close>

definition MAX_BYTES :: nat where "MAX_BYTES = 5"
definition VARINT_MASK :: u8 where "VARINT_MASK = 0x7f"
definition VARINT_FLAG :: u8 where "VARINT_FLAG = 0x80"

text \<open>The loop: how many bytes were read, the shift, the value so far, the rest of the buffer.\<close>

fun decode_int_loop :: "nat \<Rightarrow> nat \<Rightarrow> nat \<Rightarrow> bytes \<Rightarrow> (nat, decoder_error) outcome \<times> bytes" where
  "decode_int_loop n shift ret [] = (Err (NeedMore IntegerUnderflow), [])"
| "decode_int_loop n shift ret (b # bs) =
     (let n' = n + 1; ret' = ret + unat (b AND VARINT_MASK) * 2 ^ shift in
      if b AND VARINT_FLAG = 0 then (Ok ret', bs)
      else if n' = MAX_BYTES then (Err IntegerOverflow, bs)
      else decode_int_loop n' (shift + 7) ret' bs)"

definition decode_int :: "nat \<Rightarrow> bytes \<Rightarrow> (nat, decoder_error) outcome \<times> bytes" where
  "decode_int prefix_size buf =
     (if prefix_size < 1 \<or> prefix_size > 8 then (Err InvalidIntegerPrefix, buf)
      else case buf of
        [] \<Rightarrow> (Err (NeedMore IntegerUnderflow), [])
      | b # bs \<Rightarrow>
          let mask = (if prefix_size = 8 then 0xff else push_bit prefix_size 1 - 1) :: u8;
              ret = unat (b AND mask) in
          if ret < unat mask then (Ok ret, bs) else decode_int_loop 1 0 ret bs)"

section \<open>Bytes of an integer\<close>

lemma byte_mask_7f: "unat (b AND 0x7f :: u8) = unat b mod 128"
proof -
  have "unat b AND mask 7 = take_bit 7 (unat b)" by (simp only: take_bit_eq_mask)
  then have "unat b AND 127 = unat b mod 128" by (simp add: mask_eq_exp_minus_1 take_bit_eq_mod)
  then show ?thesis by (simp add: unsigned_and_eq)
qed

lemma bit_7_byte: "bit (b :: u8) 7 \<longleftrightarrow> \<not> unat b < 128"
proof -
  have "bit b 7 \<longleftrightarrow> bit (unat b) 7" by (simp add: bit_unsigned_iff)
  also have "\<dots> \<longleftrightarrow> odd (unat b div 2 ^ 7)" by (rule bit_iff_odd)
  finally have "bit b 7 \<longleftrightarrow> odd (unat b div 128)" by simp
  moreover have "unat b < 256" using unsigned_less [of b, where ?'a = nat] by simp
  moreover have "unat b < 128 \<Longrightarrow> unat b div 128 = 0" by simp
  moreover have "\<not> unat b < 128 \<Longrightarrow> unat b < 256 \<Longrightarrow> unat b div 128 = 1"
    by (rule div_nat_eqI) simp_all
  ultimately show ?thesis by (cases "unat b < 128") simp_all
qed

lemma and_0x80: "b AND 0x80 = (if bit b 7 then 0x80 else 0 :: u8)"
proof (rule bit_word_eqI)
  fix n :: nat
  have "(0x80 :: u8) = push_bit 7 1" by simp
  then have "bit (0x80 :: u8) n \<longleftrightarrow> n = 7" by (auto simp only: bit_simps) auto
  then show "bit (b AND 0x80) n = bit (if bit b 7 then 0x80 else 0 :: u8) n"
    by (cases "bit b 7") (auto simp: bit_and_iff simp del: bit_numeral_word_iff)
qed

lemma byte_flag_80: "(b AND 0x80 :: u8) = 0 \<longleftrightarrow> unat b < 128"
  by (simp add: and_0x80 bit_7_byte)

lemma unat_of_nat_u8: "unat (of_nat n :: u8) = n mod 256"
  by (simp add: unat_of_nat take_bit_eq_mod)

lemma byte_more: "unat (0x80 OR of_nat v :: u8) mod 128 = v mod 128" "\<not> unat (0x80 OR of_nat v :: u8) < 128"
proof -
  let ?b = "0x80 OR of_nat v :: u8"
  have "?b AND 0x7f = of_nat v AND 0x7f"
  proof (rule bit_word_eqI)
    fix n :: nat
    have "(0x80 :: u8) = push_bit 7 1" by simp
    then have b80: "bit (0x80 :: u8) n \<longleftrightarrow> n = 7" by (auto simp only: bit_simps) auto
    have "(0x7f :: u8) = mask 7" by (simp add: mask_eq_exp_minus_1)
    then have b7f: "bit (0x7f :: u8) n \<longleftrightarrow> n < 7" by (auto simp only: bit_simps) auto
    show "bit (?b AND 0x7f) n = bit (of_nat v AND 0x7f :: u8) n"
      by (auto simp add: bit_and_iff bit_or_iff b80 b7f simp del: bit_numeral_word_iff)
  qed
  then show "unat ?b mod 128 = v mod 128"
    using byte_mask_7f [of ?b] byte_mask_7f [of "of_nat v"] by (simp add: unat_of_nat_u8 mod_mod_cancel)
  have "bit ?b 7"
  proof -
    have "(0x80 :: u8) = push_bit 7 1" by simp
    then have "bit (0x80 :: u8) 7" by (auto simp only: bit_simps) auto
    then show ?thesis by (simp add: bit_or_iff del: bit_numeral_word_iff)
  qed
  then show "\<not> unat ?b < 128" by (simp add: bit_7_byte)
qed

section \<open>Round trip\<close>

lemma decode_rest:
  assumes "n < 5" "1 \<le> n"
  shows "decode_int_loop n shift ret (encode_int_rest v @ rest) =
    (if v < 2 ^ (7 * (5 - n)) then (Ok (ret + v * 2 ^ shift), rest)
     else (Err IntegerOverflow, drop (5 - n) (encode_int_rest v @ rest)))"
  using assms
proof (induction v arbitrary: n shift ret rule: encode_int_rest.induct)
  case (1 v)
  show ?case
  proof (cases "v \<ge> 128")
    case False
    have "(2 :: nat) ^ 7 \<le> 2 ^ (7 * (5 - n))"
      using 1(2) by (intro power_increasing) simp_all
    with False have small: "v < 2 ^ (7 * (5 - n))" by simp
    from False have "unat (of_nat v :: u8) = v" by (simp add: unat_of_nat_u8)
    with False small show ?thesis
      by (simp add: encode_int_rest.simps [of v] VARINT_MASK_def VARINT_FLAG_def byte_mask_7f byte_flag_80)
  next
    case True
    let ?b = "0x80 OR of_nat v :: u8"
    have enc: "encode_int_rest v = ?b # encode_int_rest (v div 128)"
      using True by (simp add: encode_int_rest.simps [of v])
    have step: "decode_int_loop n shift ret (encode_int_rest v @ rest) =
      (if n + 1 = 5 then (Err IntegerOverflow, encode_int_rest (v div 128) @ rest)
       else decode_int_loop (n + 1) (shift + 7) (ret + v mod 128 * 2 ^ shift) (encode_int_rest (v div 128) @ rest))"
      by (simp add: enc VARINT_MASK_def VARINT_FLAG_def byte_mask_7f byte_flag_80 byte_more MAX_BYTES_def Let_def)
    show ?thesis
    proof (cases "n + 1 = 5")
      case n: True
      then have "5 - n = 1" by simp
      with True n show ?thesis unfolding step by (simp add: enc)
    next
      case n: False
      then have lt: "n + 1 < 5" using 1(2) by simp
      have e: "5 - n = Suc (5 - (n + 1))" using lt by simp
      have pw: "(2 :: nat) ^ (7 * (5 - n)) = 128 * 2 ^ (7 * (5 - (n + 1)))"
        unfolding e by (simp add: power_add)
      have bound: "v div 128 < 2 ^ (7 * (5 - (n + 1))) \<longleftrightarrow> v < 2 ^ (7 * (5 - n))"
        unfolding pw by (simp add: less_mult_imp_div_less div_less_iff_less_mult mult.commute)
      have val: "ret + v mod 128 * 2 ^ shift + v div 128 * 2 ^ (shift + 7) = ret + v * 2 ^ shift"
      proof -
        have "v * 2 ^ shift = (v div 128 * 128 + v mod 128) * 2 ^ shift"
          by (simp only: div_mult_mod_eq)
        also have "\<dots> = v mod 128 * 2 ^ shift + v div 128 * 2 ^ (shift + 7)"
          by (simp only: power_add distrib_right) simp
        finally show ?thesis by simp
      qed
      have "drop (5 - n) (encode_int_rest v @ rest) = drop (5 - (n + 1)) (encode_int_rest (v div 128) @ rest)"
        unfolding e enc by simp
      with 1(1) [OF True, of "n + 1" "shift + 7" "ret + v mod 128 * 2 ^ shift"] lt 1(3) n bound show ?thesis
        unfolding step by (simp add: val del: power_Suc drop_append)
    qed
  qed
qed

lemma prefix_mask:
  assumes "1 \<le> p" "p \<le> 8"
  shows "(if p = 8 then 0xff else push_bit p 1 - 1 :: u8) = mask p"
proof (cases "p = 8")
  case True
  then show ?thesis by (simp add: mask_eq_exp_minus_1)
next
  case False
  then show ?thesis by (simp add: mask_eq_exp_minus_1 push_bit_eq_mult)
qed

lemma unat_mask_u8: "p \<le> 8 \<Longrightarrow> unat (mask p :: u8) = 2 ^ p - 1"
proof -
  assume "p \<le> 8"
  then have "(2 :: nat) ^ p \<le> 2 ^ 8" by (intro power_increasing) simp_all
  then have "2 ^ p - 1 < (256 :: nat)" by simp
  then have "unat (of_nat (2 ^ p - 1) :: u8) = 2 ^ p - 1" by (simp only: unat_of_nat_u8 mod_less)
  moreover have "(mask p :: u8) = of_nat (2 ^ p - 1)" by (simp add: mask_eq_exp_minus_1 of_nat_diff)
  ultimately show ?thesis by (simp only:)
qed

lemma first_byte_value:
  assumes "p \<le> 8" "v < 2 ^ p" "take_bit p fb = (0 :: u8)"
  shows "unat ((fb OR of_nat v) AND mask p) = v"
proof -
  have "(2 :: nat) ^ p \<le> 2 ^ 8" using assms(1) by (intro power_increasing) simp_all
  then have v: "v < 256" using assms(2) by simp
  have "(fb OR of_nat v) AND mask p = take_bit p (of_nat v)"
    by (simp add: take_bit_eq_mask [symmetric] take_bit_or assms(3))
  also have "unat (take_bit p (of_nat v :: u8)) = take_bit p v"
    using v by (simp add: unsigned_take_bit_eq unat_of_nat_u8)
  finally show ?thesis using assms(2) by (simp add: take_bit_nat_eq_self)
qed

text \<open>C25: An integer written with any prefix of one to eight bits (over a first byte whose prefix bits are
  clear) is read back exactly, with the rest of the buffer untouched, when it is below the prefix maximum plus
  \<open>2 ^ 28\<close>; a larger one is refused with \<open>IntegerOverflow\<close> after five octets.\<close>

theorem decode_encode_int:
  assumes "1 \<le> p" "p \<le> 8" "take_bit p fb = (0 :: u8)"
  shows "decode_int p (encode_int v p fb [] @ rest) =
    (if v < 2 ^ p - 1 + 2 ^ 28 then (Ok v, rest)
     else (Err IntegerOverflow, drop MAX_BYTES (encode_int v p fb [] @ rest)))"
proof -
  have le: "1 \<le> (2 :: nat) ^ p" by simp
  let ?low = "2 ^ p - 1 :: nat"
  have ge: "\<not> (p < 1 \<or> p > 8)" using assms by simp
  show ?thesis
  proof (cases "v < ?low")
    case True
    then have "v < 2 ^ p" by simp
    with True show ?thesis using ge assms first_byte_value [of p v fb]
      by (simp add: decode_int_def encode_int_def encode_int_one_byte_def Let_def prefix_mask unat_mask_u8)
  next
    case False
    have low: "unat ((fb OR of_nat ?low) AND mask p) = ?low"
      using assms le by (intro first_byte_value) simp_all
    have enc: "encode_int v p fb [] = (fb OR of_nat ?low) # encode_int_rest (v - ?low)"
      using False by (simp add: encode_int_def encode_int_one_byte_def Let_def)
    have dec: "decode_int p (encode_int v p fb [] @ rest) =
        decode_int_loop 1 0 ?low (encode_int_rest (v - ?low) @ rest)"
      unfolding enc using ge low assms
      by (simp only: decode_int_def prefix_mask [OF assms(1,2)] unat_mask_u8 Let_def if_False append_Cons list.case) simp
    have lt: "v - ?low < 2 ^ 28 \<longleftrightarrow> v < ?low + 2 ^ 28" using False by linarith
    have dr: "drop MAX_BYTES (encode_int v p fb [] @ rest) = drop 4 (encode_int_rest (v - ?low) @ rest)"
      unfolding enc by (simp add: MAX_BYTES_def)
    have eq: "?low + (v - ?low) * 2 ^ 0 = v" using False by simp
    have "decode_int_loop 1 0 ?low (encode_int_rest (v - ?low) @ rest) =
        (if v - ?low < 2 ^ (7 * (5 - 1)) then (Ok (?low + (v - ?low) * 2 ^ 0), rest)
         else (Err IntegerOverflow, drop (5 - 1) (encode_int_rest (v - ?low) @ rest)))"
      by (rule decode_rest) simp_all
    then show ?thesis unfolding dec dr eq lt [symmetric] by simp
  qed
qed

lemma decode_encode_int_witness:
  "decode_int 5 (encode_int 1337 5 0x20 [] @ [7]) = (Ok 1337, [7])"
  using decode_encode_int [of 5 "0x20" 1337 "[7]"] by (simp add: take_bit_eq_mod)

end
