(* ===== verification/Hpack_Header.thy ===== *)
theory Hpack_Header
  imports Error_Types
begin

text \<open>
  HPACK header fields (\<open>src/hpack/header.rs\<close>, \<open>src/ext.rs\<close>): construction from a decoded name and value with
  every rejected input, sizes, names, and the static table (\<open>src/hpack/decoder.rs\<close>, \<open>get_static\<close>).

  The types of the \<open>http\<close> crate are seen through their bytes: a \<open>HeaderName\<close> is its lowercase name, a
  \<open>HeaderValue\<close> its bytes with the sensitivity mark (which its equality ignores), a \<open>Method\<close> its name, a
  \<open>StatusCode\<close> its number, whose text is three digits. Which byte strings the crate's parsers accept
  is the argument \<open>http_parsers\<close> of the functions that call them. \<open>str::from_utf8\<close> is the standard library's and is
  defined here.
\<close>

section \<open>Data\<close>

record header_value =
  hv_bytes :: bytes
  hv_sensitive :: bool

datatype 'n header =
    Field (hdr_name: 'n) (hdr_value: header_value)
  | Authority bytes
  | Method bytes
  | Scheme bytes
  | Path bytes
  | Protocol bytes
  | Status nat

datatype name =
    NameField bytes | NameAuthority | NameMethod | NameScheme | NamePath | NameProtocol | NameStatus

record http_parsers =
  ht_header_name :: "bytes \<Rightarrow> bool"
  ht_header_value :: "bytes \<Rightarrow> bool"
  ht_method :: "bytes \<Rightarrow> bool"
  ht_status :: "bytes \<Rightarrow> nat option"

definition ascii :: "string \<Rightarrow> bytes" where
  "ascii s = map of_char s"

definition header_value :: "bytes \<Rightarrow> header_value" where
  "header_value bs = \<lparr>hv_bytes = bs, hv_sensitive = False\<rparr>"

text \<open>\<open>StatusCode::as_str\<close>: three decimal digits.\<close>

definition status_str :: "nat \<Rightarrow> bytes" where
  "status_str n = [of_nat (48 + n div 100), of_nat (48 + n div 10 mod 10), of_nat (48 + n mod 10)]"

section \<open>UTF-8\<close>

definition utf8_cont :: "u8 \<Rightarrow> bool" where
  "utf8_cont b \<longleftrightarrow> 0x80 \<le> b \<and> b \<le> 0xBF"

fun utf8_valid :: "bytes \<Rightarrow> bool" where
  "utf8_valid [] = True"
| "utf8_valid (a # bs) =
     (if a < 0x80 then utf8_valid bs
      else case bs of
        [] \<Rightarrow> False
      | b # bs1 \<Rightarrow>
        if 0xC2 \<le> a \<and> a \<le> 0xDF then utf8_cont b \<and> utf8_valid bs1
        else case bs1 of
          [] \<Rightarrow> False
        | c # bs2 \<Rightarrow>
          if a = 0xE0 then 0xA0 \<le> b \<and> b \<le> 0xBF \<and> utf8_cont c \<and> utf8_valid bs2
          else if 0xE1 \<le> a \<and> a \<le> 0xEC \<or> 0xEE \<le> a \<and> a \<le> 0xEF
          then utf8_cont b \<and> utf8_cont c \<and> utf8_valid bs2
          else if a = 0xED then 0x80 \<le> b \<and> b \<le> 0x9F \<and> utf8_cont c \<and> utf8_valid bs2
          else case bs2 of
            [] \<Rightarrow> False
          | d # bs3 \<Rightarrow>
            if a = 0xF0 then 0x90 \<le> b \<and> b \<le> 0xBF \<and> utf8_cont c \<and> utf8_cont d \<and> utf8_valid bs3
            else if 0xF1 \<le> a \<and> a \<le> 0xF3
            then utf8_cont b \<and> utf8_cont c \<and> utf8_cont d \<and> utf8_valid bs3
            else if a = 0xF4 then 0x80 \<le> b \<and> b \<le> 0x8F \<and> utf8_cont c \<and> utf8_cont d \<and> utf8_valid bs3
            else False)"

section \<open>Construction\<close>

definition bytes_str_try_from :: "bytes \<Rightarrow> (bytes, decoder_error) outcome" where
  "bytes_str_try_from bs = (if utf8_valid bs then Ok bs else Err InvalidUtf8)"

definition method_from_bytes :: "http_parsers \<Rightarrow> bytes \<Rightarrow> (bytes, decoder_error) outcome" where
  "method_from_bytes H bs = (if ht_method H bs then Ok bs else Err InvalidUtf8)"

definition header_value_from_bytes :: "http_parsers \<Rightarrow> bytes \<Rightarrow> (header_value, decoder_error) outcome" where
  "header_value_from_bytes H bs = (if ht_header_value H bs then Ok (header_value bs) else Err InvalidUtf8)"

definition header_name_from_lowercase :: "http_parsers \<Rightarrow> bytes \<Rightarrow> (bytes, decoder_error) outcome" where
  "header_name_from_lowercase H bs = (if ht_header_name H bs then Ok bs else Err InvalidUtf8)"

text \<open>\<open>StatusCode::from_bytes(&value)?\<close> converts its error to \<open>InvalidUtf8\<close>.\<close>

definition header_new :: "http_parsers \<Rightarrow> bytes \<Rightarrow> bytes \<Rightarrow> (bytes header, decoder_error) outcome" where
  "header_new H name value =
     (case name of
        [] \<Rightarrow> Err (NeedMore UnexpectedEndOfStream)
      | c # rest \<Rightarrow>
        if c = 0x3A
        then (if rest = ascii ''authority'' then bind_outcome (bytes_str_try_from value) (\<lambda>v. Ok (Authority v))
          else if rest = ascii ''method'' then bind_outcome (method_from_bytes H value) (\<lambda>v. Ok (Method v))
          else if rest = ascii ''scheme'' then bind_outcome (bytes_str_try_from value) (\<lambda>v. Ok (Scheme v))
          else if rest = ascii ''path'' then bind_outcome (bytes_str_try_from value) (\<lambda>v. Ok (Path v))
          else if rest = ascii ''protocol'' then bind_outcome (bytes_str_try_from value) (\<lambda>v. Ok (Protocol v))
          else if rest = ascii ''status''
          then (case ht_status H value of Some s \<Rightarrow> Ok (Status s) | None \<Rightarrow> Err InvalidUtf8)
          else Err InvalidPseudoheader)
        else bind_outcome (header_name_from_lowercase H name) (\<lambda>n.
          bind_outcome (header_value_from_bytes H value) (\<lambda>v. Ok (Field n v))))"

fun header_reify :: "bytes option header \<Rightarrow> (bytes header, header_value) outcome" where
  "header_reify (Field (Some n) v) = Ok (Field n v)"
| "header_reify (Field None v) = Err v"
| "header_reify (Authority v) = Ok (Authority v)"
| "header_reify (Method v) = Ok (Method v)"
| "header_reify (Scheme v) = Ok (Scheme v)"
| "header_reify (Path v) = Ok (Path v)"
| "header_reify (Protocol v) = Ok (Protocol v)"
| "header_reify (Status v) = Ok (Status v)"

definition field_len :: "bytes \<Rightarrow> header_value \<Rightarrow> nat" where
  "field_len name value = 32 + length name + length (hv_bytes value)"

fun header_len :: "bytes header \<Rightarrow> nat" where
  "header_len (Field n v) = field_len n v"
| "header_len (Authority v) = 32 + 10 + length v"
| "header_len (Method v) = 32 + 7 + length v"
| "header_len (Scheme v) = 32 + 7 + length v"
| "header_len (Path v) = 32 + 5 + length v"
| "header_len (Protocol v) = 32 + 9 + length v"
| "header_len (Status _) = 32 + 7 + 3"

fun header_name :: "bytes header \<Rightarrow> name" where
  "header_name (Field n _) = NameField n"
| "header_name (Authority _) = NameAuthority"
| "header_name (Method _) = NameMethod"
| "header_name (Scheme _) = NameScheme"
| "header_name (Path _) = NamePath"
| "header_name (Protocol _) = NameProtocol"
| "header_name (Status _) = NameStatus"

fun value_slice :: "bytes header \<Rightarrow> bytes" where
  "value_slice (Field _ v) = hv_bytes v"
| "value_slice (Authority v) = v"
| "value_slice (Method v) = v"
| "value_slice (Scheme v) = v"
| "value_slice (Path v) = v"
| "value_slice (Protocol v) = v"
| "value_slice (Status n) = status_str n"

fun value_eq :: "bytes header \<Rightarrow> bytes header \<Rightarrow> bool" where
  "value_eq (Field _ a) (Field _ b) \<longleftrightarrow> hv_bytes a = hv_bytes b"
| "value_eq (Authority a) (Authority b) \<longleftrightarrow> a = b"
| "value_eq (Method a) (Method b) \<longleftrightarrow> a = b"
| "value_eq (Scheme a) (Scheme b) \<longleftrightarrow> a = b"
| "value_eq (Path a) (Path b) \<longleftrightarrow> a = b"
| "value_eq (Protocol a) (Protocol b) \<longleftrightarrow> a = b"
| "value_eq (Status a) (Status b) \<longleftrightarrow> a = b"
| "value_eq _ _ \<longleftrightarrow> False"

fun is_sensitive :: "bytes header \<Rightarrow> bool" where
  "is_sensitive (Field _ v) = hv_sensitive v"
| "is_sensitive _ = False"

definition skip_value_names :: "bytes list" where
  "skip_value_names = map ascii [''age'', ''authorization'', ''content-length'', ''etag'',
     ''if-modified-since'', ''if-none-match'', ''location'', ''cookie'', ''set-cookie'']"

fun skip_value_index :: "bytes header \<Rightarrow> bool" where
  "skip_value_index (Field n _) = (n \<in> set skip_value_names)"
| "skip_value_index (Path _) = True"
| "skip_value_index _ = False"

fun into_entry :: "http_parsers \<Rightarrow> name \<Rightarrow> bytes \<Rightarrow> (bytes header, decoder_error) outcome" where
  "into_entry H (NameField n) value = bind_outcome (header_value_from_bytes H value) (\<lambda>v. Ok (Field n v))"
| "into_entry H NameAuthority value = bind_outcome (bytes_str_try_from value) (\<lambda>v. Ok (Authority v))"
| "into_entry H NameMethod value = bind_outcome (method_from_bytes H value) (\<lambda>v. Ok (Method v))"
| "into_entry H NameScheme value = bind_outcome (bytes_str_try_from value) (\<lambda>v. Ok (Scheme v))"
| "into_entry H NamePath value = bind_outcome (bytes_str_try_from value) (\<lambda>v. Ok (Path v))"
| "into_entry H NameProtocol value = bind_outcome (bytes_str_try_from value) (\<lambda>v. Ok (Protocol v))"
| "into_entry H NameStatus value =
     (case ht_status H value of Some s \<Rightarrow> Ok (Status s) | None \<Rightarrow> Err InvalidStatusCode)"

fun name_as_slice :: "name \<Rightarrow> bytes" where
  "name_as_slice (NameField n) = n"
| "name_as_slice NameAuthority = ascii '':authority''"
| "name_as_slice NameMethod = ascii '':method''"
| "name_as_slice NameScheme = ascii '':scheme''"
| "name_as_slice NamePath = ascii '':path''"
| "name_as_slice NameProtocol = ascii '':protocol''"
| "name_as_slice NameStatus = ascii '':status''"

section \<open>The static table\<close>

text \<open>The names and values of \<open>get_static\<close>; the constants of the \<open>http\<close> crate are their documented strings.\<close>

definition static_field :: "string \<Rightarrow> string \<Rightarrow> bytes header" where
  "static_field n v = Field (ascii n) (header_value (ascii v))"

definition static_table :: "bytes header list" where
  "static_table = [
     Authority [],
     Method (ascii ''GET''), Method (ascii ''POST''),
     Path (ascii ''/''), Path (ascii ''/index.html''),
     Scheme (ascii ''http''), Scheme (ascii ''https''),
     Status 200, Status 204, Status 206, Status 304, Status 400, Status 404, Status 500,
     static_field ''accept-charset'' '''',
     static_field ''accept-encoding'' ''gzip, deflate'',
     static_field ''accept-language'' '''',
     static_field ''accept-ranges'' '''',
     static_field ''accept'' '''',
     static_field ''access-control-allow-origin'' '''',
     static_field ''age'' '''',
     static_field ''allow'' '''',
     static_field ''authorization'' '''',
     static_field ''cache-control'' '''',
     static_field ''content-disposition'' '''',
     static_field ''content-encoding'' '''',
     static_field ''content-language'' '''',
     static_field ''content-length'' '''',
     static_field ''content-location'' '''',
     static_field ''content-range'' '''',
     static_field ''content-type'' '''',
     static_field ''cookie'' '''',
     static_field ''date'' '''',
     static_field ''etag'' '''',
     static_field ''expect'' '''',
     static_field ''expires'' '''',
     static_field ''from'' '''',
     static_field ''host'' '''',
     static_field ''if-match'' '''',
     static_field ''if-modified-since'' '''',
     static_field ''if-none-match'' '''',
     static_field ''if-range'' '''',
     static_field ''if-unmodified-since'' '''',
     static_field ''last-modified'' '''',
     static_field ''link'' '''',
     static_field ''location'' '''',
     static_field ''max-forwards'' '''',
     static_field ''proxy-authenticate'' '''',
     static_field ''proxy-authorization'' '''',
     static_field ''range'' '''',
     static_field ''referer'' '''',
     static_field ''refresh'' '''',
     static_field ''retry-after'' '''',
     static_field ''server'' '''',
     static_field ''set-cookie'' '''',
     static_field ''strict-transport-security'' '''',
     static_field ''transfer-encoding'' '''',
     static_field ''user-agent'' '''',
     static_field ''vary'' '''',
     static_field ''via'' '''',
     static_field ''www-authenticate'' '''']"

text \<open>\<open>None\<close> is \<open>unreachable!()\<close>.\<close>

definition get_static :: "nat \<Rightarrow> bytes header option" where
  "get_static idx = (if 1 \<le> idx \<and> idx \<le> 61 then Some (static_table ! (idx - 1)) else None)"

lemma length_static_table [simp]: "length static_table = 61"
  by (simp add: static_table_def)

lemma header_len_ge_32: "32 \<le> header_len h"
  by (cases h) (simp_all add: field_len_def)

lemma ascii_length [simp]: "length (ascii s) = length s"
  by (simp add: ascii_def)

text \<open>A header's size is its name and its value and 32 bytes of overhead.\<close>

lemma header_len_eq: "header_len h = 32 + length (name_as_slice (header_name h)) + length (value_slice h)"
  by (cases h) (simp_all add: field_len_def status_str_def)

lemma header_new_no_panic [simp]: "header_new H n v \<noteq> Panic"
  by (auto simp: header_new_def bytes_str_try_from_def method_from_bytes_def header_name_from_lowercase_def
      header_value_from_bytes_def bind_outcome_Panic_iff split: list.splits option.splits if_splits)

lemma into_entry_no_panic [simp]: "into_entry H n v \<noteq> Panic"
  by (cases n) (auto simp: bytes_str_try_from_def method_from_bytes_def
      header_value_from_bytes_def bind_outcome_Panic_iff split: option.splits)

end
