(* ===== verification/Huffman_Table.thy ===== *)
theory Huffman_Table
  imports H2_Prelude
begin

text \<open>
  The generated tables of the HPACK Huffman code (\<open>src/hpack/huffman/table.rs\<close>): the code and the code
  length of every byte, and the byte-at-a-time decoding table of 15 times 256 entries.
\<close>

definition ENCODE_CODES :: "u32 list" where
  "ENCODE_CODES = [
    0x1ff8, 0x7fffd8, 0xfffffe2, 0xfffffe3, 0xfffffe4, 0xfffffe5, 0xfffffe6, 0xfffffe7, 0xfffffe8,
    0xffffea, 0x3ffffffc, 0xfffffe9, 0xfffffea, 0x3ffffffd, 0xfffffeb, 0xfffffec, 0xfffffed,
    0xfffffee, 0xfffffef, 0xffffff0, 0xffffff1, 0xffffff2, 0x3ffffffe, 0xffffff3, 0xffffff4,
    0xffffff5, 0xffffff6, 0xffffff7, 0xffffff8, 0xffffff9, 0xffffffa, 0xffffffb, 0x14, 0x3f8,
    0x3f9, 0xffa, 0x1ff9, 0x15, 0xf8, 0x7fa, 0x3fa, 0x3fb, 0xf9, 0x7fb, 0xfa, 0x16, 0x17, 0x18,
    0x0, 0x1, 0x2, 0x19, 0x1a, 0x1b, 0x1c, 0x1d, 0x1e, 0x1f, 0x5c, 0xfb, 0x7ffc, 0x20, 0xffb,
    0x3fc, 0x1ffa, 0x21, 0x5d, 0x5e, 0x5f, 0x60, 0x61, 0x62, 0x63, 0x64, 0x65, 0x66, 0x67, 0x68,
    0x69, 0x6a, 0x6b, 0x6c, 0x6d, 0x6e, 0x6f, 0x70, 0x71, 0x72, 0xfc, 0x73, 0xfd, 0x1ffb, 0x7fff0,
    0x1ffc, 0x3ffc, 0x22, 0x7ffd, 0x3, 0x23, 0x4, 0x24, 0x5, 0x25, 0x26, 0x27, 0x6, 0x74, 0x75,
    0x28, 0x29, 0x2a, 0x7, 0x2b, 0x76, 0x2c, 0x8, 0x9, 0x2d, 0x77, 0x78, 0x79, 0x7a, 0x7b, 0x7ffe,
    0x7fc, 0x3ffd, 0x1ffd, 0xffffffc, 0xfffe6, 0x3fffd2, 0xfffe7, 0xfffe8, 0x3fffd3, 0x3fffd4,
    0x3fffd5, 0x7fffd9, 0x3fffd6, 0x7fffda, 0x7fffdb, 0x7fffdc, 0x7fffdd, 0x7fffde, 0xffffeb,
    0x7fffdf, 0xffffec, 0xffffed, 0x3fffd7, 0x7fffe0, 0xffffee, 0x7fffe1, 0x7fffe2, 0x7fffe3,
    0x7fffe4, 0x1fffdc, 0x3fffd8, 0x7fffe5, 0x3fffd9, 0x7fffe6, 0x7fffe7, 0xffffef, 0x3fffda,
    0x1fffdd, 0xfffe9, 0x3fffdb, 0x3fffdc, 0x7fffe8, 0x7fffe9, 0x1fffde, 0x7fffea, 0x3fffdd,
    0x3fffde, 0xfffff0, 0x1fffdf, 0x3fffdf, 0x7fffeb, 0x7fffec, 0x1fffe0, 0x1fffe1, 0x3fffe0,
    0x1fffe2, 0x7fffed, 0x3fffe1, 0x7fffee, 0x7fffef, 0xfffea, 0x3fffe2, 0x3fffe3, 0x3fffe4,
    0x7ffff0, 0x3fffe5, 0x3fffe6, 0x7ffff1, 0x3ffffe0, 0x3ffffe1, 0xfffeb, 0x7fff1, 0x3fffe7,
    0x7ffff2, 0x3fffe8, 0x1ffffec, 0x3ffffe2, 0x3ffffe3, 0x3ffffe4, 0x7ffffde, 0x7ffffdf,
    0x3ffffe5, 0xfffff1, 0x1ffffed, 0x7fff2, 0x1fffe3, 0x3ffffe6, 0x7ffffe0, 0x7ffffe1, 0x3ffffe7,
    0x7ffffe2, 0xfffff2, 0x1fffe4, 0x1fffe5, 0x3ffffe8, 0x3ffffe9, 0xffffffd, 0x7ffffe3, 0x7ffffe4,
    0x7ffffe5, 0xfffec, 0xfffff3, 0xfffed, 0x1fffe6, 0x3fffe9, 0x1fffe7, 0x1fffe8, 0x7ffff3,
    0x3fffea, 0x3fffeb, 0x1ffffee, 0x1ffffef, 0xfffff4, 0xfffff5, 0x3ffffea, 0x7ffff4, 0x3ffffeb,
    0x7ffffe6, 0x3ffffec, 0x3ffffed, 0x7ffffe7, 0x7ffffe8, 0x7ffffe9, 0x7ffffea, 0x7ffffeb,
    0xffffffe, 0x7ffffec, 0x7ffffed, 0x7ffffee, 0x7ffffef, 0x7fffff0, 0x3ffffee]"

definition ENCODE_CODE_LENGTHS :: "u8 list" where
  "ENCODE_CODE_LENGTHS = [
    13, 23, 28, 28, 28, 28, 28, 28, 28, 24, 30, 28, 28, 30, 28, 28, 28, 28, 28, 28, 28, 28, 30, 28,
    28, 28, 28, 28, 28, 28, 28, 28, 6, 10, 10, 12, 13, 6, 8, 11, 10, 10, 8, 11, 8, 6, 6, 6, 5, 5,
    5, 6, 6, 6, 6, 6, 6, 6, 7, 8, 15, 6, 12, 10, 13, 6, 7, 7, 7, 7, 7, 7, 7, 7, 7, 7, 7, 7, 7, 7,
    7, 7, 7, 7, 7, 7, 7, 7, 8, 7, 8, 13, 19, 13, 14, 6, 15, 5, 6, 5, 6, 5, 6, 6, 6, 5, 7, 7, 6, 6,
    6, 5, 6, 7, 6, 5, 5, 6, 7, 7, 7, 7, 7, 15, 11, 14, 13, 28, 20, 22, 20, 20, 22, 22, 22, 23, 22,
    23, 23, 23, 23, 23, 24, 23, 24, 24, 22, 23, 24, 23, 23, 23, 23, 21, 22, 23, 22, 23, 23, 24, 22,
    21, 20, 22, 22, 23, 23, 21, 23, 22, 22, 24, 21, 22, 23, 23, 21, 21, 22, 21, 23, 22, 23, 23, 20,
    22, 22, 22, 23, 22, 22, 23, 26, 26, 20, 19, 22, 23, 22, 25, 26, 26, 26, 27, 27, 26, 24, 25, 19,
    21, 26, 27, 27, 26, 27, 24, 21, 21, 26, 26, 28, 27, 27, 27, 20, 24, 20, 21, 22, 21, 21, 23, 22,
    22, 25, 25, 24, 24, 26, 23, 26, 27, 26, 26, 27, 27, 27, 27, 27, 28, 27, 27, 27, 27, 27, 26]"

text \<open>A branch has bit 15 set and its table index in bits 8 to 14. A leaf stores the number of
  consumed bits in its high byte and the decoded byte in its low byte. One row per table.\<close>

definition decode_row_0 :: "u16 list" where
  "decode_row_0 = [
    0x530, 0x530, 0x530, 0x530, 0x530, 0x530, 0x530, 0x530, 0x531, 0x531, 0x531, 0x531, 0x531,
    0x531, 0x531, 0x531, 0x532, 0x532, 0x532, 0x532, 0x532, 0x532, 0x532, 0x532, 0x561, 0x561,
    0x561, 0x561, 0x561, 0x561, 0x561, 0x561, 0x563, 0x563, 0x563, 0x563, 0x563, 0x563, 0x563,
    0x563, 0x565, 0x565, 0x565, 0x565, 0x565, 0x565, 0x565, 0x565, 0x569, 0x569, 0x569, 0x569,
    0x569, 0x569, 0x569, 0x569, 0x56f, 0x56f, 0x56f, 0x56f, 0x56f, 0x56f, 0x56f, 0x56f, 0x573,
    0x573, 0x573, 0x573, 0x573, 0x573, 0x573, 0x573, 0x574, 0x574, 0x574, 0x574, 0x574, 0x574,
    0x574, 0x574, 0x620, 0x620, 0x620, 0x620, 0x625, 0x625, 0x625, 0x625, 0x62d, 0x62d, 0x62d,
    0x62d, 0x62e, 0x62e, 0x62e, 0x62e, 0x62f, 0x62f, 0x62f, 0x62f, 0x633, 0x633, 0x633, 0x633,
    0x634, 0x634, 0x634, 0x634, 0x635, 0x635, 0x635, 0x635, 0x636, 0x636, 0x636, 0x636, 0x637,
    0x637, 0x637, 0x637, 0x638, 0x638, 0x638, 0x638, 0x639, 0x639, 0x639, 0x639, 0x63d, 0x63d,
    0x63d, 0x63d, 0x641, 0x641, 0x641, 0x641, 0x65f, 0x65f, 0x65f, 0x65f, 0x662, 0x662, 0x662,
    0x662, 0x664, 0x664, 0x664, 0x664, 0x666, 0x666, 0x666, 0x666, 0x667, 0x667, 0x667, 0x667,
    0x668, 0x668, 0x668, 0x668, 0x66c, 0x66c, 0x66c, 0x66c, 0x66d, 0x66d, 0x66d, 0x66d, 0x66e,
    0x66e, 0x66e, 0x66e, 0x670, 0x670, 0x670, 0x670, 0x672, 0x672, 0x672, 0x672, 0x675, 0x675,
    0x675, 0x675, 0x73a, 0x73a, 0x742, 0x742, 0x743, 0x743, 0x744, 0x744, 0x745, 0x745, 0x746,
    0x746, 0x747, 0x747, 0x748, 0x748, 0x749, 0x749, 0x74a, 0x74a, 0x74b, 0x74b, 0x74c, 0x74c,
    0x74d, 0x74d, 0x74e, 0x74e, 0x74f, 0x74f, 0x750, 0x750, 0x751, 0x751, 0x752, 0x752, 0x753,
    0x753, 0x754, 0x754, 0x755, 0x755, 0x756, 0x756, 0x757, 0x757, 0x759, 0x759, 0x76a, 0x76a,
    0x76b, 0x76b, 0x771, 0x771, 0x776, 0x776, 0x777, 0x777, 0x778, 0x778, 0x779, 0x779, 0x77a,
    0x77a, 0x826, 0x82a, 0x82c, 0x83b, 0x858, 0x85a, 0x8500, 0x8100]"

definition decode_row_1 :: "u16 list" where
  "decode_row_1 = [
    0x23f, 0x23f, 0x23f, 0x23f, 0x23f, 0x23f, 0x23f, 0x23f, 0x23f, 0x23f, 0x23f, 0x23f, 0x23f,
    0x23f, 0x23f, 0x23f, 0x23f, 0x23f, 0x23f, 0x23f, 0x23f, 0x23f, 0x23f, 0x23f, 0x23f, 0x23f,
    0x23f, 0x23f, 0x23f, 0x23f, 0x23f, 0x23f, 0x23f, 0x23f, 0x23f, 0x23f, 0x23f, 0x23f, 0x23f,
    0x23f, 0x23f, 0x23f, 0x23f, 0x23f, 0x23f, 0x23f, 0x23f, 0x23f, 0x23f, 0x23f, 0x23f, 0x23f,
    0x23f, 0x23f, 0x23f, 0x23f, 0x23f, 0x23f, 0x23f, 0x23f, 0x23f, 0x23f, 0x23f, 0x23f, 0x327,
    0x327, 0x327, 0x327, 0x327, 0x327, 0x327, 0x327, 0x327, 0x327, 0x327, 0x327, 0x327, 0x327,
    0x327, 0x327, 0x327, 0x327, 0x327, 0x327, 0x327, 0x327, 0x327, 0x327, 0x327, 0x327, 0x327,
    0x327, 0x327, 0x327, 0x327, 0x327, 0x32b, 0x32b, 0x32b, 0x32b, 0x32b, 0x32b, 0x32b, 0x32b,
    0x32b, 0x32b, 0x32b, 0x32b, 0x32b, 0x32b, 0x32b, 0x32b, 0x32b, 0x32b, 0x32b, 0x32b, 0x32b,
    0x32b, 0x32b, 0x32b, 0x32b, 0x32b, 0x32b, 0x32b, 0x32b, 0x32b, 0x32b, 0x32b, 0x37c, 0x37c,
    0x37c, 0x37c, 0x37c, 0x37c, 0x37c, 0x37c, 0x37c, 0x37c, 0x37c, 0x37c, 0x37c, 0x37c, 0x37c,
    0x37c, 0x37c, 0x37c, 0x37c, 0x37c, 0x37c, 0x37c, 0x37c, 0x37c, 0x37c, 0x37c, 0x37c, 0x37c,
    0x37c, 0x37c, 0x37c, 0x37c, 0x423, 0x423, 0x423, 0x423, 0x423, 0x423, 0x423, 0x423, 0x423,
    0x423, 0x423, 0x423, 0x423, 0x423, 0x423, 0x423, 0x43e, 0x43e, 0x43e, 0x43e, 0x43e, 0x43e,
    0x43e, 0x43e, 0x43e, 0x43e, 0x43e, 0x43e, 0x43e, 0x43e, 0x43e, 0x43e, 0x500, 0x500, 0x500,
    0x500, 0x500, 0x500, 0x500, 0x500, 0x524, 0x524, 0x524, 0x524, 0x524, 0x524, 0x524, 0x524,
    0x540, 0x540, 0x540, 0x540, 0x540, 0x540, 0x540, 0x540, 0x55b, 0x55b, 0x55b, 0x55b, 0x55b,
    0x55b, 0x55b, 0x55b, 0x55d, 0x55d, 0x55d, 0x55d, 0x55d, 0x55d, 0x55d, 0x55d, 0x57e, 0x57e,
    0x57e, 0x57e, 0x57e, 0x57e, 0x57e, 0x57e, 0x65e, 0x65e, 0x65e, 0x65e, 0x67d, 0x67d, 0x67d,
    0x67d, 0x73c, 0x73c, 0x760, 0x760, 0x77b, 0x77b, 0x8600, 0x8200]"

definition decode_row_2 :: "u16 list" where
  "decode_row_2 = [
    0x5b0, 0x5b0, 0x5b0, 0x5b0, 0x5b0, 0x5b0, 0x5b0, 0x5b0, 0x5b1, 0x5b1, 0x5b1, 0x5b1, 0x5b1,
    0x5b1, 0x5b1, 0x5b1, 0x5b3, 0x5b3, 0x5b3, 0x5b3, 0x5b3, 0x5b3, 0x5b3, 0x5b3, 0x5d1, 0x5d1,
    0x5d1, 0x5d1, 0x5d1, 0x5d1, 0x5d1, 0x5d1, 0x5d8, 0x5d8, 0x5d8, 0x5d8, 0x5d8, 0x5d8, 0x5d8,
    0x5d8, 0x5d9, 0x5d9, 0x5d9, 0x5d9, 0x5d9, 0x5d9, 0x5d9, 0x5d9, 0x5e3, 0x5e3, 0x5e3, 0x5e3,
    0x5e3, 0x5e3, 0x5e3, 0x5e3, 0x5e5, 0x5e5, 0x5e5, 0x5e5, 0x5e5, 0x5e5, 0x5e5, 0x5e5, 0x5e6,
    0x5e6, 0x5e6, 0x5e6, 0x5e6, 0x5e6, 0x5e6, 0x5e6, 0x681, 0x681, 0x681, 0x681, 0x684, 0x684,
    0x684, 0x684, 0x685, 0x685, 0x685, 0x685, 0x686, 0x686, 0x686, 0x686, 0x688, 0x688, 0x688,
    0x688, 0x692, 0x692, 0x692, 0x692, 0x69a, 0x69a, 0x69a, 0x69a, 0x69c, 0x69c, 0x69c, 0x69c,
    0x6a0, 0x6a0, 0x6a0, 0x6a0, 0x6a3, 0x6a3, 0x6a3, 0x6a3, 0x6a4, 0x6a4, 0x6a4, 0x6a4, 0x6a9,
    0x6a9, 0x6a9, 0x6a9, 0x6aa, 0x6aa, 0x6aa, 0x6aa, 0x6ad, 0x6ad, 0x6ad, 0x6ad, 0x6b2, 0x6b2,
    0x6b2, 0x6b2, 0x6b5, 0x6b5, 0x6b5, 0x6b5, 0x6b9, 0x6b9, 0x6b9, 0x6b9, 0x6ba, 0x6ba, 0x6ba,
    0x6ba, 0x6bb, 0x6bb, 0x6bb, 0x6bb, 0x6bd, 0x6bd, 0x6bd, 0x6bd, 0x6be, 0x6be, 0x6be, 0x6be,
    0x6c4, 0x6c4, 0x6c4, 0x6c4, 0x6c6, 0x6c6, 0x6c6, 0x6c6, 0x6e4, 0x6e4, 0x6e4, 0x6e4, 0x6e8,
    0x6e8, 0x6e8, 0x6e8, 0x6e9, 0x6e9, 0x6e9, 0x6e9, 0x701, 0x701, 0x787, 0x787, 0x789, 0x789,
    0x78a, 0x78a, 0x78b, 0x78b, 0x78c, 0x78c, 0x78d, 0x78d, 0x78f, 0x78f, 0x793, 0x793, 0x795,
    0x795, 0x796, 0x796, 0x797, 0x797, 0x798, 0x798, 0x79b, 0x79b, 0x79d, 0x79d, 0x79e, 0x79e,
    0x7a5, 0x7a5, 0x7a6, 0x7a6, 0x7a8, 0x7a8, 0x7ae, 0x7ae, 0x7af, 0x7af, 0x7b4, 0x7b4, 0x7b6,
    0x7b6, 0x7b7, 0x7b7, 0x7bc, 0x7bc, 0x7bf, 0x7bf, 0x7c5, 0x7c5, 0x7e7, 0x7e7, 0x7ef, 0x7ef,
    0x809, 0x88e, 0x890, 0x891, 0x894, 0x89f, 0x8ab, 0x8ce, 0x8d7, 0x8e1, 0x8ec, 0x8ed, 0x8800,
    0x8d00, 0x8700, 0x8900, 0x8c00, 0x8a00, 0x8b00, 0x8e00, 0x8300, 0x8400]"

definition decode_row_3 :: "u16 list" where
  "decode_row_3 = [
    0x3fe, 0x3fe, 0x3fe, 0x3fe, 0x3fe, 0x3fe, 0x3fe, 0x3fe, 0x3fe, 0x3fe, 0x3fe, 0x3fe, 0x3fe,
    0x3fe, 0x3fe, 0x3fe, 0x3fe, 0x3fe, 0x3fe, 0x3fe, 0x3fe, 0x3fe, 0x3fe, 0x3fe, 0x3fe, 0x3fe,
    0x3fe, 0x3fe, 0x3fe, 0x3fe, 0x3fe, 0x3fe, 0x402, 0x402, 0x402, 0x402, 0x402, 0x402, 0x402,
    0x402, 0x402, 0x402, 0x402, 0x402, 0x402, 0x402, 0x402, 0x402, 0x403, 0x403, 0x403, 0x403,
    0x403, 0x403, 0x403, 0x403, 0x403, 0x403, 0x403, 0x403, 0x403, 0x403, 0x403, 0x403, 0x404,
    0x404, 0x404, 0x404, 0x404, 0x404, 0x404, 0x404, 0x404, 0x404, 0x404, 0x404, 0x404, 0x404,
    0x404, 0x404, 0x405, 0x405, 0x405, 0x405, 0x405, 0x405, 0x405, 0x405, 0x405, 0x405, 0x405,
    0x405, 0x405, 0x405, 0x405, 0x405, 0x406, 0x406, 0x406, 0x406, 0x406, 0x406, 0x406, 0x406,
    0x406, 0x406, 0x406, 0x406, 0x406, 0x406, 0x406, 0x406, 0x407, 0x407, 0x407, 0x407, 0x407,
    0x407, 0x407, 0x407, 0x407, 0x407, 0x407, 0x407, 0x407, 0x407, 0x407, 0x407, 0x408, 0x408,
    0x408, 0x408, 0x408, 0x408, 0x408, 0x408, 0x408, 0x408, 0x408, 0x408, 0x408, 0x408, 0x408,
    0x408, 0x40b, 0x40b, 0x40b, 0x40b, 0x40b, 0x40b, 0x40b, 0x40b, 0x40b, 0x40b, 0x40b, 0x40b,
    0x40b, 0x40b, 0x40b, 0x40b, 0x40c, 0x40c, 0x40c, 0x40c, 0x40c, 0x40c, 0x40c, 0x40c, 0x40c,
    0x40c, 0x40c, 0x40c, 0x40c, 0x40c, 0x40c, 0x40c, 0x40e, 0x40e, 0x40e, 0x40e, 0x40e, 0x40e,
    0x40e, 0x40e, 0x40e, 0x40e, 0x40e, 0x40e, 0x40e, 0x40e, 0x40e, 0x40e, 0x40f, 0x40f, 0x40f,
    0x40f, 0x40f, 0x40f, 0x40f, 0x40f, 0x40f, 0x40f, 0x40f, 0x40f, 0x40f, 0x40f, 0x40f, 0x40f,
    0x410, 0x410, 0x410, 0x410, 0x410, 0x410, 0x410, 0x410, 0x410, 0x410, 0x410, 0x410, 0x410,
    0x410, 0x410, 0x410, 0x411, 0x411, 0x411, 0x411, 0x411, 0x411, 0x411, 0x411, 0x411, 0x411,
    0x411, 0x411, 0x411, 0x411, 0x411, 0x411, 0x412, 0x412, 0x412, 0x412, 0x412, 0x412, 0x412,
    0x412, 0x412, 0x412, 0x412, 0x412, 0x412, 0x412, 0x412, 0x412]"

definition decode_row_4 :: "u16 list" where
  "decode_row_4 = [
    0x413, 0x413, 0x413, 0x413, 0x413, 0x413, 0x413, 0x413, 0x413, 0x413, 0x413, 0x413, 0x413,
    0x413, 0x413, 0x413, 0x414, 0x414, 0x414, 0x414, 0x414, 0x414, 0x414, 0x414, 0x414, 0x414,
    0x414, 0x414, 0x414, 0x414, 0x414, 0x414, 0x415, 0x415, 0x415, 0x415, 0x415, 0x415, 0x415,
    0x415, 0x415, 0x415, 0x415, 0x415, 0x415, 0x415, 0x415, 0x415, 0x417, 0x417, 0x417, 0x417,
    0x417, 0x417, 0x417, 0x417, 0x417, 0x417, 0x417, 0x417, 0x417, 0x417, 0x417, 0x417, 0x418,
    0x418, 0x418, 0x418, 0x418, 0x418, 0x418, 0x418, 0x418, 0x418, 0x418, 0x418, 0x418, 0x418,
    0x418, 0x418, 0x419, 0x419, 0x419, 0x419, 0x419, 0x419, 0x419, 0x419, 0x419, 0x419, 0x419,
    0x419, 0x419, 0x419, 0x419, 0x419, 0x41a, 0x41a, 0x41a, 0x41a, 0x41a, 0x41a, 0x41a, 0x41a,
    0x41a, 0x41a, 0x41a, 0x41a, 0x41a, 0x41a, 0x41a, 0x41a, 0x41b, 0x41b, 0x41b, 0x41b, 0x41b,
    0x41b, 0x41b, 0x41b, 0x41b, 0x41b, 0x41b, 0x41b, 0x41b, 0x41b, 0x41b, 0x41b, 0x41c, 0x41c,
    0x41c, 0x41c, 0x41c, 0x41c, 0x41c, 0x41c, 0x41c, 0x41c, 0x41c, 0x41c, 0x41c, 0x41c, 0x41c,
    0x41c, 0x41d, 0x41d, 0x41d, 0x41d, 0x41d, 0x41d, 0x41d, 0x41d, 0x41d, 0x41d, 0x41d, 0x41d,
    0x41d, 0x41d, 0x41d, 0x41d, 0x41e, 0x41e, 0x41e, 0x41e, 0x41e, 0x41e, 0x41e, 0x41e, 0x41e,
    0x41e, 0x41e, 0x41e, 0x41e, 0x41e, 0x41e, 0x41e, 0x41f, 0x41f, 0x41f, 0x41f, 0x41f, 0x41f,
    0x41f, 0x41f, 0x41f, 0x41f, 0x41f, 0x41f, 0x41f, 0x41f, 0x41f, 0x41f, 0x47f, 0x47f, 0x47f,
    0x47f, 0x47f, 0x47f, 0x47f, 0x47f, 0x47f, 0x47f, 0x47f, 0x47f, 0x47f, 0x47f, 0x47f, 0x47f,
    0x4dc, 0x4dc, 0x4dc, 0x4dc, 0x4dc, 0x4dc, 0x4dc, 0x4dc, 0x4dc, 0x4dc, 0x4dc, 0x4dc, 0x4dc,
    0x4dc, 0x4dc, 0x4dc, 0x4f9, 0x4f9, 0x4f9, 0x4f9, 0x4f9, 0x4f9, 0x4f9, 0x4f9, 0x4f9, 0x4f9,
    0x4f9, 0x4f9, 0x4f9, 0x4f9, 0x4f9, 0x4f9, 0x60a, 0x60a, 0x60a, 0x60a, 0x60d, 0x60d, 0x60d,
    0x60d, 0x616, 0x616, 0x616, 0x616, 0x80ff, 0x80ff, 0x80ff, 0x80ff]"

definition decode_row_5 :: "u16 list" where
  "decode_row_5 = [
    0x221, 0x221, 0x221, 0x221, 0x221, 0x221, 0x221, 0x221, 0x221, 0x221, 0x221, 0x221, 0x221,
    0x221, 0x221, 0x221, 0x221, 0x221, 0x221, 0x221, 0x221, 0x221, 0x221, 0x221, 0x221, 0x221,
    0x221, 0x221, 0x221, 0x221, 0x221, 0x221, 0x221, 0x221, 0x221, 0x221, 0x221, 0x221, 0x221,
    0x221, 0x221, 0x221, 0x221, 0x221, 0x221, 0x221, 0x221, 0x221, 0x221, 0x221, 0x221, 0x221,
    0x221, 0x221, 0x221, 0x221, 0x221, 0x221, 0x221, 0x221, 0x221, 0x221, 0x221, 0x221, 0x222,
    0x222, 0x222, 0x222, 0x222, 0x222, 0x222, 0x222, 0x222, 0x222, 0x222, 0x222, 0x222, 0x222,
    0x222, 0x222, 0x222, 0x222, 0x222, 0x222, 0x222, 0x222, 0x222, 0x222, 0x222, 0x222, 0x222,
    0x222, 0x222, 0x222, 0x222, 0x222, 0x222, 0x222, 0x222, 0x222, 0x222, 0x222, 0x222, 0x222,
    0x222, 0x222, 0x222, 0x222, 0x222, 0x222, 0x222, 0x222, 0x222, 0x222, 0x222, 0x222, 0x222,
    0x222, 0x222, 0x222, 0x222, 0x222, 0x222, 0x222, 0x222, 0x222, 0x222, 0x222, 0x228, 0x228,
    0x228, 0x228, 0x228, 0x228, 0x228, 0x228, 0x228, 0x228, 0x228, 0x228, 0x228, 0x228, 0x228,
    0x228, 0x228, 0x228, 0x228, 0x228, 0x228, 0x228, 0x228, 0x228, 0x228, 0x228, 0x228, 0x228,
    0x228, 0x228, 0x228, 0x228, 0x228, 0x228, 0x228, 0x228, 0x228, 0x228, 0x228, 0x228, 0x228,
    0x228, 0x228, 0x228, 0x228, 0x228, 0x228, 0x228, 0x228, 0x228, 0x228, 0x228, 0x228, 0x228,
    0x228, 0x228, 0x228, 0x228, 0x228, 0x228, 0x228, 0x228, 0x228, 0x228, 0x229, 0x229, 0x229,
    0x229, 0x229, 0x229, 0x229, 0x229, 0x229, 0x229, 0x229, 0x229, 0x229, 0x229, 0x229, 0x229,
    0x229, 0x229, 0x229, 0x229, 0x229, 0x229, 0x229, 0x229, 0x229, 0x229, 0x229, 0x229, 0x229,
    0x229, 0x229, 0x229, 0x229, 0x229, 0x229, 0x229, 0x229, 0x229, 0x229, 0x229, 0x229, 0x229,
    0x229, 0x229, 0x229, 0x229, 0x229, 0x229, 0x229, 0x229, 0x229, 0x229, 0x229, 0x229, 0x229,
    0x229, 0x229, 0x229, 0x229, 0x229, 0x229, 0x229, 0x229, 0x229]"

definition decode_row_6 :: "u16 list" where
  "decode_row_6 = [
    0x35c, 0x35c, 0x35c, 0x35c, 0x35c, 0x35c, 0x35c, 0x35c, 0x35c, 0x35c, 0x35c, 0x35c, 0x35c,
    0x35c, 0x35c, 0x35c, 0x35c, 0x35c, 0x35c, 0x35c, 0x35c, 0x35c, 0x35c, 0x35c, 0x35c, 0x35c,
    0x35c, 0x35c, 0x35c, 0x35c, 0x35c, 0x35c, 0x3c3, 0x3c3, 0x3c3, 0x3c3, 0x3c3, 0x3c3, 0x3c3,
    0x3c3, 0x3c3, 0x3c3, 0x3c3, 0x3c3, 0x3c3, 0x3c3, 0x3c3, 0x3c3, 0x3c3, 0x3c3, 0x3c3, 0x3c3,
    0x3c3, 0x3c3, 0x3c3, 0x3c3, 0x3c3, 0x3c3, 0x3c3, 0x3c3, 0x3c3, 0x3c3, 0x3c3, 0x3c3, 0x3d0,
    0x3d0, 0x3d0, 0x3d0, 0x3d0, 0x3d0, 0x3d0, 0x3d0, 0x3d0, 0x3d0, 0x3d0, 0x3d0, 0x3d0, 0x3d0,
    0x3d0, 0x3d0, 0x3d0, 0x3d0, 0x3d0, 0x3d0, 0x3d0, 0x3d0, 0x3d0, 0x3d0, 0x3d0, 0x3d0, 0x3d0,
    0x3d0, 0x3d0, 0x3d0, 0x3d0, 0x3d0, 0x480, 0x480, 0x480, 0x480, 0x480, 0x480, 0x480, 0x480,
    0x480, 0x480, 0x480, 0x480, 0x480, 0x480, 0x480, 0x480, 0x482, 0x482, 0x482, 0x482, 0x482,
    0x482, 0x482, 0x482, 0x482, 0x482, 0x482, 0x482, 0x482, 0x482, 0x482, 0x482, 0x483, 0x483,
    0x483, 0x483, 0x483, 0x483, 0x483, 0x483, 0x483, 0x483, 0x483, 0x483, 0x483, 0x483, 0x483,
    0x483, 0x4a2, 0x4a2, 0x4a2, 0x4a2, 0x4a2, 0x4a2, 0x4a2, 0x4a2, 0x4a2, 0x4a2, 0x4a2, 0x4a2,
    0x4a2, 0x4a2, 0x4a2, 0x4a2, 0x4b8, 0x4b8, 0x4b8, 0x4b8, 0x4b8, 0x4b8, 0x4b8, 0x4b8, 0x4b8,
    0x4b8, 0x4b8, 0x4b8, 0x4b8, 0x4b8, 0x4b8, 0x4b8, 0x4c2, 0x4c2, 0x4c2, 0x4c2, 0x4c2, 0x4c2,
    0x4c2, 0x4c2, 0x4c2, 0x4c2, 0x4c2, 0x4c2, 0x4c2, 0x4c2, 0x4c2, 0x4c2, 0x4e0, 0x4e0, 0x4e0,
    0x4e0, 0x4e0, 0x4e0, 0x4e0, 0x4e0, 0x4e0, 0x4e0, 0x4e0, 0x4e0, 0x4e0, 0x4e0, 0x4e0, 0x4e0,
    0x4e2, 0x4e2, 0x4e2, 0x4e2, 0x4e2, 0x4e2, 0x4e2, 0x4e2, 0x4e2, 0x4e2, 0x4e2, 0x4e2, 0x4e2,
    0x4e2, 0x4e2, 0x4e2, 0x599, 0x599, 0x599, 0x599, 0x599, 0x599, 0x599, 0x599, 0x5a1, 0x5a1,
    0x5a1, 0x5a1, 0x5a1, 0x5a1, 0x5a1, 0x5a1, 0x5a7, 0x5a7, 0x5a7, 0x5a7, 0x5a7, 0x5a7, 0x5a7,
    0x5a7, 0x5ac, 0x5ac, 0x5ac, 0x5ac, 0x5ac, 0x5ac, 0x5ac, 0x5ac]"

definition decode_row_7 :: "u16 list" where
  "decode_row_7 = [
    0x2c0, 0x2c0, 0x2c0, 0x2c0, 0x2c0, 0x2c0, 0x2c0, 0x2c0, 0x2c0, 0x2c0, 0x2c0, 0x2c0, 0x2c0,
    0x2c0, 0x2c0, 0x2c0, 0x2c0, 0x2c0, 0x2c0, 0x2c0, 0x2c0, 0x2c0, 0x2c0, 0x2c0, 0x2c0, 0x2c0,
    0x2c0, 0x2c0, 0x2c0, 0x2c0, 0x2c0, 0x2c0, 0x2c0, 0x2c0, 0x2c0, 0x2c0, 0x2c0, 0x2c0, 0x2c0,
    0x2c0, 0x2c0, 0x2c0, 0x2c0, 0x2c0, 0x2c0, 0x2c0, 0x2c0, 0x2c0, 0x2c0, 0x2c0, 0x2c0, 0x2c0,
    0x2c0, 0x2c0, 0x2c0, 0x2c0, 0x2c0, 0x2c0, 0x2c0, 0x2c0, 0x2c0, 0x2c0, 0x2c0, 0x2c0, 0x2c1,
    0x2c1, 0x2c1, 0x2c1, 0x2c1, 0x2c1, 0x2c1, 0x2c1, 0x2c1, 0x2c1, 0x2c1, 0x2c1, 0x2c1, 0x2c1,
    0x2c1, 0x2c1, 0x2c1, 0x2c1, 0x2c1, 0x2c1, 0x2c1, 0x2c1, 0x2c1, 0x2c1, 0x2c1, 0x2c1, 0x2c1,
    0x2c1, 0x2c1, 0x2c1, 0x2c1, 0x2c1, 0x2c1, 0x2c1, 0x2c1, 0x2c1, 0x2c1, 0x2c1, 0x2c1, 0x2c1,
    0x2c1, 0x2c1, 0x2c1, 0x2c1, 0x2c1, 0x2c1, 0x2c1, 0x2c1, 0x2c1, 0x2c1, 0x2c1, 0x2c1, 0x2c1,
    0x2c1, 0x2c1, 0x2c1, 0x2c1, 0x2c1, 0x2c1, 0x2c1, 0x2c1, 0x2c1, 0x2c1, 0x2c1, 0x2c8, 0x2c8,
    0x2c8, 0x2c8, 0x2c8, 0x2c8, 0x2c8, 0x2c8, 0x2c8, 0x2c8, 0x2c8, 0x2c8, 0x2c8, 0x2c8, 0x2c8,
    0x2c8, 0x2c8, 0x2c8, 0x2c8, 0x2c8, 0x2c8, 0x2c8, 0x2c8, 0x2c8, 0x2c8, 0x2c8, 0x2c8, 0x2c8,
    0x2c8, 0x2c8, 0x2c8, 0x2c8, 0x2c8, 0x2c8, 0x2c8, 0x2c8, 0x2c8, 0x2c8, 0x2c8, 0x2c8, 0x2c8,
    0x2c8, 0x2c8, 0x2c8, 0x2c8, 0x2c8, 0x2c8, 0x2c8, 0x2c8, 0x2c8, 0x2c8, 0x2c8, 0x2c8, 0x2c8,
    0x2c8, 0x2c8, 0x2c8, 0x2c8, 0x2c8, 0x2c8, 0x2c8, 0x2c8, 0x2c8, 0x2c8, 0x2c9, 0x2c9, 0x2c9,
    0x2c9, 0x2c9, 0x2c9, 0x2c9, 0x2c9, 0x2c9, 0x2c9, 0x2c9, 0x2c9, 0x2c9, 0x2c9, 0x2c9, 0x2c9,
    0x2c9, 0x2c9, 0x2c9, 0x2c9, 0x2c9, 0x2c9, 0x2c9, 0x2c9, 0x2c9, 0x2c9, 0x2c9, 0x2c9, 0x2c9,
    0x2c9, 0x2c9, 0x2c9, 0x2c9, 0x2c9, 0x2c9, 0x2c9, 0x2c9, 0x2c9, 0x2c9, 0x2c9, 0x2c9, 0x2c9,
    0x2c9, 0x2c9, 0x2c9, 0x2c9, 0x2c9, 0x2c9, 0x2c9, 0x2c9, 0x2c9, 0x2c9, 0x2c9, 0x2c9, 0x2c9,
    0x2c9, 0x2c9, 0x2c9, 0x2c9, 0x2c9, 0x2c9, 0x2c9, 0x2c9, 0x2c9]"

definition decode_row_8 :: "u16 list" where
  "decode_row_8 = [
    0x1c7, 0x1c7, 0x1c7, 0x1c7, 0x1c7, 0x1c7, 0x1c7, 0x1c7, 0x1c7, 0x1c7, 0x1c7, 0x1c7, 0x1c7,
    0x1c7, 0x1c7, 0x1c7, 0x1c7, 0x1c7, 0x1c7, 0x1c7, 0x1c7, 0x1c7, 0x1c7, 0x1c7, 0x1c7, 0x1c7,
    0x1c7, 0x1c7, 0x1c7, 0x1c7, 0x1c7, 0x1c7, 0x1c7, 0x1c7, 0x1c7, 0x1c7, 0x1c7, 0x1c7, 0x1c7,
    0x1c7, 0x1c7, 0x1c7, 0x1c7, 0x1c7, 0x1c7, 0x1c7, 0x1c7, 0x1c7, 0x1c7, 0x1c7, 0x1c7, 0x1c7,
    0x1c7, 0x1c7, 0x1c7, 0x1c7, 0x1c7, 0x1c7, 0x1c7, 0x1c7, 0x1c7, 0x1c7, 0x1c7, 0x1c7, 0x1c7,
    0x1c7, 0x1c7, 0x1c7, 0x1c7, 0x1c7, 0x1c7, 0x1c7, 0x1c7, 0x1c7, 0x1c7, 0x1c7, 0x1c7, 0x1c7,
    0x1c7, 0x1c7, 0x1c7, 0x1c7, 0x1c7, 0x1c7, 0x1c7, 0x1c7, 0x1c7, 0x1c7, 0x1c7, 0x1c7, 0x1c7,
    0x1c7, 0x1c7, 0x1c7, 0x1c7, 0x1c7, 0x1c7, 0x1c7, 0x1c7, 0x1c7, 0x1c7, 0x1c7, 0x1c7, 0x1c7,
    0x1c7, 0x1c7, 0x1c7, 0x1c7, 0x1c7, 0x1c7, 0x1c7, 0x1c7, 0x1c7, 0x1c7, 0x1c7, 0x1c7, 0x1c7,
    0x1c7, 0x1c7, 0x1c7, 0x1c7, 0x1c7, 0x1c7, 0x1c7, 0x1c7, 0x1c7, 0x1c7, 0x1c7, 0x1cf, 0x1cf,
    0x1cf, 0x1cf, 0x1cf, 0x1cf, 0x1cf, 0x1cf, 0x1cf, 0x1cf, 0x1cf, 0x1cf, 0x1cf, 0x1cf, 0x1cf,
    0x1cf, 0x1cf, 0x1cf, 0x1cf, 0x1cf, 0x1cf, 0x1cf, 0x1cf, 0x1cf, 0x1cf, 0x1cf, 0x1cf, 0x1cf,
    0x1cf, 0x1cf, 0x1cf, 0x1cf, 0x1cf, 0x1cf, 0x1cf, 0x1cf, 0x1cf, 0x1cf, 0x1cf, 0x1cf, 0x1cf,
    0x1cf, 0x1cf, 0x1cf, 0x1cf, 0x1cf, 0x1cf, 0x1cf, 0x1cf, 0x1cf, 0x1cf, 0x1cf, 0x1cf, 0x1cf,
    0x1cf, 0x1cf, 0x1cf, 0x1cf, 0x1cf, 0x1cf, 0x1cf, 0x1cf, 0x1cf, 0x1cf, 0x1cf, 0x1cf, 0x1cf,
    0x1cf, 0x1cf, 0x1cf, 0x1cf, 0x1cf, 0x1cf, 0x1cf, 0x1cf, 0x1cf, 0x1cf, 0x1cf, 0x1cf, 0x1cf,
    0x1cf, 0x1cf, 0x1cf, 0x1cf, 0x1cf, 0x1cf, 0x1cf, 0x1cf, 0x1cf, 0x1cf, 0x1cf, 0x1cf, 0x1cf,
    0x1cf, 0x1cf, 0x1cf, 0x1cf, 0x1cf, 0x1cf, 0x1cf, 0x1cf, 0x1cf, 0x1cf, 0x1cf, 0x1cf, 0x1cf,
    0x1cf, 0x1cf, 0x1cf, 0x1cf, 0x1cf, 0x1cf, 0x1cf, 0x1cf, 0x1cf, 0x1cf, 0x1cf, 0x1cf, 0x1cf,
    0x1cf, 0x1cf, 0x1cf, 0x1cf, 0x1cf, 0x1cf, 0x1cf, 0x1cf, 0x1cf]"

definition decode_row_9 :: "u16 list" where
  "decode_row_9 = [
    0x2ca, 0x2ca, 0x2ca, 0x2ca, 0x2ca, 0x2ca, 0x2ca, 0x2ca, 0x2ca, 0x2ca, 0x2ca, 0x2ca, 0x2ca,
    0x2ca, 0x2ca, 0x2ca, 0x2ca, 0x2ca, 0x2ca, 0x2ca, 0x2ca, 0x2ca, 0x2ca, 0x2ca, 0x2ca, 0x2ca,
    0x2ca, 0x2ca, 0x2ca, 0x2ca, 0x2ca, 0x2ca, 0x2ca, 0x2ca, 0x2ca, 0x2ca, 0x2ca, 0x2ca, 0x2ca,
    0x2ca, 0x2ca, 0x2ca, 0x2ca, 0x2ca, 0x2ca, 0x2ca, 0x2ca, 0x2ca, 0x2ca, 0x2ca, 0x2ca, 0x2ca,
    0x2ca, 0x2ca, 0x2ca, 0x2ca, 0x2ca, 0x2ca, 0x2ca, 0x2ca, 0x2ca, 0x2ca, 0x2ca, 0x2ca, 0x2cd,
    0x2cd, 0x2cd, 0x2cd, 0x2cd, 0x2cd, 0x2cd, 0x2cd, 0x2cd, 0x2cd, 0x2cd, 0x2cd, 0x2cd, 0x2cd,
    0x2cd, 0x2cd, 0x2cd, 0x2cd, 0x2cd, 0x2cd, 0x2cd, 0x2cd, 0x2cd, 0x2cd, 0x2cd, 0x2cd, 0x2cd,
    0x2cd, 0x2cd, 0x2cd, 0x2cd, 0x2cd, 0x2cd, 0x2cd, 0x2cd, 0x2cd, 0x2cd, 0x2cd, 0x2cd, 0x2cd,
    0x2cd, 0x2cd, 0x2cd, 0x2cd, 0x2cd, 0x2cd, 0x2cd, 0x2cd, 0x2cd, 0x2cd, 0x2cd, 0x2cd, 0x2cd,
    0x2cd, 0x2cd, 0x2cd, 0x2cd, 0x2cd, 0x2cd, 0x2cd, 0x2cd, 0x2cd, 0x2cd, 0x2cd, 0x2d2, 0x2d2,
    0x2d2, 0x2d2, 0x2d2, 0x2d2, 0x2d2, 0x2d2, 0x2d2, 0x2d2, 0x2d2, 0x2d2, 0x2d2, 0x2d2, 0x2d2,
    0x2d2, 0x2d2, 0x2d2, 0x2d2, 0x2d2, 0x2d2, 0x2d2, 0x2d2, 0x2d2, 0x2d2, 0x2d2, 0x2d2, 0x2d2,
    0x2d2, 0x2d2, 0x2d2, 0x2d2, 0x2d2, 0x2d2, 0x2d2, 0x2d2, 0x2d2, 0x2d2, 0x2d2, 0x2d2, 0x2d2,
    0x2d2, 0x2d2, 0x2d2, 0x2d2, 0x2d2, 0x2d2, 0x2d2, 0x2d2, 0x2d2, 0x2d2, 0x2d2, 0x2d2, 0x2d2,
    0x2d2, 0x2d2, 0x2d2, 0x2d2, 0x2d2, 0x2d2, 0x2d2, 0x2d2, 0x2d2, 0x2d2, 0x2d5, 0x2d5, 0x2d5,
    0x2d5, 0x2d5, 0x2d5, 0x2d5, 0x2d5, 0x2d5, 0x2d5, 0x2d5, 0x2d5, 0x2d5, 0x2d5, 0x2d5, 0x2d5,
    0x2d5, 0x2d5, 0x2d5, 0x2d5, 0x2d5, 0x2d5, 0x2d5, 0x2d5, 0x2d5, 0x2d5, 0x2d5, 0x2d5, 0x2d5,
    0x2d5, 0x2d5, 0x2d5, 0x2d5, 0x2d5, 0x2d5, 0x2d5, 0x2d5, 0x2d5, 0x2d5, 0x2d5, 0x2d5, 0x2d5,
    0x2d5, 0x2d5, 0x2d5, 0x2d5, 0x2d5, 0x2d5, 0x2d5, 0x2d5, 0x2d5, 0x2d5, 0x2d5, 0x2d5, 0x2d5,
    0x2d5, 0x2d5, 0x2d5, 0x2d5, 0x2d5, 0x2d5, 0x2d5, 0x2d5, 0x2d5]"

definition decode_row_10 :: "u16 list" where
  "decode_row_10 = [
    0x2f2, 0x2f2, 0x2f2, 0x2f2, 0x2f2, 0x2f2, 0x2f2, 0x2f2, 0x2f2, 0x2f2, 0x2f2, 0x2f2, 0x2f2,
    0x2f2, 0x2f2, 0x2f2, 0x2f2, 0x2f2, 0x2f2, 0x2f2, 0x2f2, 0x2f2, 0x2f2, 0x2f2, 0x2f2, 0x2f2,
    0x2f2, 0x2f2, 0x2f2, 0x2f2, 0x2f2, 0x2f2, 0x2f2, 0x2f2, 0x2f2, 0x2f2, 0x2f2, 0x2f2, 0x2f2,
    0x2f2, 0x2f2, 0x2f2, 0x2f2, 0x2f2, 0x2f2, 0x2f2, 0x2f2, 0x2f2, 0x2f2, 0x2f2, 0x2f2, 0x2f2,
    0x2f2, 0x2f2, 0x2f2, 0x2f2, 0x2f2, 0x2f2, 0x2f2, 0x2f2, 0x2f2, 0x2f2, 0x2f2, 0x2f2, 0x2f3,
    0x2f3, 0x2f3, 0x2f3, 0x2f3, 0x2f3, 0x2f3, 0x2f3, 0x2f3, 0x2f3, 0x2f3, 0x2f3, 0x2f3, 0x2f3,
    0x2f3, 0x2f3, 0x2f3, 0x2f3, 0x2f3, 0x2f3, 0x2f3, 0x2f3, 0x2f3, 0x2f3, 0x2f3, 0x2f3, 0x2f3,
    0x2f3, 0x2f3, 0x2f3, 0x2f3, 0x2f3, 0x2f3, 0x2f3, 0x2f3, 0x2f3, 0x2f3, 0x2f3, 0x2f3, 0x2f3,
    0x2f3, 0x2f3, 0x2f3, 0x2f3, 0x2f3, 0x2f3, 0x2f3, 0x2f3, 0x2f3, 0x2f3, 0x2f3, 0x2f3, 0x2f3,
    0x2f3, 0x2f3, 0x2f3, 0x2f3, 0x2f3, 0x2f3, 0x2f3, 0x2f3, 0x2f3, 0x2f3, 0x2f3, 0x2ff, 0x2ff,
    0x2ff, 0x2ff, 0x2ff, 0x2ff, 0x2ff, 0x2ff, 0x2ff, 0x2ff, 0x2ff, 0x2ff, 0x2ff, 0x2ff, 0x2ff,
    0x2ff, 0x2ff, 0x2ff, 0x2ff, 0x2ff, 0x2ff, 0x2ff, 0x2ff, 0x2ff, 0x2ff, 0x2ff, 0x2ff, 0x2ff,
    0x2ff, 0x2ff, 0x2ff, 0x2ff, 0x2ff, 0x2ff, 0x2ff, 0x2ff, 0x2ff, 0x2ff, 0x2ff, 0x2ff, 0x2ff,
    0x2ff, 0x2ff, 0x2ff, 0x2ff, 0x2ff, 0x2ff, 0x2ff, 0x2ff, 0x2ff, 0x2ff, 0x2ff, 0x2ff, 0x2ff,
    0x2ff, 0x2ff, 0x2ff, 0x2ff, 0x2ff, 0x2ff, 0x2ff, 0x2ff, 0x2ff, 0x2ff, 0x3cb, 0x3cb, 0x3cb,
    0x3cb, 0x3cb, 0x3cb, 0x3cb, 0x3cb, 0x3cb, 0x3cb, 0x3cb, 0x3cb, 0x3cb, 0x3cb, 0x3cb, 0x3cb,
    0x3cb, 0x3cb, 0x3cb, 0x3cb, 0x3cb, 0x3cb, 0x3cb, 0x3cb, 0x3cb, 0x3cb, 0x3cb, 0x3cb, 0x3cb,
    0x3cb, 0x3cb, 0x3cb, 0x3cc, 0x3cc, 0x3cc, 0x3cc, 0x3cc, 0x3cc, 0x3cc, 0x3cc, 0x3cc, 0x3cc,
    0x3cc, 0x3cc, 0x3cc, 0x3cc, 0x3cc, 0x3cc, 0x3cc, 0x3cc, 0x3cc, 0x3cc, 0x3cc, 0x3cc, 0x3cc,
    0x3cc, 0x3cc, 0x3cc, 0x3cc, 0x3cc, 0x3cc, 0x3cc, 0x3cc, 0x3cc]"

definition decode_row_11 :: "u16 list" where
  "decode_row_11 = [
    0x3d3, 0x3d3, 0x3d3, 0x3d3, 0x3d3, 0x3d3, 0x3d3, 0x3d3, 0x3d3, 0x3d3, 0x3d3, 0x3d3, 0x3d3,
    0x3d3, 0x3d3, 0x3d3, 0x3d3, 0x3d3, 0x3d3, 0x3d3, 0x3d3, 0x3d3, 0x3d3, 0x3d3, 0x3d3, 0x3d3,
    0x3d3, 0x3d3, 0x3d3, 0x3d3, 0x3d3, 0x3d3, 0x3d4, 0x3d4, 0x3d4, 0x3d4, 0x3d4, 0x3d4, 0x3d4,
    0x3d4, 0x3d4, 0x3d4, 0x3d4, 0x3d4, 0x3d4, 0x3d4, 0x3d4, 0x3d4, 0x3d4, 0x3d4, 0x3d4, 0x3d4,
    0x3d4, 0x3d4, 0x3d4, 0x3d4, 0x3d4, 0x3d4, 0x3d4, 0x3d4, 0x3d4, 0x3d4, 0x3d4, 0x3d4, 0x3d6,
    0x3d6, 0x3d6, 0x3d6, 0x3d6, 0x3d6, 0x3d6, 0x3d6, 0x3d6, 0x3d6, 0x3d6, 0x3d6, 0x3d6, 0x3d6,
    0x3d6, 0x3d6, 0x3d6, 0x3d6, 0x3d6, 0x3d6, 0x3d6, 0x3d6, 0x3d6, 0x3d6, 0x3d6, 0x3d6, 0x3d6,
    0x3d6, 0x3d6, 0x3d6, 0x3d6, 0x3d6, 0x3dd, 0x3dd, 0x3dd, 0x3dd, 0x3dd, 0x3dd, 0x3dd, 0x3dd,
    0x3dd, 0x3dd, 0x3dd, 0x3dd, 0x3dd, 0x3dd, 0x3dd, 0x3dd, 0x3dd, 0x3dd, 0x3dd, 0x3dd, 0x3dd,
    0x3dd, 0x3dd, 0x3dd, 0x3dd, 0x3dd, 0x3dd, 0x3dd, 0x3dd, 0x3dd, 0x3dd, 0x3dd, 0x3de, 0x3de,
    0x3de, 0x3de, 0x3de, 0x3de, 0x3de, 0x3de, 0x3de, 0x3de, 0x3de, 0x3de, 0x3de, 0x3de, 0x3de,
    0x3de, 0x3de, 0x3de, 0x3de, 0x3de, 0x3de, 0x3de, 0x3de, 0x3de, 0x3de, 0x3de, 0x3de, 0x3de,
    0x3de, 0x3de, 0x3de, 0x3de, 0x3df, 0x3df, 0x3df, 0x3df, 0x3df, 0x3df, 0x3df, 0x3df, 0x3df,
    0x3df, 0x3df, 0x3df, 0x3df, 0x3df, 0x3df, 0x3df, 0x3df, 0x3df, 0x3df, 0x3df, 0x3df, 0x3df,
    0x3df, 0x3df, 0x3df, 0x3df, 0x3df, 0x3df, 0x3df, 0x3df, 0x3df, 0x3df, 0x3f1, 0x3f1, 0x3f1,
    0x3f1, 0x3f1, 0x3f1, 0x3f1, 0x3f1, 0x3f1, 0x3f1, 0x3f1, 0x3f1, 0x3f1, 0x3f1, 0x3f1, 0x3f1,
    0x3f1, 0x3f1, 0x3f1, 0x3f1, 0x3f1, 0x3f1, 0x3f1, 0x3f1, 0x3f1, 0x3f1, 0x3f1, 0x3f1, 0x3f1,
    0x3f1, 0x3f1, 0x3f1, 0x3f4, 0x3f4, 0x3f4, 0x3f4, 0x3f4, 0x3f4, 0x3f4, 0x3f4, 0x3f4, 0x3f4,
    0x3f4, 0x3f4, 0x3f4, 0x3f4, 0x3f4, 0x3f4, 0x3f4, 0x3f4, 0x3f4, 0x3f4, 0x3f4, 0x3f4, 0x3f4,
    0x3f4, 0x3f4, 0x3f4, 0x3f4, 0x3f4, 0x3f4, 0x3f4, 0x3f4, 0x3f4]"

definition decode_row_12 :: "u16 list" where
  "decode_row_12 = [
    0x2da, 0x2da, 0x2da, 0x2da, 0x2da, 0x2da, 0x2da, 0x2da, 0x2da, 0x2da, 0x2da, 0x2da, 0x2da,
    0x2da, 0x2da, 0x2da, 0x2da, 0x2da, 0x2da, 0x2da, 0x2da, 0x2da, 0x2da, 0x2da, 0x2da, 0x2da,
    0x2da, 0x2da, 0x2da, 0x2da, 0x2da, 0x2da, 0x2da, 0x2da, 0x2da, 0x2da, 0x2da, 0x2da, 0x2da,
    0x2da, 0x2da, 0x2da, 0x2da, 0x2da, 0x2da, 0x2da, 0x2da, 0x2da, 0x2da, 0x2da, 0x2da, 0x2da,
    0x2da, 0x2da, 0x2da, 0x2da, 0x2da, 0x2da, 0x2da, 0x2da, 0x2da, 0x2da, 0x2da, 0x2da, 0x2db,
    0x2db, 0x2db, 0x2db, 0x2db, 0x2db, 0x2db, 0x2db, 0x2db, 0x2db, 0x2db, 0x2db, 0x2db, 0x2db,
    0x2db, 0x2db, 0x2db, 0x2db, 0x2db, 0x2db, 0x2db, 0x2db, 0x2db, 0x2db, 0x2db, 0x2db, 0x2db,
    0x2db, 0x2db, 0x2db, 0x2db, 0x2db, 0x2db, 0x2db, 0x2db, 0x2db, 0x2db, 0x2db, 0x2db, 0x2db,
    0x2db, 0x2db, 0x2db, 0x2db, 0x2db, 0x2db, 0x2db, 0x2db, 0x2db, 0x2db, 0x2db, 0x2db, 0x2db,
    0x2db, 0x2db, 0x2db, 0x2db, 0x2db, 0x2db, 0x2db, 0x2db, 0x2db, 0x2db, 0x2db, 0x2ee, 0x2ee,
    0x2ee, 0x2ee, 0x2ee, 0x2ee, 0x2ee, 0x2ee, 0x2ee, 0x2ee, 0x2ee, 0x2ee, 0x2ee, 0x2ee, 0x2ee,
    0x2ee, 0x2ee, 0x2ee, 0x2ee, 0x2ee, 0x2ee, 0x2ee, 0x2ee, 0x2ee, 0x2ee, 0x2ee, 0x2ee, 0x2ee,
    0x2ee, 0x2ee, 0x2ee, 0x2ee, 0x2ee, 0x2ee, 0x2ee, 0x2ee, 0x2ee, 0x2ee, 0x2ee, 0x2ee, 0x2ee,
    0x2ee, 0x2ee, 0x2ee, 0x2ee, 0x2ee, 0x2ee, 0x2ee, 0x2ee, 0x2ee, 0x2ee, 0x2ee, 0x2ee, 0x2ee,
    0x2ee, 0x2ee, 0x2ee, 0x2ee, 0x2ee, 0x2ee, 0x2ee, 0x2ee, 0x2ee, 0x2ee, 0x2f0, 0x2f0, 0x2f0,
    0x2f0, 0x2f0, 0x2f0, 0x2f0, 0x2f0, 0x2f0, 0x2f0, 0x2f0, 0x2f0, 0x2f0, 0x2f0, 0x2f0, 0x2f0,
    0x2f0, 0x2f0, 0x2f0, 0x2f0, 0x2f0, 0x2f0, 0x2f0, 0x2f0, 0x2f0, 0x2f0, 0x2f0, 0x2f0, 0x2f0,
    0x2f0, 0x2f0, 0x2f0, 0x2f0, 0x2f0, 0x2f0, 0x2f0, 0x2f0, 0x2f0, 0x2f0, 0x2f0, 0x2f0, 0x2f0,
    0x2f0, 0x2f0, 0x2f0, 0x2f0, 0x2f0, 0x2f0, 0x2f0, 0x2f0, 0x2f0, 0x2f0, 0x2f0, 0x2f0, 0x2f0,
    0x2f0, 0x2f0, 0x2f0, 0x2f0, 0x2f0, 0x2f0, 0x2f0, 0x2f0, 0x2f0]"

definition decode_row_13 :: "u16 list" where
  "decode_row_13 = [
    0x1ea, 0x1ea, 0x1ea, 0x1ea, 0x1ea, 0x1ea, 0x1ea, 0x1ea, 0x1ea, 0x1ea, 0x1ea, 0x1ea, 0x1ea,
    0x1ea, 0x1ea, 0x1ea, 0x1ea, 0x1ea, 0x1ea, 0x1ea, 0x1ea, 0x1ea, 0x1ea, 0x1ea, 0x1ea, 0x1ea,
    0x1ea, 0x1ea, 0x1ea, 0x1ea, 0x1ea, 0x1ea, 0x1ea, 0x1ea, 0x1ea, 0x1ea, 0x1ea, 0x1ea, 0x1ea,
    0x1ea, 0x1ea, 0x1ea, 0x1ea, 0x1ea, 0x1ea, 0x1ea, 0x1ea, 0x1ea, 0x1ea, 0x1ea, 0x1ea, 0x1ea,
    0x1ea, 0x1ea, 0x1ea, 0x1ea, 0x1ea, 0x1ea, 0x1ea, 0x1ea, 0x1ea, 0x1ea, 0x1ea, 0x1ea, 0x1ea,
    0x1ea, 0x1ea, 0x1ea, 0x1ea, 0x1ea, 0x1ea, 0x1ea, 0x1ea, 0x1ea, 0x1ea, 0x1ea, 0x1ea, 0x1ea,
    0x1ea, 0x1ea, 0x1ea, 0x1ea, 0x1ea, 0x1ea, 0x1ea, 0x1ea, 0x1ea, 0x1ea, 0x1ea, 0x1ea, 0x1ea,
    0x1ea, 0x1ea, 0x1ea, 0x1ea, 0x1ea, 0x1ea, 0x1ea, 0x1ea, 0x1ea, 0x1ea, 0x1ea, 0x1ea, 0x1ea,
    0x1ea, 0x1ea, 0x1ea, 0x1ea, 0x1ea, 0x1ea, 0x1ea, 0x1ea, 0x1ea, 0x1ea, 0x1ea, 0x1ea, 0x1ea,
    0x1ea, 0x1ea, 0x1ea, 0x1ea, 0x1ea, 0x1ea, 0x1ea, 0x1ea, 0x1ea, 0x1ea, 0x1ea, 0x1eb, 0x1eb,
    0x1eb, 0x1eb, 0x1eb, 0x1eb, 0x1eb, 0x1eb, 0x1eb, 0x1eb, 0x1eb, 0x1eb, 0x1eb, 0x1eb, 0x1eb,
    0x1eb, 0x1eb, 0x1eb, 0x1eb, 0x1eb, 0x1eb, 0x1eb, 0x1eb, 0x1eb, 0x1eb, 0x1eb, 0x1eb, 0x1eb,
    0x1eb, 0x1eb, 0x1eb, 0x1eb, 0x1eb, 0x1eb, 0x1eb, 0x1eb, 0x1eb, 0x1eb, 0x1eb, 0x1eb, 0x1eb,
    0x1eb, 0x1eb, 0x1eb, 0x1eb, 0x1eb, 0x1eb, 0x1eb, 0x1eb, 0x1eb, 0x1eb, 0x1eb, 0x1eb, 0x1eb,
    0x1eb, 0x1eb, 0x1eb, 0x1eb, 0x1eb, 0x1eb, 0x1eb, 0x1eb, 0x1eb, 0x1eb, 0x1eb, 0x1eb, 0x1eb,
    0x1eb, 0x1eb, 0x1eb, 0x1eb, 0x1eb, 0x1eb, 0x1eb, 0x1eb, 0x1eb, 0x1eb, 0x1eb, 0x1eb, 0x1eb,
    0x1eb, 0x1eb, 0x1eb, 0x1eb, 0x1eb, 0x1eb, 0x1eb, 0x1eb, 0x1eb, 0x1eb, 0x1eb, 0x1eb, 0x1eb,
    0x1eb, 0x1eb, 0x1eb, 0x1eb, 0x1eb, 0x1eb, 0x1eb, 0x1eb, 0x1eb, 0x1eb, 0x1eb, 0x1eb, 0x1eb,
    0x1eb, 0x1eb, 0x1eb, 0x1eb, 0x1eb, 0x1eb, 0x1eb, 0x1eb, 0x1eb, 0x1eb, 0x1eb, 0x1eb, 0x1eb,
    0x1eb, 0x1eb, 0x1eb, 0x1eb, 0x1eb, 0x1eb, 0x1eb, 0x1eb, 0x1eb]"

definition decode_row_14 :: "u16 list" where
  "decode_row_14 = [
    0x3f5, 0x3f5, 0x3f5, 0x3f5, 0x3f5, 0x3f5, 0x3f5, 0x3f5, 0x3f5, 0x3f5, 0x3f5, 0x3f5, 0x3f5,
    0x3f5, 0x3f5, 0x3f5, 0x3f5, 0x3f5, 0x3f5, 0x3f5, 0x3f5, 0x3f5, 0x3f5, 0x3f5, 0x3f5, 0x3f5,
    0x3f5, 0x3f5, 0x3f5, 0x3f5, 0x3f5, 0x3f5, 0x3f6, 0x3f6, 0x3f6, 0x3f6, 0x3f6, 0x3f6, 0x3f6,
    0x3f6, 0x3f6, 0x3f6, 0x3f6, 0x3f6, 0x3f6, 0x3f6, 0x3f6, 0x3f6, 0x3f6, 0x3f6, 0x3f6, 0x3f6,
    0x3f6, 0x3f6, 0x3f6, 0x3f6, 0x3f6, 0x3f6, 0x3f6, 0x3f6, 0x3f6, 0x3f6, 0x3f6, 0x3f6, 0x3f7,
    0x3f7, 0x3f7, 0x3f7, 0x3f7, 0x3f7, 0x3f7, 0x3f7, 0x3f7, 0x3f7, 0x3f7, 0x3f7, 0x3f7, 0x3f7,
    0x3f7, 0x3f7, 0x3f7, 0x3f7, 0x3f7, 0x3f7, 0x3f7, 0x3f7, 0x3f7, 0x3f7, 0x3f7, 0x3f7, 0x3f7,
    0x3f7, 0x3f7, 0x3f7, 0x3f7, 0x3f7, 0x3f8, 0x3f8, 0x3f8, 0x3f8, 0x3f8, 0x3f8, 0x3f8, 0x3f8,
    0x3f8, 0x3f8, 0x3f8, 0x3f8, 0x3f8, 0x3f8, 0x3f8, 0x3f8, 0x3f8, 0x3f8, 0x3f8, 0x3f8, 0x3f8,
    0x3f8, 0x3f8, 0x3f8, 0x3f8, 0x3f8, 0x3f8, 0x3f8, 0x3f8, 0x3f8, 0x3f8, 0x3f8, 0x3fa, 0x3fa,
    0x3fa, 0x3fa, 0x3fa, 0x3fa, 0x3fa, 0x3fa, 0x3fa, 0x3fa, 0x3fa, 0x3fa, 0x3fa, 0x3fa, 0x3fa,
    0x3fa, 0x3fa, 0x3fa, 0x3fa, 0x3fa, 0x3fa, 0x3fa, 0x3fa, 0x3fa, 0x3fa, 0x3fa, 0x3fa, 0x3fa,
    0x3fa, 0x3fa, 0x3fa, 0x3fa, 0x3fb, 0x3fb, 0x3fb, 0x3fb, 0x3fb, 0x3fb, 0x3fb, 0x3fb, 0x3fb,
    0x3fb, 0x3fb, 0x3fb, 0x3fb, 0x3fb, 0x3fb, 0x3fb, 0x3fb, 0x3fb, 0x3fb, 0x3fb, 0x3fb, 0x3fb,
    0x3fb, 0x3fb, 0x3fb, 0x3fb, 0x3fb, 0x3fb, 0x3fb, 0x3fb, 0x3fb, 0x3fb, 0x3fc, 0x3fc, 0x3fc,
    0x3fc, 0x3fc, 0x3fc, 0x3fc, 0x3fc, 0x3fc, 0x3fc, 0x3fc, 0x3fc, 0x3fc, 0x3fc, 0x3fc, 0x3fc,
    0x3fc, 0x3fc, 0x3fc, 0x3fc, 0x3fc, 0x3fc, 0x3fc, 0x3fc, 0x3fc, 0x3fc, 0x3fc, 0x3fc, 0x3fc,
    0x3fc, 0x3fc, 0x3fc, 0x3fd, 0x3fd, 0x3fd, 0x3fd, 0x3fd, 0x3fd, 0x3fd, 0x3fd, 0x3fd, 0x3fd,
    0x3fd, 0x3fd, 0x3fd, 0x3fd, 0x3fd, 0x3fd, 0x3fd, 0x3fd, 0x3fd, 0x3fd, 0x3fd, 0x3fd, 0x3fd,
    0x3fd, 0x3fd, 0x3fd, 0x3fd, 0x3fd, 0x3fd, 0x3fd, 0x3fd, 0x3fd]"

definition DECODE_TABLE :: "u16 list" where
  "DECODE_TABLE = concat [decode_row_0, decode_row_1, decode_row_2, decode_row_3, decode_row_4, decode_row_5, decode_row_6, decode_row_7,
    decode_row_8, decode_row_9, decode_row_10, decode_row_11, decode_row_12, decode_row_13, decode_row_14]"

text \<open>The code words by the table of \<open>DECODE_TABLE\<close> that holds their leaves, each as byte, code and length in
  increasing order of the codes. A row is the table's index, the number of bytes that lead to it, their
  value, and its leaves; the rows are in the order of their prefixes, so that \<open>huff_sorted\<close> is the whole
  code in increasing order. The lemmas of \<open>Huffman_Encode\<close> and \<open>Huffman_Slow\<close> check them against the tables.\<close>

definition huff_leaves_0 :: "(nat \<times> nat \<times> nat) list" where
  "huff_leaves_0 = [
    (48, 0x0, 5), (49, 0x1, 5), (50, 0x2, 5), (97, 0x3, 5), (99, 0x4, 5), (101, 0x5, 5), (105,
    0x6, 5), (111, 0x7, 5), (115, 0x8, 5), (116, 0x9, 5), (32, 0x14, 6), (37, 0x15, 6), (45,
    0x16, 6), (46, 0x17, 6), (47, 0x18, 6), (51, 0x19, 6), (52, 0x1a, 6), (53, 0x1b, 6), (54,
    0x1c, 6), (55, 0x1d, 6), (56, 0x1e, 6), (57, 0x1f, 6), (61, 0x20, 6), (65, 0x21, 6), (95,
    0x22, 6), (98, 0x23, 6), (100, 0x24, 6), (102, 0x25, 6), (103, 0x26, 6), (104, 0x27, 6),
    (108, 0x28, 6), (109, 0x29, 6), (110, 0x2a, 6), (112, 0x2b, 6), (114, 0x2c, 6), (117,
    0x2d, 6), (58, 0x5c, 7), (66, 0x5d, 7), (67, 0x5e, 7), (68, 0x5f, 7), (69, 0x60, 7), (70,
    0x61, 7), (71, 0x62, 7), (72, 0x63, 7), (73, 0x64, 7), (74, 0x65, 7), (75, 0x66, 7), (76,
    0x67, 7), (77, 0x68, 7), (78, 0x69, 7), (79, 0x6a, 7), (80, 0x6b, 7), (81, 0x6c, 7), (82,
    0x6d, 7), (83, 0x6e, 7), (84, 0x6f, 7), (85, 0x70, 7), (86, 0x71, 7), (87, 0x72, 7), (89,
    0x73, 7), (106, 0x74, 7), (107, 0x75, 7), (113, 0x76, 7), (118, 0x77, 7), (119, 0x78, 7),
    (120, 0x79, 7), (121, 0x7a, 7), (122, 0x7b, 7), (38, 0xf8, 8), (42, 0xf9, 8), (44, 0xfa,
    8), (59, 0xfb, 8), (88, 0xfc, 8), (90, 0xfd, 8)]"

definition huff_leaves_1 :: "(nat \<times> nat \<times> nat) list" where
  "huff_leaves_1 = [
    (63, 0x3fc, 10), (39, 0x7fa, 11), (43, 0x7fb, 11), (124, 0x7fc, 11), (35, 0xffa, 12), (62,
    0xffb, 12), (0, 0x1ff8, 13), (36, 0x1ff9, 13), (64, 0x1ffa, 13), (91, 0x1ffb, 13), (93,
    0x1ffc, 13), (126, 0x1ffd, 13), (94, 0x3ffc, 14), (125, 0x3ffd, 14), (60, 0x7ffc, 15),
    (96, 0x7ffd, 15), (123, 0x7ffe, 15)]"

definition huff_leaves_2 :: "(nat \<times> nat \<times> nat) list" where
  "huff_leaves_2 = [
    (176, 0x1fffe0, 21), (177, 0x1fffe1, 21), (179, 0x1fffe2, 21), (209, 0x1fffe3, 21), (216,
    0x1fffe4, 21), (217, 0x1fffe5, 21), (227, 0x1fffe6, 21), (229, 0x1fffe7, 21), (230,
    0x1fffe8, 21), (129, 0x3fffd2, 22), (132, 0x3fffd3, 22), (133, 0x3fffd4, 22), (134,
    0x3fffd5, 22), (136, 0x3fffd6, 22), (146, 0x3fffd7, 22), (154, 0x3fffd8, 22), (156,
    0x3fffd9, 22), (160, 0x3fffda, 22), (163, 0x3fffdb, 22), (164, 0x3fffdc, 22), (169,
    0x3fffdd, 22), (170, 0x3fffde, 22), (173, 0x3fffdf, 22), (178, 0x3fffe0, 22), (181,
    0x3fffe1, 22), (185, 0x3fffe2, 22), (186, 0x3fffe3, 22), (187, 0x3fffe4, 22), (189,
    0x3fffe5, 22), (190, 0x3fffe6, 22), (196, 0x3fffe7, 22), (198, 0x3fffe8, 22), (228,
    0x3fffe9, 22), (232, 0x3fffea, 22), (233, 0x3fffeb, 22), (1, 0x7fffd8, 23), (135,
    0x7fffd9, 23), (137, 0x7fffda, 23), (138, 0x7fffdb, 23), (139, 0x7fffdc, 23), (140,
    0x7fffdd, 23), (141, 0x7fffde, 23), (143, 0x7fffdf, 23), (147, 0x7fffe0, 23), (149,
    0x7fffe1, 23), (150, 0x7fffe2, 23), (151, 0x7fffe3, 23), (152, 0x7fffe4, 23), (155,
    0x7fffe5, 23), (157, 0x7fffe6, 23), (158, 0x7fffe7, 23), (165, 0x7fffe8, 23), (166,
    0x7fffe9, 23), (168, 0x7fffea, 23), (174, 0x7fffeb, 23), (175, 0x7fffec, 23), (180,
    0x7fffed, 23), (182, 0x7fffee, 23), (183, 0x7fffef, 23), (188, 0x7ffff0, 23), (191,
    0x7ffff1, 23), (197, 0x7ffff2, 23), (231, 0x7ffff3, 23), (239, 0x7ffff4, 23), (9,
    0xffffea, 24), (142, 0xffffeb, 24), (144, 0xffffec, 24), (145, 0xffffed, 24), (148,
    0xffffee, 24), (159, 0xffffef, 24), (171, 0xfffff0, 24), (206, 0xfffff1, 24), (215,
    0xfffff2, 24), (225, 0xfffff3, 24), (236, 0xfffff4, 24), (237, 0xfffff5, 24)]"

definition huff_leaves_3 :: "(nat \<times> nat \<times> nat) list" where
  "huff_leaves_3 = [
    (254, 0x7fffff0, 27), (2, 0xfffffe2, 28), (3, 0xfffffe3, 28), (4, 0xfffffe4, 28), (5,
    0xfffffe5, 28), (6, 0xfffffe6, 28), (7, 0xfffffe7, 28), (8, 0xfffffe8, 28), (11,
    0xfffffe9, 28), (12, 0xfffffea, 28), (14, 0xfffffeb, 28), (15, 0xfffffec, 28), (16,
    0xfffffed, 28), (17, 0xfffffee, 28), (18, 0xfffffef, 28)]"

definition huff_leaves_4 :: "(nat \<times> nat \<times> nat) list" where
  "huff_leaves_4 = [
    (19, 0xffffff0, 28), (20, 0xffffff1, 28), (21, 0xffffff2, 28), (23, 0xffffff3, 28), (24,
    0xffffff4, 28), (25, 0xffffff5, 28), (26, 0xffffff6, 28), (27, 0xffffff7, 28), (28,
    0xffffff8, 28), (29, 0xffffff9, 28), (30, 0xffffffa, 28), (31, 0xffffffb, 28), (127,
    0xffffffc, 28), (220, 0xffffffd, 28), (249, 0xffffffe, 28), (10, 0x3ffffffc, 30), (13,
    0x3ffffffd, 30), (22, 0x3ffffffe, 30)]"

definition huff_leaves_5 :: "(nat \<times> nat \<times> nat) list" where
  "huff_leaves_5 = [
    (33, 0x3f8, 10), (34, 0x3f9, 10), (40, 0x3fa, 10), (41, 0x3fb, 10)]"

definition huff_leaves_6 :: "(nat \<times> nat \<times> nat) list" where
  "huff_leaves_6 = [
    (92, 0x7fff0, 19), (195, 0x7fff1, 19), (208, 0x7fff2, 19), (128, 0xfffe6, 20), (130,
    0xfffe7, 20), (131, 0xfffe8, 20), (162, 0xfffe9, 20), (184, 0xfffea, 20), (194, 0xfffeb,
    20), (224, 0xfffec, 20), (226, 0xfffed, 20), (153, 0x1fffdc, 21), (161, 0x1fffdd, 21),
    (167, 0x1fffde, 21), (172, 0x1fffdf, 21)]"

definition huff_leaves_7 :: "(nat \<times> nat \<times> nat) list" where
  "huff_leaves_7 = [
    (192, 0x3ffffe0, 26), (193, 0x3ffffe1, 26), (200, 0x3ffffe2, 26), (201, 0x3ffffe3, 26)]"

definition huff_leaves_8 :: "(nat \<times> nat \<times> nat) list" where
  "huff_leaves_8 = [
    (199, 0x1ffffec, 25), (207, 0x1ffffed, 25)]"

definition huff_leaves_9 :: "(nat \<times> nat \<times> nat) list" where
  "huff_leaves_9 = [
    (202, 0x3ffffe4, 26), (205, 0x3ffffe5, 26), (210, 0x3ffffe6, 26), (213, 0x3ffffe7, 26)]"

definition huff_leaves_10 :: "(nat \<times> nat \<times> nat) list" where
  "huff_leaves_10 = [
    (242, 0x3ffffec, 26), (243, 0x3ffffed, 26), (255, 0x3ffffee, 26), (203, 0x7ffffde, 27),
    (204, 0x7ffffdf, 27)]"

definition huff_leaves_11 :: "(nat \<times> nat \<times> nat) list" where
  "huff_leaves_11 = [
    (211, 0x7ffffe0, 27), (212, 0x7ffffe1, 27), (214, 0x7ffffe2, 27), (221, 0x7ffffe3, 27),
    (222, 0x7ffffe4, 27), (223, 0x7ffffe5, 27), (241, 0x7ffffe6, 27), (244, 0x7ffffe7, 27)]"

definition huff_leaves_12 :: "(nat \<times> nat \<times> nat) list" where
  "huff_leaves_12 = [
    (218, 0x3ffffe8, 26), (219, 0x3ffffe9, 26), (238, 0x3ffffea, 26), (240, 0x3ffffeb, 26)]"

definition huff_leaves_13 :: "(nat \<times> nat \<times> nat) list" where
  "huff_leaves_13 = [
    (234, 0x1ffffee, 25), (235, 0x1ffffef, 25)]"

definition huff_leaves_14 :: "(nat \<times> nat \<times> nat) list" where
  "huff_leaves_14 = [
    (245, 0x7ffffe8, 27), (246, 0x7ffffe9, 27), (247, 0x7ffffea, 27), (248, 0x7ffffeb, 27),
    (250, 0x7ffffec, 27), (251, 0x7ffffed, 27), (252, 0x7ffffee, 27), (253, 0x7ffffef, 27)]"

definition huff_rows :: "(nat \<times> nat \<times> nat \<times> (nat \<times> nat \<times> nat) list) list" where
  "huff_rows = [
    (0, 0, 0x0, huff_leaves_0),
    (5, 1, 0xfe, huff_leaves_5),
    (1, 1, 0xff, huff_leaves_1),
    (6, 2, 0xfffe, huff_leaves_6),
    (2, 2, 0xffff, huff_leaves_2),
    (8, 3, 0xfffff6, huff_leaves_8),
    (13, 3, 0xfffff7, huff_leaves_13),
    (7, 3, 0xfffff8, huff_leaves_7),
    (9, 3, 0xfffff9, huff_leaves_9),
    (12, 3, 0xfffffa, huff_leaves_12),
    (10, 3, 0xfffffb, huff_leaves_10),
    (11, 3, 0xfffffc, huff_leaves_11),
    (14, 3, 0xfffffd, huff_leaves_14),
    (3, 3, 0xfffffe, huff_leaves_3),
    (4, 3, 0xffffff, huff_leaves_4)]"

definition huff_sorted :: "(nat \<times> nat \<times> nat) list" where
  "huff_sorted = concat (map (\<lambda>(t, d, p, ls). ls) huff_rows)"

lemmas huff_leaves_defs = huff_leaves_0_def huff_leaves_1_def huff_leaves_2_def huff_leaves_3_def huff_leaves_4_def huff_leaves_5_def huff_leaves_6_def huff_leaves_7_def huff_leaves_8_def huff_leaves_9_def huff_leaves_10_def huff_leaves_11_def huff_leaves_12_def huff_leaves_13_def huff_leaves_14_def

lemmas decode_row_defs = decode_row_0_def decode_row_1_def decode_row_2_def decode_row_3_def decode_row_4_def decode_row_5_def decode_row_6_def decode_row_7_def decode_row_8_def decode_row_9_def decode_row_10_def decode_row_11_def decode_row_12_def decode_row_13_def decode_row_14_def

lemma length_tables [simp]:
  "length ENCODE_CODES = 256" "length ENCODE_CODE_LENGTHS = 256" "length huff_sorted = 256"
  by (simp_all add: ENCODE_CODES_def ENCODE_CODE_LENGTHS_def huff_sorted_def huff_rows_def huff_leaves_defs)

end
