(* ===== verification/Huffman_Encode.thy ===== *)
theory Huffman_Encode
  imports Huffman_Table Error_Types
begin

text \<open>
  The HPACK Huffman encoder (\<open>src/hpack/huffman/encode.rs\<close>): a 64-bit accumulator that is
  flushed four bytes at a time, and a tail padded with ones. The specification is on bit strings:
  the output is the concatenation of the code words, most significant bit first, and less than
  one byte of padding. The decoder of the test module of \<open>decode.rs\<close>, which strips one code word after
  the other, is the reference that inverts it; that no code word is a prefix of another is checked
  on the table in the order of the code words, where each occupies an interval of the 30-bit
  numbers that starts where the one before ends.
\<close>

section \<open>The encoder\<close>

text \<open>The loop body. The shifts are by at most 30 and 31, so they never panic.\<close>

fun encode_step :: "u8 \<Rightarrow> u64 \<times> nat \<times> bytes \<Rightarrow> u64 \<times> nat \<times> bytes" where
  "encode_step b (bits, bits_len, dst) =
    (let nbits = unat (ENCODE_CODE_LENGTHS ! unat b);
         code = ucast (ENCODE_CODES ! unat b);
         bits = push_bit nbits bits OR code;
         bits_len = bits_len + nbits in
     if 32 \<le> bits_len
     then let remaining = bits_len - 32;
              dst = dst @ put_u32 (ucast (drop_bit remaining bits)) in
          (if remaining = 0 then 0 else bits AND (push_bit remaining 1 - 1), remaining, dst)
     else (bits, bits_len, dst))"

text \<open>The final loop; the subtraction panics when the length is no multiple of eight.\<close>

fun put_tail :: "u64 \<Rightarrow> nat \<Rightarrow> bytes option" where
  "put_tail bits bits_len =
    (if bits_len = 0 then Some []
     else if bits_len < 8 then None
     else map_option (Cons (ucast (drop_bit (bits_len - 8) bits))) (put_tail bits (bits_len - 8)))"

declare put_tail.simps [simp del]

definition huff_encode :: "bytes \<Rightarrow> bytes \<Rightarrow> bytes option" where
  "huff_encode src dst =
    (case fold encode_step src (0, 0, dst) of (bits, bits_len, dst) \<Rightarrow>
       if bits_len \<noteq> 0
       then let padding = 8 - bits_len mod 8;
                padding = (if padding = 8 then 0 else padding);
                bits = push_bit padding bits OR (push_bit padding 1 - 1);
                bits_len = bits_len + padding in
            map_option ((@) dst) (put_tail bits bits_len)
       else Some dst)"

section \<open>Bit strings\<close>

definition bits_of :: "nat \<Rightarrow> 'a::len word \<Rightarrow> bool list" where
  "bits_of n w = map (bit w) (rev [0..<n])"

definition bytes_bits :: "bytes \<Rightarrow> bool list" where
  "bytes_bits bs = concat (map (bits_of 8) bs)"

definition code_len :: "u8 \<Rightarrow> nat" where
  "code_len b = unat (ENCODE_CODE_LENGTHS ! unat b)"

definition code_bits :: "u8 \<Rightarrow> bool list" where
  "code_bits b = bits_of (code_len b) (ENCODE_CODES ! unat b)"

lemma length_bits_of [simp]: "length (bits_of n w) = n"
  by (simp add: bits_of_def)

lemma nth_bits_of: "i < n \<Longrightarrow> bits_of n w ! i = bit w (n - 1 - i)"
  by (simp add: bits_of_def rev_nth)

lemma bits_of_0 [simp]: "bits_of 0 w = []"
  by (simp add: bits_of_def)

lemma bytes_bits_simps [simp]:
  "bytes_bits [] = []" "bytes_bits (b # bs) = bits_of 8 b @ bytes_bits bs"
  "bytes_bits (bs @ cs) = bytes_bits bs @ bytes_bits cs"
  by (simp_all add: bytes_bits_def)

lemma bits_of_split:
  assumes "k \<le> n"
  shows "bits_of n w = bits_of (n - k) (drop_bit k w) @ bits_of k w"
proof (rule nth_equalityI)
  fix i assume "i < length (bits_of n w)"
  with assms show "bits_of n w ! i = (bits_of (n - k) (drop_bit k w) @ bits_of k w) ! i"
    by (cases "i < n - k") (auto simp: nth_append nth_bits_of bit_simps intro!: arg_cong2 [of _ _ _ _ bit])
qed (use assms in simp)

lemma bits_of_append:
  fixes w c :: u64
  assumes "m + n \<le> 64" "take_bit n c = c"
  shows "bits_of (m + n) (push_bit n w OR c) = bits_of m w @ bits_of n c"
proof (rule nth_equalityI)
  fix i assume i: "i < length (bits_of (m + n) (push_bit n w OR c))"
  have nc: "\<not> bit c j" if "n \<le> j" for j
    using that assms(2) by (metis bit_take_bit_iff not_le)
  show "bits_of (m + n) (push_bit n w OR c) ! i = (bits_of m w @ bits_of n c) ! i"
    using i assms(1) nc
    by (cases "i < m") (auto simp: nth_append nth_bits_of bit_simps add.commute [of n m])
qed simp

lemma bits_of_ucast: "n \<le> LENGTH('b) \<Longrightarrow> n \<le> LENGTH('a) \<Longrightarrow>
    bits_of n (ucast (w :: 'a::len word) :: 'b::len word) = bits_of n w"
  by (rule nth_equalityI) (auto simp: nth_bits_of bit_simps)

lemma bits_of_inj:
  assumes "bits_of n (v :: 'a::len word) = bits_of n w" "take_bit n v = v" "take_bit n w = w"
  shows "v = w"
proof (rule bit_word_eqI)
  fix i :: nat
  show "bit v i = bit w i"
  proof (cases "i < n")
    case True
    then have "bits_of n v ! (n - 1 - i) = bits_of n w ! (n - 1 - i)" by (simp add: assms(1))
    then show ?thesis using True by (simp add: nth_bits_of)
  next
    case False
    then show ?thesis using assms(2,3) by (metis bit_take_bit_iff)
  qed
qed

lemma bits_of_mask: "n \<le> LENGTH('a) \<Longrightarrow> bits_of n (mask n :: 'a::len word) = replicate n True"
  by (rule nth_equalityI) (auto simp: nth_bits_of bit_simps)

lemma bytes_bits_put_u32: "bytes_bits (put_u32 w) = bits_of 32 w"
proof -
  have "bits_of 32 w = bits_of 8 (drop_bit 24 w) @ bits_of 24 w"
    using bits_of_split [of 24 32 w] by simp
  also have "bits_of 24 w = bits_of 8 (drop_bit 16 w) @ bits_of 16 w"
    using bits_of_split [of 16 24 w] by simp
  also have "bits_of 16 w = bits_of 8 (drop_bit 8 w) @ bits_of 8 w"
    using bits_of_split [of 8 16 w] by simp
  finally show ?thesis by (simp add: put_u32_def bits_of_ucast)
qed

section \<open>The code table\<close>

text \<open>The code words in increasing order fill an interval of the 30-bit numbers without gaps, none
  is empty, none of at most seven bits consists of ones only, and each is the one of its byte in
  the tables.\<close>

fun intervals :: "nat \<Rightarrow> (nat \<times> nat \<times> nat) list \<Rightarrow> bool" where
  "intervals lo [] = True"
| "intervals lo ((b, c, l) # ts) \<longleftrightarrow>
     5 \<le> l \<and> l \<le> 30 \<and> c < 2 ^ l \<and> (l \<le> 7 \<longrightarrow> c < 2 ^ l - 1) \<and> c * 2 ^ (30 - l) = lo \<and>
     intervals (lo + 2 ^ (30 - l)) ts"

lemma huff_intervals: "intervals 0 huff_sorted"
  by (simp add: huff_sorted_def huff_rows_def huff_leaves_defs)

lemma huff_lengths: "list_all (\<lambda>(b, c, l). b < 256 \<and> ENCODE_CODE_LENGTHS ! b = of_nat l) huff_sorted"
  by (simp add: ENCODE_CODE_LENGTHS_def huff_sorted_def huff_rows_def huff_leaves_defs)

lemma huff_codes: "list_all (\<lambda>(b, c, l). ENCODE_CODES ! b = of_nat c) huff_sorted"
  by (simp add: ENCODE_CODES_def huff_sorted_def huff_rows_def huff_leaves_defs)

lemma huff_entries:
  "list_all (\<lambda>(b, c, l). b < 256 \<and> ENCODE_CODE_LENGTHS ! b = of_nat l \<and> ENCODE_CODES ! b = of_nat c)
     huff_sorted"
  using huff_lengths huff_codes by (auto simp: list_all_iff)

lemma intervals_entry:
  "intervals lo ts \<Longrightarrow> (b, c, l) \<in> set ts \<Longrightarrow>
     5 \<le> l \<and> l \<le> 30 \<and> c < 2 ^ l \<and> (l \<le> 7 \<longrightarrow> c < 2 ^ l - 1) \<and> lo \<le> c * 2 ^ (30 - l)"
  by (induction lo ts rule: intervals.induct) fastforce+

lemma intervals_disjoint:
  assumes "intervals lo ts" "(b, c, l) \<in> set ts" "(b', c', l') \<in> set ts" "(b, c, l) \<noteq> (b', c', l')"
  shows "(c + 1) * 2 ^ (30 - l) \<le> c' * 2 ^ (30 - l') \<or> (c' + 1) * 2 ^ (30 - l') \<le> c * 2 ^ (30 - l)"
  using assms
  by (induction lo ts rule: intervals.induct) (auto dest: intervals_entry)

lemma intervals_distinct: "intervals lo ts \<Longrightarrow> distinct (map snd ts)"
proof (induction lo ts rule: intervals.induct)
  case (2 lo b c l ts)
  have "snd t \<noteq> (c, l)" if t: "t \<in> set ts" for t
  proof -
    obtain b' c' l' where [simp]: "t = (b', c', l')" by (cases t)
    show ?thesis using "2.prems" intervals_entry [of "lo + 2 ^ (30 - l)" ts b' c' l'] t by auto
  qed
  with 2 show ?case by force
qed simp

lemma huff_complete: "b < 256 \<Longrightarrow> \<exists>c l. (b, c, l) \<in> set huff_sorted"
proof -
  have e: "ENCODE_CODE_LENGTHS ! b = of_nat l \<and> ENCODE_CODES ! b = of_nat c \<and> b < 256 \<and>
      unat (of_nat l :: u8) = l \<and> unat (of_nat c :: u32) = c" if t: "(b, c, l) \<in> set huff_sorted" for b c l
  proof -
    have r: "l \<le> 30" "c < 2 ^ l" using intervals_entry [OF huff_intervals t] by auto
    have "(2 :: nat) ^ l \<le> 2 ^ 30" using r(1) by (rule power_increasing) simp
    with r have "c < 2 ^ 30" by linarith
    with r t huff_entries show ?thesis
      by (auto simp: list_all_iff unat_of_nat take_bit_nat_eq_self_iff)
  qed
  have inj: "inj_on fst (set huff_sorted)"
  proof (rule inj_onI)
    fix s t assume st: "s \<in> set huff_sorted" "t \<in> set huff_sorted" "fst s = fst t"
    obtain b c l c' l' where [simp]: "s = (b, c, l)" "t = (b, c', l')"
      using st(3) by (cases s; cases t) auto
    show "s = t" using e [of b c l] e [of b c' l'] st(1,2) by auto
  qed
  have "distinct huff_sorted"
    using intervals_distinct [OF huff_intervals] by (simp add: distinct_map)
  then have "card (fst ` set huff_sorted) = 256"
    using inj by (simp add: card_image distinct_card)
  moreover have "fst ` set huff_sorted \<subseteq> {0..<256}" using e by auto
  ultimately have "fst ` set huff_sorted = {0..<256}"
    by (intro card_subset_eq) simp_all
  moreover assume "b < 256"
  ultimately have "b \<in> fst ` set huff_sorted" by simp
  then show ?thesis by force
qed

text \<open>The entry of a byte.\<close>

lemma code_entry:
  obtains c l where "(unat b, c, l) \<in> set huff_sorted" "code_len b = l"
    "unat (ENCODE_CODES ! unat b) = c" "5 \<le> l" "l \<le> 30" "c < 2 ^ l" "l \<le> 7 \<Longrightarrow> c < 2 ^ l - 1"
proof -
  have "unat b < 256" using unsigned_less [of b] by simp
  then obtain c l where t: "(unat b, c, l) \<in> set huff_sorted" using huff_complete by blast
  note r = intervals_entry [OF huff_intervals t]
  have "(2 :: nat) ^ l \<le> 2 ^ 30" using r by (intro power_increasing) auto
  with r have c: "c < 2 ^ 30" by linarith
  have "code_len b = l" "unat (ENCODE_CODES ! unat b) = c"
    using huff_entries t r c by (auto simp: list_all_iff code_len_def unat_of_nat take_bit_nat_eq_self_iff)
  with that [OF t] r show thesis by blast
qed

lemma code_len_bounds: "5 \<le> code_len b" "code_len b \<le> 30"
  by (rule code_entry [of b]; simp)+

lemma length_code_bits [simp]: "length (code_bits b) = code_len b"
  by (simp add: code_bits_def)

lemma take_bit_code: "take_bit (code_len b) (ENCODE_CODES ! unat b) = ENCODE_CODES ! unat b"
proof -
  obtain c l where "code_len b = l" "unat (ENCODE_CODES ! unat b) = c" "c < 2 ^ l"
    using code_entry [of b] by metis
  then show ?thesis
    by (auto simp: word_unat_eq_iff unsigned_take_bit_eq take_bit_nat_eq_self_iff)
qed

lemma code_bits_u64:
  "code_bits b = bits_of (code_len b) (ucast (ENCODE_CODES ! unat b) :: u64)"
  "take_bit (code_len b) (ucast (ENCODE_CODES ! unat b) :: u64) = ucast (ENCODE_CODES ! unat b)"
proof -
  show "code_bits b = bits_of (code_len b) (ucast (ENCODE_CODES ! unat b) :: u64)"
    using code_len_bounds [of b] by (simp add: code_bits_def bits_of_ucast)
  show "take_bit (code_len b) (ucast (ENCODE_CODES ! unat b) :: u64) = ucast (ENCODE_CODES ! unat b)"
  proof -
    have "take_bit n (ucast v :: u64) = ucast (take_bit n v)" for n and v :: u32
      by (rule bit_word_eqI) (auto simp: bit_simps)
    then show ?thesis by (simp add: take_bit_code)
  qed
qed

text \<open>No code word is a prefix of another one.\<close>

lemma code_prefix_free:
  assumes "code_bits b = code_bits a @ r"
  shows "a = b"
proof (rule ccontr)
  assume ne: "a \<noteq> b"
  obtain c l where a: "(unat a, c, l) \<in> set huff_sorted" "code_len a = l" "unat (ENCODE_CODES ! unat a) = c"
    by (rule code_entry [of a])
  obtain c' l' where b: "(unat b, c', l') \<in> set huff_sorted" "code_len b = l'"
      "unat (ENCODE_CODES ! unat b) = c'" "l' \<le> 30"
    by (rule code_entry [of b])
  define k where "k = l' - l"
  have len: "length r + l = l'" using arg_cong [OF assms, of length] a(2) b(2) by simp
  then have k: "l' - k = l" "k \<le> l'" by (simp_all add: k_def)
  have "bits_of l (drop_bit k (ENCODE_CODES ! unat b)) @ bits_of k (ENCODE_CODES ! unat b) = code_bits a @ r"
    using assms bits_of_split [OF k(2), of "ENCODE_CODES ! unat b"] b(2) k(1) by (simp add: code_bits_def)
  then have eq: "bits_of l (drop_bit k (ENCODE_CODES ! unat b)) = bits_of l (ENCODE_CODES ! unat a)"
    using a(2) by (simp add: code_bits_def)
  have "take_bit l (drop_bit k (ENCODE_CODES ! unat b)) = drop_bit k (take_bit l' (ENCODE_CODES ! unat b))"
    using len by (simp add: take_bit_drop_bit k_def)
  then have "drop_bit k (ENCODE_CODES ! unat b) = ENCODE_CODES ! unat a"
    using take_bit_code [of a] take_bit_code [of b] a(2) b(2) by (intro bits_of_inj [OF eq]) simp_all
  then have "c = c' div 2 ^ k"
    using a(3) b(3) by (metis unsigned_drop_bit_eq drop_bit_eq_div unat_drop_bit_eq)
  then have "c * 2 ^ k \<le> c'" "c' < (c + 1) * 2 ^ k"
    using div_less_iff_less_mult [of "2 ^ k" c' "c + 1"] by simp_all
  then have "c * 2 ^ k * 2 ^ (30 - l') \<le> c' * 2 ^ (30 - l')" "c' * 2 ^ (30 - l') < (c + 1) * 2 ^ k * 2 ^ (30 - l')"
    by simp_all
  moreover have "(2 :: nat) ^ k * 2 ^ (30 - l') = 2 ^ (30 - l)"
    using len b(4) by (simp add: power_add [symmetric] k_def)
  ultimately have "c * 2 ^ (30 - l) \<le> c' * 2 ^ (30 - l')" "c' * 2 ^ (30 - l') < (c + 1) * 2 ^ (30 - l)"
    by (simp_all only: mult.assoc)
  moreover have "(unat a, c, l) \<noteq> (unat b, c', l')" using ne by (simp add: word_unat_eq_iff)
  moreover have "c' * 2 ^ (30 - l') < (c' + 1) * 2 ^ (30 - l')" by simp
  ultimately show False
    using intervals_disjoint [OF huff_intervals a(1) b(1)] by linarith
qed

text \<open>Padding never contains a code word.\<close>

lemma code_not_ones:
  assumes "n < 8"
  shows "replicate n True \<noteq> code_bits a @ r"
proof
  assume eq: "replicate n True = code_bits a @ r"
  obtain c l where "(unat a, c, l) \<in> set huff_sorted" and
    a: "code_len a = l" "unat (ENCODE_CODES ! unat a) = c" "l \<le> 7 \<Longrightarrow> c < 2 ^ l - 1"
    using code_entry [of a] by blast
  have l: "l \<le> 7" using arg_cong [OF eq, of length] a(1) assms by simp
  have "code_bits a = replicate l True"
  proof -
    have "l \<le> n" using arg_cong [OF eq, of length] a(1) by simp
    moreover have "take l (replicate n True) = code_bits a" unfolding eq using a(1) by simp
    ultimately show ?thesis by (simp add: min_def)
  qed
  moreover have "bits_of l (mask l :: u32) = replicate l True" using l by (intro bits_of_mask) simp
  ultimately have "bits_of l (ENCODE_CODES ! unat a) = bits_of l (mask l :: u32)"
    using a(1) by (simp only: code_bits_def)
  moreover have "take_bit l (ENCODE_CODES ! unat a) = ENCODE_CODES ! unat a"
    using take_bit_code [of a] a(1) by simp
  moreover have "take_bit l (mask l :: u32) = mask l" by simp
  ultimately have "ENCODE_CODES ! unat a = mask l" by (rule bits_of_inj)
  moreover have "mask l = (of_nat (2 ^ l - 1) :: u32)" by (simp add: mask_eq_exp_minus_1 of_nat_diff)
  moreover have "(2 :: nat) ^ l - 1 < 2 ^ 32"
    using power_increasing [OF l, of "2 :: nat"] by simp
  then have "unat (of_nat (2 ^ l - 1) :: u32) = 2 ^ l - 1"
    by (simp only: unat_of_nat take_bit_nat_eq_self_iff) simp
  ultimately have "c = 2 ^ l - 1" using a(2) by metis
  with a(3) [OF l] show False by simp
qed

section \<open>The output of the encoder\<close>

lemma ones_below: "2 ^ n - 1 = (mask n :: u64)"
  by (simp add: mask_eq_exp_minus_1)

text \<open>After each byte the written bytes and the accumulated bits spell the code words so far.\<close>

lemma encode_step_bits:
  assumes "encode_step b (w, n, dst) = (w', n', dst')" "n < 32"
  shows "n' < 32 \<and> (\<exists>out. dst' = dst @ out \<and>
    bytes_bits out @ bits_of n' w' = bits_of n w @ code_bits b)"
proof -
  define v where "v = push_bit (code_len b) w OR ucast (ENCODE_CODES ! unat b)"
  define m where "m = n + code_len b"
  have m: "m \<le> 62" using assms(2) code_len_bounds [of b] by (simp add: m_def)
  have v: "bits_of m v = bits_of n w @ code_bits b"
    using m code_bits_u64 [of b] by (simp add: v_def m_def bits_of_append)
  show ?thesis
  proof (cases "32 \<le> m")
    case False
    then have "w' = v" "n' = m" "dst' = dst"
      using assms(1) by (auto simp: v_def m_def code_len_def Let_def)
    with False v show ?thesis by auto
  next
    case True
    define r where "r = m - 32"
    have "n' = r" "dst' = dst @ put_u32 (ucast (drop_bit r v))"
      and w': "w' = (if r = 0 then 0 else v AND (push_bit r 1 - 1))"
      using assms(1) True by (auto simp: v_def m_def r_def code_len_def Let_def)
    moreover have "bits_of r w' = bits_of r v"
      using m by (intro nth_equalityI) (auto simp: w' nth_bits_of bit_simps ones_below r_def)
    moreover have "bytes_bits (put_u32 (ucast (drop_bit r v))) @ bits_of r v = bits_of m v"
      using True bits_of_split [of r m v] by (simp add: bytes_bits_put_u32 bits_of_ucast r_def)
    ultimately show ?thesis using m v True by (auto simp: r_def)
  qed
qed

lemma encode_fold_bits:
  assumes "fold encode_step src (w, n, dst) = (w', n', dst')" "n < 32"
  shows "n' < 32 \<and> (\<exists>out. dst' = dst @ out \<and>
    bytes_bits out @ bits_of n' w' = bits_of n w @ concat (map code_bits src))"
  using assms
proof (induction src arbitrary: w n dst)
  case (Cons b src)
  obtain w1 n1 d1 where s: "encode_step b (w, n, dst) = (w1, n1, d1)" by (metis prod_cases3)
  obtain o1 where o1: "n1 < 32" "d1 = dst @ o1" "bytes_bits o1 @ bits_of n1 w1 = bits_of n w @ code_bits b"
    using encode_step_bits [OF s Cons.prems(2)] by blast
  have "fold encode_step src (w1, n1, d1) = (w', n', dst')"
    using Cons.prems(1) s by (simp del: encode_step.simps)
  from Cons.IH [OF this o1(1)] obtain o2 where o2: "n' < 32" "dst' = d1 @ o2"
      "bytes_bits o2 @ bits_of n' w' = bits_of n1 w1 @ concat (map code_bits src)" by blast
  have "bytes_bits (o1 @ o2) @ bits_of n' w' = bytes_bits o1 @ bits_of n1 w1 @ concat (map code_bits src)"
    by (simp add: o2(3))
  also have "\<dots> = (bytes_bits o1 @ bits_of n1 w1) @ concat (map code_bits src)" by simp
  finally have "bytes_bits (o1 @ o2) @ bits_of n' w' = bits_of n w @ concat (map code_bits (b # src))"
    by (simp only: o1(3) append_assoc list.map concat.simps)
  with o1(2) o2(1,2) show ?case by auto
qed auto

lemma put_tail_bits: "n mod 8 = 0 \<Longrightarrow> \<exists>out. put_tail w n = Some out \<and> bytes_bits out = bits_of n w"
proof (induction w n rule: put_tail.induct)
  case (1 w n)
  show ?case
  proof (cases "n = 0")
    case False
    with "1.prems" have n: "8 \<le> n" "(n - 8) mod 8 = 0" by presburger+
    then have "\<not> n < 8" by simp
    with "1.IH" [OF False this n(2)] obtain out where "put_tail w (n - 8) = Some out" "bytes_bits out = bits_of (n - 8) w" by blast
    then show ?thesis
      using n bits_of_split [of "n - 8" n w]
      by (subst put_tail.simps) (auto simp: bits_of_ucast)
  qed (simp add: put_tail.simps)
qed

lemma huff_encode_bits:
  "\<exists>out pad. huff_encode src dst = Some (dst @ out) \<and> pad < 8 \<and>
     bytes_bits out = concat (map code_bits src) @ replicate pad True"
proof -
  obtain w n d where f: "fold encode_step src (0, 0, dst) = (w, n, d)" by (metis prod_cases3)
  obtain o1 where o1: "n < 32" "d = dst @ o1" "bytes_bits o1 @ bits_of n w = concat (map code_bits src)"
    using encode_fold_bits [OF f] by auto
  show ?thesis
  proof (cases "n = 0")
    case True
    with f o1 show ?thesis by (auto simp: huff_encode_def intro!: exI [of _ 0])
  next
    case False
    define p where "p = (if 8 - n mod 8 = 8 then 0 else 8 - n mod 8)"
    have p: "p < 8" by (simp add: p_def)
    have np: "(n + p) mod 8 = 0" by (simp add: p_def) presburger
    define v where "v = push_bit p w OR (push_bit p 1 - 1)"
    have v: "bits_of (n + p) v = bits_of n w @ replicate p True"
      using o1(1) p by (simp add: v_def ones_below bits_of_append bits_of_mask)
    obtain o2 where o2: "put_tail v (n + p) = Some o2" "bytes_bits o2 = bits_of (n + p) v"
      using put_tail_bits [OF np] by blast
    have "huff_encode src dst = Some (dst @ o1 @ o2)"
      using f False o1(2) o2(1) by (simp add: huff_encode_def Let_def p_def [symmetric] v_def)
    moreover have "bytes_bits (o1 @ o2) = (bytes_bits o1 @ bits_of n w) @ replicate p True"
      using o2(2) v by simp
    ultimately show ?thesis using p o1(3) by metis
  qed
qed

section \<open>The reference decoder\<close>

text \<open>\<open>reference_decode\<close> of the tests: strip the first code word that starts the rest, until there is
  none; what is left must be padding.\<close>

definition find_symbol :: "bool list \<Rightarrow> u8 option" where
  "find_symbol bits = find (\<lambda>b. take (code_len b) bits = code_bits b) (map of_nat [0..<256])"

lemma find_symbol_Some:
  assumes "find_symbol bits = Some b"
  shows "\<exists>r. bits = code_bits b @ r"
proof -
  have "take (code_len b) bits = code_bits b"
    using assms unfolding find_symbol_def find_Some_iff by blast
  then have "bits = code_bits b @ drop (code_len b) bits" by (metis append_take_drop_id)
  then show ?thesis ..
qed

function strip_codes :: "bool list \<Rightarrow> bytes \<times> bool list" where
  "strip_codes bits =
    (case find_symbol bits of
       None \<Rightarrow> ([], bits)
     | Some b \<Rightarrow> (case strip_codes (drop (code_len b) bits) of (bs, rest) \<Rightarrow> (b # bs, rest)))"
  by pat_completeness auto
termination
proof (relation "measure length")
  fix bits b assume "find_symbol bits = Some b"
  then obtain r where "bits = code_bits b @ r" using find_symbol_Some by blast
  then show "(drop (code_len b) bits, bits) \<in> measure length"
    using code_len_bounds [of b] by simp
qed simp

declare strip_codes.simps [simp del]

definition reference_decode :: "bytes \<Rightarrow> (bytes, decoder_error) outcome" where
  "reference_decode src =
    (case strip_codes (bytes_bits src) of (decoded, rest) \<Rightarrow>
       if 8 \<le> length rest \<or> False \<in> set rest then Err InvalidHuffmanCode else Ok decoded)"

lemma find_symbol_code: "find_symbol (code_bits b @ r) = Some b"
proof -
  have "b \<in> set (map of_nat [0..<256])"
    using unsigned_less [of b] by (auto intro!: image_eqI [of _ _ "unat b"])
  then obtain c where c: "find_symbol (code_bits b @ r) = Some c"
  proof (cases "find_symbol (code_bits b @ r)")
    case None
    then have "take (code_len b) (code_bits b @ r) \<noteq> code_bits b"
      using \<open>b \<in> set (map of_nat [0..<256])\<close> unfolding find_symbol_def find_None_iff by blast
    then show ?thesis by simp
  qed blast
  then obtain r' where eq: "code_bits b @ r = code_bits c @ r'" using find_symbol_Some by blast
  then have "c = b"
    using code_prefix_free by (metis append_eq_append_conv2)
  with c show ?thesis by simp
qed

lemma find_symbol_padding:
  assumes "n < 8"
  shows "find_symbol (replicate n True) = None"
proof (cases "find_symbol (replicate n True)")
  case (Some b)
  then show ?thesis using find_symbol_Some code_not_ones [OF assms] by metis
qed

lemma strip_codes_encoded:
  "n < 8 \<Longrightarrow> strip_codes (concat (map code_bits src) @ replicate n True) = (src, replicate n True)"
proof (induction src)
  case Nil
  then show ?case by (subst strip_codes.simps) (simp add: find_symbol_padding)
next
  case (Cons b src)
  then show ?case by (subst strip_codes.simps) (simp add: find_symbol_code)
qed

text \<open>Whatever bytes are encoded, the encoder neither panics nor touches what the destination already
  holds, and the reference decoder, which strips one code word after the other and accepts less than
  eight ones at the end, gets exactly the encoded bytes back.\<close>

theorem huffman_roundtrip:
  "\<exists>out. huff_encode src dst = Some (dst @ out) \<and> reference_decode out = Ok src"
  using huff_encode_bits [of src dst] strip_codes_encoded
  by (fastforce simp: reference_decode_def)

text \<open>The encoded length is the length of the code words rounded up to bytes, so a string is never
  longer than thirty eighths of its bytes, rounded up, and never shorter than five eighths.\<close>

theorem huffman_length:
  "\<exists>out. huff_encode src dst = Some (dst @ out) \<and>
     length out = (sum_list (map code_len src) + 7) div 8 \<and>
     5 * length src \<le> 8 * length out \<and> 8 * length out \<le> 30 * length src + 7"
proof -
  obtain out pad where out: "huff_encode src dst = Some (dst @ out)" "pad < 8"
      "bytes_bits out = concat (map code_bits src) @ replicate pad True"
    using huff_encode_bits by blast
  have "length (bytes_bits out) = 8 * length out"
    by (induction out) simp_all
  moreover have "length (concat (map code_bits src)) = sum_list (map code_len src)"
    by (induction src) simp_all
  ultimately have l: "8 * length out = sum_list (map code_len src) + pad"
    using out(3) by (metis length_append length_replicate)
  have "5 * length src \<le> sum_list (map code_len src) \<and> sum_list (map code_len src) \<le> 30 * length src"
  proof (induction src)
    case (Cons b src)
    then show ?case using code_len_bounds [of b] by simp
  qed simp
  moreover have "length out = (sum_list (map code_len src) + 7) div 8"
    using l out(2) by (intro div_nat_eqI [symmetric]) simp_all
  ultimately show ?thesis using out(1,2) l by (intro exI [of _ out]) simp
qed

end
