(* ===== verification/Huffman_Decode.thy ===== *)
theory Huffman_Decode
  imports Huffman_Encode
begin

text \<open>
  The HPACK Huffman decoder (\<open>src/hpack/huffman/decode.rs\<close>): a 64-bit accumulator refilled up to
  eight bytes at a time, a table that decodes the next 12 bits to one or two bytes, and a walk of
  the generated byte-wise table for long codes and for the end of the input. The output goes to a
  buffer of a size fixed in advance; an index out of range, a shift by 64 and a subtraction below
  zero are panics. The loops have fuel; that it is enough, and that none of the panics happens, is
  part of \<open>huffman_decode_correct\<close>: the decoder is the reference decoder of the tests.
\<close>

definition BRANCH :: u16 where "BRANCH = 0x8000"
definition TABLE_INDEX_MASK :: u16 where "TABLE_INDEX_MASK = 0x7f00"
definition TABLE_WIDTH :: nat where "TABLE_WIDTH = 256"
definition FAST_BITS :: nat where "FAST_BITS = 12"

section \<open>The table of the fast path\<close>

text \<open>\<open>while i < n { table[base + i] = v; i += 1 }\<close>. The table is computed at compile time, where an
  index out of range is a compile error.\<close>

definition fill_range :: "nat \<Rightarrow> nat \<Rightarrow> u32 \<Rightarrow> u32 list \<Rightarrow> u32 list" where
  "fill_range base n v table = fold (\<lambda>i t. t[base + i := v]) [0..<n] table"

definition fill_single :: "nat \<Rightarrow> u32 list \<Rightarrow> u32 list" where
  "fill_single a table =
    (let len1 = unat (ENCODE_CODE_LENGTHS ! a);
         code1 = unat (ENCODE_CODES ! a) in
     if len1 \<le> FAST_BITS
     then let rem = FAST_BITS - len1;
              base = push_bit rem code1;
              single = push_bit 16 1 OR push_bit 24 (of_nat len1) OR of_nat a in
          fill_range base (push_bit rem 1) single table
     else table)"

definition fill_pair :: "nat \<Rightarrow> nat \<Rightarrow> u32 list \<Rightarrow> u32 list" where
  "fill_pair a b table =
    (let len1 = unat (ENCODE_CODE_LENGTHS ! a);
         code1 = unat (ENCODE_CODES ! a);
         rem = FAST_BITS - len1;
         len2 = unat (ENCODE_CODE_LENGTHS ! b);
         code2 = unat (ENCODE_CODES ! b) in
     if len2 \<le> rem
     then let rem2 = rem - len2;
              base = push_bit rem code1 OR push_bit rem2 code2;
              pair = push_bit 16 2 OR push_bit 24 (of_nat (len1 + len2)) OR push_bit 8 (of_nat b) OR of_nat a in
          fill_range base (push_bit rem2 1) pair table
     else table)"

definition fill_pairs :: "nat \<Rightarrow> u32 list \<Rightarrow> u32 list" where
  "fill_pairs a table =
    (if unat (ENCODE_CODE_LENGTHS ! a) + 5 \<le> FAST_BITS then fold (fill_pair a) [0..<256] table else table)"

definition build_fast_table :: "u32 list" where
  "build_fast_table =
    fold fill_pairs [0..<256] (fold fill_single [0..<256] (replicate (push_bit FAST_BITS 1) 0))"

section \<open>The decoder\<close>

record huff_state =
  acc :: u64
  hbits :: nat
  hpos :: nat
  hout :: nat
  hdst :: bytes

type_synonym 'a huff_result = "('a, decoder_error) outcome \<times> huff_state"

text \<open>Shifts of a \<open>u64\<close> panic from 64 on.\<close>

definition shl64 :: "u64 \<Rightarrow> nat \<Rightarrow> u64 option" where
  "shl64 w n = (if n < 64 then Some (push_bit n w) else None)"

definition shr64 :: "u64 \<Rightarrow> nat \<Rightarrow> u64 option" where
  "shr64 w n = (if n < 64 then Some (drop_bit n w) else None)"

function slow_loop :: "nat \<Rightarrow> huff_state \<Rightarrow> unit huff_result" where
  "slow_loop table s =
    (let idx = table * TABLE_WIDTH + unat (drop_bit 56 (acc s)) in
     if \<not> idx < length DECODE_TABLE then (Panic, s)
     else let e = DECODE_TABLE ! idx in
       if e AND BRANCH = 0
       then let used = unat (drop_bit 8 e) in
         if hbits s < used then (Err InvalidHuffmanCode, s)
         else if \<not> hout s < length (hdst s) then (Panic, s)
         else let s = s\<lparr>hdst := (hdst s)[hout s := ucast e], hout := hout s + 1\<rparr> in
           (case shl64 (acc s) used of
              None \<Rightarrow> (Panic, s)
            | Some a \<Rightarrow> (Ok (), s\<lparr>acc := a, hbits := hbits s - used\<rparr>))
       else if hbits s < 8 then (Err InvalidHuffmanCode, s)
       else let table = unat (drop_bit 8 (e AND TABLE_INDEX_MASK)) in
         if table = 0 then (Err InvalidHuffmanCode, s)
         else slow_loop table (s\<lparr>acc := push_bit 8 (acc s), hbits := hbits s - 8\<rparr>))"
  by pat_completeness auto
termination by (relation "measure (\<lambda>(table, s). hbits s)") auto

declare slow_loop.simps [simp del]

definition decode_code_slow :: "huff_state \<Rightarrow> unit huff_result" where
  "decode_code_slow s = slow_loop 0 s"

definition be_u64 :: "bytes \<Rightarrow> u64" where
  "be_u64 bs = fold (\<lambda>b w. push_bit 8 w OR ucast b) bs 0"

text \<open>The byte-wise refill.\<close>

function refill_bytes :: "bytes \<Rightarrow> huff_state \<Rightarrow> huff_state" where
  "refill_bytes src s =
    (if hbits s \<le> 56 \<and> hpos s < length src
     then refill_bytes src (s\<lparr>acc := acc s OR push_bit (56 - hbits s) (ucast (src ! hpos s)),
                              hpos := hpos s + 1, hbits := hbits s + 8\<rparr>)
     else s)"
  by pat_completeness auto
termination by (relation "measure (\<lambda>(src, s). length src - hpos s)") auto

declare refill_bytes.simps [simp del]

definition refill :: "bytes \<Rightarrow> huff_state \<Rightarrow> unit huff_result" where
  "refill src s =
    (if hpos s + 8 \<le> length src
     then (case shr64 (be_u64 (take 8 (drop (hpos s) src))) (hbits s) of
             None \<Rightarrow> (Panic, s)
           | Some w \<Rightarrow> (Ok (), s\<lparr>acc := acc s OR w, hpos := hpos s + drop_bit 3 (63 - hbits s),
                                hbits := hbits s OR 56\<rparr>))
     else (Ok (), refill_bytes src s))"

text \<open>The loop \<open>while bits >= FAST_BITS\<close>; \<open>Ok True\<close> is \<open>continue 'outer\<close>.\<close>

fun fast_loop :: "nat \<Rightarrow> bytes \<Rightarrow> huff_state \<Rightarrow> bool huff_result option" where
  "fast_loop 0 src s = None"
| "fast_loop (Suc fuel) src s =
    (if hbits s < FAST_BITS then Some (Ok False, s)
     else let entry = build_fast_table ! unat (drop_bit (64 - FAST_BITS) (acc s));
              count = unat (drop_bit 16 entry AND 0xff) in
       if count = 0
       then (if hbits s < 30 \<and> hpos s < length src then Some (Ok True, s)
             else (case decode_code_slow s of
                     (Ok _, s) \<Rightarrow> fast_loop fuel src s
                   | (Err e, s) \<Rightarrow> Some (Err e, s)
                   | (Panic, s) \<Rightarrow> Some (Panic, s)))
       else let consumed = unat (drop_bit 24 entry) in
         if \<not> hout s + 1 < length (hdst s) then Some (Panic, s)
         else (case shl64 (acc s) consumed of
             None \<Rightarrow> Some (Panic, s)
           | Some a \<Rightarrow>
               if hbits s < consumed then Some (Panic, s)
               else fast_loop fuel src
                 (s\<lparr>hdst := (hdst s)[hout s := ucast entry, hout s + 1 := ucast (drop_bit 8 entry)],
                    hout := hout s + count, acc := a, hbits := hbits s - consumed\<rparr>)))"

definition FAST_FUEL :: nat where "FAST_FUEL = 65"

fun outer_loop :: "nat \<Rightarrow> bytes \<Rightarrow> huff_state \<Rightarrow> unit huff_result option" where
  "outer_loop 0 src s = None"
| "outer_loop (Suc fuel) src s =
    (case refill src s of
       (Ok _, s) \<Rightarrow>
         (case fast_loop FAST_FUEL src s of
            None \<Rightarrow> None
          | Some (Ok continue, s) \<Rightarrow>
              if continue then outer_loop fuel src s
              else if length src \<le> hpos s then Some (Ok (), s)
              else outer_loop fuel src s
          | Some (Err e, s) \<Rightarrow> Some (Err e, s)
          | Some (Panic, s) \<Rightarrow> Some (Panic, s))
     | (Err e, s) \<Rightarrow> Some (Err e, s)
     | (Panic, s) \<Rightarrow> Some (Panic, s))"

fun tail_loop :: "nat \<Rightarrow> huff_state \<Rightarrow> unit huff_result option" where
  "tail_loop 0 s = None"
| "tail_loop (Suc fuel) s =
    (if hbits s = 0 then Some (Ok (), s)
     else if hbits s < 8 \<and> drop_bit (64 - hbits s) (acc s) = push_bit (hbits s) 1 - 1 then Some (Ok (), s)
     else (case decode_code_slow s of
             (Ok _, s) \<Rightarrow> tail_loop fuel s
           | (Err e, s) \<Rightarrow> Some (Err e, s)
           | (Panic, s) \<Rightarrow> Some (Panic, s)))"

text \<open>\<open>decode(src, buf)\<close>: the result and the buffer left behind. An error leaves the buffer extended.\<close>

definition huff_decode :: "bytes \<Rightarrow> bytes \<Rightarrow> ((bytes, decoder_error) outcome \<times> bytes) option" where
  "huff_decode src buf =
    (let s = \<lparr>acc = 0, hbits = 0, hpos = 0, hout = 0, hdst = replicate (length src * 8 div 5 + 1) 0\<rparr> in
     case outer_loop (length src + 1) src s of
       None \<Rightarrow> None
     | Some (Ok _, s) \<Rightarrow>
         (case tail_loop FAST_FUEL s of
            None \<Rightarrow> None
          | Some (Ok _, s) \<Rightarrow> Some (Ok (buf @ take (hout s) (hdst s)), [])
          | Some (Err e, s) \<Rightarrow> Some (Err e, buf @ hdst s)
          | Some (Panic, s) \<Rightarrow> Some (Panic, buf @ hdst s))
     | Some (Err e, s) \<Rightarrow> Some (Err e, buf @ hdst s)
     | Some (Panic, s) \<Rightarrow> Some (Panic, buf @ hdst s))"

end
