(* ===== verification/Huffman_Slow.thy ===== *)
theory Huffman_Slow
  imports Huffman_Decode
begin

text \<open>
  The byte-wise walk of \<open>DECODE_TABLE\<close> (\<open>decode_code_slow\<close>) finds the code word that starts the
  accumulator. Each of the 15 tables is a run of equal entries for every leaf, in the order of the
  code words, followed by its branches.
\<close>

definition row_runs :: "nat \<Rightarrow> (nat \<times> nat \<times> nat) list \<Rightarrow> u16 list" where
  "row_runs d ls = concat (map (\<lambda>(b, c, l). replicate (2 ^ (8 * (d + 1) - l)) (of_nat ((l - 8 * d) * 256 + b))) ls)"

lemma replicate_pow:
  "replicate 2 x = [x, x]" "replicate 4 x = [x, x, x, x]"
  "replicate 8 x = replicate 4 x @ replicate 4 x" "replicate 16 x = replicate 8 x @ replicate 8 x"
  "replicate 32 x = replicate 16 x @ replicate 16 x" "replicate 64 x = replicate 32 x @ replicate 32 x"
  "replicate 128 x = replicate 64 x @ replicate 64 x"
  by (simp_all add: numeral_eq_Suc flip: replicate_add)

lemmas row_simps = row_runs_def replicate_pow

lemma row_0: "decode_row_0 = row_runs 0 huff_leaves_0 @
    [0x8500, 0x8100]"
  by (simp add: row_simps decode_row_0_def huff_leaves_0_def)

lemma row_1: "decode_row_1 = row_runs 1 huff_leaves_1 @
    [0x8600, 0x8200]"
  by (simp add: row_simps decode_row_1_def huff_leaves_1_def)

lemma row_2: "decode_row_2 = row_runs 2 huff_leaves_2 @
    [0x8800, 0x8d00, 0x8700, 0x8900, 0x8c00, 0x8a00, 0x8b00, 0x8e00, 0x8300, 0x8400]"
  by (simp add: row_simps decode_row_2_def huff_leaves_2_def)

lemma row_3: "decode_row_3 = row_runs 3 huff_leaves_3"
  by (simp add: row_simps decode_row_3_def huff_leaves_3_def)

lemma row_4: "decode_row_4 = row_runs 3 huff_leaves_4 @
    [0x80ff, 0x80ff, 0x80ff, 0x80ff]"
  by (simp add: row_simps decode_row_4_def huff_leaves_4_def)

lemma row_5: "decode_row_5 = row_runs 1 huff_leaves_5"
  by (simp add: row_simps decode_row_5_def huff_leaves_5_def)

lemma row_6: "decode_row_6 = row_runs 2 huff_leaves_6"
  by (simp add: row_simps decode_row_6_def huff_leaves_6_def)

lemma row_7: "decode_row_7 = row_runs 3 huff_leaves_7"
  by (simp add: row_simps decode_row_7_def huff_leaves_7_def)

lemma row_8: "decode_row_8 = row_runs 3 huff_leaves_8"
  by (simp add: row_simps decode_row_8_def huff_leaves_8_def)

lemma row_9: "decode_row_9 = row_runs 3 huff_leaves_9"
  by (simp add: row_simps decode_row_9_def huff_leaves_9_def)

lemma row_10: "decode_row_10 = row_runs 3 huff_leaves_10"
  by (simp add: row_simps decode_row_10_def huff_leaves_10_def)

lemma row_11: "decode_row_11 = row_runs 3 huff_leaves_11"
  by (simp add: row_simps decode_row_11_def huff_leaves_11_def)

lemma row_12: "decode_row_12 = row_runs 3 huff_leaves_12"
  by (simp add: row_simps decode_row_12_def huff_leaves_12_def)

lemma row_13: "decode_row_13 = row_runs 3 huff_leaves_13"
  by (simp add: row_simps decode_row_13_def huff_leaves_13_def)

lemma row_14: "decode_row_14 = row_runs 3 huff_leaves_14"
  by (simp add: row_simps decode_row_14_def huff_leaves_14_def)

definition decode_rows :: "u16 list list" where
  "decode_rows = [decode_row_0, decode_row_1, decode_row_2, decode_row_3, decode_row_4, decode_row_5,
    decode_row_6, decode_row_7, decode_row_8, decode_row_9, decode_row_10, decode_row_11, decode_row_12,
    decode_row_13, decode_row_14]"

lemma DECODE_TABLE_rows: "DECODE_TABLE = concat decode_rows"
  by (simp add: DECODE_TABLE_def decode_rows_def)

lemma length_decode_rows: "length decode_rows = 15" "r \<in> set decode_rows \<Longrightarrow> length r = 256"
  by (auto simp: decode_rows_def decode_row_defs)

lemma concat_nth_block:
  "\<forall>r \<in> set rs. length r = n \<Longrightarrow> t < length rs \<Longrightarrow> i < n \<Longrightarrow> concat rs ! (t * n + i) = rs ! t ! i"
proof (induction rs arbitrary: t)
  case (Cons r rs)
  then show ?case by (cases t) (auto simp: nth_append algebra_simps)
qed simp

lemma length_DECODE_TABLE: "length DECODE_TABLE = 3840"
  by (simp add: DECODE_TABLE_rows length_concat decode_rows_def decode_row_defs)

lemma DECODE_TABLE_nth: "t < 15 \<Longrightarrow> i < 256 \<Longrightarrow> DECODE_TABLE ! (t * 256 + i) = decode_rows ! t ! i"
  using length_decode_rows by (simp add: DECODE_TABLE_rows concat_nth_block)

section \<open>The rows\<close>

text \<open>The runs of a row start where their code words, shifted to whole bytes, say.\<close>

fun row_chain :: "nat \<Rightarrow> nat \<Rightarrow> nat \<Rightarrow> (nat \<times> nat \<times> nat) list \<Rightarrow> bool" where
  "row_chain d base pos [] = True"
| "row_chain d base pos ((b, c, l) # ls) \<longleftrightarrow>
     8 * d < l \<and> l \<le> 8 * (d + 1) \<and> b < 256 \<and> c * 2 ^ (8 * (d + 1) - l) = base + pos \<and>
     row_chain d base (pos + 2 ^ (8 * (d + 1) - l)) ls"

lemma row_chains: "list_all (\<lambda>(t, d, p, ls). t < 15 \<and> d < 4 \<and> row_chain d (p * 256) 0 ls) huff_rows"
  by (simp add: huff_rows_def huff_leaves_defs)

lemma rows_runs: "list_all (\<lambda>(t, d, p, ls). \<exists>r. decode_rows ! t = row_runs d ls @ r) huff_rows"
  by (simp add: huff_rows_def decode_rows_def row_0 row_1 row_2 row_3 row_4 row_5 row_6 row_7 row_8 row_9
      row_10 row_11 row_12 row_13 row_14)

lemma row_runs_nth:
  assumes "row_chain d base pos ls" "(b, c, l) \<in> set ls" "j < 2 ^ (8 * (d + 1) - l)"
  shows "base + pos \<le> c * 2 ^ (8 * (d + 1) - l) \<and>
    (let i = c * 2 ^ (8 * (d + 1) - l) + j - (base + pos) in
     i < length (row_runs d ls) \<and> row_runs d ls ! i = of_nat ((l - 8 * d) * 256 + b))"
  using assms
proof (induction d base pos ls rule: row_chain.induct)
  case (2 d base pos b1 c1 l1 ls)
  define n where "n = (2 :: nat) ^ (8 * (d + 1) - l1)"
  have runs: "row_runs d ((b1, c1, l1) # ls) = replicate n (of_nat ((l1 - 8 * d) * 256 + b1)) @ row_runs d ls"
    by (simp add: row_runs_def n_def)
  show ?case
  proof (cases "(b, c, l) = (b1, c1, l1)")
    case True
    with 2 show ?thesis by (simp add: runs nth_append n_def Let_def)
  next
    case False
    with 2 have "base + (pos + n) \<le> c * 2 ^ (8 * (d + 1) - l) \<and>
      (let i = c * 2 ^ (8 * (d + 1) - l) + j - (base + (pos + n)) in
       i < length (row_runs d ls) \<and> row_runs d ls ! i = of_nat ((l - 8 * d) * 256 + b))"
      by (auto simp: n_def)
    then show ?thesis by (auto simp: runs nth_append Let_def add.assoc)
  qed
qed simp

lemma row_chain_bounds:
  "row_chain d base pos ls \<Longrightarrow> (b, c, l) \<in> set ls \<Longrightarrow> 8 * d < l \<and> l \<le> 8 * (d + 1) \<and> b < 256"
  by (induction d base pos ls rule: row_chain.induct) auto

text \<open>The branches: table, index, table of the next byte.\<close>

definition links :: "(nat \<times> nat \<times> nat) list" where
  "links = [(0, 0xfe, 5), (0, 0xff, 1), (1, 0xfe, 6), (1, 0xff, 2), (2, 0xf6, 8), (2, 0xf7, 13),
    (2, 0xf8, 7), (2, 0xf9, 9), (2, 0xfa, 12), (2, 0xfb, 10), (2, 0xfc, 11), (2, 0xfd, 14),
    (2, 0xfe, 3), (2, 0xff, 4)]"

lemma link_entries:
  "list_all (\<lambda>(t, i, t'). t < 15 \<and> t' < 15 \<and> 0 < t' \<and> decode_rows ! t ! i = of_nat (0x8000 + 256 * t')) links"
  by (simp add: links_def decode_rows_def decode_row_0_def decode_row_1_def decode_row_2_def)

lemma link_parents:
  "list_all (\<lambda>(t, d, p, ls). d = 0 \<and> t = 0 \<and> p = 0 \<or> list_ex (\<lambda>(t1, i, t2). t2 = t \<and> i = p mod 256 \<and>
     list_ex (\<lambda>(t3, d3, p3, ls3). t3 = t1 \<and> d = d3 + 1 \<and> p3 = p div 256) huff_rows) links) huff_rows"
  by (simp add: links_def huff_rows_def)

section \<open>The walk\<close>

text \<open>The first \<open>m\<close> bits of the accumulator as a number.\<close>

definition top_bits :: "nat \<Rightarrow> u64 \<Rightarrow> nat" where
  "top_bits m a = unat (drop_bit (64 - m) a)"

lemma top_bits_div: "m \<le> n \<Longrightarrow> n \<le> 64 \<Longrightarrow> top_bits m a = top_bits n a div 2 ^ (n - m)"
proof -
  assume "m \<le> n" "n \<le> 64"
  then have "drop_bit (64 - m) a = drop_bit (n - m) (drop_bit (64 - n) a)" by simp
  then show ?thesis by (simp only: top_bits_def unat_drop_bit_eq drop_bit_eq_div [where 'a = nat])
qed

lemma top_byte: "d \<le> 7 \<Longrightarrow> unat (drop_bit 56 (push_bit (8 * d) a)) = top_bits (8 * (d + 1)) a mod 256"
proof -
  assume d: "d \<le> 7"
  have "drop_bit 56 (push_bit (8 * d) a) = take_bit 8 (drop_bit (64 - 8 * (d + 1)) a)"
    using d by (intro bit_word_eqI) (auto simp: bit_simps)
  then show ?thesis
    by (simp only: top_bits_def unsigned_take_bit_eq take_bit_eq_mod [where 'a = nat]) simp
qed

lemma top_bits_less: "m \<le> 64 \<Longrightarrow> top_bits m a < 2 ^ m"
proof -
  assume m: "m \<le> 64"
  have "unat a < 2 ^ LENGTH(64)" by (rule unsigned_less)
  then have "unat a < 2 ^ m * 2 ^ (64 - m)" using m by (simp flip: power_add)
  then show ?thesis
    by (simp only: top_bits_def unat_drop_bit_eq drop_bit_eq_div [where 'a = nat] less_mult_imp_div_less)
qed

lemma top_byte_less: "unat (drop_bit 56 (a :: u64)) < 256"
  using top_bits_less [of 8 a] by (simp add: top_bits_def)

text \<open>The state after \<open>n\<close> bits are gone.\<close>

definition consume :: "nat \<Rightarrow> huff_state \<Rightarrow> huff_state" where
  "consume n s = s\<lparr>acc := push_bit n (acc s), hbits := hbits s - n\<rparr>"

lemma consume_0 [simp]: "consume 0 s = s"
  by (simp add: consume_def)

lemma consume_consume [simp]: "consume m (consume n s) = consume (n + m) s"
  by (simp add: consume_def add.commute)

lemma consume_sel [simp]:
  "acc (consume n s) = push_bit n (acc s)" "hbits (consume n s) = hbits s - n"
  "hdst (consume n s) = hdst s" "hout (consume n s) = hout s" "hpos (consume n s) = hpos s"
  by (simp_all add: consume_def)

text \<open>Entries: a leaf has its length and its byte, a branch its table.\<close>

lemma bit_BRANCH: "bit BRANCH n \<longleftrightarrow> n = 15"
proof -
  have "BRANCH = push_bit 15 1" by (simp add: BRANCH_def)
  then have "bit BRANCH n \<longleftrightarrow> bit (push_bit 15 1 :: u16) n" by simp
  also have "\<dots> \<longleftrightarrow> n = 15" by (auto simp only: bit_simps) auto
  finally show ?thesis .
qed

lemma and_BRANCH:
  assumes "\<not> bit e 15"
  shows "e AND BRANCH = 0"
proof (rule bit_word_eqI)
  fix n :: nat
  show "bit (e AND BRANCH) n = bit 0 n"
    using assms by (cases "n = 15") (simp_all only: bit_and_iff bit_BRANCH, simp_all)
qed

lemma leaf_entry:
  assumes "u \<le> 8" "b < 256"
  shows "(of_nat (u * 256 + b) :: u16) AND BRANCH = 0"
    "unat (drop_bit 8 (of_nat (u * 256 + b) :: u16)) = u" "ucast (of_nat (u * 256 + b) :: u16) = (of_nat b :: u8)"
proof -
  let ?e = "of_nat (u * 256 + b) :: u16"
  have lt: "u * 256 + b < 2 ^ 15" using assms by simp
  then have e: "unat ?e = u * 256 + b"
    by (simp only: unat_of_nat take_bit_nat_eq_self_iff) simp
  have "take_bit 15 ?e = ?e"
    using lt e by (simp only: word_unat_eq_iff unsigned_take_bit_eq take_bit_nat_eq_self_iff)
  then have "\<not> bit ?e 15" by (metis bit_take_bit_iff less_irrefl)
  then show "?e AND BRANCH = 0" by (rule and_BRANCH)
  show "unat (drop_bit 8 ?e) = u"
    using assms(2) by (simp only: unat_drop_bit_eq e drop_bit_eq_div [where 'a = nat]) simp
  have "unat (ucast ?e :: u8) = unat (of_nat b :: u8)"
    using assms(2) by (simp only: unsigned_ucast_eq e unat_of_nat) (simp add: take_bit_eq_mod mod_mod_cancel)
  then show "ucast ?e = (of_nat b :: u8)" by (simp only: word_unat_eq_iff)
qed

lemma branch_entry:
  "list_all (\<lambda>(t, i, t'). (of_nat (0x8000 + 256 * t') :: u16) AND BRANCH \<noteq> 0 \<and>
     unat (drop_bit 8 ((of_nat (0x8000 + 256 * t') :: u16) AND TABLE_INDEX_MASK)) = t') links"
  by (simp add: links_def BRANCH_def TABLE_INDEX_MASK_def)

lemma slow_step_branch:
  assumes "(t, i, t') \<in> set links" "unat (drop_bit 56 (acc s)) = i"
  shows "slow_loop t s =
    (if hbits s < 8 then (Err InvalidHuffmanCode, s) else slow_loop t' (consume 8 s))"
proof -
  have t: "t < 15" "0 < t'" "decode_rows ! t ! i = of_nat (0x8000 + 256 * t')"
    using assms(1) link_entries by (auto simp: list_all_iff)
  have i: "i < 256" using assms(1) by (auto simp: links_def)
  have e: "DECODE_TABLE ! (t * 256 + i) = of_nat (0x8000 + 256 * t')"
    using DECODE_TABLE_nth [OF t(1) i] t(3) by simp
  note b = branch_entry [unfolded list_all_iff, rule_format, OF assms(1), simplified prod.case]
  have "t * 256 + i < 3840" using t(1) i by simp
  then show ?thesis
    using b t(2) assms(2)
    by (subst slow_loop.simps)
      (simp only: Let_def TABLE_WIDTH_def e length_DECODE_TABLE consume_def if_True if_False not_True_eq_False
        simp_thms, auto)
qed

lemma slow_step_leaf:
  assumes "t < 15" "d < 4" "u \<le> 8" "b < 256" "DECODE_TABLE ! (t * 256 + unat (drop_bit 56 (acc s))) = of_nat (u * 256 + b)"
  shows "slow_loop t s =
    (if hbits s < u then (Err InvalidHuffmanCode, s)
     else if \<not> hout s < length (hdst s) then (Panic, s)
     else (Ok (), consume u (s\<lparr>hdst := (hdst s)[hout s := of_nat b], hout := hout s + 1\<rparr>)))"
proof -
  have "unat (drop_bit 56 (acc s)) < 256" by (rule top_byte_less)
  then have "t * 256 + unat (drop_bit 56 (acc s)) < 3840" using assms(1) by simp
  then show ?thesis
    using assms(3) leaf_entry [OF assms(3,4)]
    by (subst slow_loop.simps)
      (simp only: Let_def TABLE_WIDTH_def assms(5) length_DECODE_TABLE if_True if_False not_True_eq_False
        simp_thms, auto simp: shl64_def consume_def)
qed

text \<open>Reading the bytes that lead to a table, the walk is in that table, or the input is too short.\<close>

lemma slow_descend:
  assumes "(t, d, p, ls) \<in> set huff_rows" "top_bits (8 * d) (acc s) = p"
  shows "if hbits s < 8 * d then fst (slow_loop 0 s) = Err InvalidHuffmanCode
    else slow_loop 0 s = slow_loop t (consume (8 * d) s)"
  using assms
proof (induction d arbitrary: t p ls)
  case 0
  then have "t = 0" using link_parents by (auto simp: list_all_iff list_ex_iff)
  then show ?case by simp
next
  case (Suc d)
  have d: "d < 3" using Suc.prems(1) row_chains by (auto simp: list_all_iff)
  obtain t1 ls1 where l: "(t1, p mod 256, t) \<in> set links" and r: "(t1, d, p div 256, ls1) \<in> set huff_rows"
    using link_parents Suc.prems(1) by (fastforce simp: list_all_iff list_ex_iff)
  have p: "top_bits (8 * d) (acc s) = p div 256"
    using top_bits_div [of "8 * d" "8 * Suc d" "acc s"] d Suc.prems(2) by simp
  have i: "unat (drop_bit 56 (acc (consume (8 * d) s))) = p mod 256"
    using top_byte [of d "acc s"] d Suc.prems(2) by simp
  show ?case
    using Suc.IH [OF r p] slow_step_branch [OF l i] by (auto split: if_splits simp: add.commute)
qed

text \<open>A code word at the start of the accumulator is decoded, if it is there completely.\<close>

lemma slow_code:
  assumes "top_bits (code_len b) (acc s) = unat (ENCODE_CODES ! unat b)" "hout s < length (hdst s)"
  shows "if hbits s < code_len b then fst (decode_code_slow s) = Err InvalidHuffmanCode
    else decode_code_slow s =
      (Ok (), consume (code_len b) (s\<lparr>hdst := (hdst s)[hout s := b], hout := hout s + 1\<rparr>))"
proof -
  obtain c l where e: "(unat b, c, l) \<in> set huff_sorted" and l: "code_len b = l"
    and c: "unat (ENCODE_CODES ! unat b) = c" by (rule code_entry [of b])
  then obtain t d p ls where r: "(t, d, p, ls) \<in> set huff_rows" and m: "(unat b, c, l) \<in> set ls"
    by (auto simp: huff_sorted_def)
  from r row_chains have ch: "t < 15" "d < 4" "row_chain d (p * 256) 0 ls"
    by (auto simp: list_all_iff)
  from r rows_runs obtain rest where row: "decode_rows ! t = row_runs d ls @ rest"
    by (auto simp: list_all_iff)
  have lb: "8 * d < l" "l \<le> 8 * (d + 1)" "unat b < 256"
    using row_chain_bounds [OF ch(3) m] by auto
  define k where "k = 8 * (d + 1) - l"
  define v where "v = top_bits (8 * (d + 1)) (acc s)"
  have "c = v div 2 ^ k"
    using top_bits_div [of l "8 * (d + 1)" "acc s"] lb ch(2) assms(1) l c by (simp add: v_def k_def)
  then have v: "v = c * 2 ^ k + v mod 2 ^ k" by (metis div_mult_mod_eq)
  have pos: "p * 256 \<le> c * 2 ^ k"
    and run: "c * 2 ^ k + v mod 2 ^ k - p * 256 < length (row_runs d ls)"
      "row_runs d ls ! (c * 2 ^ k + v mod 2 ^ k - p * 256) = of_nat ((l - 8 * d) * 256 + unat b)"
    using row_runs_nth [OF ch(3) m, of "v mod 2 ^ k"] by (simp_all add: k_def Let_def del: of_nat_add of_nat_mult)
  have ib: "v - p * 256 < length (decode_rows ! t)"
    and iv: "decode_rows ! t ! (v - p * 256) = of_nat ((l - 8 * d) * 256 + unat b)"
    using run v by (simp_all add: row nth_append del: of_nat_add of_nat_mult)
  moreover have "length (decode_rows ! t) = 256" using ch(1) length_decode_rows by simp
  ultimately have i: "v - p * 256 < 256" by simp
  have "p * 256 \<le> v" using pos v by linarith
  then have vp: "v = p * 256 + (v - p * 256)" by simp
  have p: "top_bits (8 * d) (acc s) = p" and vm: "v mod 256 = v - p * 256"
  proof -
    have "v div 256 = p \<and> v mod 256 = v - p * 256"
      using i by (subst (1 2) vp) simp
    then show "top_bits (8 * d) (acc s) = p" "v mod 256 = v - p * 256"
      using top_bits_div [of "8 * d" "8 * (d + 1)" "acc s"] ch(2) by (simp_all add: v_def)
  qed
  have "unat (drop_bit 56 (acc (consume (8 * d) s))) = v - p * 256"
    using top_byte [of d "acc s"] ch(2) vm by (simp add: v_def)
  then have "DECODE_TABLE ! (t * 256 + unat (drop_bit 56 (acc (consume (8 * d) s)))) =
      of_nat ((l - 8 * d) * 256 + unat b)"
    using DECODE_TABLE_nth [OF ch(1) i] iv by simp
  from slow_step_leaf [OF ch(1,2) _ lb(3) this] lb(1,2)
  have leaf: "slow_loop t (consume (8 * d) s) =
      (if hbits s - 8 * d < l - 8 * d then (Err InvalidHuffmanCode, consume (8 * d) s)
       else (Ok (), consume (l - 8 * d) (consume (8 * d) s \<lparr>hdst := (hdst s)[hout s := b], hout := hout s + 1\<rparr>)))"
    using assms(2) by simp
  show ?thesis
    using slow_descend [OF r p] leaf lb(1) l
    by (auto simp: decode_code_slow_def consume_def split: if_splits)
qed

text \<open>The code words leave only the 30 ones of the end-of-string symbol; there the walk fails.\<close>

lemma intervals_cover:
  "intervals lo ts \<Longrightarrow> lo \<le> v \<Longrightarrow> v < lo + sum_list (map (\<lambda>(b, c, l). 2 ^ (30 - l)) ts) \<Longrightarrow>
     \<exists>(b, c, l) \<in> set ts. v div 2 ^ (30 - l) = c"
proof (induction lo ts rule: intervals.induct)
  case (2 lo b c l ts)
  show ?case
  proof (cases "v < lo + 2 ^ (30 - l)")
    case True
    have "v div 2 ^ (30 - l) = c" using True 2 by (intro div_nat_eqI) (auto simp: mult.commute)
    then show ?thesis by auto
  next
    case False
    then show ?thesis using 2 by fastforce
  qed
qed simp

lemma huff_total: "sum_list (map (\<lambda>(b, c, l). 2 ^ (30 - l)) huff_sorted) = (2 :: nat) ^ 30 - 1"
  by (simp add: huff_sorted_def huff_rows_def huff_leaves_defs)

lemma some_code:
  assumes "top_bits 30 a \<noteq> 2 ^ 30 - 1"
  shows "\<exists>b. top_bits (code_len b) a = unat (ENCODE_CODES ! unat b)"
proof -
  have "top_bits 30 a < 2 ^ 30" by (rule top_bits_less) simp
  with assms have "top_bits 30 a < 2 ^ 30 - 1" by simp
  then have "\<exists>(b, c, l) \<in> set huff_sorted. top_bits 30 a div 2 ^ (30 - l) = c"
    by (intro intervals_cover [OF huff_intervals]) (simp_all add: huff_total)
  then obtain b c l where e: "(b, c, l) \<in> set huff_sorted" and c: "top_bits 30 a div 2 ^ (30 - l) = c" by blast
  note r = intervals_entry [OF huff_intervals e]
  have "b < 256" using e huff_lengths by (auto simp: list_all_iff)
  then have b: "unat (of_nat b :: u8) = b" by (simp add: unat_of_nat take_bit_nat_eq_self_iff)
  have "(2 :: nat) ^ l \<le> 2 ^ 30" using r by (intro power_increasing) auto
  with r have "c < 2 ^ 30" by linarith
  then have "code_len (of_nat b) = l" "unat (ENCODE_CODES ! unat (of_nat b :: u8)) = c"
    using huff_entries e r b by (auto simp: list_all_iff code_len_def unat_of_nat take_bit_nat_eq_self_iff)
  then show ?thesis using c top_bits_div [of l 30 a] r by (intro exI [of _ "of_nat b"]) simp
qed

lemma row_4_last: "252 \<le> i \<Longrightarrow> i < 256 \<Longrightarrow> decode_rows ! 4 ! i = 0x80ff"
proof -
  assume "252 \<le> i" "i < 256"
  then have "i = 252 \<or> i = 253 \<or> i = 254 \<or> i = 255" by linarith
  then show ?thesis by (elim disjE) (simp_all add: decode_rows_def decode_row_4_def)
qed

lemma slow_none:
  assumes "\<nexists>b. top_bits (code_len b) (acc s) = unat (ENCODE_CODES ! unat b)"
  shows "fst (decode_code_slow s) = Err InvalidHuffmanCode"
proof -
  have t: "top_bits 30 (acc s) = 2 ^ 30 - 1" using some_code assms by blast
  have "top_bits 24 (acc s) = 0xffffff"
    using top_bits_div [of 24 30 "acc s"] t by simp
  then have p: "top_bits (8 * 3) (acc s) = 0xffffff" by simp
  have r: "(4, 3, 0xffffff, huff_leaves_4) \<in> set huff_rows" by (simp add: huff_rows_def)
  define v where "v = top_bits 32 (acc s)"
  have "v div 4 = 1073741823" using top_bits_div [of 30 32 "acc s"] t by (simp add: v_def)
  then have v: "v = 4294967292 + v mod 4" using div_mult_mod_eq [of v 4] by simp
  have m: "v mod 4 < 4" by simp
  have "(4294967292 + v mod 4) mod 256 = (252 + v mod 4) mod 256"
    by (subst mod_add_left_eq [symmetric]) simp
  then have "v mod 256 = 252 + v mod 4" using m by (subst v) simp
  then have i: "252 \<le> v mod 256" "v mod 256 < 256" using m by simp_all
  have "unat (drop_bit 56 (acc (consume (8 * 3) s))) = v mod 256"
    using top_byte [of 3 "acc s"] by (simp add: v_def)
  then have "DECODE_TABLE ! (4 * 256 + unat (drop_bit 56 (acc (consume (8 * 3) s)))) = 0x80ff"
    using DECODE_TABLE_nth [of 4, OF _ i(2)] row_4_last [OF i] by simp
  moreover have "4 * 256 + unat (drop_bit 56 (acc (consume (8 * 3) s))) < 3840"
    using top_byte_less [of "acc (consume (8 * 3) s)"] by linarith
  ultimately have "fst (slow_loop 4 (consume (8 * 3) s)) = Err InvalidHuffmanCode"
    by (subst slow_loop.simps)
      (simp only: Let_def TABLE_WIDTH_def length_DECODE_TABLE not_True_eq_False if_False,
        simp add: BRANCH_def TABLE_INDEX_MASK_def)
  then show ?thesis
    using slow_descend [OF r p] by (auto simp: decode_code_slow_def split: if_splits)
qed

end
