(* ===== verification/Huffman_Fast.thy ===== *)
theory Huffman_Fast
  imports Huffman_Slow
begin

text \<open>
  The table of the fast path (\<open>build_fast_table\<close>): the entry of 12 bits is the pair of code_val words
  that they start with, the single code_val word where no second one fits, and zero where not even
  one fits. That at most one code_val word code_starts given bits makes the order in which the table is
  filled irrelevant, except that the pairs come after the single codes.
\<close>

section \<open>Code words at the start of bits\<close>

definition code_val :: "u8 \<Rightarrow> nat" where
  "code_val b = unat (ENCODE_CODES ! unat b)"

definition code_starts :: "u8 \<Rightarrow> u64 \<Rightarrow> bool" where
  "code_starts b a \<longleftrightarrow> top_bits (code_len b) a = code_val b"

lemma bits_of_top: "n \<le> 64 \<Longrightarrow> bits_of n (drop_bit (64 - n) (a :: u64)) = take n (bits_of 64 a)"
  using bits_of_split [of "64 - n" 64 a] by simp

lemma unat_ucast_u64: "unat (ucast (w :: u32) :: u64) = unat w"
proof -
  have "unat w < 2 ^ LENGTH(32)" by (rule unsigned_less)
  then show ?thesis by (simp add: unsigned_ucast_eq take_bit_nat_eq_self_iff)
qed

lemma starts_bits: "code_starts b a \<longleftrightarrow> take (code_len b) (bits_of 64 a) = code_bits b"
proof -
  let ?n = "code_len b"
  have n: "?n \<le> 64" using code_len_bounds [of b] by simp
  have t: "take_bit ?n (drop_bit (64 - ?n) a) = drop_bit (64 - ?n) a"
    using top_bits_less [OF n, of a]
    by (simp only: top_bits_def word_unat_eq_iff [where 'a = 64] unsigned_take_bit_eq take_bit_nat_eq_self_iff)
  have "bits_of ?n (drop_bit (64 - ?n) a) = bits_of ?n (ucast (ENCODE_CODES ! unat b) :: u64) \<Longrightarrow>
      drop_bit (64 - ?n) a = ucast (ENCODE_CODES ! unat b)"
    by (rule bits_of_inj [OF _ t code_bits_u64(2)])
  then have "bits_of ?n (drop_bit (64 - ?n) a) = bits_of ?n (ucast (ENCODE_CODES ! unat b) :: u64) \<longleftrightarrow>
      drop_bit (64 - ?n) a = ucast (ENCODE_CODES ! unat b)"
    by (rule iffI) (assumption, simp only:)
  also have "\<dots> \<longleftrightarrow> top_bits ?n a = code_val b"
    by (simp only: top_bits_def code_val_def word_unat_eq_iff [where 'a = 64] unat_ucast_u64)
  finally show ?thesis by (simp add: code_starts_def bits_of_top n code_bits_u64(1))
qed

lemma code_take_unique:
  assumes "take (code_len a) xs = code_bits a" "take (code_len b) xs = code_bits b"
  shows "a = b"
proof -
  have le: "a = b" if "code_len a \<le> code_len b" "take (code_len a) xs = code_bits a" "take (code_len b) xs = code_bits b"
    for a b
  proof (rule code_prefix_free)
    have "take (code_len a) (code_bits b) = code_bits a"
      using that by (metis min.absorb1 take_take)
    then show "code_bits b = code_bits a @ drop (code_len a) (code_bits b)" by (metis append_take_drop_id)
  qed
  then show ?thesis using assms by (metis nle_le)
qed

lemma starts_unique: "code_starts a x \<Longrightarrow> code_starts b x \<Longrightarrow> a = b"
  using code_take_unique by (simp add: starts_bits)

lemma top_bits_push: "k + m \<le> 64 \<Longrightarrow> top_bits m (push_bit k a) = top_bits (k + m) a mod 2 ^ m"
proof -
  assume "k + m \<le> 64"
  then have "drop_bit (64 - m) (push_bit k a) = take_bit m (drop_bit (64 - (k + m)) a)"
    by (intro bit_word_eqI) (auto simp: bit_simps add.commute [of m k])
  then show ?thesis
    by (simp only: top_bits_def unsigned_take_bit_eq take_bit_eq_mod [where 'a = nat])
qed

section \<open>Filling the table\<close>

lemma length_fill_range [simp]: "length (fill_range base n v t) = length t"
  unfolding fill_range_def by (induction n) simp_all

lemma fill_range_nth:
  "i < length t \<Longrightarrow> fill_range base n v t ! i = (if base \<le> i \<and> i < base + n then v else t ! i)"
proof (induction n)
  case (Suc n)
  have "fill_range base (Suc n) v t = (fill_range base n v t)[base + n := v]"
    by (simp add: fill_range_def)
  with Suc show ?case by (cases "i = base + n") auto
qed (auto simp: fill_range_def)

lemma range_div: "0 < n \<Longrightarrow> q * n \<le> i \<and> i < q * n + n \<longleftrightarrow> i div n = (q :: nat)"
  by (auto simp: div_nat_eqI mult.commute dest: dividend_less_times_div [of n i])

text \<open>A fold that writes one entry for each of its arguments that hits the index.\<close>

lemma fold_hit:
  assumes "\<forall>x \<in> set xs. \<forall>t. length t = n \<longrightarrow> length (f x t) = n \<and> f x t ! i = (if P x then v x else t ! i)"
    and "length t = n"
  shows "length (fold f xs t) = n \<and>
    (\<forall>x \<in> set xs. P x \<longrightarrow> (\<forall>y \<in> set xs. P y \<longrightarrow> v y = v x) \<longrightarrow> fold f xs t ! i = v x) \<and>
    ((\<forall>x \<in> set xs. \<not> P x) \<longrightarrow> fold f xs t ! i = t ! i)"
  using assms
proof (induction xs arbitrary: t)
  case (Cons x xs)
  have f: "length (f x t) = n" "f x t ! i = (if P x then v x else t ! i)"
    using bspec [OF Cons.prems(1), of x] Cons.prems(2) by simp_all
  have fs: "\<forall>x \<in> set xs. \<forall>t. length t = n \<longrightarrow> length (f x t) = n \<and> f x t ! i = (if P x then v x else t ! i)"
    using Cons.prems(1) by (meson list.set_intros(2))
  have IH: "length (fold f xs (f x t)) = n"
    "\<And>x'. x' \<in> set xs \<Longrightarrow> P x' \<Longrightarrow> \<forall>y \<in> set xs. P y \<longrightarrow> v y = v x' \<Longrightarrow> fold f xs (f x t) ! i = v x'"
    "\<forall>x \<in> set xs. \<not> P x \<Longrightarrow> fold f xs (f x t) ! i = f x t ! i"
    using Cons.IH [OF fs f(1)] by blast+
  show ?case
  proof (intro conjI ballI impI)
    show "length (fold f (x # xs) t) = n" using IH(1) by simp
    fix y
    assume y: "y \<in> set (x # xs)" "P y" "\<forall>z \<in> set (x # xs). P z \<longrightarrow> v z = v y"
    show "fold f (x # xs) t ! i = v y"
    proof (cases "\<exists>z \<in> set xs. P z")
      case True
      then obtain z where z: "z \<in> set xs" "P z" by blast
      have "\<forall>y \<in> set xs. P y \<longrightarrow> v y = v z" using y(3) z by (metis list.set_intros(2))
      then have "fold f xs (f x t) ! i = v z" using IH(2) z by blast
      then show ?thesis using y(3) z by simp
    next
      case False
      with y(1,2) have "x = y" by auto
      then show ?thesis using False IH(3) f(2) y(2) by simp
    qed
  next
    assume "\<forall>y \<in> set (x # xs). \<not> P y"
    then show "fold f (x # xs) t ! i = t ! i" using IH(3) f(2) by simp
  qed
qed simp

section \<open>The entries\<close>

definition entry1 :: "u8 \<Rightarrow> u32" where
  "entry1 a = push_bit 16 1 OR push_bit 24 (of_nat (code_len a)) OR of_nat (unat a)"

definition entry2 :: "u8 \<Rightarrow> u8 \<Rightarrow> u32" where
  "entry2 a b = push_bit 16 2 OR push_bit 24 (of_nat (code_len a + code_len b)) OR
     push_bit 8 (of_nat (unat b)) OR of_nat (unat a)"

lemma small_bits: "m < 256 \<Longrightarrow> 8 \<le> n \<Longrightarrow> \<not> bit (m :: nat) n"
proof -
  assume "m < 256" "8 \<le> n"
  moreover have "(2 :: nat) ^ 8 \<le> 2 ^ n" using \<open>8 \<le> n\<close> by (rule power_increasing) simp
  ultimately have "m < 2 ^ n" by simp
  then show ?thesis by (simp add: bit_iff_odd)
qed

lemma packed_entry:
  assumes "c < 256" "l < 256" "b < 256" "a < 256"
  defines "e \<equiv> push_bit 16 (of_nat c) OR push_bit 24 (of_nat l) OR push_bit 8 (of_nat b) OR of_nat a :: u32"
  shows "unat (drop_bit 24 e) = l" "unat (drop_bit 16 e AND 0xff) = c"
    "ucast e = (of_nat a :: u8)" "ucast (drop_bit 8 e) = (of_nat b :: u8)"
proof -
  have u: "unat (of_nat m :: u32) = m" if "m < 256" for m
    using that by (simp add: unat_of_nat take_bit_nat_eq_self_iff)
  note nb = small_bits [OF assms(1)] small_bits [OF assms(2)] small_bits [OF assms(3)] small_bits [OF assms(4)]
  have "drop_bit 24 e = of_nat l"
    by (rule bit_word_eqI) (auto simp: e_def bit_simps nb not_less, metis nb(2) not_less)
  then show "unat (drop_bit 24 e) = l" using u [OF assms(2)] by simp
  have "drop_bit 16 e AND 0xff = take_bit 8 (drop_bit 16 e)" by (simp add: take_bit_eq_mask mask_eq_exp_minus_1)
  also have "\<dots> = of_nat c"
    by (rule bit_word_eqI) (auto simp: e_def bit_simps nb not_less)
  finally show "unat (drop_bit 16 e AND 0xff) = c" using u [OF assms(1)] by simp
  show "ucast e = (of_nat a :: u8)"
    by (rule bit_word_eqI) (auto simp: e_def bit_simps nb not_less)
  show "ucast (drop_bit 8 e) = (of_nat b :: u8)"
    by (rule bit_word_eqI) (auto simp: e_def bit_simps nb not_less)
qed

lemma entry1_fields:
  "unat (drop_bit 24 (entry1 a)) = code_len a" "unat (drop_bit 16 (entry1 a) AND 0xff) = 1"
  "ucast (entry1 a) = a" "ucast (drop_bit 8 (entry1 a)) = (0 :: u8)"
  using packed_entry [of 1 "code_len a" 0 "unat a"] code_len_bounds [of a] unsigned_less [of a, where 'a = nat]
  by (simp_all add: entry1_def)

lemma entry2_fields:
  "unat (drop_bit 24 (entry2 a b)) = code_len a + code_len b" "unat (drop_bit 16 (entry2 a b) AND 0xff) = 2"
  "ucast (entry2 a b) = a" "ucast (drop_bit 8 (entry2 a b)) = b"
  using packed_entry [of 2 "code_len a + code_len b" "unat b" "unat a"] code_len_bounds [of a] code_len_bounds [of b]
    unsigned_less [of a, where 'a = nat] unsigned_less [of b, where 'a = nat]
  by (simp_all add: entry2_def)

lemma code_less: "code_val b < 2 ^ code_len b"
  using code_entry [of b] by (metis code_val_def)

lemma byte_index: "a < 256 \<Longrightarrow> unat (of_nat a :: u8) = a"
  by (simp add: unat_of_nat take_bit_nat_eq_self_iff)

lemma fill_single_nth:
  assumes "a < 256" "length t = 4096"
  shows "length (fill_single a t) = 4096 \<and> fill_single a t ! top_bits 12 x =
    (if code_len (of_nat a) \<le> 12 \<and> code_starts (of_nat a) x then entry1 (of_nat a) else t ! top_bits 12 x)"
proof (cases "code_len (of_nat a) \<le> 12")
  case True
  let ?b = "of_nat a :: u8"
  define n where "n = (2 :: nat) ^ (12 - code_len ?b)"
  have f: "fill_single a t = fill_range (code_val ?b * n) n (entry1 ?b) t"
    using True byte_index [OF assms(1)]
    by (simp add: fill_single_def FAST_BITS_def code_len_def code_val_def entry1_def Let_def push_bit_eq_mult n_def)
  have "top_bits 12 x < 4096" using top_bits_less [of 12 x] by simp
  moreover have "code_val ?b * n \<le> top_bits 12 x \<and> top_bits 12 x < code_val ?b * n + n \<longleftrightarrow> code_starts ?b x"
    using range_div [of n "code_val ?b" "top_bits 12 x"] top_bits_div [OF True, of x]
    by (simp add: code_starts_def n_def)
  ultimately show ?thesis using True assms(2) by (simp add: f fill_range_nth)
next
  case False
  then show ?thesis
    using assms byte_index [OF assms(1)] by (simp add: fill_single_def FAST_BITS_def code_len_def Let_def)
qed

lemma or_disjoint: "m < 2 ^ k \<Longrightarrow> push_bit k q OR m = q * 2 ^ k + (m :: nat)"
proof -
  assume m: "m < 2 ^ k"
  have "\<not> bit m n" if "k \<le> n" for n
  proof -
    have "(2 :: nat) ^ k \<le> 2 ^ n" using that by (rule power_increasing) simp
    with m have "m < 2 ^ n" by (rule less_le_trans)
    then show ?thesis by (simp add: bit_iff_odd)
  qed
  then have "push_bit k q + m = push_bit k q OR m"
    by (intro disjunctive_add_eq_or bit_eqI) (auto simp: bit_simps)
  then show ?thesis by (simp add: push_bit_eq_mult)
qed

lemma fill_pair_nth:
  assumes "a < 256" "b < 256" "length t = 4096" "code_len (of_nat a) + 5 \<le> 12"
  shows "length (fill_pair a b t) = 4096 \<and> fill_pair a b t ! top_bits 12 x =
    (if code_len (of_nat a) + code_len (of_nat b) \<le> 12 \<and> code_starts (of_nat a) x \<and>
        code_starts (of_nat b) (push_bit (code_len (of_nat a)) x)
     then entry2 (of_nat a) (of_nat b) else t ! top_bits 12 x)"
proof (cases "code_len (of_nat a) + code_len (of_nat b) \<le> 12")
  case True
  let ?a = "of_nat a :: u8" and ?b = "of_nat b :: u8"
  define la lb where "la = code_len ?a" and "lb = code_len ?b"
  define n where "n = (2 :: nat) ^ (12 - la - lb)"
  define q where "q = code_val ?a * 2 ^ lb + code_val ?b"
  have l: "la + lb \<le> 12" using True by (simp add: la_def lb_def)
  then have l2: "lb \<le> 12 - la" by simp
  have pow: "2 ^ lb * n = 2 ^ (12 - la)" using l by (simp add: n_def flip: power_add)
  have "code_val ?b * n < 2 ^ lb * n" using code_less [of ?b] by (simp add: lb_def n_def)
  then have "push_bit (12 - la) (code_val ?a) OR code_val ?b * n = code_val ?a * (2 ^ lb * n) + code_val ?b * n"
    by (simp only: pow or_disjoint)
  then have base: "push_bit (12 - la) (code_val ?a) OR code_val ?b * n = q * n"
    by (simp add: q_def algebra_simps)
  have f: "fill_pair a b t = fill_range (q * n) n (entry2 ?a ?b) t"
    using l l2 byte_index [OF assms(1)] byte_index [OF assms(2)] base
    by (simp add: fill_pair_def FAST_BITS_def code_len_def code_val_def entry2_def Let_def push_bit_eq_mult n_def
        la_def lb_def)
  define v where "v = top_bits (la + lb) x"
  have "v div 2 ^ lb = top_bits la x" using l top_bits_div [of la "la + lb" x] by (simp add: v_def)
  moreover have "v mod 2 ^ lb = top_bits lb (push_bit la x)" using l by (simp add: v_def top_bits_push)
  moreover have "v = q \<longleftrightarrow> v div 2 ^ lb = code_val ?a \<and> v mod 2 ^ lb = code_val ?b"
    using code_less [of ?b] by (auto simp: q_def lb_def) (metis div_mult_mod_eq)
  ultimately have "v = q \<longleftrightarrow> code_starts ?a x \<and> code_starts ?b (push_bit la x)"
    by (simp add: code_starts_def la_def lb_def)
  moreover have "q * n \<le> top_bits 12 x \<and> top_bits 12 x < q * n + n \<longleftrightarrow> v = q"
    using range_div [of n q "top_bits 12 x"] top_bits_div [OF l, of x] by (simp add: v_def n_def)
  moreover have "top_bits 12 x < 4096" using top_bits_less [of 12 x] by simp
  ultimately show ?thesis using True assms(3) by (simp add: f fill_range_nth la_def)
next
  case False
  then have "\<not> code_len (of_nat b) \<le> 12 - code_len (of_nat a)" using assms(4) by simp
  then show ?thesis
    using assms False byte_index [OF assms(1)] byte_index [OF assms(2)]
    by (simp add: fill_pair_def FAST_BITS_def code_len_def Let_def)
qed

section \<open>The whole table\<close>

lemma fold_singles:
  "length (fold fill_single [0..<256] (replicate 4096 0)) = 4096"
  "code_len a \<le> 12 \<Longrightarrow> code_starts a x \<Longrightarrow> fold fill_single [0..<256] (replicate 4096 0) ! top_bits 12 x = entry1 a"
  "(\<And>a. code_starts a x \<Longrightarrow> 12 < code_len a) \<Longrightarrow> fold fill_single [0..<256] (replicate 4096 0) ! top_bits 12 x = 0"
proof -
  have step: "\<forall>a \<in> set [0..<256]. \<forall>t. length t = 4096 \<longrightarrow> length (fill_single a t) = 4096 \<and>
      fill_single a t ! top_bits 12 x = (if code_len (of_nat a) \<le> 12 \<and> code_starts (of_nat a) x
        then entry1 (of_nat a) else t ! top_bits 12 x)"
    using fill_single_nth by simp
  note h = fold_hit [OF step length_replicate]
  show "length (fold fill_single [0..<256] (replicate 4096 0)) = 4096" using h by (rule conjunct1)
  have idx: "top_bits 12 x < 4096" using top_bits_less [of 12 x] by simp
  show "fold fill_single [0..<256] (replicate 4096 0) ! top_bits 12 x = entry1 a"
    if a: "code_len a \<le> 12" "code_starts a x"
  proof -
    have "unat a \<in> set [0..<256]" using unsigned_less [of a, where 'a = nat] by simp
    moreover have "code_len (of_nat (unat a)) \<le> 12 \<and> code_starts (of_nat (unat a)) x" using a by simp
    moreover have "entry1 (of_nat y) = entry1 (of_nat (unat a))" if "code_starts (of_nat y) x" for y
      using starts_unique [OF that a(2)] by simp
    ultimately have "fold fill_single [0..<256] (replicate 4096 0) ! top_bits 12 x = entry1 (of_nat (unat a))"
      using h by blast
    then show ?thesis by simp
  qed
  show "fold fill_single [0..<256] (replicate 4096 0) ! top_bits 12 x = 0"
    if "\<And>a. code_starts a x \<Longrightarrow> 12 < code_len a"
  proof -
    have "\<forall>a \<in> set [0..<256]. \<not> (code_len (of_nat a) \<le> 12 \<and> code_starts (of_nat a) x)"
      using that by (meson not_le)
    then have "fold fill_single [0..<256] (replicate 4096 0) ! top_bits 12 x = replicate 4096 0 ! top_bits 12 x"
      using h by blast
    then show ?thesis using idx by simp
  qed
qed

definition two_codes :: "u8 \<Rightarrow> u8 \<Rightarrow> u64 \<Rightarrow> bool" where
  "two_codes a b x \<longleftrightarrow> code_len a + code_len b \<le> 12 \<and> code_starts a x \<and> code_starts b (push_bit (code_len a) x)"

lemma two_unique: "two_codes a b x \<Longrightarrow> two_codes a' b' x \<Longrightarrow> a = a' \<and> b = b'"
  by (metis starts_unique two_codes_def)

lemma fill_pairs_nth:
  assumes "a < 256" "length t = 4096"
  shows "length (fill_pairs a t) = 4096 \<and> fill_pairs a t ! top_bits 12 x =
    (if \<exists>b. two_codes (of_nat a) b x then entry2 (of_nat a) (SOME b. two_codes (of_nat a) b x) else t ! top_bits 12 x)"
proof (cases "code_len (of_nat a) + 5 \<le> 12")
  case True
  have step: "\<forall>b \<in> set [0..<256]. \<forall>t. length t = 4096 \<longrightarrow> length (fill_pair a b t) = 4096 \<and>
      fill_pair a b t ! top_bits 12 x = (if two_codes (of_nat a) (of_nat b) x
        then entry2 (of_nat a) (of_nat b) else t ! top_bits 12 x)"
    using fill_pair_nth [OF assms(1) _ _ True] by (simp add: two_codes_def)
  note h = fold_hit [OF step assms(2)]
  have f: "fill_pairs a t = fold (fill_pair a) [0..<256] t"
    using True byte_index [OF assms(1)] by (simp add: fill_pairs_def FAST_BITS_def code_len_def)
  show ?thesis
  proof (cases "\<exists>b. two_codes (of_nat a) b x")
    case True
    then obtain b where b: "two_codes (of_nat a) b x" by blast
    then have some: "(SOME b. two_codes (of_nat a) b x) = b" using two_unique by blast
    have "unat b \<in> set [0..<256]" using unsigned_less [of b, where 'a = nat] by simp
    moreover have "two_codes (of_nat a) (of_nat (unat b)) x" using b by simp
    moreover have "entry2 (of_nat a) (of_nat y) = entry2 (of_nat a) (of_nat (unat b))"
      if "two_codes (of_nat a) (of_nat y) x" for y using two_unique [OF that b] by simp
    ultimately have "fold (fill_pair a) [0..<256] t ! top_bits 12 x = entry2 (of_nat a) (of_nat (unat b))"
      using h by blast
    then show ?thesis using conjunct1 [OF h] True some by (simp add: f)
  next
    case False
    then have "\<forall>b \<in> set [0..<256]. \<not> two_codes (of_nat a) (of_nat b) x" by blast
    then have "fold (fill_pair a) [0..<256] t ! top_bits 12 x = t ! top_bits 12 x" using h by blast
    then show ?thesis using conjunct1 [OF h] False by (simp add: f)
  qed
next
  case False
  have "\<not> two_codes (of_nat a) b x" for b using False code_len_bounds [of b] by (simp add: two_codes_def)
  then show ?thesis
    using False assms(2) byte_index [OF assms(1)] by (simp add: fill_pairs_def FAST_BITS_def code_len_def)
qed

text \<open>The table: two code words, one, or none.\<close>

lemma fast_table:
  "two_codes a b x \<Longrightarrow> build_fast_table ! top_bits 12 x = entry2 a b"
  "(\<And>a b. \<not> two_codes a b x) \<Longrightarrow> code_len a \<le> 12 \<Longrightarrow> code_starts a x \<Longrightarrow> build_fast_table ! top_bits 12 x = entry1 a"
  "(\<And>a. code_starts a x \<Longrightarrow> 12 < code_len a) \<Longrightarrow> build_fast_table ! top_bits 12 x = 0"
proof -
  let ?t = "fold fill_single [0..<256] (replicate 4096 (0 :: u32))"
  have step: "\<forall>a \<in> set [0..<256]. \<forall>t. length t = 4096 \<longrightarrow> length (fill_pairs a t) = 4096 \<and>
      fill_pairs a t ! top_bits 12 x = (if \<exists>b. two_codes (of_nat a) b x
        then entry2 (of_nat a) (SOME b. two_codes (of_nat a) b x) else t ! top_bits 12 x)"
    using fill_pairs_nth by simp
  note h = fold_hit [OF step fold_singles(1)]
  have f: "build_fast_table = fold fill_pairs [0..<256] ?t"
    by (simp add: build_fast_table_def FAST_BITS_def push_bit_eq_mult)
  show "build_fast_table ! top_bits 12 x = entry2 a b" if t: "two_codes a b x"
  proof -
    have some: "(SOME b. two_codes a b x) = b" using t two_unique by blast
    have "unat a \<in> set [0..<256]" using unsigned_less [of a, where 'a = nat] by simp
    moreover have "\<exists>b. two_codes (of_nat (unat a)) b x" using t by auto
    moreover have "entry2 (of_nat y) (SOME b. two_codes (of_nat y) b x) =
        entry2 (of_nat (unat a)) (SOME b. two_codes (of_nat (unat a)) b x)" if "\<exists>b. two_codes (of_nat y) b x" for y
      using that two_unique [OF _ t] by force
    ultimately have "fold fill_pairs [0..<256] ?t ! top_bits 12 x =
        entry2 (of_nat (unat a)) (SOME b. two_codes (of_nat (unat a)) b x)"
      using h by blast
    then show ?thesis using some by (simp add: f)
  qed
  have none: "build_fast_table ! top_bits 12 x = ?t ! top_bits 12 x" if "\<And>a b. \<not> two_codes a b x"
  proof -
    have "fold fill_pairs [0..<256] ?t ! top_bits 12 x = ?t ! top_bits 12 x" using h that by blast
    then show ?thesis by (simp add: f)
  qed
  show "build_fast_table ! top_bits 12 x = entry1 a"
    if "\<And>a b. \<not> two_codes a b x" "code_len a \<le> 12" "code_starts a x"
    using none fold_singles(2) that by simp
  show "build_fast_table ! top_bits 12 x = 0" if n: "\<And>a. code_starts a x \<Longrightarrow> 12 < code_len a"
  proof -
    have "\<not> two_codes a b x" for a b using n [of a] by (auto simp: two_codes_def)
    then show ?thesis using none fold_singles(3) n by simp
  qed
qed

end
