(* ===== verification/Huffman_Correct.thy ===== *)
theory Huffman_Correct
  imports Huffman_Fast
begin

text \<open>
  The Huffman decoder computes what the reference decoder computes. The accumulator holds the next
  bits of the input, and may hold further ones beyond the counted bits; every loop keeps this, moves
  through the input, and strips exactly the code words that the reference strips. The worst-case
  reservation of the output buffer, the fuel of the loops and the absence of panics follow.
\<close>

section \<open>The bits that are left\<close>

definition bits_left :: "bytes \<Rightarrow> huff_state \<Rightarrow> bool list" where
  "bits_left src s = drop (8 * hpos s - hbits s) (bytes_bits src)"

definition bit_inv :: "bytes \<Rightarrow> huff_state \<Rightarrow> bool" where
  "bit_inv src s \<longleftrightarrow> hbits s \<le> 64 \<and> hbits s \<le> 8 * hpos s \<and> hpos s \<le> length src \<and>
     (\<forall>i < 64. if i < hbits s then bit (acc s) (63 - i) = bits_left src s ! i
               else bit (acc s) (63 - i) \<longrightarrow> i < length (bits_left src s) \<and> bits_left src s ! i)"

definition out_inv :: "bytes \<Rightarrow> huff_state \<Rightarrow> bool" where
  "out_inv src s \<longleftrightarrow> length (hdst s) = length src * 8 div 5 + 1 \<and> 5 * hout s + hbits s \<le> 8 * hpos s"

definition huff_out :: "huff_state \<Rightarrow> bytes" where
  "huff_out s = take (hout s) (hdst s)"

lemma length_bytes_bits [simp]: "length (bytes_bits bs) = 8 * length bs"
  by (induction bs) simp_all

lemma bit_inv_bounds:
  assumes "bit_inv src s"
  shows "hbits s \<le> 64" "hbits s \<le> 8 * hpos s" "hpos s \<le> length src"
  using assms by (simp_all add: bit_inv_def)

lemma length_rest: "bit_inv src s \<Longrightarrow> length (bits_left src s) + 8 * hpos s = 8 * length src + hbits s"
  by (simp add: bits_left_def bit_inv_def)

lemma hbits_le_rest: "bit_inv src s \<Longrightarrow> hbits s \<le> length (bits_left src s)"
proof -
  assume inv: "bit_inv src s"
  then have "hpos s \<le> length src" by (simp add: bit_inv_def)
  with length_rest [OF inv] show ?thesis by linarith
qed

lemma bit_push_u64: "j < 64 \<Longrightarrow> bit (push_bit n (a :: u64)) j \<longleftrightarrow> n \<le> j \<and> bit a (j - n)"
  by (auto simp: bit_simps)

lemma take_acc:
  assumes "bit_inv src s" "k \<le> hbits s"
  shows "take k (bits_of 64 (acc s)) = take k (bits_left src s)"
  using assms hbits_le_rest [OF assms(1)]
  by (intro nth_equalityI) (auto simp: bit_inv_def nth_bits_of)

lemma bit_inv_consume:
  assumes "bit_inv src s" "n \<le> hbits s" "acc t = push_bit n (acc s)" "hbits t = hbits s - n" "hpos t = hpos s"
  shows "bit_inv src t \<and> bits_left src t = drop n (bits_left src s)"
proof -
  have r: "bits_left src t = drop n (bits_left src s)"
    using assms by (simp add: bits_left_def bit_inv_def add.commute)
  have l: "hbits s \<le> length (bits_left src s)" by (rule hbits_le_rest [OF assms(1)])
  have "if i < hbits t then bit (acc t) (63 - i) = bits_left src t ! i
        else bit (acc t) (63 - i) \<longrightarrow> i < length (bits_left src t) \<and> bits_left src t ! i" if i: "i < 64" for i
  proof (cases "i + n < 64")
    case True
    then have "n \<le> 63 - i" by linarith
    then have "bit (acc t) (63 - i) = bit (acc s) (63 - (i + n))"
      using i by (simp add: assms(3) bit_push_u64 diff_diff_left)
    moreover have "if i + n < hbits s then bit (acc s) (63 - (i + n)) = bits_left src s ! (i + n)
        else bit (acc s) (63 - (i + n)) \<longrightarrow> i + n < length (bits_left src s) \<and> bits_left src s ! (i + n)"
      using assms(1) True by (simp add: bit_inv_def)
    ultimately show ?thesis using assms(2,4) l by (auto simp: r add.commute split: if_splits)
  next
    case False
    then have "\<not> bit (acc t) (63 - i)" "\<not> i < hbits t"
      using i assms(1,2,4) by (auto simp: assms(3) bit_push_u64 bit_inv_def)
    then show ?thesis by simp
  qed
  then have "bit_inv src t" using assms(1,2,4,5) by (auto simp: bit_inv_def)
  with r show ?thesis by simp
qed

section \<open>The reference decoder, one code word at a time\<close>

definition huff_finish :: "bytes \<Rightarrow> bool list \<Rightarrow> (bytes, decoder_error) outcome" where
  "huff_finish d bits = (case strip_codes bits of (ds, r) \<Rightarrow>
     if 8 \<le> length r \<or> False \<in> set r then Err InvalidHuffmanCode else Ok (d @ ds))"

lemma reference_finish: "reference_decode src = huff_finish [] (bytes_bits src)"
  by (simp add: reference_decode_def huff_finish_def split: prod.split)

lemma find_symbol_iff: "find_symbol bits = Some b \<longleftrightarrow> take (code_len b) bits = code_bits b"
proof
  assume "find_symbol bits = Some b"
  then show "take (code_len b) bits = code_bits b" using find_symbol_Some by fastforce
next
  assume "take (code_len b) bits = code_bits b"
  then have "bits = code_bits b @ drop (code_len b) bits" by (metis append_take_drop_id)
  then show "find_symbol bits = Some b" using find_symbol_code by metis
qed

lemma finish_Some: "take (code_len b) bits = code_bits b \<Longrightarrow> huff_finish d bits = huff_finish (d @ [b]) (drop (code_len b) bits)"
  unfolding huff_finish_def by (subst strip_codes.simps) (simp add: find_symbol_iff [THEN iffD2] split: prod.splits)

lemma finish_None:
  assumes "\<And>b. take (code_len b) bits \<noteq> code_bits b"
  shows "huff_finish d bits = (if 8 \<le> length bits \<or> False \<in> set bits then Err InvalidHuffmanCode else Ok d)"
proof -
  have "find_symbol bits = None" using assms find_symbol_iff by (metis not_Some_eq)
  then show ?thesis unfolding huff_finish_def by (subst strip_codes.simps) simp
qed

section \<open>One code word from the table walk\<close>

lemma starts_rest:
  assumes "bit_inv src s" "code_len b \<le> hbits s"
  shows "code_starts b (acc s) \<longleftrightarrow> take (code_len b) (bits_left src s) = code_bits b"
  using take_acc [OF assms] by (simp add: starts_bits)

text \<open>When the bits that are there are enough for the longest code word, or are all that is left, no code
  word starts the rest unless it is there completely.\<close>

lemma code_in_bits:
  assumes "bit_inv src s" "30 \<le> hbits s \<or> hpos s = length src" "take (code_len b) (bits_left src s) = code_bits b"
  shows "code_len b \<le> hbits s \<and> code_starts b (acc s)"
proof -
  have "code_len b \<le> hbits s"
    using assms(2)
  proof
    assume "hpos s = length src"
    then have "length (bits_left src s) = hbits s" using length_rest [OF assms(1)] by simp
    then show ?thesis using arg_cong [OF assms(3), of length] by simp
  qed (use code_len_bounds [of b] in simp)
  then show ?thesis using starts_rest assms(1,3) by simp
qed

lemma slow_sim:
  assumes "bit_inv src s" "30 \<le> hbits s \<or> hpos s = length src" "hout s < length (hdst s)"
  shows "(\<exists>b. code_len b \<le> hbits s \<and> take (code_len b) (bits_left src s) = code_bits b \<and>
      decode_code_slow s = (Ok (), consume (code_len b) (s\<lparr>hdst := (hdst s)[hout s := b], hout := hout s + 1\<rparr>))) \<or>
    ((\<forall>b. take (code_len b) (bits_left src s) \<noteq> code_bits b) \<and> fst (decode_code_slow s) = Err InvalidHuffmanCode)"
proof (cases "\<exists>b. code_starts b (acc s)")
  case True
  then obtain b where b: "code_starts b (acc s)" by blast
  note slow = slow_code [OF b [unfolded code_starts_def code_val_def] assms(3)]
  show ?thesis
  proof (cases "code_len b \<le> hbits s")
    case True
    then show ?thesis using slow starts_rest [OF assms(1) True] b by auto
  next
    case False
    have "take (code_len c) (bits_left src s) \<noteq> code_bits c" for c
      using code_in_bits [OF assms(1,2)] starts_unique [OF b] False by blast
    then show ?thesis using slow False by simp
  qed
next
  case False
  have "take (code_len c) (bits_left src s) \<noteq> code_bits c" for c
    using code_in_bits [OF assms(1,2)] False by blast
  moreover have "fst (decode_code_slow s) = Err InvalidHuffmanCode"
    using False by (intro slow_none) (simp add: code_starts_def code_val_def)
  ultimately show ?thesis by simp
qed

text \<open>Writing one symbol.\<close>

lemma out_step:
  assumes "bit_inv src s" "out_inv src s" "n \<le> hbits s" "5 \<le> n" "hout s < length (hdst s)"
    "t = consume n (s\<lparr>hdst := (hdst s)[hout s := b], hout := hout s + 1\<rparr>)"
  shows "bit_inv src t \<and> bits_left src t = drop n (bits_left src s) \<and> out_inv src t \<and> huff_out t = huff_out s @ [b] \<and> hpos t = hpos s"
proof -
  have "bit_inv src t \<and> bits_left src t = drop n (bits_left src s)"
    using bit_inv_consume [OF assms(1,3), of t] by (simp add: assms(6))
  moreover have "out_inv src t"
    using assms(2-4) bit_inv_bounds [OF assms(1)] by (auto simp: out_inv_def assms(6))
  moreover have "huff_out t = huff_out s @ [b]"
    using assms(5) by (simp add: huff_out_def assms(6) take_Suc_conv_app_nth)
  ultimately show ?thesis by (simp add: assms(6))
qed

lemma room:
  assumes "bit_inv src s" "out_inv src s"
  shows "hout s < length (hdst s)" "5 \<le> hbits s \<Longrightarrow> hout s + 1 < length (hdst s)"
proof -
  have o: "5 * hout s + hbits s \<le> length src * 8" "length (hdst s) = length src * 8 div 5 + 1"
    using assms(2) bit_inv_bounds [OF assms(1)] unfolding out_inv_def by linarith+
  then have "hout s \<le> length src * 8 div 5" by (simp add: less_eq_div_iff_mult_less_eq)
  then show "hout s < length (hdst s)" using o(2) by simp
  show "hout s + 1 < length (hdst s)" if "5 \<le> hbits s"
  proof -
    have "hout s + 1 \<le> length src * 8 div 5" using o(1) that by (simp add: less_eq_div_iff_mult_less_eq)
    then show ?thesis using o(2) by simp
  qed
qed

section \<open>The loops\<close>

text \<open>What a loop that starts in \<open>s\<close> may deliver: a state from which the reference decoder goes on to the
  huff_same result, or the error that it ends with.\<close>

definition huff_same :: "bytes \<Rightarrow> huff_state \<Rightarrow> huff_state \<Rightarrow> bool" where
  "huff_same src s t \<longleftrightarrow> bit_inv src t \<and> out_inv src t \<and>
     huff_finish (huff_out t) (bits_left src t) = huff_finish (huff_out s) (bits_left src s)"

definition huff_fails :: "bytes \<Rightarrow> huff_state \<Rightarrow> bool" where
  "huff_fails src s \<longleftrightarrow> huff_finish (huff_out s) (bits_left src s) = Err InvalidHuffmanCode"

lemma same_trans: "huff_same src s t \<Longrightarrow> huff_same src t u \<Longrightarrow> huff_same src s u"
  by (simp add: huff_same_def)

lemma same_fails: "huff_same src s t \<Longrightarrow> huff_fails src t \<Longrightarrow> huff_fails src s"
  by (simp add: huff_same_def huff_fails_def)

lemma slow_same:
  assumes "bit_inv src s" "out_inv src s" "30 \<le> hbits s \<or> hpos s = length src"
  shows "(\<exists>t. decode_code_slow s = (Ok (), t) \<and> huff_same src s t \<and> hbits t < hbits s \<and> hpos t = hpos s) \<or>
    ((\<forall>b. take (code_len b) (bits_left src s) \<noteq> code_bits b) \<and> fst (decode_code_slow s) = Err InvalidHuffmanCode)"
  using slow_sim [OF assms(1,3) room(1) [OF assms(1,2)]]
proof (elim disjE exE conjE)
  fix b
  assume b: "code_len b \<le> hbits s" "take (code_len b) (bits_left src s) = code_bits b"
    and d: "decode_code_slow s = (Ok (), consume (code_len b) (s\<lparr>hdst := (hdst s)[hout s := b], hout := hout s + 1\<rparr>))"
  let ?t = "consume (code_len b) (s\<lparr>hdst := (hdst s)[hout s := b], hout := hout s + 1\<rparr>)"
  note o = out_step [OF assms(1,2) b(1) code_len_bounds(1) room(1) [OF assms(1,2)] refl]
  have "huff_finish (huff_out ?t) (bits_left src ?t) = huff_finish (huff_out s) (bits_left src s)"
    using o finish_Some [OF b(2)] by simp
  then have "huff_same src s ?t" using o by (simp add: huff_same_def)
  moreover have "hbits ?t < hbits s" using b(1) code_len_bounds [of b] by simp
  ultimately show ?thesis using d o by blast
qed blast

text \<open>One entry of the fast table.\<close>

lemma fast_one:
  assumes "bit_inv src s" "out_inv src s" "12 \<le> hbits s" "code_starts a (acc s)" "code_len a \<le> 12"
    "t = consume (code_len a) (s\<lparr>hdst := (hdst s)[hout s := a, hout s + 1 := b], hout := hout s + 1\<rparr>)"
  shows "huff_same src s t \<and> hpos t = hpos s \<and> hbits t < hbits s"
proof -
  have l: "code_len a \<le> hbits s" using assms(3,5) by simp
  have "bit_inv src t \<and> bits_left src t = drop (code_len a) (bits_left src s)"
    using bit_inv_consume [OF assms(1) l, of t] by (simp add: assms(6))
  moreover have "out_inv src t"
    using assms(2) l code_len_bounds [of a] bit_inv_bounds [OF assms(1)]
    by (auto simp: out_inv_def assms(6))
  moreover have "huff_out t = huff_out s @ [a]"
    using room(1) [OF assms(1,2)] by (simp add: huff_out_def assms(6) take_Suc_conv_app_nth)
  moreover have "take (code_len a) (bits_left src s) = code_bits a"
    using starts_rest [OF assms(1) l] assms(4) by simp
  ultimately show ?thesis
    using finish_Some [of a "bits_left src s" "huff_out s"] l code_len_bounds [of a] by (simp add: huff_same_def assms(6))
qed

lemma fast_two:
  assumes "bit_inv src s" "out_inv src s" "12 \<le> hbits s" "two_codes a b (acc s)"
    "t = consume (code_len a + code_len b) (s\<lparr>hdst := (hdst s)[hout s := a, hout s + 1 := b], hout := hout s + 2\<rparr>)"
  shows "huff_same src s t \<and> hpos t = hpos s \<and> hbits t < hbits s"
proof -
  have l: "code_len a + code_len b \<le> hbits s" "code_len a \<le> hbits s" using assms(3,4) by (simp_all add: two_codes_def)
  let ?u = "consume (code_len a) s"
  have u: "bit_inv src ?u \<and> bits_left src ?u = drop (code_len a) (bits_left src s)"
    using bit_inv_consume [OF assms(1) l(2), of ?u] by simp
  have t: "bit_inv src t \<and> bits_left src t = drop (code_len a + code_len b) (bits_left src s)"
    using bit_inv_consume [OF assms(1) l(1), of t] by (simp add: assms(5))
  have "out_inv src t"
    using assms(2) l code_len_bounds [of a] code_len_bounds [of b] bit_inv_bounds [OF assms(1)]
    by (auto simp: out_inv_def assms(5))
  moreover have "huff_out t = (huff_out s @ [a]) @ [b]"
    using room(2) [OF assms(1,2)] assms(3)
    by (simp add: huff_out_def assms(5) take_Suc_conv_app_nth numeral_2_eq_2)
  moreover have "take (code_len a) (bits_left src s) = code_bits a"
    using starts_rest [OF assms(1) l(2)] assms(4) by (simp add: two_codes_def)
  moreover have "take (code_len b) (drop (code_len a) (bits_left src s)) = code_bits b"
    using starts_rest [of src ?u b] u l assms(4) by (simp add: two_codes_def)
  ultimately show ?thesis
    using t finish_Some [of a "bits_left src s" "huff_out s"] finish_Some [of b "drop (code_len a) (bits_left src s)" "huff_out s @ [a]"]
      l code_len_bounds [of a]
    by (simp add: huff_same_def assms(5) add.commute)
qed

lemma fast_step:
  assumes "bit_inv src s" "out_inv src s" "12 \<le> hbits s"
  shows "(\<exists>t. huff_same src s t \<and> hpos t = hpos s \<and> hbits t < hbits s \<and> fast_loop (Suc fuel) src s = fast_loop fuel src t) \<or>
    (hbits s < 30 \<and> hpos s < length src \<and> fast_loop (Suc fuel) src s = Some (Ok True, s)) \<or>
    (huff_fails src s \<and> (\<exists>t. fast_loop (Suc fuel) src s = Some (Err InvalidHuffmanCode, t)))"
proof -
  have nb: "\<not> hbits s < FAST_BITS" using assms(3) by (simp add: FAST_BITS_def)
  have idx: "unat (drop_bit (64 - FAST_BITS) (acc s)) = top_bits 12 (acc s)"
    by (simp add: FAST_BITS_def top_bits_def)
  note room = room(2) [OF assms(1,2)]
  consider (pair) a b where "two_codes a b (acc s)"
    | (single) a where "\<And>a b. \<not> two_codes a b (acc s)" "code_len a \<le> 12" "code_starts a (acc s)"
    | (none) "\<And>a. code_starts a (acc s) \<Longrightarrow> 12 < code_len a"
    by (meson not_le)
  then show ?thesis
  proof cases
    case pair
    let ?t = "consume (code_len a + code_len b) (s\<lparr>hdst := (hdst s)[hout s := a, hout s + 1 := b], hout := hout s + 2\<rparr>)"
    have l: "code_len a + code_len b \<le> 12" using pair by (simp add: two_codes_def)
    have "fast_loop (Suc fuel) src s = fast_loop fuel src ?t"
      using nb room assms(3) l fast_table(1) [OF pair] entry2_fields [of a b]
      by (simp add: idx shl64_def consume_def Let_def)
    then show ?thesis using fast_two [OF assms pair refl] by blast
  next
    case single
    let ?t = "consume (code_len a) (s\<lparr>hdst := (hdst s)[hout s := a, hout s + 1 := 0], hout := hout s + 1\<rparr>)"
    have "fast_loop (Suc fuel) src s = fast_loop fuel src ?t"
      using nb room assms(3) single fast_table(2) [OF single] entry1_fields [of a]
      by (simp add: idx shl64_def consume_def Let_def)
    then show ?thesis using fast_one [OF assms single(3,2) refl] by blast
  next
    case none
    show ?thesis
    proof (cases "hbits s < 30 \<and> hpos s < length src")
      case True
      then show ?thesis using nb fast_table(3) [OF none] by (simp add: idx Let_def)
    next
      case False
      then have f: "fast_loop (Suc fuel) src s = (case decode_code_slow s of
          (Ok _, s) \<Rightarrow> fast_loop fuel src s
        | (Err e, s) \<Rightarrow> Some (Err e, s)
        | (Panic, s) \<Rightarrow> Some (Panic, s))"
        using nb fast_table(3) [OF none] by (auto simp: idx Let_def split: prod.split outcome.split)
      have p: "30 \<le> hbits s \<or> hpos s = length src" using False bit_inv_bounds [OF assms(1)] by auto
      show ?thesis
        using slow_same [OF assms(1,2) p]
      proof (elim disjE exE conjE)
        assume n: "\<forall>b. take (code_len b) (bits_left src s) \<noteq> code_bits b"
          and e: "fst (decode_code_slow s) = Err InvalidHuffmanCode"
        have "huff_fails src s"
          using n finish_None [of "bits_left src s" "huff_out s"] hbits_le_rest [OF assms(1)] assms(3) by (simp add: huff_fails_def)
        moreover obtain t where "decode_code_slow s = (Err InvalidHuffmanCode, t)" using e by (cases "decode_code_slow s") auto
        ultimately show ?thesis using f by auto
      qed (use f in auto)
    qed
  qed
qed

lemma fast_loop_sim:
  assumes "bit_inv src s" "out_inv src s" "hbits s < fuel"
  shows "(\<exists>t c. fast_loop fuel src s = Some (Ok c, t) \<and> huff_same src s t \<and> hpos t = hpos s \<and> hbits t < 30 \<and>
      (c \<longrightarrow> hpos s < length src) \<and> (\<not> c \<longrightarrow> hbits t < 12)) \<or>
    (huff_fails src s \<and> (\<exists>t. fast_loop fuel src s = Some (Err InvalidHuffmanCode, t)))"
  using assms
proof (induction fuel arbitrary: s)
  case (Suc fuel)
  show ?case
  proof (cases "hbits s < 12")
    case True
    then show ?thesis using Suc.prems by (auto simp: FAST_BITS_def huff_same_def)
  next
    case False
    then have "12 \<le> hbits s" by simp
    from fast_step [OF Suc.prems(1,2) this, of fuel] show ?thesis
    proof (elim disjE exE conjE)
      fix t
      assume t: "huff_same src s t" "hpos t = hpos s" "hbits t < hbits s"
        and f: "fast_loop (Suc fuel) src s = fast_loop fuel src t"
      have "bit_inv src t" "out_inv src t" "hbits t < fuel"
        using t Suc.prems(3) by (auto simp: huff_same_def)
      from Suc.IH [OF this] show ?thesis
        using same_trans [OF t(1)] same_fails [OF t(1)] t(2) unfolding f by metis
    next
      assume "hbits s < 30" "hpos s < length src" "fast_loop (Suc fuel) src s = Some (Ok True, s)"
      then show ?thesis using Suc.prems by (auto simp: huff_same_def simp del: fast_loop.simps)
    qed blast
  qed
qed simp

section \<open>Refilling\<close>

text \<open>Bits of the input that are moved into the accumulator, below those it has, keep the invariant.\<close>

lemma refill_inv:
  assumes "bit_inv src s" "8 * k + hbits s \<le> 64" "k + hpos s \<le> length src"
    and "hpos t = hpos s + k" "hbits t = hbits s + 8 * k"
    and "\<And>i. i < 64 \<Longrightarrow> bit (acc t) (63 - i) \<longleftrightarrow> bit (acc s) (63 - i) \<or>
        hbits s \<le> i \<and> i < hbits s + m \<and> i < length (bits_left src s) \<and> bits_left src s ! i"
    and "8 * k \<le> m"
  shows "bit_inv src t \<and> bits_left src t = bits_left src s"
proof -
  have b: "hbits s \<le> 8 * hpos s" using bit_inv_bounds [OF assms(1)] by simp
  have "8 * hpos t - hbits t = 8 * hpos s - hbits s" using assms(4,5) b by simp
  then have r: "bits_left src t = bits_left src s" by (simp add: bits_left_def)
  have l: "length (bits_left src s) + 8 * hpos s = 8 * length src + hbits s" by (rule length_rest [OF assms(1)])
  have "if i < hbits t then bit (acc t) (63 - i) = bits_left src t ! i
        else bit (acc t) (63 - i) \<longrightarrow> i < length (bits_left src t) \<and> bits_left src t ! i" if i: "i < 64" for i
  proof -
    have "if i < hbits s then bit (acc s) (63 - i) = bits_left src s ! i
        else bit (acc s) (63 - i) \<longrightarrow> i < length (bits_left src s) \<and> bits_left src s ! i"
      using assms(1) i by (simp add: bit_inv_def)
    moreover have "i < hbits s + 8 * k \<Longrightarrow> i < length (bits_left src s)" using l assms(3) by simp
    ultimately show ?thesis
      using assms(5,7) assms(6) [OF i] by (auto simp: r split: if_splits)
  qed
  moreover have "hbits t \<le> 64" "hbits t \<le> 8 * hpos t" "hpos t \<le> length src"
    using assms(2-5) b by simp_all
  ultimately have "bit_inv src t" by (simp add: bit_inv_def)
  with r show ?thesis by simp
qed

lemma nth_bytes_bits: "i < 8 * length bs \<Longrightarrow> bytes_bits bs ! i = bit (bs ! (i div 8)) (7 - i mod 8)"
proof (induction bs arbitrary: i)
  case (Cons b bs)
  show ?case
  proof (cases "i < 8")
    case True
    then show ?thesis by (simp add: nth_append nth_bits_of)
  next
    case False
    then have "bytes_bits (b # bs) ! i = bytes_bits bs ! (i - 8)" by (simp add: nth_append)
    also have "\<dots> = bit (bs ! ((i - 8) div 8)) (7 - (i - 8) mod 8)" using False Cons by simp
    finally show ?thesis using False by (simp add: nth_Cons' le_div_geq le_mod_geq)
  qed
qed simp

lemma rest_nth:
  "bit_inv src s \<Longrightarrow> hbits s + j < length (bits_left src s) \<Longrightarrow> bits_left src s ! (hbits s + j) = bytes_bits src ! (8 * hpos s + j)"
  using bit_inv_bounds [of src s] by (simp add: bits_left_def)

lemma refill_bytes_inv:
  assumes "bit_inv src s"
  shows "bit_inv src (refill_bytes src s) \<and> bits_left src (refill_bytes src s) = bits_left src s \<and>
    hout (refill_bytes src s) = hout s \<and> hdst (refill_bytes src s) = hdst s \<and>
    8 * hpos (refill_bytes src s) + hbits s = 8 * hpos s + hbits (refill_bytes src s) \<and>
    hpos s \<le> hpos (refill_bytes src s) \<and>
    (hbits s \<le> 56 \<and> hpos s < length src \<longrightarrow> hpos s < hpos (refill_bytes src s))"
  using assms
proof (induction src s rule: refill_bytes.induct)
  case (1 src s)
  show ?case
  proof (cases "hbits s \<le> 56 \<and> hpos s < length src")
    case True
    let ?t = "s\<lparr>acc := acc s OR push_bit (56 - hbits s) (ucast (src ! hpos s)), hpos := hpos s + 1, hbits := hbits s + 8\<rparr>"
    have l: "length (bits_left src s) + 8 * hpos s = 8 * length src + hbits s" by (rule length_rest [OF "1.prems"])
    have "bit (acc ?t) (63 - i) \<longleftrightarrow> bit (acc s) (63 - i) \<or>
        hbits s \<le> i \<and> i < hbits s + 8 \<and> i < length (bits_left src s) \<and> bits_left src s ! i" if i: "i < 64" for i
    proof -
      have "bit (push_bit (56 - hbits s) (ucast (src ! hpos s)) :: u64) (63 - i) \<longleftrightarrow>
          56 - hbits s \<le> 63 - i \<and> bit (src ! hpos s) (63 - i - (56 - hbits s))"
        using i by (simp add: bit_push_u64 bit_ucast_iff) linarith
      also have "\<dots> \<longleftrightarrow> hbits s \<le> i \<and> i < hbits s + 8 \<and> i < length (bits_left src s) \<and> bits_left src s ! i"
      proof (cases "hbits s \<le> i \<and> i < hbits s + 8")
        case inr: True
        define j where "j = i - hbits s"
        have j: "j < 8" "i = hbits s + j" using inr by (auto simp: j_def)
        have lt: "i < length (bits_left src s)" using l True inr by linarith
        have "bits_left src s ! i = bytes_bits src ! (8 * hpos s + j)"
          using rest_nth [OF "1.prems", of j] lt j by simp
        also have "\<dots> = bit (src ! hpos s) (7 - j)"
          using j True by (simp add: nth_bytes_bits)
        also have "7 - j = 63 - i - (56 - hbits s)" using j True i by simp
        finally show ?thesis using inr lt i True by auto
      next
        case False
        have "\<not> bit (src ! hpos s) (63 - i - (56 - hbits s))" if "i < hbits s" "56 - hbits s \<le> 63 - i"
          using that True by (intro bit_u8_beyond) linarith
        then show ?thesis using False i True by auto
      qed
      finally show ?thesis by (simp add: bit_or_iff)
    qed
    then have t: "bit_inv src ?t \<and> bits_left src ?t = bits_left src s"
      using True by (intro refill_inv [OF "1.prems", where k = 1 and m = 8]) auto
    have e: "refill_bytes src s = refill_bytes src ?t" using True by (subst refill_bytes.simps) simp
    show ?thesis using "1.IH" [OF True] t by (simp add: e)
  next
    case False
    then have "refill_bytes src s = s" by (subst refill_bytes.simps) (simp only: if_False)
    then show ?thesis using "1.prems" False by simp
  qed
qed

text \<open>The refill by eight bytes: the bytes beyond those counted land in the accumulator all the same.\<close>

lemma bytes_bits_take_drop: "bytes_bits (take n (drop m bs)) = take (8 * n) (drop (8 * m) (bytes_bits bs))"
proof (induction bs arbitrary: m n)
  case (Cons b bs)
  then show ?case using Cons.IH [of _ 0] by (cases m; cases n) simp_all
qed simp

lemma be_u64_bits:
  assumes "length bs = 8"
  shows "bits_of 64 (be_u64 bs) = bytes_bits bs"
proof -
  have gen: "bits_of (n + 8 * length bs) (fold (\<lambda>b w. push_bit 8 w OR ucast b) bs w) = bits_of n w @ bytes_bits bs"
    if "n + 8 * length bs \<le> 64" for n and w :: u64 and bs :: bytes
    using that
  proof (induction bs arbitrary: n w)
    case (Cons b bs)
    have "take_bit 8 (ucast b :: u64) = ucast b"
      by (rule bit_word_eqI) (auto simp: bit_simps dest: bit_imp_le_length)
    then have "bits_of (n + 8) (push_bit 8 w OR ucast b) = bits_of n w @ bits_of 8 b"
      using Cons.prems by (simp add: bits_of_append bits_of_ucast)
    then show ?case using Cons.IH [of "n + 8" "push_bit 8 w OR ucast b"] Cons.prems by (simp add: add.assoc)
  qed simp
  show ?thesis using gen [of 0 bs 0] assms by (simp add: be_u64_def)
qed

lemma or_56: "(n :: nat) < 64 \<Longrightarrow> n OR 56 = n + 8 * drop_bit 3 (63 - n)"
proof -
  assume "n < 64"
  then have "n \<in> set [0..<64]" by simp
  moreover have "\<forall>n \<in> set [0..<64]. (n :: nat) OR 56 = n + 8 * drop_bit 3 (63 - n)"
    by code_simp
  ultimately show ?thesis by blast
qed

lemma refill_sim:
  assumes "bit_inv src s" "out_inv src s" "hbits s < 30"
  shows "\<exists>t. refill src s = (Ok (), t) \<and> huff_same src s t \<and> hpos s \<le> hpos t \<and> (hpos s < length src \<longrightarrow> hpos s < hpos t)"
proof (cases "hpos s + 8 \<le> length src")
  case False
  let ?t = "refill_bytes src s"
  note r = refill_bytes_inv [OF assms(1)]
  have "huff_same src s ?t" using r assms(2) by (auto simp: huff_same_def huff_out_def out_inv_def)
  moreover have "hpos s < length src \<longrightarrow> hpos s < hpos ?t" using r assms(3) by simp
  ultimately show ?thesis using False r by (simp add: refill_def)
next
  case True
  let ?w = "be_u64 (take 8 (drop (hpos s) src))"
  define k where "k = drop_bit 3 (63 - hbits s)"
  define t where "t = s\<lparr>acc := acc s OR drop_bit (hbits s) ?w, hpos := hpos s + k, hbits := hbits s + 8 * k\<rparr>"
  have k: "k = (63 - hbits s) div 8" by (simp add: k_def drop_bit_eq_div)
  have eq: "refill src s = (Ok (), t)"
    using True assms(3) or_56 [of "hbits s"] by (simp add: refill_def shr64_def t_def k_def)
  have k1: "8 * k + hbits s \<le> 64" "0 < k" "k \<le> 7" using assms(3) by (auto simp: k)
  have w: "bits_of 64 ?w = take 64 (drop (8 * hpos s) (bytes_bits src))"
    using True by (simp add: be_u64_bits bytes_bits_take_drop)
  have "bit (acc t) (63 - i) \<longleftrightarrow> bit (acc s) (63 - i) \<or>
      hbits s \<le> i \<and> i < hbits s + 64 \<and> i < length (bits_left src s) \<and> bits_left src s ! i" if i: "i < 64" for i
  proof (cases "hbits s \<le> i")
    case inr: True
    have lt: "i < length (bits_left src s)" using length_rest [OF assms(1)] True i by linarith
    have "bits_left src s ! i = bytes_bits src ! (8 * hpos s + (i - hbits s))"
      using rest_nth [OF assms(1), of "i - hbits s"] lt inr by simp
    also have "\<dots> = take 64 (drop (8 * hpos s) (bytes_bits src)) ! (i - hbits s)"
      using i True by simp
    also have "\<dots> = bits_of 64 ?w ! (i - hbits s)" by (simp add: w)
    also have "\<dots> = bit ?w (63 - (i - hbits s))" using i by (simp add: nth_bits_of)
    also have "\<dots> = bit (drop_bit (hbits s) ?w) (63 - i)"
      using i inr by (simp add: bit_drop_bit_eq add.commute)
    finally show ?thesis using inr lt i by (auto simp: t_def bit_or_iff)
  next
    case False
    then have "\<not> bit (drop_bit (hbits s) ?w) (63 - i)"
      using i by (auto simp: bit_drop_bit_eq dest!: bit_imp_le_length)
    then show ?thesis using False by (auto simp: t_def bit_or_iff)
  qed
  then have "bit_inv src t \<and> bits_left src t = bits_left src s"
    using k1 True by (intro refill_inv [OF assms(1), where k = k and m = 64]) (auto simp: t_def)
  then have "huff_same src s t" using assms(2) by (simp add: huff_same_def huff_out_def out_inv_def t_def)
  then show ?thesis using eq k1 by (simp add: t_def)
qed

section \<open>The whole decoder\<close>

lemma outer_loop_sim:
  assumes "bit_inv src s" "out_inv src s" "hbits s < 30" "length src - hpos s < fuel"
  shows "(\<exists>t. outer_loop fuel src s = Some (Ok (), t) \<and> huff_same src s t \<and> hpos t = length src) \<or>
    (huff_fails src s \<and> (\<exists>t. outer_loop fuel src s = Some (Err InvalidHuffmanCode, t)))"
  using assms
proof (induction fuel arbitrary: s)
  case (Suc fuel)
  obtain t where t: "refill src s = (Ok (), t)" "huff_same src s t" "hpos s \<le> hpos t" "hpos s < length src \<longrightarrow> hpos s < hpos t"
    using refill_sim [OF Suc.prems(1-3)] by blast
  have inv: "bit_inv src t" "out_inv src t" "hbits t < FAST_FUEL"
    using t(2) bit_inv_bounds [of src t] by (auto simp: huff_same_def FAST_FUEL_def)
  from fast_loop_sim [OF inv] show ?case
  proof (elim disjE exE conjE)
    fix u c
    assume u: "fast_loop FAST_FUEL src t = Some (Ok c, u)" "huff_same src t u" "hpos u = hpos t" "hbits u < 30"
      and c: "c \<longrightarrow> hpos t < length src"
    have su: "huff_same src s u" using same_trans [OF t(2) u(2)] .
    show ?thesis
    proof (cases "length src \<le> hpos u")
      case True
      then have "\<not> c" "hpos u = length src" using c u(2,3) bit_inv_bounds [of src u] by (auto simp: huff_same_def)
      then show ?thesis using t(1) u(1) su by auto
    next
      case False
      then have o: "outer_loop (Suc fuel) src s = outer_loop fuel src u" using t(1) u(1) by simp
      have "bit_inv src u" "out_inv src u" "length src - hpos u < fuel"
        using u(2,3) t(3,4) False Suc.prems(4) by (auto simp: huff_same_def)
      from Suc.IH [OF this(1,2) u(4) this(3)] show ?thesis
        unfolding o using same_trans [OF su] same_fails [OF su] by blast
    qed
  next
    fix u
    assume "huff_fails src t" "fast_loop FAST_FUEL src t = Some (Err InvalidHuffmanCode, u)"
    then show ?thesis using t(1) same_fails [OF t(2)] by auto
  qed
qed simp

lemma all_ones:
  assumes "bit_inv src s" "hpos s = length src" "hbits s < 8"
  shows "drop_bit (64 - hbits s) (acc s) = push_bit (hbits s) 1 - 1 \<longleftrightarrow> bits_left src s = replicate (hbits s) True"
proof -
  let ?n = "hbits s"
  let ?w = "drop_bit (64 - ?n) (acc s)"
  have l: "length (bits_left src s) = ?n" using length_rest [OF assms(1)] assms(2) by simp
  have "bits_of ?n ?w = bits_left src s"
    using take_acc [OF assms(1), of ?n] assms(3) l by (simp add: bits_of_top)
  moreover have "bits_of ?n (mask ?n :: u64) = replicate ?n True" using assms(3) by (simp add: bits_of_mask)
  moreover have "take_bit ?n ?w = ?w"
    using top_bits_less [of ?n "acc s"] assms(3)
    by (simp only: top_bits_def word_unat_eq_iff [where 'a = 64] unsigned_take_bit_eq take_bit_nat_eq_self_iff)
  moreover have "take_bit ?n (mask ?n :: u64) = mask ?n" by simp
  ultimately have "?w = mask ?n \<longleftrightarrow> bits_left src s = replicate ?n True" using bits_of_inj by metis
  then show ?thesis by (simp add: ones_below)
qed

lemma tail_loop_sim:
  assumes "bit_inv src s" "out_inv src s" "hpos s = length src" "hbits s < fuel"
  shows "(\<exists>t. tail_loop fuel s = Some (Ok (), t) \<and> huff_finish (huff_out s) (bits_left src s) = Ok (huff_out t)) \<or>
    (huff_fails src s \<and> (\<exists>t. tail_loop fuel s = Some (Err InvalidHuffmanCode, t)))"
  using assms
proof (induction fuel arbitrary: s)
  case (Suc fuel)
  have l: "length (bits_left src s) = hbits s" using length_rest [OF Suc.prems(1)] Suc.prems(3) by simp
  show ?case
  proof (cases "hbits s < 8 \<and> bits_left src s = replicate (hbits s) True")
    case True
    then have "take (code_len b) (bits_left src s) \<noteq> code_bits b" for b
      using code_not_ones [of "hbits s" b] by (metis append_take_drop_id)
    then have "huff_finish (huff_out s) (bits_left src s) = Ok (huff_out s)"
      using finish_None [of "bits_left src s" "huff_out s"] True by simp
    moreover have "tail_loop (Suc fuel) s = Some (Ok (), s)"
      using all_ones [OF Suc.prems(1,3)] True by simp
    ultimately show ?thesis by blast
  next
    case False
    then have z: "hbits s \<noteq> 0" using l by (cases "bits_left src s") auto
    have pad: "\<not> (hbits s < 8 \<and> drop_bit (64 - hbits s) (acc s) = push_bit (hbits s) 1 - 1)"
      using False all_ones [OF Suc.prems(1,3)] by blast
    have f: "tail_loop (Suc fuel) s = (case decode_code_slow s of
        (Ok _, s) \<Rightarrow> tail_loop fuel s
      | (Err e, s) \<Rightarrow> Some (Err e, s)
      | (Panic, s) \<Rightarrow> Some (Panic, s))"
      by (simp only: tail_loop.simps z pad if_False)
    from slow_same [OF Suc.prems(1,2) disjI2, OF Suc.prems(3)] show ?thesis
    proof (elim disjE exE conjE)
      fix t
      assume t: "decode_code_slow s = (Ok (), t)" "huff_same src s t" "hbits t < hbits s" "hpos t = hpos s"
      have "bit_inv src t" "out_inv src t" "hpos t = length src" "hbits t < fuel"
        using t Suc.prems(3,4) by (auto simp: huff_same_def)
      from Suc.IH [OF this] show ?thesis
        using t(1,2) by (auto simp: f huff_same_def huff_fails_def simp del: tail_loop.simps)
    next
      assume n: "\<forall>b. take (code_len b) (bits_left src s) \<noteq> code_bits b"
        and e: "fst (decode_code_slow s) = Err InvalidHuffmanCode"
      have "8 \<le> length (bits_left src s) \<or> False \<in> set (bits_left src s)"
        using False l by (metis not_le replicate_eqI)
      then have "huff_fails src s" using n finish_None [of "bits_left src s" "huff_out s"] by (simp add: huff_fails_def)
      moreover obtain t where "decode_code_slow s = (Err InvalidHuffmanCode, t)" using e by (cases "decode_code_slow s") auto
      ultimately show ?thesis using f by (auto simp del: tail_loop.simps)
    qed
  qed
qed simp

lemma start_inv:
  "bit_inv src \<lparr>acc = 0, hbits = 0, hpos = 0, hout = 0, hdst = replicate (length src * 8 div 5 + 1) 0\<rparr>"
  "out_inv src \<lparr>acc = 0, hbits = 0, hpos = 0, hout = 0, hdst = replicate (length src * 8 div 5 + 1) 0\<rparr>"
  by (simp_all add: bit_inv_def out_inv_def)

lemma huff_decode_cases:
  "(\<exists>d. reference_decode src = Ok d \<and> huff_decode src buf = Some (Ok (buf @ d), [])) \<or>
   (\<exists>junk. reference_decode src = Err InvalidHuffmanCode \<and> huff_decode src buf = Some (Err InvalidHuffmanCode, junk))"
proof -
  define s where "s = \<lparr>acc = 0, hbits = 0, hpos = 0, hout = 0, hdst = replicate (length src * 8 div 5 + 1) (0 :: u8)\<rparr>"
  have r: "reference_decode src = huff_finish (huff_out s) (bits_left src s)"
    by (simp add: reference_finish huff_out_def bits_left_def s_def)
  have inv: "bit_inv src s" "out_inv src s" "hbits s < 30" "length src - hpos s < length src + 1"
    using start_inv by (simp_all add: s_def)
  from outer_loop_sim [OF inv] show ?thesis
  proof (elim disjE exE conjE)
    fix t
    assume t: "outer_loop (length src + 1) src s = Some (Ok (), t)" "huff_same src s t" "hpos t = length src"
    then have "bit_inv src t" "out_inv src t" "hbits t < FAST_FUEL"
      using bit_inv_bounds [of src t] by (auto simp: huff_same_def FAST_FUEL_def)
    from tail_loop_sim [OF this(1,2) t(3) this(3)] show ?thesis
    proof (elim disjE exE conjE)
      fix u
      assume "tail_loop FAST_FUEL t = Some (Ok (), u)" "huff_finish (huff_out t) (bits_left src t) = Ok (huff_out u)"
      then show ?thesis
        using t(1,2) r by (auto simp: huff_decode_def huff_same_def huff_out_def s_def simp del: outer_loop.simps tail_loop.simps)
    next
      fix u
      assume "huff_fails src t" "tail_loop FAST_FUEL t = Some (Err InvalidHuffmanCode, u)"
      then show ?thesis
        using t(1,2) r by (auto simp: huff_decode_def huff_same_def huff_fails_def s_def simp del: outer_loop.simps tail_loop.simps)
    qed
  next
    fix t
    assume "huff_fails src s" "outer_loop (length src + 1) src s = Some (Err InvalidHuffmanCode, t)"
    then show ?thesis
      using r by (auto simp: huff_decode_def huff_fails_def s_def simp del: outer_loop.simps)
  qed
qed

text \<open>C26: The table-driven decoder is the reference decoder of the tests, on every input, valid or not: the
  same bytes, appended to what the buffer holds, or \<open>InvalidHuffmanCode\<close>. In particular all loops end within
  their fuel, no index is huff_out of range (the reserved output is always enough), no shift is by 64 or more and
  no subtraction goes below zero.\<close>

theorem huffman_decode_correct:
  "map_option fst (huff_decode src buf) = Some (case reference_decode src of
     Ok d \<Rightarrow> Ok (buf @ d) | Err e \<Rightarrow> Err e | Panic \<Rightarrow> Panic)"
  using huff_decode_cases [of src buf] by auto

text \<open>C27: What the encoder writes, the decoder reads back; nothing is left in the buffer.\<close>

theorem huffman_decode_encode:
  "\<exists>enc. huff_encode src dst = Some (dst @ enc) \<and> huff_decode enc buf = Some (Ok (buf @ src), [])"
proof -
  obtain enc pad where e: "huff_encode src dst = Some (dst @ enc)" "pad < 8"
      "bytes_bits enc = concat (map code_bits src) @ replicate pad True"
    using huff_encode_bits by blast
  have "reference_decode enc = Ok src"
    using e(2,3) strip_codes_encoded [OF e(2)] by (simp add: reference_decode_def)
  then show ?thesis using e(1) huff_decode_cases [of enc buf] by auto
qed

end
