(* ===== verification/Hpack_Dyn.thy ===== *)
theory Hpack_Dyn
  imports Hpack_Header
begin

text \<open>
  The dynamic table of the HPACK decoder (\<open>struct Table\<close> of \<open>src/hpack/decoder.rs\<close>): a queue of entries, newest
  first, with a running size. The loops that evict are translated as loops; the specification is
  \<open>fitting\<close>: after every operation the table holds the longest prefix of the entries that fits
  in the maximum size, which is the eviction rule of RFC 7541, section 4.4.
\<close>

record dyn_table =
  dt_entries :: "bytes header list"
  dt_size :: nat
  dt_max_size :: nat

definition dyn_new :: "nat \<Rightarrow> dyn_table" where
  "dyn_new max_size = \<lparr>dt_entries = [], dt_size = 0, dt_max_size = max_size\<rparr>"

text \<open>\<open>while self.size + size > self.max_size { match self.entries.pop_back() ... }\<close>; the subtraction
  panics below zero.\<close>

function dyn_reserve :: "nat \<Rightarrow> dyn_table \<Rightarrow> dyn_table option" where
  "dyn_reserve need t =
    (if dt_size t + need > dt_max_size t
     then (if dt_entries t = [] then Some t
       else let last_len = header_len (last (dt_entries t)) in
         if dt_size t < last_len then None
         else dyn_reserve need (t\<lparr>dt_entries := butlast (dt_entries t), dt_size := dt_size t - last_len\<rparr>))
     else Some t)"
  by pat_completeness auto
termination by (relation "measure (\<lambda>(need, t). length (dt_entries t))") auto

declare dyn_reserve.simps [simp del]

definition dyn_insert :: "bytes header \<Rightarrow> dyn_table \<Rightarrow> dyn_table option" where
  "dyn_insert entry t =
    (let len = header_len entry in
     case dyn_reserve len t of
       None \<Rightarrow> None
     | Some t \<Rightarrow>
         if dt_size t + len \<le> dt_max_size t
         then Some (t\<lparr>dt_size := dt_size t + len, dt_entries := entry # dt_entries t\<rparr>)
         else Some t)"

text \<open>\<open>consolidate\<close> panics when it runs out of entries.\<close>

function dyn_consolidate :: "dyn_table \<Rightarrow> dyn_table option" where
  "dyn_consolidate t =
    (if dt_size t > dt_max_size t
     then (if dt_entries t = [] then None
       else let last_len = header_len (last (dt_entries t)) in
         if dt_size t < last_len then None
         else dyn_consolidate (t\<lparr>dt_entries := butlast (dt_entries t), dt_size := dt_size t - last_len\<rparr>))
     else Some t)"
  by pat_completeness auto
termination by (relation "measure (\<lambda>t. length (dt_entries t))") auto

declare dyn_consolidate.simps [simp del]

definition dyn_set_max_size :: "nat \<Rightarrow> dyn_table \<Rightarrow> dyn_table option" where
  "dyn_set_max_size n t = dyn_consolidate (t\<lparr>dt_max_size := n\<rparr>)"

definition dyn_get :: "nat \<Rightarrow> dyn_table \<Rightarrow> (bytes header, decoder_error) outcome" where
  "dyn_get index t =
    (if index = 0 then Err InvalidTableIndex
     else if index \<le> 61 then or_panic (get_static index)
     else if index - 62 < length (dt_entries t) then Ok (dt_entries t ! (index - 62))
     else Err InvalidTableIndex)"

section \<open>The eviction rule\<close>

definition total_len :: "bytes header list \<Rightarrow> nat" where
  "total_len hs = sum_list (map header_len hs)"

lemma total_len_simps [simp]:
  "total_len [] = 0" "total_len (h # hs) = header_len h + total_len hs"
  "total_len (hs @ hs') = total_len hs + total_len hs'"
  by (simp_all add: total_len_def)

text \<open>The longest prefix that fits.\<close>

fun fitting :: "nat \<Rightarrow> bytes header list \<Rightarrow> bytes header list" where
  "fitting n [] = []"
| "fitting n (h # hs) = (if header_len h \<le> n then h # fitting (n - header_len h) hs else [])"

definition dyn_inv :: "dyn_table \<Rightarrow> bool" where
  "dyn_inv t \<longleftrightarrow> dt_size t = total_len (dt_entries t) \<and> dt_size t \<le> dt_max_size t"

lemma fitting_all: "total_len hs \<le> n \<Longrightarrow> fitting n hs = hs"
  by (induction n hs rule: fitting.induct) auto

lemma fitting_snoc: "n < total_len (hs @ [h]) \<Longrightarrow> fitting n (hs @ [h]) = fitting n hs"
  by (induction n hs rule: fitting.induct) auto

lemma total_fitting: "total_len (fitting n hs) \<le> n"
  by (induction n hs rule: fitting.induct) auto

lemma fitting_prefix: "\<exists>rest. hs = fitting n hs @ rest"
  by (induction n hs rule: fitting.induct) auto

lemma fitting_maximal: "hs = fitting n hs @ h # rest \<Longrightarrow> n < total_len (fitting n hs) + header_len h"
  by (induction n hs rule: fitting.induct) (auto split: if_splits)

lemma length_fitting: "32 * length (fitting n hs) \<le> n"
proof -
  have "32 * length (fitting n hs) \<le> total_len (fitting n hs)"
    by (induction n hs rule: fitting.induct) (auto intro: add_mono header_len_ge_32)
  then show ?thesis using total_fitting [of n hs] by linarith
qed

lemma evict_step:
  assumes "dt_size t = total_len (dt_entries t)" "dt_entries t \<noteq> []"
  shows "total_len (dt_entries t) = total_len (butlast (dt_entries t)) + header_len (last (dt_entries t))"
  using assms(2) by (metis append_butlast_last_id total_len_simps(1-3) add_0_right)

lemma dyn_reserve_spec:
  assumes "dt_size t = total_len (dt_entries t)"
  shows "\<exists>es. dyn_reserve n t = Some (t\<lparr>dt_entries := es, dt_size := total_len es\<rparr>) \<and>
    (if n \<le> dt_max_size t then es = fitting (dt_max_size t - n) (dt_entries t) else es = [])"
  using assms
proof (induction n t rule: dyn_reserve.induct)
  case (1 n t)
  show ?case
  proof (cases "dt_size t + n > dt_max_size t \<and> dt_entries t \<noteq> []")
    case True
    let ?u = "t\<lparr>dt_entries := butlast (dt_entries t), dt_size := dt_size t - header_len (last (dt_entries t))\<rparr>"
    note e = evict_step [OF "1.prems" conjunct2 [OF True]]
    then have "dt_size ?u = total_len (dt_entries ?u)" "\<not> dt_size t < header_len (last (dt_entries t))"
      using "1.prems" by simp_all
    moreover have "dyn_reserve n t = dyn_reserve n ?u"
      using True calculation(2) by (subst dyn_reserve.simps) (simp add: Let_def)
    moreover have "n \<le> dt_max_size t \<Longrightarrow>
        fitting (dt_max_size t - n) (dt_entries t) = fitting (dt_max_size t - n) (butlast (dt_entries t))"
      using True "1.prems" fitting_snoc [of "dt_max_size t - n" "butlast (dt_entries t)" "last (dt_entries t)"] by auto
    ultimately show ?thesis
      using "1.IH" [of "header_len (last (dt_entries t))"] True by auto
  next
    case False
    then have "dyn_reserve n t = Some t" by (subst dyn_reserve.simps) auto
    then show ?thesis using False "1.prems" by (intro exI [of _ "dt_entries t"]) (auto simp: fitting_all)
  qed
qed

lemma dyn_consolidate_spec:
  assumes "dt_size t = total_len (dt_entries t)"
  shows "dyn_consolidate t = Some (t\<lparr>dt_entries := fitting (dt_max_size t) (dt_entries t),
    dt_size := total_len (fitting (dt_max_size t) (dt_entries t))\<rparr>)"
  using assms
proof (induction t rule: dyn_consolidate.induct)
  case (1 t)
  show ?case
  proof (cases "dt_size t > dt_max_size t")
    case True
    then have ne: "dt_entries t \<noteq> []" using "1.prems" by auto
    let ?u = "t\<lparr>dt_entries := butlast (dt_entries t), dt_size := dt_size t - header_len (last (dt_entries t))\<rparr>"
    note e = evict_step [OF "1.prems" ne]
    then have u: "dt_size ?u = total_len (dt_entries ?u)" "\<not> dt_size t < header_len (last (dt_entries t))"
      using "1.prems" by simp_all
    moreover have "dyn_consolidate t = dyn_consolidate ?u"
      using True ne u(2) by (subst dyn_consolidate.simps) (simp add: Let_def)
    moreover have "fitting (dt_max_size t) (dt_entries t) = fitting (dt_max_size t) (butlast (dt_entries t))"
      using True ne "1.prems" fitting_snoc [of "dt_max_size t" "butlast (dt_entries t)" "last (dt_entries t)"] by simp
    ultimately show ?thesis using "1.IH" True ne by simp
  next
    case False
    then have "dyn_consolidate t = Some t" by (subst dyn_consolidate.simps) auto
    then show ?thesis using False "1.prems" by (simp add: fitting_all)
  qed
qed

lemma dyn_insert_spec:
  assumes "dyn_inv t"
  shows "\<exists>t'. dyn_insert h t = Some t' \<and> dyn_inv t' \<and> dt_max_size t' = dt_max_size t \<and>
    dt_entries t' = fitting (dt_max_size t) (h # dt_entries t)"
proof -
  obtain es where r: "dyn_reserve (header_len h) t = Some (t\<lparr>dt_entries := es, dt_size := total_len es\<rparr>)"
      "if header_len h \<le> dt_max_size t then es = fitting (dt_max_size t - header_len h) (dt_entries t) else es = []"
    using dyn_reserve_spec [of t "header_len h"] assms by (auto simp: dyn_inv_def)
  show ?thesis
    using r total_fitting [of "dt_max_size t - header_len h" "dt_entries t"]
    by (auto simp: dyn_insert_def Let_def dyn_inv_def split: if_splits)
qed

lemma dyn_set_max_size_spec:
  assumes "dyn_inv t"
  shows "\<exists>t'. dyn_set_max_size n t = Some t' \<and> dyn_inv t' \<and> dt_max_size t' = n \<and>
    dt_entries t' = fitting n (dt_entries t)"
  using dyn_consolidate_spec [of "t\<lparr>dt_max_size := n\<rparr>"] assms
  by (auto simp: dyn_set_max_size_def dyn_inv_def total_fitting)

text \<open>C31: Insertion and resizing of the dynamic table never panic and evict exactly as RFC 7541 says: the
  table holds afterwards the longest run of newest entries that fits in the maximum size, the inserted
  entry first; an entry that is larger than the maximum leaves the table empty. The recorded size is
  the sum of the sizes of the entries and never exceeds the maximum.\<close>

theorem dyn_table_evicts:
  assumes "dyn_inv t"
  shows "(\<exists>t'. dyn_insert h t = Some t' \<and> dyn_inv t' \<and> dt_max_size t' = dt_max_size t \<and>
      dt_entries t' = fitting (dt_max_size t) (h # dt_entries t)) \<and>
    (\<exists>t'. dyn_set_max_size n t = Some t' \<and> dyn_inv t' \<and> dt_max_size t' = n \<and>
      dt_entries t' = fitting n (dt_entries t))"
  using dyn_insert_spec [OF assms] dyn_set_max_size_spec [OF assms] by blast

lemma dyn_table_evicts_witness:
  "\<exists>t'. dyn_insert (Path [1, 2]) \<lparr>dt_entries = [Method [1], Path [3]], dt_size = 78, dt_max_size = 80\<rparr> = Some t' \<and>
     dt_entries t' = [Path [1, 2], Method [1]]"
  using dyn_table_evicts [of "\<lparr>dt_entries = [Method [1], Path [3]], dt_size = 78, dt_max_size = 80\<rparr>"
      "Path [1, 2]"]
  by (auto simp: dyn_inv_def)

end
