(* ===== verification/Hpack_Decoder.thy ===== *)
theory Hpack_Decoder
  imports Hpack_Dyn Hpack_Int Huffman_Correct
begin

text \<open>
  The HPACK decoder (\<open>struct Decoder\<close> of \<open>src/hpack/decoder.rs\<close>): representations, string literals with their markers,
  the decoding loop with its callback, and dynamic table size updates. The cursor over a \<open>BytesMut\<close> is its
  buffer with a position; a representation that was decoded completely is cut off the buffer, so that
  decoding resumes at the first incomplete one.
\<close>

section \<open>The cursor\<close>

record cursor =
  cbuf :: bytes
  cpos :: nat

definition remaining :: "cursor \<Rightarrow> bytes" where
  "remaining c = drop (cpos c) (cbuf c)"

text \<open>\<open>advance\<close> and \<open>split_to\<close> of the \<open>bytes\<close> crate panic beyond the end.\<close>

definition cur_advance :: "nat \<Rightarrow> cursor \<Rightarrow> cursor option" where
  "cur_advance n c = (if n \<le> length (remaining c) then Some (c\<lparr>cpos := cpos c + n\<rparr>) else None)"

definition peek_u8 :: "cursor \<Rightarrow> u8 option" where
  "peek_u8 c = (case remaining c of [] \<Rightarrow> None | b # _ \<Rightarrow> Some b)"

definition cur_decode_int :: "nat \<Rightarrow> cursor \<Rightarrow> (nat, decoder_error) outcome \<times> cursor" where
  "cur_decode_int prefix_size c =
    (case decode_int prefix_size (remaining c) of
       (r, rest) \<Rightarrow> (r, c\<lparr>cpos := cpos c + (length (remaining c) - length rest)\<rparr>))"

definition cur_take :: "nat \<Rightarrow> cursor \<Rightarrow> (bytes \<times> cursor) option" where
  "cur_take n c =
    (if cpos c + n \<le> length (cbuf c)
     then Some (drop (cpos c) (take (cpos c + n) (cbuf c)), \<lparr>cbuf = drop (cpos c + n) (cbuf c), cpos = 0\<rparr>)
     else None)"

definition cur_consume :: "cursor \<Rightarrow> cursor option" where
  "cur_consume c = map_option snd (cur_take 0 c)"

section \<open>Strings\<close>

record string_marker =
  sm_offset :: nat
  sm_len :: nat
  sm_string :: "bytes option"

definition marker_consume :: "string_marker \<Rightarrow> cursor \<Rightarrow> (bytes \<times> cursor) option" where
  "marker_consume m c =
    (case cur_advance (sm_offset m) c of
       None \<Rightarrow> None
     | Some c \<Rightarrow>
         (case sm_string m of
            Some s \<Rightarrow> map_option (Pair s) (cur_advance (sm_len m) c)
          | None \<Rightarrow> cur_take (sm_len m) c))"

text \<open>\<open>huffman::decode\<close>, which never runs out of fuel (\<open>huffman_decode_correct\<close>).\<close>

definition huffman_decode :: "bytes \<Rightarrow> bytes \<Rightarrow> (bytes, decoder_error) outcome \<times> bytes" where
  "huffman_decode src buf = (case huff_decode src buf of Some r \<Rightarrow> r | None \<Rightarrow> (Panic, buf))"

definition HUFF_FLAG :: u8 where "HUFF_FLAG = 0x80"

type_synonym 'a string_result = "('a, decoder_error) outcome \<times> cursor \<times> bytes"

definition try_decode_string :: "cursor \<Rightarrow> bytes \<Rightarrow> string_marker string_result" where
  "try_decode_string c buffer =
    (case peek_u8 c of
       None \<Rightarrow> (Err (NeedMore UnexpectedEndOfStream), c, buffer)
     | Some hdr \<Rightarrow>
         (let old_pos = cpos c; huff = (hdr AND HUFF_FLAG = HUFF_FLAG) in
          case cur_decode_int 7 c of
            (Err e, c) \<Rightarrow> (Err e, c, buffer)
          | (Panic, c) \<Rightarrow> (Panic, c, buffer)
          | (Ok len, c) \<Rightarrow>
              if length (remaining c) < len then (Err (NeedMore StringUnderflow), c, buffer)
              else let off = cpos c - old_pos in
                if huff
                then (case huffman_decode (take len (remaining c)) buffer of
                        (r, buffer) \<Rightarrow>
                          (case cur_advance len c of
                             None \<Rightarrow> (Panic, c, buffer)
                           | Some c \<Rightarrow>
                               (bind_outcome r (\<lambda>s. Ok \<lparr>sm_offset = off, sm_len = len, sm_string = Some s\<rparr>), c, buffer)))
                else (case cur_advance len c of
                        None \<Rightarrow> (Panic, c, buffer)
                      | Some c \<Rightarrow> (Ok \<lparr>sm_offset = off, sm_len = len, sm_string = None\<rparr>, c, buffer))))"

definition decode_string :: "cursor \<Rightarrow> bytes \<Rightarrow> bytes string_result" where
  "decode_string c buffer =
    (let old_pos = cpos c in
     case try_decode_string c buffer of
       (Err e, c, buffer) \<Rightarrow> (Err e, c, buffer)
     | (Panic, c, buffer) \<Rightarrow> (Panic, c, buffer)
     | (Ok marker, c, buffer) \<Rightarrow>
         (case marker_consume marker (c\<lparr>cpos := old_pos\<rparr>) of
            None \<Rightarrow> (Panic, c, buffer)
          | Some (s, c) \<Rightarrow> (Ok s, c, buffer)))"

section \<open>Representations\<close>

datatype representation =
    Indexed | LiteralWithIndexing | LiteralWithoutIndexing | LiteralNeverIndexed | SizeUpdate

definition representation_load :: "u8 \<Rightarrow> (representation, decoder_error) outcome" where
  "representation_load byte =
    (if byte AND 0x80 = 0x80 then Ok Indexed
     else if byte AND 0x40 = 0x40 then Ok LiteralWithIndexing
     else if byte AND 0xf0 = 0 then Ok LiteralWithoutIndexing
     else if byte AND 0xf0 = 0x10 then Ok LiteralNeverIndexed
     else if byte AND 0xe0 = 0x20 then Ok SizeUpdate
     else Err InvalidRepresentation)"

section \<open>The decoder\<close>

record decoder =
  dec_max_size_update :: "nat option"
  dec_last_max_update :: nat
  dec_table :: dyn_table
  dec_buffer :: bytes

definition decoder_new :: "nat \<Rightarrow> decoder" where
  "decoder_new n =
    \<lparr>dec_max_size_update = None, dec_last_max_update = n, dec_table = dyn_new n, dec_buffer = []\<rparr>"

definition queue_size_update :: "nat \<Rightarrow> decoder \<Rightarrow> decoder" where
  "queue_size_update n d =
    d\<lparr>dec_max_size_update := Some (case dec_max_size_update d of Some v \<Rightarrow> max v n | None \<Rightarrow> n)\<rparr>"

type_synonym 'a dec_result = "('a, decoder_error) outcome \<times> decoder \<times> cursor"

definition process_size_update :: "decoder \<Rightarrow> cursor \<Rightarrow> unit dec_result" where
  "process_size_update d c =
    (case cur_decode_int 5 c of
       (Err e, c) \<Rightarrow> (Err e, d, c)
     | (Panic, c) \<Rightarrow> (Panic, d, c)
     | (Ok new_size, c) \<Rightarrow>
         if dec_last_max_update d < new_size then (Err InvalidMaxDynamicSize, d, c)
         else (case dyn_set_max_size new_size (dec_table d) of
                 None \<Rightarrow> (Panic, d, c)
               | Some t \<Rightarrow> (Ok (), d\<lparr>dec_table := t\<rparr>, c)))"

definition decode_indexed :: "decoder \<Rightarrow> cursor \<Rightarrow> bytes header dec_result" where
  "decode_indexed d c =
    (case cur_decode_int 7 c of
       (Err e, c) \<Rightarrow> (Err e, d, c)
     | (Panic, c) \<Rightarrow> (Panic, d, c)
     | (Ok index, c) \<Rightarrow> (dyn_get index (dec_table d), d, c))"

definition decode_literal :: "http_parsers \<Rightarrow> bool \<Rightarrow> decoder \<Rightarrow> cursor \<Rightarrow> bytes header dec_result" where
  "decode_literal H index d c =
    (let prefix = (if index then 6 else 4) in
     case cur_decode_int prefix c of
       (Err e, c) \<Rightarrow> (Err e, d, c)
     | (Panic, c) \<Rightarrow> (Panic, d, c)
     | (Ok table_idx, c) \<Rightarrow>
         if table_idx = 0
         then let old_pos = cpos c in
           (case try_decode_string c (dec_buffer d) of
              (Err e, c, b) \<Rightarrow> (Err e, d\<lparr>dec_buffer := b\<rparr>, c)
            | (Panic, c, b) \<Rightarrow> (Panic, d\<lparr>dec_buffer := b\<rparr>, c)
            | (Ok name_marker, c, b) \<Rightarrow>
                (case try_decode_string c b of
                   (Err e, c, b) \<Rightarrow> (Err e, d\<lparr>dec_buffer := b\<rparr>, c)
                 | (Panic, c, b) \<Rightarrow> (Panic, d\<lparr>dec_buffer := b\<rparr>, c)
                 | (Ok value_marker, c, b) \<Rightarrow>
                     (case marker_consume name_marker (c\<lparr>cpos := old_pos\<rparr>) of
                        None \<Rightarrow> (Panic, d\<lparr>dec_buffer := b\<rparr>, c)
                      | Some (name, c) \<Rightarrow>
                          (case marker_consume value_marker c of
                             None \<Rightarrow> (Panic, d\<lparr>dec_buffer := b\<rparr>, c)
                           | Some (value, c) \<Rightarrow> (header_new H name value, d\<lparr>dec_buffer := b\<rparr>, c)))))
         else (case dyn_get table_idx (dec_table d) of
                 Err e \<Rightarrow> (Err e, d, c)
               | Panic \<Rightarrow> (Panic, d, c)
               | Ok e \<Rightarrow>
                   (case decode_string c (dec_buffer d) of
                      (Err e, c, b) \<Rightarrow> (Err e, d\<lparr>dec_buffer := b\<rparr>, c)
                    | (Panic, c, b) \<Rightarrow> (Panic, d\<lparr>dec_buffer := b\<rparr>, c)
                    | (Ok value, c, b) \<Rightarrow> (into_entry H (header_name e) value, d\<lparr>dec_buffer := b\<rparr>, c))))"

section \<open>The loop\<close>

text \<open>The callback gets a state and a header and says whether to go on.\<close>

datatype flow = Continue | Break

type_synonym 's callback = "'s \<Rightarrow> bytes header \<Rightarrow> 's \<times> flow"

type_synonym ('a, 's) step_result = "('a, decoder_error) outcome \<times> bool \<times> decoder \<times> cursor \<times> 's"

text \<open>\<open>consume(src); if f(entry).is_break() { break; }\<close>\<close>

definition deliver :: "'s callback \<Rightarrow> decoder \<Rightarrow> cursor \<Rightarrow> 's \<Rightarrow> bytes header \<Rightarrow> (flow, 's) step_result" where
  "deliver f d c s entry =
    (case cur_consume c of
       None \<Rightarrow> (Panic, False, d, c, s)
     | Some c \<Rightarrow> (case f s entry of (s, fl) \<Rightarrow> (Ok fl, False, d, c, s)))"

text \<open>The body of the loop for the first byte \<open>ty\<close>.\<close>

definition decode_step ::
  "http_parsers \<Rightarrow> 's callback \<Rightarrow> u8 \<Rightarrow> bool \<Rightarrow> decoder \<Rightarrow> cursor \<Rightarrow> 's \<Rightarrow> (flow, 's) step_result" where
  "decode_step H f ty can_resize d c s =
    (case representation_load ty of
       Err e \<Rightarrow> (Err e, can_resize, d, c, s)
     | Panic \<Rightarrow> (Panic, can_resize, d, c, s)
     | Ok Indexed \<Rightarrow>
         (case decode_indexed d c of
            (Ok entry, d, c) \<Rightarrow> deliver f d c s entry
          | (Err e, d, c) \<Rightarrow> (Err e, False, d, c, s)
          | (Panic, d, c) \<Rightarrow> (Panic, False, d, c, s))
     | Ok LiteralWithIndexing \<Rightarrow>
         (case decode_literal H True d c of
            (Ok entry, d, c) \<Rightarrow>
              (case dyn_insert entry (dec_table d) of
                 None \<Rightarrow> (Panic, False, d, c, s)
               | Some t \<Rightarrow> deliver f (d\<lparr>dec_table := t\<rparr>) c s entry)
          | (Err e, d, c) \<Rightarrow> (Err e, False, d, c, s)
          | (Panic, d, c) \<Rightarrow> (Panic, False, d, c, s))
     | Ok SizeUpdate \<Rightarrow>
         if \<not> can_resize then (Err InvalidMaxDynamicSize, can_resize, d, c, s)
         else (case process_size_update d c of
                 (Ok _, d, c) \<Rightarrow>
                   (case cur_consume c of
                      None \<Rightarrow> (Panic, can_resize, d, c, s)
                    | Some c \<Rightarrow> (Ok Continue, can_resize, d, c, s))
               | (Err e, d, c) \<Rightarrow> (Err e, can_resize, d, c, s)
               | (Panic, d, c) \<Rightarrow> (Panic, can_resize, d, c, s))
     | Ok _ \<Rightarrow>
         (case decode_literal H False d c of
            (Ok entry, d, c) \<Rightarrow> deliver f d c s entry
          | (Err e, d, c) \<Rightarrow> (Err e, False, d, c, s)
          | (Panic, d, c) \<Rightarrow> (Panic, False, d, c, s)))"

text \<open>Every round consumes at least one byte, so as many rounds as there are bytes are enough; that the
  fuel never runs out is part of \<open>decode_total\<close>.\<close>

fun decode_loop ::
  "nat \<Rightarrow> http_parsers \<Rightarrow> 's callback \<Rightarrow> bool \<Rightarrow> decoder \<Rightarrow> cursor \<Rightarrow> 's \<Rightarrow>
     ((unit, decoder_error) outcome \<times> decoder \<times> cursor \<times> 's) option" where
  "decode_loop 0 H f can_resize d c s = None"
| "decode_loop (Suc fuel) H f can_resize d c s =
    (case peek_u8 c of
       None \<Rightarrow> Some (Ok (), d, c, s)
     | Some ty \<Rightarrow>
         (case decode_step H f ty can_resize d c s of
            (Ok Continue, can_resize, d, c, s) \<Rightarrow> decode_loop fuel H f can_resize d c s
          | (Ok Break, _, d, c, s) \<Rightarrow> Some (Ok (), d, c, s)
          | (Err e, _, d, c, s) \<Rightarrow> Some (Err e, d, c, s)
          | (Panic, _, d, c, s) \<Rightarrow> Some (Panic, d, c, s)))"

definition take_size_update :: "decoder \<Rightarrow> decoder" where
  "take_size_update d =
    (case dec_max_size_update d of
       Some n \<Rightarrow> d\<lparr>dec_max_size_update := None, dec_last_max_update := n\<rparr>
     | None \<Rightarrow> d)"

definition hpack_decode ::
  "http_parsers \<Rightarrow> 's callback \<Rightarrow> decoder \<Rightarrow> cursor \<Rightarrow> 's \<Rightarrow>
     ((unit, decoder_error) outcome \<times> decoder \<times> cursor \<times> 's) option" where
  "hpack_decode H f d c s =
    decode_loop (length (remaining c) + 1) H f True (take_size_update d) c s"

end
