(* ===== verification/Hpack_Decode_Spec.thy ===== *)
theory Hpack_Decode_Spec
  imports Hpack_Decoder
begin

text \<open>
  What the HPACK decoder promises. The specification parses one representation after the other from a
  byte string, without cursor, markers and buffers; \<open>decode_loop\<close> refines it. From the
  specification follow: decoding never panics on any input, it ends, the dynamic table stays within its limit, and a
  header block may be cut anywhere into fragments.
\<close>

section \<open>The specification\<close>

type_synonym 'a parser = "bytes \<Rightarrow> ('a \<times> bytes, decoder_error) outcome"

definition parse_int :: "nat \<Rightarrow> nat parser" where
  "parse_int p bs =
    (case decode_int p bs of (Ok v, r) \<Rightarrow> Ok (v, r) | (Err e, r) \<Rightarrow> Err e | (Panic, r) \<Rightarrow> Panic)"

definition parse_take :: "nat \<Rightarrow> bytes parser" where
  "parse_take n bs = (if length bs < n then Err (NeedMore StringUnderflow) else Ok (take n bs, drop n bs))"

definition parse_pure :: "('a, decoder_error) outcome \<Rightarrow> 'a parser" where
  "parse_pure m bs = bind_outcome m (\<lambda>x. Ok (x, bs))"

definition parse_bind :: "'a parser \<Rightarrow> ('a \<Rightarrow> 'b parser) \<Rightarrow> 'b parser" where
  "parse_bind p q bs = bind_outcome (p bs) (\<lambda>(x, r). q x r)"

definition parse_string :: "bytes parser" where
  "parse_string bs =
    (case bs of
       [] \<Rightarrow> Err (NeedMore UnexpectedEndOfStream)
     | hdr # _ \<Rightarrow>
         parse_bind (parse_int 7) (\<lambda>len. parse_bind (parse_take len) (\<lambda>raw.
           parse_pure (if hdr AND HUFF_FLAG = HUFF_FLAG then reference_decode raw else Ok raw))) bs)"

definition parse_literal :: "http_parsers \<Rightarrow> nat \<Rightarrow> dyn_table \<Rightarrow> bytes header parser" where
  "parse_literal H p t =
    parse_bind (parse_int p) (\<lambda>i.
      if i = 0
      then parse_bind parse_string (\<lambda>name. parse_bind parse_string (\<lambda>value. parse_pure (header_new H name value)))
      else parse_bind (parse_pure (dyn_get i t)) (\<lambda>e.
        parse_bind parse_string (\<lambda>value. parse_pure (into_entry H (header_name e) value))))"

text \<open>An item of a header block: a new maximum size, or a header and whether it enters the table.\<close>

datatype item = Resize nat | Emit bool "bytes header"

fun parse_rep :: "http_parsers \<Rightarrow> bool \<Rightarrow> nat \<Rightarrow> dyn_table \<Rightarrow> representation \<Rightarrow> item parser" where
  "parse_rep H can_resize limit t Indexed =
     parse_bind (parse_int 7) (\<lambda>i. parse_pure (bind_outcome (dyn_get i t) (\<lambda>h. Ok (Emit False h))))"
| "parse_rep H can_resize limit t LiteralWithIndexing =
     parse_bind (parse_literal H 6 t) (\<lambda>h. parse_pure (Ok (Emit True h)))"
| "parse_rep H can_resize limit t SizeUpdate =
     (if \<not> can_resize then (\<lambda>bs. Err InvalidMaxDynamicSize)
      else parse_bind (parse_int 5) (\<lambda>n.
        parse_pure (if limit < n then Err InvalidMaxDynamicSize else Ok (Resize n))))"
| "parse_rep H can_resize limit t _ =
     parse_bind (parse_literal H 4 t) (\<lambda>h. parse_pure (Ok (Emit False h)))"

definition parse_item :: "http_parsers \<Rightarrow> bool \<Rightarrow> nat \<Rightarrow> dyn_table \<Rightarrow> item parser" where
  "parse_item H can_resize limit t bs =
    (case bs of
       [] \<Rightarrow> Err (NeedMore UnexpectedEndOfStream)
     | ty # _ \<Rightarrow> bind_outcome (representation_load ty) (\<lambda>rep. parse_rep H can_resize limit t rep bs))"

section \<open>Incremental parsers\<close>

text \<open>A parser that sees a part of the input delivers what it would deliver on all of it, or asks for more.\<close>

definition incremental :: "'a parser \<Rightarrow> bool" where
  "incremental p \<longleftrightarrow> (\<forall>bs.
     (\<exists>pre x r. bs = pre @ r \<and> (\<forall>ext. p (bs @ ext) = Ok (x, r @ ext))) \<or>
     (\<exists>m. p bs = Err (NeedMore m)) \<or>
     (\<exists>e. \<forall>ext. p (bs @ ext) = Err e))"

definition consuming :: "'a parser \<Rightarrow> bool" where
  "consuming p \<longleftrightarrow> (\<forall>bs x r. p bs = Ok (x, r) \<longrightarrow> length r < length bs)"

definition shrinking :: "'a parser \<Rightarrow> bool" where
  "shrinking p \<longleftrightarrow> (\<forall>bs x r. p bs = Ok (x, r) \<longrightarrow> (\<exists>pre. bs = pre @ r))"

lemma incrementalE:
  assumes "incremental p"
  obtains (ok) pre x r where "bs = pre @ r" "\<And>ext. p (bs @ ext) = Ok (x, r @ ext)"
  | (need) m where "p bs = Err (NeedMore m)"
  | (err) e where "\<And>ext. p (bs @ ext) = Err e"
  using assms [unfolded incremental_def, THEN spec, of bs] ok need err
  by (elim disjE exE conjE) (simp_all only: simp_thms)

lemma incremental_bind:
  assumes "incremental p" "\<And>x. incremental (q x)"
  shows "incremental (parse_bind p q)"
  unfolding incremental_def
proof (intro allI)
  fix bs
  show "(\<exists>pre x r. bs = pre @ r \<and> (\<forall>ext. parse_bind p q (bs @ ext) = Ok (x, r @ ext))) \<or>
      (\<exists>m. parse_bind p q bs = Err (NeedMore m)) \<or> (\<exists>e. \<forall>ext. parse_bind p q (bs @ ext) = Err e)"
  proof (cases rule: incrementalE [OF assms(1), of bs])
    case (1 pre x r)
    note ok = this
    have q: "parse_bind p q (bs @ ext) = q x (r @ ext)" for ext
      using ok(2) by (simp only: parse_bind_def bind_outcome.simps prod.case)
    then have q0: "parse_bind p q bs = q x r" by (metis append_Nil2)
    show ?thesis
    proof (cases rule: incrementalE [OF assms(2) [of x], of r])
      case (1 pre' y r')
      have "parse_bind p q (bs @ ext) = Ok (y, r' @ ext)" for ext by (simp only: q 1(2))
      moreover have "bs = (pre @ pre') @ r'" using ok(1) 1(1) by simp
      ultimately show ?thesis by blast
    next
      case (2 m)
      then show ?thesis by (simp add: q0)
    next
      case (3 e)
      then show ?thesis by (simp only: q) blast
    qed
  next
    case (2 m)
    then show ?thesis by (simp add: parse_bind_def)
  next
    case (3 e)
    then show ?thesis by (simp add: parse_bind_def)
  qed
qed

lemma incremental_pure:
  assumes "m \<noteq> Panic"
  shows "incremental (parse_pure m)"
proof (cases m)
  case (Ok x)
  have "bs = [] @ bs \<and> (\<forall>ext. parse_pure m (bs @ ext) = Ok (x, bs @ ext))" for bs
    by (simp add: parse_pure_def Ok)
  then show ?thesis unfolding incremental_def by blast
next
  case (Err e)
  then have "parse_pure m bs = Err e" for bs by (simp add: parse_pure_def)
  then show ?thesis unfolding incremental_def by blast
qed (use assms in simp)

lemma incremental_take: "incremental (parse_take n)"
  unfolding incremental_def
proof
  fix bs :: bytes
  show "(\<exists>pre x r. bs = pre @ r \<and> (\<forall>ext. parse_take n (bs @ ext) = Ok (x, r @ ext))) \<or>
      (\<exists>m. parse_take n bs = Err (NeedMore m)) \<or> (\<exists>e. \<forall>ext. parse_take n (bs @ ext) = Err e)"
  proof (cases "length bs < n")
    case False
    then have "bs = take n bs @ drop n bs \<and> (\<forall>ext. parse_take n (bs @ ext) = Ok (take n bs, drop n bs @ ext))"
      by (simp add: parse_take_def)
    then show ?thesis by blast
  qed (simp add: parse_take_def)
qed

lemma decode_int_loop_cases:
  "(\<exists>x pre r. bs = pre @ r \<and> pre \<noteq> [] \<and> (\<forall>ext. decode_int_loop n sh v (bs @ ext) = (Ok x, r @ ext))) \<or>
   decode_int_loop n sh v bs = (Err (NeedMore IntegerUnderflow), []) \<or>
   (\<forall>ext. fst (decode_int_loop n sh v (bs @ ext)) = Err IntegerOverflow)"
proof (induction n sh v bs rule: decode_int_loop.induct)
  case (2 n sh v b bs)
  let ?v = "v + unat (b AND VARINT_MASK) * 2 ^ sh"
  show ?case
  proof (cases "b AND VARINT_FLAG = 0")
    case True
    then have "b # bs = [b] @ bs \<and> (\<forall>ext. decode_int_loop n sh v ((b # bs) @ ext) = (Ok ?v, bs @ ext))" by simp
    then show ?thesis by blast
  next
    case flag: False
    show ?thesis
    proof (cases "n + 1 = MAX_BYTES")
      case True
      then show ?thesis using flag by simp
    next
      case False
      then have e: "decode_int_loop n sh v (b # bs) = decode_int_loop (n + 1) (sh + 7) ?v bs" for bs
        using flag by (simp add: Let_def)
      have c: "b # bs = (b # pre) @ r" if "bs = pre @ r" for pre r using that by simp
      from "2.IH" [OF refl refl flag False] show ?thesis
        unfolding append_Cons e using c by (metis list.distinct(1))
    qed
  qed
qed simp

lemma parse_int_cases:
  "(\<exists>x pre r. bs = pre @ r \<and> pre \<noteq> [] \<and> (\<forall>ext. decode_int p (bs @ ext) = (Ok x, r @ ext))) \<or>
   (\<exists>m. decode_int p bs = (Err (NeedMore m), [])) \<or>
   (\<exists>e. \<forall>ext. fst (decode_int p (bs @ ext)) = Err e)"
proof (cases "p < 1 \<or> p > 8")
  case True
  then show ?thesis by (simp add: decode_int_def)
next
  case p: False
  show ?thesis
  proof (cases bs)
    case Nil
    then show ?thesis using p by (simp add: decode_int_def)
  next
    case (Cons b bs')
    define mask where "mask = (if p = 8 then 0xff else push_bit p 1 - 1 :: u8)"
    define v where "v = unat (b AND mask)"
    have d: "decode_int p (b # cs) = (if v < unat mask then (Ok v, cs) else decode_int_loop 1 0 v cs)" for cs
      using p by (simp add: decode_int_def Let_def mask_def v_def)
    show ?thesis
    proof (cases "v < unat mask")
      case True
      then have "bs = [b] @ bs' \<and> (\<forall>ext. decode_int p (bs @ ext) = (Ok v, bs' @ ext))"
        using d Cons by simp
      then show ?thesis by blast
    next
      case False
      then have e: "decode_int p (b # cs) = decode_int_loop 1 0 v cs" for cs using d by simp
      have c: "b # bs' = (b # pre) @ r" if "bs' = pre @ r" for pre r using that by simp
      from decode_int_loop_cases [of bs' 1 0 v] show ?thesis
        unfolding Cons append_Cons e using c by (metis list.distinct(1))
    qed
  qed
qed

lemma incremental_int: "incremental (parse_int p)"
  unfolding incremental_def
proof
  fix bs :: bytes
  from parse_int_cases [of bs p]
  show "(\<exists>pre x r. bs = pre @ r \<and> (\<forall>ext. parse_int p (bs @ ext) = Ok (x, r @ ext))) \<or>
      (\<exists>m. parse_int p bs = Err (NeedMore m)) \<or> (\<exists>e. \<forall>ext. parse_int p (bs @ ext) = Err e)"
  proof (elim disjE exE conjE)
    fix x pre r assume "bs = pre @ r" "\<forall>ext. decode_int p (bs @ ext) = (Ok x, r @ ext)"
    then have "bs = pre @ r \<and> (\<forall>ext. parse_int p (bs @ ext) = Ok (x, r @ ext))" by (simp only: parse_int_def) simp
    then show ?thesis by blast
  next
    fix m assume "decode_int p bs = (Err (NeedMore m), [])"
    then show ?thesis by (simp add: parse_int_def)
  next
    fix e assume e: "\<forall>ext. fst (decode_int p (bs @ ext)) = Err e"
    have "parse_int p (bs @ ext) = Err e" for ext
      using e [rule_format, of ext] by (cases "decode_int p (bs @ ext)") (simp add: parse_int_def)
    then show ?thesis by blast
  qed
qed

lemma consuming_int: "consuming (parse_int p)"
  unfolding consuming_def
proof (intro allI impI)
  fix bs x r assume ok: "parse_int p bs = Ok (x, r)"
  from parse_int_cases [of bs p] show "length r < length bs"
  proof (elim disjE exE conjE)
    fix y pre r' assume "bs = pre @ r'" "pre \<noteq> []" "\<forall>ext. decode_int p (bs @ ext) = (Ok y, r' @ ext)"
    moreover from this(3) have "decode_int p bs = (Ok y, r')" by (metis append_Nil2)
    ultimately show ?thesis using ok by (auto simp: parse_int_def)
  next
    fix e assume "\<forall>ext. fst (decode_int p (bs @ ext)) = Err e"
    then have "fst (decode_int p bs) = Err e" by (metis append_Nil2)
    then show ?thesis using ok by (cases "decode_int p bs") (simp add: parse_int_def)
  qed (use ok in \<open>simp add: parse_int_def\<close>)
qed

lemma consuming_shrinks: "consuming p \<Longrightarrow> incremental p \<Longrightarrow> shrinking p"
  unfolding shrinking_def
proof (intro allI impI)
  fix bs x r assume p: "incremental p" and ok: "p bs = Ok (x, r)"
  show "\<exists>pre. bs = pre @ r"
  proof (cases rule: incrementalE [OF p, of bs])
    case (1 pre y r')
    then have "p bs = Ok (y, r')" using 1(2) [of "[]"] by simp
    then show ?thesis using 1(1) ok by auto
  next
    case (3 e)
    then show ?thesis using ok 3 [of "[]"] by simp
  qed (use ok in simp)
qed

lemma shrinking_incremental: "incremental p \<Longrightarrow> shrinking p"
  unfolding shrinking_def
proof (intro allI impI)
  fix bs x r assume p: "incremental p" and ok: "p bs = Ok (x, r)"
  show "\<exists>pre. bs = pre @ r"
  proof (cases rule: incrementalE [OF p, of bs])
    case (1 pre y r')
    then have "p bs = Ok (y, r')" using 1(2) [of "[]"] by simp
    then show ?thesis using 1(1) ok by auto
  next
    case (3 e)
    then show ?thesis using ok 3 [of "[]"] by simp
  qed (use ok in simp)
qed

lemma consuming_bind:
  assumes "consuming p" "\<And>x. incremental (q x)"
  shows "consuming (parse_bind p q)"
  unfolding consuming_def
proof (intro allI impI)
  fix bs y r' assume "parse_bind p q bs = Ok (y, r')"
  then obtain x r where xr: "p bs = Ok (x, r)" "q x r = Ok (y, r')"
    by (auto simp: parse_bind_def bind_outcome_Ok_iff)
  then have "length r < length bs" using assms(1) by (auto simp: consuming_def)
  moreover obtain pre where "r = pre @ r'"
    using shrinking_incremental [OF assms(2)] xr(2) unfolding shrinking_def by blast
  ultimately show "length r' < length bs" by simp
qed

text \<open>No parser panics.\<close>

lemma reference_no_panic [simp]: "reference_decode bs \<noteq> Panic"
  by (simp add: reference_decode_def split: prod.split)

definition calm :: "'a parser \<Rightarrow> bool" where
  "calm p \<longleftrightarrow> (\<forall>bs. p bs \<noteq> Panic)"

lemma calm_bind: "calm p \<Longrightarrow> (\<And>x. calm (q x)) \<Longrightarrow> calm (parse_bind p q)"
  by (auto simp: calm_def parse_bind_def bind_outcome_Panic_iff)

lemma decode_int_no_panic: "decode_int p bs \<noteq> (Panic, r)"
  using parse_int_cases [of bs p]
proof (elim disjE exE conjE)
  fix e assume "\<forall>ext. fst (decode_int p (bs @ ext)) = Err e"
  then have "fst (decode_int p bs) = Err e" by (metis append_Nil2)
  then show ?thesis by (metis fst_conv outcome.distinct(6))
next
  fix y pre r' assume "\<forall>ext. decode_int p (bs @ ext) = (Ok y, r' @ ext)"
  then have "decode_int p bs = (Ok y, r')" by (metis append_Nil2)
  then show ?thesis by simp
qed simp

lemma calm_basic: "calm (parse_int p)" "calm (parse_take n)" "m \<noteq> Panic \<Longrightarrow> calm (parse_pure m)"
  using decode_int_no_panic [of p]
  by (auto simp: calm_def parse_int_def parse_take_def parse_pure_def bind_outcome_Panic_iff split: prod.split outcome.split)

lemma calm_head: "(\<And>hdr. calm (q hdr)) \<Longrightarrow> calm (\<lambda>bs. case bs of [] \<Rightarrow> Err (NeedMore m) | hdr # _ \<Rightarrow> q hdr bs)"
  by (simp add: calm_def split: list.split)

text \<open>A parser chosen by the first byte.\<close>

lemma incremental_head:
  assumes "\<And>hdr. incremental (q hdr)"
  shows "incremental (\<lambda>bs. case bs of [] \<Rightarrow> Err (NeedMore m) | hdr # _ \<Rightarrow> q hdr bs)" (is "incremental ?p")
  unfolding incremental_def
proof
  fix bs :: bytes
  show "(\<exists>pre x r. bs = pre @ r \<and> (\<forall>ext. ?p (bs @ ext) = Ok (x, r @ ext))) \<or>
      (\<exists>m. ?p bs = Err (NeedMore m)) \<or> (\<exists>e. \<forall>ext. ?p (bs @ ext) = Err e)"
  proof (cases bs)
    case (Cons hdr bs')
    have p: "?p (bs @ ext) = q hdr (bs @ ext)" for ext by (simp add: Cons)
    have p0: "?p bs = q hdr bs" by (simp add: Cons)
    show ?thesis
    proof (cases rule: incrementalE [OF assms [of hdr], of bs])
      case (1 pre x r)
      have "?p (bs @ ext) = Ok (x, r @ ext)" for ext by (simp only: p 1(2))
      then show ?thesis using 1(1) by blast
    next
      case (2 m)
      then have "?p bs = Err (NeedMore m)" by (simp only: p0)
      then show ?thesis by blast
    next
      case (3 e)
      have "?p (bs @ ext) = Err e" for ext by (simp only: p 3)
      then show ?thesis by blast
    qed
  qed simp
qed

lemma consuming_head:
  assumes "\<And>hdr. consuming (q hdr)"
  shows "consuming (\<lambda>bs. case bs of [] \<Rightarrow> Err (NeedMore m) | hdr # _ \<Rightarrow> q hdr bs)"
  unfolding consuming_def
proof (intro allI impI)
  fix bs x r
  assume "(case bs of [] \<Rightarrow> Err (NeedMore m) | hdr # _ \<Rightarrow> q hdr bs) = Ok (x, r)"
  then obtain hdr where "q hdr bs = Ok (x, r)" by (cases bs) auto
  then show "length r < length bs" using assms by (simp add: consuming_def)
qed

lemma consuming_fail: "consuming (\<lambda>bs. Err e)"
  by (simp add: consuming_def)

lemma incremental_fail: "incremental (\<lambda>bs. Err e)"
  by (simp add: incremental_def)

lemma incremental_string: "incremental parse_string"
  unfolding parse_string_def
  by (intro incremental_head incremental_bind incremental_int incremental_take incremental_pure) simp

lemma consuming_string: "consuming parse_string"
  unfolding parse_string_def
  by (intro consuming_head consuming_bind consuming_int incremental_bind incremental_take incremental_pure) simp

lemma calm_string: "calm parse_string"
  unfolding parse_string_def
  by (intro calm_head calm_bind calm_basic) simp

lemma dyn_get_no_panic [simp]: "dyn_get i t \<noteq> Panic"
  by (auto simp: dyn_get_def get_static_def)

lemmas incremental_intros = incremental_bind incremental_int incremental_take incremental_string incremental_pure

lemma incremental_literal: "incremental (parse_literal H p t)"
  unfolding parse_literal_def
  by (rule incremental_bind, rule incremental_int) (auto intro!: incremental_intros)

lemma consuming_literal: "consuming (parse_literal H p t)"
  unfolding parse_literal_def
  by (rule consuming_bind, rule consuming_int) (auto intro!: incremental_intros)

lemma calm_literal: "calm (parse_literal H p t)"
  unfolding parse_literal_def
  by (rule calm_bind, rule calm_basic) (auto intro!: calm_bind calm_string calm_basic)

text \<open>The representation is determined by the leading bits, and every byte has one.\<close>

lemma representation_load_nat:
  "\<forall>n \<in> set [0..<256]. representation_load (of_nat n) = Ok
    (if bit n 7 then Indexed else if bit n 6 then LiteralWithIndexing else if bit n 5 then SizeUpdate
     else if bit n (4 :: nat) then LiteralNeverIndexed else LiteralWithoutIndexing)"
  by code_simp

lemma representation_load_bits:
  "representation_load ty = Ok
    (if bit ty 7 then Indexed else if bit ty 6 then LiteralWithIndexing else if bit ty 5 then SizeUpdate
     else if bit ty 4 then LiteralNeverIndexed else LiteralWithoutIndexing)"
proof -
  have "unat ty \<in> set [0..<256]" using unsigned_less [of ty, where 'a = nat] by simp
  from representation_load_nat [rule_format, OF this] show ?thesis
    by (simp add: bit_unsigned_iff)
qed

lemma incremental_rep: "incremental (parse_rep H cr limit t rep)"
  by (cases rep) (auto intro!: incremental_intros incremental_literal incremental_fail
    simp: bind_outcome_Panic_iff split: if_splits)

lemma consuming_rep: "consuming (parse_rep H cr limit t rep)"
  by (cases rep) (auto intro!: consuming_bind consuming_int consuming_literal consuming_fail incremental_pure
    simp: bind_outcome_Panic_iff split: if_splits)

lemma calm_rep: "calm (parse_rep H cr limit t rep)"
  by (cases rep) (auto intro!: calm_bind calm_basic calm_literal simp: bind_outcome_Panic_iff
    split: if_splits, simp add: calm_def)

lemma item_head:
  "parse_item H cr limit t = (\<lambda>bs. case bs of [] \<Rightarrow> Err (NeedMore UnexpectedEndOfStream)
     | ty # _ \<Rightarrow> parse_rep H cr limit t (case representation_load ty of Ok rep \<Rightarrow> rep) bs)"
  by (rule ext) (auto simp: parse_item_def representation_load_bits split: list.split)

lemma incremental_item: "incremental (parse_item H cr limit t)"
  unfolding item_head by (intro incremental_head incremental_rep)

lemma consuming_item: "consuming (parse_item H cr limit t)"
  unfolding item_head by (intro consuming_head consuming_rep)

lemma calm_item: "calm (parse_item H cr limit t)"
  unfolding item_head by (intro calm_head calm_rep)

end
