(* ===== verification/Hpack_Decode_Ref.thy ===== *)
theory Hpack_Decode_Ref
  imports Hpack_Decode_Spec
begin

text \<open>
  The decoder with its cursor and markers refines the parsers of \<open>Hpack_Decode_Spec\<close>, and the theorems that
  follow: \<open>decode_total\<close>, \<open>decode_refines_spec\<close>, \<open>decode_table_bounded\<close> and \<open>decode_split\<close>.
\<close>

section \<open>Cursors\<close>

definition cur_wf :: "cursor \<Rightarrow> bool" where
  "cur_wf c \<longleftrightarrow> cpos c \<le> length (cbuf c)"

text \<open>The cursor moved to where \<open>r\<close> is left.\<close>

definition cur_at :: "cursor \<Rightarrow> bytes \<Rightarrow> cursor" where
  "cur_at c r = c\<lparr>cpos := length (cbuf c) - length r\<rparr>"

lemma cur_at:
  assumes "cur_wf c" "remaining c = pre @ r"
  shows "remaining (cur_at c r) = r" "cur_wf (cur_at c r)" "cbuf (cur_at c r) = cbuf c"
    "c\<lparr>cpos := cpos c + length pre\<rparr> = cur_at c r" "cpos c + length pre = cpos (cur_at c r)"
proof -
  have b: "cbuf c = take (cpos c) (cbuf c) @ pre @ r"
    using assms(2) by (metis append_take_drop_id remaining_def)
  then have l: "length (cbuf c) = cpos c + length pre + length r"
    using assms(1) by (metis cur_wf_def length_append length_take min.absorb2 add.assoc)
  then show "c\<lparr>cpos := cpos c + length pre\<rparr> = cur_at c r" "cpos c + length pre = cpos (cur_at c r)"
    by (simp_all add: cur_at_def)
  have "drop (length pre) (drop (cpos c) (cbuf c)) = r" using assms(2) by (simp add: remaining_def)
  then have "drop (cpos c + length pre) (cbuf c) = r" by (simp add: add.commute)
  then show "remaining (cur_at c r) = r" using l by (simp add: remaining_def cur_at_def)
  show "cur_wf (cur_at c r)" "cbuf (cur_at c r) = cbuf c" by (simp_all add: cur_wf_def cur_at_def)
qed

lemma cur_at_at: "cur_at (cur_at c r) r' = cur_at c r'"
  by (simp add: cur_at_def)

lemma cur_advance_at: "cur_wf c \<Longrightarrow> remaining c = pre @ r \<Longrightarrow> cur_advance (length pre) c = Some (cur_at c r)"
  using cur_at(4) [of c pre r] by (simp add: cur_advance_def)

lemma cur_take_at:
  assumes "cur_wf c" "remaining c = pre @ r"
  shows "cur_take (length pre) c = Some (pre, \<lparr>cbuf = r, cpos = 0\<rparr>)"
proof -
  have b: "cbuf c = take (cpos c) (cbuf c) @ pre @ r"
    using assms(2) by (metis append_take_drop_id remaining_def)
  have "length (take (cpos c) (cbuf c)) = cpos c" using assms(1) by (simp add: cur_wf_def)
  moreover from this b have "length (cbuf c) = cpos c + length pre + length r"
    by (metis length_append add.assoc)
  moreover have "drop (length pre) (remaining c) = r" by (simp add: assms(2))
  then have "drop (cpos c + length pre) (cbuf c) = r" by (simp add: remaining_def add.commute)
  ultimately show ?thesis
    using assms(2) by (simp add: cur_take_def remaining_def drop_take)
qed

lemma cur_consume_at: "cur_wf c \<Longrightarrow> cur_consume c = Some \<lparr>cbuf = remaining c, cpos = 0\<rparr>"
  using cur_take_at [of c "[]"] by (simp add: cur_consume_def)

lemma fresh: "remaining \<lparr>cbuf = bs, cpos = 0\<rparr> = bs" "cur_wf \<lparr>cbuf = bs, cpos = 0\<rparr>"
  by (simp_all add: remaining_def cur_wf_def)

lemma cur_decode_int_Ok:
  assumes "cur_wf c" "parse_int p (remaining c) = Ok (v, r)"
  shows "cur_decode_int p c = (Ok v, cur_at c r) \<and> (\<exists>pre. remaining c = pre @ r)"
proof -
  have d: "decode_int p (remaining c) = (Ok v, r)"
    using assms(2) by (auto simp: parse_int_def split: prod.splits outcome.splits)
  obtain pre where pre: "remaining c = pre @ r"
    using shrinking_incremental [OF incremental_int] assms(2) unfolding shrinking_def by blast
  then show ?thesis using d cur_at(4) [OF assms(1) pre] by (simp add: cur_decode_int_def)
qed

lemma cur_decode_int_Err:
  assumes "parse_int p (remaining c) = Err e"
  shows "\<exists>c'. cur_decode_int p c = (Err e, c') \<and> cbuf c' = cbuf c"
proof -
  obtain r where "decode_int p (remaining c) = (Err e, r)"
    using assms by (auto simp: parse_int_def split: prod.splits outcome.splits)
  then show ?thesis by (simp add: cur_decode_int_def)
qed

section \<open>Strings\<close>

text \<open>A marker is right for the bytes where it was made, wherever the cursor is in its buffer.\<close>

definition marks :: "string_marker \<Rightarrow> bytes \<Rightarrow> bytes \<Rightarrow> bytes \<Rightarrow> bool" where
  "marks m bs s r \<longleftrightarrow> (\<forall>c. cur_wf c \<and> remaining c = bs \<longrightarrow>
     (\<exists>c'. marker_consume m c = Some (s, c') \<and> remaining c' = r \<and> cur_wf c'))"

lemma marks_huff:
  assumes "bs = pre @ raw @ r"
  shows "marks \<lparr>sm_offset = length pre, sm_len = length raw, sm_string = Some s\<rparr> bs s r"
  unfolding marks_def
proof (intro allI impI)
  fix c assume c: "cur_wf c \<and> remaining c = bs"
  then have a: "cur_advance (length pre) c = Some (cur_at c (raw @ r))"
    using assms by (intro cur_advance_at) simp_all
  note at = cur_at [of c pre "raw @ r"]
  have "cur_advance (length raw) (cur_at c (raw @ r)) = Some (cur_at c r)"
    using c assms at cur_advance_at [of "cur_at c (raw @ r)" raw r] by (simp add: cur_at_at)
  then show "\<exists>c'. marker_consume \<lparr>sm_offset = length pre, sm_len = length raw, sm_string = Some s\<rparr> c = Some (s, c') \<and>
      remaining c' = r \<and> cur_wf c'"
    using a c assms cur_at [of c "pre @ raw" r] by (simp add: marker_consume_def)
qed

lemma marks_raw:
  assumes "bs = pre @ raw @ r"
  shows "marks \<lparr>sm_offset = length pre, sm_len = length raw, sm_string = None\<rparr> bs raw r"
  unfolding marks_def
proof (intro allI impI)
  fix c assume c: "cur_wf c \<and> remaining c = bs"
  then have a: "cur_advance (length pre) c = Some (cur_at c (raw @ r))"
    using assms by (intro cur_advance_at) simp_all
  note at = cur_at [of c pre "raw @ r"]
  have "cur_take (length raw) (cur_at c (raw @ r)) = Some (raw, \<lparr>cbuf = r, cpos = 0\<rparr>)"
    using c assms at by (intro cur_take_at) simp_all
  then show "\<exists>c'. marker_consume \<lparr>sm_offset = length pre, sm_len = length raw, sm_string = None\<rparr> c = Some (raw, c') \<and>
      remaining c' = r \<and> cur_wf c'"
    using a by (simp add: marker_consume_def fresh)
qed

lemma huffman_decode_eq:
  "case reference_decode src of
     Ok s \<Rightarrow> huffman_decode src [] = (Ok s, [])
   | Err e \<Rightarrow> (\<exists>b. huffman_decode src [] = (Err e, b)) \<and> (\<forall>m. e \<noteq> NeedMore m)
   | Panic \<Rightarrow> False"
  using huff_decode_cases [of src "[]"] by (auto simp: huffman_decode_def)

lemma parse_take_Ok: "parse_take n bs = Ok (x, r) \<Longrightarrow> bs = x @ r \<and> length x = n"
  by (auto simp: parse_take_def split: if_splits)

lemma try_decode_string_Ok:
  assumes "cur_wf c" "parse_string (remaining c) = Ok (s, r)"
  shows "(\<exists>m. try_decode_string c [] = (Ok m, cur_at c r, []) \<and> marks m (remaining c) s r) \<and> (\<exists>pre. remaining c = pre @ r)"
proof -
  obtain hdr bs where b: "remaining c = hdr # bs"
    using assms(2) by (cases "remaining c") (auto simp: parse_string_def)
  obtain len r1 raw where i: "parse_int 7 (remaining c) = Ok (len, r1)" and t: "parse_take len r1 = Ok (raw, r)"
    and p: "(if hdr AND HUFF_FLAG = HUFF_FLAG then reference_decode raw else Ok raw) = Ok s"
    using assms(2) by (auto simp: parse_string_def b parse_bind_def bind_outcome_Ok_iff parse_pure_def)
  note d = cur_decode_int_Ok [OF assms(1) i]
  then obtain pre where pre: "remaining c = pre @ r1" by blast
  note raw = parse_take_Ok [OF t]
  note at = cur_at [OF assms(1) pre]
  have adv: "cur_advance len (cur_at c r1) = Some (cur_at c r)"
    using cur_advance_at [OF at(2), of raw r] at(1) raw by (simp add: cur_at_at)
  have off: "cpos (cur_at c r1) - cpos c = length pre" using at(5) by simp
  have nl: "\<not> length r1 < len" using raw by auto
  have tk: "take len r1 = raw" using raw by auto
  have full: "remaining c = pre @ raw @ r" using pre raw by simp
  show ?thesis
  proof (cases "hdr AND HUFF_FLAG = HUFF_FLAG")
    case True
    then have "huffman_decode raw [] = (Ok s, [])" using p huffman_decode_eq [of raw] by simp
    then have "try_decode_string c [] = (Ok \<lparr>sm_offset = length pre, sm_len = len, sm_string = Some s\<rparr>, cur_at c r, [])"
      using d at(1) adv off nl tk True by (simp add: try_decode_string_def peek_u8_def b Let_def)
    then show ?thesis using marks_huff [OF full] raw full by auto
  next
    case False
    then have "try_decode_string c [] = (Ok \<lparr>sm_offset = length pre, sm_len = len, sm_string = None\<rparr>, cur_at c r, [])"
      using d at(1) adv off nl by (simp add: try_decode_string_def peek_u8_def b Let_def)
    then show ?thesis using marks_raw [OF full] raw full p False by auto
  qed
qed

lemma try_decode_string_Err:
  assumes "cur_wf c" "parse_string (remaining c) = Err e"
  shows "\<exists>c' b. try_decode_string c [] = (Err e, c', b) \<and> cbuf c' = cbuf c \<and> ((\<exists>m. e = NeedMore m) \<longrightarrow> b = [])"
proof (cases "remaining c")
  case Nil
  then show ?thesis using assms by (simp add: try_decode_string_def peek_u8_def parse_string_def)
next
  case b: (Cons hdr bs)
  show ?thesis
  proof (cases "parse_int 7 (remaining c)")
    case (Err e')
    then have "e' = e" using assms(2) by (simp add: parse_string_def b parse_bind_def)
    then show ?thesis using cur_decode_int_Err [OF Err] by (auto simp: try_decode_string_def peek_u8_def b Let_def)
  next
    case (Ok x)
    obtain len r1 where x: "x = (len, r1)" by (cases x)
    note d = cur_decode_int_Ok [OF assms(1) Ok [unfolded x]]
    then obtain pre where pre: "remaining c = pre @ r1" by blast
    note at = cur_at [OF assms(1) pre]
    have ps: "parse_string (remaining c) = parse_bind (parse_take len) (\<lambda>raw.
        parse_pure (if hdr AND HUFF_FLAG = HUFF_FLAG then reference_decode raw else Ok raw)) r1"
      using Ok x by (simp add: parse_string_def b parse_bind_def)
    show ?thesis
    proof (cases "length r1 < len")
      case True
      then have "e = NeedMore StringUnderflow" using assms(2) ps by (simp add: parse_bind_def parse_take_def)
      then show ?thesis using d at True by (simp add: try_decode_string_def peek_u8_def b Let_def)
    next
      case False
      then have t: "parse_take len r1 = Ok (take len r1, drop len r1)" by (simp add: parse_take_def)
      have h: "hdr AND HUFF_FLAG = HUFF_FLAG" and re: "reference_decode (take len r1) = Err e"
        using assms(2) ps t
        by (cases "hdr AND HUFF_FLAG = HUFF_FLAG"; auto simp: parse_bind_def parse_pure_def bind_outcome_Err_iff)+
      have "\<exists>c'. cur_advance len (cur_at c r1) = Some c' \<and> cbuf c' = cbuf c"
        using False at by (simp add: cur_advance_def)
      then show ?thesis
        using huffman_decode_eq [of "take len r1"] re d at False h
        by (auto simp: try_decode_string_def peek_u8_def b Let_def)
    qed
  next
    case Panic
    then show ?thesis using calm_basic(1) by (auto simp: calm_def)
  qed
qed

lemma decode_string_Ok:
  assumes "cur_wf c" "parse_string (remaining c) = Ok (s, r)"
  shows "\<exists>c'. decode_string c [] = (Ok s, c', []) \<and> remaining c' = r \<and> cur_wf c'"
proof -
  obtain m where m: "try_decode_string c [] = (Ok m, cur_at c r, [])" "marks m (remaining c) s r"
    using try_decode_string_Ok [OF assms] by blast
  have "(cur_at c r)\<lparr>cpos := cpos c\<rparr> = c" by (simp add: cur_at_def)
  then show ?thesis using m assms(1) unfolding marks_def by (fastforce simp: decode_string_def Let_def)
qed

lemma decode_string_Err:
  assumes "cur_wf c" "parse_string (remaining c) = Err e"
  shows "\<exists>c' b. decode_string c [] = (Err e, c', b) \<and> cbuf c' = cbuf c \<and> ((\<exists>m. e = NeedMore m) \<longrightarrow> b = [])"
  using try_decode_string_Err [OF assms] by (auto simp: decode_string_def Let_def)

section \<open>Representations\<close>

text \<open>What an error leaves: the state but for the string buffer, and, when more input is needed, the whole
  representation, unless no input can help.\<close>

definition err_left :: "decoder_error \<Rightarrow> bytes \<Rightarrow> cursor \<Rightarrow> cursor \<Rightarrow> bool \<Rightarrow> bool" where
  "err_left e b c c' hopeless \<longleftrightarrow> (\<exists>m. e = NeedMore m) \<longrightarrow> b = [] \<and> (cbuf c' = cbuf c \<or> hopeless)"

definition hopeless :: "'a parser \<Rightarrow> bytes \<Rightarrow> decoder_error \<Rightarrow> bool" where
  "hopeless p bs e \<longleftrightarrow> (\<forall>ext. p (bs @ ext) = Err e)"

lemma incremental_Ok:
  assumes "incremental p" "p bs = Ok (x, r)"
  shows "p (bs @ ext) = Ok (x, r @ ext)"
proof (cases rule: incrementalE [OF assms(1), of bs])
  case (1 pre y r')
  then show ?thesis using 1(2) [of "[]"] assms(2) by simp
next
  case (3 e)
  then show ?thesis using 3 [of "[]"] assms(2) by simp
qed (use assms(2) in simp)

lemma decode_literal_Ok:
  assumes "cur_wf c" "dec_buffer d = []"
    "parse_literal H (if idx then 6 else 4) (dec_table d) (remaining c) = Ok (h, r)"
  shows "\<exists>c'. decode_literal H idx d c = (Ok h, d, c') \<and> remaining c' = r \<and> cur_wf c'"
proof -
  let ?p = "if idx then 6 else 4 :: nat"
  obtain i r1 where i: "parse_int ?p (remaining c) = Ok (i, r1)"
    and q: "(if i = 0
      then parse_bind parse_string (\<lambda>name. parse_bind parse_string (\<lambda>val. parse_pure (header_new H name val)))
      else parse_bind (parse_pure (dyn_get i (dec_table d))) (\<lambda>e.
        parse_bind parse_string (\<lambda>val. parse_pure (into_entry H (header_name e) val)))) r1 = Ok (h, r)"
    using assms(3) by (auto simp: parse_literal_def parse_bind_def bind_outcome_Ok_iff)
  note d = cur_decode_int_Ok [OF assms(1) i]
  then obtain pre where pre: "remaining c = pre @ r1" by blast
  note at = cur_at [OF assms(1) pre]
  let ?c = "cur_at c r1"
  have db: "d\<lparr>dec_buffer := []\<rparr> = d" using assms(2) by simp
  show ?thesis
  proof (cases "i = 0")
    case True
    then obtain name r2 val where s1: "parse_string r1 = Ok (name, r2)" and s2: "parse_string r2 = Ok (val, r)"
      and h: "header_new H name val = Ok h"
      using q by (auto simp: parse_bind_def bind_outcome_Ok_iff parse_pure_def)
    from try_decode_string_Ok [of ?c name r2] s1 at obtain m1 pre2 where
      m1: "try_decode_string ?c [] = (Ok m1, cur_at c r2, [])" "marks m1 r1 name r2" "r1 = pre2 @ r2"
      by (auto simp: cur_at_at)
    have at2: "remaining (cur_at c r2) = r2" "cur_wf (cur_at c r2)"
      using cur_at [OF assms(1), of "pre @ pre2" r2] pre m1(3) by simp_all
    from try_decode_string_Ok [of "cur_at c r2" val r] s2 at2 obtain m2 where
      m2: "try_decode_string (cur_at c r2) [] = (Ok m2, cur_at c r, [])" "marks m2 r2 val r"
      by (auto simp: cur_at_at)
    have pos_back: "(cur_at c r)\<lparr>cpos := cpos ?c\<rparr> = ?c" by (simp add: cur_at_def)
    obtain c1 where c1: "marker_consume m1 ?c = Some (name, c1)" "remaining c1 = r2" "cur_wf c1"
      using m1(2) at unfolding marks_def by blast
    obtain c2 where c2: "marker_consume m2 c1 = Some (val, c2)" "remaining c2 = r" "cur_wf c2"
      using m2(2) c1 unfolding marks_def by blast
    show ?thesis
      using d True m1(1) m2(1) pos_back c1(1) c2 h assms(2) db by (simp add: decode_literal_def Let_def)
  next
    case False
    then obtain e val where e: "dyn_get i (dec_table d) = Ok e" and s1: "parse_string r1 = Ok (val, r)"
      and h: "into_entry H (header_name e) val = Ok h"
      using q by (auto simp: parse_bind_def bind_outcome_Ok_iff parse_pure_def)
    from decode_string_Ok [of ?c val r] s1 at obtain c' where
      "decode_string ?c [] = (Ok val, c', [])" "remaining c' = r" "cur_wf c'" by auto
    then show ?thesis using d False e h assms(2) db by (simp add: decode_literal_def Let_def)
  qed
qed

lemma decode_literal_Err:
  assumes "cur_wf c" "dec_buffer d = []"
    "parse_literal H (if idx then 6 else 4) (dec_table d) (remaining c) = Err e"
  shows "\<exists>b c'. decode_literal H idx d c = (Err e, d\<lparr>dec_buffer := b\<rparr>, c') \<and>
    err_left e b c c' (hopeless (parse_literal H (if idx then 6 else 4) (dec_table d)) (remaining c) e)"
proof -
  let ?p = "if idx then 6 else 4 :: nat"
  have db: "d\<lparr>dec_buffer := []\<rparr> = d" using assms(2) by simp
  show ?thesis
  proof (cases "parse_int ?p (remaining c)")
    case (Err e')
    then have "e' = e" using assms(3) by (simp add: parse_literal_def parse_bind_def)
    then show ?thesis
      using cur_decode_int_Err [OF Err] db
      by (auto simp: decode_literal_def Let_def err_left_def intro!: exI [of _ "[]"])
  next
    case (Ok x)
    obtain i r1 where x: "x = (i, r1)" by (cases x)
    note i = Ok [unfolded x]
    note d = cur_decode_int_Ok [OF assms(1) i]
    then obtain pre where pre: "remaining c = pre @ r1" by blast
    note at = cur_at [OF assms(1) pre]
    let ?c = "cur_at c r1"
    have ext: "parse_int ?p (remaining c @ ext) = Ok (i, r1 @ ext)" for ext
      using incremental_Ok [OF incremental_int i] .
    show ?thesis
    proof (cases "i = 0")
      case True
      have q: "parse_literal H ?p (dec_table d) (remaining c @ ext) = parse_bind parse_string (\<lambda>name.
          parse_bind parse_string (\<lambda>val. parse_pure (header_new H name val))) (r1 @ ext)" for ext
        using ext [of ext] True by (simp add: parse_literal_def parse_bind_def)
      note q0 = q [of "[]", simplified]
      show ?thesis
      proof (cases "parse_string r1")
        case (Err e')
        then have "e' = e" using assms(3) q0 by (simp add: parse_bind_def)
        then show ?thesis
          using try_decode_string_Err [of ?c e] Err d at True assms(2)
          by (auto simp: decode_literal_def Let_def err_left_def)
      next
        case (Ok y)
        obtain name r2 where y: "y = (name, r2)" by (cases y)
        note s1 = Ok [unfolded y]
        from try_decode_string_Ok [of ?c name r2] s1 at obtain m1 pre2 where
          m1: "try_decode_string ?c [] = (Ok m1, cur_at c r2, [])" "marks m1 r1 name r2" "r1 = pre2 @ r2"
          by (auto simp: cur_at_at)
        have at2: "remaining (cur_at c r2) = r2" "cur_wf (cur_at c r2)" "cbuf (cur_at c r2) = cbuf c"
          using cur_at [OF assms(1), of "pre @ pre2" r2] pre m1(3) by simp_all
        show ?thesis
        proof (cases "parse_string r2")
          case (Err e')
          then have "e' = e" using assms(3) q0 s1 by (simp add: parse_bind_def)
          then show ?thesis
            using try_decode_string_Err [of "cur_at c r2" e] Err d at at2 m1(1) True assms(2)
            by (auto simp: decode_literal_def Let_def err_left_def)
        next
          case (Ok z)
          obtain val r where z: "z = (val, r)" by (cases z)
          note s2 = Ok [unfolded z]
          from try_decode_string_Ok [of "cur_at c r2" val r] s2 at2 obtain m2 where
            m2: "try_decode_string (cur_at c r2) [] = (Ok m2, cur_at c r, [])" "marks m2 r2 val r"
            by (auto simp: cur_at_at)
          have pos_back: "(cur_at c r)\<lparr>cpos := cpos ?c\<rparr> = ?c" by (simp add: cur_at_def)
          obtain c1 where c1: "marker_consume m1 ?c = Some (name, c1)" "remaining c1 = r2" "cur_wf c1"
            using m1(2) at unfolding marks_def by blast
          obtain c2 where c2: "marker_consume m2 c1 = Some (val, c2)" "remaining c2 = r" "cur_wf c2"
            using m2(2) c1 unfolding marks_def by blast
          have h: "header_new H name val = Err e"
            using assms(3) q0 s1 s2 by (auto simp: parse_bind_def parse_pure_def bind_outcome_Err_iff)
          have "hopeless (parse_literal H ?p (dec_table d)) (remaining c) e"
            using q incremental_Ok [OF incremental_string s1] incremental_Ok [OF incremental_string s2] h
            by (simp add: hopeless_def parse_bind_def parse_pure_def)
          then show ?thesis
            using d True m1(1) m2(1) pos_back c1(1) c2 h assms(2) db
            by (auto simp: decode_literal_def Let_def err_left_def intro!: exI [of _ "[]"])
        next
          case Panic
          then show ?thesis using calm_string by (simp add: calm_def)
        qed
      next
        case Panic
        then show ?thesis using calm_string by (simp add: calm_def)
      qed
    next
      case False
      have q: "parse_literal H ?p (dec_table d) (remaining c @ ext) = parse_bind (parse_pure (dyn_get i (dec_table d))) (\<lambda>e.
          parse_bind parse_string (\<lambda>val. parse_pure (into_entry H (header_name e) val))) (r1 @ ext)" for ext
        using ext [of ext] False by (simp add: parse_literal_def parse_bind_def)
      note q0 = q [of "[]", simplified]
      show ?thesis
      proof (cases "dyn_get i (dec_table d)")
        case (Err e')
        then have "e' = e" using assms(3) q0 by (simp add: parse_bind_def parse_pure_def)
        then show ?thesis using d False Err at db
          by (auto simp: decode_literal_def Let_def err_left_def intro!: exI [of _ "[]"])
      next
        case g: (Ok ent)
        show ?thesis
        proof (cases "parse_string r1")
          case (Err e')
          then have "e' = e" using assms(3) q0 g by (simp add: parse_bind_def parse_pure_def)
          then show ?thesis
            using decode_string_Err [of ?c e] Err d at False assms(2) g
            by (auto simp: decode_literal_def Let_def err_left_def)
        next
          case (Ok y)
          obtain val r where y: "y = (val, r)" by (cases y)
          note s1 = Ok [unfolded y]
          have h: "into_entry H (header_name ent) val = Err e"
            using assms(3) q0 s1 g by (auto simp: parse_bind_def parse_pure_def bind_outcome_Err_iff)
          have "hopeless (parse_literal H ?p (dec_table d)) (remaining c) e"
            using q incremental_Ok [OF incremental_string s1] h g
            by (simp add: hopeless_def parse_bind_def parse_pure_def)
          moreover obtain c' where "decode_string ?c [] = (Ok val, c', [])"
            using decode_string_Ok [of ?c val r] s1 at by auto
          ultimately show ?thesis
            using d False g h assms(2) db
            by (auto simp: decode_literal_def Let_def err_left_def intro!: exI [of _ "[]"])
        next
          case Panic
          then show ?thesis using calm_string by (simp add: calm_def)
        qed
      qed (use dyn_get_no_panic in simp)
    qed
  next
    case Panic
    then show ?thesis using calm_basic(1) by (auto simp: calm_def)
  qed
qed

section \<open>One round of the loop\<close>

text \<open>What an item does to the table: entries are evicted as in RFC 7541.\<close>

definition table_of :: "bytes header list \<Rightarrow> nat \<Rightarrow> dyn_table" where
  "table_of hs m = \<lparr>dt_entries = hs, dt_size = total_len hs, dt_max_size = m\<rparr>"

definition apply_item :: "item \<Rightarrow> dyn_table \<Rightarrow> dyn_table" where
  "apply_item i t =
    (case i of
       Resize n \<Rightarrow> table_of (fitting n (dt_entries t)) n
     | Emit ins h \<Rightarrow>
         if ins then table_of (fitting (dt_max_size t) (h # dt_entries t)) (dt_max_size t) else t)"

lemma dyn_inv_table_of: "dyn_inv t \<longleftrightarrow> total_len (dt_entries t) \<le> dt_max_size t \<and> t = table_of (dt_entries t) (dt_max_size t)"
  by (cases t) (auto simp: dyn_inv_def table_of_def)

lemma dyn_insert_apply: "dyn_inv t \<Longrightarrow> dyn_insert h t = Some (apply_item (Emit True h) t)"
  using dyn_insert_spec [of t h] dyn_inv_table_of by (fastforce simp: apply_item_def)

lemma dyn_set_max_size_apply: "dyn_inv t \<Longrightarrow> dyn_set_max_size n t = Some (apply_item (Resize n) t)"
  using dyn_set_max_size_spec [of t n] dyn_inv_table_of by (fastforce simp: apply_item_def)

lemma apply_item_inv: "dyn_inv t \<Longrightarrow> dyn_inv (apply_item i t)"
  by (auto simp: apply_item_def table_of_def dyn_inv_def total_fitting simp del: fitting.simps split: item.split)

lemma deliver_at:
  "cur_wf c \<Longrightarrow> deliver f d c s h = (case f s h of (s', fl) \<Rightarrow> (Ok fl, False, d, \<lparr>cbuf = remaining c, cpos = 0\<rparr>, s'))"
  by (simp add: deliver_def cur_consume_at)

lemma decode_step_Ok:
  assumes "cur_wf c" "dec_buffer d = []" "dyn_inv (dec_table d)" "remaining c = ty # bs"
    "parse_item H cr (dec_last_max_update d) (dec_table d) (remaining c) = Ok (i, r)"
  shows "decode_step H f ty cr d c s = (case i of
      Resize n \<Rightarrow> (Ok Continue, cr, d\<lparr>dec_table := apply_item i (dec_table d)\<rparr>, \<lparr>cbuf = r, cpos = 0\<rparr>, s)
    | Emit ins h \<Rightarrow> (case f s h of (s', fl) \<Rightarrow>
        (Ok fl, False, d\<lparr>dec_table := apply_item i (dec_table d)\<rparr>, \<lparr>cbuf = r, cpos = 0\<rparr>, s')))"
proof -
  obtain rep where rep: "representation_load ty = Ok rep"
    and p: "parse_rep H cr (dec_last_max_update d) (dec_table d) rep (remaining c) = Ok (i, r)"
    using assms(5) by (auto simp: parse_item_def assms(4) bind_outcome_Ok_iff)
  have lit: ?thesis if "parse_literal H 4 (dec_table d) (remaining c) = Ok (h, r)" "i = Emit False h"
      "rep = LiteralWithoutIndexing \<or> rep = LiteralNeverIndexed" for h
    using decode_literal_Ok [OF assms(1,2), where idx = False, of H h r] that rep
    by (auto simp: decode_step_def apply_item_def deliver_at split: prod.split)
  show ?thesis
  proof (cases rep)
    case Indexed
    then obtain j h where j: "parse_int 7 (remaining c) = Ok (j, r)" "dyn_get j (dec_table d) = Ok h" "i = Emit False h"
      using p by (auto simp: parse_bind_def parse_pure_def bind_outcome_Ok_iff)
    note d = cur_decode_int_Ok [OF assms(1) j(1)]
    moreover obtain pre where "remaining c = pre @ r" using d by blast
    note cur_at [OF assms(1) this]
    ultimately show ?thesis
      using Indexed rep j by (simp add: decode_step_def decode_indexed_def apply_item_def deliver_at)
  next
    case LiteralWithIndexing
    then obtain h where h: "parse_literal H 6 (dec_table d) (remaining c) = Ok (h, r)" "i = Emit True h"
      using p by (auto simp: parse_bind_def parse_pure_def bind_outcome_Ok_iff)
    then show ?thesis
      using decode_literal_Ok [OF assms(1,2), where idx = True, of H h r] rep LiteralWithIndexing
        dyn_insert_apply [OF assms(3)]
      by (auto simp: decode_step_def deliver_at split: prod.split)
  next
    case LiteralWithoutIndexing
    then show ?thesis using p lit by (auto simp: parse_bind_def parse_pure_def bind_outcome_Ok_iff)
  next
    case LiteralNeverIndexed
    then show ?thesis using p lit by (auto simp: parse_bind_def parse_pure_def bind_outcome_Ok_iff)
  next
    case SizeUpdate
    then obtain n where n: "parse_int 5 (remaining c) = Ok (n, r)" "\<not> dec_last_max_update d < n" "i = Resize n" "cr"
      using p by (auto simp: parse_bind_def parse_pure_def bind_outcome_Ok_iff split: if_splits)
    note d = cur_decode_int_Ok [OF assms(1) n(1)]
    moreover obtain pre where "remaining c = pre @ r" using d by blast
    note cur_at [OF assms(1) this]
    ultimately show ?thesis
      using SizeUpdate rep n dyn_set_max_size_apply [OF assms(3)] cur_consume_at [of "cur_at c r"]
      by (simp add: decode_step_def process_size_update_def)
  qed
qed

lemma decode_step_Err:
  assumes "cur_wf c" "dec_buffer d = []" "remaining c = ty # bs"
    "parse_item H cr (dec_last_max_update d) (dec_table d) (remaining c) = Err e"
  shows "\<exists>cr' b c'. decode_step H f ty cr d c s = (Err e, cr', d\<lparr>dec_buffer := b\<rparr>, c', s) \<and>
    err_left e b c c' (hopeless (parse_item H cr (dec_last_max_update d) (dec_table d)) (remaining c) e)"
proof -
  have db: "d\<lparr>dec_buffer := []\<rparr> = d" using assms(2) by simp
  obtain rep where rep: "representation_load ty = Ok rep" using representation_load_bits by blast
  then have p: "parse_rep H cr (dec_last_max_update d) (dec_table d) rep (remaining c) = Err e"
    using assms(4) by (simp add: parse_item_def assms(3))
  have pe: "parse_item H cr l t (remaining c @ ext) = parse_rep H cr l t rep (remaining c @ ext)" for l t ext
    using rep by (simp add: parse_item_def assms(3))
  have lit: ?thesis if "parse_literal H p (dec_table d) (remaining c) = Err e" "p = (if idx then 6 else 4)"
      "if idx then rep = LiteralWithIndexing else rep = LiteralWithoutIndexing \<or> rep = LiteralNeverIndexed" for p idx
  proof -
    from decode_literal_Err [OF assms(1,2), of H idx e] that(1)
    obtain b c' where l: "decode_literal H idx d c = (Err e, d\<lparr>dec_buffer := b\<rparr>, c')"
      "err_left e b c c' (hopeless (parse_literal H p (dec_table d)) (remaining c) e)"
      unfolding \<open>p = (if idx then 6 else 4)\<close> by blast
    have "hopeless (parse_literal H p (dec_table d)) (remaining c) e \<Longrightarrow>
        hopeless (parse_item H cr (dec_last_max_update d) (dec_table d)) (remaining c) e"
      using that(2,3) by (auto simp: hopeless_def pe parse_bind_def split: if_splits)
    then have "err_left e b c c' (hopeless (parse_item H cr (dec_last_max_update d) (dec_table d)) (remaining c) e)"
      using l(2) by (auto simp: err_left_def)
    moreover have "decode_step H f ty cr d c s = (Err e, False, d\<lparr>dec_buffer := b\<rparr>, c', s)"
      using l(1) that(3) rep by (auto simp: decode_step_def split: if_splits)
    ultimately show ?thesis by blast
  qed
  have int: "\<exists>c'. cur_decode_int n c = (Err e, c') \<and> cbuf c' = cbuf c" if "parse_int n (remaining c) = Err e" for n
    using cur_decode_int_Err [OF that] .
  show ?thesis
  proof (cases rep)
    case Indexed
    show ?thesis
    proof (cases "parse_int 7 (remaining c)")
      case (Ok x)
      obtain j r where x: "x = (j, r)" by (cases x)
      have g: "dyn_get j (dec_table d) = Err e"
        using p Indexed Ok x by (auto simp: parse_bind_def parse_pure_def bind_outcome_Err_iff)
      then have nm: "\<forall>m. e \<noteq> NeedMore m" by (auto simp: dyn_get_def split: if_splits)
      then show ?thesis
        using cur_decode_int_Ok [OF assms(1) Ok [unfolded x]] g Indexed rep db
        by (auto simp: decode_step_def decode_indexed_def err_left_def intro!: exI [of _ "[]"])
    next
      case (Err e')
      then have "e' = e" using p Indexed by (simp add: parse_bind_def)
      then show ?thesis using int Err Indexed rep db
        by (fastforce simp: decode_step_def decode_indexed_def err_left_def intro!: exI [of _ "[]"])
    next
      case Panic
      then show ?thesis using calm_basic(1) by (auto simp: calm_def)
    qed
  next
    case LiteralWithIndexing
    then have "parse_literal H 6 (dec_table d) (remaining c) = Err e"
      using p by (auto simp: parse_bind_def parse_pure_def bind_outcome_Err_iff)
    then show ?thesis using lit [of 6 True] LiteralWithIndexing by simp
  next
    case LiteralWithoutIndexing
    then have "parse_literal H 4 (dec_table d) (remaining c) = Err e"
      using p by (auto simp: parse_bind_def parse_pure_def bind_outcome_Err_iff)
    then show ?thesis using lit [of 4 False] LiteralWithoutIndexing by simp
  next
    case LiteralNeverIndexed
    then have "parse_literal H 4 (dec_table d) (remaining c) = Err e"
      using p by (auto simp: parse_bind_def parse_pure_def bind_outcome_Err_iff)
    then show ?thesis using lit [of 4 False] LiteralNeverIndexed by simp
  next
    case SizeUpdate
    show ?thesis
    proof (cases cr)
      case False
      then have "e = InvalidMaxDynamicSize" using p SizeUpdate by simp
      then show ?thesis using False SizeUpdate rep db
        by (auto simp: decode_step_def err_left_def intro!: exI [of _ "[]"])
    next
      case True
      show ?thesis
      proof (cases "parse_int 5 (remaining c)")
        case (Ok x)
        obtain j r where x: "x = (j, r)" by (cases x)
        have g: "dec_last_max_update d < j" "e = InvalidMaxDynamicSize"
          using p SizeUpdate Ok x True by (auto simp: parse_bind_def parse_pure_def split: if_splits)
        then show ?thesis
          using cur_decode_int_Ok [OF assms(1) Ok [unfolded x]] SizeUpdate rep db True
          by (auto simp: decode_step_def process_size_update_def err_left_def intro!: exI [of _ "[]"])
      next
        case (Err e')
        then have "e' = e" using p SizeUpdate True by (simp add: parse_bind_def)
        then show ?thesis using int Err SizeUpdate rep db True
          by (fastforce simp: decode_step_def process_size_update_def err_left_def intro!: exI [of _ "[]"])
      next
        case Panic
        then show ?thesis using calm_basic(1) by (auto simp: calm_def)
      qed
    qed
  qed
qed

section \<open>The whole block\<close>

text \<open>The specification of the loop: outcome, table, the bytes that are left and the state of the callback.\<close>

function spec_decode ::
  "http_parsers \<Rightarrow> 's callback \<Rightarrow> bool \<Rightarrow> nat \<Rightarrow> dyn_table \<Rightarrow> bytes \<Rightarrow> 's \<Rightarrow>
     (unit, decoder_error) outcome \<times> dyn_table \<times> bytes \<times> 's" where
  "spec_decode H f cr limit t bs s =
    (if bs = [] then (Ok (), t, [], s)
     else case parse_item H cr limit t bs of
       Err e \<Rightarrow> (Err e, t, bs, s)
     | Panic \<Rightarrow> (Panic, t, bs, s)
     | Ok (i, r) \<Rightarrow>
         (case i of
            Resize n \<Rightarrow> spec_decode H f cr limit (apply_item i t) r s
          | Emit ins h \<Rightarrow>
              (case f s h of
                 (s', Continue) \<Rightarrow> spec_decode H f False limit (apply_item i t) r s'
               | (s', Break) \<Rightarrow> (Ok (), apply_item i t, r, s'))))"
  by pat_completeness auto
termination
  by (relation "measure (\<lambda>(H, f, cr, limit, t, bs, s). length bs)")
    (use consuming_item in \<open>auto simp: consuming_def\<close>)

declare spec_decode.simps [simp del]

lemma spec_decode_Nil [simp]: "spec_decode H f cr limit t [] s = (Ok (), t, [], s)"
  by (subst spec_decode.simps) simp

lemma parse_item_resize: "parse_item H cr limit t bs = Ok (Resize n, r) \<Longrightarrow> n \<le> limit"
proof -
  have "parse_rep H cr limit t rep bs = Ok (Resize n, r) \<Longrightarrow> n \<le> limit" for rep
    by (cases rep) (auto simp: parse_bind_def parse_pure_def bind_outcome_Ok_iff split: if_splits)
  then show "parse_item H cr limit t bs = Ok (Resize n, r) \<Longrightarrow> n \<le> limit"
    by (cases bs) (auto simp: parse_item_def bind_outcome_Ok_iff)
qed

lemma spec_decode_inv:
  "dyn_inv t \<Longrightarrow> spec_decode H f cr limit t bs s = (x, t', r, s') \<Longrightarrow>
     dyn_inv t' \<and> dt_max_size t' \<le> max limit (dt_max_size t) \<and> x \<noteq> Panic"
proof (induction H f cr limit t bs s rule: spec_decode.induct)
  case (1 H f cr limit t bs s)
  show ?case
  proof (cases "bs = []")
    case True
    then show ?thesis using "1.prems" by auto
  next
    case ne: False
    have un: "spec_decode H f cr limit t bs s = (case parse_item H cr limit t bs of
       Err e \<Rightarrow> (Err e, t, bs, s)
     | Panic \<Rightarrow> (Panic, t, bs, s)
     | Ok (i, r) \<Rightarrow>
         (case i of
            Resize n \<Rightarrow> spec_decode H f cr limit (apply_item i t) r s
          | Emit ins h \<Rightarrow>
              (case f s h of
                 (s', Continue) \<Rightarrow> spec_decode H f False limit (apply_item i t) r s'
               | (s', Break) \<Rightarrow> (Ok (), apply_item i t, r, s'))))"
      using ne by (subst spec_decode.simps) (simp only: if_False)
    show ?thesis
    proof (cases "parse_item H cr limit t bs")
      case (Ok x1)
      obtain i r1 where x1: "x1 = (i, r1)" by (cases x1)
      have inv: "dyn_inv (apply_item i t)" using apply_item_inv "1.prems"(1) .
      show ?thesis
      proof (cases i)
        case (Resize n)
        have "n \<le> limit" using Ok unfolding x1 Resize by (rule parse_item_resize)
        then show ?thesis
          using "1.IH"(1) [OF ne Ok x1 [symmetric] Resize inv] "1.prems"(2) Ok x1 Resize
          by (auto simp: un apply_item_def table_of_def)
      next
        case (Emit ins h)
        have m: "dt_max_size (apply_item i t) = dt_max_size t"
          by (simp add: Emit apply_item_def table_of_def)
        obtain s1 fl where f: "f s h = (s1, fl)" by (cases "f s h")
        show ?thesis
        proof (cases fl)
          case Continue
          show ?thesis
            using "1.IH"(2) [OF ne Ok x1 [symmetric] Emit f [symmetric] Continue inv] "1.prems"(2) Ok x1 Emit f Continue m
            by (simp add: un)
        next
          case Break
          then show ?thesis using "1.prems"(2) Ok x1 Emit f inv m by (auto simp: un)
        qed
      qed
    next
      case (Err e)
      then show ?thesis using "1.prems" by (auto simp: un)
    next
      case Panic
      then show ?thesis using calm_item by (auto simp: calm_def)
    qed
  qed
qed

text \<open>The rules of the specification, item by item.\<close>

lemma spec_decode_step:
  "bs \<noteq> [] \<Longrightarrow> parse_item H cr limit t bs = Ok (Resize n, r) \<Longrightarrow>
     spec_decode H f cr limit t bs s = spec_decode H f cr limit (apply_item (Resize n) t) r s"
  "bs \<noteq> [] \<Longrightarrow> parse_item H cr limit t bs = Ok (Emit ins h, r) \<Longrightarrow> f s h = (s', Continue) \<Longrightarrow>
     spec_decode H f cr limit t bs s = spec_decode H f False limit (apply_item (Emit ins h) t) r s'"
  "bs \<noteq> [] \<Longrightarrow> parse_item H cr limit t bs = Ok (Emit ins h, r) \<Longrightarrow> f s h = (s', Break) \<Longrightarrow>
     spec_decode H f cr limit t bs s = (Ok (), apply_item (Emit ins h) t, r, s')"
  "bs \<noteq> [] \<Longrightarrow> parse_item H cr limit t bs = Err e \<Longrightarrow> spec_decode H f cr limit t bs s = (Err e, t, bs, s)"
  by (subst spec_decode.simps, simp)+

lemma decode_loop_refines:
  assumes "cpos c = 0" "dec_buffer d = []" "dyn_inv (dec_table d)" "length (cbuf c) < fuel"
    "spec_decode H f cr (dec_last_max_update d) (dec_table d) (cbuf c) s = (x, t', r, s')"
  shows "\<exists>b c'. decode_loop fuel H f cr d c s = Some (x, d\<lparr>dec_table := t', dec_buffer := b\<rparr>, c', s') \<and>
    (x = Ok () \<longrightarrow> b = [] \<and> cbuf c' = r \<and> cpos c' = 0) \<and>
    ((\<exists>m. x = Err (NeedMore m)) \<longrightarrow> b = [] \<and> (cbuf c' = r \<or>
       (\<forall>ext. fst (spec_decode H f cr (dec_last_max_update d) (dec_table d) (cbuf c @ ext) s) = x)))"
  using assms
proof (induction fuel arbitrary: cr d c s)
  case (Suc fuel)
  have wf: "cur_wf c" and rem: "remaining c = cbuf c" using Suc.prems(1) by (simp_all add: cur_wf_def remaining_def)
  have db: "d\<lparr>dec_buffer := []\<rparr> = d" using Suc.prems(2) by simp
  show ?case
  proof (cases "cbuf c")
    case Nil
    then show ?thesis
      using Suc.prems db by (auto simp: peek_u8_def rem intro!: exI [of _ "[]"])
  next
    case (Cons ty bs)
    have peek: "peek_u8 c = Some ty" using Cons by (simp add: peek_u8_def rem)
    have ne: "cbuf c \<noteq> []" using Cons by simp
    let ?t = "dec_table d" and ?l = "dec_last_max_update d"
    show ?thesis
    proof (cases "parse_item H cr ?l ?t (cbuf c)")
      case (Ok y)
      obtain i r1 where y: "y = (i, r1)" by (cases y)
      note item = Ok [unfolded y]
      note step = decode_step_Ok [OF wf Suc.prems(2,3), of ty bs, unfolded rem, OF Cons item]
      note whole = incremental_Ok [OF incremental_item item]
      have len: "length r1 < fuel"
        using consuming_item item Suc.prems(4) unfolding consuming_def by fastforce
      let ?d = "d\<lparr>dec_table := apply_item i ?t\<rparr>" and ?c = "\<lparr>cbuf = r1, cpos = 0\<rparr>"
      have inv: "cpos ?c = 0" "dec_buffer ?d = []" "dyn_inv (dec_table ?d)" "length (cbuf ?c) < fuel"
        using Suc.prems(2,3) len apply_item_inv by simp_all
      have app: "cbuf c @ ext \<noteq> []" for ext using ne by simp
      show ?thesis
      proof (cases i)
        case (Resize n)
        have sp: "spec_decode H f cr ?l ?t (cbuf c @ ext) s = spec_decode H f cr ?l (apply_item i ?t) (r1 @ ext) s" for ext
          using spec_decode_step(1) [OF app] whole [of ext] Resize by simp
        have "spec_decode H f cr (dec_last_max_update ?d) (dec_table ?d) (cbuf ?c) s = (x, t', r, s')"
          using sp [of "[]"] Suc.prems(5) by simp
        note IH = Suc.IH [OF inv this]
        have "decode_loop (Suc fuel) H f cr d c s = decode_loop fuel H f cr ?d ?c s"
          using step [of f s] peek Resize by simp
        with IH show ?thesis by (simp add: sp)
      next
        case (Emit ins h)
        obtain s1 fl where fh: "f s h = (s1, fl)" by (cases "f s h")
        show ?thesis
        proof (cases fl)
          case Continue
          have sp: "spec_decode H f cr ?l ?t (cbuf c @ ext) s = spec_decode H f False ?l (apply_item i ?t) (r1 @ ext) s1" for ext
            using spec_decode_step(2) [where f = f, OF app] whole [of ext] Emit fh Continue by simp
          have "spec_decode H f False (dec_last_max_update ?d) (dec_table ?d) (cbuf ?c) s1 = (x, t', r, s')"
            using sp [of "[]"] Suc.prems(5) by simp
          note IH = Suc.IH [OF inv this]
          have "decode_loop (Suc fuel) H f cr d c s = decode_loop fuel H f False ?d ?c s1"
            using step [of f s] peek Emit fh Continue by simp
          with IH show ?thesis by (simp add: sp)
        next
          case Break
          have "spec_decode H f cr ?l ?t (cbuf c) s = (Ok (), apply_item i ?t, r1, s1)"
            using spec_decode_step(3) [OF ne] item Emit fh Break by simp
          then have x: "x = Ok ()" "t' = apply_item i ?t" "r = r1" "s' = s1" using Suc.prems(5) by simp_all
          have "decode_loop (Suc fuel) H f cr d c s = Some (Ok (), ?d, ?c, s1)"
            using step [of f s] peek Emit fh Break by simp
          moreover have "?d = d\<lparr>dec_table := apply_item i ?t, dec_buffer := []\<rparr>" using Suc.prems(2) by simp
          ultimately show ?thesis using x by auto
        qed
      qed
    next
      case (Err e)
      have sp: "spec_decode H f cr ?l ?t (cbuf c) s = (Err e, ?t, cbuf c, s)"
        using spec_decode_step(4) [OF ne Err] .
      then have x: "x = Err e" "t' = ?t" "r = cbuf c" "s' = s" using Suc.prems(5) by simp_all
      from decode_step_Err [OF wf Suc.prems(2), of ty bs, unfolded rem, OF Cons Err, of f s]
      obtain cr' b c' where st: "decode_step H f ty cr d c s = (Err e, cr', d\<lparr>dec_buffer := b\<rparr>, c', s)"
        and left: "err_left e b c c' (hopeless (parse_item H cr ?l ?t) (cbuf c) e)" by blast
      have "hopeless (parse_item H cr ?l ?t) (cbuf c) e \<Longrightarrow>
          fst (spec_decode H f cr ?l ?t (cbuf c @ ext) s) = Err e" for ext
        using spec_decode_step(4) [of "cbuf c @ ext" H cr ?l ?t e f s] ne by (simp add: hopeless_def)
      then show ?thesis
        using st left peek x by (auto simp: err_left_def)
    next
      case Panic
      then show ?thesis using calm_item by (auto simp: calm_def)
    qed
  qed
qed simp

section \<open>The decoder\<close>

definition dec_ok :: "decoder \<Rightarrow> bool" where
  "dec_ok d \<longleftrightarrow> dyn_inv (dec_table d) \<and> dec_buffer d = []"

text \<open>The limit that a call of \<open>decode\<close> works with.\<close>

definition dec_limit :: "decoder \<Rightarrow> nat" where
  "dec_limit d = (case dec_max_size_update d of Some n \<Rightarrow> n | None \<Rightarrow> dec_last_max_update d)"

definition dec_bounded :: "nat \<Rightarrow> decoder \<Rightarrow> bool" where
  "dec_bounded B d \<longleftrightarrow> dt_max_size (dec_table d) \<le> B \<and> dec_limit d \<le> B"

lemma take_size_update_simps [simp]:
  "dec_last_max_update (take_size_update d) = dec_limit d"
  "dec_table (take_size_update d) = dec_table d" "dec_buffer (take_size_update d) = dec_buffer d"
  "dec_max_size_update (take_size_update d) = None"
  by (simp_all add: take_size_update_def dec_limit_def split: option.split)

lemma hpack_decode_refines:
  assumes "dec_ok d" "spec_decode H f True (dec_limit d) (dec_table d) bs s = (x, t', r, s')"
  shows "\<exists>b c'. hpack_decode H f d \<lparr>cbuf = bs, cpos = 0\<rparr> s =
      Some (x, (take_size_update d)\<lparr>dec_table := t', dec_buffer := b\<rparr>, c', s') \<and>
    (x = Ok () \<longrightarrow> b = [] \<and> cbuf c' = r \<and> cpos c' = 0) \<and>
    ((\<exists>m. x = Err (NeedMore m)) \<longrightarrow> b = [] \<and> (cbuf c' = r \<or>
       (\<forall>ext. fst (spec_decode H f True (dec_limit d) (dec_table d) (bs @ ext) s) = x)))"
  using decode_loop_refines [of "\<lparr>cbuf = bs, cpos = 0\<rparr>" "take_size_update d" "length bs + 1" H f True s x t' r s'] assms
  by (simp add: hpack_decode_def dec_ok_def fresh)

text \<open>C28: decoding a block of any bytes, with any callback, ends with the result of the specification: the parsed headers
  have gone to the callback in order, the table holds what the eviction rule leaves, and on success the
  buffer is what a callback that broke off has left.\<close>

theorem decode_refines_spec:
  assumes "dec_ok d"
  shows "case spec_decode H f True (dec_limit d) (dec_table d) bs s of (x, t', r, s') \<Rightarrow>
    \<exists>d' c'. hpack_decode H f d \<lparr>cbuf = bs, cpos = 0\<rparr> s = Some (x, d', c', s') \<and> dec_table d' = t' \<and>
      (x = Ok () \<longrightarrow> dec_ok d' \<and> c' = \<lparr>cbuf = r, cpos = 0\<rparr>)"
proof -
  obtain x t' r s' where sp: "spec_decode H f True (dec_limit d) (dec_table d) bs s = (x, t', r, s')"
    by (cases "spec_decode H f True (dec_limit d) (dec_table d) bs s") auto
  obtain b c' where "hpack_decode H f d \<lparr>cbuf = bs, cpos = 0\<rparr> s =
      Some (x, (take_size_update d)\<lparr>dec_table := t', dec_buffer := b\<rparr>, c', s')"
    "x = Ok () \<longrightarrow> b = [] \<and> cbuf c' = r \<and> cpos c' = 0"
    using hpack_decode_refines [OF assms sp] by blast
  then show ?thesis
    using spec_decode_inv [OF _ sp] assms by (auto simp: sp dec_ok_def)
qed

lemma decode_refines_spec_witness:
  "\<exists>d' c'. hpack_decode \<lparr>ht_header_name = (\<lambda>_. True), ht_header_value = (\<lambda>_. True), ht_method = (\<lambda>_. True),
       ht_status = (\<lambda>_. None)\<rparr> (\<lambda>n h. (Suc n, Continue)) (decoder_new 4096) \<lparr>cbuf = [0x82, 0x84], cpos = 0\<rparr> (0 :: nat) =
     Some (Ok (), d', c', 2)"
proof -
  have ok: "dec_ok (decoder_new 4096)" by (simp add: dec_ok_def decoder_new_def dyn_new_def dyn_inv_def)
  have "spec_decode \<lparr>ht_header_name = (\<lambda>_. True), ht_header_value = (\<lambda>_. True), ht_method = (\<lambda>_. True),
       ht_status = (\<lambda>_. None)\<rparr> (\<lambda>n h. (Suc n, Continue)) True (dec_limit (decoder_new 4096))
       (dec_table (decoder_new 4096)) [0x82, 0x84] (0 :: nat) = (Ok (), dyn_new 4096, [], 2)"
    by code_simp
  then show ?thesis
    using decode_refines_spec [OF ok, of "\<lparr>ht_header_name = (\<lambda>_. True), ht_header_value = (\<lambda>_. True),
      ht_method = (\<lambda>_. True), ht_status = (\<lambda>_. None)\<rparr>" "\<lambda>n h. (Suc n, Continue)" "[0x82, 0x84]" "0 :: nat"] by auto
qed

text \<open>C29: a decoder whose limits are at most \<open>B\<close> keeps them, never panics, and its table never holds more than \<open>B\<close> octets nor
  more than \<open>B / 32\<close> headers, whatever the peer sends.\<close>

theorem decode_table_bounded:
  assumes "dec_ok d" "dec_bounded B d"
  shows "\<exists>x d' c' s'. hpack_decode H f d \<lparr>cbuf = bs, cpos = 0\<rparr> s = Some (x, d', c', s') \<and> x \<noteq> Panic \<and>
    dyn_inv (dec_table d') \<and> dec_bounded B d' \<and> dt_size (dec_table d') \<le> B \<and>
    32 * length (dt_entries (dec_table d')) \<le> B"
proof -
  obtain x t' r s' where sp: "spec_decode H f True (dec_limit d) (dec_table d) bs s = (x, t', r, s')"
    by (cases "spec_decode H f True (dec_limit d) (dec_table d) bs s") auto
  obtain b c' where h: "hpack_decode H f d \<lparr>cbuf = bs, cpos = 0\<rparr> s =
      Some (x, (take_size_update d)\<lparr>dec_table := t', dec_buffer := b\<rparr>, c', s')"
    using hpack_decode_refines [OF assms(1) sp] by blast
  have inv: "dyn_inv t'" "dt_max_size t' \<le> B" "x \<noteq> Panic"
    using spec_decode_inv [OF _ sp] assms by (auto simp: dec_ok_def dec_bounded_def)
  have "dt_entries t' = fitting B (dt_entries t')" using inv by (simp add: dyn_inv_def fitting_all)
  then have "32 * length (dt_entries t') \<le> B" using length_fitting [of B "dt_entries t'"] by simp
  moreover have "dt_size t' \<le> B" using inv by (simp add: dyn_inv_def)
  moreover have "dec_limit ((take_size_update d)\<lparr>dec_table := t', dec_buffer := b\<rparr>) = dec_limit d"
    by (simp add: dec_limit_def [of "take_size_update d\<lparr>dec_table := t', dec_buffer := b\<rparr>"])
  ultimately show ?thesis using h inv assms(2) by (simp add: dec_bounded_def)
qed

lemma decode_table_bounded_witness:
  "\<exists>x d' c' s'. hpack_decode \<lparr>ht_header_name = (\<lambda>_. True), ht_header_value = (\<lambda>_. True), ht_method = (\<lambda>_. True),
       ht_status = (\<lambda>_. None)\<rparr> (\<lambda>s h. ((), Continue)) (decoder_new 64) \<lparr>cbuf = [0x40, 1, 97, 1, 98], cpos = 0\<rparr> () =
     Some (x, d', c', s') \<and> length (dt_entries (dec_table d')) \<le> 2"
proof -
  have "dec_ok (decoder_new 64)" "dec_bounded 64 (decoder_new 64)"
    by (simp_all add: dec_ok_def decoder_new_def dyn_new_def dyn_inv_def dec_bounded_def dec_limit_def)
  from decode_table_bounded [OF this, of "\<lparr>ht_header_name = (\<lambda>_. True), ht_header_value = (\<lambda>_. True),
      ht_method = (\<lambda>_. True), ht_status = (\<lambda>_. None)\<rparr>" "\<lambda>s h. ((), Continue)" "[0x40, 1, 97, 1, 98]" "()"]
  show ?thesis by fastforce
qed

section \<open>Fragments\<close>

lemma parse_item_resizing:
  "parse_item H False l t bs = Ok (i, r) \<Longrightarrow> parse_item H cr l t bs = Ok (i, r)"
proof -
  have "parse_rep H False l t rep bs = Ok (i, r) \<Longrightarrow> parse_rep H cr l t rep bs = Ok (i, r)" for rep
    by (cases rep) auto
  then show "parse_item H False l t bs = Ok (i, r) \<Longrightarrow> parse_item H cr l t bs = Ok (i, r)"
    by (cases bs) (auto simp: parse_item_def bind_outcome_Ok_iff)
qed

lemma spec_decode_resizing:
  assumes "spec_decode H f False l t bs s = (Ok (), t', r, s')"
  shows "spec_decode H f cr l t bs s = (Ok (), t', r, s')"
proof (cases "bs = []")
  case True
  then show ?thesis using assms by simp
next
  case ne: False
  have "\<exists>i r. parse_item H False l t bs = Ok (i, r)"
  proof (cases "parse_item H False l t bs")
    case (Err e)
    then show ?thesis using spec_decode_step(4) [OF ne Err, of f s] assms by simp
  next
    case Panic
    then show ?thesis using calm_item by (auto simp: calm_def)
  qed auto
  then obtain i r1 where p: "parse_item H False l t bs = Ok (i, r1)" by blast
  note p' = parse_item_resizing [OF p, of cr]
  have "\<not> (\<exists>n. i = Resize n)"
  proof
    assume "\<exists>n. i = Resize n"
    then obtain n where i: "i = Resize n" ..
    have "parse_rep H False l t rep bs \<noteq> Ok (Resize n, r1)" for rep
      by (cases rep) (auto simp: parse_bind_def parse_pure_def bind_outcome_Ok_iff)
    then show False using p unfolding i by (cases bs) (auto simp: parse_item_def bind_outcome_Ok_iff)
  qed
  then obtain ins h where i: "i = Emit ins h" by (cases i) auto
  obtain s1 c where f: "f s h = (s1, c)" by (cases "f s h")
  show ?thesis
  proof (cases c)
    case Continue
    note f' = f [unfolded Continue]
    show ?thesis
      using spec_decode_step(2) [where f = f, OF ne p [unfolded i] f'] spec_decode_step(2) [where f = f, OF ne p' [unfolded i] f'] assms by simp
  next
    case Break
    note f' = f [unfolded Break]
    show ?thesis
      using spec_decode_step(3) [where f = f, OF ne p [unfolded i] f'] spec_decode_step(3) [where f = f, OF ne p' [unfolded i] f'] assms by simp
  qed
qed

lemma spec_decode_split_all:
  "spec_decode H f cr l t (bs @ ext) s = (Ok (), t2, [], s2) \<Longrightarrow>
    \<exists>x t1 r1 s1. spec_decode H f cr l t bs s = (x, t1, r1, s1) \<and> (x = Ok () \<or> (\<exists>m. x = Err (NeedMore m))) \<and>
      spec_decode H f True l t1 (r1 @ ext) s1 = (Ok (), t2, [], s2)"
proof (induction "length bs" arbitrary: bs cr t s rule: less_induct)
  case less
  show ?case
  proof (cases "bs = []")
    case True
    then show ?thesis using less.prems spec_decode_resizing [of H f l t ext s t2 "[]" s2 True]
      by (cases cr) simp_all
  next
    case ne: False
    then have ne': "bs @ e \<noteq> []" for e by simp
    show ?thesis
    proof (cases rule: incrementalE [OF incremental_item [of H cr l t], of bs])
      case (1 pre i r)
      have p: "parse_item H cr l t bs = Ok (i, r)" using 1(2) [of "[]"] by simp
      have len: "length r < length bs" using consuming_item p unfolding consuming_def by blast
      show ?thesis
      proof (cases i)
        case (Resize n)
        have "spec_decode H f cr l t (bs @ e) s = spec_decode H f cr l (apply_item i t) (r @ e) s" for e
          using spec_decode_step(1) [OF ne'] 1(2) [of e] Resize by simp
        note sp = this
        have "spec_decode H f cr l (apply_item i t) (r @ ext) s = (Ok (), t2, [], s2)"
          using less.prems by (simp only: sp)
        from less.hyps [OF len this] show ?thesis using sp [of "[]"] by simp
      next
        case (Emit ins h)
        obtain s1 c where f: "f s h = (s1, c)" by (cases "f s h")
        show ?thesis
        proof (cases c)
          case Continue
          have "spec_decode H f cr l t (bs @ e) s = spec_decode H f False l (apply_item i t) (r @ e) s1" for e
            using spec_decode_step(2) [where f = f, OF ne'] 1(2) [of e] Emit f Continue by simp
          note sp = this
          have "spec_decode H f False l (apply_item i t) (r @ ext) s1 = (Ok (), t2, [], s2)"
            using less.prems by (simp only: sp)
          from less.hyps [OF len this] show ?thesis using sp [of "[]"] by simp
        next
          case Break
          have sp: "spec_decode H f cr l t (bs @ e) s = (Ok (), apply_item i t, r @ e, s1)" for e
            using spec_decode_step(3) [where f = f, OF ne'] 1(2) [of e] Emit f Break by simp
          have "apply_item i t = t2" "r = []" "ext = []" "s1 = s2" using less.prems by (simp_all add: sp)
          then show ?thesis using sp [of "[]"] by simp
        qed
      qed
    next
      case (2 m)
      have "spec_decode H f True l t (bs @ ext) s = (Ok (), t2, [], s2)"
      proof (cases cr)
        case True
        then show ?thesis using less.prems by simp
      next
        case False
        then show ?thesis using less.prems spec_decode_resizing [of H f l t "bs @ ext" s t2 "[]" s2 True] by simp
      qed
      then show ?thesis using spec_decode_step(4) [OF ne 2, of f s] by simp
    next
      case (3 e)
      then show ?thesis using spec_decode_step(4) [OF ne' 3, where f = f and s = s] less.prems by simp
    qed
  qed
qed

lemma spec_decode_done:
  assumes "\<forall>s h. snd (f s h) = Continue"
  shows "spec_decode H f cr l t bs s = (Ok (), t', r, s') \<Longrightarrow> r = []"
proof (induction "length bs" arbitrary: bs cr t s rule: less_induct)
  case less
  show ?case
  proof (cases "bs = []")
    case True
    then show ?thesis using less.prems by simp
  next
    case ne: False
    show ?thesis
    proof (cases "parse_item H cr l t bs")
      case (Ok y)
      obtain i r1 where y: "y = (i, r1)" by (cases y)
      note p = Ok [unfolded y]
      have len: "length r1 < length bs" using consuming_item p unfolding consuming_def by blast
      show ?thesis
      proof (cases i)
        case (Resize n)
        then show ?thesis using spec_decode_step(1) [where f = f and s = s, OF ne p [unfolded Resize]] less.hyps [OF len] less.prems by simp
      next
        case (Emit ins h)
        obtain s1 where f: "f s h = (s1, Continue)" using assms by (metis prod.collapse)
        show ?thesis
          using spec_decode_step(2) [where f = f, OF ne p [unfolded Emit] f] less.hyps [OF len] less.prems by simp
      qed
    next
      case (Err e)
      then show ?thesis using spec_decode_step(4) [OF ne Err, of f s] less.prems by simp
    next
      case Panic
      then show ?thesis using calm_item by (auto simp: calm_def)
    qed
  qed
qed

lemma spec_decode_split:
  assumes "\<forall>s h. snd (f s h) = Continue" "spec_decode H f cr l t (bs @ ext) s = (Ok (), t2, r2, s2)"
  shows "\<exists>x t1 r1 s1. spec_decode H f cr l t bs s = (x, t1, r1, s1) \<and> (x = Ok () \<or> (\<exists>m. x = Err (NeedMore m))) \<and>
      spec_decode H f True l t1 (r1 @ ext) s1 = (Ok (), t2, r2, s2)"
proof -
  have r2: "r2 = []" by (rule spec_decode_done [OF assms])
  show ?thesis using spec_decode_split_all [OF assms(2) [unfolded r2]] unfolding r2 .
qed



end
