(* ===== verification/Frame_Headers.thy ===== *)
theory Frame_Headers
  imports Frame_Control Hpack_Decode_Ref
begin

text \<open>
  HEADERS, PUSH_PROMISE and CONTINUATION frames (\<open>src/frame/headers.rs\<close>): flags, pseudo headers, loading of the frame, and
  \<open>HeaderBlock::load\<close>, the callback that puts decoded header fields into the frame and enforces the limits on the size
  of the header list.

  A \<open>HeaderMap\<close> of the \<open>http\<close> crate is seen through the sequence that its iterator gives; \<open>try_append\<close>, which may refuse a field
  when the map is full, is the argument \<open>hl_append\<close> of the functions that use it (the map afterwards, and whether it was accepted).
  Sizes are natural numbers: they add up lengths of bytes in memory and stay below \<open>usize::MAX\<close>.
\<close>

section \<open>Data\<close>

type_synonym header_map = "(bytes \<times> header_value) list"

record header_lib =
  hl_parsers :: http_parsers
  hl_append :: "header_map \<Rightarrow> bytes \<Rightarrow> header_value \<Rightarrow> header_map \<times> bool"

record pseudo =
  ps_method :: "bytes option"
  ps_scheme :: "bytes option"
  ps_authority :: "bytes option"
  ps_path :: "bytes option"
  ps_protocol :: "bytes option"
  ps_status :: "nat option"

definition pseudo_default :: pseudo where
  "pseudo_default = \<lparr>ps_method = None, ps_scheme = None, ps_authority = None, ps_path = None, ps_protocol = None,
     ps_status = None\<rparr>"

record header_block =
  hb_fields :: header_map
  hb_field_size :: nat
  hb_is_over_size :: bool
  hb_pseudo :: pseudo

record headers_frame =
  hf_stream_id :: stream_id
  hf_stream_dep :: "stream_dependency option"
  hf_block :: header_block
  hf_flags :: u8

record push_promise =
  pp_stream_id :: stream_id
  pp_promised_id :: stream_id
  pp_block :: header_block
  pp_flags :: u8

definition MAX_HEADER_LIST_ABUSE_MULTIPLIER :: nat where "MAX_HEADER_LIST_ABUSE_MULTIPLIER = 4"

section \<open>Flags\<close>

definition HF_END_STREAM :: u8 where "HF_END_STREAM = 0x1"
definition HF_END_HEADERS :: u8 where "HF_END_HEADERS = 0x4"
definition HF_PADDED :: u8 where "HF_PADDED = 0x8"
definition HF_PRIORITY :: u8 where "HF_PRIORITY = 0x20"
definition HF_ALL :: u8 where "HF_ALL = HF_END_STREAM OR HF_END_HEADERS OR HF_PADDED OR HF_PRIORITY"

text \<open>The flags are kept as they arrive: \<open>Headers::load\<close> wraps the byte without masking it.\<close>

definition hf_is_end_stream :: "u8 \<Rightarrow> bool" where
  "hf_is_end_stream fl \<longleftrightarrow> fl AND HF_END_STREAM = HF_END_STREAM"

definition hf_set_end_stream :: "u8 \<Rightarrow> u8" where
  "hf_set_end_stream fl = fl OR HF_END_STREAM"

definition hf_is_end_headers :: "u8 \<Rightarrow> bool" where
  "hf_is_end_headers fl \<longleftrightarrow> fl AND HF_END_HEADERS = HF_END_HEADERS"

definition hf_set_end_headers :: "u8 \<Rightarrow> u8" where
  "hf_set_end_headers fl = fl OR HF_END_HEADERS"

definition hf_is_padded :: "u8 \<Rightarrow> bool" where
  "hf_is_padded fl \<longleftrightarrow> fl AND HF_PADDED = HF_PADDED"

definition hf_is_priority :: "u8 \<Rightarrow> bool" where
  "hf_is_priority fl \<longleftrightarrow> fl AND HF_PRIORITY = HF_PRIORITY"

definition headers_flag_load :: "u8 \<Rightarrow> u8" where
  "headers_flag_load bits = bits AND HF_ALL"

definition headers_flag_default :: u8 where "headers_flag_default = HF_END_HEADERS"

definition pp_is_end_headers :: "u8 \<Rightarrow> bool" where
  "pp_is_end_headers fl \<longleftrightarrow> fl AND HF_END_HEADERS = HF_END_HEADERS"

definition pp_set_end_headers :: "u8 \<Rightarrow> u8" where
  "pp_set_end_headers fl = fl OR HF_END_HEADERS"

definition pp_is_padded :: "u8 \<Rightarrow> bool" where
  "pp_is_padded fl \<longleftrightarrow> fl AND HF_PADDED = HF_PADDED"

definition push_promise_flag_load :: "u8 \<Rightarrow> u8" where
  "push_promise_flag_load bits = bits AND HF_ALL"

definition push_promise_flag_default :: u8 where "push_promise_flag_default = HF_END_HEADERS"

section \<open>Sizes\<close>

definition decoded_header_size :: "nat \<Rightarrow> nat \<Rightarrow> nat" where
  "decoded_header_size name value = name + value + 32"

definition calculate_headermap_size :: "header_map \<Rightarrow> nat" where
  "calculate_headermap_size m = sum_list (map (\<lambda>(n, v). decoded_header_size (length n) (length (hv_bytes v))) m)"

text \<open>\<open>pseudo_size!\<close> with the length of the name of the field.\<close>

definition pseudo_size :: "string \<Rightarrow> nat option \<Rightarrow> nat" where
  "pseudo_size field len = (case len of Some n \<Rightarrow> decoded_header_size (length field + 1) n | None \<Rightarrow> 0)"

text \<open>\<open>:protocol\<close> is not counted. A status has three digits.\<close>

definition calculate_header_list_size :: "header_block \<Rightarrow> nat" where
  "calculate_header_list_size b =
    (let p = hb_pseudo b in
     pseudo_size ''method'' (map_option length (ps_method p))
     + pseudo_size ''scheme'' (map_option length (ps_scheme p))
     + pseudo_size ''status'' (map_option (length \<circ> status_str) (ps_status p))
     + pseudo_size ''authority'' (map_option length (ps_authority p))
     + pseudo_size ''path'' (map_option length (ps_path p))
     + hb_field_size b)"

definition header_block_new :: "pseudo \<Rightarrow> header_map \<Rightarrow> header_block" where
  "header_block_new p fs =
     \<lparr>hb_fields = fs, hb_field_size = calculate_headermap_size fs, hb_is_over_size = False, hb_pseudo = p\<rparr>"

definition header_block_empty :: header_block where
  "header_block_empty = \<lparr>hb_fields = [], hb_field_size = 0, hb_is_over_size = False, hb_pseudo = pseudo_default\<rparr>"

section \<open>Frames\<close>

definition headers_new :: "stream_id \<Rightarrow> pseudo \<Rightarrow> header_map \<Rightarrow> headers_frame" where
  "headers_new i p fs =
     \<lparr>hf_stream_id = i, hf_stream_dep = None, hf_block = header_block_new p fs, hf_flags = headers_flag_default\<rparr>"

definition headers_trailers :: "stream_id \<Rightarrow> header_map \<Rightarrow> headers_frame" where
  "headers_trailers i fs =
     \<lparr>hf_stream_id = i, hf_stream_dep = None, hf_block = header_block_new pseudo_default fs,
      hf_flags = hf_set_end_stream headers_flag_default\<rparr>"

text \<open>The end of both \<open>load\<close> functions: \<open>truncate\<close> drops the padding.\<close>

definition drop_padding :: "nat \<Rightarrow> bytes \<Rightarrow> (bytes, frame_error) outcome" where
  "drop_padding pad src =
    (if pad > 0
     then (if pad > length src then Err TooMuchPadding else Ok (take (length src - pad) src))
     else Ok src)"

definition headers_load :: "head \<Rightarrow> bytes \<Rightarrow> (headers_frame \<times> bytes, frame_error) outcome" where
  "headers_load head src =
    (let flags = hd_flag head in
     if sid_is_zero (hd_stream_id head) then Err InvalidStreamId
     else if hf_is_padded flags \<and> src = [] then Err MalformedMessage
     else
       let (pad, src) = (if hf_is_padded flags then (unat (src ! 0), drop 1 src) else (0, src)) in
       bind_outcome
         (if hf_is_priority flags
          then (if length src < 5 then Err MalformedMessage
            else bind_outcome (stream_dependency_load (take 5 src)) (\<lambda>dep.
              if dep_id dep = hd_stream_id head then Err InvalidDependencyId
              else Ok (Some dep, drop 5 src)))
          else Ok (None, src))
         (\<lambda>(stream_dep, src).
           bind_outcome (drop_padding pad src) (\<lambda>src.
             Ok (\<lparr>hf_stream_id = hd_stream_id head, hf_stream_dep = stream_dep, hf_block = header_block_empty,
                  hf_flags = flags\<rparr>, src))))"

definition headers_into_parts :: "headers_frame \<Rightarrow> pseudo \<times> header_map" where
  "headers_into_parts f = (hb_pseudo (hf_block f), hb_fields (hf_block f))"

text \<open>\<open>StatusCode::is_informational\<close> is \<open>100 <= status < 200\<close>.\<close>

definition pseudo_is_informational :: "pseudo \<Rightarrow> bool" where
  "pseudo_is_informational p = (case ps_status p of Some s \<Rightarrow> 100 \<le> s \<and> s < 200 | None \<Rightarrow> False)"

definition headers_is_informational :: "headers_frame \<Rightarrow> bool" where
  "headers_is_informational f = pseudo_is_informational (hb_pseudo (hf_block f))"

definition headers_head :: "headers_frame \<Rightarrow> head" where
  "headers_head f = head_new KindHeaders (hf_flags f) (hf_stream_id f)"

definition push_promise_new :: "stream_id \<Rightarrow> stream_id \<Rightarrow> pseudo \<Rightarrow> header_map \<Rightarrow> push_promise" where
  "push_promise_new i promised p fs =
     \<lparr>pp_stream_id = i, pp_promised_id = promised, pp_block = header_block_new p fs,
      pp_flags = push_promise_flag_default\<rparr>"

definition push_promise_load :: "head \<Rightarrow> bytes \<Rightarrow> (push_promise \<times> bytes, frame_error) outcome" where
  "push_promise_load head src =
    (let flags = hd_flag head in
     if sid_is_zero (hd_stream_id head) then Err InvalidStreamId
     else if pp_is_padded flags \<and> src = [] then Err MalformedMessage
     else
       let (pad, src) = (if pp_is_padded flags then (unat (src ! 0), drop 1 src) else (0, src)) in
       if length src < 5 then Err MalformedMessage
       else bind_outcome (or_panic (stream_id_parse (take 4 src))) (\<lambda>(promised_id, _).
         bind_outcome (drop_padding pad (drop 4 src)) (\<lambda>src.
           Ok (\<lparr>pp_stream_id = hd_stream_id head, pp_promised_id = promised_id, pp_block = header_block_empty,
                pp_flags = flags\<rparr>, src))))"

definition push_promise_head :: "push_promise \<Rightarrow> head" where
  "push_promise_head f = head_new KindPushPromise (pp_flags f) (pp_stream_id f)"

definition push_promise_into_parts :: "push_promise \<Rightarrow> pseudo \<times> header_map" where
  "push_promise_into_parts f = (hb_pseudo (pp_block f), hb_fields (pp_block f))"

section \<open>Pseudo headers\<close>

text \<open>The parts of a \<open>Uri\<close>, as \<open>uri::Parts\<close> gives them.\<close>

record uri_parts =
  uri_scheme :: "bytes option"
  uri_authority :: "bytes option"
  uri_path_and_query :: "bytes option"

definition pseudo_set_scheme :: "bytes \<Rightarrow> pseudo \<Rightarrow> pseudo" where
  "pseudo_set_scheme s p = p\<lparr>ps_scheme := Some s\<rparr>"

definition pseudo_set_authority :: "bytes \<Rightarrow> pseudo \<Rightarrow> pseudo" where
  "pseudo_set_authority a p = p\<lparr>ps_authority := Some a\<rparr>"

definition pseudo_request :: "bytes \<Rightarrow> uri_parts \<Rightarrow> bytes option \<Rightarrow> pseudo" where
  "pseudo_request method parts protocol =
    (let (scheme, path) =
       (if method = ascii ''CONNECT'' \<and> protocol = None then (None, None)
        else let path = (case uri_path_and_query parts of Some v \<Rightarrow> v | None \<Rightarrow> []);
                 path = (if path \<noteq> [] then path
                         else if method = ascii ''OPTIONS'' then ascii ''*''
                         else ascii ''/'')
             in (uri_scheme parts, Some path));
       p = \<lparr>ps_method = Some method, ps_scheme = None, ps_authority = None, ps_path = path, ps_protocol = protocol,
            ps_status = None\<rparr>;
       p = (case scheme of Some s \<Rightarrow> pseudo_set_scheme s p | None \<Rightarrow> p)
     in case uri_authority parts of Some a \<Rightarrow> pseudo_set_authority a p | None \<Rightarrow> p)"

definition pseudo_response :: "nat \<Rightarrow> pseudo" where
  "pseudo_response status = pseudo_default\<lparr>ps_status := Some status\<rparr>"

section \<open>Numbers and promised requests\<close>

text \<open>The loop of \<open>parse_u64\<close>; the multiplication and the addition are checked (\<open>u64\<close>).\<close>

datatype parse_u64_error = ParseU64Error

fun parse_u64_loop :: "nat \<Rightarrow> bytes \<Rightarrow> (nat, parse_u64_error) outcome" where
  "parse_u64_loop ret [] = Ok ret"
| "parse_u64_loop ret (d # ds) =
    (if d < 0x30 \<or> d > 0x39 then Err ParseU64Error
     else if ret * 10 + unat (d - 0x30) \<ge> 2 ^ 64 then Panic
     else parse_u64_loop (ret * 10 + unat (d - 0x30)) ds)"

definition parse_u64 :: "bytes \<Rightarrow> (nat, parse_u64_error) outcome" where
  "parse_u64 src = (if length src > 19 then Err ParseU64Error else parse_u64_loop 0 src)"

datatype push_promise_header_error =
    InvalidContentLength "(nat, parse_u64_error) outcome"
  | NotSafeAndCacheable

definition safe_and_cacheable :: "bytes \<Rightarrow> bool" where
  "safe_and_cacheable method \<longleftrightarrow> method = ascii ''GET'' \<or> method = ascii ''HEAD''"

text \<open>\<open>get_all\<close>: the values of a name.\<close>

definition header_get_all :: "bytes \<Rightarrow> header_map \<Rightarrow> header_value list" where
  "header_get_all name m = map snd (filter (\<lambda>(n, v). n = name) m)"

fun check_content_lengths :: "header_value list \<Rightarrow> (unit, push_promise_header_error) outcome" where
  "check_content_lengths [] = Ok ()"
| "check_content_lengths (v # vs) =
    (case parse_u64 (hv_bytes v) of
       Panic \<Rightarrow> Panic
     | r \<Rightarrow> if r \<noteq> Ok 0 then Err (InvalidContentLength r) else check_content_lengths vs)"

definition validate_request :: "bytes \<Rightarrow> header_map \<Rightarrow> (unit, push_promise_header_error) outcome" where
  "validate_request method m =
    bind_outcome (check_content_lengths (header_get_all (ascii ''content-length'') m)) (\<lambda>_.
      if safe_and_cacheable method then Ok () else Err NotSafeAndCacheable)"

section \<open>Loading a header block\<close>

record block_load =
  bl_block :: header_block
  bl_reg :: bool
  bl_malformed :: bool
  bl_too_large :: bool
  bl_size :: nat

definition saturating_mul :: "nat \<Rightarrow> nat \<Rightarrow> nat" where
  "saturating_mul a b = min (a * b) USIZE_MAX"

lemma saturating_mul_code [code]: "saturating_mul a b = nat (min (int a * int b) (2 ^ 64 - 1))"
proof -
  have "int (saturating_mul a b) = min (int a * int b) (2 ^ 64 - 1)"
    by (simp add: saturating_mul_def USIZE_MAX_def min_def flip: of_nat_mult)
  then show ?thesis by (metis nat_int)
qed

definition check_size :: "nat \<Rightarrow> block_load \<Rightarrow> block_load \<times> flow" where
  "check_size lim st =
    (if bl_size st > saturating_mul lim MAX_HEADER_LIST_ABUSE_MULTIPLIER
     then (st\<lparr>bl_too_large := True\<rparr>, Break)
     else (if bl_size st \<ge> lim \<and> \<not> hb_is_over_size (bl_block st)
           then st\<lparr>bl_block := (bl_block st)\<lparr>hb_is_over_size := True\<rparr>\<rparr> else st,
           Continue))"

text \<open>\<open>set_pseudo!\<close>: the name of the field, whether it is set, the length of the value, and the assignment.\<close>

definition set_pseudo ::
  "nat \<Rightarrow> string \<Rightarrow> (pseudo \<Rightarrow> bool) \<Rightarrow> nat \<Rightarrow> (pseudo \<Rightarrow> pseudo) \<Rightarrow> block_load \<Rightarrow> block_load \<times> flow" where
  "set_pseudo lim field is_set val_len assign st =
    (if bl_reg st then (st\<lparr>bl_malformed := True\<rparr>, Continue)
     else if is_set (hb_pseudo (bl_block st)) then (st\<lparr>bl_malformed := True\<rparr>, Continue)
     else
       case check_size lim (st\<lparr>bl_size := bl_size st + decoded_header_size (length field + 1) val_len\<rparr>) of
         (st, Break) \<Rightarrow> (st, Break)
       | (st, Continue) \<Rightarrow>
           (if \<not> hb_is_over_size (bl_block st)
            then st\<lparr>bl_block := (bl_block st)\<lparr>hb_pseudo := assign (hb_pseudo (bl_block st))\<rparr>\<rparr> else st,
            Continue))"

definition connection_headers :: "bytes list" where
  "connection_headers = map ascii [''connection'', ''transfer-encoding'', ''upgrade'', ''keep-alive'', ''proxy-connection'']"

definition load_field :: "header_lib \<Rightarrow> nat \<Rightarrow> bytes \<Rightarrow> header_value \<Rightarrow> block_load \<Rightarrow> block_load \<times> flow" where
  "load_field L lim name value st =
    (if name \<in> set connection_headers then (st\<lparr>bl_malformed := True\<rparr>, Continue)
     else if name = ascii ''te'' \<and> hv_bytes value \<noteq> ascii ''trailers'' then (st\<lparr>bl_malformed := True\<rparr>, Continue)
     else
       let header_size = decoded_header_size (length name) (length (hv_bytes value)) in
       case check_size lim (st\<lparr>bl_reg := True, bl_size := bl_size st + header_size\<rparr>) of
         (st, Break) \<Rightarrow> (st, Break)
       | (st, Continue) \<Rightarrow>
           (if \<not> hb_is_over_size (bl_block st)
            then (let b = bl_block st; (fs, ok) = hl_append L (hb_fields b) name value in
              st\<lparr>bl_block := b\<lparr>hb_fields := fs, hb_field_size := hb_field_size b + header_size,
                                hb_is_over_size := (\<not> ok)\<rparr>\<rparr>)
            else st,
            Continue))"

text \<open>The callback that \<open>load\<close> gives to the decoder.\<close>

definition load_header :: "header_lib \<Rightarrow> nat \<Rightarrow> block_load \<Rightarrow> bytes header \<Rightarrow> block_load \<times> flow" where
  "load_header L lim st h =
    (case h of
       Field n v \<Rightarrow> load_field L lim n v st
     | Authority v \<Rightarrow> set_pseudo lim ''authority'' (\<lambda>p. ps_authority p \<noteq> None) (length v) (\<lambda>p. p\<lparr>ps_authority := Some v\<rparr>) st
     | Method v \<Rightarrow> set_pseudo lim ''method'' (\<lambda>p. ps_method p \<noteq> None) (length v) (\<lambda>p. p\<lparr>ps_method := Some v\<rparr>) st
     | Scheme v \<Rightarrow> set_pseudo lim ''scheme'' (\<lambda>p. ps_scheme p \<noteq> None) (length v) (\<lambda>p. p\<lparr>ps_scheme := Some v\<rparr>) st
     | Path v \<Rightarrow> set_pseudo lim ''path'' (\<lambda>p. ps_path p \<noteq> None) (length v) (\<lambda>p. p\<lparr>ps_path := Some v\<rparr>) st
     | Protocol v \<Rightarrow> set_pseudo lim ''protocol'' (\<lambda>p. ps_protocol p \<noteq> None) (length v) (\<lambda>p. p\<lparr>ps_protocol := Some v\<rparr>) st
     | Status n \<Rightarrow> set_pseudo lim ''status'' (\<lambda>p. ps_status p \<noteq> None) (length (status_str n)) (\<lambda>p. p\<lparr>ps_status := Some n\<rparr>) st)"

definition block_load_init :: "header_block \<Rightarrow> block_load" where
  "block_load_init b =
    \<lparr>bl_block = b, bl_reg = (hb_fields b \<noteq> []), bl_malformed = False, bl_too_large = False,
     bl_size = calculate_header_list_size b\<rparr>"

text \<open>\<open>HeaderBlock::load\<close>: the result, the block, the decoder, and what is left of the source. The cursor starts at 0.\<close>

definition header_block_load ::
  "header_lib \<Rightarrow> bytes \<Rightarrow> nat \<Rightarrow> decoder \<Rightarrow> header_block \<Rightarrow>
     (unit, frame_error) outcome \<times> header_block \<times> decoder \<times> bytes" where
  "header_block_load L src lim d b =
    (case hpack_decode (hl_parsers L) (load_header L lim) d \<lparr>cbuf = src, cpos = 0\<rparr> (block_load_init b) of
       None \<Rightarrow> (Panic, b, d, src)
     | Some (res, d, c, st) \<Rightarrow>
         (case res of
            Panic \<Rightarrow> Panic
          | Err e \<Rightarrow> Err (Hpack e)
          | Ok _ \<Rightarrow>
              if bl_too_large st then Err HeaderListWayTooLarge
              else if bl_malformed st then Err MalformedMessage
              else Ok (),
          bl_block st, d, cbuf c))"

definition headers_load_hpack ::
  "header_lib \<Rightarrow> bytes \<Rightarrow> nat \<Rightarrow> decoder \<Rightarrow> headers_frame \<Rightarrow>
     (unit, frame_error) outcome \<times> headers_frame \<times> decoder \<times> bytes" where
  "headers_load_hpack L src lim d f =
    (case header_block_load L src lim d (hf_block f) of (r, b, d, src) \<Rightarrow> (r, f\<lparr>hf_block := b\<rparr>, d, src))"

definition push_promise_load_hpack ::
  "header_lib \<Rightarrow> bytes \<Rightarrow> nat \<Rightarrow> decoder \<Rightarrow> push_promise \<Rightarrow>
     (unit, frame_error) outcome \<times> push_promise \<times> decoder \<times> bytes" where
  "push_promise_load_hpack L src lim d f =
    (case header_block_load L src lim d (pp_block f) of (r, b, d, src) \<Rightarrow> (r, f\<lparr>pp_block := b\<rparr>, d, src))"

end
