(* ===== verification/Header_Block.thy ===== *)
theory Header_Block
  imports Frame_Headers "HOL-Library.Multiset"
begin

text \<open>
  What \<open>HeaderBlock::load\<close> promises: the header list that a frame keeps is bounded by the local limit, whatever the
  peer sends; a malformed block leaves the HPACK decoder in step with the peer; a header block that is cut into a HEADERS
  frame and CONTINUATION frames gives the frame that it gives in one piece.
\<close>

section \<open>Callbacks\<close>

lemma spec_decode_callback_inv:
  assumes "\<And>s h. P s \<Longrightarrow> P (fst (f s h))"
  shows "P s \<Longrightarrow> spec_decode H f cr l t bs s = (x, t', r, s') \<Longrightarrow> P s'"
proof (induction "length bs" arbitrary: bs cr t s rule: less_induct)
  case less
  show ?case
  proof (cases "bs = []")
    case True
    then show ?thesis using less.prems by simp
  next
    case ne: False
    show ?thesis
    proof (cases "parse_item H cr l t bs")
      case (Ok y)
      obtain i r1 where y: "y = (i, r1)" by (cases y)
      note p = Ok [unfolded y]
      have len: "length r1 < length bs" using consuming_item p unfolding consuming_def by blast
      show ?thesis
      proof (cases i)
        case (Resize n)
        note sp = spec_decode_step(1) [where f = f and s = s, OF ne p [unfolded Resize]]
        show ?thesis using less.hyps [OF len less.prems(1)] less.prems(2) sp by simp
      next
        case (Emit ins h)
        obtain s1 fl where f: "f s h = (s1, fl)" by (cases "f s h")
        have s1: "P s1" using assms [OF less.prems(1), of h] f by simp
        show ?thesis
        proof (cases fl)
          case Continue
          note sp = spec_decode_step(2) [where f = f, OF ne p [unfolded Emit] f [unfolded Continue]]
          show ?thesis using less.hyps [OF len s1] less.prems(2) sp by simp
        next
          case Break
          then show ?thesis
            using spec_decode_step(3) [where f = f, OF ne p [unfolded Emit] f [unfolded Break]] less.prems(2) s1 by simp
        qed
      qed
    next
      case (Err e)
      then show ?thesis using spec_decode_step(4) [OF ne Err, of f s] less.prems by simp
    next
      case Panic
      then show ?thesis using calm_item by (auto simp: calm_def)
    qed
  qed
qed

text \<open>Two callbacks in step as long as nothing bad has happened to the first.\<close>

lemma spec_decode_sim:
  assumes step: "\<And>s u h. R s u \<Longrightarrow> \<not> bad (fst (f s h)) \<Longrightarrow>
      R (fst (f s h)) (fst (g u h)) \<and> snd (f s h) = Continue \<and> snd (g u h) = Continue"
    and mono: "\<And>s h. bad s \<Longrightarrow> bad (fst (f s h))"
  shows "spec_decode H f cr l t bs s = (x, t', r, s') \<Longrightarrow> \<not> bad s' \<Longrightarrow> R s u \<Longrightarrow>
    \<exists>u'. spec_decode H g cr l t bs u = (x, t', r, u') \<and> R s' u'"
proof (induction "length bs" arbitrary: bs cr t s u rule: less_induct)
  case less
  show ?case
  proof (cases "bs = []")
    case True
    then show ?thesis using less.prems by simp
  next
    case ne: False
    show ?thesis
    proof (cases "parse_item H cr l t bs")
      case (Ok y)
      obtain i r1 where y: "y = (i, r1)" by (cases y)
      note p = Ok [unfolded y]
      have len: "length r1 < length bs" using consuming_item p unfolding consuming_def by blast
      show ?thesis
      proof (cases i)
        case (Resize n)
        note sp = spec_decode_step(1) [where s = s, OF ne p [unfolded Resize]]
          spec_decode_step(1) [where s = u, OF ne p [unfolded Resize]]
        have "spec_decode H f cr l (apply_item i t) r1 s = (x, t', r, s')"
          using less.prems(1) sp(1) Resize by simp
        from less.hyps [OF len this less.prems(2,3)] show ?thesis using sp(2) Resize by simp
      next
        case (Emit ins h)
        obtain s1 fl where f: "f s h = (s1, fl)" by (cases "f s h")
        obtain u1 fl' where g: "g u h = (u1, fl')" by (cases "g u h")
        have ok: "\<not> bad s1"
        proof
          assume b: "bad s1"
          show False
          proof (cases fl)
            case Continue
            have "spec_decode H f False l (apply_item (Emit ins h) t) r1 s1 = (x, t', r, s')"
              using spec_decode_step(2) [where f = f, OF ne p [unfolded Emit] f [unfolded Continue]] less.prems(1) by simp
            from spec_decode_callback_inv [where P = bad, OF mono b this] less.prems(2) show False by simp
          next
            case Break
            then show False
              using spec_decode_step(3) [where f = f, OF ne p [unfolded Emit] f [unfolded Break]] less.prems(1,2) b by simp
          qed
        qed
        have R: "R s1 u1" "fl = Continue" "fl' = Continue" using step [OF less.prems(3), of h] ok f g by auto
        note sp = spec_decode_step(2) [where f = f, OF ne p [unfolded Emit] f [unfolded R(2)]]
          spec_decode_step(2) [where f = g, OF ne p [unfolded Emit] g [unfolded R(3)]]
        have "spec_decode H f False l (apply_item i t) r1 s1 = (x, t', r, s')" using less.prems(1) sp(1) Emit by simp
        from less.hyps [OF len this less.prems(2) R(1)] show ?thesis using sp(2) Emit by simp
      qed
    next
      case (Err e)
      then show ?thesis
        using spec_decode_step(4) [OF ne Err, of f s] spec_decode_step(4) [OF ne Err, of g u] less.prems by simp
    next
      case Panic
      then show ?thesis using calm_item by (auto simp: calm_def)
    qed
  qed
qed

section \<open>The callback of \<open>load\<close>\<close>

definition header_lib_law :: "header_lib \<Rightarrow> bool" where
  "header_lib_law L \<longleftrightarrow> (\<forall>m n v. case hl_append L m n v of (m', ok) \<Rightarrow>
     if ok then mset m' = add_mset (n, v) (mset m) else mset m' \<subseteq># add_mset (n, v) (mset m))"

lemma map_size_mset: "calculate_headermap_size m =
    (\<Sum>x \<in># mset m. case x of (n, v) \<Rightarrow> decoded_header_size (length n) (length (hv_bytes v)))"
  by (simp add: calculate_headermap_size_def sum_mset_sum_list [symmetric] split_def)

lemma append_law:
  assumes "header_lib_law L" "hl_append L m n v = (m', ok)"
  shows "calculate_headermap_size m' \<le>
      calculate_headermap_size m + decoded_header_size (length n) (length (hv_bytes v))" "ok \<Longrightarrow> m' \<noteq> []"
proof -
  let ?g = "\<lambda>x. case x of (n, v) \<Rightarrow> decoded_header_size (length n) (length (hv_bytes v))"
  have l: "if ok then mset m' = add_mset (n, v) (mset m) else mset m' \<subseteq># add_mset (n, v) (mset m)"
    using assms(1) [unfolded header_lib_law_def, THEN spec [of _ m], THEN spec [of _ n], THEN spec [of _ v]]
    by (simp only: assms(2) prod.case)
  then have "mset m' \<subseteq># add_mset (n, v) (mset m)" by (auto split: if_splits)
  then obtain d where "add_mset (n, v) (mset m) = mset m' + d" by (metis subset_mset.less_eqE)
  then have "(\<Sum>x \<in># add_mset (n, v) (mset m). ?g x) = (\<Sum>x \<in># mset m'. ?g x) + (\<Sum>x \<in># d. ?g x)"
    by (simp only: image_mset_union sum_mset.union)
  then show "calculate_headermap_size m' \<le>
      calculate_headermap_size m + decoded_header_size (length n) (length (hv_bytes v))"
    by (simp add: map_size_mset)
  show "m' \<noteq> []" if ok using l that by auto
qed

text \<open>A header is one of two kinds of steps.\<close>

definition protocol_size :: "header_block \<Rightarrow> nat" where
  "protocol_size b = pseudo_size ''protocol'' (map_option length (ps_protocol (hb_pseudo b)))"

definition stored_size :: "header_block \<Rightarrow> nat" where
  "stored_size b = calculate_header_list_size b - hb_field_size b + calculate_headermap_size (hb_fields b) + protocol_size b"

definition block_bounded :: "nat \<Rightarrow> header_block \<Rightarrow> bool" where
  "block_bounded lim b \<longleftrightarrow> calculate_header_list_size b \<le> lim \<and> protocol_size b \<le> lim \<and>
     calculate_headermap_size (hb_fields b) \<le> hb_field_size b"

definition load_inv :: "nat \<Rightarrow> block_load \<Rightarrow> bool" where
  "load_inv lim st \<longleftrightarrow> block_bounded lim (bl_block st) \<and> calculate_header_list_size (bl_block st) \<le> bl_size st"

lemma check_size_cases:
  "check_size lim st = (st', fl) \<Longrightarrow>
     (fl = Break \<and> st' = st\<lparr>bl_too_large := True\<rparr>) \<or>
     (fl = Continue \<and> (st' = st \<and> (hb_is_over_size (bl_block st) \<or> bl_size st < lim) \<or>
        st' = st\<lparr>bl_block := (bl_block st)\<lparr>hb_is_over_size := True\<rparr>\<rparr>))"
  by (auto simp: check_size_def split: if_splits)

lemma over_size_sel [simp]:
  "calculate_header_list_size (b\<lparr>hb_is_over_size := v\<rparr>) = calculate_header_list_size b"
  "protocol_size (b\<lparr>hb_is_over_size := v\<rparr>) = protocol_size b"
  by (simp_all add: calculate_header_list_size_def protocol_size_def)

lemma set_pseudo_inv:
  assumes "load_inv lim st"
    and "\<And>b. \<not> is_set (hb_pseudo b) \<Longrightarrow> calculate_header_list_size (b\<lparr>hb_pseudo := assign (hb_pseudo b)\<rparr>) \<le>
      calculate_header_list_size b + decoded_header_size (length field + 1) n"
    and "\<And>b. \<not> is_set (hb_pseudo b) \<Longrightarrow> protocol_size (b\<lparr>hb_pseudo := assign (hb_pseudo b)\<rparr>) \<le>
      max (protocol_size b) (decoded_header_size (length field + 1) n)"
  shows "load_inv lim (fst (set_pseudo lim field is_set n assign st))"
proof (cases "bl_reg st \<or> is_set (hb_pseudo (bl_block st))")
  case True
  then show ?thesis using assms(1) by (auto simp: set_pseudo_def load_inv_def)
next
  case False
  define st0 where "st0 = st\<lparr>bl_size := bl_size st + decoded_header_size (length field + 1) n\<rparr>"
  have st0: "bl_block st0 = bl_block st" "bl_size st0 = bl_size st + decoded_header_size (length field + 1) n"
    by (simp_all add: st0_def)
  obtain st1 fl where c: "check_size lim st0 = (st1, fl)" by (cases "check_size lim st0")
  have F: "\<not> bl_reg st" "\<not> is_set (hb_pseudo (bl_block st))" using False by simp_all
  have eq: "set_pseudo lim field is_set n assign st = (case fl of Break \<Rightarrow> (st1, Break) | Continue \<Rightarrow>
      (if \<not> hb_is_over_size (bl_block st1)
       then st1\<lparr>bl_block := (bl_block st1)\<lparr>hb_pseudo := assign (hb_pseudo (bl_block st1))\<rparr>\<rparr> else st1, Continue))"
    by (simp only: set_pseudo_def F if_False c [unfolded st0_def] prod.case)
  show ?thesis
    using check_size_cases [OF c]
  proof (elim disjE conjE)
    assume "fl = Break" "st1 = st0\<lparr>bl_too_large := True\<rparr>"
    then show ?thesis using eq assms(1) st0 by (simp add: load_inv_def)
  next
    assume "fl = Continue" "st1 = st0\<lparr>bl_block := (bl_block st0)\<lparr>hb_is_over_size := True\<rparr>\<rparr>"
    then show ?thesis using eq assms(1) st0 by (simp add: load_inv_def block_bounded_def)
  next
    assume "fl = Continue" "st1 = st0" "hb_is_over_size (bl_block st0)"
    then show ?thesis using eq assms(1) st0 by (simp add: load_inv_def)
  next
    assume "fl = Continue" "st1 = st0" "bl_size st0 < lim"
    then show ?thesis using eq assms(1) st0 assms(2,3) [OF F(2)]
      by (auto simp: load_inv_def block_bounded_def)
  qed
qed

lemma load_field_inv:
  assumes "header_lib_law L" "load_inv lim st"
  shows "load_inv lim (fst (load_field L lim n v st))"
proof -
  let ?z = "decoded_header_size (length n) (length (hv_bytes v))"
  define st0 where "st0 = st\<lparr>bl_reg := True, bl_size := bl_size st + ?z\<rparr>"
  have st0: "bl_block st0 = bl_block st" "bl_size st0 = bl_size st + ?z" by (simp_all add: st0_def)
  obtain st1 fl where c: "check_size lim st0 = (st1, fl)" by (cases "check_size lim st0")
  obtain m' ok where m: "hl_append L (hb_fields (bl_block st)) n v = (m', ok)" by fastforce
  have s: "calculate_header_list_size ((bl_block st)\<lparr>hb_fields := m', hb_field_size := hb_field_size (bl_block st) + ?z,
      hb_is_over_size := w\<rparr>) = calculate_header_list_size (bl_block st) + ?z" for w
    by (simp add: calculate_header_list_size_def Let_def)
  have p: "protocol_size ((bl_block st)\<lparr>hb_fields := m', hb_field_size := k, hb_is_over_size := w\<rparr>) =
      protocol_size (bl_block st)" for w k
    by (simp add: protocol_size_def)
  show ?thesis
  proof (cases "n \<in> set connection_headers \<or> n = ascii ''te'' \<and> hv_bytes v \<noteq> ascii ''trailers''")
    case True
    then show ?thesis using assms(2) by (auto simp: load_field_def load_inv_def)
  next
    case False
    then have F: "n \<notin> set connection_headers" "\<not> (n = ascii ''te'' \<and> hv_bytes v \<noteq> ascii ''trailers'')"
      by simp_all
    have eq: "load_field L lim n v st = (case fl of Break \<Rightarrow> (st1, Break) | Continue \<Rightarrow>
        (if \<not> hb_is_over_size (bl_block st1)
         then (let b = bl_block st1; (fs, ok) = hl_append L (hb_fields b) n v in
              st1\<lparr>bl_block := b\<lparr>hb_fields := fs, hb_field_size := hb_field_size b + ?z, hb_is_over_size := (\<not> ok)\<rparr>\<rparr>)
         else st1, Continue))"
      by (simp only: load_field_def F if_False c [unfolded st0_def] prod.case Let_def)
    show ?thesis
      using check_size_cases [OF c]
    proof (elim disjE conjE)
      assume "fl = Break" "st1 = st0\<lparr>bl_too_large := True\<rparr>"
      then show ?thesis using eq assms(2) st0 by (simp add: load_inv_def)
    next
      assume "fl = Continue" "st1 = st0\<lparr>bl_block := (bl_block st0)\<lparr>hb_is_over_size := True\<rparr>\<rparr>"
      then show ?thesis using eq assms(2) st0 by (simp add: load_inv_def block_bounded_def)
    next
      assume "fl = Continue" "st1 = st0" "hb_is_over_size (bl_block st0)"
      then show ?thesis using eq assms(2) st0 by (simp add: load_inv_def)
    next
      assume "fl = Continue" "st1 = st0" "bl_size st0 < lim"
      then show ?thesis using eq assms(2) st0 m s p append_law(1) [OF assms(1) m]
        by (auto simp: load_inv_def block_bounded_def Let_def)
    qed
  qed
qed

lemma load_header_inv:
  assumes "header_lib_law L" "load_inv lim st"
  shows "load_inv lim (fst (load_header L lim st h))"
  using load_field_inv [OF assms]
  by (cases h) (auto simp: load_header_def calculate_header_list_size_def pseudo_size_def protocol_size_def
    intro!: set_pseudo_inv [OF assms(2)] split: option.split)

section \<open>The size of the header list\<close>

lemma header_block_load_spec:
  assumes "dec_ok d" "header_block_load L src lim d b = (r, b', d', rest)"
  shows "\<exists>x t' left st. spec_decode (hl_parsers L) (load_header L lim) True (dec_limit d) (dec_table d) src (block_load_init b) =
      (x, t', left, st) \<and> bl_block st = b' \<and> dec_table d' = t' \<and>
    r = (case x of Panic \<Rightarrow> Panic | Err e \<Rightarrow> Err (Hpack e)
         | Ok _ \<Rightarrow> if bl_too_large st then Err HeaderListWayTooLarge
                   else if bl_malformed st then Err MalformedMessage else Ok ()) \<and>
    (x = Ok () \<longrightarrow> d' = (take_size_update d)\<lparr>dec_table := t', dec_buffer := []\<rparr> \<and> rest = left) \<and>
    ((\<exists>m. x = Err (NeedMore m)) \<longrightarrow> d' = (take_size_update d)\<lparr>dec_table := t', dec_buffer := []\<rparr> \<and> (rest = left \<or>
      (\<forall>ext. fst (spec_decode (hl_parsers L) (load_header L lim) True (dec_limit d) (dec_table d) (src @ ext)
        (block_load_init b)) = x)))"
proof -
  obtain x t' left st where sp: "spec_decode (hl_parsers L) (load_header L lim) True (dec_limit d) (dec_table d) src
      (block_load_init b) = (x, t', left, st)"
    by (cases "spec_decode (hl_parsers L) (load_header L lim) True (dec_limit d) (dec_table d) src (block_load_init b)") auto
  obtain bf c' where "hpack_decode (hl_parsers L) (load_header L lim) d \<lparr>cbuf = src, cpos = 0\<rparr> (block_load_init b) =
      Some (x, (take_size_update d)\<lparr>dec_table := t', dec_buffer := bf\<rparr>, c', st)"
    "x = Ok () \<longrightarrow> bf = [] \<and> cbuf c' = left \<and> cpos c' = 0"
    "(\<exists>m. x = Err (NeedMore m)) \<longrightarrow> bf = [] \<and> (cbuf c' = left \<or>
       (\<forall>ext. fst (spec_decode (hl_parsers L) (load_header L lim) True (dec_limit d) (dec_table d) (src @ ext)
         (block_load_init b)) = x))"
    using hpack_decode_refines [OF assms(1) sp] by blast
  with sp assms(2) show ?thesis by (auto simp: header_block_load_def)
qed

text \<open>C32: The header list that a frame keeps is bounded: starting from an empty block, whatever fragments arrive, the
  fields and pseudo headers of the block (the \<open>:protocol\<close> included, which the accounting of later fragments leaves
  out) never have more than twice the octets of the local limit, counted with the overhead of 32 octets for each field.\<close>

theorem header_list_bounded:
  assumes "header_lib_law L" "dec_ok d" "block_bounded lim b" "header_block_load L src lim d b = (r, b', d', rest)"
  shows "block_bounded lim b' \<and> stored_size b' \<le> 2 * lim"
proof -
  obtain x t' left st where sp: "spec_decode (hl_parsers L) (load_header L lim) True (dec_limit d) (dec_table d) src
      (block_load_init b) = (x, t', left, st)" "bl_block st = b'"
    using header_block_load_spec [OF assms(2,4)] by blast
  have "load_inv lim (block_load_init b)" using assms(3) by (simp add: load_inv_def block_load_init_def)
  from spec_decode_callback_inv [where P = "load_inv lim", OF load_header_inv [OF assms(1)] this sp(1)] sp(2)
  have "block_bounded lim b'" by (simp add: load_inv_def)
  moreover have "hb_field_size b' \<le> calculate_header_list_size b'" by (simp add: calculate_header_list_size_def Let_def)
  ultimately show ?thesis by (auto simp: block_bounded_def stored_size_def)
qed

definition sample_lib :: header_lib where
  "sample_lib = \<lparr>hl_parsers = \<lparr>ht_header_name = (\<lambda>_. True), ht_header_value = (\<lambda>_. True), ht_method = (\<lambda>_. True),
     ht_status = (\<lambda>_. None)\<rparr>, hl_append = (\<lambda>m n v. (m @ [(n, v)], True))\<rparr>"

lemma sample_lib_law: "header_lib_law sample_lib"
  by (simp add: header_lib_law_def sample_lib_def)

lemma dec_ok_new [simp]: "dec_ok (decoder_new n)"
  by (simp add: dec_ok_def decoder_new_def dyn_new_def dyn_inv_def)

lemma block_bounded_empty [simp]: "block_bounded lim header_block_empty"
  by (simp add: block_bounded_def header_block_empty_def calculate_header_list_size_def pseudo_default_def
    pseudo_size_def protocol_size_def calculate_headermap_size_def)

lemma header_list_bounded_witness:
  "\<exists>r b' d' rest. header_block_load sample_lib [0x82, 0x84, 0x40, 1, 97, 1, 98] 60 (decoder_new 64) header_block_empty =
     (r, b', d', rest) \<and> stored_size b' \<le> 120"
proof -
  obtain r b' d' rest where h: "header_block_load sample_lib [0x82, 0x84, 0x40, 1, 97, 1, 98] 60 (decoder_new 64)
      header_block_empty = (r, b', d', rest)"
    by (metis prod.exhaust)
  from header_list_bounded [OF sample_lib_law dec_ok_new block_bounded_empty h] h show ?thesis by auto
qed

section \<open>Malformed blocks\<close>

lemma set_pseudo_monotone:
  assumes "set_pseudo lim field is_set n assign st = (st', fl)"
  shows "bl_too_large st \<Longrightarrow> bl_too_large st'" "bl_malformed st \<Longrightarrow> bl_malformed st'"
    "hb_is_over_size (bl_block st) \<Longrightarrow> hb_is_over_size (bl_block st')" "\<not> bl_too_large st' \<Longrightarrow> fl = Continue"
    "\<not> bl_too_large st \<Longrightarrow> bl_too_large st' \<Longrightarrow> fl = Break"
  using assms by (auto simp: set_pseudo_def check_size_def split: if_splits)

lemma load_field_monotone:
  assumes "load_field L lim n v st = (st', fl)"
  shows "bl_too_large st \<Longrightarrow> bl_too_large st'" "bl_malformed st \<Longrightarrow> bl_malformed st'"
    "hb_is_over_size (bl_block st) \<Longrightarrow> hb_is_over_size (bl_block st')" "\<not> bl_too_large st' \<Longrightarrow> fl = Continue"
    "\<not> bl_too_large st \<Longrightarrow> bl_too_large st' \<Longrightarrow> fl = Break"
  using assms by (auto simp: load_field_def check_size_def Let_def split: if_splits prod.splits)

lemma load_header_monotone':
  assumes "load_header L lim st h = (st', fl)"
  shows "bl_too_large st \<Longrightarrow> bl_too_large st'" "bl_malformed st \<Longrightarrow> bl_malformed st'"
    "hb_is_over_size (bl_block st) \<Longrightarrow> hb_is_over_size (bl_block st')" "\<not> bl_too_large st' \<Longrightarrow> fl = Continue"
    "\<not> bl_too_large st \<Longrightarrow> bl_too_large st' \<Longrightarrow> fl = Break"
  using assms unfolding load_header_def
  by (cases h; simp; blast dest: set_pseudo_monotone load_field_monotone)+

lemma load_header_monotone:
  "bl_too_large st \<Longrightarrow> bl_too_large (fst (load_header L lim st h))"
  "bl_malformed st \<Longrightarrow> bl_malformed (fst (load_header L lim st h))"
  "hb_is_over_size (bl_block st) \<Longrightarrow> hb_is_over_size (bl_block (fst (load_header L lim st h)))"
  "\<not> bl_too_large (fst (load_header L lim st h)) \<Longrightarrow> snd (load_header L lim st h) = Continue"
  "\<not> bl_too_large st \<Longrightarrow> bl_too_large (fst (load_header L lim st h)) \<Longrightarrow> snd (load_header L lim st h) = Break"
  using load_header_monotone' [OF prod.collapse [symmetric]] by metis+

lemmas load_header_break = load_header_monotone(4)
lemmas too_large_breaks = load_header_monotone(5)

text \<open>On an error the callback has not broken off.\<close>

lemma spec_decode_err_not_bad:
  assumes "\<And>s h. \<not> bad s \<Longrightarrow> bad (fst (f s h)) \<Longrightarrow> snd (f s h) = Break"
  shows "spec_decode H f cr l t bs s = (Err e, t', r, s') \<Longrightarrow> \<not> bad s \<Longrightarrow> \<not> bad s'"
proof (induction "length bs" arbitrary: bs cr t s rule: less_induct)
  case less
  show ?case
  proof (cases "bs = []")
    case True
    then show ?thesis using less.prems by simp
  next
    case ne: False
    show ?thesis
    proof (cases "parse_item H cr l t bs")
      case (Ok y)
      obtain i r1 where y: "y = (i, r1)" by (cases y)
      note p = Ok [unfolded y]
      have len: "length r1 < length bs" using consuming_item p unfolding consuming_def by blast
      show ?thesis
      proof (cases i)
        case (Resize n)
        note sp = spec_decode_step(1) [where f = f and s = s, OF ne p [unfolded Resize]]
        show ?thesis using less.hyps [OF len _ less.prems(2)] less.prems(1) sp by simp
      next
        case (Emit ins h)
        obtain s1 fl where f: "f s h = (s1, fl)" by (cases "f s h")
        show ?thesis
        proof (cases fl)
          case Continue
          have "\<not> bad s1" using assms [OF less.prems(2), of h] f Continue by auto
          then show ?thesis
            using spec_decode_step(2) [where f = f, OF ne p [unfolded Emit] f [unfolded Continue]] less.hyps [OF len]
              less.prems(1) by simp
        next
          case Break
          then show ?thesis
            using spec_decode_step(3) [where f = f, OF ne p [unfolded Emit] f [unfolded Break]] less.prems(1) by simp
        qed
      qed
    next
      case (Err e)
      then show ?thesis using spec_decode_step(4) [OF ne Err, of f s] less.prems by simp
    next
      case Panic
      then show ?thesis using calm_item by (auto simp: calm_def)
    qed
  qed
qed

text \<open>C33: A block that is malformed, or too large for the local limit, leaves the dynamic table of the decoder as a decoder
  that ignores the headers leaves it: the connection stays in step with the encoder of the peer. Only a block beyond the
  abuse limit, which ends the connection, stops decoding.\<close>

theorem malformed_keeps_table:
  assumes "dec_ok d" "header_block_load L src lim d b = (r, b', d', rest)" "r \<noteq> Err HeaderListWayTooLarge"
  shows "\<exists>x d'' c. hpack_decode (hl_parsers L) (\<lambda>_ _. ((), Continue)) d \<lparr>cbuf = src, cpos = 0\<rparr> () = Some (x, d'', c, ()) \<and>
    dec_table d' = dec_table d'' \<and> (r = Ok () \<or> r = Err MalformedMessage \<longrightarrow> x = Ok ())"
proof -
  let ?l = "dec_limit d" and ?t = "dec_table d" and ?H = "hl_parsers L"
  obtain x t' left st where sp: "spec_decode ?H (load_header L lim) True ?l ?t src (block_load_init b) = (x, t', left, st)"
    and t': "dec_table d' = t'"
    and r: "r = (case x of Panic \<Rightarrow> Panic | Err e \<Rightarrow> Err (Hpack e)
         | Ok _ \<Rightarrow> if bl_too_large st then Err HeaderListWayTooLarge
                   else if bl_malformed st then Err MalformedMessage else Ok ())"
    using header_block_load_spec [OF assms(1,2)] by blast
  have np: "x \<noteq> Panic" using spec_decode_inv [OF _ sp] assms(1) by (simp add: dec_ok_def)
  have nl: "\<not> bl_too_large st"
  proof (cases x)
    case (Err e)
    show ?thesis
      using spec_decode_err_not_bad [where bad = bl_too_large, OF too_large_breaks sp [unfolded Err]]
      by (simp add: block_load_init_def)
  qed (use r np assms(3) in auto)
  have "\<exists>u. spec_decode ?H (\<lambda>_ _. ((), Continue)) True ?l ?t src () = (x, t', left, u) \<and> True"
    by (rule spec_decode_sim [where R = "\<lambda>_ _. True" and bad = bl_too_large, OF _ _ sp nl])
      (auto simp: load_header_monotone(1) intro: load_header_break)
  then have sp': "spec_decode ?H (\<lambda>_ _. ((), Continue)) True ?l ?t src () = (x, t', left, ())" by auto
  from hpack_decode_refines [OF assms(1) sp'] t' r show ?thesis
    by (fastforce split: outcome.splits if_splits)
qed

lemma malformed_keeps_table_witness:
  "\<exists>r b' d' rest x d'' c. header_block_load sample_lib [0x82, 0x82] 60 (decoder_new 64) header_block_empty = (r, b', d', rest) \<and>
     hpack_decode (hl_parsers sample_lib) (\<lambda>_ _. ((), Continue)) (decoder_new 64) \<lparr>cbuf = [0x82, 0x82], cpos = 0\<rparr> () =
       Some (x, d'', c, ()) \<and> r = Err MalformedMessage \<and> dec_table d' = dec_table d''"
proof -
  obtain r b' d' rest where h: "header_block_load sample_lib [0x82, 0x82] 60 (decoder_new 64) header_block_empty =
      (r, b', d', rest)"
    by (metis prod.exhaust)
  have "fst (header_block_load sample_lib [0x82, 0x82] 60 (decoder_new 64) header_block_empty) = Err MalformedMessage"
    by code_simp
  then have r: "r = Err MalformedMessage" using h by simp
  from malformed_keeps_table [OF dec_ok_new h] r h show ?thesis by auto
qed

section \<open>Fragments\<close>

definition load_bad :: "block_load \<Rightarrow> bool" where
  "load_bad st \<longleftrightarrow> bl_too_large st \<or> bl_malformed st \<or> hb_is_over_size (bl_block st)"

lemma load_bad_mono: "load_bad st \<Longrightarrow> load_bad (fst (load_header L lim st h))"
  using load_header_monotone(1-3) unfolding load_bad_def by blast

text \<open>Two callback states that differ in the size that was counted, the first one larger.\<close>

definition load_rel :: "block_load \<Rightarrow> block_load \<Rightarrow> bool" where
  "load_rel s u \<longleftrightarrow> bl_block s = bl_block u \<and> bl_reg s = bl_reg u \<and> bl_size u \<le> bl_size s \<and> \<not> load_bad s \<and> \<not> load_bad u"

lemma check_size_rel:
  assumes "load_rel s u" "\<not> load_bad (fst (check_size lim s))"
  shows "check_size lim s = (s, Continue)" "check_size lim u = (u, Continue)"
  using assms by (auto simp: load_rel_def check_size_def load_bad_def split: if_splits)

lemma set_pseudo_rel:
  assumes "load_rel s u" "\<not> load_bad (fst (set_pseudo lim field is_set n assign s))"
  shows "load_rel (fst (set_pseudo lim field is_set n assign s)) (fst (set_pseudo lim field is_set n assign u)) \<and>
    snd (set_pseudo lim field is_set n assign s) = Continue \<and> snd (set_pseudo lim field is_set n assign u) = Continue"
  using assms by (auto simp: set_pseudo_def check_size_def load_rel_def load_bad_def split: if_splits)

lemma load_field_rel:
  assumes "load_rel s u" "\<not> load_bad (fst (load_field L lim n v s))"
  shows "load_rel (fst (load_field L lim n v s)) (fst (load_field L lim n v u)) \<and>
    snd (load_field L lim n v s) = Continue \<and> snd (load_field L lim n v u) = Continue"
  using assms by (auto simp: load_field_def check_size_def load_rel_def load_bad_def Let_def split: if_splits prod.splits)

lemma load_header_rel:
  assumes "load_rel s u" "\<not> load_bad (fst (load_header L lim s h))"
  shows "load_rel (fst (load_header L lim s h)) (fst (load_header L lim u h)) \<and>
    snd (load_header L lim s h) = Continue \<and> snd (load_header L lim u h) = Continue"
  using assms set_pseudo_rel load_field_rel unfolding load_header_def by (cases h) simp_all

text \<open>Regular fields were seen exactly if some are kept.\<close>

definition reg_inv :: "block_load \<Rightarrow> bool" where
  "reg_inv st \<longleftrightarrow> load_bad st \<or> bl_reg st = (hb_fields (bl_block st) \<noteq> [])"

lemma reg_inv_step:
  assumes "header_lib_law L" "reg_inv st"
  shows "reg_inv (fst (load_header L lim st h))"
proof -
  have p: "reg_inv (fst (set_pseudo lim field is_set n assign st))" for field is_set n assign
    using assms(2) by (auto simp: set_pseudo_def check_size_def reg_inv_def load_bad_def split: if_splits)
  have "hl_append L m n v \<noteq> ([], True)" for m n v
    using append_law(2) [OF assms(1), of m n v "[]" True] by auto
  then have "reg_inv (fst (load_field L lim n v st))" for n v
    using assms(2)
    by (auto simp: load_field_def check_size_def reg_inv_def load_bad_def Let_def split: if_splits prod.splits)
  then show ?thesis using p unfolding load_header_def by (cases h) simp_all
qed

lemma load_spec_split:
  fixes L lim
  defines "H \<equiv> hl_parsers L" and "f \<equiv> load_header L lim"
  assumes "header_lib_law L" "block_bounded lim b" "\<not> load_bad st2"
    and whole: "spec_decode H f True l t (bs @ ext) (block_load_init b) = (Ok (), t2, left2, st2)"
  obtains x t1 r1 s1 u where "spec_decode H f True l t bs (block_load_init b) = (x, t1, r1, s1)"
    "x = Ok () \<or> (\<exists>m. x = Err (NeedMore m))" "\<not> load_bad s1"
    "spec_decode H f True l t1 (r1 @ ext) (block_load_init (bl_block s1)) = (Ok (), t2, left2, u)" "load_rel st2 u"
proof -
  let ?g = "\<lambda>s h. (fst (f s h), Continue)"
  have cont: "\<not> load_bad (fst (load_header L lim s h)) \<Longrightarrow> snd (load_header L lim s h) = Continue" for s h
    using load_header_break [of L lim s h] by (auto simp: load_bad_def)
  have "\<exists>u. spec_decode H ?g True l t (bs @ ext) (block_load_init b) = (Ok (), t2, left2, u) \<and> st2 = u"
    by (rule spec_decode_sim [where R = "(=)" and bad = load_bad, OF _ _ whole assms(5)]) (auto intro: load_bad_mono cont simp: f_def)
  then have "spec_decode H ?g True l t (bs @ ext) (block_load_init b) = (Ok (), t2, left2, st2)" by simp
  from spec_decode_split [OF _ this] obtain x t1 r1 s1
    where g1: "spec_decode H ?g True l t bs (block_load_init b) = (x, t1, r1, s1)"
      and x: "x = Ok () \<or> (\<exists>m. x = Err (NeedMore m))"
      and g2: "spec_decode H ?g True l t1 (r1 @ ext) s1 = (Ok (), t2, left2, st2)" by auto
  have ok1: "\<not> load_bad s1"
    using spec_decode_callback_inv [where P = load_bad, OF _ _ g2] assms(5) load_bad_mono by (auto simp: f_def)
  have "\<exists>u. spec_decode H f True l t bs (block_load_init b) = (x, t1, r1, u) \<and> s1 = u"
    by (rule spec_decode_sim [where R = "(=)" and bad = load_bad, OF _ _ g1 ok1]) (auto intro: load_bad_mono cont simp: f_def)
  then have f1: "spec_decode H f True l t bs (block_load_init b) = (x, t1, r1, s1)" by simp
  have "load_inv lim (block_load_init b)" using assms(4) by (simp add: load_inv_def block_load_init_def)
  from spec_decode_callback_inv [where P = "load_inv lim", OF load_header_inv [OF assms(3)] this f1 [unfolded f_def]]
  have size: "calculate_header_list_size (bl_block s1) \<le> bl_size s1" by (simp add: load_inv_def)
  have "reg_inv (block_load_init b)" by (simp add: reg_inv_def block_load_init_def)
  from spec_decode_callback_inv [where P = reg_inv, OF reg_inv_step [OF assms(3)] this f1 [unfolded f_def]] ok1
  have reg: "bl_reg s1 = (hb_fields (bl_block s1) \<noteq> [])" by (simp add: reg_inv_def)
  have rel: "load_rel s1 (block_load_init (bl_block s1))"
    using size reg ok1 by (auto simp: load_rel_def block_load_init_def load_bad_def)
  have "\<exists>u. spec_decode H f True l t1 (r1 @ ext) (block_load_init (bl_block s1)) = (Ok (), t2, left2, u) \<and> load_rel st2 u"
    by (rule spec_decode_sim [where R = load_rel and bad = load_bad, OF _ _ g2 assms(5) rel])
      (auto intro: load_bad_mono dest: load_header_rel simp: f_def)
  then show thesis using that f1 x ok1 by blast
qed



text \<open>
  A malformed block that is cut inside a field. \<open>load\<close> (\<open>src/frame/headers.rs\<close>) keeps \<open>malformed\<close> in a local variable
  and returns the decoder's \<open>NeedMore\<close> before it looks at it; the caller then waits for the CONTINUATION, and the
  flag is forgotten. Here :method is repeated: in one piece, or cut at a field boundary, the block is
  malformed; cut inside the field that follows it is accepted.
\<close>

lemma malformed_lost_at_cut:
  "fst (header_block_load sample_lib [0x82, 0x82, 0x40, 1, 97, 1, 98] 200 (decoder_new 64) header_block_empty) = Err MalformedMessage"
  "fst (header_block_load sample_lib [0x82, 0x82] 200 (decoder_new 64) header_block_empty) = Err MalformedMessage"
  "(case header_block_load sample_lib [0x82, 0x82, 0x40, 1, 97] 200 (decoder_new 64) header_block_empty of
     (r, b, d, rest) \<Rightarrow> (\<exists>m\<in>{UnexpectedEndOfStream, IntegerUnderflow, StringUnderflow}. r = Err (Hpack (NeedMore m))) \<and>
       (case header_block_load sample_lib (rest @ [1, 98]) 200 d b of
          (r2, b2, d2, rest2) \<Rightarrow> r2 = Ok () \<and> rest2 = []))"
  by code_simp+

section \<open>Content lengths\<close>

definition is_digit :: "u8 \<Rightarrow> bool" where
  "is_digit d \<longleftrightarrow> 0x30 \<le> d \<and> d \<le> 0x39"

definition decimal :: "bytes \<Rightarrow> nat" where
  "decimal ds = foldl (\<lambda>n d. n * 10 + unat (d - 0x30)) 0 ds"

lemma digit_value: "is_digit d \<Longrightarrow> unat (d - 0x30) \<le> 9"
proof -
  assume "is_digit d"
  then have "48 \<le> unat d" "unat d \<le> 57" by (simp_all add: is_digit_def word_le_nat_alt)
  moreover have "unat (d - 0x30) = unat d - 48"
    using calculation by (simp add: unat_sub word_le_nat_alt)
  ultimately show ?thesis by simp
qed

lemma parse_u64_loop_value:
  "k + length ds \<le> 19 \<Longrightarrow> ret < 10 ^ k \<Longrightarrow> parse_u64_loop ret ds =
     (if list_all is_digit ds then Ok (foldl (\<lambda>n d. n * 10 + unat (d - 0x30)) ret ds) else Err ParseU64Error)"
proof (induction ret ds arbitrary: k rule: parse_u64_loop.induct)
  case (2 ret d ds)
  show ?case
  proof (cases "is_digit d")
    case False
    then show ?thesis by (auto simp: is_digit_def not_le)
  next
    case True
    let ?r = "ret * 10 + unat (d - 0x30)"
    have r: "?r < 10 ^ Suc k" using digit_value [OF True] "2.prems"(2) by simp
    also have "(10 :: nat) ^ Suc k \<le> 10 ^ 19" using "2.prems"(1) by (intro power_increasing) auto
    also have "(10 :: nat) ^ 19 \<le> 2 ^ 64" by simp
    finally have small: "\<not> ?r \<ge> 2 ^ 64" by simp
    have dig: "\<not> (d < 0x30 \<or> d > 0x39)" using True by (auto simp: is_digit_def not_less)
    have "parse_u64_loop ret (d # ds) = parse_u64_loop ?r ds" using dig small by simp
    moreover have "Suc k + length ds \<le> 19" using "2.prems"(1) by simp
    ultimately show ?thesis using "2.IH" [OF dig small _ r] True by simp
  qed
qed simp

text \<open>\<open>parse_u64\<close> never overflows: it gives the value of a string of at most 19 decimal digits (an empty string
  counts as 0), and an error for every other string.\<close>

theorem parse_u64_exact:
  "parse_u64 src = (if length src \<le> 19 \<and> list_all is_digit src then Ok (decimal src) else Err ParseU64Error)"
  using parse_u64_loop_value [of 0 src 0] by (simp add: parse_u64_def decimal_def)

section \<open>What loading keeps\<close>

text \<open>The decoder is sound after every result that does not end the connection.\<close>

lemma header_block_load_keeps:
  assumes "header_lib_law L" "dec_ok d" "block_bounded lim b" "header_block_load L src lim d b = (r, b', d', rest)"
  shows "r \<noteq> Panic" "block_bounded lim b'"
    "r = Ok () \<or> r = Err MalformedMessage \<or> (\<exists>m. r = Err (Hpack (NeedMore m))) \<Longrightarrow> dec_ok d'"
proof -
  obtain x t' left st where sp: "spec_decode (hl_parsers L) (load_header L lim) True (dec_limit d) (dec_table d) src
      (block_load_init b) = (x, t', left, st)"
    and r: "r = (case x of Panic \<Rightarrow> Panic | Err e \<Rightarrow> Err (Hpack e)
         | Ok _ \<Rightarrow> if bl_too_large st then Err HeaderListWayTooLarge
                   else if bl_malformed st then Err MalformedMessage else Ok ())"
    and k: "x = Ok () \<longrightarrow> d' = (take_size_update d)\<lparr>dec_table := t', dec_buffer := []\<rparr> \<and> rest = left"
    "(\<exists>m. x = Err (NeedMore m)) \<longrightarrow> d' = (take_size_update d)\<lparr>dec_table := t', dec_buffer := []\<rparr> \<and> (rest = left \<or>
      (\<forall>ext. fst (spec_decode (hl_parsers L) (load_header L lim) True (dec_limit d) (dec_table d) (src @ ext)
        (block_load_init b)) = x))"
    using header_block_load_spec [OF assms(2,4)] by blast
  have inv: "dyn_inv t'" "x \<noteq> Panic" using spec_decode_inv [OF _ sp] assms(2) by (simp_all add: dec_ok_def)
  then show "r \<noteq> Panic" using r by (cases x) auto
  show "block_bounded lim b'" using header_list_bounded [OF assms] by blast
  show "dec_ok d'" if "r = Ok () \<or> r = Err MalformedMessage \<or> (\<exists>m. r = Err (Hpack (NeedMore m)))"
  proof -
    have "x = Ok () \<or> (\<exists>m. x = Err (NeedMore m))" using r that inv by (cases x) (auto split: if_splits)
    then have "d' = (take_size_update d)\<lparr>dec_table := t', dec_buffer := []\<rparr>" using k by blast
    then show ?thesis using inv by (simp add: dec_ok_def)
  qed
qed

end
