(* ===== verification/Codec_Read.thy ===== *)
theory Codec_Read
  imports Header_Block Frame_Data Frame_Settings Ping_Pong
begin

text \<open>
  Reading frames (\<open>src/codec/framed_read.rs\<close>): the frame type (\<open>src/frame/mod.rs\<close>), \<open>decode_frame\<close> with the
  assembly of header blocks from HEADERS or PUSH_PROMISE and CONTINUATION frames, and \<open>poll_next\<close>.

  The length delimited codec of \<open>tokio-util\<close> in front delivers the frames with their heads; what it delivers is
  the argument \<open>inner_item list\<close>, and its maximum length is a field.
\<close>

section \<open>Frames\<close>

datatype 'b frame =
    FrameData "'b data_frame"
  | FrameHeaders headers_frame
  | FramePriority priority
  | FramePushPromise push_promise
  | FrameSettings settings
  | FramePing ping
  | FrameGoAway go_away_frame
  | FrameWindowUpdate window_update
  | FrameReset reset

fun frame_map :: "('b \<Rightarrow> 'c) \<Rightarrow> 'b frame \<Rightarrow> 'c frame" where
  "frame_map g (FrameData f) = FrameData (data_map g f)"
| "frame_map g (FrameHeaders f) = FrameHeaders f"
| "frame_map g (FramePriority f) = FramePriority f"
| "frame_map g (FramePushPromise f) = FramePushPromise f"
| "frame_map g (FrameSettings f) = FrameSettings f"
| "frame_map g (FramePing f) = FramePing f"
| "frame_map g (FrameGoAway f) = FrameGoAway f"
| "frame_map g (FrameWindowUpdate f) = FrameWindowUpdate f"
| "frame_map g (FrameReset f) = FrameReset f"

section \<open>The frame decoder\<close>

datatype continuable = ContHeaders headers_frame | ContPushPromise push_promise

record partial =
  part_frame :: continuable
  part_buf :: bytes
  part_count :: nat

record frame_decoder =
  fd_hpack :: decoder
  fd_max_header_list_size :: nat
  fd_max_continuation_frames :: nat
  fd_partial :: "partial option"

definition DEFAULT_SETTINGS_MAX_HEADER_LIST_SIZE :: nat where
  "DEFAULT_SETTINGS_MAX_HEADER_LIST_SIZE = 16 * 2 ^ 20"

text \<open>The division panics on 0.\<close>

definition calc_max_continuation_frames :: "nat \<Rightarrow> nat \<Rightarrow> nat option" where
  "calc_max_continuation_frames header_max frame_max =
    (if frame_max = 0 then None
     else let min_frames_for_list = max (header_max div frame_max) 1;
              padding = min_frames_for_list div 4
          in Some (max (min (min_frames_for_list + padding) USIZE_MAX) 5))"

definition frame_decoder_new :: "nat \<Rightarrow> frame_decoder option" where
  "frame_decoder_new max_frame_size =
    map_option (\<lambda>n. \<lparr>fd_hpack = decoder_new DEFAULT_SETTINGS_HEADER_TABLE_SIZE,
        fd_max_header_list_size = DEFAULT_SETTINGS_MAX_HEADER_LIST_SIZE,
        fd_max_continuation_frames = n, fd_partial = None\<rparr>)
      (calc_max_continuation_frames DEFAULT_SETTINGS_MAX_HEADER_LIST_SIZE max_frame_size)"

definition fd_set_max_frame_size :: "nat \<Rightarrow> frame_decoder \<Rightarrow> frame_decoder option" where
  "fd_set_max_frame_size val fd =
    map_option (\<lambda>n. fd\<lparr>fd_max_continuation_frames := n\<rparr>)
      (calc_max_continuation_frames (fd_max_header_list_size fd) val)"

definition fd_set_max_header_list_size :: "nat \<Rightarrow> nat \<Rightarrow> frame_decoder \<Rightarrow> frame_decoder option" where
  "fd_set_max_header_list_size val max_frame_size fd =
    map_option (\<lambda>n. fd\<lparr>fd_max_header_list_size := val, fd_max_continuation_frames := n\<rparr>)
      (calc_max_continuation_frames val max_frame_size)"

definition fd_set_header_table_size :: "nat \<Rightarrow> frame_decoder \<Rightarrow> frame_decoder" where
  "fd_set_header_table_size val fd = fd\<lparr>fd_hpack := queue_size_update val (fd_hpack fd)\<rparr>"

section \<open>Continuable frames\<close>

fun cont_stream_id :: "continuable \<Rightarrow> stream_id" where
  "cont_stream_id (ContHeaders h) = hf_stream_id h"
| "cont_stream_id (ContPushPromise p) = pp_stream_id p"

fun cont_is_over_size :: "continuable \<Rightarrow> bool" where
  "cont_is_over_size (ContHeaders h) = hb_is_over_size (hf_block h)"
| "cont_is_over_size (ContPushPromise p) = hb_is_over_size (pp_block p)"

fun cont_is_end_headers :: "continuable \<Rightarrow> bool" where
  "cont_is_end_headers (ContHeaders h) = hf_is_end_headers (hf_flags h)"
| "cont_is_end_headers (ContPushPromise p) = pp_is_end_headers (pp_flags p)"

fun cont_load_hpack ::
  "header_lib \<Rightarrow> bytes \<Rightarrow> nat \<Rightarrow> decoder \<Rightarrow> continuable \<Rightarrow>
     (unit, frame_error) outcome \<times> continuable \<times> decoder \<times> bytes" where
  "cont_load_hpack L src lim d (ContHeaders h) =
     (case headers_load_hpack L src lim d h of (r, h, d, src) \<Rightarrow> (r, ContHeaders h, d, src))"
| "cont_load_hpack L src lim d (ContPushPromise p) =
     (case push_promise_load_hpack L src lim d p of (r, p, d, src) \<Rightarrow> (r, ContPushPromise p, d, src))"

text \<open>\<open>frame.into()\<close> of a frame that was complete.\<close>

fun cont_frame :: "continuable \<Rightarrow> bytes frame" where
  "cont_frame (ContHeaders h) = FrameHeaders h"
| "cont_frame (ContPushPromise p) = FramePushPromise p"

text \<open>\<open>From<Continuable>\<close>.\<close>

fun cont_into_frame :: "continuable \<Rightarrow> bytes frame" where
  "cont_into_frame (ContHeaders h) = FrameHeaders (h\<lparr>hf_flags := hf_set_end_headers (hf_flags h)\<rparr>)"
| "cont_into_frame (ContPushPromise p) = FramePushPromise (p\<lparr>pp_flags := pp_set_end_headers (pp_flags p)\<rparr>)"

section \<open>Decoding a frame\<close>

text \<open>The match on the result of \<open>load_hpack\<close>.\<close>

definition block_result :: "stream_id \<Rightarrow> bool \<Rightarrow> (unit, frame_error) outcome \<Rightarrow> (unit, proto_error) outcome" where
  "block_result i is_end_headers r =
    (case r of
       Ok _ \<Rightarrow> Ok ()
     | Panic \<Rightarrow> Panic
     | Err (Hpack (NeedMore _)) \<Rightarrow> if \<not> is_end_headers then Ok () else Err (library_go_away PROTOCOL_ERROR)
     | Err MalformedMessage \<Rightarrow> Err (library_reset i PROTOCOL_ERROR)
     | Err HeaderListWayTooLarge \<Rightarrow> Err (library_go_away_data ENHANCE_YOUR_CALM (ascii ''header_list_way_too_large''))
     | Err _ \<Rightarrow> Err (library_go_away PROTOCOL_ERROR))"

type_synonym decode_result = "(bytes frame option, proto_error) outcome \<times> frame_decoder"

text \<open>\<open>header_block!\<close>, for what \<open>frame::$frame::load\<close> returned.\<close>

definition decode_header_block ::
  "header_lib \<Rightarrow> head \<Rightarrow> (continuable \<times> bytes, frame_error) outcome \<Rightarrow> frame_decoder \<Rightarrow> decode_result" where
  "decode_header_block L head loaded fd =
    (case loaded of
       Panic \<Rightarrow> (Panic, fd)
     | Err InvalidDependencyId \<Rightarrow> (Err (library_reset (hd_stream_id head) PROTOCOL_ERROR), fd)
     | Err _ \<Rightarrow> (Err (library_go_away PROTOCOL_ERROR), fd)
     | Ok (frame, payload) \<Rightarrow>
         (let is_end_headers = cont_is_end_headers frame in
          case cont_load_hpack L payload (fd_max_header_list_size fd) (fd_hpack fd) frame of
            (r, frame, d, payload) \<Rightarrow>
              (let fd = fd\<lparr>fd_hpack := d\<rparr> in
               case block_result (hd_stream_id head) is_end_headers r of
                 Panic \<Rightarrow> (Panic, fd)
               | Err e \<Rightarrow> (Err e, fd)
               | Ok _ \<Rightarrow>
                   if is_end_headers then (Ok (Some (cont_frame frame)), fd)
                   else (Ok None, fd\<lparr>fd_partial := Some \<lparr>part_frame = frame, part_buf = payload, part_count = 0\<rparr>\<rparr>))))"

definition decode_continuation :: "header_lib \<Rightarrow> head \<Rightarrow> bytes \<Rightarrow> frame_decoder \<Rightarrow> decode_result" where
  "decode_continuation L head bs fd =
    (let is_end_headers = (hd_flag head AND 0x4 = 0x4) in
     case fd_partial fd of
       None \<Rightarrow> (Err (library_go_away PROTOCOL_ERROR), fd)
     | Some partial \<Rightarrow>
         let fd = fd\<lparr>fd_partial := None\<rparr> in
         if cont_stream_id (part_frame partial) \<noteq> hd_stream_id head then (Err (library_go_away PROTOCOL_ERROR), fd)
         else if \<not> is_end_headers \<and> part_count partial + 1 > fd_max_continuation_frames fd
         then (Err (library_go_away_data ENHANCE_YOUR_CALM (ascii ''too_many_continuations'')), fd)
         else
           let cnt = (if is_end_headers then 0 else part_count partial + 1) in
           if part_buf partial \<noteq> [] \<and> cont_is_over_size (part_frame partial) \<and>
              length (part_buf partial) + length bs > fd_max_header_list_size fd
           then (Err (library_go_away COMPRESSION_ERROR), fd)
           else
             let buf = (if part_buf partial = [] then drop HEADER_LEN bs else part_buf partial @ drop HEADER_LEN bs) in
             case cont_load_hpack L buf (fd_max_header_list_size fd) (fd_hpack fd) (part_frame partial) of
               (r, frame, d, buf) \<Rightarrow>
                 (let fd = fd\<lparr>fd_hpack := d\<rparr> in
                  case block_result (hd_stream_id head) is_end_headers r of
                    Panic \<Rightarrow> (Panic, fd)
                  | Err e \<Rightarrow> (Err e, fd)
                  | Ok _ \<Rightarrow>
                      if is_end_headers then (Ok (Some (cont_into_frame frame)), fd)
                      else (Ok None, fd\<lparr>fd_partial := Some \<lparr>part_frame = frame, part_buf = buf, part_count = cnt\<rparr>\<rparr>)))"

text \<open>A frame whose load errors are connection errors.\<close>

definition decode_simple :: "('f \<Rightarrow> bytes frame) \<Rightarrow> ('f, frame_error) outcome \<Rightarrow> frame_decoder \<Rightarrow> decode_result" where
  "decode_simple into r fd =
    (bind_outcome (map_err (\<lambda>_. library_go_away PROTOCOL_ERROR) r) (\<lambda>f. Ok (Some (into f))), fd)"

definition decode_priority :: "head \<Rightarrow> bytes \<Rightarrow> frame_decoder \<Rightarrow> decode_result" where
  "decode_priority head payload fd =
    (if sid_val (hd_stream_id head) = 0 then (Err (library_go_away PROTOCOL_ERROR), fd)
     else case priority_load head payload of
       Ok f \<Rightarrow> (Ok (Some (FramePriority f)), fd)
     | Err InvalidDependencyId \<Rightarrow> (Err (library_reset (hd_stream_id head) PROTOCOL_ERROR), fd)
     | Err _ \<Rightarrow> (Err (library_go_away PROTOCOL_ERROR), fd)
     | Panic \<Rightarrow> (Panic, fd))"

definition decode_frame :: "header_lib \<Rightarrow> frame_decoder \<Rightarrow> bytes \<Rightarrow> decode_result" where
  "decode_frame L fd bs =
    (case head_parse bs of
       None \<Rightarrow> (Panic, fd)
     | Some head \<Rightarrow>
         if fd_partial fd \<noteq> None \<and> hd_kind head \<noteq> KindContinuation then (Err (library_go_away PROTOCOL_ERROR), fd)
         else
           let payload = drop HEADER_LEN bs in
           case hd_kind head of
             KindSettings \<Rightarrow> decode_simple FrameSettings (settings_load head payload) fd
           | KindPing \<Rightarrow> decode_simple FramePing (ping_load head payload) fd
           | KindWindowUpdate \<Rightarrow> decode_simple FrameWindowUpdate (window_update_load head payload) fd
           | KindData \<Rightarrow> decode_simple FrameData (data_load head payload) fd
           | KindHeaders \<Rightarrow>
               decode_header_block L head
                 (bind_outcome (headers_load head payload) (\<lambda>(f, p). Ok (ContHeaders f, p))) fd
           | KindReset \<Rightarrow> decode_simple FrameReset (reset_load head payload) fd
           | KindGoAway \<Rightarrow> decode_simple FrameGoAway (go_away_load head payload) fd
           | KindPushPromise \<Rightarrow>
               decode_header_block L head
                 (bind_outcome (push_promise_load head payload) (\<lambda>(f, p). Ok (ContPushPromise f, p))) fd
           | KindPriority \<Rightarrow> decode_priority head payload fd
           | KindContinuation \<Rightarrow> decode_continuation L head bs fd
           | KindUnknown \<Rightarrow> (Ok None, fd))"

section \<open>The stream of frames\<close>

text \<open>An item of the inner codec: a frame's bytes, an error (its kind, whether the inner error is a
  \<open>LengthDelimitedCodecError\<close>, and its text), or the end.\<close>

datatype inner_item =
    ItemBytes bytes
  | ItemErr io_error_kind bool "string option"
  | ItemEnd

definition read_map_err :: "io_error_kind \<Rightarrow> bool \<Rightarrow> string option \<Rightarrow> proto_error" where
  "read_map_err k is_length_delimited text =
    (if k = InvalidData \<and> is_length_delimited then library_go_away FRAME_SIZE_ERROR else ErrIo k text)"

record framed_read =
  fr_max_frame_length :: nat
  fr_decoder :: frame_decoder

definition framed_read_new :: "nat \<Rightarrow> framed_read option" where
  "framed_read_new max_frame_length =
    map_option (\<lambda>fd. \<lparr>fr_max_frame_length = max_frame_length, fr_decoder = fd\<rparr>) (frame_decoder_new max_frame_length)"

definition fr_set_max_frame_size :: "nat \<Rightarrow> framed_read \<Rightarrow> framed_read option" where
  "fr_set_max_frame_size val fr =
    (if unat DEFAULT_MAX_FRAME_SIZE \<le> val \<and> val \<le> unat MAX_MAX_FRAME_SIZE
     then map_option (\<lambda>fd. fr\<lparr>fr_max_frame_length := val, fr_decoder := fd\<rparr>) (fd_set_max_frame_size val (fr_decoder fr))
     else None)"

definition fr_set_max_header_list_size :: "nat \<Rightarrow> framed_read \<Rightarrow> framed_read option" where
  "fr_set_max_header_list_size val fr =
    map_option (\<lambda>fd. fr\<lparr>fr_decoder := fd\<rparr>) (fd_set_max_header_list_size val (fr_max_frame_length fr) (fr_decoder fr))"

definition fr_set_header_table_size :: "nat \<Rightarrow> framed_read \<Rightarrow> framed_read" where
  "fr_set_header_table_size val fr = fr\<lparr>fr_decoder := fd_set_header_table_size val (fr_decoder fr)\<rparr>"

text \<open>\<open>poll_next\<close> over the items that the inner codec has ready; it is pending when they are used up.\<close>

fun read_poll_next ::
  "header_lib \<Rightarrow> framed_read \<Rightarrow> inner_item list \<Rightarrow>
     ((bytes frame, proto_error) outcome option) poll \<times> framed_read \<times> inner_item list" where
  "read_poll_next L fr [] = (Pending, fr, [])"
| "read_poll_next L fr (ItemEnd # items) = (Ready None, fr, items)"
| "read_poll_next L fr (ItemErr k b t # items) = (Ready (Some (Err (read_map_err k b t))), fr, items)"
| "read_poll_next L fr (ItemBytes bs # items) =
    (case decode_frame L (fr_decoder fr) bs of
       (Ok (Some f), fd) \<Rightarrow> (Ready (Some (Ok f)), fr\<lparr>fr_decoder := fd\<rparr>, items)
     | (Ok None, fd) \<Rightarrow> read_poll_next L (fr\<lparr>fr_decoder := fd\<rparr>) items
     | (Err e, fd) \<Rightarrow> (Ready (Some (Err e)), fr\<lparr>fr_decoder := fd\<rparr>, items)
     | (Panic, fd) \<Rightarrow> (Ready (Some Panic), fr\<lparr>fr_decoder := fd\<rparr>, items))"

end
