(* ===== verification/Codec_Sound.thy ===== *)
theory Codec_Sound
  imports Codec_Read
begin

text \<open>
  What \<open>decode_frame\<close> promises on the bytes of any peer: it never panics, it keeps the state from which it can go on unless
  the connection is to be closed, a header block is never interleaved with other frames, and the number of its
  CONTINUATION frames is bounded.
\<close>

section \<open>No panics\<close>

lemma loads_no_panic [simp]:
  "hd_kind h = KindSettings \<Longrightarrow> settings_load h p \<noteq> Panic"
  "hd_kind h = KindPing \<Longrightarrow> ping_load h p \<noteq> Panic"
  "hd_kind h = KindWindowUpdate \<Longrightarrow> window_update_load h p \<noteq> Panic"
  "hd_kind h = KindGoAway \<Longrightarrow> go_away_load h p \<noteq> Panic"
  "reset_load h p \<noteq> Panic"
  by (auto simp: settings_load_def settings_load_chunks_no_panic Let_def ping_load_def window_update_load_def go_away_load_def
    reset_load_def bind_outcome_Panic_iff)

lemma drop_padding_no_panic [simp]: "drop_padding n p \<noteq> Panic"
  by (simp add: drop_padding_def)

lemma headers_load_no_panic: "headers_load h p \<noteq> Panic"
  by (auto simp: headers_load_def Let_def bind_outcome_Panic_iff split: if_splits prod.splits)

lemma push_promise_load_no_panic: "push_promise_load h p \<noteq> Panic"
  by (auto simp: push_promise_load_def Let_def bind_outcome_Panic_iff split: if_splits prod.splits)

fun cont_block :: "continuable \<Rightarrow> header_block" where
  "cont_block (ContHeaders h) = hf_block h"
| "cont_block (ContPushPromise p) = pp_block p"

lemma headers_load_Ok: "headers_load h p = Ok (f, q) \<Longrightarrow>
    hf_block f = header_block_empty \<and> hf_stream_id f = hd_stream_id h \<and> hf_flags f = hd_flag h \<and> \<not> sid_is_zero (hf_stream_id f)"
  by (auto simp: headers_load_def Let_def bind_outcome_Ok_iff split: if_splits prod.splits)

lemma push_promise_load_Ok: "push_promise_load h p = Ok (f, q) \<Longrightarrow>
    pp_block f = header_block_empty \<and> pp_stream_id f = hd_stream_id h \<and> pp_flags f = hd_flag h \<and> \<not> sid_is_zero (pp_stream_id f)"
  by (auto simp: push_promise_load_def Let_def bind_outcome_Ok_iff split: if_splits prod.splits)

text \<open>Loading the HPACK part changes the block of a frame only.\<close>

lemma cont_load_hpack_block:
  assumes "cont_load_hpack L src lim d c = (r, c', d', rest)"
  shows "header_block_load L src lim d (cont_block c) = (r, cont_block c', d', rest)"
    "cont_stream_id c' = cont_stream_id c" "cont_is_end_headers c' = cont_is_end_headers c"
  using assms by (cases c; auto simp: headers_load_hpack_def push_promise_load_hpack_def split: prod.splits)+

section \<open>The invariant\<close>

definition partial_ok :: "frame_decoder \<Rightarrow> partial \<Rightarrow> bool" where
  "partial_ok fd p \<longleftrightarrow> block_bounded (fd_max_header_list_size fd) (cont_block (part_frame p)) \<and>
     \<not> cont_is_end_headers (part_frame p) \<and> part_count p \<le> fd_max_continuation_frames fd"

definition fd_ok :: "frame_decoder \<Rightarrow> bool" where
  "fd_ok fd \<longleftrightarrow> dec_ok (fd_hpack fd) \<and> (\<forall>p. fd_partial fd = Some p \<longrightarrow> partial_ok fd p)"

text \<open>An error that does not close the connection.\<close>

fun stays_open :: "proto_error \<Rightarrow> bool" where
  "stays_open (ErrReset _ _ _) = True"
| "stays_open _ = False"

fun goes_on :: "('a, proto_error) outcome \<Rightarrow> bool" where
  "goes_on (Ok _) = True"
| "goes_on (Err e) = stays_open e"
| "goes_on Panic = False"

lemma block_result_cases:
  "block_result i fin r = Panic \<longleftrightarrow> r = Panic"
  "block_result i fin r = Ok u \<longleftrightarrow> r = Ok () \<or> \<not> fin \<and> (\<exists>m. r = Err (Hpack (NeedMore m)))"
  "block_result i fin r = Err (ErrReset j e k) \<Longrightarrow> r = Err MalformedMessage \<and> j = i"
  by (auto simp: block_result_def library_go_away_def library_reset_def library_go_away_data_def
    split: outcome.splits frame_error.splits decoder_error.splits if_splits)

lemma goes_on_block:
  assumes "goes_on (block_result i fin r)"
  shows "r = Ok () \<or> r = Err MalformedMessage \<or> (\<exists>m. r = Err (Hpack (NeedMore m)))"
proof (cases "block_result i fin r")
  case (Err e)
  then show ?thesis using assms block_result_cases(3) [of i fin r] by (cases e) auto
qed (use assms block_result_cases(2) [of i fin r] in auto)

lemma decode_simple_props:
  assumes "r \<noteq> Panic" "decode_simple into r fd = (res, fd')"
  shows "res \<noteq> Panic" "fd' = fd" "res \<noteq> Ok None"
  using assms by (cases r; auto simp: decode_simple_def)+

lemma decode_priority_props:
  assumes "decode_priority h p fd = (res, fd')"
  shows "res \<noteq> Panic" "fd' = fd" "res \<noteq> Ok None"
  using assms priority_load_no_panic [of h p]
  by (auto simp: decode_priority_def split: if_splits outcome.splits frame_error.splits)

lemma decode_header_block_props:
  assumes "header_lib_law L" "fd_ok fd" "fd_partial fd = None" "loaded \<noteq> Panic"
    "\<And>c q. loaded = Ok (c, q) \<Longrightarrow> cont_block c = header_block_empty \<and> cont_stream_id c = hd_stream_id h"
    "decode_header_block L h loaded fd = (res, fd')"
  shows "res \<noteq> Panic" "goes_on res \<Longrightarrow> fd_ok fd'"
    "res = Ok None \<Longrightarrow> \<exists>p. fd_partial fd' = Some p \<and> cont_stream_id (part_frame p) = hd_stream_id h \<and> part_count p = 0"
    "res \<noteq> Ok None \<Longrightarrow> fd_partial fd' = None"
proof -
  have "res \<noteq> Panic \<and> (goes_on res \<longrightarrow> fd_ok fd') \<and>
    (res = Ok None \<longrightarrow> (\<exists>p. fd_partial fd' = Some p \<and> cont_stream_id (part_frame p) = hd_stream_id h \<and> part_count p = 0)) \<and>
    (res \<noteq> Ok None \<longrightarrow> fd_partial fd' = None)"
  proof (cases loaded)
    case (Err e)
    then have "fd' = fd" "res \<noteq> Panic" "res \<noteq> Ok None"
      using assms(6) by (cases e; auto simp: decode_header_block_def)+
    then show ?thesis using assms(2,3) by simp
  next
    case (Ok y)
    obtain c q where y: "y = (c, q)" by (cases y)
    note c = assms(5) [OF Ok [unfolded y]]
    obtain r c' d rest where l: "cont_load_hpack L q (fd_max_header_list_size fd) (fd_hpack fd) c = (r, c', d, rest)"
      by (metis prod.exhaust)
    note b = cont_load_hpack_block [OF l]
    have bnd: "block_bounded (fd_max_header_list_size fd) (cont_block c)" using c by simp
    have dok: "dec_ok (fd_hpack fd)" using assms(2) by (simp add: fd_ok_def)
    note k = header_block_load_keeps [OF assms(1) dok bnd b(1)]
    let ?b = "block_result (hd_stream_id h) (cont_is_end_headers c) r"
    have np: "?b \<noteq> Panic" using k(1) block_result_cases(1) by blast
    have dok': "goes_on ?b \<longrightarrow> dec_ok d" using k(3) goes_on_block by blast
    have e: "decode_header_block L h loaded fd = (let fd = fd\<lparr>fd_hpack := d\<rparr> in
               case ?b of
                 Panic \<Rightarrow> (Panic, fd)
               | Err e \<Rightarrow> (Err e, fd)
               | Ok _ \<Rightarrow>
                   if cont_is_end_headers c then (Ok (Some (cont_frame c')), fd)
                   else (Ok None, fd\<lparr>fd_partial := Some \<lparr>part_frame = c', part_buf = rest, part_count = 0\<rparr>\<rparr>))"
      by (simp only: decode_header_block_def Ok y outcome.case prod.case Let_def l)
    show ?thesis
      using assms(6) assms(3) np dok' k(2) b(2,3) c unfolding e
      by (cases ?b) (auto simp: fd_ok_def partial_ok_def Let_def split: if_splits)
  qed (use assms(4) in simp)
  then show "res \<noteq> Panic" "goes_on res \<Longrightarrow> fd_ok fd'"
    "res = Ok None \<Longrightarrow> \<exists>p. fd_partial fd' = Some p \<and> cont_stream_id (part_frame p) = hd_stream_id h \<and> part_count p = 0"
    "res \<noteq> Ok None \<Longrightarrow> fd_partial fd' = None"
    by blast+
qed

fun into_frame_sid :: "'b frame \<Rightarrow> stream_id option" where
  "into_frame_sid (FrameHeaders h) = (if hf_is_end_headers (hf_flags h) then Some (hf_stream_id h) else None)"
| "into_frame_sid (FramePushPromise p) = (if pp_is_end_headers (pp_flags p) then Some (pp_stream_id p) else None)"
| "into_frame_sid _ = None"

lemma into_frame_sid_cont [simp]: "into_frame_sid (cont_into_frame c) = Some (cont_stream_id c)"
proof -
  have "(w OR 4) AND 4 = (4 :: u8)" for w by (rule bit_word_eqI) (auto simp: bit_simps)
  then show ?thesis
    by (cases c) (simp_all add: hf_is_end_headers_def hf_set_end_headers_def pp_is_end_headers_def pp_set_end_headers_def
      HF_END_HEADERS_def)
qed

lemma decode_continuation_props:
  assumes "header_lib_law L" "fd_ok fd" "decode_continuation L h bs fd = (res, fd')"
  shows "res \<noteq> Panic" "goes_on res \<Longrightarrow> fd_ok fd'"
    "res = Ok None \<Longrightarrow> \<exists>p p'. fd_partial fd = Some p \<and> fd_partial fd' = Some p' \<and>
       cont_stream_id (part_frame p) = hd_stream_id h \<and> cont_stream_id (part_frame p') = hd_stream_id h \<and>
       part_count p' = part_count p + 1 \<and> part_count p' \<le> fd_max_continuation_frames fd"
    "res = Ok (Some f) \<Longrightarrow> \<exists>p. fd_partial fd = Some p \<and> cont_stream_id (part_frame p) = hd_stream_id h \<and>
       into_frame_sid f = Some (hd_stream_id h)"
    "res \<noteq> Ok None \<Longrightarrow> fd_partial fd' = None"
    "fd_max_continuation_frames fd' = fd_max_continuation_frames fd"
proof -
  let ?fin = "hd_flag h AND 0x4 = 0x4"
  have "res \<noteq> Panic \<and> (goes_on res \<longrightarrow> fd_ok fd') \<and>
    (res = Ok None \<longrightarrow> (\<exists>p p'. fd_partial fd = Some p \<and> fd_partial fd' = Some p' \<and>
       cont_stream_id (part_frame p) = hd_stream_id h \<and> cont_stream_id (part_frame p') = hd_stream_id h \<and>
       part_count p' = part_count p + 1 \<and> part_count p' \<le> fd_max_continuation_frames fd)) \<and>
    (\<forall>f. res = Ok (Some f) \<longrightarrow> (\<exists>p. fd_partial fd = Some p \<and> cont_stream_id (part_frame p) = hd_stream_id h \<and>
       into_frame_sid f = Some (hd_stream_id h))) \<and>
    (res \<noteq> Ok None \<longrightarrow> fd_partial fd' = None) \<and> fd_max_continuation_frames fd' = fd_max_continuation_frames fd"
  proof (cases "fd_partial fd")
    case None
    then show ?thesis using assms(3) by (auto simp: decode_continuation_def Let_def library_go_away_def)
  next
    case (Some p)
    have pok: "partial_ok fd p" and dok: "dec_ok (fd_hpack fd)" using assms(2) Some by (simp_all add: fd_ok_def)
    consider "cont_stream_id (part_frame p) \<noteq> hd_stream_id h"
      | "cont_stream_id (part_frame p) = hd_stream_id h" "\<not> ?fin \<and> part_count p + 1 > fd_max_continuation_frames fd"
      | "cont_stream_id (part_frame p) = hd_stream_id h" "\<not> (\<not> ?fin \<and> part_count p + 1 > fd_max_continuation_frames fd)"
        "part_buf p \<noteq> [] \<and> cont_is_over_size (part_frame p) \<and> length (part_buf p) + length bs > fd_max_header_list_size fd"
      | (load) "cont_stream_id (part_frame p) = hd_stream_id h" "\<not> (\<not> ?fin \<and> part_count p + 1 > fd_max_continuation_frames fd)"
        "\<not> (part_buf p \<noteq> [] \<and> cont_is_over_size (part_frame p) \<and> length (part_buf p) + length bs > fd_max_header_list_size fd)"
      by blast
    then show ?thesis
    proof cases
      case load
      define buf where "buf = (if part_buf p = [] then drop HEADER_LEN bs else part_buf p @ drop HEADER_LEN bs)"
      obtain r c' d rest where l: "cont_load_hpack L buf (fd_max_header_list_size fd) (fd_hpack fd) (part_frame p) =
          (r, c', d, rest)"
        by (metis prod.exhaust)
      note b = cont_load_hpack_block [OF l]
      have bnd: "block_bounded (fd_max_header_list_size fd) (cont_block (part_frame p))" using pok by (simp add: partial_ok_def)
      note k = header_block_load_keeps [OF assms(1) dok bnd b(1)]
      let ?b = "block_result (hd_stream_id h) ?fin r"
      have np: "?b \<noteq> Panic" using k(1) block_result_cases(1) by blast
      have dok': "goes_on ?b \<longrightarrow> dec_ok d" using k(3) goes_on_block by blast
      have e: "decode_continuation L h bs fd = (let fd = fd\<lparr>fd_partial := None, fd_hpack := d\<rparr> in
                  case ?b of
                    Panic \<Rightarrow> (Panic, fd)
                  | Err e \<Rightarrow> (Err e, fd)
                  | Ok _ \<Rightarrow>
                      if ?fin then (Ok (Some (cont_into_frame c')), fd)
                      else (Ok None, fd\<lparr>fd_partial := Some \<lparr>part_frame = c', part_buf = rest,
                          part_count = (if ?fin then 0 else part_count p + 1)\<rparr>\<rparr>))"
        using load l unfolding decode_continuation_def Some option.case Let_def buf_def [symmetric]
        by auto
      show ?thesis
        using assms(3) load np dok' k(2) b(2,3) pok Some unfolding e
        by (cases ?b) (auto simp: fd_ok_def partial_ok_def Let_def split: if_splits)
    qed (use assms(3) Some in \<open>auto simp: decode_continuation_def Let_def library_go_away_def library_go_away_data_def
      split: if_splits\<close>)
  qed
  then show "res \<noteq> Panic" "goes_on res \<Longrightarrow> fd_ok fd'"
    "res = Ok None \<Longrightarrow> \<exists>p p'. fd_partial fd = Some p \<and> fd_partial fd' = Some p' \<and>
       cont_stream_id (part_frame p) = hd_stream_id h \<and> cont_stream_id (part_frame p') = hd_stream_id h \<and>
       part_count p' = part_count p + 1 \<and> part_count p' \<le> fd_max_continuation_frames fd"
    "res = Ok (Some f) \<Longrightarrow> \<exists>p. fd_partial fd = Some p \<and> cont_stream_id (part_frame p) = hd_stream_id h \<and>
       into_frame_sid f = Some (hd_stream_id h)"
    "res \<noteq> Ok None \<Longrightarrow> fd_partial fd' = None"
    "fd_max_continuation_frames fd' = fd_max_continuation_frames fd" by blast+
qed

section \<open>Frames\<close>

lemma decode_frame_cases:
  assumes "header_lib_law L" "fd_ok fd" "head_parse bs = Some h" "decode_frame L fd bs = (res, fd')"
  shows "res \<noteq> Panic \<and> (goes_on res \<longrightarrow> fd_ok fd') \<and>
    (fd_partial fd = None \<longrightarrow> res \<noteq> Ok None \<longrightarrow> fd_partial fd' = None) \<and>
    (fd_partial fd \<noteq> None \<and> hd_kind h \<noteq> KindContinuation \<longrightarrow> res = Err (library_go_away PROTOCOL_ERROR))"
proof (cases "fd_partial fd \<noteq> None \<and> hd_kind h \<noteq> KindContinuation")
  case True
  then show ?thesis using assms(3,4) by (auto simp: decode_frame_def library_go_away_def)
next
  case False
  let ?p = "drop HEADER_LEN bs"
  have simple: ?thesis if "decode_simple into r fd = (res, fd')" "r \<noteq> Panic" "fd_partial fd = None" for into and r :: "('f, frame_error) outcome"
    using decode_simple_props [OF that(2,1)] assms(2) that(3) by simp
  have block: ?thesis if "decode_header_block L h loaded fd = (res, fd')" "loaded \<noteq> Panic" "fd_partial fd = None"
      "\<And>c q. loaded = Ok (c, q) \<Longrightarrow> cont_block c = header_block_empty \<and> cont_stream_id c = hd_stream_id h" for loaded
  proof -
    note q = decode_header_block_props [OF assms(1,2) that(3,2,4,1)]
    show ?thesis using q(1,2,4) that(3) by simp
  qed
  note d = assms(4) [unfolded decode_frame_def assms(3) option.case Let_def if_not_P [OF False]]
  show ?thesis
  proof (cases "hd_kind h")
    case KindContinuation
    then show ?thesis using d decode_continuation_props(1,2,5) [OF assms(1,2), of h bs res fd'] by simp
  next
    case KindHeaders
    let ?l = "bind_outcome (headers_load h ?p) (\<lambda>(f, p). Ok (ContHeaders f, p))"
    have e: "decode_header_block L h ?l fd = (res, fd')" using d KindHeaders by simp
    show ?thesis
    proof (rule block [OF e])
      show "?l \<noteq> Panic"
        using headers_load_no_panic [of h ?p] by (cases "headers_load h ?p") auto
      show "fd_partial fd = None" using False KindHeaders by simp
      show "cont_block c = header_block_empty \<and> cont_stream_id c = hd_stream_id h" if "?l = Ok (c, q)" for c q
        using that headers_load_Ok [of h ?p] by (cases "headers_load h ?p") auto
    qed
  next
    case KindPushPromise
    let ?l = "bind_outcome (push_promise_load h ?p) (\<lambda>(f, p). Ok (ContPushPromise f, p))"
    have e: "decode_header_block L h ?l fd = (res, fd')" using d KindPushPromise by simp
    show ?thesis
    proof (rule block [OF e])
      show "?l \<noteq> Panic"
        using push_promise_load_no_panic [of h ?p] by (cases "push_promise_load h ?p") auto
      show "fd_partial fd = None" using False KindPushPromise by simp
      show "cont_block c = header_block_empty \<and> cont_stream_id c = hd_stream_id h" if "?l = Ok (c, q)" for c q
        using that push_promise_load_Ok [of h ?p] by (cases "push_promise_load h ?p") auto
    qed
  next
    case KindPriority
    then show ?thesis using d False decode_priority_props [of h ?p fd res fd'] assms(2) by simp
  next
    case KindUnknown
    then show ?thesis using d False assms(2) by auto
  next
    case KindData
    show ?thesis using d False KindData by (intro simple [of FrameData "data_load h ?p"]) simp_all
  next
    case KindReset
    show ?thesis using d False KindReset by (intro simple [of FrameReset "reset_load h ?p"]) simp_all
  next
    case KindSettings
    show ?thesis using d False KindSettings by (intro simple [of FrameSettings "settings_load h ?p"]) simp_all
  next
    case KindPing
    show ?thesis using d False KindPing by (intro simple [of FramePing "ping_load h ?p"]) simp_all
  next
    case KindGoAway
    show ?thesis using d False KindGoAway by (intro simple [of FrameGoAway "go_away_load h ?p"]) simp_all
  next
    case KindWindowUpdate
    show ?thesis using d False KindWindowUpdate by (intro simple [of FrameWindowUpdate "window_update_load h ?p"]) simp_all
  qed
qed

lemma decode_frame_step:
  assumes "header_lib_law L" "fd_ok fd" "HEADER_LEN \<le> length bs" "decode_frame L fd bs = (res, fd')"
  shows "res \<noteq> Panic \<and> (goes_on res \<longrightarrow> fd_ok fd')"
proof -
  obtain h where "head_parse bs = Some h" using assms(3) head_parse_None_iff [of bs] by (cases "head_parse bs") auto
  from decode_frame_cases [OF assms(1,2) this assms(4)] show ?thesis by blast
qed

text \<open>C35: Whatever bytes a peer sends in a frame (the length delimited codec delivers at least the nine bytes of a head),
  \<open>decode_frame\<close> does not panic; and after a frame, an ignored frame or a stream error the decoder is in a
  sound state: the dynamic table within its limits, the buffers consistent, an unfinished header block within the limit on header lists.\<close>

theorem decode_frame_safe:
  assumes "header_lib_law L" "fd_ok fd" "HEADER_LEN \<le> length bs" "decode_frame L fd bs = (res, fd')"
  shows "res \<noteq> Panic \<and> (goes_on res \<longrightarrow> fd_ok fd')"
  using decode_frame_step [OF assms] .

definition sample_fd :: frame_decoder where
  "sample_fd = \<lparr>fd_hpack = decoder_new 4096, fd_max_header_list_size = 200, fd_max_continuation_frames = 5, fd_partial = None\<rparr>"

lemma sample_fd_ok [simp]: "fd_ok sample_fd"
  by (simp add: fd_ok_def sample_fd_def)

lemma decode_frame_safe_witness:
  "fst (decode_frame sample_lib sample_fd [0, 0, 0, 200, 0, 0, 0, 0, 1]) \<noteq> Panic"
proof -
  obtain res fd' where "decode_frame sample_lib sample_fd [0, 0, 0, 200, 0, 0, 0, 0, 1] = (res, fd')" by fastforce
  with decode_frame_safe [OF sample_lib_law sample_fd_ok _ this] show ?thesis by (simp add: HEADER_LEN_def)
qed

lemma header_block_contiguous_step:
  assumes "header_lib_law L" "fd_ok fd" "fd_partial fd = Some p" "HEADER_LEN \<le> length bs"
    "decode_frame L fd bs = (Ok v, fd')"
  shows "\<exists>h. head_parse bs = Some h \<and> hd_kind h = KindContinuation \<and> hd_stream_id h = cont_stream_id (part_frame p) \<and>
    (case v of
       Some f \<Rightarrow> into_frame_sid f = Some (cont_stream_id (part_frame p)) \<and> fd_partial fd' = None
     | None \<Rightarrow> \<exists>p'. fd_partial fd' = Some p' \<and> cont_stream_id (part_frame p') = cont_stream_id (part_frame p) \<and>
         part_count p' = part_count p + 1 \<and> part_count p' \<le> fd_max_continuation_frames fd) \<and>
    fd_max_continuation_frames fd' = fd_max_continuation_frames fd"
proof -
  obtain h where h: "head_parse bs = Some h" using assms(4) head_parse_None_iff [of bs] by (cases "head_parse bs") auto
  have k: "hd_kind h = KindContinuation"
    using decode_frame_cases [OF assms(1,2) h assms(5)] assms(3) by auto
  then have d: "decode_continuation L h bs fd = (Ok v, fd')"
    using assms(5) h by (simp add: decode_frame_def)
  note c = decode_continuation_props [OF assms(1,2) d]
  show ?thesis using h k c(3-6) assms(3) by (cases v) auto
qed

text \<open>C36: A header block is not interleaved: while one is open on a stream, a frame is accepted only if it is a CONTINUATION frame
  of that stream. It either ends the block, and the frame that is delivered is of that stream and complete,
  or it keeps the block open and is counted against the limit on CONTINUATION frames.\<close>

theorem header_block_contiguous:
  assumes "header_lib_law L" "fd_ok fd" "fd_partial fd = Some p" "HEADER_LEN \<le> length bs"
    "decode_frame L fd bs = (Ok v, fd')"
  shows "\<exists>h. head_parse bs = Some h \<and> hd_kind h = KindContinuation \<and> hd_stream_id h = cont_stream_id (part_frame p) \<and>
    (case v of
       Some f \<Rightarrow> into_frame_sid f = Some (cont_stream_id (part_frame p)) \<and> fd_partial fd' = None
     | None \<Rightarrow> \<exists>p'. fd_partial fd' = Some p' \<and> cont_stream_id (part_frame p') = cont_stream_id (part_frame p) \<and>
         part_count p' = part_count p + 1 \<and> part_count p' \<le> fd_max_continuation_frames fd) \<and>
    fd_max_continuation_frames fd' = fd_max_continuation_frames fd"
  using header_block_contiguous_step [OF assms] .

definition sample_open :: "bytes" where
  "sample_open = [0, 0, 1, 1, 0, 0, 0, 0, 3, 0x82]"

lemma sample_open_step:
  "\<exists>fd' p. decode_frame sample_lib sample_fd sample_open = (Ok None, fd') \<and> fd_ok fd' \<and> fd_partial fd' = Some p \<and>
     cont_stream_id (part_frame p) = StreamId 3 \<and> part_count p = 0 \<and> fd_max_continuation_frames fd' = 5"
proof -
  obtain res fd' where d: "decode_frame sample_lib sample_fd sample_open = (res, fd')" by fastforce
  have e: "(case decode_frame sample_lib sample_fd sample_open of
      (Ok None, fd) \<Rightarrow> (case fd_partial fd of Some p \<Rightarrow> cont_stream_id (part_frame p) = StreamId 3 \<and> part_count p = 0 | None \<Rightarrow> False) \<and>
        fd_max_continuation_frames fd = 5
     | _ \<Rightarrow> False)"
    by code_simp
  have r: "res = Ok None" using e d by (auto split: outcome.splits option.splits)
  have "HEADER_LEN \<le> length sample_open" by (simp add: HEADER_LEN_def sample_open_def)
  from decode_frame_step [OF sample_lib_law sample_fd_ok this d] r have "fd_ok fd'" by simp
  then show ?thesis using e d r by (auto split: option.splits)
qed

lemma header_block_contiguous_witness:
  "\<exists>fd bs v fd' h. fd_partial fd \<noteq> None \<and> decode_frame sample_lib fd bs = (Ok v, fd') \<and> head_parse bs = Some h \<and>
     hd_kind h = KindContinuation"
proof -
  let ?c = "[0, 0, 1, 9, 4, 0, 0, 0, 3, 0x84] :: bytes"
  obtain fd p where fd: "decode_frame sample_lib sample_fd sample_open = (Ok None, fd)" "fd_ok fd" "fd_partial fd = Some p"
    using sample_open_step by blast
  have "(case decode_frame sample_lib (snd (decode_frame sample_lib sample_fd sample_open)) ?c of (Ok (Some _), _) \<Rightarrow> True | _ \<Rightarrow> False)"
    by code_simp
  then obtain v fd' where v: "decode_frame sample_lib fd ?c = (Ok v, fd')"
    unfolding fd(1) snd_conv by (auto split: prod.splits outcome.splits)
  have "HEADER_LEN \<le> length ?c" by (simp add: HEADER_LEN_def)
  from header_block_contiguous [OF sample_lib_law fd(2,3) this v] fd(3) v show ?thesis by blast
qed

text \<open>The frames that arrive while a block stays open.\<close>

fun feed :: "header_lib \<Rightarrow> frame_decoder \<Rightarrow> bytes list \<Rightarrow> frame_decoder option" where
  "feed L fd [] = Some fd"
| "feed L fd (bs # bss) =
    (case decode_frame L fd bs of (Ok None, fd') \<Rightarrow> feed L fd' bss | _ \<Rightarrow> None)"

lemma feed_bounded:
  "header_lib_law L \<Longrightarrow> fd_ok fd \<Longrightarrow> fd_partial fd = Some p \<Longrightarrow> \<forall>bs \<in> set bss. HEADER_LEN \<le> length bs \<Longrightarrow>
    feed L fd bss = Some fd' \<Longrightarrow>
    part_count p + length bss \<le> fd_max_continuation_frames fd \<and>
    (\<exists>p'. fd_partial fd' = Some p' \<and> cont_stream_id (part_frame p') = cont_stream_id (part_frame p) \<and>
       block_bounded (fd_max_header_list_size fd') (cont_block (part_frame p')))"
proof (induction bss arbitrary: fd p)
  case Nil
  then show ?case by (auto simp: fd_ok_def partial_ok_def)
next
  case (Cons bs bss)
  obtain res fd1 where d: "decode_frame L fd bs = (res, fd1)" by fastforce
  have r: "res = Ok None" and f: "feed L fd1 bss = Some fd'"
    using Cons.prems(5) d by (auto split: outcome.splits option.splits)
  note d = d [unfolded r]
  have len: "HEADER_LEN \<le> length bs" using Cons.prems(4) by simp
  have ok: "fd_ok fd1" using decode_frame_step [OF Cons.prems(1,2) len d] by simp
  obtain p1 where p1: "fd_partial fd1 = Some p1" "cont_stream_id (part_frame p1) = cont_stream_id (part_frame p)"
      "part_count p1 = part_count p + 1" "fd_max_continuation_frames fd1 = fd_max_continuation_frames fd"
    using header_block_contiguous_step [OF Cons.prems(1-3) len d] by auto
  from Cons.IH [OF Cons.prems(1) ok p1(1) _ f] Cons.prems(4) p1 show ?case by simp
qed

text \<open>C37: A peer cannot keep a header block open for ever: after the HEADERS or PUSH_PROMISE frame at most
  \<open>max_continuation_frames\<close> CONTINUATION frames are accepted without the block being ended, and what has
  been decoded meanwhile stays within the limit on header lists.\<close>

theorem continuations_bounded:
  assumes "header_lib_law L" "fd_ok fd" "fd_partial fd = Some p" "\<forall>bs \<in> set bss. HEADER_LEN \<le> length bs"
    "feed L fd bss = Some fd'"
  shows "part_count p + length bss \<le> fd_max_continuation_frames fd \<and>
    (\<exists>p'. fd_partial fd' = Some p' \<and> stored_size (cont_block (part_frame p')) \<le> 2 * fd_max_header_list_size fd')"
proof -
  from feed_bounded [OF assms] obtain p' where p: "part_count p + length bss \<le> fd_max_continuation_frames fd"
    "fd_partial fd' = Some p'" "block_bounded (fd_max_header_list_size fd') (cont_block (part_frame p'))" by blast
  let ?b = "cont_block (part_frame p')"
  have "hb_field_size ?b \<le> calculate_header_list_size ?b" by (simp add: calculate_header_list_size_def Let_def)
  then have "stored_size ?b \<le> 2 * fd_max_header_list_size fd'"
    using p(3) by (auto simp: block_bounded_def stored_size_def)
  then show ?thesis using p by blast
qed

lemma continuations_bounded_witness:
  "\<exists>fd p bss fd'. fd_partial fd = Some p \<and> feed sample_lib fd bss = Some fd' \<and> length bss = 1 \<and>
     part_count p + length bss \<le> fd_max_continuation_frames fd"
proof -
  let ?c = "[0, 0, 1, 9, 0, 0, 0, 0, 3, 0x84] :: bytes"
  obtain fd p where fd: "decode_frame sample_lib sample_fd sample_open = (Ok None, fd)" "fd_ok fd" "fd_partial fd = Some p"
    using sample_open_step by blast
  have "(case decode_frame sample_lib (snd (decode_frame sample_lib sample_fd sample_open)) ?c of (Ok None, _) \<Rightarrow> True | _ \<Rightarrow> False)"
    by code_simp
  then obtain fd' where v: "feed sample_lib fd [?c] = Some fd'"
    unfolding fd(1) snd_conv by (auto split: prod.splits outcome.splits option.splits)
  have "\<forall>bs \<in> set [?c]. HEADER_LEN \<le> length bs" by (simp add: HEADER_LEN_def)
  from continuations_bounded [OF sample_lib_law fd(2,3) this v] fd(3) v show ?thesis by fastforce
qed

section \<open>An empty header name\<close>

text \<open>\<open>Header::new\<close> reports an empty name as \<open>NeedMore\<close>. In a frame without END_HEADERS that is taken for an unfinished
  representation, although it has been consumed: the field with the empty name is dropped, is not put into the dynamic table,
  and the block goes on with the CONTINUATION frame, where the same field in a frame with END_HEADERS is a connection error.\<close>

lemma empty_name_skipped:
  "case decode_frame sample_lib sample_fd [0, 0, 5, 1, 0, 0, 0, 0, 3, 0x82, 0x40, 0, 1, 98] of
     (Ok None, fd) \<Rightarrow>
       (case decode_frame sample_lib fd [0, 0, 1, 9, 4, 0, 0, 0, 3, 0x84] of
          (Ok (Some (FrameHeaders f)), fd') \<Rightarrow>
             ps_path (hb_pseudo (hf_block f)) \<noteq> None \<and> hb_fields (hf_block f) = [] \<and> dt_entries (dec_table (fd_hpack fd')) = []
        | _ \<Rightarrow> False)
   | _ \<Rightarrow> False"
  by code_simp

lemma empty_name_fails:
  "fst (decode_frame sample_lib sample_fd [0, 0, 5, 1, 4, 0, 0, 0, 3, 0x82, 0x40, 0, 1, 98]) =
     Err (library_go_away PROTOCOL_ERROR)"
  by code_simp

end
