(* ===== verification/Hpack_Enc_Table.thy ===== *)
theory Hpack_Enc_Table
  imports Hpack_Header
begin

text \<open>
  The table of the HPACK encoder (\<open>src/hpack/table.rs\<close>): the entries in a queue, newest first, and over them a hash index with
  robin hood probing, whose positions point at the oldest entry of a name; entries of one name are chained from older to
  newer. The hash of a name (\<open>FnvHasher\<close>, a third-party crate) is the argument \<open>fnv\<close>. Positions count from the number of insertions
  with wrap-around, so that they need not change when an entry is inserted.

  A panic is \<open>None\<close>. The loops carry fuel, whose exhaustion is \<open>None\<close> too.
\<close>

section \<open>Data\<close>

record pos =
  pos_index :: usize
  pos_hash :: usize

record enc_slot =
  es_hash :: usize
  es_header :: "bytes header"
  es_next :: "usize option"

record enc_table =
  et_mask :: usize
  et_indices :: "pos option list"
  et_slots :: "enc_slot list"
  et_inserted :: usize
  et_size :: nat
  et_max_size :: nat

datatype index =
    IxIndexed nat "bytes header"
  | IxName nat "bytes header"
  | IxInserted nat
  | IxInsertedValue nat nat
  | IxNotIndexed "bytes header"

definition HASH_MAX_SIZE :: nat where "HASH_MAX_SIZE = 2 ^ 16"
definition DYN_OFFSET :: nat where "DYN_OFFSET = 62"

definition index_new :: "(nat \<times> bool) option \<Rightarrow> bytes header \<Rightarrow> index" where
  "index_new v e =
    (case v of None \<Rightarrow> IxNotIndexed e | Some (n, b) \<Rightarrow> if b then IxIndexed n e else IxName n e)"

section \<open>Positions\<close>

definition usable_capacity :: "nat \<Rightarrow> nat" where
  "usable_capacity cap = cap - cap div 4"

definition to_raw_capacity :: "nat \<Rightarrow> nat" where
  "to_raw_capacity n = n + n div 3"

definition desired_pos :: "usize \<Rightarrow> usize \<Rightarrow> nat" where
  "desired_pos msk hash = unat (hash AND msk)"

definition probe_distance :: "usize \<Rightarrow> usize \<Rightarrow> nat \<Rightarrow> nat" where
  "probe_distance msk hash current = unat ((of_nat current - of_nat (desired_pos msk hash)) AND msk)"

definition hash_header :: "(name \<Rightarrow> u64) \<Rightarrow> bytes header \<Rightarrow> usize" where
  "hash_header fnv h = fnv (header_name h) AND (of_nat HASH_MAX_SIZE - 1)"

text \<open>\<open>probe_loop!\<close> starts again at 0 when it comes to the end.\<close>

definition wrap :: "nat \<Rightarrow> nat \<Rightarrow> nat" where
  "wrap n probe = (if probe < n then probe else 0)"

text \<open>\<open>self.slots[i]\<close> panics out of range.\<close>

definition nth_opt :: "'a list \<Rightarrow> nat \<Rightarrow> 'a option" where
  "nth_opt xs i = (if i < length xs then Some (xs ! i) else None)"

definition real_index :: "enc_table \<Rightarrow> usize \<Rightarrow> nat" where
  "real_index t i = unat (i + et_inserted t)"

section \<open>The static table\<close>

definition static_names :: "(bytes \<times> nat) list" where
  "static_names = map (\<lambda>(s, n). (ascii s, n))
    [(''accept-charset'', 15), (''accept-encoding'', 16), (''accept-language'', 17), (''accept-ranges'', 18), (''accept'', 19),
     (''access-control-allow-origin'', 20), (''age'', 21), (''allow'', 22), (''authorization'', 23), (''cache-control'', 24),
     (''content-disposition'', 25), (''content-encoding'', 26), (''content-language'', 27), (''content-length'', 28),
     (''content-location'', 29), (''content-range'', 30), (''content-type'', 31), (''cookie'', 32), (''date'', 33), (''etag'', 34),
     (''expect'', 35), (''expires'', 36), (''from'', 37), (''host'', 38), (''if-match'', 39), (''if-modified-since'', 40),
     (''if-none-match'', 41), (''if-range'', 42), (''if-unmodified-since'', 43), (''last-modified'', 44), (''link'', 45),
     (''location'', 46), (''max-forwards'', 47), (''proxy-authenticate'', 48), (''proxy-authorization'', 49), (''range'', 50),
     (''referer'', 51), (''refresh'', 52), (''retry-after'', 53), (''server'', 54), (''set-cookie'', 55),
     (''strict-transport-security'', 56), (''transfer-encoding'', 57), (''user-agent'', 58), (''vary'', 59), (''via'', 60),
     (''www-authenticate'', 61)]"

fun index_static :: "bytes header \<Rightarrow> (nat \<times> bool) option" where
  "index_static (Field n v) =
     (case map_of static_names n of
        None \<Rightarrow> None
      | Some i \<Rightarrow> Some (i, i = 16 \<and> hv_bytes v = ascii ''gzip, deflate''))"
| "index_static (Authority _) = Some (1, False)"
| "index_static (Method v) =
     (if v = ascii ''GET'' then Some (2, True) else if v = ascii ''POST'' then Some (3, True) else Some (2, False))"
| "index_static (Scheme v) =
     (if v = ascii ''http'' then Some (6, True) else if v = ascii ''https'' then Some (7, True) else Some (6, False))"
| "index_static (Path v) =
     (if v = ascii ''/'' then Some (4, True) else if v = ascii ''/index.html'' then Some (5, True) else Some (4, False))"
| "index_static (Protocol _) = None"
| "index_static (Status v) =
     (if v = 200 then Some (8, True)
      else if v = 204 then Some (9, True)
      else if v = 206 then Some (10, True)
      else if v = 304 then Some (11, True)
      else if v = 400 then Some (12, True)
      else if v = 404 then Some (13, True)
      else if v = 500 then Some (14, True)
      else Some (8, False))"

section \<open>Construction\<close>

function next_power_of_two_from :: "nat \<Rightarrow> nat \<Rightarrow> nat" where
  "next_power_of_two_from n p = (if p = 0 \<or> n \<le> p then p else next_power_of_two_from n (2 * p))"
  by pat_completeness auto
termination by (relation "measure (\<lambda>(n, p). n - p)") auto

declare next_power_of_two_from.simps [simp del]

definition next_power_of_two :: "nat \<Rightarrow> nat" where
  "next_power_of_two n = next_power_of_two_from n 1"

definition enc_table_new :: "nat \<Rightarrow> nat \<Rightarrow> enc_table" where
  "enc_table_new max_size capacity =
    (if capacity = 0
     then \<lparr>et_mask = 0, et_indices = [], et_slots = [], et_inserted = 0, et_size = 0, et_max_size = max_size\<rparr>
     else let capacity = max (next_power_of_two (to_raw_capacity capacity)) 8 in
       \<lparr>et_mask = of_nat capacity - 1, et_indices = replicate capacity None, et_slots = [], et_inserted = 0,
        et_size = 0, et_max_size = max_size\<rparr>)"

definition et_capacity :: "enc_table \<Rightarrow> nat" where
  "et_capacity t = usable_capacity (length (et_indices t))"

definition table_resolve :: "enc_table \<Rightarrow> index \<Rightarrow> bytes header option" where
  "table_resolve t ix =
    (case ix of
       IxIndexed _ h \<Rightarrow> Some h
     | IxName _ h \<Rightarrow> Some h
     | IxInserted i \<Rightarrow> map_option es_header (nth_opt (et_slots t) i)
     | IxInsertedValue _ i \<Rightarrow> map_option es_header (nth_opt (et_slots t) i)
     | IxNotIndexed h \<Rightarrow> Some h)"

definition table_resolve_idx :: "index \<Rightarrow> nat option" where
  "table_resolve_idx ix =
    (case ix of
       IxIndexed i _ \<Rightarrow> Some i
     | IxName i _ \<Rightarrow> Some i
     | IxInserted i \<Rightarrow> Some (i + DYN_OFFSET)
     | IxInsertedValue _ i \<Rightarrow> Some (i + DYN_OFFSET)
     | IxNotIndexed _ \<Rightarrow> None)"

section \<open>Growing\<close>

fun find_ideal :: "usize \<Rightarrow> pos option list \<Rightarrow> nat \<Rightarrow> nat" where
  "find_ideal msk [] i = 0"
| "find_ideal msk (None # ps) i = find_ideal msk ps (i + 1)"
| "find_ideal msk (Some p # ps) i =
     (if probe_distance msk (pos_hash p) i = 0 then i else find_ideal msk ps (i + 1))"

fun reinsert_loop :: "nat \<Rightarrow> pos \<Rightarrow> nat \<Rightarrow> pos option list \<Rightarrow> pos option list option" where
  "reinsert_loop 0 p probe ps = None"
| "reinsert_loop (Suc fuel) p probe ps =
     (let probe = wrap (length ps) probe in
      if probe \<ge> length ps then None
      else if ps ! probe = None then Some (ps[probe := Some p])
      else reinsert_loop fuel p (probe + 1) ps)"

definition reinsert_entry_in_order :: "usize \<Rightarrow> pos option \<Rightarrow> pos option list \<Rightarrow> pos option list option" where
  "reinsert_entry_in_order msk p ps =
    (case p of
       None \<Rightarrow> Some ps
     | Some p \<Rightarrow> reinsert_loop (length ps + 1) p (desired_pos msk (pos_hash p)) ps)"

fun reinsert_all :: "usize \<Rightarrow> pos option list \<Rightarrow> pos option list \<Rightarrow> pos option list option" where
  "reinsert_all msk [] ps = Some ps"
| "reinsert_all msk (p # old) ps =
     (case reinsert_entry_in_order msk p ps of None \<Rightarrow> None | Some ps \<Rightarrow> reinsert_all msk old ps)"

definition table_grow :: "nat \<Rightarrow> enc_table \<Rightarrow> enc_table option" where
  "table_grow new_raw_cap t =
    (let first_ideal = find_ideal (et_mask t) (et_indices t) 0;
         old = et_indices t;
         msk = of_nat new_raw_cap - 1
     in map_option (\<lambda>ps. t\<lparr>et_mask := msk, et_indices := ps\<rparr>)
          (reinsert_all msk (drop first_ideal old @ take first_ideal old) (replicate new_raw_cap None)))"

definition reserve_one :: "enc_table \<Rightarrow> enc_table option" where
  "reserve_one t =
    (let len = length (et_slots t) in
     if len = et_capacity t
     then (if len = 0 then Some (t\<lparr>et_mask := 8 - 1, et_indices := replicate 8 None\<rparr>)
           else table_grow (length (et_indices t) * 2) t)
     else Some t)"

section \<open>Eviction\<close>

fun shift_back :: "nat \<Rightarrow> usize \<Rightarrow> nat \<Rightarrow> nat \<Rightarrow> pos option list \<Rightarrow> pos option list option" where
  "shift_back 0 msk last_probe probe ps = None"
| "shift_back (Suc fuel) msk last_probe probe ps =
     (let probe = wrap (length ps) probe in
      if probe \<ge> length ps then None
      else case ps ! probe of
        None \<Rightarrow> Some ps
      | Some p \<Rightarrow>
          if probe_distance msk (pos_hash p) probe > 0
          then shift_back fuel msk probe (probe + 1) (ps[last_probe := Some p, probe := None])
          else Some ps)"

definition remove_phase_two :: "usize \<Rightarrow> nat \<Rightarrow> pos option list \<Rightarrow> pos option list option" where
  "remove_phase_two msk probe ps = shift_back (length ps + 1) msk probe (probe + 1) ps"

text \<open>The loop that looks for the position of the evicted entry: \<open>unwrap\<close> panics on an empty cell.\<close>

fun evict_loop ::
  "nat \<Rightarrow> usize \<Rightarrow> usize \<Rightarrow> usize option \<Rightarrow> usize option \<Rightarrow> usize \<Rightarrow> nat \<Rightarrow> pos option list \<Rightarrow> pos option list option" where
  "evict_loop 0 msk pos_idx nxt prev_idx inserted probe ps = None"
| "evict_loop (Suc fuel) msk pos_idx nxt prev_idx inserted probe ps =
     (let probe = wrap (length ps) probe in
      if probe \<ge> length ps then None
      else case ps ! probe of
        None \<Rightarrow> None
      | Some p \<Rightarrow>
          if pos_index p = pos_idx
          then (case nxt of
                  Some idx \<Rightarrow> Some (ps[probe := Some (p\<lparr>pos_index := idx\<rparr>)])
                | None \<Rightarrow>
                    if Some (pos_index p) = prev_idx
                    then Some (ps[probe := Some (p\<lparr>pos_index := 0 - (inserted + 1)\<rparr>)])
                    else remove_phase_two msk probe (ps[probe := None]))
          else evict_loop fuel msk pos_idx nxt prev_idx inserted (probe + 1) ps)"

definition evict :: "usize option \<Rightarrow> enc_table \<Rightarrow> enc_table option" where
  "evict prev_idx t =
    (if et_slots t = [] then None
     else let pos_idx = of_nat (length (et_slots t) - 1) - et_inserted t;
              slot = last (et_slots t) in
       if et_size t < header_len (es_header slot) then None
       else map_option (\<lambda>ps. t\<lparr>et_slots := butlast (et_slots t), et_size := et_size t - header_len (es_header slot),
                              et_indices := ps\<rparr>)
         (evict_loop (length (et_indices t)) (et_mask t) pos_idx (es_next slot) prev_idx (et_inserted t)
           (desired_pos (et_mask t) (es_hash slot)) (et_indices t)))"

fun converge_loop :: "nat \<Rightarrow> usize option \<Rightarrow> bool \<Rightarrow> enc_table \<Rightarrow> (bool \<times> enc_table) option" where
  "converge_loop 0 prev_idx ret t = None"
| "converge_loop (Suc fuel) prev_idx ret t =
     (if et_size t > et_max_size t
      then (case evict prev_idx t of None \<Rightarrow> None | Some t \<Rightarrow> converge_loop fuel prev_idx True t)
      else Some (ret, t))"

definition converge :: "usize option \<Rightarrow> enc_table \<Rightarrow> (bool \<times> enc_table) option" where
  "converge prev_idx t = converge_loop (length (et_slots t) + 1) prev_idx False t"

definition update_size :: "nat \<Rightarrow> usize option \<Rightarrow> enc_table \<Rightarrow> (bool \<times> enc_table) option" where
  "update_size len prev_idx t = converge prev_idx (t\<lparr>et_size := et_size t + len\<rparr>)"

definition table_resize :: "nat \<Rightarrow> enc_table \<Rightarrow> enc_table option" where
  "table_resize sz t =
    (let t = t\<lparr>et_max_size := sz\<rparr> in
     if sz = 0
     then Some (t\<lparr>et_size := 0, et_indices := replicate (length (et_indices t)) None, et_slots := [], et_inserted := 0\<rparr>)
     else map_option snd (converge None t))"

section \<open>Insertion\<close>

definition table_insert :: "bytes header \<Rightarrow> usize \<Rightarrow> enc_table \<Rightarrow> enc_table" where
  "table_insert h hash t =
    t\<lparr>et_inserted := et_inserted t + 1,
      et_slots := \<lparr>es_hash = hash, es_header = h, es_next = None\<rparr> # et_slots t\<rparr>"

text \<open>The second loop of \<open>index_vacant\<close>: the displaced positions move one cell on.\<close>

fun shift_forward :: "nat \<Rightarrow> pos \<Rightarrow> nat \<Rightarrow> pos option list \<Rightarrow> pos option list option" where
  "shift_forward 0 prev probe ps = None"
| "shift_forward (Suc fuel) prev probe ps =
     (let probe = wrap (length ps) probe in
      if probe \<ge> length ps then None
      else case ps ! probe of
        None \<Rightarrow> Some (ps[probe := Some prev])
      | Some p \<Rightarrow> shift_forward fuel p (probe + 1) (ps[probe := Some prev]))"

text \<open>The first loop: after an eviction the free cell may be nearer to the ideal one. \<open>probe\<close> is in range.\<close>

fun back_up :: "usize \<Rightarrow> pos option list \<Rightarrow> nat \<Rightarrow> nat \<Rightarrow> nat" where
  "back_up msk ps 0 probe = probe"
| "back_up msk ps (Suc dist) probe =
     (let back = unat ((of_nat probe - 1) AND msk) in
      case ps ! back of
        None \<Rightarrow> back_up msk ps dist back
      | Some p \<Rightarrow> if probe_distance msk (pos_hash p) back < dist then back_up msk ps dist back else probe)"

definition index_vacant ::
  "bytes header \<Rightarrow> usize \<Rightarrow> nat \<Rightarrow> nat \<Rightarrow> (nat \<times> bool) option \<Rightarrow> enc_table \<Rightarrow> (index \<times> enc_table) option" where
  "index_vacant h hash dist probe statik t =
    (if is_sensitive h then Some (index_new statik h, t)
     else case update_size (header_len h) None t of
       None \<Rightarrow> None
     | Some (evicted, t) \<Rightarrow>
         let probe = (if evicted then back_up (et_mask t) (et_indices t) dist probe else probe);
             t = table_insert h hash t;
             prev = et_indices t ! probe;
             ps = (et_indices t)[probe := Some \<lparr>pos_index = 0 - et_inserted t, pos_hash = hash\<rparr>];
             ix = (case statik of Some (n, _) \<Rightarrow> IxInsertedValue n 0 | None \<Rightarrow> IxInserted 0)
         in if probe \<ge> length (et_indices t) then None
            else case prev of
              None \<Rightarrow> Some (ix, t\<lparr>et_indices := ps\<rparr>)
            | Some prev \<Rightarrow> map_option (\<lambda>ps. (ix, t\<lparr>et_indices := ps\<rparr>)) (shift_forward (length ps) prev (probe + 1) ps))"

text \<open>The chain of the entries with the name: \<open>None\<close> when it does not end. Every round starts at \<open>index\<close>.\<close>

fun index_occupied ::
  "nat \<Rightarrow> bytes header \<Rightarrow> usize \<Rightarrow> usize \<Rightarrow> nat option \<Rightarrow> enc_table \<Rightarrow> (index \<times> enc_table) option" where
  "index_occupied 0 h hash i statik t = None"
| "index_occupied (Suc fuel) h hash i statik t =
     (let real_idx = real_index t i in
      case nth_opt (et_slots t) real_idx of
        None \<Rightarrow> None
      | Some slot \<Rightarrow>
          if value_eq (es_header slot) h then Some (IxIndexed (real_idx + DYN_OFFSET) h, t)
          else case es_next slot of
            Some nxt \<Rightarrow> index_occupied fuel h hash nxt statik t
          | None \<Rightarrow>
              if is_sensitive h then Some (IxName (real_idx + DYN_OFFSET) h, t)
              else case update_size (header_len h) (Some i) t of
                None \<Rightarrow> None
              | Some (_, t) \<Rightarrow>
                  let t = table_insert h hash t;
                      new_real_idx = real_index t i;
                      t = (if new_real_idx < length (et_slots t)
                           then t\<lparr>et_slots := (et_slots t)[new_real_idx :=
                             (et_slots t ! new_real_idx)\<lparr>es_next := Some (0 - et_inserted t)\<rparr>]\<rparr>
                           else t)
                  in Some (case statik of
                       Some n \<Rightarrow> IxInsertedValue n 0
                     | None \<Rightarrow> IxInsertedValue (real_idx + DYN_OFFSET) 0, t))"

text \<open>The probing loop; \<open>dist\<close> counts the cells. After \<open>length indices\<close> cells a smaller distance has been met.\<close>

fun index_probe ::
  "nat \<Rightarrow> bytes header \<Rightarrow> usize \<Rightarrow> nat \<Rightarrow> nat \<Rightarrow> (nat \<times> bool) option \<Rightarrow> enc_table \<Rightarrow> (index \<times> enc_table) option" where
  "index_probe 0 h hash dist probe statik t = None"
| "index_probe (Suc fuel) h hash dist probe statik t =
     (let probe = wrap (length (et_indices t)) probe in
      case et_indices t ! probe of
        None \<Rightarrow> index_vacant h hash dist probe statik t
      | Some p \<Rightarrow>
          if probe_distance (et_mask t) (pos_hash p) probe < dist then index_vacant h hash dist probe statik t
          else if pos_hash p = hash
          then (case nth_opt (et_slots t) (real_index t (pos_index p)) of
                  None \<Rightarrow> None
                | Some slot \<Rightarrow>
                    if header_name (es_header slot) = header_name h
                    then index_occupied (length (et_slots t)) h hash (pos_index p) (map_option fst statik) t
                    else index_probe fuel h hash (dist + 1) (probe + 1) statik t)
          else index_probe fuel h hash (dist + 1) (probe + 1) statik t)"

definition index_dynamic ::
  "(name \<Rightarrow> u64) \<Rightarrow> bytes header \<Rightarrow> (nat \<times> bool) option \<Rightarrow> enc_table \<Rightarrow> (index \<times> enc_table) option" where
  "index_dynamic fnv h statik t =
    (case (if header_len h + et_size t < et_max_size t \<or> \<not> is_sensitive h then reserve_one t else Some t) of
       None \<Rightarrow> None
     | Some t \<Rightarrow>
         if et_indices t = [] then Some (index_new statik h, t)
         else let hash = hash_header fnv h in
           index_probe (length (et_indices t) + 1) h hash 0 (desired_pos (et_mask t) hash) statik t)"

definition table_index :: "(name \<Rightarrow> u64) \<Rightarrow> bytes header \<Rightarrow> enc_table \<Rightarrow> (index \<times> enc_table) option" where
  "table_index fnv h t =
    (let statik = index_static h in
     if skip_value_index h
     then (if statik = None then None else Some (index_new statik h, t))
     else case statik of
       Some (n, True) \<Rightarrow> Some (IxIndexed n h, t)
     | _ \<Rightarrow>
         if header_len h * 4 > et_max_size t * 3 then Some (index_new statik h, t)
         else index_dynamic fnv h statik t)"

end
