(* ===== verification/Hpack_Encoder.thy ===== *)
theory Hpack_Encoder
  imports Hpack_Enc_Table Hpack_Int Huffman_Encode
begin

text \<open>
  The HPACK encoder (\<open>src/hpack/encoder.rs\<close>): queued size updates, representations, strings, and the header blocks with
  fields that have no name of their own. The destination is a list of bytes that grows at its end.
  The reusable buffer \<open>scratch\<close> is kept because \<open>take_scratch\<close> and \<open>return_scratch\<close> move it.
\<close>

datatype size_update = SizeOne nat | SizeTwo nat nat

record encoder =
  enc_table :: enc_table
  enc_max_allowed_size :: nat
  enc_size_update :: "size_update option"
  enc_scratch :: bytes

definition DEFAULT_MAX_ALLOWED_SIZE :: nat where "DEFAULT_MAX_ALLOWED_SIZE = 4 * 1024"

definition encoder_new :: "nat \<Rightarrow> nat \<Rightarrow> encoder" where
  "encoder_new max_size capacity =
    \<lparr>enc_table = enc_table_new (min max_size DEFAULT_MAX_ALLOWED_SIZE) capacity,
     enc_max_allowed_size = DEFAULT_MAX_ALLOWED_SIZE, enc_size_update = None, enc_scratch = []\<rparr>"

definition encoder_default :: encoder where
  "encoder_default = encoder_new 4096 0"

definition take_scratch :: "encoder \<Rightarrow> bytes \<times> encoder" where
  "take_scratch e = (enc_scratch e, e\<lparr>enc_scratch := []\<rparr>)"

definition return_scratch :: "bytes \<Rightarrow> encoder \<Rightarrow> encoder" where
  "return_scratch b e = e\<lparr>enc_scratch := b\<rparr>"

definition update_max_size :: "nat \<Rightarrow> encoder \<Rightarrow> encoder" where
  "update_max_size val e =
    (let val = min val (enc_max_allowed_size e) in
     case enc_size_update e of
       Some (SizeOne old) \<Rightarrow>
         if val > old
         then (if old > et_max_size (enc_table e) then e\<lparr>enc_size_update := Some (SizeOne val)\<rparr>
               else e\<lparr>enc_size_update := Some (SizeTwo old val)\<rparr>)
         else e\<lparr>enc_size_update := Some (SizeOne val)\<rparr>
     | Some (SizeTwo mn _) \<Rightarrow>
         if val < mn then e\<lparr>enc_size_update := Some (SizeOne val)\<rparr>
         else e\<lparr>enc_size_update := Some (SizeTwo mn val)\<rparr>
     | None \<Rightarrow>
         if val \<noteq> et_max_size (enc_table e) then e\<lparr>enc_size_update := Some (SizeOne val)\<rparr> else e)"

section \<open>Strings\<close>

definition encode_size_update :: "nat \<Rightarrow> bytes \<Rightarrow> bytes" where
  "encode_size_update val dst = encode_int val 5 0x20 dst"

text \<open>The bytes of the string are moved from the last to the first.\<close>

fun move_bytes :: "nat \<Rightarrow> nat \<Rightarrow> nat \<Rightarrow> nat \<Rightarrow> bytes \<Rightarrow> bytes" where
  "move_bytes idx head_len huff_len 0 dst = dst"
| "move_bytes idx head_len huff_len (Suc n) dst =
     (let i = huff_len - Suc n;
          src_i = idx + 1 + (huff_len - (i + 1));
          dst_i = idx + head_len + (huff_len - (i + 1))
      in move_bytes idx head_len huff_len n (dst[dst_i := dst ! src_i]))"

fun copy_bytes :: "nat \<Rightarrow> bytes \<Rightarrow> bytes \<Rightarrow> bytes" where
  "copy_bytes idx [] dst = dst"
| "copy_bytes idx (b # bs) dst = copy_bytes (idx + 1) bs (dst[idx := b])"

text \<open>\<open>huffman::encode\<close> may panic (it does not, \<open>huffman_roundtrip\<close>); a head of more than eight bytes would not fit in the
  placeholder. Neither the moves nor the copies are out of range.\<close>

definition PLACEHOLDER_LEN :: nat where "PLACEHOLDER_LEN = 8"

definition encode_str :: "bytes \<Rightarrow> bytes \<Rightarrow> bytes option" where
  "encode_str val dst =
    (if val \<noteq> []
     then let idx = length dst in
       (case huff_encode val (dst @ [0]) of
          None \<Rightarrow> None
        | Some dst \<Rightarrow>
            let huff_len = length dst - (idx + 1) in
            if encode_int_one_byte huff_len 7
            then Some (dst[idx := 0x80 OR of_nat huff_len])
            else let buf = encode_int huff_len 7 0x80 []; head_len = length buf in
              if head_len > PLACEHOLDER_LEN then None
              else Some (copy_bytes idx buf (move_bytes idx head_len huff_len huff_len (dst @ drop 1 buf))))
     else Some (dst @ [0]))"

definition encode_not_indexed :: "nat \<Rightarrow> bytes \<Rightarrow> bool \<Rightarrow> bytes \<Rightarrow> bytes option" where
  "encode_not_indexed name val sensitive dst =
    (let dst = (if sensitive then encode_int name 4 0x10 dst else encode_int name 4 0 dst)
     in encode_str val dst)"

definition encode_not_indexed2 :: "bytes \<Rightarrow> bytes \<Rightarrow> bool \<Rightarrow> bytes \<Rightarrow> bytes option" where
  "encode_not_indexed2 name val sensitive dst =
    (let dst = (if sensitive then dst @ [0x10] else dst @ [0])
     in case encode_str name dst of None \<Rightarrow> None | Some dst \<Rightarrow> encode_str val dst)"

section \<open>Headers\<close>

definition encode_header :: "enc_table \<Rightarrow> index \<Rightarrow> bytes \<Rightarrow> bytes option" where
  "encode_header t ix dst =
    (case ix of
       IxIndexed i _ \<Rightarrow> Some (encode_int i 7 0x80 dst)
     | IxName i _ \<Rightarrow>
         (case table_resolve t ix of
            None \<Rightarrow> None
          | Some h \<Rightarrow> encode_not_indexed i (value_slice h) (is_sensitive h) dst)
     | IxInserted _ \<Rightarrow>
         (case table_resolve t ix of
            None \<Rightarrow> None
          | Some h \<Rightarrow>
              if is_sensitive h then None
              else (case encode_str (name_as_slice (header_name h)) (dst @ [0x40]) of
                      None \<Rightarrow> None
                    | Some dst \<Rightarrow> encode_str (value_slice h) dst))
     | IxInsertedValue i _ \<Rightarrow>
         (case table_resolve t ix of
            None \<Rightarrow> None
          | Some h \<Rightarrow>
              if is_sensitive h then None
              else encode_str (value_slice h) (encode_int i 6 0x40 dst))
     | IxNotIndexed _ \<Rightarrow>
         (case table_resolve t ix of
            None \<Rightarrow> None
          | Some h \<Rightarrow> encode_not_indexed2 (name_as_slice (header_name h)) (value_slice h) (is_sensitive h) dst))"

definition encode_header_without_name :: "enc_table \<Rightarrow> index \<Rightarrow> header_value \<Rightarrow> bytes \<Rightarrow> bytes option" where
  "encode_header_without_name t lst v dst =
    (case lst of
       IxNotIndexed _ \<Rightarrow>
         (case table_resolve t lst of
            None \<Rightarrow> None
          | Some h \<Rightarrow> encode_not_indexed2 (name_as_slice (header_name h)) (hv_bytes v) (hv_sensitive v) dst)
     | _ \<Rightarrow>
         (case table_resolve_idx lst of
            None \<Rightarrow> None
          | Some i \<Rightarrow> encode_not_indexed i (hv_bytes v) (hv_sensitive v) dst))"

definition encode_size_updates :: "encoder \<Rightarrow> bytes \<Rightarrow> (encoder \<times> bytes) option" where
  "encode_size_updates e dst =
    (let u = enc_size_update e; e = e\<lparr>enc_size_update := None\<rparr> in
     case u of
       Some (SizeOne val) \<Rightarrow>
         map_option (\<lambda>t. (e\<lparr>enc_table := t\<rparr>, encode_size_update val dst)) (table_resize val (enc_table e))
     | Some (SizeTwo mn mx) \<Rightarrow>
         (case table_resize mn (enc_table e) of
            None \<Rightarrow> None
          | Some t \<Rightarrow>
              map_option (\<lambda>t. (e\<lparr>enc_table := t\<rparr>, encode_size_update mx (encode_size_update mn dst))) (table_resize mx t))
     | None \<Rightarrow> Some (e, dst))"

text \<open>The loop of \<open>encode\<close> over the items of the iterator; \<open>reify\<close> gives the value back when there is no name.\<close>

fun encode_headers ::
  "(name \<Rightarrow> u64) \<Rightarrow> bytes option header list \<Rightarrow> index option \<Rightarrow> enc_table \<Rightarrow> bytes \<Rightarrow> (enc_table \<times> bytes) option" where
  "encode_headers fnv [] last_index t dst = Some (t, dst)"
| "encode_headers fnv (h # hs) last_index t dst =
    (case header_reify h of
       Ok h \<Rightarrow>
         (case table_index fnv h t of
            None \<Rightarrow> None
          | Some (ix, t) \<Rightarrow>
              (case encode_header t ix dst of
                 None \<Rightarrow> None
               | Some dst \<Rightarrow> encode_headers fnv hs (Some ix) t dst))
     | Err v \<Rightarrow>
         (case last_index of
            None \<Rightarrow> None
          | Some ix \<Rightarrow>
              (case encode_header_without_name t ix v dst of
                 None \<Rightarrow> None
               | Some dst \<Rightarrow> encode_headers fnv hs last_index t dst))
     | Panic \<Rightarrow> None)"

definition hpack_encode ::
  "(name \<Rightarrow> u64) \<Rightarrow> bytes option header list \<Rightarrow> encoder \<Rightarrow> bytes \<Rightarrow> (encoder \<times> bytes) option" where
  "hpack_encode fnv hs e dst =
    (case encode_size_updates e dst of
       None \<Rightarrow> None
     | Some (e, dst) \<Rightarrow>
         map_option (\<lambda>(t, dst). (e\<lparr>enc_table := t\<rparr>, dst)) (encode_headers fnv hs None (enc_table e) dst))"

end
