(* ===== verification/Frame_Encode.thy ===== *)
theory Frame_Encode
  imports Frame_Headers Hpack_Encoder
begin

text \<open>
  The encoding of header blocks (\<open>src/frame/headers.rs\<close>): the iterator over pseudo headers and fields, HPACK encoding into
  the scratch buffer, and the split into a HEADERS or PUSH_PROMISE frame and CONTINUATION frames. The destination is a \<open>BytesMut\<close> under a
  limit on what may still be written to it, as \<open>Limit<&mut BytesMut>\<close>; writing beyond the limit panics (\<open>None\<close>).
\<close>

section \<open>The iterator\<close>

text \<open>\<open>HeaderMap::into_iter\<close> names the first value of a name only.\<close>

fun fields_into_iter :: "bytes option \<Rightarrow> header_map \<Rightarrow> (bytes option \<times> header_value) list" where
  "fields_into_iter prev [] = []"
| "fields_into_iter prev ((n, v) # m) =
     (if prev = Some n then None else Some n, v) # fields_into_iter (Some n) m"

record block_iter =
  it_pseudo :: "pseudo option"
  it_fields :: "(bytes option \<times> header_value) list"

definition iter_next_field :: "block_iter \<Rightarrow> bytes option header option \<times> block_iter" where
  "iter_next_field it =
    (case it_fields it of
       [] \<Rightarrow> (None, it\<lparr>it_pseudo := None\<rparr>)
     | (n, v) # fs \<Rightarrow> (Some (Field n v), it\<lparr>it_pseudo := None, it_fields := fs\<rparr>))"

definition iter_next :: "block_iter \<Rightarrow> bytes option header option \<times> block_iter" where
  "iter_next it =
    (case it_pseudo it of
       Some p \<Rightarrow>
         (case ps_method p of Some v \<Rightarrow> (Some (Method v), it\<lparr>it_pseudo := Some (p\<lparr>ps_method := None\<rparr>)\<rparr>)
          | None \<Rightarrow>
          case ps_scheme p of Some v \<Rightarrow> (Some (Scheme v), it\<lparr>it_pseudo := Some (p\<lparr>ps_scheme := None\<rparr>)\<rparr>)
          | None \<Rightarrow>
          case ps_authority p of Some v \<Rightarrow> (Some (Authority v), it\<lparr>it_pseudo := Some (p\<lparr>ps_authority := None\<rparr>)\<rparr>)
          | None \<Rightarrow>
          case ps_path p of Some v \<Rightarrow> (Some (Path v), it\<lparr>it_pseudo := Some (p\<lparr>ps_path := None\<rparr>)\<rparr>)
          | None \<Rightarrow>
          case ps_protocol p of Some v \<Rightarrow> (Some (Protocol v), it\<lparr>it_pseudo := Some (p\<lparr>ps_protocol := None\<rparr>)\<rparr>)
          | None \<Rightarrow>
          case ps_status p of Some v \<Rightarrow> (Some (Status v), it\<lparr>it_pseudo := Some (p\<lparr>ps_status := None\<rparr>)\<rparr>)
          | None \<Rightarrow> iter_next_field it)
     | None \<Rightarrow> iter_next_field it)"

fun opt_size :: "'a option \<Rightarrow> nat" where
  "opt_size None = 0"
| "opt_size (Some _) = 1"

definition pseudo_left :: "pseudo \<Rightarrow> nat" where
  "pseudo_left p = opt_size (ps_method p) + opt_size (ps_scheme p) + opt_size (ps_authority p) + opt_size (ps_path p)
     + opt_size (ps_protocol p) + opt_size (ps_status p)"

definition iter_left :: "block_iter \<Rightarrow> nat" where
  "iter_left it = (case it_pseudo it of Some p \<Rightarrow> pseudo_left p | None \<Rightarrow> 0) + length (it_fields it)"

lemma iter_next_field_left: "iter_next_field it = (Some h, it') \<Longrightarrow> iter_left it' < Suc (length (it_fields it)) \<and> it_fields it \<noteq> []"
  by (auto simp: iter_next_field_def iter_left_def split: list.splits prod.splits)

lemma iter_next_left: "iter_next it = (Some h, it') \<Longrightarrow> iter_left it' < iter_left it"
proof -
  have f: "iter_next_field it = (Some h, it') \<Longrightarrow> iter_left it' < iter_left it"
    by (auto simp: iter_next_field_def iter_left_def split: list.splits prod.splits)
  show "iter_next it = (Some h, it') \<Longrightarrow> iter_left it' < iter_left it"
    using f by (auto simp: iter_next_def iter_left_def pseudo_left_def split: option.splits)
qed

function iter_collect :: "block_iter \<Rightarrow> bytes option header list" where
  "iter_collect it = (case iter_next it of (None, _) \<Rightarrow> [] | (Some h, it') \<Rightarrow> h # iter_collect it')"
  by pat_completeness auto
termination by (relation "measure iter_left") (auto dest!: iter_next_left [OF sym])

declare iter_collect.simps [simp del]

text \<open>The headers in the order in which the iterator yields them.\<close>

definition opt_item :: "('a \<Rightarrow> 'b) \<Rightarrow> 'a option \<Rightarrow> 'b list" where
  "opt_item g v = (case v of None \<Rightarrow> [] | Some x \<Rightarrow> [g x])"

definition pseudo_items :: "pseudo \<Rightarrow> bytes option header list" where
  "pseudo_items p = opt_item Method (ps_method p) @ opt_item Scheme (ps_scheme p) @ opt_item Authority (ps_authority p) @
     opt_item Path (ps_path p) @ opt_item Protocol (ps_protocol p) @ opt_item Status (ps_status p)"

lemma iter_collect_fields:
  "iter_collect \<lparr>it_pseudo = None, it_fields = fs\<rparr> = map (\<lambda>(n, v). Field n v) fs"
  by (induction fs) (subst iter_collect.simps, simp add: iter_next_def iter_next_field_def split: prod.split)+

lemma iter_collect_step: "iter_next it = (Some h, it') \<Longrightarrow> iter_collect it = h # iter_collect it'"
  by (subst iter_collect.simps) simp

lemma iter_collect_none:
  "iter_collect \<lparr>it_pseudo = Some \<lparr>ps_method = None, ps_scheme = None, ps_authority = None, ps_path = None, ps_protocol = None, ps_status = None\<rparr>, it_fields = fs\<rparr> = map (\<lambda>(n, v). Field n v) fs"
proof -
  have "iter_next \<lparr>it_pseudo = Some \<lparr>ps_method = None, ps_scheme = None, ps_authority = None, ps_path = None, ps_protocol = None, ps_status = None\<rparr>, it_fields = fs\<rparr> = iter_next \<lparr>it_pseudo = None, it_fields = fs\<rparr>"
    by (simp add: iter_next_def iter_next_field_def split: list.split)
  then have "iter_collect \<lparr>it_pseudo = Some \<lparr>ps_method = None, ps_scheme = None, ps_authority = None, ps_path = None, ps_protocol = None, ps_status = None\<rparr>, it_fields = fs\<rparr> = iter_collect \<lparr>it_pseudo = None, it_fields = fs\<rparr>"
    by (subst (1 2) iter_collect.simps) (simp only:)
  then show ?thesis by (simp add: iter_collect_fields)
qed

lemma iter_collect_ps_status:
  "iter_collect \<lparr>it_pseudo = Some \<lparr>ps_method = None, ps_scheme = None, ps_authority = None, ps_path = None, ps_protocol = None, ps_status = st\<rparr>, it_fields = fs\<rparr> =
    opt_item Status st @ map (\<lambda>(n, v). Field n v) fs"
proof (cases st)
  case (Some v)
  show ?thesis unfolding Some by (subst iter_collect.simps) (simp add: iter_next_def opt_item_def iter_collect_none)
qed (simp add: opt_item_def iter_collect_none)

lemma iter_collect_ps_protocol:
  "iter_collect \<lparr>it_pseudo = Some \<lparr>ps_method = None, ps_scheme = None, ps_authority = None, ps_path = None, ps_protocol = pr, ps_status = st\<rparr>, it_fields = fs\<rparr> =
    opt_item Protocol pr @ opt_item Status st @ map (\<lambda>(n, v). Field n v) fs"
proof (cases pr)
  case (Some v)
  show ?thesis unfolding Some by (subst iter_collect.simps) (simp add: iter_next_def opt_item_def iter_collect_ps_status)
qed (simp add: opt_item_def iter_collect_ps_status)

lemma iter_collect_ps_path:
  "iter_collect \<lparr>it_pseudo = Some \<lparr>ps_method = None, ps_scheme = None, ps_authority = None, ps_path = pa, ps_protocol = pr, ps_status = st\<rparr>, it_fields = fs\<rparr> =
    opt_item Path pa @ opt_item Protocol pr @ opt_item Status st @ map (\<lambda>(n, v). Field n v) fs"
proof (cases pa)
  case (Some v)
  show ?thesis unfolding Some by (subst iter_collect.simps) (simp add: iter_next_def opt_item_def iter_collect_ps_protocol)
qed (simp add: opt_item_def iter_collect_ps_protocol)

lemma iter_collect_ps_authority:
  "iter_collect \<lparr>it_pseudo = Some \<lparr>ps_method = None, ps_scheme = None, ps_authority = a, ps_path = pa, ps_protocol = pr, ps_status = st\<rparr>, it_fields = fs\<rparr> =
    opt_item Authority a @ opt_item Path pa @ opt_item Protocol pr @ opt_item Status st @ map (\<lambda>(n, v). Field n v) fs"
proof (cases a)
  case (Some v)
  show ?thesis unfolding Some by (subst iter_collect.simps) (simp add: iter_next_def opt_item_def iter_collect_ps_path)
qed (simp add: opt_item_def iter_collect_ps_path)

lemma iter_collect_ps_scheme:
  "iter_collect \<lparr>it_pseudo = Some \<lparr>ps_method = None, ps_scheme = s, ps_authority = a, ps_path = pa, ps_protocol = pr, ps_status = st\<rparr>, it_fields = fs\<rparr> =
    opt_item Scheme s @ opt_item Authority a @ opt_item Path pa @ opt_item Protocol pr @ opt_item Status st @ map (\<lambda>(n, v). Field n v) fs"
proof (cases s)
  case (Some v)
  show ?thesis unfolding Some by (subst iter_collect.simps) (simp add: iter_next_def opt_item_def iter_collect_ps_authority)
qed (simp add: opt_item_def iter_collect_ps_authority)

lemma iter_collect_ps_method:
  "iter_collect \<lparr>it_pseudo = Some \<lparr>ps_method = m, ps_scheme = s, ps_authority = a, ps_path = pa, ps_protocol = pr, ps_status = st\<rparr>, it_fields = fs\<rparr> =
    opt_item Method m @ opt_item Scheme s @ opt_item Authority a @ opt_item Path pa @ opt_item Protocol pr @ opt_item Status st @ map (\<lambda>(n, v). Field n v) fs"
proof (cases m)
  case (Some v)
  show ?thesis unfolding Some by (subst iter_collect.simps) (simp add: iter_next_def opt_item_def iter_collect_ps_scheme)
qed (simp add: opt_item_def iter_collect_ps_scheme)

lemma iter_collect_items:
  "iter_collect \<lparr>it_pseudo = Some p, it_fields = fs\<rparr> = pseudo_items p @ map (\<lambda>(n, v). Field n v) fs"
  by (cases p) (simp add: iter_collect_ps_method pseudo_items_def)

section \<open>Limited buffers\<close>

record limit_buf =
  lb_buf :: bytes
  lb_limit :: nat

definition lb_put :: "bytes \<Rightarrow> limit_buf \<Rightarrow> limit_buf option" where
  "lb_put bs dst =
    (if length bs \<le> lb_limit dst then Some \<lparr>lb_buf = lb_buf dst @ bs, lb_limit = lb_limit dst - length bs\<rparr> else None)"

section \<open>The split\<close>

record continuation =
  cn_stream_id :: stream_id
  cn_hpack :: bytes

text \<open>\<open>EncodingHeaderBlock::encode\<close>; \<open>extra\<close> is what the closure writes. The length is written into the head afterwards, and the
  END_HEADERS flag is taken out of it when a continuation is left. The third result says that the buffer may be reused.\<close>

definition set_frame_length :: "nat \<Rightarrow> nat \<Rightarrow> bytes \<Rightarrow> bytes option" where
  "set_frame_length head_pos payload_len dst =
    (if payload_len < 2 ^ 24
     then Some (take head_pos dst @ put_uint3 payload_len @ drop (head_pos + 3) dst)
     else None)"

definition encode_block :: "head \<Rightarrow> bytes \<Rightarrow> bytes \<Rightarrow> limit_buf \<Rightarrow> (limit_buf \<times> continuation option) option" where
  "encode_block head extra hpack dst =
    (let head_pos = length (lb_buf dst) in
     case lb_put (head_encode head 0 []) dst of
       None \<Rightarrow> None
     | Some dst \<Rightarrow>
         let payload_pos = length (lb_buf dst) in
         (case lb_put extra dst of
            None \<Rightarrow> None
          | Some dst \<Rightarrow>
              let (part, cont) =
                (if length hpack > lb_limit dst
                 then (take (lb_limit dst) hpack,
                       Some \<lparr>cn_stream_id = hd_stream_id head, cn_hpack = drop (lb_limit dst) hpack\<rparr>)
                 else (hpack, None)) in
              (case lb_put part dst of
                 None \<Rightarrow> None
               | Some dst \<Rightarrow>
                   (case set_frame_length head_pos (length (lb_buf dst) - payload_pos) (lb_buf dst) of
                      None \<Rightarrow> None
                    | Some buf \<Rightarrow>
                        if cont \<noteq> None
                        then (if buf ! (head_pos + 4) AND HF_END_HEADERS \<noteq> HF_END_HEADERS then None
                              else Some (dst\<lparr>lb_buf := buf[head_pos + 4 := buf ! (head_pos + 4) - HF_END_HEADERS]\<rparr>, cont))
                        else Some (dst\<lparr>lb_buf := buf\<rparr>, None)))))"

definition continuation_head :: "continuation \<Rightarrow> head" where
  "continuation_head c = head_new KindContinuation HF_END_HEADERS (cn_stream_id c)"

definition continuation_encode :: "continuation \<Rightarrow> limit_buf \<Rightarrow> (limit_buf \<times> continuation option) option" where
  "continuation_encode c dst = encode_block (continuation_head c) [] (cn_hpack c) dst"

section \<open>Frames\<close>

definition into_encoding :: "(name \<Rightarrow> u64) \<Rightarrow> header_block \<Rightarrow> encoder \<Rightarrow> (bytes \<times> encoder) option" where
  "into_encoding fnv b e =
    (let (scratch, e) = take_scratch e;
         headers = iter_collect \<lparr>it_pseudo = Some (hb_pseudo b), it_fields = fields_into_iter None (hb_fields b)\<rparr>
     in map_option (\<lambda>(e, hpack). (hpack, e)) (hpack_encode fnv headers e []))"

text \<open>A block that is written completely gives its buffer back.\<close>

definition encode_header_block ::
  "(name \<Rightarrow> u64) \<Rightarrow> head \<Rightarrow> bytes \<Rightarrow> header_block \<Rightarrow> encoder \<Rightarrow> limit_buf \<Rightarrow>
     (limit_buf \<times> continuation option \<times> encoder) option" where
  "encode_header_block fnv head extra b e dst =
    (case into_encoding fnv b e of
       None \<Rightarrow> None
     | Some (hpack, e) \<Rightarrow>
         map_option (\<lambda>(dst, cont). (dst, cont, if cont = None then return_scratch hpack e else e))
           (encode_block head extra hpack dst))"

definition headers_encode ::
  "(name \<Rightarrow> u64) \<Rightarrow> headers_frame \<Rightarrow> encoder \<Rightarrow> limit_buf \<Rightarrow> (limit_buf \<times> continuation option \<times> encoder) option" where
  "headers_encode fnv f e dst =
    (if \<not> hf_is_end_headers (hf_flags f) then None
     else encode_header_block fnv (headers_head f) [] (hf_block f) e dst)"

definition push_promise_encode ::
  "(name \<Rightarrow> u64) \<Rightarrow> push_promise \<Rightarrow> encoder \<Rightarrow> limit_buf \<Rightarrow> (limit_buf \<times> continuation option \<times> encoder) option" where
  "push_promise_encode fnv f e dst =
    (if \<not> pp_is_end_headers (pp_flags f) then None
     else encode_header_block fnv (push_promise_head f) (put_u32 (sid_val (pp_promised_id f))) (pp_block f) e dst)"

section \<open>What is written\<close>

text \<open>A frame as it is on the wire.\<close>

definition wire_frame :: "head \<Rightarrow> bytes \<Rightarrow> bytes" where
  "wire_frame h payload = head_encode h (length payload) [] @ payload"

definition clear_end_headers :: "head \<Rightarrow> head" where
  "clear_end_headers h = h\<lparr>hd_flag := hd_flag h - HF_END_HEADERS\<rparr>"

lemma head_bytes: "\<exists>a b c. head_encode h n [] = put_uint3 n @ [kind_as_u8 (hd_kind h), hd_flag h] @ put_u32 (sid_val (hd_stream_id h))"
  by (simp add: head_encode_def)

lemma set_frame_length_wire:
  assumes "n < 2 ^ 24"
  shows "set_frame_length (length d) n (d @ head_encode h 0 [] @ p) = Some (d @ head_encode h n [] @ p)"
proof -
  have "length (put_uint3 0) = 3" by (simp add: put_uint3_def Let_def)
  then show ?thesis using assms by (simp add: set_frame_length_def head_encode_def)
qed

lemma wire_flag:
  "(d @ head_encode h n [] @ p) ! (length d + 4) = hd_flag h"
  "(d @ head_encode h n [] @ p)[length d + 4 := f] = d @ head_encode (h\<lparr>hd_flag := f\<rparr>) n [] @ p"
proof -
  obtain a b c where "put_uint3 n = [a, b, c]" using put_uint3_Cons by blast
  then show "(d @ head_encode h n [] @ p) ! (length d + 4) = hd_flag h"
    "(d @ head_encode h n [] @ p)[length d + 4 := f] = d @ head_encode (h\<lparr>hd_flag := f\<rparr>) n [] @ p"
    by (simp_all add: head_encode_def nth_append list_update_append)
qed

lemma encode_block_spec:
  assumes "HEADER_LEN + length extra \<le> lim" "lim < 2 ^ 24 + HEADER_LEN" "hd_flag h AND HF_END_HEADERS = HF_END_HEADERS"
  shows "encode_block h extra hpack \<lparr>lb_buf = d, lb_limit = lim\<rparr> =
    (let room = lim - HEADER_LEN - length extra in
     if length hpack > room
     then Some (\<lparr>lb_buf = d @ wire_frame (clear_end_headers h) (extra @ take room hpack), lb_limit = 0\<rparr>,
       Some \<lparr>cn_stream_id = hd_stream_id h, cn_hpack = drop room hpack\<rparr>)
     else Some (\<lparr>lb_buf = d @ wire_frame h (extra @ hpack), lb_limit = room - length hpack\<rparr>, None))"
proof -
  obtain room where lim: "lim = HEADER_LEN + (length extra + room)"
    using assms(1) by (metis add.assoc le_iff_add)
  have p1: "lb_put (head_encode h 0 []) \<lparr>lb_buf = d, lb_limit = HEADER_LEN + (length extra + room)\<rparr> =
      Some \<lparr>lb_buf = d @ head_encode h 0 [], lb_limit = length extra + room\<rparr>"
    by (simp add: lb_put_def)
  have p2: "lb_put extra \<lparr>lb_buf = d @ head_encode h 0 [], lb_limit = length extra + room\<rparr> =
      Some \<lparr>lb_buf = d @ head_encode h 0 [] @ extra, lb_limit = room\<rparr>"
    by (simp add: lb_put_def)
  have fl: "set_frame_length (length d) (length (extra @ q)) (d @ head_encode h 0 [] @ extra @ q) =
      Some (d @ head_encode h (length (extra @ q)) [] @ extra @ q)" if "length q \<le> room" for q
    using set_frame_length_wire [of "length (extra @ q)" d h "extra @ q"] that assms(2) by (simp add: lim)
  show ?thesis
  proof (cases "length hpack > room")
    case True
    have p3: "lb_put (take room hpack) \<lparr>lb_buf = d @ head_encode h 0 [] @ extra, lb_limit = room\<rparr> =
        Some \<lparr>lb_buf = d @ head_encode h 0 [] @ extra @ take room hpack, lb_limit = 0\<rparr>"
      using True by (simp add: lb_put_def)
    show ?thesis
      using True fl [of "take room hpack"] assms(3)
        wire_flag [of d h "length extra + room" "extra @ take room hpack"]
      by (simp add: encode_block_def p1 p2 p3 Let_def wire_frame_def clear_end_headers_def lim)
  next
    case False
    have p3: "lb_put hpack \<lparr>lb_buf = d @ head_encode h 0 [] @ extra, lb_limit = room\<rparr> =
        Some \<lparr>lb_buf = d @ head_encode h 0 [] @ extra @ hpack, lb_limit = room - length hpack\<rparr>"
      using False by (simp add: lb_put_def)
    show ?thesis
      using False fl [of hpack] by (simp add: encode_block_def p1 p2 p3 Let_def wire_frame_def lim)
  qed
qed

text \<open>A block with all its continuations, each written into an empty buffer with the limit; at least one byte of the block goes into
  every frame, so that its length is fuel enough.\<close>

fun write_block :: "nat \<Rightarrow> nat \<Rightarrow> head \<Rightarrow> bytes \<Rightarrow> bytes \<Rightarrow> bytes list option" where
  "write_block 0 lim h extra hpack = None"
| "write_block (Suc fuel) lim h extra hpack =
     (case encode_block h extra hpack \<lparr>lb_buf = [], lb_limit = lim\<rparr> of
        None \<Rightarrow> None
      | Some (dst, None) \<Rightarrow> Some [lb_buf dst]
      | Some (dst, Some c) \<Rightarrow> map_option ((#) (lb_buf dst)) (write_block fuel lim (continuation_head c) [] (cn_hpack c)))"

declare write_block.simps [simp del]

fun frames_of :: "head \<Rightarrow> bytes \<Rightarrow> bytes list \<Rightarrow> bytes list" where
  "frames_of h extra [] = []"
| "frames_of h extra [p] = [wire_frame h (extra @ p)]"
| "frames_of h extra (p # q # ps) =
     wire_frame (clear_end_headers h) (extra @ p) # frames_of (head_new KindContinuation HF_END_HEADERS (hd_stream_id h)) [] (q # ps)"

lemma write_block_frames:
  "length hpack < fuel \<Longrightarrow> HEADER_LEN + length extra < lim \<Longrightarrow> lim < 2 ^ 24 + HEADER_LEN \<Longrightarrow>
    hd_flag h AND HF_END_HEADERS = HF_END_HEADERS \<Longrightarrow>
    \<exists>p ps. write_block fuel lim h extra hpack = Some (frames_of h extra (p # ps)) \<and> concat (p # ps) = hpack \<and>
      (\<forall>q \<in> set ps. length q \<le> lim - HEADER_LEN) \<and> length (extra @ p) \<le> lim - HEADER_LEN"
proof (induction fuel arbitrary: h extra hpack)
  case (Suc fuel)
  let ?room = "lim - HEADER_LEN - length extra"
  note e = encode_block_spec [where d = "[]", OF less_imp_le [OF Suc.prems(2)] Suc.prems(3,4), unfolded Let_def append_Nil]
  show ?case
  proof (cases "length hpack > ?room")
    case False
    then have "write_block (Suc fuel) lim h extra hpack = Some (frames_of h extra [hpack])"
      by (simp only: write_block.simps e if_False option.case prod.case limit_buf.simps frames_of.simps)
    moreover have "length (extra @ hpack) \<le> lim - HEADER_LEN" using False Suc.prems(2) by simp
    ultimately show ?thesis by (intro exI [of _ hpack] exI [of _ "[]"]) simp
  next
    case True
    let ?c = "\<lparr>cn_stream_id = hd_stream_id h, cn_hpack = drop ?room hpack\<rparr>"
    have room: "0 < ?room" using Suc.prems(2) by simp
    then have "length (cn_hpack ?c) < fuel" using True Suc.prems(1) by (simp add: HEADER_LEN_def)
    moreover have "HEADER_LEN + length ([] :: bytes) < lim" using Suc.prems(2) by simp
    moreover have "hd_flag (continuation_head ?c) AND HF_END_HEADERS = HF_END_HEADERS"
      by (simp add: continuation_head_def)
    ultimately obtain p ps where
      w: "write_block fuel lim (continuation_head ?c) [] (cn_hpack ?c) = Some (frames_of (continuation_head ?c) [] (p # ps))"
      and c: "concat (p # ps) = cn_hpack ?c" and l: "\<forall>q \<in> set ps. length q \<le> lim - HEADER_LEN" "length p \<le> lim - HEADER_LEN"
      using Suc.IH [OF _ _ Suc.prems(3)] by (metis append_Nil)
    have "write_block (Suc fuel) lim h extra hpack = Some (frames_of h extra (take ?room hpack # p # ps))"
      using w by (simp only: write_block.simps e True if_True option.case prod.case limit_buf.simps option.map frames_of.simps)
        (simp only: continuation_head_def continuation.simps)
    moreover have "concat (take ?room hpack # p # ps) = hpack" using c by simp
    moreover have "length (extra @ take ?room hpack) \<le> lim - HEADER_LEN" using Suc.prems(2) by simp
    ultimately show ?thesis using l by (metis set_ConsD)
  qed
qed simp

text \<open>C38: A header block of any length is written as one HEADERS or PUSH_PROMISE frame and CONTINUATION frames without panic: the
  parts in the frames make up the block in order, no payload is larger than the limit allows, the length
  fields are right, and only the last frame has the END_HEADERS flag.\<close>

theorem header_block_frames:
  assumes "HEADER_LEN + length extra < lim" "lim < 2 ^ 24 + HEADER_LEN" "hd_flag h AND HF_END_HEADERS = HF_END_HEADERS"
  shows "\<exists>p ps. write_block (length hpack + 1) lim h extra hpack = Some (frames_of h extra (p # ps)) \<and>
    concat (p # ps) = hpack \<and> (\<forall>q \<in> set ps. length q \<le> lim - HEADER_LEN) \<and> length (extra @ p) \<le> lim - HEADER_LEN"
  by (rule write_block_frames [OF _ assms]) simp

lemma header_block_frames_witness:
  "\<exists>p ps. write_block (length [1, 2, 3 :: u8] + 1) 11 (head_new KindHeaders 4 (StreamId 1)) [] [1, 2, 3] =
     Some (frames_of (head_new KindHeaders 4 (StreamId 1)) [] (p # ps)) \<and> concat (p # ps) = [1, 2, 3]"
proof -
  have "\<exists>p ps. write_block (length [1, 2, 3 :: u8] + 1) 11 (head_new KindHeaders 4 (StreamId 1)) [] [1, 2, 3] =
      Some (frames_of (head_new KindHeaders 4 (StreamId 1)) [] (p # ps)) \<and> concat (p # ps) = [1, 2, 3] \<and>
      (\<forall>q \<in> set ps. length q \<le> 11 - HEADER_LEN) \<and> length ([] @ p) \<le> 11 - HEADER_LEN"
    by (rule header_block_frames) (simp_all add: HEADER_LEN_def HF_END_HEADERS_def)
  then show ?thesis by blast
qed

end
