(* ===== verification/Codec_Write.thy ===== *)
theory Codec_Write
  imports Frame_Encode Codec_Read
begin

text \<open>
  Writing frames (\<open>src/codec/framed_write.rs\<close>) and the codec that joins both directions (\<open>src/codec/mod.rs\<close>): the write buffer with
  its cursor, the payload of a large DATA frame and the rest of a header block that wait behind it, flushing to a transport that
  takes as many bytes as it likes.

  The transport is a list of what its writes return; \<open>fw_out\<close> is a ghost field with the bytes it has taken. A DATA frame's payload is
  its bytes. How the capacity of a \<open>BytesMut\<close> grows is the argument \<open>grow\<close>.
\<close>

section \<open>State\<close>

datatype next_frame = NextData "bytes data_frame" | NextContinuation continuation

record framed_write =
  fw_hpack :: encoder
  fw_buf :: bytes
  fw_pos :: nat
  fw_cap :: nat
  fw_next :: "next_frame option"
  fw_last_data_frame :: "bytes data_frame option"
  fw_max_frame_size :: u32
  fw_chain_threshold :: nat
  fw_min_buffer_capacity :: nat
  fw_final_flush_done :: bool
  fw_out :: bytes

definition DEFAULT_BUFFER_CAPACITY :: nat where "DEFAULT_BUFFER_CAPACITY = 16 * 1024"
definition CHAIN_THRESHOLD :: nat where "CHAIN_THRESHOLD = 256"
definition CHAIN_THRESHOLD_WITHOUT_VECTORED_IO :: nat where "CHAIN_THRESHOLD_WITHOUT_VECTORED_IO = 1024"

definition framed_write_new :: "bool \<Rightarrow> framed_write" where
  "framed_write_new is_write_vectored =
    (let chain_threshold = (if is_write_vectored then CHAIN_THRESHOLD else CHAIN_THRESHOLD_WITHOUT_VECTORED_IO) in
     \<lparr>fw_hpack = encoder_default, fw_buf = [], fw_pos = 0, fw_cap = DEFAULT_BUFFER_CAPACITY, fw_next = None,
      fw_last_data_frame = None, fw_max_frame_size = DEFAULT_MAX_FRAME_SIZE, fw_chain_threshold = chain_threshold,
      fw_min_buffer_capacity = chain_threshold + HEADER_LEN, fw_final_flush_done = False, fw_out = []\<rparr>)"

definition fw_remaining :: "framed_write \<Rightarrow> bytes" where
  "fw_remaining w = drop (fw_pos w) (fw_buf w)"

text \<open>The buffer after something was put into it.\<close>

definition fw_set_buf :: "(nat \<Rightarrow> nat \<Rightarrow> nat) \<Rightarrow> bytes \<Rightarrow> framed_write \<Rightarrow> framed_write" where
  "fw_set_buf grow b w =
    w\<lparr>fw_buf := b, fw_cap := (if length b \<le> fw_cap w then fw_cap w else grow (fw_cap w) (length b))\<rparr>"

definition fw_has_capacity :: "framed_write \<Rightarrow> bool" where
  "fw_has_capacity w \<longleftrightarrow> fw_next w = None \<and> fw_cap w - length (fw_buf w) \<ge> fw_min_buffer_capacity w"

definition fw_is_empty :: "framed_write \<Rightarrow> bool" where
  "fw_is_empty w =
    (case fw_next w of
       Some (NextData f) \<Rightarrow> data_data f = []
     | _ \<Rightarrow> fw_remaining w = [])"

text \<open>\<open>limited_write_buf!\<close>\<close>

definition limited_write_buf :: "framed_write \<Rightarrow> limit_buf" where
  "limited_write_buf w = \<lparr>lb_buf = fw_buf w, lb_limit = unat (fw_max_frame_size w) + HEADER_LEN\<rparr>"

section \<open>Buffering\<close>

type_synonym buffer_result = "(unit, user_error) outcome \<times> framed_write"

definition buffer_data :: "(nat \<Rightarrow> nat \<Rightarrow> nat) \<Rightarrow> bytes data_frame \<Rightarrow> framed_write \<Rightarrow> buffer_result" where
  "buffer_data grow v w =
    (let len = length (data_data v) in
     if len > unat (fw_max_frame_size w) then (Err PayloadTooBig, w)
     else if len \<ge> fw_chain_threshold w
     then
       let w = fw_set_buf grow (head_encode (data_head v) len (fw_buf w)) w;
           (w, v) =
             (if length (fw_buf w) < fw_chain_threshold w
              then let extra_bytes = fw_chain_threshold w - length (fw_remaining w) in
                (fw_set_buf grow (fw_buf w @ take extra_bytes (data_data v)) w, v\<lparr>data_data := drop extra_bytes (data_data v)\<rparr>)
              else (w, v))
       in (Ok (), w\<lparr>fw_next := Some (NextData v)\<rparr>)
     else case data_encode_chunk (USIZE_MAX - length (fw_buf w)) v (fw_buf w) of
       None \<Rightarrow> (Panic, w)
     | Some (v, b) \<Rightarrow>
         let w = fw_set_buf grow b w in
         if data_data v \<noteq> [] then (Panic, w) else (Ok (), w\<lparr>fw_last_data_frame := Some v\<rparr>))"

definition buffer_block ::
  "(nat \<Rightarrow> nat \<Rightarrow> nat) \<Rightarrow> (limit_buf \<times> continuation option \<times> encoder) option \<Rightarrow> framed_write \<Rightarrow> buffer_result" where
  "buffer_block grow encoded w =
    (case encoded of
       None \<Rightarrow> (Panic, w)
     | Some (dst, cont, e) \<Rightarrow>
         let w = fw_set_buf grow (lb_buf dst) (w\<lparr>fw_hpack := e\<rparr>) in
         (Ok (), case cont of None \<Rightarrow> w | Some c \<Rightarrow> w\<lparr>fw_next := Some (NextContinuation c)\<rparr>))"

definition fw_buffer ::
  "(name \<Rightarrow> u64) \<Rightarrow> (nat \<Rightarrow> nat \<Rightarrow> nat) \<Rightarrow> bytes frame \<Rightarrow> framed_write \<Rightarrow> buffer_result" where
  "fw_buffer fnv grow item w =
    (if \<not> fw_has_capacity w then (Panic, w)
     else case item of
       FrameData v \<Rightarrow> buffer_data grow v w
     | FrameHeaders v \<Rightarrow> buffer_block grow (headers_encode fnv v (fw_hpack w) (limited_write_buf w)) w
     | FramePushPromise v \<Rightarrow> buffer_block grow (push_promise_encode fnv v (fw_hpack w) (limited_write_buf w)) w
     | FrameSettings v \<Rightarrow> (Ok (), fw_set_buf grow (settings_encode v (fw_buf w)) w)
     | FrameGoAway v \<Rightarrow> (Ok (), fw_set_buf grow (go_away_encode v (fw_buf w)) w)
     | FramePing v \<Rightarrow> (Ok (), fw_set_buf grow (ping_encode v (fw_buf w)) w)
     | FrameWindowUpdate v \<Rightarrow> (Ok (), fw_set_buf grow (window_update_encode v (fw_buf w)) w)
     | FramePriority _ \<Rightarrow> (Panic, w)
     | FrameReset v \<Rightarrow> (Ok (), fw_set_buf grow (reset_encode v (fw_buf w)) w))"

section \<open>Flushing\<close>

text \<open>What a write of the transport returns: it takes at most so many bytes.\<close>

datatype write_item =
    Accepts nat
  | WritePending
  | WriteError io_error_kind "string option"

text \<open>\<open>poll_write_buf\<close> on the buffer, with the payload of a DATA frame chained behind it.\<close>

definition fw_available :: "framed_write \<Rightarrow> bytes" where
  "fw_available w = fw_remaining w @ (case fw_next w of Some (NextData f) \<Rightarrow> data_data f | _ \<Rightarrow> [])"

definition fw_advance :: "nat \<Rightarrow> framed_write \<Rightarrow> framed_write" where
  "fw_advance n w =
    (let m = length (fw_remaining w);
         w' = w\<lparr>fw_out := fw_out w @ take n (fw_available w), fw_pos := fw_pos w + min n m\<rparr>
     in case fw_next w of
       Some (NextData f) \<Rightarrow> w'\<lparr>fw_next := Some (NextData (f\<lparr>data_data := drop (n - m) (data_data f)\<rparr>))\<rparr>
     | _ \<Rightarrow> w')"

fun drain :: "framed_write \<Rightarrow> write_item list \<Rightarrow> io_poll \<times> framed_write \<times> write_item list" where
  "drain w items =
    (if fw_is_empty w then (IoReady, w, items)
     else case items of
       [] \<Rightarrow> (IoPending, w, [])
     | WritePending # items \<Rightarrow> (IoPending, w, items)
     | WriteError k t # items \<Rightarrow> (IoError k t, w, items)
     | Accepts n # items \<Rightarrow>
         let n = min n (length (fw_available w)) in
         if n = 0 then (IoError WriteZero None, w, items)
         else drain (fw_advance n w) items)"

declare drain.simps [simp del]

text \<open>\<open>unset_frame\<close>: whether to go on, and the state; a panic of the encoder is \<open>None\<close>.\<close>

definition unset_frame :: "(nat \<Rightarrow> nat \<Rightarrow> nat) \<Rightarrow> framed_write \<Rightarrow> (flow \<times> framed_write) option" where
  "unset_frame grow w =
    (let w = w\<lparr>fw_pos := 0, fw_buf := []\<rparr>; nxt = fw_next w; w = w\<lparr>fw_next := None\<rparr> in
     case nxt of
       Some (NextData f) \<Rightarrow>
         let w = w\<lparr>fw_last_data_frame := Some f\<rparr> in
         if fw_is_empty w then Some (Break, w) else None
     | Some (NextContinuation c) \<Rightarrow>
         (case continuation_encode c (limited_write_buf w) of
            None \<Rightarrow> None
          | Some (dst, cont) \<Rightarrow>
              Some (Continue, (fw_set_buf grow (lb_buf dst) w)\<lparr>fw_next := map_option NextContinuation cont\<rparr>))
     | None \<Rightarrow> Some (Break, w))"

text \<open>The loop of \<open>flush\<close>. Every round but two writes a byte of a header block, so that its length and two are fuel enough.\<close>

fun flush_loop ::
  "nat \<Rightarrow> (nat \<Rightarrow> nat \<Rightarrow> nat) \<Rightarrow> framed_write \<Rightarrow> write_item list \<Rightarrow> (io_poll \<times> framed_write \<times> write_item list) option" where
  "flush_loop 0 grow w items = None"
| "flush_loop (Suc fuel) grow w items =
    (case drain w items of
       (IoReady, w, items) \<Rightarrow>
         (case unset_frame grow w of
            None \<Rightarrow> None
          | Some (Continue, w) \<Rightarrow> flush_loop fuel grow w items
          | Some (Break, w) \<Rightarrow> Some (IoReady, w, items))
     | (r, w, items) \<Rightarrow> Some (r, w, items))"

definition flush_fuel :: "framed_write \<Rightarrow> nat" where
  "flush_fuel w = (case fw_next w of Some (NextContinuation c) \<Rightarrow> length (cn_hpack c) + 2 | _ \<Rightarrow> 1)"

text \<open>\<open>poll_flush\<close> of the transport comes last: what it returns is the argument \<open>inner_flush\<close>.\<close>

definition fw_flush ::
  "(nat \<Rightarrow> nat \<Rightarrow> nat) \<Rightarrow> io_poll \<Rightarrow> framed_write \<Rightarrow> write_item list \<Rightarrow> (io_poll \<times> framed_write \<times> write_item list) option" where
  "fw_flush grow inner_flush w items =
    (case flush_loop (flush_fuel w) grow w items of
       Some (IoReady, w, items) \<Rightarrow> Some (inner_flush, w, items)
     | r \<Rightarrow> r)"

definition fw_poll_ready ::
  "(nat \<Rightarrow> nat \<Rightarrow> nat) \<Rightarrow> io_poll \<Rightarrow> framed_write \<Rightarrow> write_item list \<Rightarrow> (io_poll \<times> framed_write \<times> write_item list) option" where
  "fw_poll_ready grow inner_flush w items =
    (if \<not> fw_has_capacity w
     then (case fw_flush grow inner_flush w items of
             Some (IoReady, w, items) \<Rightarrow>
               Some (if \<not> fw_has_capacity w then IoPending else IoReady, w, items)
           | r \<Rightarrow> r)
     else Some (IoReady, w, items))"

definition fw_shutdown ::
  "(nat \<Rightarrow> nat \<Rightarrow> nat) \<Rightarrow> io_poll \<Rightarrow> io_poll \<Rightarrow> framed_write \<Rightarrow> write_item list \<Rightarrow>
     (io_poll \<times> framed_write \<times> write_item list) option" where
  "fw_shutdown grow inner_flush inner_shutdown w items =
    (if \<not> fw_final_flush_done w
     then (case fw_flush grow inner_flush w items of
             Some (IoReady, w, items) \<Rightarrow> Some (inner_shutdown, w\<lparr>fw_final_flush_done := True\<rparr>, items)
           | r \<Rightarrow> r)
     else Some (inner_shutdown, w, items))"

definition fw_set_max_frame_size :: "nat \<Rightarrow> framed_write \<Rightarrow> framed_write option" where
  "fw_set_max_frame_size val w =
    (if val \<le> unat MAX_MAX_FRAME_SIZE then Some (w\<lparr>fw_max_frame_size := of_nat val\<rparr>) else None)"

definition fw_set_header_table_size :: "nat \<Rightarrow> framed_write \<Rightarrow> framed_write" where
  "fw_set_header_table_size val w = w\<lparr>fw_hpack := update_max_size val (fw_hpack w)\<rparr>"

definition fw_take_last_data_frame :: "framed_write \<Rightarrow> bytes data_frame option \<times> framed_write" where
  "fw_take_last_data_frame w = (fw_last_data_frame w, w\<lparr>fw_last_data_frame := None\<rparr>)"

section \<open>The codec\<close>

record codec =
  cd_read :: framed_read
  cd_write :: framed_write

definition codec_with_max_recv_frame_size :: "bool \<Rightarrow> nat \<Rightarrow> nat \<Rightarrow> codec option" where
  "codec_with_max_recv_frame_size is_write_vectored delimited_default max_frame_size =
    (case framed_read_new delimited_default of
       None \<Rightarrow> None
     | Some fr \<Rightarrow>
         map_option (\<lambda>fr. \<lparr>cd_read = fr, cd_write = framed_write_new is_write_vectored\<rparr>) (fr_set_max_frame_size max_frame_size fr))"

definition codec_new :: "bool \<Rightarrow> nat \<Rightarrow> codec option" where
  "codec_new is_write_vectored delimited_default =
     codec_with_max_recv_frame_size is_write_vectored delimited_default (unat DEFAULT_MAX_FRAME_SIZE)"

definition codec_set_max_recv_frame_size :: "nat \<Rightarrow> codec \<Rightarrow> codec option" where
  "codec_set_max_recv_frame_size val c = map_option (\<lambda>fr. c\<lparr>cd_read := fr\<rparr>) (fr_set_max_frame_size val (cd_read c))"

definition codec_max_send_frame_size :: "codec \<Rightarrow> nat" where
  "codec_max_send_frame_size c = unat (fw_max_frame_size (cd_write c))"

definition codec_set_max_send_frame_size :: "nat \<Rightarrow> codec \<Rightarrow> codec option" where
  "codec_set_max_send_frame_size val c = map_option (\<lambda>w. c\<lparr>cd_write := w\<rparr>) (fw_set_max_frame_size val (cd_write c))"

definition codec_set_send_header_table_size :: "nat \<Rightarrow> codec \<Rightarrow> codec" where
  "codec_set_send_header_table_size val c = c\<lparr>cd_write := fw_set_header_table_size val (cd_write c)\<rparr>"

definition codec_set_recv_header_table_size :: "nat \<Rightarrow> codec \<Rightarrow> codec" where
  "codec_set_recv_header_table_size val c = c\<lparr>cd_read := fr_set_header_table_size val (cd_read c)\<rparr>"

definition codec_set_max_recv_header_list_size :: "nat \<Rightarrow> codec \<Rightarrow> codec option" where
  "codec_set_max_recv_header_list_size val c =
     map_option (\<lambda>fr. c\<lparr>cd_read := fr\<rparr>) (fr_set_max_header_list_size val (cd_read c))"

definition codec_take_last_data_frame :: "codec \<Rightarrow> bytes data_frame option \<times> codec" where
  "codec_take_last_data_frame c =
    (case fw_take_last_data_frame (cd_write c) of (f, w) \<Rightarrow> (f, c\<lparr>cd_write := w\<rparr>))"

definition codec_buffer :: "(name \<Rightarrow> u64) \<Rightarrow> (nat \<Rightarrow> nat \<Rightarrow> nat) \<Rightarrow> bytes frame \<Rightarrow> codec \<Rightarrow> (unit, user_error) outcome \<times> codec" where
  "codec_buffer fnv grow item c = (case fw_buffer fnv grow item (cd_write c) of (r, w) \<Rightarrow> (r, c\<lparr>cd_write := w\<rparr>))"

definition codec_poll_next ::
  "header_lib \<Rightarrow> codec \<Rightarrow> inner_item list \<Rightarrow> ((bytes frame, proto_error) outcome option) poll \<times> codec \<times> inner_item list" where
  "codec_poll_next L c items =
    (case read_poll_next L (cd_read c) items of (r, fr, items) \<Rightarrow> (r, c\<lparr>cd_read := fr\<rparr>, items))"

end
