(* ===== verification/Codec_Wire.thy ===== *)
theory Codec_Wire
  imports Codec_Write
begin

text \<open>
  What the writing side promises: the bytes that the transport has taken, followed by those that wait in the writer, are always
  the encodings of the buffered frames in order. Buffering appends the encoding of a frame, flushing moves bytes from the
  waiting ones to the transport, whatever it takes at a time, and ends; when it is ready nothing waits any more.
\<close>

section \<open>What waits\<close>

definition fw_limit :: "framed_write \<Rightarrow> nat" where
  "fw_limit w = unat (fw_max_frame_size w) + HEADER_LEN"

definition block_wire :: "nat \<Rightarrow> head \<Rightarrow> bytes \<Rightarrow> bytes \<Rightarrow> bytes" where
  "block_wire lim h extra hpack =
    (case write_block (length hpack + 1) lim h extra hpack of Some fs \<Rightarrow> concat fs | None \<Rightarrow> [])"

definition next_wire :: "framed_write \<Rightarrow> bytes" where
  "next_wire w =
    (case fw_next w of
       Some (NextContinuation c) \<Rightarrow> block_wire (fw_limit w) (continuation_head c) [] (cn_hpack c)
     | _ \<Rightarrow> [])"

definition pending :: "framed_write \<Rightarrow> bytes" where
  "pending w = fw_available w @ next_wire w"

definition write_ok :: "framed_write \<Rightarrow> bool" where
  "write_ok w \<longleftrightarrow> fw_pos w \<le> length (fw_buf w) \<and> 0 < unat (fw_max_frame_size w) \<and> unat (fw_max_frame_size w) < 2 ^ 24 \<and>
     0 < fw_chain_threshold w \<and>
     (\<forall>f. fw_next w = Some (NextData f) \<longrightarrow> data_data f = [] \<longrightarrow> fw_remaining w = [])"

lemma write_block_mono: "write_block n lim h extra hpack = Some fs \<Longrightarrow> n \<le> m \<Longrightarrow> write_block m lim h extra hpack = Some fs"
proof (induction n arbitrary: m h extra hpack fs)
  case (Suc n)
  obtain k where k: "m = Suc k" "n \<le> k" using Suc.prems(2) by (cases m) auto
  show ?case
  proof (cases "encode_block h extra hpack \<lparr>lb_buf = [], lb_limit = lim\<rparr>")
    case None
    then show ?thesis using Suc.prems(1) by (simp add: write_block.simps)
  next
    case (Some x)
    obtain dst cont where x: "x = (dst, cont)" by (cases x)
    show ?thesis
    proof (cases cont)
      case None
      then show ?thesis using Suc.prems(1) Some x by (simp add: write_block.simps k(1))
    next
      case (Some c)
      then obtain gs where "write_block n lim (continuation_head c) [] (cn_hpack c) = Some gs" "fs = lb_buf dst # gs"
        using Suc.prems(1) \<open>encode_block _ _ _ _ = _\<close> x by (auto simp: write_block.simps)
      then show ?thesis using Suc.IH [OF _ k(2)] Some \<open>encode_block _ _ _ _ = _\<close> x by (simp add: write_block.simps k(1))
    qed
  qed
qed (simp add: write_block.simps)

lemma block_wire_step:
  assumes "HEADER_LEN + length extra < lim" "lim < 2 ^ 24 + HEADER_LEN" "hd_flag h AND HF_END_HEADERS = HF_END_HEADERS"
    "encode_block h extra hpack \<lparr>lb_buf = d, lb_limit = lim\<rparr> = Some (dst, cont)"
  shows "\<exists>b. lb_buf dst = d @ b \<and>
    b @ (case cont of None \<Rightarrow> [] | Some c \<Rightarrow> block_wire lim (continuation_head c) [] (cn_hpack c)) =
      block_wire lim h extra hpack \<and>
    (\<forall>c. cont = Some c \<longrightarrow> length (cn_hpack c) < length hpack)"
proof -
  let ?room = "lim - HEADER_LEN - length extra"
  note e = encode_block_spec [OF less_imp_le [OF assms(1)] assms(2,3), unfolded Let_def]
  show ?thesis
  proof (cases "length hpack > ?room")
    case False
    then have "write_block (length hpack + 1) lim h extra hpack = Some [wire_frame h (extra @ hpack)]"
      by (simp add: write_block.simps e)
    then show ?thesis using assms(4) False by (auto simp: e block_wire_def)
  next
    case True
    let ?c = "\<lparr>cn_stream_id = hd_stream_id h, cn_hpack = drop ?room hpack\<rparr>"
    have dst: "lb_buf dst = d @ wire_frame (clear_end_headers h) (extra @ take ?room hpack)" "cont = Some ?c"
      using assms(4) True by (auto simp: e)
    have less: "length (cn_hpack ?c) < length hpack" using True assms(1) by (simp add: HEADER_LEN_def)
    have "HEADER_LEN + length ([] :: bytes) < lim" using assms(1) by simp
    moreover have "hd_flag (continuation_head ?c) AND HF_END_HEADERS = HF_END_HEADERS" by (simp add: continuation_head_def)
    ultimately obtain p ps where
      w: "write_block (length (cn_hpack ?c) + 1) lim (continuation_head ?c) [] (cn_hpack ?c) =
        Some (frames_of (continuation_head ?c) [] (p # ps))"
      using write_block_frames [of "cn_hpack ?c" "length (cn_hpack ?c) + 1" "[]" lim "continuation_head ?c"] assms(2) by auto
    have "write_block (length hpack) lim (continuation_head ?c) [] (cn_hpack ?c) =
        Some (frames_of (continuation_head ?c) [] (p # ps))"
      using write_block_mono [OF w] less by simp
    then have "write_block (length hpack + 1) lim h extra hpack =
        Some (wire_frame (clear_end_headers h) (extra @ take ?room hpack) # frames_of (continuation_head ?c) [] (p # ps))"
      using True by (simp add: write_block.simps e [where d = "[]", unfolded append_Nil])
    then show ?thesis using dst w less by (simp add: block_wire_def)
  qed
qed

section \<open>Draining\<close>

lemma fw_advance_props:
  assumes "write_ok w" "\<not> fw_is_empty w"
  shows "fw_out (fw_advance n w) @ fw_available (fw_advance n w) = fw_out w @ fw_available w"
    "write_ok (fw_advance n w)" "next_wire (fw_advance n w) = next_wire w" "fw_limit (fw_advance n w) = fw_limit w"
    "flush_fuel (fw_advance n w) = flush_fuel w"
proof -
  let ?m = "length (fw_remaining w)"
  have pos: "fw_pos w \<le> length (fw_buf w)" using assms(1) by (simp add: write_ok_def)
  have rem: "drop (fw_pos w + min n ?m) (fw_buf w) = drop n (fw_remaining w)"
  proof (cases "n \<le> ?m")
    case True
    then show ?thesis by (simp add: fw_remaining_def add.commute)
  next
    case False
    then have "fw_pos w + min n ?m = length (fw_buf w)" using pos by (simp add: fw_remaining_def)
    then show ?thesis using False by simp
  qed
  consider (data) f where "fw_next w = Some (NextData f)" | (other) "\<forall>f. fw_next w \<noteq> Some (NextData f)" by blast
  then have "fw_out (fw_advance n w) @ fw_available (fw_advance n w) = fw_out w @ fw_available w \<and>
    write_ok (fw_advance n w) \<and> next_wire (fw_advance n w) = next_wire w \<and> fw_limit (fw_advance n w) = fw_limit w \<and>
    flush_fuel (fw_advance n w) = flush_fuel w"
  proof cases
    case data
    let ?w = "w\<lparr>fw_out := fw_out w @ take n (fw_available w), fw_pos := fw_pos w + min n ?m,
        fw_next := Some (NextData (f\<lparr>data_data := drop (n - ?m) (data_data f)\<rparr>))\<rparr>"
    have a: "fw_advance n w = ?w" using data by (simp add: fw_advance_def Let_def)
    have r: "fw_remaining ?w = drop n (fw_remaining w)" using rem by (simp add: fw_remaining_def)
    have av: "fw_available ?w = drop n (fw_available w)" using data r by (simp add: fw_available_def)
    have "0 < length (data_data f)" using assms(2) data by (simp add: fw_is_empty_def)
    then have "drop (n - ?m) (data_data f) = [] \<Longrightarrow> fw_remaining ?w = []" unfolding r by (simp, linarith)
    then have "write_ok ?w" using assms(1) by (auto simp: write_ok_def fw_remaining_def)
    then show ?thesis using av data by (simp add: a next_wire_def fw_limit_def flush_fuel_def)
  next
    case other
    let ?w = "w\<lparr>fw_out := fw_out w @ take n (fw_available w), fw_pos := fw_pos w + min n ?m\<rparr>"
    have a: "fw_advance n w = ?w" using other by (auto simp: fw_advance_def Let_def split: option.split next_frame.split)
    have r: "fw_remaining ?w = drop n (fw_remaining w)" using rem by (simp add: fw_remaining_def)
    have av: "fw_available ?w = drop n (fw_available w)"
      using other r by (auto simp: fw_available_def split: option.split next_frame.split)
    have "write_ok ?w" using assms(1) other by (auto simp: write_ok_def fw_remaining_def)
    moreover have "next_wire ?w = next_wire w" by (auto simp: next_wire_def fw_limit_def split: option.split next_frame.split)
    ultimately show ?thesis using av by (simp add: a fw_limit_def flush_fuel_def)
  qed
  then show "fw_out (fw_advance n w) @ fw_available (fw_advance n w) = fw_out w @ fw_available w"
    "write_ok (fw_advance n w)" "next_wire (fw_advance n w) = next_wire w" "fw_limit (fw_advance n w) = fw_limit w"
    "flush_fuel (fw_advance n w) = flush_fuel w" by blast+
qed

lemma fw_empty_available: "write_ok w \<Longrightarrow> fw_is_empty w \<Longrightarrow> fw_available w = []"
  by (auto simp: write_ok_def fw_is_empty_def fw_available_def split: option.splits next_frame.splits)

lemma drain_props:
  "write_ok w \<Longrightarrow> drain w items = (r, w', items') \<Longrightarrow>
     fw_out w' @ fw_available w' = fw_out w @ fw_available w \<and> write_ok w' \<and> next_wire w' = next_wire w \<and>
     fw_limit w' = fw_limit w \<and> flush_fuel w' = flush_fuel w \<and> (r = IoReady \<longrightarrow> fw_available w' = [])"
proof (induction w items rule: drain.induct)
  case (1 w items)
  show ?case
  proof (cases "fw_is_empty w")
    case True
    then show ?thesis using "1.prems" fw_empty_available by (subst (asm) drain.simps) auto
  next
    case ne: False
    show ?thesis
    proof (cases items)
      case Nil
      then show ?thesis using "1.prems" ne by (subst (asm) drain.simps) auto
    next
      case (Cons i its)
      show ?thesis
      proof (cases i)
        case (Accepts n)
        let ?n = "min n (length (fw_available w))"
        show ?thesis
        proof (cases "?n = 0")
          case True
          then have "drain w items = (IoError WriteZero None, w, its)"
            using ne Cons Accepts by (subst drain.simps) (simp add: Let_def)
          then show ?thesis using "1.prems" by auto
        next
          case False
          then have "drain w items = drain (fw_advance ?n w) its"
            by (subst drain.simps) (simp only: ne if_False Cons Accepts list.case write_item.case Let_def False)
          then show ?thesis
            using "1.IH" [OF ne Cons Accepts refl False] fw_advance_props [OF "1.prems"(1) ne, of ?n] "1.prems"(2) by simp
        qed
      next
        case WritePending
        then show ?thesis using "1.prems" ne Cons by (subst (asm) drain.simps) auto
      next
        case (WriteError k t)
        then show ?thesis using "1.prems" ne Cons by (subst (asm) drain.simps) auto
      qed
    qed
  qed
qed

section \<open>Flushing\<close>

lemma unset_frame_props:
  assumes "write_ok w" "fw_available w = []"
  shows "\<exists>fl w'. unset_frame grow w = Some (fl, w') \<and> fw_out w' @ pending w' = fw_out w @ pending w \<and> write_ok w' \<and>
    fw_limit w' = fw_limit w \<and>
    (case fl of Break \<Rightarrow> pending w' = [] \<and> fw_next w' = None | Continue \<Rightarrow> flush_fuel w' < flush_fuel w)"
proof -
  have lim: "HEADER_LEN + length ([] :: bytes) < fw_limit w" "fw_limit w < 2 ^ 24 + HEADER_LEN"
    using assms(1) by (simp_all add: write_ok_def fw_limit_def)
  consider "fw_next w = None" | f where "fw_next w = Some (NextData f)" | c where "fw_next w = Some (NextContinuation c)"
    by (metis next_frame.exhaust option.exhaust)
  then show ?thesis
  proof cases
    case 1
    then show ?thesis using assms
      by (simp add: unset_frame_def Let_def pending_def fw_available_def next_wire_def fw_remaining_def write_ok_def fw_limit_def)
  next
    case 2
    then show ?thesis using assms
      by (simp add: unset_frame_def Let_def pending_def fw_available_def next_wire_def fw_remaining_def write_ok_def fw_is_empty_def fw_limit_def)
  next
    case 3
    let ?w = "w\<lparr>fw_pos := 0, fw_buf := [], fw_next := None\<rparr>"
    have l: "limited_write_buf ?w = \<lparr>lb_buf = [], lb_limit = fw_limit w\<rparr>" by (simp add: limited_write_buf_def fw_limit_def)
    have fl: "hd_flag (continuation_head c) AND HF_END_HEADERS = HF_END_HEADERS" by (simp add: continuation_head_def)
    obtain dst cont where e: "encode_block (continuation_head c) [] (cn_hpack c) \<lparr>lb_buf = [], lb_limit = fw_limit w\<rparr> = Some (dst, cont)"
      using encode_block_spec [OF less_imp_le [OF lim(1)] lim(2) fl, of "cn_hpack c" "[]"] by (auto simp: Let_def split: if_splits)
    from block_wire_step [OF lim fl e] obtain b where b: "lb_buf dst = b"
      "b @ (case cont of None \<Rightarrow> [] | Some c \<Rightarrow> block_wire (fw_limit w) (continuation_head c) [] (cn_hpack c)) =
        block_wire (fw_limit w) (continuation_head c) [] (cn_hpack c)"
      "\<forall>c'. cont = Some c' \<longrightarrow> length (cn_hpack c') < length (cn_hpack c)" by auto
    let ?w' = "(fw_set_buf grow (lb_buf dst) ?w)\<lparr>fw_next := map_option NextContinuation cont\<rparr>"
    have u: "unset_frame grow w = Some (Continue, ?w')"
      using 3 e l by (simp add: unset_frame_def Let_def continuation_encode_def)
    have s: "fw_buf ?w' = b" "fw_pos ?w' = 0" "fw_next ?w' = map_option NextContinuation cont" "fw_limit ?w' = fw_limit w"
      "fw_out ?w' = fw_out w" "fw_max_frame_size ?w' = fw_max_frame_size w" "fw_chain_threshold ?w' = fw_chain_threshold w"
      by (simp_all add: fw_set_buf_def b(1) fw_limit_def)
    have "pending ?w' = pending w"
      using b(2) s 3 assms(2) by (cases cont) (simp_all add: pending_def fw_available_def next_wire_def fw_remaining_def)
    moreover have "write_ok ?w'" using assms(1) s by (cases cont) (simp_all add: write_ok_def)
    moreover have "flush_fuel ?w' < flush_fuel w" using b(3) s(3) 3 by (cases cont) (simp_all add: flush_fuel_def)
    ultimately show ?thesis using u s(4,5) by simp
  qed
qed

lemma flush_loop_props:
  "write_ok w \<Longrightarrow> flush_fuel w \<le> fuel \<Longrightarrow>
    \<exists>r w' items'. flush_loop fuel grow w items = Some (r, w', items') \<and> fw_out w' @ pending w' = fw_out w @ pending w \<and>
      write_ok w' \<and> (r = IoReady \<longrightarrow> pending w' = [] \<and> fw_next w' = None)"
proof (induction fuel arbitrary: w items)
  case 0
  then show ?case by (simp add: flush_fuel_def split: option.splits next_frame.splits)
next
  case (Suc fuel)
  obtain r w1 items1 where d: "drain w items = (r, w1, items1)" by (metis prod.exhaust)
  note p = drain_props [OF Suc.prems(1) d]
  have pend: "fw_out w1 @ pending w1 = fw_out w @ pending w" using p by (simp add: pending_def flip: append_assoc)
  show ?case
  proof (cases r)
    case IoReady
    then obtain fl w2 where u: "unset_frame grow w1 = Some (fl, w2)" "fw_out w2 @ pending w2 = fw_out w1 @ pending w1"
      "write_ok w2" "case fl of Break \<Rightarrow> pending w2 = [] \<and> fw_next w2 = None | Continue \<Rightarrow> flush_fuel w2 < flush_fuel w1"
      using unset_frame_props [of w1 grow] p by blast
    show ?thesis
    proof (cases fl)
      case Continue
      then have "flush_fuel w2 \<le> fuel" using u(4) p Suc.prems(2) by simp
      from Suc.IH [OF u(3) this, of items1] show ?thesis using d IoReady u Continue pend by simp
    next
      case Break
      then show ?thesis using d IoReady u pend by simp
    qed
  qed (use d p pend in simp_all)
qed

text \<open>C39: Flushing ends and loses, repeats and reorders nothing, however many bytes the transport takes at a time, also when it
  is interrupted by a pending transport or an error: what the transport has taken followed by what waits stays the
  same; and when it is ready nothing waits.\<close>

theorem flush_delivers:
  assumes "write_ok w"
  shows "\<exists>r w' items'. fw_flush grow inner_flush w items = Some (r, w', items') \<and>
    fw_out w' @ pending w' = fw_out w @ pending w \<and> write_ok w' \<and>
    (r = IoReady \<longrightarrow> pending w' = [] \<and> fw_next w' = None)"
proof -
  obtain r w' items' where f: "flush_loop (flush_fuel w) grow w items = Some (r, w', items')"
    "fw_out w' @ pending w' = fw_out w @ pending w" "write_ok w'" "r = IoReady \<longrightarrow> pending w' = [] \<and> fw_next w' = None"
    using flush_loop_props [OF assms order_refl] by blast
  then show ?thesis by (cases r) (simp_all add: fw_flush_def)
qed

lemma write_ok_new: "write_ok (framed_write_new v)"
  by (simp add: write_ok_def framed_write_new_def Let_def DEFAULT_MAX_FRAME_SIZE_def CHAIN_THRESHOLD_def
    CHAIN_THRESHOLD_WITHOUT_VECTORED_IO_def)

lemma flush_delivers_witness:
  "\<exists>r w' items'. fw_flush (\<lambda>_ n. n) IoReady ((framed_write_new True)\<lparr>fw_buf := [1, 2, 3]\<rparr>) [Accepts 2, Accepts 7] = Some (r, w', items') \<and>
     fw_out w' @ pending w' = [1, 2, 3]"
proof -
  let ?w = "(framed_write_new True)\<lparr>fw_buf := [1, 2, 3]\<rparr>"
  have "write_ok ?w" using write_ok_new [of True] by (simp add: write_ok_def framed_write_new_def Let_def)
  moreover have "fw_out ?w @ pending ?w = [1, 2, 3]"
    by (simp add: framed_write_new_def Let_def pending_def fw_available_def fw_remaining_def next_wire_def)
  ultimately show ?thesis using flush_delivers [of ?w "\<lambda>_ n. n" IoReady "[Accepts 2, Accepts 7]"] by fastforce
qed

section \<open>Buffering\<close>

text \<open>The bytes of a frame on the wire, for the encoder and the frame size limit of a writer.\<close>

definition block_bytes :: "(name \<Rightarrow> u64) \<Rightarrow> framed_write \<Rightarrow> head \<Rightarrow> bytes \<Rightarrow> header_block \<Rightarrow> bytes" where
  "block_bytes fnv w h extra b =
    (case into_encoding fnv b (fw_hpack w) of
       None \<Rightarrow> []
     | Some (hpack, _) \<Rightarrow> block_wire (fw_limit w) h extra hpack)"

definition frame_bytes :: "(name \<Rightarrow> u64) \<Rightarrow> framed_write \<Rightarrow> bytes frame \<Rightarrow> bytes" where
  "frame_bytes fnv w item =
    (case item of
       FrameData v \<Rightarrow> data_encode v []
     | FrameHeaders v \<Rightarrow> block_bytes fnv w (headers_head v) [] (hf_block v)
     | FramePushPromise v \<Rightarrow> block_bytes fnv w (push_promise_head v) (put_u32 (sid_val (pp_promised_id v))) (pp_block v)
     | FrameSettings v \<Rightarrow> settings_encode v []
     | FrameGoAway v \<Rightarrow> go_away_encode v []
     | FramePing v \<Rightarrow> ping_encode v []
     | FrameWindowUpdate v \<Rightarrow> window_update_encode v []
     | FrameReset v \<Rightarrow> reset_encode v []
     | FramePriority _ \<Rightarrow> [])"

lemma fw_set_buf_sel [simp]:
  "fw_buf (fw_set_buf g b w) = b" "fw_pos (fw_set_buf g b w) = fw_pos w" "fw_next (fw_set_buf g b w) = fw_next w"
  "fw_out (fw_set_buf g b w) = fw_out w" "fw_max_frame_size (fw_set_buf g b w) = fw_max_frame_size w"
  "fw_chain_threshold (fw_set_buf g b w) = fw_chain_threshold w" "fw_hpack (fw_set_buf g b w) = fw_hpack w"
  by (simp_all add: fw_set_buf_def)

text \<open>Bytes put behind a buffer when nothing else waits.\<close>

lemma put_appends:
  assumes "write_ok w" "fw_next w = None"
  shows "write_ok (fw_set_buf g (fw_buf w @ b) w)" "pending (fw_set_buf g (fw_buf w @ b) w) = pending w @ b"
    "fw_out (fw_set_buf g (fw_buf w @ b) w) = fw_out w"
  using assms by (simp_all add: write_ok_def pending_def fw_available_def fw_remaining_def next_wire_def)

lemma buffer_block_appends:
  assumes "write_ok w" "fw_next w = None" "hd_flag h AND HF_END_HEADERS = HF_END_HEADERS" "HEADER_LEN + length extra < fw_limit w"
    "buffer_block grow (encode_header_block fnv h extra b (fw_hpack w) (limited_write_buf w)) w = (Ok u, w')"
  shows "write_ok w' \<and> fw_out w' = fw_out w \<and> pending w' = pending w @ block_bytes fnv w h extra b"
proof -
  have l: "limited_write_buf w = \<lparr>lb_buf = fw_buf w, lb_limit = fw_limit w\<rparr>" by (simp add: limited_write_buf_def fw_limit_def)
  have lim: "fw_limit w < 2 ^ 24 + HEADER_LEN" using assms(1) by (simp add: write_ok_def fw_limit_def)
  obtain hpack e where i: "into_encoding fnv b (fw_hpack w) = Some (hpack, e)"
    using assms(5) by (auto simp: buffer_block_def encode_header_block_def split: option.splits)
  obtain dst cont where enc: "encode_block h extra hpack \<lparr>lb_buf = fw_buf w, lb_limit = fw_limit w\<rparr> = Some (dst, cont)"
    using encode_block_spec [OF less_imp_le [OF assms(4)] lim assms(3), of hpack "fw_buf w"] by (auto simp: Let_def split: if_splits)
  from block_wire_step [OF assms(4) lim assms(3) enc] obtain bs where bs: "lb_buf dst = fw_buf w @ bs"
    "bs @ (case cont of None \<Rightarrow> [] | Some c \<Rightarrow> block_wire (fw_limit w) (continuation_head c) [] (cn_hpack c)) =
      block_wire (fw_limit w) h extra hpack" by blast
  let ?w = "fw_set_buf grow (fw_buf w @ bs) (w\<lparr>fw_hpack := if cont = None then return_scratch hpack e else e\<rparr>)"
  have w': "w' = (case cont of None \<Rightarrow> ?w | Some c \<Rightarrow> ?w\<lparr>fw_next := Some (NextContinuation c)\<rparr>)"
    using assms(5) by (cases cont) (simp_all add: buffer_block_def encode_header_block_def i l enc bs(1) Let_def)
  have bytes: "block_bytes fnv w h extra b = block_wire (fw_limit w) h extra hpack" by (simp add: block_bytes_def i)
  have lw: "fw_limit w' = fw_limit w" by (simp add: w' fw_limit_def split: option.split)
  show ?thesis
    using assms(1,2) bs(2) lw unfolding bytes
    by (cases cont) (auto simp: w' write_ok_def pending_def fw_available_def fw_remaining_def next_wire_def)
qed

lemma head_encode_dst: "head_encode h n d = d @ head_encode h n []"
  by (simp add: head_encode_def)

lemma buffer_data_appends:
  assumes "write_ok w" "fw_next w = None" "buffer_data grow v w = (Ok u, w')"
  shows "write_ok w' \<and> fw_out w' = fw_out w \<and> pending w' = pending w @ data_encode v []"
proof -
  let ?len = "length (data_data v)" and ?h = "head_encode (data_head v) (length (data_data v)) []"
  have pos: "fw_pos w \<le> length (fw_buf w)" "0 < fw_chain_threshold w" using assms(1) by (simp_all add: write_ok_def)
  have d: "data_encode v [] = ?h @ data_data v" by (simp add: data_encode_def)
  have le: "\<not> ?len > unat (fw_max_frame_size w)" using assms(3) by (auto simp: buffer_data_def)
  show ?thesis
  proof (cases "?len \<ge> fw_chain_threshold w")
    case False
    then have "w' = (fw_set_buf grow (fw_buf w @ data_encode v []) w)\<lparr>fw_last_data_frame := Some (v\<lparr>data_data := []\<rparr>)\<rparr>"
      using assms(3) le
      by (auto simp: buffer_data_def Let_def data_encode_chunk_eq data_encode_def head_encode_dst [of _ _ "fw_buf w"] split: if_splits)
    then show ?thesis
      using put_appends [OF assms(1,2), of grow "data_encode v []"] assms(2)
      by (simp add: write_ok_def pending_def fw_available_def fw_remaining_def next_wire_def)
  next
    case big: True
    let ?w1 = "fw_set_buf grow (fw_buf w @ ?h) w"
    have h9: "length ?h = 9" by (simp add: HEADER_LEN_def)
    show ?thesis
    proof (cases "length (fw_buf ?w1) < fw_chain_threshold w")
      case True
      let ?x = "fw_chain_threshold w - length (fw_remaining ?w1)"
      let ?v = "v\<lparr>data_data := drop ?x (data_data v)\<rparr>"
      have w': "w' = (fw_set_buf grow (fw_buf ?w1 @ take ?x (data_data v)) ?w1)\<lparr>fw_next := Some (NextData ?v)\<rparr>"
        using assms(3) le big True
        by (simp add: buffer_data_def Let_def head_encode_dst [of _ _ "fw_buf w"])
      have "length (fw_remaining ?w1) \<ge> 9" using pos h9 by (simp add: fw_remaining_def)
      then have "?x < ?len" using big pos(2) by linarith
      then have "data_data ?v \<noteq> []" by simp
      then show ?thesis
        using assms(1,2) pos d unfolding w'
        by (simp add: write_ok_def pending_def fw_available_def fw_remaining_def next_wire_def)
    next
      case False
      have w': "w' = ?w1\<lparr>fw_next := Some (NextData v)\<rparr>"
        using assms(3) le big False
        by (simp add: buffer_data_def Let_def head_encode_dst [of _ _ "fw_buf w"])
      have "data_data v \<noteq> []" using big pos(2) by auto
      then show ?thesis
        using assms(1,2) pos d unfolding w'
        by (simp add: write_ok_def pending_def fw_available_def fw_remaining_def next_wire_def)
    qed
  qed
qed

text \<open>Header blocks, with the head of the frame that opens them.\<close>

lemma buffer_headers_appends:
  assumes "write_ok w" "4 < unat (fw_max_frame_size w)" "fw_has_capacity w"
    and b: "fw_buffer fnv grow (FrameHeaders v) w = (Ok u, w')"
  shows "write_ok w' \<and> fw_out w' = fw_out w \<and> pending w' = pending w @ frame_bytes fnv w (FrameHeaders v)"
proof -
  have f: "hf_is_end_headers (hf_flags v)"
    using b assms(3) by (auto simp: fw_buffer_def headers_encode_def buffer_block_def split: if_splits)
  then have head: "hd_flag (headers_head v) AND HF_END_HEADERS = HF_END_HEADERS"
    by (simp add: headers_head_def hf_is_end_headers_def)
  have "fw_next w = None" "HEADER_LEN + length ([] :: bytes) < fw_limit w"
    using assms(2,3) by (simp_all add: fw_has_capacity_def fw_limit_def)
  from buffer_block_appends [OF assms(1) this(1) head this(2), of grow fnv "hf_block v" u w'] show ?thesis
    using b assms(3) f by (simp add: fw_buffer_def frame_bytes_def headers_encode_def)
qed

lemma buffer_push_promise_appends:
  assumes "write_ok w" "4 < unat (fw_max_frame_size w)" "fw_has_capacity w"
    and b: "fw_buffer fnv grow (FramePushPromise v) w = (Ok u, w')"
  shows "write_ok w' \<and> fw_out w' = fw_out w \<and> pending w' = pending w @ frame_bytes fnv w (FramePushPromise v)"
proof -
  have f: "pp_is_end_headers (pp_flags v)"
    using b assms(3) by (auto simp: fw_buffer_def push_promise_encode_def buffer_block_def split: if_splits)
  then have head: "hd_flag (push_promise_head v) AND HF_END_HEADERS = HF_END_HEADERS"
    by (simp add: push_promise_head_def pp_is_end_headers_def)
  have "fw_next w = None" "HEADER_LEN + length (put_u32 (sid_val (pp_promised_id v))) < fw_limit w"
    using assms(2,3) by (simp_all add: fw_has_capacity_def fw_limit_def)
  from buffer_block_appends [OF assms(1) this(1) head this(2), of grow fnv "pp_block v" u w'] show ?thesis
    using b assms(3) f by (simp add: fw_buffer_def frame_bytes_def push_promise_encode_def)
qed

text \<open>C40: A frame that is accepted is appended to what waits, as its encoding and nothing else: control frames and the head and
  payload of DATA frames, header blocks with all their CONTINUATION frames, also when the payload or the rest of the block
  is kept apart from the buffer. The frame size is one that a peer can set.\<close>

theorem buffer_appends:
  assumes "write_ok w" "4 < unat (fw_max_frame_size w)" "fw_buffer fnv grow item w = (Ok u, w')"
  shows "write_ok w' \<and> fw_out w' = fw_out w \<and> pending w' = pending w @ frame_bytes fnv w item"
proof -
  have cap: "fw_has_capacity w" using assms(3) by (auto simp: fw_buffer_def split: if_splits)
  then have nx: "fw_next w = None" by (simp add: fw_has_capacity_def)
  note b = assms(3) [unfolded fw_buffer_def if_not_P [of "\<not> fw_has_capacity w", unfolded not_not, OF cap]]
  show ?thesis
  proof (cases item)
    case (FrameData v)
    then show ?thesis using buffer_data_appends [OF assms(1) nx] b by (simp add: frame_bytes_def)
  next
    case (FrameHeaders v)
    then show ?thesis using buffer_headers_appends [OF assms(1,2) cap] assms(3) by simp
  next
    case (FramePushPromise v)
    then show ?thesis using buffer_push_promise_appends [OF assms(1,2) cap] assms(3) by simp
  next
    case (FrameSettings v)
    then show ?thesis
      using put_appends [OF assms(1) nx, of grow "settings_encode v []"] b settings_wire.encode_appends [of v "fw_buf w"]
      by (auto simp: frame_bytes_def)
  next
    case (FrameGoAway v)
    then show ?thesis
      using put_appends [OF assms(1) nx, of grow "go_away_encode v []"] b go_away_wire.encode_appends [of v "fw_buf w"]
      by (auto simp: frame_bytes_def)
  next
    case (FramePing v)
    then show ?thesis
      using put_appends [OF assms(1) nx, of grow "ping_encode v []"] b ping_wire.encode_appends [of v "fw_buf w"]
      by (auto simp: frame_bytes_def)
  next
    case (FrameWindowUpdate v)
    then show ?thesis
      using put_appends [OF assms(1) nx, of grow "window_update_encode v []"] b window_update_wire.encode_appends [of v "fw_buf w"]
      by (auto simp: frame_bytes_def)
  next
    case (FrameReset v)
    then show ?thesis
      using put_appends [OF assms(1) nx, of grow "reset_encode v []"] b reset_wire.encode_appends [of v "fw_buf w"]
      by (auto simp: frame_bytes_def)
  next
    case (FramePriority v)
    then show ?thesis using b by simp
  qed
qed

lemma buffer_appends_witness:
  "\<exists>w'. fw_buffer (\<lambda>_. 0) (\<lambda>_ n. n) (FramePing (ping_new [1, 2, 3, 4, 5, 6, 7, 8])) (framed_write_new True) = (Ok (), w') \<and>
     pending w' = ping_encode (ping_new [1, 2, 3, 4, 5, 6, 7, 8]) []"
proof -
  let ?w = "framed_write_new True" and ?i = "FramePing (ping_new [1, 2, 3, 4, 5, 6, 7, 8])"
  have "fw_has_capacity ?w"
    by (simp add: fw_has_capacity_def framed_write_new_def Let_def CHAIN_THRESHOLD_def HEADER_LEN_def DEFAULT_BUFFER_CAPACITY_def)
  then obtain w' where b: "fw_buffer (\<lambda>_. 0) (\<lambda>_ n. n) ?i ?w = (Ok (), w')" by (simp add: fw_buffer_def)
  have "4 < unat (fw_max_frame_size ?w)" by (simp add: framed_write_new_def Let_def DEFAULT_MAX_FRAME_SIZE_def)
  from buffer_appends [OF write_ok_new this b]
  have "pending w' = pending ?w @ ping_encode (ping_new [1, 2, 3, 4, 5, 6, 7, 8]) []" by (simp add: frame_bytes_def)
  moreover have "pending ?w = []"
    by (simp add: framed_write_new_def Let_def pending_def fw_available_def fw_remaining_def next_wire_def)
  ultimately show ?thesis using b by simp
qed

end
