(* ===== verification/Streams_State.thy ===== *)
theory Streams_State
  imports Counts Codec_Write Go_Away Settings_Sync "HOL-Library.Monad_Syntax"
begin

text \<open>
  The state that the operations on streams share (\<open>src/proto/streams/streams.rs\<close>, \<open>prioritize.rs\<close>, \<open>send.rs\<close> and
  \<open>recv.rs\<close>): one record for \<open>Inner\<close> with its \<open>Actions\<close>, the send buffer beside it, and the two halves
  \<open>Send\<close> (with \<open>Prioritize\<close> in it) and \<open>Recv\<close>.

  An operation takes this state and returns it updated; \<open>None\<close> is a panic (of a build with debug assertions).
  A \<open>Result\<close> is a sum, with the error on the left. A \<open>store::Ptr\<close> is the key of its stream.
  The record \<open>env\<close> holds what is not part of the repository: the keys that the slabs hand out, the clock, the hash of a header
  name, the growth of a \<open>BytesMut\<close> and the parsers of URI parts. The mutexes are not modelled: every operation takes the lock for
  its whole duration, so that operations of different tasks interleave as wholes.
\<close>

section \<open>Messages\<close>

text \<open>\<open>Request<()>\<close> and \<open>Response<()>\<close>, as far as the streams look at them.\<close>

record request =
  rq_is_http2 :: bool
  rq_method :: bytes
  rq_uri :: uri_parts
  rq_protocol :: "bytes option"
  rq_fields :: header_map

record response =
  rs_status :: nat
  rs_fields :: header_map

datatype poll_message = PollClient response | PollServer request

record data_event =
  de_payload :: bytes
  de_is_budgeted :: bool

datatype event =
    EvHeaders poll_message
  | EvData data_event
  | EvTrailers header_map
  | EvInformationalHeaders poll_message

section \<open>The state\<close>

datatype in_flight_data = InFlightNothing | InFlightDataFrame key | InFlightDrop

record prioritize =
  pz_pending_send :: queue
  pz_pending_capacity :: queue
  pz_pending_open :: queue
  pz_flow :: flow_control
  pz_last_opened_id :: stream_id
  pz_in_flight_data_frame :: in_flight_data
  pz_max_buffer_size :: nat

record send_state =
  sn_next_stream_id :: "(stream_id, stream_id_overflow) outcome"
  sn_max_stream_id :: stream_id
  sn_init_window_sz :: u32
  sn_prioritize :: prioritize
  sn_is_push_enabled :: bool
  sn_is_extended_connect_protocol_enabled :: bool

record recv_state =
  rv_init_window_sz :: u32
  rv_flow :: flow_control
  rv_in_flight_data :: u32
  rv_next_stream_id :: "(stream_id, stream_id_overflow) outcome"
  rv_last_processed_id :: stream_id
  rv_max_stream_id :: stream_id
  rv_pending_window_updates :: queue
  rv_pending_accept :: queue
  rv_pending_reset_expired :: queue
  rv_reset_duration :: nat
  rv_buffer :: "event buffer"
  rv_is_push_enabled :: bool
  rv_is_extended_connect_protocol_enabled :: bool

text \<open>\<open>Inner\<close>, \<open>Actions\<close> and \<open>SendBuffer\<close>; \<open>ss_woken\<close> is a ghost log of the connection tasks that were woken.\<close>

record streams =
  ss_counts :: counts
  ss_recv :: recv_state
  ss_send :: send_state
  ss_task :: "waker option"
  ss_conn_error :: "proto_error option"
  ss_store :: store
  ss_refs :: nat
  ss_send_buffer :: "bytes frame buffer"
  ss_woken :: "waker list"

record env =
  ev_frame_key :: "bytes frame buffer \<Rightarrow> nat"
  ev_event_key :: "event buffer \<Rightarrow> nat"
  ev_stream_key :: "(nat \<Rightarrow> stream option) \<Rightarrow> nat"
  ev_now :: nat
  ev_fnv :: "name \<Rightarrow> u64"
  ev_grow :: "nat \<Rightarrow> nat \<Rightarrow> nat"
  ev_authority :: "bytes \<Rightarrow> bool"
  ev_scheme :: "bytes \<Rightarrow> bool"
  ev_path :: "bytes \<Rightarrow> bool"
  ev_request :: "request \<Rightarrow> bool"

abbreviation prio :: "streams \<Rightarrow> prioritize" where
  "prio s \<equiv> sn_prioritize (ss_send s)"

abbreviation upd_prio :: "(prioritize \<Rightarrow> prioritize) \<Rightarrow> streams \<Rightarrow> streams" where
  "upd_prio f s \<equiv> s\<lparr>ss_send := (ss_send s)\<lparr>sn_prioritize := f (prio s)\<rparr>\<rparr>"

section \<open>Results\<close>

text \<open>The value of an \<open>outcome\<close> of the components below, and \<open>?\<close>.\<close>

definition sum_of :: "('a, 'e) outcome \<Rightarrow> ('e + 'a) option" where
  "sum_of r = (case r of Ok x \<Rightarrow> Some (Inr x) | Err e \<Rightarrow> Some (Inl e) | Panic \<Rightarrow> None)"

definition ok_of :: "('a, 'e) outcome \<Rightarrow> 'a option" where
  "ok_of r = (case r of Ok x \<Rightarrow> Some x | _ \<Rightarrow> None)"

definition question ::
  "(('e + 'a) \<times> 's) option \<Rightarrow> ('a \<Rightarrow> 's \<Rightarrow> (('e + 'b) \<times> 's) option) \<Rightarrow> (('e + 'b) \<times> 's) option" where
  "question m f = do {
     (r, s) \<leftarrow> m;
     case r of Inl e \<Rightarrow> Some (Inl e, s) | Inr x \<Rightarrow> f x s
   }"

definition err_map :: "('e \<Rightarrow> 'f) \<Rightarrow> (('e + 'a) \<times> 's) option \<Rightarrow> (('f + 'a) \<times> 's) option" where
  "err_map f m = do { (r, s) \<leftarrow> m; Some (map_sum f (\<lambda>x. x) r, s) }"

definition check :: "bool \<Rightarrow> unit option" where
  "check b = (if b then Some () else None)"

definition upd_when :: "bool \<Rightarrow> ('s \<Rightarrow> 's option) \<Rightarrow> 's \<Rightarrow> 's option" where
  "upd_when b f s = (if b then f s else Some s)"

text \<open>\<open>Result::is_ok\<close> of an operation on a part of the state, asserted.\<close>

definition assert_ok :: "(unit, 'e) outcome \<times> 'a \<Rightarrow> 'a option" where
  "assert_ok r = (case r of (Ok _, x) \<Rightarrow> Some x | _ \<Rightarrow> None)"

section \<open>Streams, queues and buffers\<close>

definition get_stream :: "key \<Rightarrow> streams \<Rightarrow> stream option" where
  "get_stream k s = store_index (ss_store s) k"

definition put_stream :: "key \<Rightarrow> stream \<Rightarrow> streams \<Rightarrow> streams" where
  "put_stream k x s = s\<lparr>ss_store := store_put k x (ss_store s)\<rparr>"

definition mod_stream :: "key \<Rightarrow> (stream \<Rightarrow> stream) \<Rightarrow> streams \<Rightarrow> streams option" where
  "mod_stream k f s = do { x \<leftarrow> get_stream k s; Some (put_stream k (f x) s) }"

definition try_stream :: "key \<Rightarrow> (stream \<Rightarrow> stream option) \<Rightarrow> streams \<Rightarrow> streams option" where
  "try_stream k f s = do { x \<leftarrow> get_stream k s; x \<leftarrow> f x; Some (put_stream k x s) }"

text \<open>\<open>if let Some(task) = task.take() { task.wake() }\<close>\<close>

definition wake_task :: "streams \<Rightarrow> streams" where
  "wake_task s = (case ss_task s of None \<Rightarrow> s | Some w \<Rightarrow> s\<lparr>ss_task := None, ss_woken := ss_woken s @ [w]\<rparr>)"

fun get_queue :: "queue_name \<Rightarrow> streams \<Rightarrow> queue" where
  "get_queue NextSend s = pz_pending_send (prio s)"
| "get_queue NextSendCapacity s = pz_pending_capacity (prio s)"
| "get_queue NextOpen s = pz_pending_open (prio s)"
| "get_queue NextWindowUpdate s = rv_pending_window_updates (ss_recv s)"
| "get_queue NextAccept s = rv_pending_accept (ss_recv s)"
| "get_queue NextResetExpire s = rv_pending_reset_expired (ss_recv s)"

fun set_queue :: "queue_name \<Rightarrow> queue \<Rightarrow> streams \<Rightarrow> streams" where
  "set_queue NextSend q s = upd_prio (\<lambda>p. p\<lparr>pz_pending_send := q\<rparr>) s"
| "set_queue NextSendCapacity q s = upd_prio (\<lambda>p. p\<lparr>pz_pending_capacity := q\<rparr>) s"
| "set_queue NextOpen q s = upd_prio (\<lambda>p. p\<lparr>pz_pending_open := q\<rparr>) s"
| "set_queue NextWindowUpdate q s = s\<lparr>ss_recv := (ss_recv s)\<lparr>rv_pending_window_updates := q\<rparr>\<rparr>"
| "set_queue NextAccept q s = s\<lparr>ss_recv := (ss_recv s)\<lparr>rv_pending_accept := q\<rparr>\<rparr>"
| "set_queue NextResetExpire q s = s\<lparr>ss_recv := (ss_recv s)\<lparr>rv_pending_reset_expired := q\<rparr>\<rparr>"

definition q_push :: "nat \<Rightarrow> queue_name \<Rightarrow> key \<Rightarrow> streams \<Rightarrow> streams option" where
  "q_push now n k s = do {
     (_, q, st) \<leftarrow> queue_push (next_of now n) k (get_queue n s, ss_store s);
     Some (set_queue n q (s\<lparr>ss_store := st\<rparr>))
   }"

definition q_push_front :: "nat \<Rightarrow> queue_name \<Rightarrow> key \<Rightarrow> streams \<Rightarrow> streams option" where
  "q_push_front now n k s = do {
     (_, q, st) \<leftarrow> queue_push_front (next_of now n) k (get_queue n s, ss_store s);
     Some (set_queue n q (s\<lparr>ss_store := st\<rparr>))
   }"

definition q_pop :: "queue_name \<Rightarrow> streams \<Rightarrow> (key option \<times> streams) option" where
  "q_pop n s = do {
     (k, q, st) \<leftarrow> queue_pop (next_of 0 n) (get_queue n s, ss_store s);
     Some (k, set_queue n q (s\<lparr>ss_store := st\<rparr>))
   }"

definition q_pop_if :: "queue_name \<Rightarrow> (stream \<Rightarrow> bool) \<Rightarrow> streams \<Rightarrow> (key option \<times> streams) option" where
  "q_pop_if n f s = do {
     (k, q, st) \<leftarrow> queue_pop_if (next_of 0 n) f (get_queue n s, ss_store s);
     Some (k, set_queue n q (s\<lparr>ss_store := st\<rparr>))
   }"

text \<open>The deques of frames to send and of events received.\<close>

definition frame_push_back :: "env \<Rightarrow> bytes frame \<Rightarrow> key \<Rightarrow> streams \<Rightarrow> streams option" where
  "frame_push_back E f k s = do {
     x \<leftarrow> get_stream k s;
     (d, b) \<leftarrow> deque_push_back (ev_frame_key E (ss_send_buffer s)) f (st_pending_send x, ss_send_buffer s);
     Some (put_stream k (x\<lparr>st_pending_send := d\<rparr>) (s\<lparr>ss_send_buffer := b\<rparr>))
   }"

definition frame_push_front :: "env \<Rightarrow> bytes frame \<Rightarrow> key \<Rightarrow> streams \<Rightarrow> streams option" where
  "frame_push_front E f k s = do {
     x \<leftarrow> get_stream k s;
     (d, b) \<leftarrow> deque_push_front (ev_frame_key E (ss_send_buffer s)) f (st_pending_send x, ss_send_buffer s);
     Some (put_stream k (x\<lparr>st_pending_send := d\<rparr>) (s\<lparr>ss_send_buffer := b\<rparr>))
   }"

definition frame_pop_front :: "key \<Rightarrow> streams \<Rightarrow> (bytes frame option \<times> streams) option" where
  "frame_pop_front k s = do {
     x \<leftarrow> get_stream k s;
     (f, d, b) \<leftarrow> deque_pop_front (st_pending_send x, ss_send_buffer s);
     Some (f, put_stream k (x\<lparr>st_pending_send := d\<rparr>) (s\<lparr>ss_send_buffer := b\<rparr>))
   }"

definition event_push_back :: "env \<Rightarrow> event \<Rightarrow> key \<Rightarrow> streams \<Rightarrow> streams option" where
  "event_push_back E e k s = do {
     x \<leftarrow> get_stream k s;
     (d, b) \<leftarrow> deque_push_back (ev_event_key E (rv_buffer (ss_recv s))) e (st_pending_recv x, rv_buffer (ss_recv s));
     Some (put_stream k (x\<lparr>st_pending_recv := d\<rparr>) (s\<lparr>ss_recv := (ss_recv s)\<lparr>rv_buffer := b\<rparr>\<rparr>))
   }"

definition event_push_front :: "env \<Rightarrow> event \<Rightarrow> key \<Rightarrow> streams \<Rightarrow> streams option" where
  "event_push_front E e k s = do {
     x \<leftarrow> get_stream k s;
     (d, b) \<leftarrow> deque_push_front (ev_event_key E (rv_buffer (ss_recv s))) e (st_pending_recv x, rv_buffer (ss_recv s));
     Some (put_stream k (x\<lparr>st_pending_recv := d\<rparr>) (s\<lparr>ss_recv := (ss_recv s)\<lparr>rv_buffer := b\<rparr>\<rparr>))
   }"

definition event_pop_front :: "key \<Rightarrow> streams \<Rightarrow> (event option \<times> streams) option" where
  "event_pop_front k s = do {
     x \<leftarrow> get_stream k s;
     (e, d, b) \<leftarrow> deque_pop_front (st_pending_recv x, rv_buffer (ss_recv s));
     Some (e, put_stream k (x\<lparr>st_pending_recv := d\<rparr>) (s\<lparr>ss_recv := (ss_recv s)\<lparr>rv_buffer := b\<rparr>\<rparr>))
   }"

section \<open>Transitions\<close>

text \<open>\<open>Counts::transition_after\<close> and \<open>Counts::transition\<close> on this state.\<close>

definition after :: "key \<Rightarrow> bool \<Rightarrow> streams \<Rightarrow> streams option" where
  "after k is_reset_counted s = do {
     (c, st) \<leftarrow> transition_after k is_reset_counted (ss_counts s, ss_store s);
     Some (s\<lparr>ss_counts := c, ss_store := st\<rparr>)
   }"

definition transition :: "key \<Rightarrow> (streams \<Rightarrow> ('r \<times> streams) option) \<Rightarrow> streams \<Rightarrow> ('r \<times> streams) option" where
  "transition k f s = do {
     x \<leftarrow> get_stream k s;
     (r, s) \<leftarrow> f s;
     s \<leftarrow> after k (is_pending_reset_expiration x) s;
     Some (r, s)
   }"

definition transition_upd :: "key \<Rightarrow> (streams \<Rightarrow> streams option) \<Rightarrow> streams \<Rightarrow> streams option" where
  "transition_upd k f s = map_option snd (transition k (\<lambda>s. map_option (Pair ()) (f s)) s)"

text \<open>\<open>counts.is_local_init(id)\<close> for the peer of the connection; the counters are changed with the stream they count.\<close>

definition local_init :: "stream_id \<Rightarrow> streams \<Rightarrow> bool option" where
  "local_init i s = is_local_init (cnt_peer (ss_counts s)) i"

definition count_send :: "key \<Rightarrow> streams \<Rightarrow> streams option" where
  "count_send k s = do {
     x \<leftarrow> get_stream k s;
     (x, c) \<leftarrow> inc_num_send_streams x (ss_counts s);
     Some (put_stream k x (s\<lparr>ss_counts := c\<rparr>))
   }"

definition count_recv :: "key \<Rightarrow> streams \<Rightarrow> streams option" where
  "count_recv k s = do {
     x \<leftarrow> get_stream k s;
     (x, c) \<leftarrow> inc_num_recv_streams x (ss_counts s);
     Some (put_stream k x (s\<lparr>ss_counts := c\<rparr>))
   }"

definition upd_counts :: "(counts \<Rightarrow> counts option) \<Rightarrow> streams \<Rightarrow> streams option" where
  "upd_counts f s = do { c \<leftarrow> f (ss_counts s); Some (s\<lparr>ss_counts := c\<rparr>) }"

text \<open>\<open>Store::for_each\<close> over this state.\<close>

definition each_stream ::
  "(key \<Rightarrow> streams \<Rightarrow> (('e + unit) \<times> streams) option) \<Rightarrow> streams \<Rightarrow> (('e + unit) \<times> streams) option" where
  "each_stream f s =
    (case store_try_for_each ss_store
        (\<lambda>k s. case f k s of None \<Rightarrow> (Panic, s) | Some (Inl e, s) \<Rightarrow> (Err e, s) | Some (Inr x, s) \<Rightarrow> (Ok x, s)) s of
       (Ok x, s) \<Rightarrow> Some (Inr x, s)
     | (Err e, s) \<Rightarrow> Some (Inl e, s)
     | (Panic, _) \<Rightarrow> None)"

definition for_each_stream :: "(key \<Rightarrow> streams \<Rightarrow> streams option) \<Rightarrow> streams \<Rightarrow> streams option" where
  "for_each_stream f s =
    map_option snd (each_stream (\<lambda>k s. map_option (Pair (Inr () :: unit + unit)) (f k s)) s)"

end
