(* ===== verification/Peer_Convert.thy ===== *)
theory Peer_Convert
  imports Streams_State
begin

text \<open>
  Messages and header blocks (\<open>impl Peer\<close> in \<open>src/client.rs\<close> and \<open>src/server.rs\<close>, \<open>src/proto/peer.rs\<close>): requests and
  responses become HEADERS and PUSH_PROMISE frames, and the header blocks that arrive become requests and responses unless they are
  malformed. The parsers of the URI parts and the checks of \<open>Request::builder\<close> are fields of \<open>env\<close>.
\<close>

section \<open>Sending\<close>

definition headers_set_end_stream :: "headers_frame \<Rightarrow> headers_frame" where
  "headers_set_end_stream f = f\<lparr>hf_flags := hf_set_end_stream (hf_flags f)\<rparr>"

definition client_convert_send_message ::
  "stream_id \<Rightarrow> request \<Rightarrow> bytes option \<Rightarrow> bool \<Rightarrow> user_error + headers_frame" where
  "client_convert_send_message i r protocol end_of_stream =
    (let p = pseudo_request (rq_method r) (rq_uri r) protocol;
         finish = (\<lambda>p. let f = headers_new i p (rq_fields r) in
           Inr (if end_of_stream then headers_set_end_stream f else f))
     in if ps_scheme p = None \<and> ps_authority p = None
        then (if rq_is_http2 r then Inl MissingUriSchemeAndAuthority else finish (pseudo_set_scheme (ascii ''http'') p))
        else finish p)"

definition server_convert_send_message :: "stream_id \<Rightarrow> response \<Rightarrow> bool \<Rightarrow> headers_frame" where
  "server_convert_send_message i r end_of_stream =
    (let f = headers_new i (pseudo_response (rs_status r)) (rs_fields r) in
     if end_of_stream then headers_set_end_stream f else f)"

definition server_convert_push_message :: "stream_id \<Rightarrow> stream_id \<Rightarrow> request \<Rightarrow> (user_error + push_promise) option" where
  "server_convert_push_message i promised r =
    (case validate_request (rq_method r) (rq_fields r) of
       Panic \<Rightarrow> None
     | Err _ \<Rightarrow> Some (Inl MalformedHeaders)
     | Ok _ \<Rightarrow> Some (Inr (push_promise_new i promised (pseudo_request (rq_method r) (rq_uri r) None) (rq_fields r))))"

section \<open>Receiving\<close>

text \<open>\<open>malformed!\<close> and every other failure is a reset of the stream with PROTOCOL_ERROR: \<open>None\<close> here.\<close>

definition request_method :: "pseudo \<Rightarrow> (bytes \<times> bool) option" where
  "request_method p = do {
     m \<leftarrow> ps_method p;
     let is_connect = (m = ascii ''CONNECT'');
     _ \<leftarrow> check (ps_protocol p = None \<or> is_connect);
     _ \<leftarrow> check (ps_status p = None);
     Some (m, is_connect)
   }"

definition request_authority :: "env \<Rightarrow> pseudo \<Rightarrow> bytes option option" where
  "request_authority E p =
    (case ps_authority p of
       None \<Rightarrow> Some None
     | Some a \<Rightarrow> do { _ \<leftarrow> check (ev_authority E a); Some (Some a) })"

text \<open>A valid scheme without an authority is dropped.\<close>

definition request_scheme :: "env \<Rightarrow> bool \<Rightarrow> bytes option \<Rightarrow> pseudo \<Rightarrow> bytes option option" where
  "request_scheme E is_connect authority p =
    (case ps_scheme p of
       Some sc \<Rightarrow> do {
         _ \<leftarrow> check (\<not> (is_connect \<and> ps_protocol p = None));
         _ \<leftarrow> check (ev_scheme E sc);
         Some (if authority \<noteq> None then Some sc else None)
       }
     | None \<Rightarrow> do {
         _ \<leftarrow> check (\<not> (\<not> is_connect \<or> ps_protocol p \<noteq> None));
         Some None
       })"

definition request_path :: "env \<Rightarrow> bool \<Rightarrow> pseudo \<Rightarrow> bytes option option" where
  "request_path E is_connect p =
    (case ps_path p of
       Some pa \<Rightarrow> do {
         _ \<leftarrow> check (\<not> (is_connect \<and> ps_protocol p = None));
         _ \<leftarrow> check (pa \<noteq> []);
         _ \<leftarrow> check (ev_path E pa);
         Some (Some pa)
       }
     | None \<Rightarrow> do {
         _ \<leftarrow> check (\<not> (is_connect \<and> ps_protocol p \<noteq> None));
         Some None
       })"

definition build_request :: "env \<Rightarrow> pseudo \<Rightarrow> header_map \<Rightarrow> request option" where
  "build_request E p fs = do {
     (m, is_connect) \<leftarrow> request_method p;
     authority \<leftarrow> request_authority E p;
     scheme \<leftarrow> request_scheme E is_connect authority p;
     path \<leftarrow> request_path E is_connect p;
     let r = \<lparr>rq_is_http2 = True, rq_method = m,
              rq_uri = \<lparr>uri_scheme = scheme, uri_authority = authority, uri_path_and_query = path\<rparr>,
              rq_protocol = ps_protocol p, rq_fields = []\<rparr>;
     _ \<leftarrow> check (ev_request E r);
     Some (r\<lparr>rq_fields := fs\<rparr>)
   }"

definition server_convert_poll_message :: "env \<Rightarrow> pseudo \<Rightarrow> header_map \<Rightarrow> stream_id \<Rightarrow> proto_error + request" where
  "server_convert_poll_message E p fs i =
    (case build_request E p fs of Some r \<Rightarrow> Inr r | None \<Rightarrow> Inl (library_reset i PROTOCOL_ERROR))"

text \<open>The builder does not fail with a status and the version alone.\<close>

definition client_convert_poll_message :: "pseudo \<Rightarrow> header_map \<Rightarrow> stream_id \<Rightarrow> proto_error + response" where
  "client_convert_poll_message p fs i =
    (case ps_status p of
       Some st \<Rightarrow> Inr \<lparr>rs_status = st, rs_fields = fs\<rparr>
     | None \<Rightarrow> Inl (library_reset i PROTOCOL_ERROR))"

definition convert_poll_message :: "env \<Rightarrow> dyn \<Rightarrow> pseudo \<Rightarrow> header_map \<Rightarrow> stream_id \<Rightarrow> proto_error + poll_message" where
  "convert_poll_message E peer p fs i =
    (if dyn_is_server peer then map_sum (\<lambda>e. e) PollServer (server_convert_poll_message E p fs i)
     else map_sum (\<lambda>e. e) PollClient (client_convert_poll_message p fs i))"

end
