(* ===== verification/Prioritize.thy ===== *)
theory Prioritize
  imports Streams_State
begin

text \<open>
  The prioritization layer (\<open>src/proto/streams/prioritize.rs\<close>): what is queued to be sent, the assignment of the capacity of the
  connection to streams, the choice of the next frame, and the DATA frames that come back from the codec partly written.
\<close>

section \<open>Construction\<close>

definition prioritize_new :: "config \<Rightarrow> prioritize option" where
  "prioritize_new cfg = do {
     fl \<leftarrow> assert_ok (inc_window flow_new (cfg_remote_init_window_sz cfg));
     fl \<leftarrow> assert_ok (assign_capacity fl (cfg_remote_init_window_sz cfg));
     Some \<lparr>pz_pending_send = queue_new, pz_pending_capacity = queue_new, pz_pending_open = queue_new, pz_flow = fl,
       pz_last_opened_id = STREAM_ID_ZERO, pz_in_flight_data_frame = InFlightNothing,
       pz_max_buffer_size = cfg_local_max_buffer_size cfg\<rparr>
   }"

section \<open>Queueing\<close>

definition prio_schedule_send :: "key \<Rightarrow> streams \<Rightarrow> streams option" where
  "prio_schedule_send k s = do {
     x \<leftarrow> get_stream k s;
     if is_send_ready x then map_option wake_task (q_push 0 NextSend k s) else Some s
   }"

definition prio_queue_frame :: "env \<Rightarrow> bytes frame \<Rightarrow> key \<Rightarrow> streams \<Rightarrow> streams option" where
  "prio_queue_frame E f k s = do {
     s \<leftarrow> frame_push_back E f k s;
     prio_schedule_send k s
   }"

definition prio_queue_open :: "key \<Rightarrow> streams \<Rightarrow> streams option" where
  "prio_queue_open k s = q_push 0 NextOpen k s"

section \<open>Capacity\<close>

text \<open>The capacity of the connection that is not assigned to a stream.\<close>

definition conn_assign :: "u32 \<Rightarrow> streams \<Rightarrow> streams option" where
  "conn_assign n s = do {
     fl \<leftarrow> assert_ok (assign_capacity (pz_flow (prio s)) n);
     Some (upd_prio (\<lambda>p. p\<lparr>pz_flow := fl\<rparr>) s)
   }"

definition conn_claim :: "u32 \<Rightarrow> streams \<Rightarrow> streams option" where
  "conn_claim n s = do {
     fl \<leftarrow> assert_ok (claim_capacity (pz_flow (prio s)) n);
     Some (upd_prio (\<lambda>p. p\<lparr>pz_flow := fl\<rparr>) s)
   }"

definition stream_claim :: "key \<Rightarrow> u32 \<Rightarrow> streams \<Rightarrow> streams option" where
  "stream_claim k n s = try_stream k (\<lambda>x. do {
     fl \<leftarrow> assert_ok (claim_capacity (st_send_flow x) n);
     Some (x\<lparr>st_send_flow := fl\<rparr>)
   }) s"

text \<open>The amount that \<open>try_assign_capacity\<close> looks for; a difference that underflows panics.\<close>

definition additional_capacity :: "stream \<Rightarrow> u32 option" where
  "additional_capacity x = do {
     let tot = st_requested_send_capacity x;
     let assigned = window_as_size (fc_available (st_send_flow x));
     _ \<leftarrow> check (win_int (fc_available (st_send_flow x)) \<le> int (unat tot) \<and> assigned \<le> tot \<and>
       assigned \<le> flow_window_size (st_send_flow x));
     Some (min (tot - assigned) (flow_window_size (st_send_flow x) - assigned))
   }"

definition prio_try_assign_capacity :: "key \<Rightarrow> streams \<Rightarrow> streams option" where
  "prio_try_assign_capacity k s = do {
     x \<leftarrow> get_stream k s;
     if st_is_pending_open x then Some s
     else do {
       additional \<leftarrow> additional_capacity x;
       if additional = 0 then Some s
       else if \<not> is_send_streaming (st_state x) \<and> st_buffered_send_data x = 0 then Some s
       else do {
         let conn_available = window_as_size (fc_available (pz_flow (prio s)));
         s \<leftarrow> (if conn_available > 0
               then do {
                 let assign = min conn_available additional;
                 s \<leftarrow> try_stream k (stream_assign_capacity assign (pz_max_buffer_size (prio s))) s;
                 conn_claim assign s
               }
               else Some s);
         x \<leftarrow> get_stream k s;
         s \<leftarrow> upd_when (window_lt_usize (fc_available (st_send_flow x)) (unat (st_requested_send_capacity x)) \<and>
                has_unavailable (st_send_flow x)) (q_push 0 NextSendCapacity k) s;
         upd_when (st_buffered_send_data x > 0 \<and> is_send_ready x) (q_push 0 NextSend k) s
       }
     }
   }"

text \<open>The loop of \<open>assign_connection_capacity\<close>.\<close>

datatype loop_flow = Again | Finished

definition assign_capacity_step :: "streams \<Rightarrow> (loop_flow \<times> streams) option" where
  "assign_capacity_step s =
    (if win_int (fc_available (pz_flow (prio s))) > 0
     then do {
       (k, s) \<leftarrow> q_pop NextSendCapacity s;
       case k of
         None \<Rightarrow> Some (Finished, s)
       | Some k \<Rightarrow> do {
           x \<leftarrow> get_stream k s;
           if \<not> (is_send_streaming (st_state x) \<or> st_buffered_send_data x > 0) then Some (Again, s)
           else do {
             s \<leftarrow> transition_upd k (prio_try_assign_capacity k) s;
             Some (Again, s)
           }
         }
     }
     else Some (Finished, s))"

partial_function (option) assign_capacity_loop :: "streams \<Rightarrow> streams option" where
  "assign_capacity_loop s = do {
     (r, s) \<leftarrow> assign_capacity_step s;
     case r of Again \<Rightarrow> assign_capacity_loop s | Finished \<Rightarrow> Some s
   }"

definition prio_assign_connection_capacity :: "u32 \<Rightarrow> streams \<Rightarrow> streams option" where
  "prio_assign_connection_capacity inc s = do {
     s \<leftarrow> conn_assign inc s;
     assign_capacity_loop s
   }"

definition prio_reserve_capacity :: "u32 \<Rightarrow> key \<Rightarrow> streams \<Rightarrow> streams option" where
  "prio_reserve_capacity cap k s = do {
     x \<leftarrow> get_stream k s;
     let capacity = unat cap + st_buffered_send_data x;
     let requested = unat (st_requested_send_capacity x);
     if capacity = requested then Some s
     else if capacity < requested
     then do {
       s \<leftarrow> mod_stream k (\<lambda>x. x\<lparr>st_requested_send_capacity := of_nat capacity\<rparr>) s;
       let available = window_as_size (fc_available (st_send_flow x));
       if unat available > capacity
       then do {
         let diff = available - of_nat capacity;
         s \<leftarrow> stream_claim k diff s;
         prio_assign_connection_capacity diff s
       }
       else Some s
     }
     else if is_send_closed (st_state x) then Some s
     else do {
       s \<leftarrow> mod_stream k (\<lambda>x. x\<lparr>st_requested_send_capacity := of_nat (min capacity (2 ^ 32 - 1))\<rparr>) s;
       prio_try_assign_capacity k s
     }
   }"

definition prio_reclaim_all_capacity :: "key \<Rightarrow> streams \<Rightarrow> streams option" where
  "prio_reclaim_all_capacity k s = do {
     x \<leftarrow> get_stream k s;
     let available = window_as_size (fc_available (st_send_flow x));
     if available > 0
     then do {
       s \<leftarrow> stream_claim k available s;
       prio_assign_connection_capacity available s
     }
     else Some s
   }"

definition prio_reclaim_reserved_capacity :: "key \<Rightarrow> streams \<Rightarrow> streams option" where
  "prio_reclaim_reserved_capacity k s = do {
     x \<leftarrow> get_stream k s;
     let available = window_as_size (fc_available (st_send_flow x));
     if unat available > st_buffered_send_data x
     then do {
       let reserved = available - of_nat (st_buffered_send_data x);
       s \<leftarrow> stream_claim k reserved s;
       prio_assign_connection_capacity reserved s
     }
     else Some s
   }"

section \<open>Window updates\<close>

definition prio_recv_stream_window_update :: "u32 \<Rightarrow> key \<Rightarrow> streams \<Rightarrow> ((reason + unit) \<times> streams) option" where
  "prio_recv_stream_window_update inc k s = do {
     x \<leftarrow> get_stream k s;
     if is_send_closed (st_state x) \<and> st_buffered_send_data x = 0 then Some (Inr (), s)
     else case inc_window (st_send_flow x) inc of
       (Ok _, fl) \<Rightarrow> do {
         s \<leftarrow> prio_try_assign_capacity k (put_stream k (x\<lparr>st_send_flow := fl\<rparr>) s);
         Some (Inr (), s)
       }
     | (Err e, _) \<Rightarrow> Some (Inl e, s)
     | (Panic, _) \<Rightarrow> None
   }"

definition prio_recv_connection_window_update :: "u32 \<Rightarrow> streams \<Rightarrow> ((reason + unit) \<times> streams) option" where
  "prio_recv_connection_window_update inc s =
    (case inc_window (pz_flow (prio s)) inc of
       (Ok _, fl) \<Rightarrow> do {
         s \<leftarrow> prio_assign_connection_capacity inc (upd_prio (\<lambda>p. p\<lparr>pz_flow := fl\<rparr>) s);
         Some (Inr (), s)
       }
     | (Err e, _) \<Rightarrow> Some (Inl e, s)
     | (Panic, _) \<Rightarrow> None)"

section \<open>Sending data\<close>

definition prio_send_data :: "env \<Rightarrow> bytes data_frame \<Rightarrow> key \<Rightarrow> streams \<Rightarrow> ((user_error + unit) \<times> streams) option" where
  "prio_send_data E f k s = do {
     let sz = length (data_data f);
     if sz > unat MAX_WINDOW_SIZE then Some (Inl PayloadTooBig, s)
     else do {
       x \<leftarrow> get_stream k s;
       if \<not> is_send_streaming (st_state x)
       then Some (Inl (if is_closed (st_state x) then InactiveStreamId else UnexpectedFrameType), s)
       else do {
         let buffered = st_buffered_send_data x + sz;
         s \<leftarrow> mod_stream k (\<lambda>x. x\<lparr>st_buffered_send_data := buffered\<rparr>) s;
         s \<leftarrow> upd_when (unat (st_requested_send_capacity x) < buffered) (\<lambda>s. do {
             s \<leftarrow> mod_stream k (\<lambda>x. x\<lparr>st_requested_send_capacity := of_nat (min buffered (2 ^ 32 - 1))\<rparr>) s;
             prio_try_assign_capacity k s
           }) s;
         s \<leftarrow> upd_when (data_is_end_stream f) (\<lambda>s. do {
             s \<leftarrow> try_stream k (\<lambda>x. do { st \<leftarrow> send_close (st_state x); Some (x\<lparr>st_state := st\<rparr>) }) s;
             prio_reserve_capacity 0 k s
           }) s;
         x \<leftarrow> get_stream k s;
         s \<leftarrow> (if win_int (fc_available (st_send_flow x)) > 0 \<or> st_buffered_send_data x = 0
               then prio_queue_frame E (FrameData f) k s
               else frame_push_back E (FrameData f) k s);
         Some (Inr (), s)
       }
     }
   }"

section \<open>Clearing\<close>

partial_function (option) drop_frames :: "key \<Rightarrow> streams \<Rightarrow> streams option" where
  "drop_frames k s = do {
     (f, s) \<leftarrow> frame_pop_front k s;
     case f of None \<Rightarrow> Some s | Some _ \<Rightarrow> drop_frames k s
   }"

definition prio_clear_queue :: "key \<Rightarrow> streams \<Rightarrow> streams option" where
  "prio_clear_queue k s = do {
     s \<leftarrow> drop_frames k s;
     s \<leftarrow> mod_stream k (\<lambda>x. x\<lparr>st_buffered_send_data := 0, st_requested_send_capacity := 0\<rparr>) s;
     Some (if pz_in_flight_data_frame (prio s) = InFlightDataFrame k
           then upd_prio (\<lambda>p. p\<lparr>pz_in_flight_data_frame := InFlightDrop\<rparr>) s else s)
   }"

partial_function (option) prio_clear_pending_capacity :: "streams \<Rightarrow> streams option" where
  "prio_clear_pending_capacity s = do {
     (k, s) \<leftarrow> q_pop NextSendCapacity s;
     case k of
       None \<Rightarrow> Some s
     | Some k \<Rightarrow> do {
         s \<leftarrow> transition_upd k Some s;
         prio_clear_pending_capacity s
       }
   }"

definition clear_send_entry :: "key \<Rightarrow> streams \<Rightarrow> streams option" where
  "clear_send_entry k s = do {
     x \<leftarrow> get_stream k s;
     let s = (case get_scheduled_reset (st_state x) of
                Some r \<Rightarrow> put_stream k (stream_set_reset r Library x) s
              | None \<Rightarrow> s);
     after k (is_pending_reset_expiration x) s
   }"

partial_function (option) prio_clear_pending_send :: "streams \<Rightarrow> streams option" where
  "prio_clear_pending_send s = do {
     (k, s) \<leftarrow> q_pop NextSend s;
     case k of
       None \<Rightarrow> Some s
     | Some k \<Rightarrow> do {
         s \<leftarrow> clear_send_entry k s;
         prio_clear_pending_send s
       }
   }"

partial_function (option) prio_clear_pending_open :: "streams \<Rightarrow> streams option" where
  "prio_clear_pending_open s = do {
     (k, s) \<leftarrow> q_pop NextOpen s;
     case k of
       None \<Rightarrow> Some s
     | Some k \<Rightarrow> do {
         x \<leftarrow> get_stream k s;
         s \<leftarrow> after k (is_pending_reset_expiration x) s;
         prio_clear_pending_open s
       }
   }"

section \<open>The next frame\<close>

text \<open>The payload of a DATA frame in the codec: \<open>Take<B>\<close>, the flag of the frame it was taken from, and the stream.\<close>

record prioritized =
  pd_inner :: bytes
  pd_limit :: nat
  pd_end_of_stream :: bool
  pd_stream :: key

datatype pop_result = PopAgain | PopNone | PopFrame "prioritized frame"

text \<open>A DATA frame at the head of the queue of stream \<open>k\<close>. \<open>PopAgain\<close> is \<open>continue\<close>.\<close>

definition pop_data :: "env \<Rightarrow> nat \<Rightarrow> bytes data_frame \<Rightarrow> key \<Rightarrow> streams \<Rightarrow> (pop_result \<times> streams) option" where
  "pop_data E max_len f k s = do {
     x \<leftarrow> get_stream k s;
     if (case get_scheduled_reset (st_state x) of Some r \<Rightarrow> r \<noteq> NO_ERROR | None \<Rightarrow> False)
     then do {
       s \<leftarrow> frame_push_front E (FrameData f) k s;
       s \<leftarrow> prio_clear_queue k s;
       s \<leftarrow> prio_reclaim_all_capacity k s;
       s \<leftarrow> q_push 0 NextSend k s;
       Some (PopAgain, s)
     }
     else do {
       let capacity = fc_available (st_send_flow x);
       let sz = length (data_data f);
       if sz > 0 \<and> window_eq_usize capacity 0
       then do { s \<leftarrow> frame_push_front E (FrameData f) k s; Some (PopAgain, s) }
       else do {
         let len = (of_nat (min (min sz max_len) (unat (window_as_size capacity))) :: u32);
         _ \<leftarrow> check (len \<le> flow_window_size (pz_flow (prio s)));
         if len > 0 \<and> len > flow_window_size (st_send_flow x)
         then do { s \<leftarrow> frame_push_front E (FrameData f) k s; Some (PopAgain, s) }
         else do {
           s \<leftarrow> try_stream k (stream_send_data len (pz_max_buffer_size (prio s))) s;
           s \<leftarrow> conn_assign len s;
           fl \<leftarrow> assert_ok (flow_send_data (pz_flow (prio s)) len);
           let s = upd_prio (\<lambda>p. p\<lparr>pz_flow := fl\<rparr>) s;
           let eos = data_is_end_stream f;
           let f = (if sz > unat len then data_set_end_stream f False else f);
           Some (PopFrame (FrameData (data_map (\<lambda>b. \<lparr>pd_inner = b, pd_limit = unat len, pd_end_of_stream = eos,
             pd_stream = k\<rparr>) f)), s)
         }
       }
     }
   }"

text \<open>A PUSH_PROMISE frame: the promised stream may now be opened.\<close>

definition pop_push_promise :: "push_promise \<Rightarrow> streams \<Rightarrow> streams option" where
  "pop_push_promise f s = do {
     pushed \<leftarrow> store_find (pp_promised_id f) (ss_store s);
     s \<leftarrow> mod_stream pushed (\<lambda>x. x\<lparr>st_is_pending_push := False\<rparr>) s;
     x \<leftarrow> get_stream pushed s;
     if deque_is_empty (st_pending_send x) then Some s
     else if can_inc_num_send_streams (ss_counts s)
     then do { s \<leftarrow> count_send pushed s; q_push 0 NextSend pushed s }
     else prio_queue_open pushed s
   }"

text \<open>The frame that stream \<open>k\<close> sends next. \<open>PopNone\<close>: the stream has none and leaves the queue.\<close>

definition pop_stream_frame :: "env \<Rightarrow> nat \<Rightarrow> key \<Rightarrow> streams \<Rightarrow> (pop_result \<times> streams) option" where
  "pop_stream_frame E max_len k s = do {
     (f, s) \<leftarrow> frame_pop_front k s;
     case f of
       Some (FrameData f) \<Rightarrow> pop_data E max_len f k s
     | Some (FramePushPromise f) \<Rightarrow> do {
         s \<leftarrow> pop_push_promise f s;
         Some (PopFrame (FramePushPromise f), s)
       }
     | Some f \<Rightarrow> Some (PopFrame (frame_map (\<lambda>b. \<lparr>pd_inner = b, pd_limit = 0, pd_end_of_stream = False, pd_stream = k\<rparr>) f), s)
     | None \<Rightarrow> do {
         x \<leftarrow> get_stream k s;
         case get_scheduled_reset (st_state x) of
           Some r \<Rightarrow> Some (PopFrame (FrameReset (reset_new (st_id x) r)), put_stream k (stream_set_reset r Library x) s)
         | None \<Rightarrow> do {
             _ \<leftarrow> check (is_closed (st_state x));
             Some (PopNone, s)
           }
       }
   }"

text \<open>What follows in a build with debug assertions when the stream is idle; and the stream is queued again when it has more to
  send.\<close>

definition requeue_sender :: "key \<Rightarrow> streams \<Rightarrow> streams option" where
  "requeue_sender k s = do {
     x \<leftarrow> get_stream k s;
     s \<leftarrow> upd_when (is_idle (st_state x)) (\<lambda>s. do {
         _ \<leftarrow> check (st_id x > pz_last_opened_id (prio s));
         Some (upd_prio (\<lambda>p. p\<lparr>pz_last_opened_id := st_id x\<rparr>) s)
       }) s;
     upd_when (\<not> deque_is_empty (st_pending_send x) \<or> is_scheduled_reset (st_state x)) (q_push 0 NextSend k) s
   }"

definition pop_frame_step :: "env \<Rightarrow> nat \<Rightarrow> streams \<Rightarrow> (pop_result \<times> streams) option" where
  "pop_frame_step E max_len s = do {
     (k, s) \<leftarrow> q_pop NextSend s;
     case k of
       None \<Rightarrow> Some (PopNone, s)
     | Some k \<Rightarrow> do {
         x \<leftarrow> get_stream k s;
         let is_pending_reset = is_pending_reset_expiration x;
         (r, s) \<leftarrow> pop_stream_frame E max_len k s;
         case r of
           PopAgain \<Rightarrow> Some (PopAgain, s)
         | PopNone \<Rightarrow> do {
             s \<leftarrow> after k is_pending_reset s;
             Some (PopAgain, s)
           }
         | PopFrame f \<Rightarrow> do {
             s \<leftarrow> requeue_sender k s;
             s \<leftarrow> after k is_pending_reset s;
             Some (PopFrame f, s)
           }
       }
   }"

partial_function (option) prio_pop_frame ::
  "env \<Rightarrow> nat \<Rightarrow> streams \<Rightarrow> (prioritized frame option \<times> streams) option" where
  "prio_pop_frame E max_len s = do {
     (r, s) \<leftarrow> pop_frame_step E max_len s;
     case r of
       PopAgain \<Rightarrow> prio_pop_frame E max_len s
     | PopNone \<Rightarrow> Some (None, s)
     | PopFrame f \<Rightarrow> Some (Some f, s)
   }"

definition prio_pop_pending_open :: "streams \<Rightarrow> (key option \<times> streams) option" where
  "prio_pop_pending_open s =
    (if can_inc_num_send_streams (ss_counts s)
     then do {
       (k, s) \<leftarrow> q_pop NextOpen s;
       case k of
         None \<Rightarrow> Some (None, s)
       | Some k \<Rightarrow> do {
           s \<leftarrow> count_send k s;
           s \<leftarrow> mod_stream k notify_send s;
           Some (Some k, s)
         }
     }
     else Some (None, s))"

section \<open>The codec\<close>

text \<open>The codec holds frames whose DATA payload is a \<open>Prioritized\<close>. Of such a payload the codec sees the bytes that \<open>Take\<close> lets
  through; what \<open>into_inner\<close> gives back besides (the bytes beyond the limit), the flag and the stream are kept in \<open>ds_rest\<close>.\<close>

record dst =
  ds_codec :: codec
  ds_rest :: "(bytes \<times> bool \<times> key) option"

definition dst_has_send_capacity :: "dst \<Rightarrow> bool" where
  "dst_has_send_capacity d \<longleftrightarrow> fw_has_capacity (cd_write (ds_codec d))"

definition dst_buffer :: "env \<Rightarrow> prioritized frame \<Rightarrow> dst \<Rightarrow> ((unit, user_error) outcome \<times> dst)" where
  "dst_buffer E f d =
    (case codec_buffer (ev_fnv E) (ev_grow E) (frame_map (\<lambda>p. take (pd_limit p) (pd_inner p)) f) (ds_codec d) of
       (r, c) \<Rightarrow>
         (r, \<lparr>ds_codec = c,
              ds_rest = (case f of
                FrameData v \<Rightarrow> let p = data_data v in Some (drop (pd_limit p) (pd_inner p), pd_end_of_stream p, pd_stream p)
              | _ \<Rightarrow> ds_rest d)\<rparr>))"

definition dst_take_last_data_frame :: "dst \<Rightarrow> (prioritized data_frame option \<times> dst) option" where
  "dst_take_last_data_frame d =
    (case codec_take_last_data_frame (ds_codec d) of
       (None, c) \<Rightarrow> Some (None, d\<lparr>ds_codec := c\<rparr>)
     | (Some v, c) \<Rightarrow>
         (case ds_rest d of
            None \<Rightarrow> None
          | Some (rest, eos, k) \<Rightarrow>
              Some (Some (data_map (\<lambda>b. \<lparr>pd_inner = b @ rest, pd_limit = length b, pd_end_of_stream = eos, pd_stream = k\<rparr>) v),
                \<lparr>ds_codec = c, ds_rest = None\<rparr>)))"

definition prio_push_back_frame :: "env \<Rightarrow> bytes frame \<Rightarrow> key \<Rightarrow> streams \<Rightarrow> streams option" where
  "prio_push_back_frame E f k s = do {
     s \<leftarrow> frame_push_front E f k s;
     x \<leftarrow> get_stream k s;
     upd_when (win_int (fc_available (st_send_flow x)) > 0) (q_push 0 NextSend k) s
   }"

definition prio_reclaim_frame_inner :: "env \<Rightarrow> prioritized data_frame \<Rightarrow> streams \<Rightarrow> (bool \<times> streams) option" where
  "prio_reclaim_frame_inner E f s = do {
     let k = pd_stream (data_data f);
     let in_flight = pz_in_flight_data_frame (prio s);
     let s = upd_prio (\<lambda>p. p\<lparr>pz_in_flight_data_frame := InFlightNothing\<rparr>) s;
     case in_flight of
       InFlightNothing \<Rightarrow> None
     | InFlightDrop \<Rightarrow> Some (False, s)
     | InFlightDataFrame k' \<Rightarrow> do {
         _ \<leftarrow> check (k' = k);
         let eos = pd_end_of_stream (data_data f);
         let f = data_map pd_inner f;
         if data_data f \<noteq> []
         then do {
           _ \<leftarrow> get_stream k s;
           s \<leftarrow> prio_push_back_frame E (FrameData (if eos then data_set_end_stream f True else f)) k s;
           Some (True, s)
         }
         else Some (False, s)
       }
   }"

definition prio_reclaim_frame :: "env \<Rightarrow> streams \<times> dst \<Rightarrow> (bool \<times> (streams \<times> dst)) option" where
  "prio_reclaim_frame E sd = do {
     let (s, d) = sd;
     (f, d) \<leftarrow> dst_take_last_data_frame d;
     case f of
       Some f \<Rightarrow> do { (b, s) \<leftarrow> prio_reclaim_frame_inner E f s; Some (b, (s, d)) }
     | None \<Rightarrow> Some (False, (s, d))
   }"

datatype buffer_status = Complete | CodecFull

text \<open>One round of \<open>buffer_pending\<close>; \<open>None\<close> as status: go on.\<close>

definition buffer_frame_step ::
  "env \<Rightarrow> nat \<Rightarrow> streams \<times> dst \<Rightarrow> (buffer_status option \<times> (streams \<times> dst)) option" where
  "buffer_frame_step E max_frame_len sd = do {
     let (s, d) = sd;
     if \<not> dst_has_send_capacity d then Some (Some CodecFull, (s, d))
     else do {
       (k, s) \<leftarrow> prio_pop_pending_open s;
       s \<leftarrow> (case k of
              Some k \<Rightarrow> do {
                s \<leftarrow> q_push_front 0 NextSend k s;
                prio_try_assign_capacity k s
              }
            | None \<Rightarrow> Some s);
       (f, s) \<leftarrow> prio_pop_frame E max_frame_len s;
       case f of
         Some f \<Rightarrow> do {
           _ \<leftarrow> check (pz_in_flight_data_frame (prio s) = InFlightNothing);
           let s = (case f of
                      FrameData v \<Rightarrow> upd_prio (\<lambda>p. p\<lparr>pz_in_flight_data_frame := InFlightDataFrame (pd_stream (data_data v))\<rparr>) s
                    | _ \<Rightarrow> s);
           d \<leftarrow> assert_ok (dst_buffer E f d);
           (_, sd) \<leftarrow> prio_reclaim_frame E (s, d);
           Some (None, sd)
         }
       | None \<Rightarrow> Some (Some Complete, (s, d))
     }
   }"

partial_function (option) buffer_frames ::
  "env \<Rightarrow> nat \<Rightarrow> streams \<times> dst \<Rightarrow> (buffer_status \<times> (streams \<times> dst)) option" where
  "buffer_frames E max_frame_len sd = do {
     (r, sd) \<leftarrow> buffer_frame_step E max_frame_len sd;
     case r of Some b \<Rightarrow> Some (b, sd) | None \<Rightarrow> buffer_frames E max_frame_len sd
   }"

definition prio_buffer_pending :: "env \<Rightarrow> streams \<times> dst \<Rightarrow> (buffer_status \<times> (streams \<times> dst)) option" where
  "prio_buffer_pending E sd = do {
     (_, sd) \<leftarrow> prio_reclaim_frame E sd;
     buffer_frames E (codec_max_send_frame_size (ds_codec (snd sd))) sd
   }"

end
