(* ===== verification/Send_Half.thy ===== *)
theory Send_Half
  imports Prioritize
begin

text \<open>
  The sending half of the streams (\<open>src/proto/streams/send.rs\<close>): identifiers for new streams, the frames that the user sends,
  resets, and what the SETTINGS, WINDOW_UPDATE and GOAWAY frames of the peer change.
\<close>

definition send_new :: "config \<Rightarrow> send_state option" where
  "send_new cfg = do {
     p \<leftarrow> prioritize_new cfg;
     Some \<lparr>sn_next_stream_id = Ok (cfg_local_next_stream_id cfg), sn_max_stream_id = STREAM_ID_MAX,
       sn_init_window_sz = cfg_remote_init_window_sz cfg, sn_prioritize = p, sn_is_push_enabled = True,
       sn_is_extended_connect_protocol_enabled = False\<rparr>
   }"

section \<open>Identifiers\<close>

definition next_id_checked :: "stream_id \<Rightarrow> (stream_id, stream_id_overflow) outcome option" where
  "next_id_checked i = (case next_id i of Panic \<Rightarrow> None | r \<Rightarrow> Some r)"

definition send_ensure_next_stream_id :: "streams \<Rightarrow> user_error + stream_id" where
  "send_ensure_next_stream_id s = (case sn_next_stream_id (ss_send s) of Ok i \<Rightarrow> Inr i | _ \<Rightarrow> Inl OverflowedStreamId)"

text \<open>\<open>open\<close> and \<open>reserve_local\<close> have the same body.\<close>

definition send_open_id :: "streams \<Rightarrow> ((user_error + stream_id) \<times> streams) option" where
  "send_open_id s =
    (case send_ensure_next_stream_id s of
       Inl e \<Rightarrow> Some (Inl e, s)
     | Inr i \<Rightarrow> do {
         n \<leftarrow> next_id_checked i;
         Some (Inr i, s\<lparr>ss_send := (ss_send s)\<lparr>sn_next_stream_id := n\<rparr>\<rparr>)
       })"

definition send_reserve_local :: "streams \<Rightarrow> ((user_error + stream_id) \<times> streams) option" where
  "send_reserve_local s =
    (case send_ensure_next_stream_id s of
       Inl e \<Rightarrow> Some (Inl e, s)
     | Inr i \<Rightarrow> do {
         n \<leftarrow> next_id_checked i;
         Some (Inr i, s\<lparr>ss_send := (ss_send s)\<lparr>sn_next_stream_id := n\<rparr>\<rparr>)
       })"

definition send_ensure_not_idle :: "stream_id \<Rightarrow> streams \<Rightarrow> reason + unit" where
  "send_ensure_not_idle i s =
    (case sn_next_stream_id (ss_send s) of Ok next \<Rightarrow> if i \<ge> next then Inl PROTOCOL_ERROR else Inr () | _ \<Rightarrow> Inr ())"

definition send_may_have_created_stream :: "stream_id \<Rightarrow> streams \<Rightarrow> bool option" where
  "send_may_have_created_stream i s =
    (case sn_next_stream_id (ss_send s) of
       Ok next \<Rightarrow> do {
         _ \<leftarrow> check (is_server_initiated i = is_server_initiated next);
         Some (i < next)
       }
     | _ \<Rightarrow> Some True)"

definition send_maybe_reset_next_stream_id :: "stream_id \<Rightarrow> streams \<Rightarrow> streams option" where
  "send_maybe_reset_next_stream_id i s =
    (case sn_next_stream_id (ss_send s) of
       Ok next \<Rightarrow> do {
         _ \<leftarrow> check (is_server_initiated i = is_server_initiated next);
         if i \<ge> next
         then do {
           n \<leftarrow> next_id_checked i;
           Some (s\<lparr>ss_send := (ss_send s)\<lparr>sn_next_stream_id := n\<rparr>\<rparr>)
         }
         else Some s
       }
     | _ \<Rightarrow> Some s)"

section \<open>Frames of the user\<close>

definition check_headers :: "header_map \<Rightarrow> user_error + unit" where
  "check_headers m =
    (if \<exists>n \<in> set connection_headers. n \<in> set (map fst m) then Inl MalformedHeaders
     else case header_get_all (ascii ''te'') m of
       te # _ \<Rightarrow> if hv_bytes te \<noteq> ascii ''trailers'' then Inl MalformedHeaders else Inr ()
     | [] \<Rightarrow> Inr ())"

definition send_push_promise :: "env \<Rightarrow> push_promise \<Rightarrow> key \<Rightarrow> streams \<Rightarrow> ((user_error + unit) \<times> streams) option" where
  "send_push_promise E f k s =
    (if \<not> sn_is_push_enabled (ss_send s) then Some (Inl PeerDisabledServerPush, s)
     else case check_headers (hb_fields (pp_block f)) of
       Inl e \<Rightarrow> Some (Inl e, s)
     | Inr _ \<Rightarrow> do {
         s \<leftarrow> prio_queue_frame E (FramePushPromise f) k s;
         Some (Inr (), s)
       })"

definition send_headers :: "env \<Rightarrow> headers_frame \<Rightarrow> key \<Rightarrow> streams \<Rightarrow> ((user_error + unit) \<times> streams) option" where
  "send_headers E f k s =
    (case check_headers (hb_fields (hf_block f)) of
       Inl e \<Rightarrow> Some (Inl e, s)
     | Inr _ \<Rightarrow> do {
         x \<leftarrow> get_stream k s;
         case send_open (hf_is_end_stream (hf_flags f)) (st_state x) of
           (Ok _, st) \<Rightarrow> do {
             let s = put_stream k (x\<lparr>st_state := st\<rparr>) s;
             local \<leftarrow> local_init (hf_stream_id f) s;
             let pending_open = (local \<and> \<not> st_is_pending_push x);
             s \<leftarrow> upd_when pending_open (prio_queue_open k) s;
             s \<leftarrow> prio_queue_frame E (FrameHeaders f) k s;
             Some (Inr (), if pending_open then wake_task s else s)
           }
         | (Err e, _) \<Rightarrow> Some (Inl e, s)
         | (Panic, _) \<Rightarrow> None
       })"

definition send_interim_informational_headers ::
  "env \<Rightarrow> headers_frame \<Rightarrow> key \<Rightarrow> streams \<Rightarrow> ((user_error + unit) \<times> streams) option" where
  "send_interim_informational_headers E f k s =
    (case check_headers (hb_fields (hf_block f)) of
       Inl e \<Rightarrow> Some (Inl e, s)
     | Inr _ \<Rightarrow> do {
         _ \<leftarrow> check (headers_is_informational f \<and> \<not> hf_is_end_stream (hf_flags f));
         s \<leftarrow> prio_queue_frame E (FrameHeaders f) k s;
         Some (Inr (), s)
       })"

definition send_data :: "env \<Rightarrow> bytes data_frame \<Rightarrow> key \<Rightarrow> streams \<Rightarrow> ((user_error + unit) \<times> streams) option" where
  "send_data E f k s = prio_send_data E f k s"

definition send_trailers :: "env \<Rightarrow> headers_frame \<Rightarrow> key \<Rightarrow> streams \<Rightarrow> ((user_error + unit) \<times> streams) option" where
  "send_trailers E f k s =
    (case check_headers (hb_fields (hf_block f)) of
       Inl e \<Rightarrow> Some (Inl e, s)
     | Inr _ \<Rightarrow> do {
         x \<leftarrow> get_stream k s;
         if \<not> is_send_streaming (st_state x) then Some (Inl UnexpectedFrameType, s)
         else do {
           st \<leftarrow> send_close (st_state x);
           s \<leftarrow> prio_queue_frame E (FrameHeaders f) k (put_stream k (x\<lparr>st_state := st\<rparr>) s);
           s \<leftarrow> prio_reserve_capacity 0 k s;
           Some (Inr (), s)
         }
       })"

section \<open>Resets\<close>

definition send_reset :: "env \<Rightarrow> reason \<Rightarrow> initiator \<Rightarrow> key \<Rightarrow> streams \<Rightarrow> streams option" where
  "send_reset E r ini k s = do {
     x \<leftarrow> get_stream k s;
     if is_reset (st_state x) then Some s
     else do {
       let was_closed = is_closed (st_state x);
       let was_empty = deque_is_empty (st_pending_send x);
       let s = put_stream k (stream_set_reset r ini x) s;
       if was_closed \<and> was_empty then Some s
       else do {
         s \<leftarrow> upd_when (\<not> st_is_pending_open x) (prio_clear_queue k) s;
         s \<leftarrow> prio_queue_frame E (FrameReset (reset_new (st_id x) r)) k s;
         prio_reclaim_all_capacity k s
       }
     }
   }"

definition send_schedule_implicit_reset :: "key \<Rightarrow> reason \<Rightarrow> streams \<Rightarrow> streams option" where
  "send_schedule_implicit_reset k r s = do {
     x \<leftarrow> get_stream k s;
     if is_closed (st_state x) then Some s
     else do {
       st \<leftarrow> set_scheduled_reset r (st_state x);
       s \<leftarrow> prio_reclaim_reserved_capacity k (put_stream k (x\<lparr>st_state := st\<rparr>) s);
       prio_schedule_send k s
     }
   }"

definition send_handle_error :: "key \<Rightarrow> streams \<Rightarrow> streams option" where
  "send_handle_error k s = do {
     s \<leftarrow> prio_clear_queue k s;
     prio_reclaim_all_capacity k s
   }"

section \<open>Capacity\<close>

definition send_reserve_capacity :: "u32 \<Rightarrow> key \<Rightarrow> streams \<Rightarrow> streams option" where
  "send_reserve_capacity cap k s = prio_reserve_capacity cap k s"

definition send_capacity :: "key \<Rightarrow> streams \<Rightarrow> u32 option" where
  "send_capacity k s = do {
     x \<leftarrow> get_stream k s;
     Some (stream_capacity (pz_max_buffer_size (prio s)) x)
   }"

definition send_poll_capacity ::
  "waker \<Rightarrow> key \<Rightarrow> streams \<Rightarrow> ((user_error + u32) option poll \<times> streams) option" where
  "send_poll_capacity w k s = do {
     x \<leftarrow> get_stream k s;
     if \<not> is_send_streaming (st_state x) then Some (Ready None, s)
     else if \<not> st_send_capacity_inc x then Some (Pending, put_stream k (wait_send w x) s)
     else do {
       let x = x\<lparr>st_send_capacity_inc := False\<rparr>;
       let capacity = stream_capacity (pz_max_buffer_size (prio s)) x;
       if capacity = 0 then Some (Pending, put_stream k (wait_send w x) s)
       else Some (Ready (Some (Inr capacity)), put_stream k x s)
     }
   }"

definition send_poll_reset ::
  "waker \<Rightarrow> poll_reset \<Rightarrow> key \<Rightarrow> streams \<Rightarrow> ((error_kind + reason) poll \<times> streams) option" where
  "send_poll_reset w mode k s = do {
     x \<leftarrow> get_stream k s;
     case ensure_reason (st_state x) mode of
       Ok (Some r) \<Rightarrow> Some (Ready (Inr r), s)
     | Ok None \<Rightarrow> Some (Pending, put_stream k (wait_send w x) s)
     | Err e \<Rightarrow> Some (Ready (Inl e), s)
     | Panic \<Rightarrow> None
   }"

section \<open>Frames of the peer\<close>

definition send_recv_connection_window_update :: "window_update \<Rightarrow> streams \<Rightarrow> ((reason + unit) \<times> streams) option" where
  "send_recv_connection_window_update f s = prio_recv_connection_window_update (wu_size_increment f) s"

definition send_recv_stream_window_update ::
  "env \<Rightarrow> u32 \<Rightarrow> key \<Rightarrow> streams \<Rightarrow> ((reason + unit) \<times> streams) option" where
  "send_recv_stream_window_update E sz k s = do {
     (r, s) \<leftarrow> prio_recv_stream_window_update sz k s;
     case r of
       Inl e \<Rightarrow> do {
         s \<leftarrow> send_reset E FLOW_CONTROL_ERROR Library k s;
         Some (Inl e, s)
       }
     | Inr _ \<Rightarrow> Some (Inr (), s)
   }"

definition send_recv_go_away :: "stream_id \<Rightarrow> streams \<Rightarrow> (proto_error + unit) \<times> streams" where
  "send_recv_go_away last_stream_id s =
    (if last_stream_id > sn_max_stream_id (ss_send s) then (Inl (library_go_away PROTOCOL_ERROR), s)
     else (Inr (), s\<lparr>ss_send := (ss_send s)\<lparr>sn_max_stream_id := last_stream_id\<rparr>\<rparr>))"

text \<open>A smaller initial window takes \<open>dec\<close> from the window of a stream, and from its capacity what exceeds the window then; the
  second result is what the stream gave up.\<close>

definition dec_stream_window :: "u32 \<Rightarrow> stream \<Rightarrow> ((proto_error + u32) \<times> stream) option" where
  "dec_stream_window dec x =
    (if is_send_closed (st_state x) \<and> st_buffered_send_data x = 0 then Some (Inr 0, x)
     else case dec_send_window (st_send_flow x) dec of
       (Ok _, fl) \<Rightarrow>
         (let x = x\<lparr>st_send_flow := fl\<rparr>; window_size = flow_window_size fl; available = window_as_size (fc_available fl) in
          if available > window_size
          then (case claim_capacity fl (available - window_size) of
                  (Ok _, fl) \<Rightarrow> Some (Inr (available - window_size), x\<lparr>st_send_flow := fl\<rparr>)
                | (Err r, fl) \<Rightarrow> Some (Inl (library_go_away r), x\<lparr>st_send_flow := fl\<rparr>)
                | (Panic, _) \<Rightarrow> None)
          else Some (Inr 0, x))
     | (Err r, fl) \<Rightarrow> Some (Inl (library_go_away r), x\<lparr>st_send_flow := fl\<rparr>)
     | (Panic, _) \<Rightarrow> None)"

text \<open>\<open>total_reclaimed\<close> is a \<open>u32\<close>; its overflow panics.\<close>

definition dec_all_windows :: "u32 \<Rightarrow> streams \<Rightarrow> ((proto_error + u32) \<times> streams) option" where
  "dec_all_windows dec s =
    (case store_try_for_each (\<lambda>(s, _). ss_store s)
        (\<lambda>k (s, tot).
          case do { x \<leftarrow> get_stream k s; dec_stream_window dec x } of
            None \<Rightarrow> (Panic, (s, tot))
          | Some (Inl e, x) \<Rightarrow> (Err e, (put_stream k x s, tot))
          | Some (Inr n, x) \<Rightarrow>
              if unat tot + unat n \<ge> 2 ^ 32 then (Panic, (s, tot)) else (Ok (), (put_stream k x s, tot + n)))
        (s, 0) of
       (Ok _, (s, tot)) \<Rightarrow> Some (Inr tot, s)
     | (Err e, (s, _)) \<Rightarrow> Some (Inl e, s)
     | (Panic, _) \<Rightarrow> None)"

definition send_apply_initial_window :: "env \<Rightarrow> u32 \<Rightarrow> streams \<Rightarrow> ((proto_error + unit) \<times> streams) option" where
  "send_apply_initial_window E val s =
    (let old_val = sn_init_window_sz (ss_send s);
         s = s\<lparr>ss_send := (ss_send s)\<lparr>sn_init_window_sz := val\<rparr>\<rparr>
     in if val < old_val
        then question (dec_all_windows (old_val - val) s) (\<lambda>tot s. do {
          s \<leftarrow> prio_assign_connection_capacity tot s;
          Some (Inr (), s)
        })
        else if val > old_val
        then each_stream (\<lambda>k s. err_map library_go_away (send_recv_stream_window_update E (val - old_val) k s)) s
        else Some (Inr (), s))"

definition send_apply_remote_settings :: "env \<Rightarrow> settings \<Rightarrow> streams \<Rightarrow> ((proto_error + unit) \<times> streams) option" where
  "send_apply_remote_settings E v s =
    (let s = (case settings_is_extended_connect_protocol_enabled v of
                Some b \<Rightarrow> s\<lparr>ss_send := (ss_send s)\<lparr>sn_is_extended_connect_protocol_enabled := b\<rparr>\<rparr>
              | None \<Rightarrow> s)
     in question
          (case set_initial_window_size v of
             Some val \<Rightarrow> send_apply_initial_window E val s
           | None \<Rightarrow> Some (Inr (), s))
          (\<lambda>_ s. Some (Inr (),
            case settings_is_push_enabled v of
              Some b \<Rightarrow> s\<lparr>ss_send := (ss_send s)\<lparr>sn_is_push_enabled := b\<rparr>\<rparr>
            | None \<Rightarrow> s)))"

definition send_clear_queues :: "streams \<Rightarrow> streams option" where
  "send_clear_queues s = do {
     s \<leftarrow> prio_clear_pending_capacity s;
     s \<leftarrow> prio_clear_pending_send s;
     prio_clear_pending_open s
   }"

end
