(* ===== verification/Recv_Half.thy ===== *)
theory Recv_Half
  imports Peer_Convert Send_Half
begin

text \<open>
  The receiving half of the streams (\<open>src/proto/streams/recv.rs\<close>): streams opened by the peer, header blocks, DATA and the receive
  windows, what the user reads, locally reset streams that expire, and the WINDOW_UPDATE frames to send.
\<close>

abbreviation upd_recv :: "(recv_state \<Rightarrow> recv_state) \<Rightarrow> streams \<Rightarrow> streams" where
  "upd_recv f s \<equiv> s\<lparr>ss_recv := f (ss_recv s)\<rparr>"

definition recv_new :: "dyn \<Rightarrow> config \<Rightarrow> recv_state option" where
  "recv_new peer cfg = do {
     fl \<leftarrow> assert_ok (inc_window flow_new DEFAULT_INITIAL_WINDOW_SIZE);
     fl \<leftarrow> assert_ok (assign_capacity fl DEFAULT_INITIAL_WINDOW_SIZE);
     Some \<lparr>rv_init_window_sz = DEFAULT_INITIAL_WINDOW_SIZE, rv_flow = fl, rv_in_flight_data = 0,
       rv_next_stream_id = Ok (StreamId (if dyn_is_server peer then 1 else 2)), rv_last_processed_id = STREAM_ID_ZERO,
       rv_max_stream_id = STREAM_ID_MAX, rv_pending_window_updates = queue_new, rv_pending_accept = queue_new,
       rv_pending_reset_expired = queue_new, rv_reset_duration = cfg_local_reset_duration cfg, rv_buffer = (\<lambda>_. None),
       rv_is_push_enabled = cfg_local_push_enabled cfg,
       rv_is_extended_connect_protocol_enabled = cfg_extended_connect_protocol_enabled cfg\<rparr>
   }"

section \<open>Identifiers\<close>

definition recv_next_stream_id :: "streams \<Rightarrow> proto_error + stream_id" where
  "recv_next_stream_id s = (case rv_next_stream_id (ss_recv s) of Ok i \<Rightarrow> Inr i | _ \<Rightarrow> Inl (library_go_away PROTOCOL_ERROR))"

text \<open>\<open>open\<close>: \<open>None\<close> in the result when the stream is refused.\<close>

definition recv_open_id :: "stream_id \<Rightarrow> open_mode \<Rightarrow> streams \<Rightarrow> ((proto_error + stream_id option) \<times> streams) option" where
  "recv_open_id i mode s =
    (case ensure_can_open (cnt_peer (ss_counts s)) i mode of
       Panic \<Rightarrow> None
     | Err e \<Rightarrow> Some (Inl e, s)
     | Ok _ \<Rightarrow>
         (case recv_next_stream_id s of
            Inl e \<Rightarrow> Some (Inl e, s)
          | Inr next \<Rightarrow>
              if i < next then Some (Inl (library_go_away PROTOCOL_ERROR), s)
              else do {
                n \<leftarrow> next_id_checked i;
                let s = upd_recv (\<lambda>r. r\<lparr>rv_next_stream_id := n\<rparr>) s;
                Some (Inr (if can_inc_num_recv_streams (ss_counts s) then Some i else None), s)
              }))"

definition recv_ensure_not_idle :: "stream_id \<Rightarrow> streams \<Rightarrow> reason + unit" where
  "recv_ensure_not_idle i s =
    (case rv_next_stream_id (ss_recv s) of Ok next \<Rightarrow> if i \<ge> next then Inl PROTOCOL_ERROR else Inr () | _ \<Rightarrow> Inr ())"

definition recv_may_have_created_stream :: "stream_id \<Rightarrow> streams \<Rightarrow> bool option" where
  "recv_may_have_created_stream i s =
    (case rv_next_stream_id (ss_recv s) of
       Ok next \<Rightarrow> do {
         _ \<leftarrow> check (is_server_initiated i = is_server_initiated next);
         Some (i < next)
       }
     | _ \<Rightarrow> Some True)"

definition recv_maybe_reset_next_stream_id :: "stream_id \<Rightarrow> streams \<Rightarrow> streams option" where
  "recv_maybe_reset_next_stream_id i s =
    (case rv_next_stream_id (ss_recv s) of
       Ok next \<Rightarrow> do {
         _ \<leftarrow> check (is_server_initiated i = is_server_initiated next);
         if i \<ge> next
         then do {
           n \<leftarrow> next_id_checked i;
           Some (upd_recv (\<lambda>r. r\<lparr>rv_next_stream_id := n\<rparr>) s)
         }
         else Some s
       }
     | _ \<Rightarrow> Some s)"

definition recv_ensure_can_reserve :: "streams \<Rightarrow> proto_error + unit" where
  "recv_ensure_can_reserve s =
    (if \<not> rv_is_push_enabled (ss_recv s) then Inl (library_go_away PROTOCOL_ERROR) else Inr ())"

definition recv_go_away :: "stream_id \<Rightarrow> streams \<Rightarrow> streams option" where
  "recv_go_away last_processed_id s = do {
     _ \<leftarrow> check (rv_max_stream_id (ss_recv s) \<ge> last_processed_id);
     Some (upd_recv (\<lambda>r. r\<lparr>rv_max_stream_id := last_processed_id\<rparr>) s)
   }"

section \<open>Header blocks\<close>

datatype recv_header_error = Oversize | BlockState proto_error

text \<open>The values of \<open>content-length\<close>: \<open>Inl\<close> when one cannot be parsed or two differ.\<close>

fun content_length_of :: "nat option \<Rightarrow> header_value list \<Rightarrow> (unit + nat option) option" where
  "content_length_of first [] = Some (Inr first)"
| "content_length_of first (v # vs) =
    (case parse_u64 (hv_bytes v) of
       Panic \<Rightarrow> None
     | Err _ \<Rightarrow> Some (Inl ())
     | Ok n \<Rightarrow>
         (case first of
            Some m \<Rightarrow> if n \<noteq> m then Some (Inl ()) else content_length_of first vs
          | None \<Rightarrow> content_length_of (Some n) vs))"

definition recv_content_length :: "headers_frame \<Rightarrow> stream \<Rightarrow> ((proto_error + unit) \<times> stream) option" where
  "recv_content_length f x = do {
     r \<leftarrow> content_length_of None (header_get_all (ascii ''content-length'') (hb_fields (hf_block f)));
     case r of
       Inl _ \<Rightarrow> Some (Inl (library_reset (st_id x) PROTOCOL_ERROR), x)
     | Inr (Some n) \<Rightarrow>
         if st_content_length x = Head then Some (Inr (), x)
         else (let x = x\<lparr>st_content_length := Remaining (of_nat n)\<rparr> in
           if hf_is_end_stream (hf_flags f) \<and> n > 0 \<and>
              (case ps_status (hb_pseudo (hf_block f)) of Some st \<Rightarrow> st \<noteq> 204 \<and> st \<noteq> 304 | None \<Rightarrow> True)
           then Some (Inl (library_reset (st_id x) PROTOCOL_ERROR), x)
           else Some (Inr (), x))
     | Inr None \<Rightarrow> Some (Inr (), x)
   }"

text \<open>The message of a header block that is complete and within its limits.\<close>

definition recv_message :: "env \<Rightarrow> headers_frame \<Rightarrow> key \<Rightarrow> streams \<Rightarrow> ((recv_header_error + unit) \<times> streams) option" where
  "recv_message E f k s = do {
     let i = hf_stream_id f;
     let (p, fs) = headers_into_parts f;
     let peer = cnt_peer (ss_counts s);
     x \<leftarrow> get_stream k s;
     if ps_protocol p \<noteq> None \<and> dyn_is_server peer \<and> \<not> rv_is_extended_connect_protocol_enabled (ss_recv s)
     then Some (Inl (BlockState (library_reset (st_id x) PROTOCOL_ERROR)), s)
     else if ps_status p \<noteq> None \<and> dyn_is_server peer
     then Some (Inl (BlockState (library_reset (st_id x) PROTOCOL_ERROR)), s)
     else case convert_poll_message E peer p fs i of
       Inl e \<Rightarrow> Some (Inl (BlockState e), s)
     | Inr m \<Rightarrow>
         if \<not> pseudo_is_informational p
         then do {
           s \<leftarrow> event_push_back E (EvHeaders m) k s;
           s \<leftarrow> mod_stream k notify_recv s;
           s \<leftarrow> upd_when (dyn_is_server peer) (q_push 0 NextAccept k) s;
           Some (Inr (), s)
         }
         else do {
           s \<leftarrow> event_push_back E (EvInformationalHeaders m) k s;
           s \<leftarrow> mod_stream k notify_recv s;
           Some (Inr (), s)
         }
   }"

definition recv_headers :: "env \<Rightarrow> headers_frame \<Rightarrow> key \<Rightarrow> streams \<Rightarrow> ((recv_header_error + unit) \<times> streams) option" where
  "recv_headers E f k s = do {
     x \<leftarrow> get_stream k s;
     case recv_open (hf_is_end_stream (hf_flags f)) (headers_is_informational f) (st_state x) of
       (Panic, _) \<Rightarrow> None
     | (Err e, _) \<Rightarrow> Some (Inl (BlockState e), s)
     | (Ok is_initial, st) \<Rightarrow> do {
         let s = put_stream k (x\<lparr>st_state := st\<rparr>) s;
         s \<leftarrow> upd_when is_initial (\<lambda>s. do {
             let s = (if hf_stream_id f > rv_last_processed_id (ss_recv s)
                      then upd_recv (\<lambda>r. r\<lparr>rv_last_processed_id := hf_stream_id f\<rparr>) s else s);
             upd_when (\<not> st_is_counted x) (count_recv k) s
           }) s;
         x \<leftarrow> get_stream k s;
         (r, x) \<leftarrow> recv_content_length f x;
         let s = put_stream k x s;
         case r of
           Inl e \<Rightarrow> Some (Inl (BlockState e), s)
         | Inr _ \<Rightarrow>
             if hb_is_over_size (hf_block f) then Some (Inl Oversize, s)
             else recv_message E f k s
       }
   }"

definition recv_trailers :: "env \<Rightarrow> headers_frame \<Rightarrow> key \<Rightarrow> streams \<Rightarrow> ((proto_error + unit) \<times> streams) option" where
  "recv_trailers E f k s = do {
     x \<leftarrow> get_stream k s;
     case recv_close (st_state x) of
       (Panic, _) \<Rightarrow> None
     | (Err e, _) \<Rightarrow> Some (Inl e, s)
     | (Ok _, st) \<Rightarrow> do {
         let s = put_stream k (x\<lparr>st_state := st\<rparr>) s;
         if ensure_content_length_zero x \<noteq> Ok () then Some (Inl (library_reset (st_id x) PROTOCOL_ERROR), s)
         else do {
           s \<leftarrow> event_push_back E (EvTrailers (hb_fields (hf_block f))) k s;
           s \<leftarrow> mod_stream k notify_recv s;
           Some (Inr (), s)
         }
       }
   }"

definition recv_push_promise :: "env \<Rightarrow> push_promise \<Rightarrow> key \<Rightarrow> streams \<Rightarrow> ((proto_error + unit) \<times> streams) option" where
  "recv_push_promise E f k s = do {
     x \<leftarrow> get_stream k s;
     case reserve_remote (st_state x) of
       (Panic, _) \<Rightarrow> None
     | (Err e, _) \<Rightarrow> Some (Inl e, s)
     | (Ok _, st) \<Rightarrow> do {
         let s = put_stream k (x\<lparr>st_state := st\<rparr>) s;
         let i = pp_promised_id f;
         if hb_is_over_size (pp_block f) then Some (Inl (library_reset i PROTOCOL_ERROR), s)
         else case server_convert_poll_message E (hb_pseudo (pp_block f)) (hb_fields (pp_block f)) i of
           Inl e \<Rightarrow> Some (Inl e, s)
         | Inr req \<Rightarrow>
             (case validate_request (rq_method req) (rq_fields req) of
                Panic \<Rightarrow> None
              | Err _ \<Rightarrow> Some (Inl (library_reset i PROTOCOL_ERROR), s)
              | Ok _ \<Rightarrow> do {
                  s \<leftarrow> event_push_back E (EvHeaders (PollServer req)) k s;
                  s \<leftarrow> mod_stream k (\<lambda>x. notify_push (notify_recv x)) s;
                  Some (Inr (), s)
                })
       }
   }"

section \<open>Receive capacity\<close>

definition unclaimed_some :: "flow_control \<Rightarrow> bool option" where
  "unclaimed_some fl = (case (unclaimed_capacity fl :: (u32 option, reason) outcome) of Ok v \<Rightarrow> Some (v \<noteq> None) | _ \<Rightarrow> None)"

text \<open>The flag says whether the task of the connection is passed, or \<open>&mut None\<close>.\<close>

definition recv_release_connection_capacity :: "u32 \<Rightarrow> bool \<Rightarrow> streams \<Rightarrow> streams option" where
  "recv_release_connection_capacity cap with_task s = do {
     _ \<leftarrow> check (cap \<le> rv_in_flight_data (ss_recv s));
     fl \<leftarrow> assert_ok (assign_capacity (rv_flow (ss_recv s)) cap);
     let s = upd_recv (\<lambda>r. r\<lparr>rv_in_flight_data := rv_in_flight_data r - cap, rv_flow := fl\<rparr>) s;
     b \<leftarrow> unclaimed_some fl;
     Some (if b \<and> with_task then wake_task s else s)
   }"

definition recv_release_capacity :: "u32 \<Rightarrow> key \<Rightarrow> bool \<Rightarrow> streams \<Rightarrow> ((user_error + unit) \<times> streams) option" where
  "recv_release_capacity cap k with_task s = do {
     x \<leftarrow> get_stream k s;
     if cap > st_in_flight_recv_data x then Some (Inl ReleaseCapacityTooBig, s)
     else do {
       s \<leftarrow> recv_release_connection_capacity cap with_task s;
       fl \<leftarrow> assert_ok (assign_capacity (st_recv_flow x) cap);
       let s = put_stream k (x\<lparr>st_in_flight_recv_data := st_in_flight_recv_data x - cap, st_recv_flow := fl\<rparr>) s;
       b \<leftarrow> unclaimed_some fl;
       s \<leftarrow> upd_when b (\<lambda>s. do {
           s \<leftarrow> q_push 0 NextWindowUpdate k s;
           Some (if with_task then wake_task s else s)
         }) s;
       Some (Inr (), s)
     }
   }"

text \<open>The loop of \<open>clear_recv_buffer\<close>; \<open>lim\<close> is \<open>stream.in_flight_recv_data\<close>.\<close>

definition drop_event :: "event \<Rightarrow> u32 \<Rightarrow> u32 \<Rightarrow> counts \<Rightarrow> u32 \<times> counts" where
  "drop_event e lim to_release c =
    (case e of
       EvData d \<Rightarrow>
         (min (of_nat (min (unat to_release + unat (of_nat (length (de_payload d)) :: u32)) (2 ^ 32 - 1))) lim,
          if de_is_budgeted d then release_data_frame (length (de_payload d)) c else c)
     | _ \<Rightarrow> (to_release, c))"

partial_function (option) drop_events :: "key \<Rightarrow> u32 \<Rightarrow> u32 \<Rightarrow> streams \<Rightarrow> (u32 \<times> streams) option" where
  "drop_events k lim to_release s = do {
     (e, s) \<leftarrow> event_pop_front k s;
     case e of
       None \<Rightarrow> Some (to_release, s)
     | Some e \<Rightarrow>
         (case drop_event e lim to_release (ss_counts s) of (to_release, c) \<Rightarrow>
            drop_events k lim to_release (s\<lparr>ss_counts := c\<rparr>))
   }"

definition recv_clear_recv_buffer :: "key \<Rightarrow> streams \<Rightarrow> streams option" where
  "recv_clear_recv_buffer k s = do {
     x \<leftarrow> get_stream k s;
     (to_release, s) \<leftarrow> drop_events k (st_in_flight_recv_data x) 0 s;
     if to_release > 0
     then do {
       s \<leftarrow> mod_stream k (\<lambda>x. x\<lparr>st_in_flight_recv_data := st_in_flight_recv_data x - to_release\<rparr>) s;
       recv_release_connection_capacity to_release True s
     }
     else Some s
   }"

definition recv_release_closed_capacity :: "key \<Rightarrow> streams \<Rightarrow> streams option" where
  "recv_release_closed_capacity k s = do {
     x \<leftarrow> get_stream k s;
     _ \<leftarrow> check (st_ref_count x = 0);
     s \<leftarrow> upd_when (st_in_flight_recv_data x \<noteq> 0) (\<lambda>s. do {
         s \<leftarrow> recv_release_connection_capacity (st_in_flight_recv_data x) True s;
         mod_stream k (\<lambda>x. x\<lparr>st_in_flight_recv_data := 0\<rparr>) s
       }) s;
     recv_clear_recv_buffer k s
   }"

definition recv_set_target_connection_window :: "u32 \<Rightarrow> streams \<Rightarrow> ((reason + unit) \<times> streams) option" where
  "recv_set_target_connection_window target s =
    (case window_add (fc_available (rv_flow (ss_recv s))) (rv_in_flight_data (ss_recv s)) of
       Panic \<Rightarrow> None
     | Err e \<Rightarrow> Some (Inl e, s)
     | Ok w \<Rightarrow> do {
         current \<leftarrow> window_checked_size w;
         let fl = rv_flow (ss_recv s);
         case (if target > current then assign_capacity fl (target - current) else claim_capacity fl (current - target)) of
           (Panic, _) \<Rightarrow> None
         | (Err e, fl) \<Rightarrow> Some (Inl e, upd_recv (\<lambda>r. r\<lparr>rv_flow := fl\<rparr>) s)
         | (Ok _, fl) \<Rightarrow> do {
             let s = upd_recv (\<lambda>r. r\<lparr>rv_flow := fl\<rparr>) s;
             b \<leftarrow> unclaimed_some fl;
             Some (Inr (), if b then wake_task s else s)
           }
       })"

text \<open>The window of a stream after a change of the local initial window size.\<close>

definition recv_adjust_window :: "u32 \<Rightarrow> u32 \<Rightarrow> stream \<Rightarrow> ((proto_error + unit) \<times> stream) option" where
  "recv_adjust_window target old_sz x =
    (case (if target < old_sz then dec_recv_window (st_recv_flow x) (old_sz - target)
           else case inc_window (st_recv_flow x) (target - old_sz) of
             (Ok _, fl) \<Rightarrow> assign_capacity fl (target - old_sz)
           | (r, fl) \<Rightarrow> (r, fl)) of
       (Panic, _) \<Rightarrow> None
     | (Err e, fl) \<Rightarrow> Some (Inl (library_go_away e), x\<lparr>st_recv_flow := fl\<rparr>)
     | (Ok _, fl) \<Rightarrow> Some (Inr (), x\<lparr>st_recv_flow := fl\<rparr>))"

definition recv_apply_local_settings :: "settings \<Rightarrow> streams \<Rightarrow> ((proto_error + unit) \<times> streams) option" where
  "recv_apply_local_settings v s =
    (let s = (case settings_is_extended_connect_protocol_enabled v of
                Some b \<Rightarrow> upd_recv (\<lambda>r. r\<lparr>rv_is_extended_connect_protocol_enabled := b\<rparr>) s
              | None \<Rightarrow> s)
     in case set_initial_window_size v of
          None \<Rightarrow> Some (Inr (), s)
        | Some target \<Rightarrow>
            let old_sz = rv_init_window_sz (ss_recv s);
                s = upd_recv (\<lambda>r. r\<lparr>rv_init_window_sz := target\<rparr>) s
            in if target = old_sz then Some (Inr (), s)
               else each_stream (\<lambda>k s. do {
                 x \<leftarrow> get_stream k s;
                 (r, x) \<leftarrow> recv_adjust_window target old_sz x;
                 Some (r, put_stream k x s)
               }) s)"

section \<open>DATA\<close>

definition recv_consume_connection_window :: "u32 \<Rightarrow> streams \<Rightarrow> ((proto_error + unit) \<times> streams) option" where
  "recv_consume_connection_window sz s =
    (if flow_window_size (rv_flow (ss_recv s)) < sz then Some (Inl (library_go_away FLOW_CONTROL_ERROR), s)
     else case flow_send_data (rv_flow (ss_recv s)) sz of
       (Panic, _) \<Rightarrow> None
     | (Err e, fl) \<Rightarrow> Some (Inl (library_go_away e), upd_recv (\<lambda>r. r\<lparr>rv_flow := fl\<rparr>) s)
     | (Ok _, fl) \<Rightarrow> do {
         _ \<leftarrow> check (unat (rv_in_flight_data (ss_recv s)) + unat sz < 2 ^ 32);
         Some (Inr (), upd_recv (\<lambda>r. r\<lparr>rv_flow := fl, rv_in_flight_data := rv_in_flight_data r + sz\<rparr>) s)
       })"

definition recv_ignore_data :: "u32 \<Rightarrow> streams \<Rightarrow> ((proto_error + unit) \<times> streams) option" where
  "recv_ignore_data sz s = question (recv_consume_connection_window sz s) (\<lambda>_ s. do {
     s \<leftarrow> recv_release_connection_capacity sz False s;
     Some (Inr (), s)
   })"

text \<open>The checks of the content length, and the end of the stream.\<close>

definition recv_data_content :: "bytes data_frame \<Rightarrow> stream \<Rightarrow> (proto_error + unit) \<times> stream" where
  "recv_data_content f x =
    (case dec_content_length (length (data_data f)) x of
       (Ok _, x) \<Rightarrow>
         if data_is_end_stream f
         then (if ensure_content_length_zero x \<noteq> Ok () then (Inl (library_reset (st_id x) PROTOCOL_ERROR), x)
               else case recv_close (st_state x) of
                 (Ok _, st) \<Rightarrow> (Inr (), x\<lparr>st_state := st\<rparr>)
               | (_, st) \<Rightarrow> (Inl (library_go_away PROTOCOL_ERROR), x\<lparr>st_state := st\<rparr>))
         else (Inr (), x)
     | (_, x) \<Rightarrow> (Inl (library_reset (st_id x) PROTOCOL_ERROR), x))"

text \<open>A frame that is delivered: the window of the stream, the padding, and the event for the user.\<close>

definition recv_data_deliver :: "env \<Rightarrow> bytes data_frame \<Rightarrow> u32 \<Rightarrow> key \<Rightarrow> streams \<Rightarrow> ((proto_error + unit) \<times> streams) option" where
  "recv_data_deliver E f sz k s = do {
     x \<leftarrow> get_stream k s;
     case flow_send_data (st_recv_flow x) sz of
       (Panic, _) \<Rightarrow> None
     | (Err e, fl) \<Rightarrow> Some (Inl (library_go_away e), put_stream k (x\<lparr>st_recv_flow := fl\<rparr>) s)
     | (Ok _, fl) \<Rightarrow> do {
         _ \<leftarrow> check (unat (st_in_flight_recv_data x) + unat sz < 2 ^ 32);
         let s = put_stream k (x\<lparr>st_recv_flow := fl, st_in_flight_recv_data := st_in_flight_recv_data x + sz\<rparr>) s;
         let padding = (of_nat (flow_controlled_len f - length (data_data f)) :: u32);
         s \<leftarrow> upd_when (padding > 0) (\<lambda>s. do {
             (r, s) \<leftarrow> recv_release_capacity padding k False s;
             _ \<leftarrow> check (r = Inr ());
             Some s
           }) s;
         if data_data f = [] \<and> \<not> data_is_end_stream f then Some (Inr (), s)
         else do {
           s \<leftarrow> event_push_back E (EvData \<lparr>de_payload = data_data f, de_is_budgeted = (\<not> data_is_end_stream f)\<rparr>) k s;
           s \<leftarrow> mod_stream k notify_recv s;
           Some (Inr (), s)
         }
       }
   }"

definition recv_data :: "env \<Rightarrow> bytes data_frame \<Rightarrow> key \<Rightarrow> streams \<Rightarrow> ((proto_error + unit) \<times> streams) option" where
  "recv_data E f k s = do {
     _ \<leftarrow> check (flow_controlled_len f \<le> unat MAX_WINDOW_SIZE);
     let sz = (of_nat (flow_controlled_len f) :: u32);
     x \<leftarrow> get_stream k s;
     let is_ignoring_frame = is_local_error (st_state x);
     if \<not> is_ignoring_frame \<and> \<not> is_recv_streaming (st_state x) then Some (Inl (library_go_away PROTOCOL_ERROR), s)
     else if is_ignoring_frame then recv_ignore_data sz s
     else question (recv_consume_connection_window sz s) (\<lambda>_ s.
       if flow_window_size (st_recv_flow x) < sz then Some (Inl (library_reset (st_id x) FLOW_CONTROL_ERROR), s)
       else (case recv_data_content f x of (r, x) \<Rightarrow>
         let s = put_stream k x s in
         case r of
           Inl e \<Rightarrow> Some (Inl e, s)
         | Inr _ \<Rightarrow>
             if \<not> st_is_recv x
             then do {
               s \<leftarrow> recv_release_connection_capacity sz False s;
               Some (Inr (), s)
             }
             else recv_data_deliver E f sz k s))
   }"

section \<open>Resets and errors\<close>

definition notify_all :: "stream \<Rightarrow> stream" where
  "notify_all x = notify_push (notify_recv (notify_send x))"

definition recv_reset :: "reset \<Rightarrow> key \<Rightarrow> streams \<Rightarrow> ((proto_error + unit) \<times> streams) option" where
  "recv_reset f k s = do {
     x \<leftarrow> get_stream k s;
     let finish = (\<lambda>s. map_option (Pair (Inr ()))
       (mod_stream k (\<lambda>x. notify_all (x\<lparr>st_state := recv_reset_state f (st_is_pending_send x) (st_state x)\<rparr>)) s));
     if st_is_pending_accept x
     then (if can_inc_num_remote_reset_streams (ss_counts s)
           then do { s \<leftarrow> upd_counts inc_num_remote_reset_streams s; finish s }
           else Some (Inl (library_go_away_data ENHANCE_YOUR_CALM (ascii ''too_many_resets'')), s))
     else finish s
   }"

definition recv_handle_error :: "proto_error \<Rightarrow> key \<Rightarrow> streams \<Rightarrow> streams option" where
  "recv_handle_error e k s = mod_stream k (\<lambda>x. notify_all (x\<lparr>st_state := handle_error e (st_state x)\<rparr>)) s"

definition recv_recv_eof :: "key \<Rightarrow> streams \<Rightarrow> streams option" where
  "recv_recv_eof k s = mod_stream k (\<lambda>x. notify_all (x\<lparr>st_state := recv_eof (st_state x)\<rparr>)) s"

definition recv_enqueue_reset_expiration :: "env \<Rightarrow> key \<Rightarrow> streams \<Rightarrow> streams option" where
  "recv_enqueue_reset_expiration E k s = do {
     x \<leftarrow> get_stream k s;
     if \<not> is_local_error (st_state x) \<or> is_pending_reset_expiration x then Some s
     else if can_inc_num_reset_streams (ss_counts s)
     then do {
       s \<leftarrow> upd_counts inc_num_reset_streams s;
       q_push (ev_now E) NextResetExpire k s
     }
     else Some s
   }"

text \<open>\<open>pop_if\<close> calls the closure on the head of the queue: \<open>expect\<close> panics when its \<open>reset_at\<close> is not set.\<close>

definition reset_expired :: "nat \<Rightarrow> nat \<Rightarrow> stream \<Rightarrow> bool" where
  "reset_expired now duration x = (case st_reset_at x of Some t \<Rightarrow> now - t > duration | None \<Rightarrow> False)"

definition reset_head_timed :: "streams \<Rightarrow> unit option" where
  "reset_head_timed s =
    (case rv_pending_reset_expired (ss_recv s) of
       None \<Rightarrow> Some ()
     | Some ends \<Rightarrow> do {
         x \<leftarrow> get_stream (sx_head ends) s;
         check (st_reset_at x \<noteq> None)
       })"

partial_function (option) expire_resets :: "nat \<Rightarrow> streams \<Rightarrow> streams option" where
  "expire_resets now s = do {
     _ \<leftarrow> reset_head_timed s;
     (k, s) \<leftarrow> q_pop_if NextResetExpire (reset_expired now (rv_reset_duration (ss_recv s))) s;
     case k of
       None \<Rightarrow> Some s
     | Some k \<Rightarrow> do {
         s \<leftarrow> after k True s;
         expire_resets now s
       }
   }"

definition recv_clear_expired_reset_streams :: "env \<Rightarrow> streams \<Rightarrow> streams option" where
  "recv_clear_expired_reset_streams E s =
    (if queue_is_empty (rv_pending_reset_expired (ss_recv s)) then Some s else expire_resets (ev_now E) s)"

partial_function (option) recv_clear_stream_window_update_queue :: "streams \<Rightarrow> streams option" where
  "recv_clear_stream_window_update_queue s = do {
     (k, s) \<leftarrow> q_pop NextWindowUpdate s;
     case k of
       None \<Rightarrow> Some s
     | Some k \<Rightarrow> do {
         s \<leftarrow> transition_upd k Some s;
         recv_clear_stream_window_update_queue s
       }
   }"

partial_function (option) recv_clear_all_reset_streams :: "streams \<Rightarrow> streams option" where
  "recv_clear_all_reset_streams s = do {
     (k, s) \<leftarrow> q_pop NextResetExpire s;
     case k of
       None \<Rightarrow> Some s
     | Some k \<Rightarrow> do {
         s \<leftarrow> after k True s;
         recv_clear_all_reset_streams s
       }
   }"

partial_function (option) recv_clear_all_pending_accept :: "streams \<Rightarrow> streams option" where
  "recv_clear_all_pending_accept s = do {
     (k, s) \<leftarrow> q_pop NextAccept s;
     case k of
       None \<Rightarrow> Some s
     | Some k \<Rightarrow> do {
         s \<leftarrow> after k False s;
         recv_clear_all_pending_accept s
       }
   }"

definition recv_clear_queues :: "bool \<Rightarrow> streams \<Rightarrow> streams option" where
  "recv_clear_queues clear_pending_accept s = do {
     s \<leftarrow> recv_clear_stream_window_update_queue s;
     s \<leftarrow> recv_clear_all_reset_streams s;
     upd_when clear_pending_accept recv_clear_all_pending_accept s
   }"

section \<open>What the user reads\<close>

definition recv_is_end_stream :: "key \<Rightarrow> streams \<Rightarrow> bool option" where
  "recv_is_end_stream k s = do {
     x \<leftarrow> get_stream k s;
     Some (is_recv_end_stream (st_state x) \<and> deque_is_empty (st_pending_recv x))
   }"

definition recv_next_incoming :: "streams \<Rightarrow> (key option \<times> streams) option" where
  "recv_next_incoming s = q_pop NextAccept s"

definition recv_take_request :: "key \<Rightarrow> streams \<Rightarrow> (request \<times> streams) option" where
  "recv_take_request k s = do {
     (e, s) \<leftarrow> event_pop_front k s;
     case e of Some (EvHeaders (PollServer r)) \<Rightarrow> Some (r, s) | _ \<Rightarrow> None
   }"

text \<open>What a poll returns when nothing is there: \<open>ensure_recv_open\<close> decides whether more can come.\<close>

definition recv_schedule :: "waker \<Rightarrow> key \<Rightarrow> streams \<Rightarrow> ((proto_error + 'a) option poll \<times> streams) option" where
  "recv_schedule w k s = do {
     x \<leftarrow> get_stream k s;
     case ensure_recv_open (st_state x) of
       Panic \<Rightarrow> None
     | Err e \<Rightarrow> Some (Ready (Some (Inl e)), s)
     | Ok True \<Rightarrow> Some (Pending, put_stream k (x\<lparr>st_recv_task := Some w\<rparr>) s)
     | Ok False \<Rightarrow> Some (Ready None, s)
   }"

definition recv_poll_data :: "env \<Rightarrow> waker \<Rightarrow> key \<Rightarrow> streams \<Rightarrow> ((proto_error + data_event) option poll \<times> streams) option" where
  "recv_poll_data E w k s = do {
     (e, s) \<leftarrow> event_pop_front k s;
     case e of
       Some (EvData d) \<Rightarrow> Some (Ready (Some (Inr d)), s)
     | Some e \<Rightarrow> do {
         s \<leftarrow> event_push_front E e k s;
         s \<leftarrow> mod_stream k notify_recv s;
         Some (Ready None, s)
       }
     | None \<Rightarrow> recv_schedule w k s
   }"

definition recv_poll_trailers :: "env \<Rightarrow> waker \<Rightarrow> key \<Rightarrow> streams \<Rightarrow> ((proto_error + header_map) option poll \<times> streams) option" where
  "recv_poll_trailers E w k s = do {
     (e, s) \<leftarrow> event_pop_front k s;
     case e of
       Some (EvTrailers t) \<Rightarrow> Some (Ready (Some (Inr t)), s)
     | Some e \<Rightarrow> do {
         s \<leftarrow> event_push_front E e k s;
         s \<leftarrow> mod_stream k (\<lambda>x. x\<lparr>st_recv_task := Some w\<rparr>) s;
         Some (Pending, s)
       }
     | None \<Rightarrow> recv_schedule w k s
   }"

text \<open>Informational responses are skipped.\<close>

partial_function (option) recv_poll_response ::
  "waker \<Rightarrow> key \<Rightarrow> streams \<Rightarrow> ((proto_error + response) poll \<times> streams) option" where
  "recv_poll_response w k s = do {
     (e, s) \<leftarrow> event_pop_front k s;
     case e of
       Some (EvHeaders (PollClient r)) \<Rightarrow> Some (Ready (Inr r), s)
     | Some (EvInformationalHeaders _) \<Rightarrow> recv_poll_response w k s
     | Some _ \<Rightarrow> None
     | None \<Rightarrow> do {
         x \<leftarrow> get_stream k s;
         case ensure_recv_open (st_state x) of
           Panic \<Rightarrow> None
         | Err e \<Rightarrow> Some (Ready (Inl e), s)
         | Ok False \<Rightarrow> Some (Ready (Inl (library_reset (st_id x) PROTOCOL_ERROR)), s)
         | Ok True \<Rightarrow> Some (Pending, put_stream k (x\<lparr>st_recv_task := Some w\<rparr>) s)
       }
   }"

definition recv_poll_informational ::
  "env \<Rightarrow> waker \<Rightarrow> key \<Rightarrow> streams \<Rightarrow> ((proto_error + response) option poll \<times> streams) option" where
  "recv_poll_informational E w k s = do {
     (e, s) \<leftarrow> event_pop_front k s;
     case e of
       Some (EvHeaders (PollClient r)) \<Rightarrow> do {
         s \<leftarrow> event_push_front E (EvHeaders (PollClient r)) k s;
         Some (Ready None, s)
       }
     | Some (EvInformationalHeaders (PollClient r)) \<Rightarrow> Some (Ready (Some (Inr r)), s)
     | Some e \<Rightarrow> do {
         s \<leftarrow> event_push_front E e k s;
         recv_schedule w k s
       }
     | None \<Rightarrow> recv_schedule w k s
   }"

text \<open>\<open>pending_push_promises\<close> of a stream is a queue linked through \<open>NextAccept\<close>.\<close>

definition pop_push_promises :: "key \<Rightarrow> streams \<Rightarrow> (key option \<times> streams) option" where
  "pop_push_promises k s = do {
     x \<leftarrow> get_stream k s;
     let s = put_stream k (x\<lparr>st_pending_push_promises := None\<rparr>) s;
     (p, q, st) \<leftarrow> queue_pop (next_of 0 NextAccept) (st_pending_push_promises x, ss_store s);
     let s = s\<lparr>ss_store := st\<rparr>;
     s \<leftarrow> mod_stream k (\<lambda>x. x\<lparr>st_pending_push_promises := q\<rparr>) s;
     Some (p, s)
   }"

definition recv_poll_pushed ::
  "waker \<Rightarrow> key \<Rightarrow> streams \<Rightarrow> ((proto_error + (request \<times> key)) option poll \<times> streams) option" where
  "recv_poll_pushed w k s = do {
     (p, s) \<leftarrow> pop_push_promises k s;
     case p of
       Some p \<Rightarrow> do {
         (r, s) \<leftarrow> recv_take_request p s;
         Some (Ready (Some (Inr (r, p))), s)
       }
     | None \<Rightarrow> do {
         x \<leftarrow> get_stream k s;
         case ensure_recv_open (st_state x) of
           Panic \<Rightarrow> None
         | Err e \<Rightarrow> Some (Ready (Some (Inl e)), s)
         | Ok True \<Rightarrow> Some (Pending, put_stream k (x\<lparr>st_push_task := Some w\<rparr>) s)
         | Ok False \<Rightarrow> Some (Ready None, s)
       }
   }"

section \<open>Window updates\<close>

definition dst_buffer_frame :: "env \<Rightarrow> prioritized frame \<Rightarrow> dst \<Rightarrow> dst option" where
  "dst_buffer_frame E f d = assert_ok (dst_buffer E f d)"

definition recv_send_connection_window_update ::
  "env \<Rightarrow> streams \<times> dst \<Rightarrow> (buffer_status \<times> (streams \<times> dst)) option" where
  "recv_send_connection_window_update E sd = do {
     let (s, d) = sd;
     v \<leftarrow> ok_of (unclaimed_capacity (rv_flow (ss_recv s)) :: (u32 option, unit) outcome);
     case v of
       None \<Rightarrow> Some (Complete, (s, d))
     | Some incr \<Rightarrow>
         if \<not> dst_has_send_capacity d then Some (CodecFull, (s, d))
         else do {
           d \<leftarrow> dst_buffer_frame E (FrameWindowUpdate \<lparr>wu_stream_id = STREAM_ID_ZERO, wu_size_increment = incr\<rparr>) d;
           fl \<leftarrow> assert_ok (inc_window (rv_flow (ss_recv s)) incr);
           Some (Complete, (upd_recv (\<lambda>r. r\<lparr>rv_flow := fl\<rparr>) s, d))
         }
   }"

text \<open>The update of one stream; the closure of \<open>transition\<close>.\<close>

definition recv_send_stream_window_update :: "env \<Rightarrow> key \<Rightarrow> dst \<Rightarrow> streams \<Rightarrow> (dst \<times> streams) option" where
  "recv_send_stream_window_update E k d s = do {
     x \<leftarrow> get_stream k s;
     _ \<leftarrow> check (\<not> st_is_pending_window_update x);
     if \<not> is_recv_streaming (st_state x) then Some (d, s)
     else do {
       v \<leftarrow> ok_of (unclaimed_capacity (st_recv_flow x) :: (u32 option, unit) outcome);
       case v of
         None \<Rightarrow> Some (d, s)
       | Some incr \<Rightarrow> do {
           d \<leftarrow> dst_buffer_frame E (FrameWindowUpdate \<lparr>wu_stream_id = st_id x, wu_size_increment = incr\<rparr>) d;
           fl \<leftarrow> assert_ok (inc_window (st_recv_flow x) incr);
           Some (d, put_stream k (x\<lparr>st_recv_flow := fl\<rparr>) s)
         }
     }
   }"

partial_function (option) recv_send_stream_window_updates ::
  "env \<Rightarrow> streams \<times> dst \<Rightarrow> (buffer_status \<times> (streams \<times> dst)) option" where
  "recv_send_stream_window_updates E sd = do {
     let (s, d) = sd;
     if \<not> dst_has_send_capacity d then Some (CodecFull, (s, d))
     else do {
       (k, s) \<leftarrow> q_pop NextWindowUpdate s;
       case k of
         None \<Rightarrow> Some (Complete, (s, d))
       | Some k \<Rightarrow> do {
           (d, s) \<leftarrow> transition k (recv_send_stream_window_update E k d) s;
           recv_send_stream_window_updates E (s, d)
         }
     }
   }"

definition recv_buffer_pending :: "env \<Rightarrow> streams \<times> dst \<Rightarrow> (buffer_status \<times> (streams \<times> dst)) option" where
  "recv_buffer_pending E sd = do {
     (b, sd) \<leftarrow> recv_send_connection_window_update E sd;
     if b = CodecFull then Some (CodecFull, sd)
     else recv_send_stream_window_updates E sd
   }"

end
