(* ===== verification/Streams_Inner.thy ===== *)
theory Streams_Inner
  imports Recv_Half
begin

text \<open>
  What the connection does with its streams (\<open>src/proto/streams/streams.rs\<close>, \<open>Inner\<close> and \<open>Actions\<close>): the frames received, the
  errors and the end of the connection, and the frames to write. The peer of the connection is the one of the counters:
  \<open>Streams::new\<close> makes both from \<open>P::r#dyn()\<close>.
\<close>

section \<open>Construction\<close>

definition streams_new :: "dyn \<Rightarrow> config \<Rightarrow> streams option" where
  "streams_new peer cfg = do {
     rv \<leftarrow> recv_new peer cfg;
     sn \<leftarrow> send_new cfg;
     Some \<lparr>ss_counts = counts_new peer cfg, ss_recv = rv, ss_send = sn, ss_task = None, ss_conn_error = None,
       ss_store = store_new, ss_refs = 1, ss_send_buffer = (\<lambda>_. None), ss_woken = []\<rparr>
   }"

text \<open>A stream with the initial windows of the two halves, its entry in the store, and the removal of one.\<close>

definition new_stream :: "stream_id \<Rightarrow> streams \<Rightarrow> stream option" where
  "new_stream i s = stream_new i (sn_init_window_sz (ss_send s)) (rv_init_window_sz (ss_recv s))"

definition insert_stream :: "env \<Rightarrow> stream_id \<Rightarrow> stream \<Rightarrow> streams \<Rightarrow> (key \<times> streams) option" where
  "insert_stream E i x s = do {
     (k, st) \<leftarrow> store_insert (ev_stream_key E (sto_slab (ss_store s))) i x (ss_store s);
     Some (k, s\<lparr>ss_store := st\<rparr>)
   }"

definition insert_vacant :: "env \<Rightarrow> stream_id \<Rightarrow> stream \<Rightarrow> streams \<Rightarrow> key \<times> streams" where
  "insert_vacant E i x s =
    (case vacant_insert (ev_stream_key E (sto_slab (ss_store s))) i x (ss_store s) of
       (k, st) \<Rightarrow> (k, s\<lparr>ss_store := st\<rparr>))"

definition forget_stream :: "key \<Rightarrow> streams \<Rightarrow> streams option" where
  "forget_stream k s = do {
     (_, st) \<leftarrow> ptr_remove k (ptr_unlink k (ss_store s));
     Some (s\<lparr>ss_store := st\<rparr>)
   }"

section \<open>Actions\<close>

definition too_many_internal_resets :: bytes where
  "too_many_internal_resets = ascii ''too_many_internal_resets''"

text \<open>What follows a counted reset; a parked reader is woken.\<close>

definition actions_reset_stream :: "env \<Rightarrow> reason \<Rightarrow> initiator \<Rightarrow> key \<Rightarrow> streams \<Rightarrow> streams option" where
  "actions_reset_stream E r ini k s = do {
     s \<leftarrow> send_reset E r ini k s;
     s \<leftarrow> recv_enqueue_reset_expiration E k s;
     mod_stream k notify_recv s
   }"

definition actions_send_reset ::
  "env \<Rightarrow> key \<Rightarrow> reason \<Rightarrow> initiator \<Rightarrow> streams \<Rightarrow> ((reason \<times> bytes + unit) \<times> streams) option" where
  "actions_send_reset E k r ini s = transition k (\<lambda>s.
     if initiator_is_library ini \<and> \<not> can_inc_num_local_error_resets (ss_counts s)
     then Some (Inl (ENHANCE_YOUR_CALM, too_many_internal_resets), s)
     else do {
       s \<leftarrow> upd_when (initiator_is_library ini) (upd_counts inc_num_local_error_resets) s;
       s \<leftarrow> actions_reset_stream E r ini k s;
       Some (Inr (), s)
     }) s"

definition actions_reset_on_recv_stream_err ::
  "env \<Rightarrow> key \<Rightarrow> proto_error + unit \<Rightarrow> streams \<Rightarrow> ((proto_error + unit) \<times> streams) option" where
  "actions_reset_on_recv_stream_err E k res s =
    (case res of
       Inl (ErrReset i r ini) \<Rightarrow> do {
         x \<leftarrow> get_stream k s;
         _ \<leftarrow> check (i = st_id x);
         if can_inc_num_local_error_resets (ss_counts s)
         then do {
           s \<leftarrow> upd_counts inc_num_local_error_resets s;
           s \<leftarrow> actions_reset_stream E r ini k s;
           Some (Inr (), s)
         }
         else Some (Inl (library_go_away_data ENHANCE_YOUR_CALM too_many_internal_resets), s)
       }
     | res \<Rightarrow> Some (res, s))"

text \<open>The same, with the lock of the send buffer taken only when it is needed.\<close>

definition actions_reset_on_recv_stream_err_deferred ::
  "env \<Rightarrow> key \<Rightarrow> proto_error + unit \<Rightarrow> streams \<Rightarrow> ((proto_error + unit) \<times> streams) option" where
  "actions_reset_on_recv_stream_err_deferred E k res s =
    (case res of
       Inl (ErrReset _ _ _) \<Rightarrow> actions_reset_on_recv_stream_err E k res s
     | _ \<Rightarrow> Some (res, s))"

definition actions_ensure_not_idle :: "stream_id \<Rightarrow> streams \<Rightarrow> (reason + unit) option" where
  "actions_ensure_not_idle i s = do {
     local \<leftarrow> local_init i s;
     Some (if local then send_ensure_not_idle i s else recv_ensure_not_idle i s)
   }"

definition actions_ensure_no_conn_error :: "streams \<Rightarrow> proto_error + unit" where
  "actions_ensure_no_conn_error s = (case ss_conn_error s of Some e \<Rightarrow> Inl e | None \<Rightarrow> Inr ())"

definition actions_may_have_forgotten_stream :: "stream_id \<Rightarrow> streams \<Rightarrow> bool option" where
  "actions_may_have_forgotten_stream i s =
    (if i = STREAM_ID_ZERO then Some False
     else do {
       local \<leftarrow> local_init i s;
       if local then send_may_have_created_stream i s else recv_may_have_created_stream i s
     })"

definition actions_clear_queues :: "bool \<Rightarrow> streams \<Rightarrow> streams option" where
  "actions_clear_queues clear_pending_accept s = do {
     s \<leftarrow> recv_clear_queues clear_pending_accept s;
     send_clear_queues s
   }"

section \<open>HEADERS\<close>

datatype recv_outcome = Processed | Refused stream_id

text \<open>The entry of the stream, opened when there is none: \<open>None\<close> when the stream is refused.\<close>

definition inner_headers_entry :: "env \<Rightarrow> stream_id \<Rightarrow> streams \<Rightarrow> ((proto_error + key option) \<times> streams) option" where
  "inner_headers_entry E i s =
    (case store_find i (ss_store s) of
       Some k \<Rightarrow> Some (Inr (Some k), s)
     | None \<Rightarrow> do {
         forgotten \<leftarrow> (if \<not> dyn_is_server (cnt_peer (ss_counts s)) then actions_may_have_forgotten_stream i s else Some False);
         if forgotten then Some (Inl (library_reset i STREAM_CLOSED), s)
         else question (recv_open_id i OpenHeaders s) (\<lambda>opened s.
           case opened of
             None \<Rightarrow> Some (Inr None, s)
           | Some i' \<Rightarrow> do {
               x \<leftarrow> new_stream i' s;
               let (k, s) = insert_vacant E i x s;
               Some (Inr (Some k), s)
             })
       })"

text \<open>The response of a server to a header block that is too large.\<close>

definition inner_oversize_response :: "env \<Rightarrow> key \<Rightarrow> streams \<Rightarrow> streams option" where
  "inner_oversize_response E k s = do {
     x \<leftarrow> get_stream k s;
     (sent, s) \<leftarrow> send_headers E (headers_set_end_stream (headers_new (st_id x) (pseudo_response 431) [])) k s;
     _ \<leftarrow> check (sent = Inr ());
     s \<leftarrow> send_schedule_implicit_reset k PROTOCOL_ERROR s;
     recv_enqueue_reset_expiration E k s
   }"

definition inner_headers_block ::
  "env \<Rightarrow> headers_frame \<Rightarrow> key \<Rightarrow> streams \<Rightarrow> ((proto_error + unit) \<times> streams) option" where
  "inner_headers_block E f k s = do {
     (r, s) \<leftarrow> recv_headers E f k s;
     case r of
       Inr _ \<Rightarrow> Some (Inr (), s)
     | Inl (BlockState e) \<Rightarrow> Some (Inl e, s)
     | Inl Oversize \<Rightarrow>
         if dyn_is_server (cnt_peer (ss_counts s))
         then do { s \<leftarrow> inner_oversize_response E k s; Some (Inr (), s) }
         else do { x \<leftarrow> get_stream k s; Some (Inl (library_reset (st_id x) PROTOCOL_ERROR), s) }
   }"

definition inner_headers_on_stream ::
  "env \<Rightarrow> headers_frame \<Rightarrow> key \<Rightarrow> streams \<Rightarrow> ((proto_error + unit) \<times> streams) option" where
  "inner_headers_on_stream E f k s = do {
     x \<leftarrow> get_stream k s;
     if is_recv_headers (st_state x)
     then do {
       (res, s) \<leftarrow> inner_headers_block E f k s;
       actions_reset_on_recv_stream_err_deferred E k res s
     }
     else if \<not> hf_is_end_stream (hf_flags f)
     then Some (Inl (library_reset (st_id x) PROTOCOL_ERROR), s)
     else do {
       (res, s) \<leftarrow> recv_trailers E f k s;
       actions_reset_on_recv_stream_err_deferred E k res s
     }
   }"

definition inner_recv_headers :: "env \<Rightarrow> headers_frame \<Rightarrow> streams \<Rightarrow> ((proto_error + recv_outcome) \<times> streams) option" where
  "inner_recv_headers E f s =
    (let i = hf_stream_id f in
     if i > rv_max_stream_id (ss_recv s) then Some (Inr Processed, s)
     else question (inner_headers_entry E i s) (\<lambda>entry s.
       case entry of
         None \<Rightarrow> Some (Inr (Refused i), s)
       | Some k \<Rightarrow> do {
           x \<leftarrow> get_stream k s;
           if st_is_pending_open x then Some (Inl (library_go_away PROTOCOL_ERROR), s)
           else if is_local_error (st_state x) then Some (Inr Processed, s)
           else question (transition k (inner_headers_on_stream E f k) s) (\<lambda>_ s. Some (Inr Processed, s))
         }))"

section \<open>DATA\<close>

text \<open>DATA on a stream that is not in the store is accounted in the window of the connection.\<close>

definition inner_data_unknown :: "bytes data_frame \<Rightarrow> streams \<Rightarrow> ((proto_error + unit) \<times> streams) option" where
  "inner_data_unknown f s =
    (let i = data_stream_id f; sz = (of_nat (flow_controlled_len f) :: u32) in
     if i > rv_max_stream_id (ss_recv s)
     then do {
       _ \<leftarrow> check (flow_controlled_len f \<le> unat MAX_WINDOW_SIZE);
       recv_ignore_data sz s
     }
     else do {
       forgotten \<leftarrow> actions_may_have_forgotten_stream i s;
       if forgotten
       then do {
         _ \<leftarrow> check (flow_controlled_len f \<le> unat MAX_WINDOW_SIZE);
         question (recv_ignore_data sz s) (\<lambda>_ s. Some (Inl (library_reset i STREAM_CLOSED), s))
       }
       else Some (Inl (library_go_away PROTOCOL_ERROR), s)
     })"

definition inner_data_on_stream ::
  "env \<Rightarrow> bytes data_frame \<Rightarrow> key \<Rightarrow> streams \<Rightarrow> ((proto_error + unit) \<times> streams) option" where
  "inner_data_on_stream E f k s = do {
     (res, s) \<leftarrow> recv_data E f k s;
     let (res, s) =
       (if res = Inr () \<and> \<not> data_is_end_stream f
        then (case record_data_frame (length (data_data f)) (ss_counts s) of
                (Ok _, c) \<Rightarrow> (Inr (), s\<lparr>ss_counts := c\<rparr>)
              | (_, c) \<Rightarrow>
                  (Inl (library_go_away_data ENHANCE_YOUR_CALM (ascii ''too_many_data_frames'')), s\<lparr>ss_counts := c\<rparr>))
        else (res, s));
     s \<leftarrow> upd_when (case res of Inl (ErrReset _ _ _) \<Rightarrow> True | _ \<Rightarrow> False)
            (recv_release_connection_capacity (of_nat (flow_controlled_len f)) False) s;
     actions_reset_on_recv_stream_err_deferred E k res s
   }"

definition inner_recv_data :: "env \<Rightarrow> bytes data_frame \<Rightarrow> streams \<Rightarrow> ((proto_error + unit) \<times> streams) option" where
  "inner_recv_data E f s =
    (case store_find (data_stream_id f) (ss_store s) of
       None \<Rightarrow> inner_data_unknown f s
     | Some k \<Rightarrow> transition k (inner_data_on_stream E f k) s)"

section \<open>RST_STREAM and WINDOW_UPDATE\<close>

text \<open>A stream that is not in the store: an error when it is idle.\<close>

definition inner_not_idle :: "stream_id \<Rightarrow> streams \<Rightarrow> ((proto_error + unit) \<times> streams) option" where
  "inner_not_idle i s = do {
     r \<leftarrow> actions_ensure_not_idle i s;
     Some (map_sum library_go_away (\<lambda>x. x) r, s)
   }"

definition inner_reset_on_stream :: "reset \<Rightarrow> key \<Rightarrow> streams \<Rightarrow> ((proto_error + unit) \<times> streams) option" where
  "inner_reset_on_stream f k s = question (recv_reset f k s) (\<lambda>_ s. do {
     s \<leftarrow> send_handle_error k s;
     x \<leftarrow> get_stream k s;
     _ \<leftarrow> check (is_closed (st_state x));
     Some (Inr (), s)
   })"

definition inner_recv_reset :: "reset \<Rightarrow> streams \<Rightarrow> ((proto_error + unit) \<times> streams) option" where
  "inner_recv_reset f s =
    (let i = rst_stream_id f in
     if i = STREAM_ID_ZERO then Some (Inl (library_go_away PROTOCOL_ERROR), s)
     else if i > rv_max_stream_id (ss_recv s) then Some (Inr (), s)
     else case store_find i (ss_store s) of
       None \<Rightarrow> inner_not_idle i s
     | Some k \<Rightarrow> do {
         x \<leftarrow> get_stream k s;
         if st_is_pending_open x then Some (Inl (library_go_away PROTOCOL_ERROR), s)
         else transition k (inner_reset_on_stream f k) s
       })"

definition inner_recv_window_update :: "env \<Rightarrow> window_update \<Rightarrow> streams \<Rightarrow> ((proto_error + unit) \<times> streams) option" where
  "inner_recv_window_update E f s =
    (let i = wu_stream_id f in
     if i = STREAM_ID_ZERO then err_map library_go_away (send_recv_connection_window_update f s)
     else case store_find i (ss_store s) of
       None \<Rightarrow> inner_not_idle i s
     | Some k \<Rightarrow> do {
         x \<leftarrow> get_stream k s;
         if st_is_pending_open x then Some (Inl (library_go_away PROTOCOL_ERROR), s)
         else do {
           (res, s) \<leftarrow> send_recv_stream_window_update E (wu_size_increment f) k s;
           actions_reset_on_recv_stream_err E k (map_sum (library_reset i) (\<lambda>x. x) res) s
         }
       })"

section \<open>Errors of the connection\<close>

definition inner_fail_stream :: "proto_error \<Rightarrow> key \<Rightarrow> streams \<Rightarrow> streams option" where
  "inner_fail_stream e k = transition_upd k (\<lambda>s. do {
     s \<leftarrow> recv_handle_error e k s;
     send_handle_error k s
   })"

definition inner_handle_error :: "proto_error \<Rightarrow> streams \<Rightarrow> (stream_id \<times> streams) option" where
  "inner_handle_error e s = do {
     let last_processed_id = rv_last_processed_id (ss_recv s);
     s \<leftarrow> for_each_stream (inner_fail_stream e) s;
     Some (last_processed_id, s\<lparr>ss_conn_error := Some e\<rparr>)
   }"

definition inner_recv_go_away :: "go_away_frame \<Rightarrow> streams \<Rightarrow> ((proto_error + unit) \<times> streams) option" where
  "inner_recv_go_away f s = question (Some (send_recv_go_away (ga_last_stream_id f) s)) (\<lambda>_ s. do {
     let e = remote_go_away (ga_debug_data f) (ga_error_code f);
     s \<leftarrow> for_each_stream (\<lambda>k s. do {
         x \<leftarrow> get_stream k s;
         local \<leftarrow> (if st_id x > ga_last_stream_id f then local_init (st_id x) s else Some False);
         upd_when local (inner_fail_stream e k) s
       }) s;
     Some (Inr (), s\<lparr>ss_conn_error := Some e\<rparr>)
   })"

definition broken_pipe_error :: proto_error where
  "broken_pipe_error = ErrIo BrokenPipe (Some ''connection closed because of a broken pipe'')"

definition inner_eof_stream :: "key \<Rightarrow> streams \<Rightarrow> streams option" where
  "inner_eof_stream k = transition_upd k (\<lambda>s. do {
     s \<leftarrow> recv_recv_eof k s;
     send_handle_error k s
   })"

definition inner_recv_eof :: "bool \<Rightarrow> streams \<Rightarrow> streams option" where
  "inner_recv_eof clear_pending_accept s = do {
     let s = (if ss_conn_error s = None then s\<lparr>ss_conn_error := Some broken_pipe_error\<rparr> else s);
     s \<leftarrow> for_each_stream inner_eof_stream s;
     actions_clear_queues clear_pending_accept s
   }"

section \<open>PUSH_PROMISE\<close>

text \<open>The parent: \<open>None\<close> when the frame is ignored.\<close>

definition inner_push_parent :: "stream_id \<Rightarrow> streams \<Rightarrow> (proto_error + key option) option" where
  "inner_push_parent i s =
    (case store_find i (ss_store s) of
       None \<Rightarrow> Some (Inl (library_go_away PROTOCOL_ERROR))
     | Some k \<Rightarrow>
         if i > rv_max_stream_id (ss_recv s) then Some (Inr None)
         else do {
           x \<leftarrow> get_stream k s;
           case ensure_recv_open (st_state x) of
             Panic \<Rightarrow> None
           | Err e \<Rightarrow> Some (Inl e)
           | Ok b \<Rightarrow> Some (if b then Inr (Some k) else Inl (library_go_away PROTOCOL_ERROR))
         })"

text \<open>The promised stream is counted as soon as it is reserved.\<close>

definition inner_push_child ::
  "env \<Rightarrow> push_promise \<Rightarrow> key \<Rightarrow> streams \<Rightarrow> ((proto_error + bool) \<times> streams) option" where
  "inner_push_child E f k = transition k (\<lambda>s. do {
     s \<leftarrow> count_recv k s;
     (r, s) \<leftarrow> recv_push_promise E f k s;
     case r of
       Inr _ \<Rightarrow> Some (Inr True, s)
     | Inl e \<Rightarrow> question (actions_reset_on_recv_stream_err E k (Inl e) s) (\<lambda>_ s. Some (Inr False, s))
   })"

text \<open>The child joins the promises of its parent.\<close>

definition inner_push_link :: "key \<Rightarrow> key \<Rightarrow> streams \<Rightarrow> streams option" where
  "inner_push_link parent child s = do {
     x \<leftarrow> get_stream parent s;
     let s = put_stream parent (x\<lparr>st_pending_push_promises := None\<rparr>) s;
     (_, ppp, st) \<leftarrow> queue_push (next_of 0 NextAccept) child (st_pending_push_promises x, ss_store s);
     mod_stream parent (\<lambda>x. notify_push (x\<lparr>st_pending_push_promises := ppp\<rparr>)) (s\<lparr>ss_store := st\<rparr>)
   }"

definition inner_recv_push_promise ::
  "env \<Rightarrow> push_promise \<Rightarrow> streams \<Rightarrow> ((proto_error + recv_outcome) \<times> streams) option" where
  "inner_recv_push_promise E f s = do {
     let promised = pp_promised_id f;
     parent \<leftarrow> inner_push_parent (pp_stream_id f) s;
     case parent of
       Inl e \<Rightarrow> Some (Inl e, s)
     | Inr None \<Rightarrow> Some (Inr Processed, s)
     | Inr (Some parent) \<Rightarrow>
         (case recv_ensure_can_reserve s of
            Inl e \<Rightarrow> Some (Inl e, s)
          | Inr _ \<Rightarrow> question (recv_open_id promised OpenPushPromise s) (\<lambda>opened s.
              if opened = None then Some (Inr (Refused promised), s)
              else do {
                x \<leftarrow> new_stream promised s;
                (child, s) \<leftarrow> insert_stream E promised x s;
                question (inner_push_child E f child s) (\<lambda>valid s. do {
                  s \<leftarrow> upd_when valid (inner_push_link parent child) s;
                  Some (Inr Processed, s)
                })
              }))
   }"

section \<open>Resets by the connection\<close>

definition inner_reset_entry :: "env \<Rightarrow> stream_id \<Rightarrow> streams \<Rightarrow> (key \<times> streams) option" where
  "inner_reset_entry E i s =
    (case store_find i (ss_store s) of
       Some k \<Rightarrow> Some (k, s)
     | None \<Rightarrow> do {
         local \<leftarrow> local_init i s;
         s \<leftarrow> (if local then send_maybe_reset_next_stream_id i s else recv_maybe_reset_next_stream_id i s);
         x \<leftarrow> stream_new i 0 0;
         Some (insert_vacant E i x s)
       })"

definition inner_send_reset ::
  "env \<Rightarrow> stream_id \<Rightarrow> reason \<Rightarrow> streams \<Rightarrow> ((reason \<times> bytes + unit) \<times> streams) option" where
  "inner_send_reset E i r s = do {
     (k, s) \<leftarrow> inner_reset_entry E i s;
     actions_send_reset E k r Library s
   }"

section \<open>Writing\<close>

text \<open>WINDOW_UPDATE frames first, then what the streams send.\<close>

definition inner_buffer_pending :: "env \<Rightarrow> streams \<times> dst \<Rightarrow> (buffer_status \<times> (streams \<times> dst)) option" where
  "inner_buffer_pending E sd = do {
     (b, sd) \<leftarrow> recv_buffer_pending E sd;
     if b = CodecFull then Some (CodecFull, sd)
     else prio_buffer_pending E sd
   }"

definition inner_reclaim_written_frame :: "env \<Rightarrow> streams \<times> dst \<Rightarrow> (bool \<times> (streams \<times> dst)) option" where
  "inner_reclaim_written_frame E sd = prio_reclaim_frame E sd"

text \<open>The transport: what its writes, flushes, shutdowns and reads return, in order. A call that goes beyond the list is pending.\<close>

record transport =
  tr_writes :: "write_item list"
  tr_flushes :: "io_poll list"
  tr_shutdowns :: "io_poll list"
  tr_reads :: "inner_item list"

definition first_answer :: "io_poll list \<Rightarrow> io_poll" where
  "first_answer ps = (case ps of [] \<Rightarrow> IoPending | p # _ \<Rightarrow> p)"

text \<open>\<open>poll_ready\<close>, \<open>flush\<close> and \<open>shutdown\<close> of the codec; each takes one answer of the flushes.\<close>

definition dst_write ::
  "(io_poll \<Rightarrow> framed_write \<Rightarrow> write_item list \<Rightarrow> (io_poll \<times> framed_write \<times> write_item list) option) \<Rightarrow>
     dst \<times> transport \<Rightarrow> (io_poll \<times> (dst \<times> transport)) option" where
  "dst_write f dt = do {
     let (d, t) = dt;
     (p, w, items) \<leftarrow> f (first_answer (tr_flushes t)) (cd_write (ds_codec d)) (tr_writes t);
     Some (p, (d\<lparr>ds_codec := (ds_codec d)\<lparr>cd_write := w\<rparr>\<rparr>, t\<lparr>tr_writes := items, tr_flushes := tl (tr_flushes t)\<rparr>))
   }"

definition dst_poll_ready :: "env \<Rightarrow> dst \<times> transport \<Rightarrow> (io_poll \<times> (dst \<times> transport)) option" where
  "dst_poll_ready E = dst_write (fw_poll_ready (ev_grow E))"

definition dst_flush :: "env \<Rightarrow> dst \<times> transport \<Rightarrow> (io_poll \<times> (dst \<times> transport)) option" where
  "dst_flush E = dst_write (fw_flush (ev_grow E))"

definition dst_shutdown :: "env \<Rightarrow> dst \<times> transport \<Rightarrow> (io_poll \<times> (dst \<times> transport)) option" where
  "dst_shutdown E dt = do {
     (p, (d, t)) \<leftarrow> dst_write (\<lambda>p. fw_shutdown (ev_grow E) p (first_answer (tr_shutdowns (snd dt)))) dt;
     Some (p, (d, t\<lparr>tr_shutdowns := tl (tr_shutdowns t)\<rparr>))
   }"

text \<open>One round of \<open>poll_complete\<close>; \<open>None\<close> as result: go on.\<close>

definition poll_complete_step ::
  "env \<Rightarrow> waker \<Rightarrow> streams \<times> (dst \<times> transport) \<Rightarrow> (io_poll option \<times> (streams \<times> (dst \<times> transport))) option" where
  "poll_complete_step E w sdt = do {
     let (s, dt) = sdt;
     (p, (d, t)) \<leftarrow> dst_poll_ready E dt;
     if p \<noteq> IoReady then Some (Some p, (s, (d, t)))
     else do {
       (b, (s, d)) \<leftarrow> inner_buffer_pending E (s, d);
       if b = CodecFull then Some (None, (s, (d, t)))
       else do {
         let s = s\<lparr>ss_task := Some w\<rparr>;
         (p, (d, t)) \<leftarrow> dst_flush E (d, t);
         if p \<noteq> IoReady then Some (Some p, (s, (d, t)))
         else do {
           (reclaimed, (s, d)) \<leftarrow> inner_reclaim_written_frame E (s, d);
           Some (if reclaimed then None else Some IoReady, (s, (d, t)))
         }
       }
     }
   }"

partial_function (option) streams_poll_complete ::
  "env \<Rightarrow> waker \<Rightarrow> streams \<times> (dst \<times> transport) \<Rightarrow> (io_poll \<times> (streams \<times> (dst \<times> transport))) option" where
  "streams_poll_complete E w sdt = do {
     (r, sdt) \<leftarrow> poll_complete_step E w sdt;
     case r of Some p \<Rightarrow> Some (p, sdt) | None \<Rightarrow> streams_poll_complete E w sdt
   }"

section \<open>Streams\<close>

definition streams_set_target_connection_window_size :: "u32 \<Rightarrow> streams \<Rightarrow> ((reason + unit) \<times> streams) option" where
  "streams_set_target_connection_window_size sz s =
     question (recv_set_target_connection_window sz s)
       (\<lambda>_ s. Some (Inr (), s\<lparr>ss_counts := set_target_connection_window_size sz (ss_counts s)\<rparr>))"

definition streams_count_pending_refusal :: "streams \<Rightarrow> ((proto_error + unit) \<times> streams) option" where
  "streams_count_pending_refusal s =
    (if \<not> can_inc_num_local_error_resets (ss_counts s)
     then Some (Inl (library_go_away_data ENHANCE_YOUR_CALM too_many_internal_resets), s)
     else do { s \<leftarrow> upd_counts inc_num_local_error_resets s; Some (Inr (), s) })"

definition streams_apply_remote_settings :: "env \<Rightarrow> settings \<Rightarrow> bool \<Rightarrow> streams \<Rightarrow> ((proto_error + unit) \<times> streams) option" where
  "streams_apply_remote_settings E v is_initial s =
     send_apply_remote_settings E v (s\<lparr>ss_counts := counts_apply_remote_settings v is_initial (ss_counts s)\<rparr>)"

definition streams_has_streams :: "streams \<Rightarrow> bool" where
  "streams_has_streams s = has_streams (ss_counts s)"

definition streams_has_streams_or_other_references :: "streams \<Rightarrow> bool" where
  "streams_has_streams_or_other_references s \<longleftrightarrow> has_streams (ss_counts s) \<or> ss_refs s > 1"

text \<open>The handles \<open>Streams\<close> share one state; the last but one that is dropped wakes the connection.\<close>

definition streams_clone :: "streams \<Rightarrow> streams" where
  "streams_clone s = s\<lparr>ss_refs := ss_refs s + 1\<rparr>"

definition streams_drop :: "streams \<Rightarrow> streams option" where
  "streams_drop s = do {
     _ \<leftarrow> check (ss_refs s > 0);
     let s = s\<lparr>ss_refs := ss_refs s - 1\<rparr>;
     Some (if ss_refs s = 1 then wake_task s else s)
   }"

end
