(* ===== verification/Streams_User.thy ===== *)
theory Streams_User
  imports Streams_Inner
begin

text \<open>
  What the handles of the user do (\<open>src/proto/streams/streams.rs\<close>, \<open>Streams\<close>, \<open>StreamRef\<close> and \<open>OpaqueStreamRef\<close>): requests and
  responses, bodies, push promises, resets, capacity, reading, and the life of the handles. A handle is the key of its stream.
\<close>

section \<open>Handles\<close>

text \<open>\<open>me.refs += 1\<close> and \<open>OpaqueStreamRef::new\<close>.\<close>

definition opaque_ref_new :: "key \<Rightarrow> streams \<Rightarrow> streams option" where
  "opaque_ref_new k s = try_stream k stream_ref_inc (s\<lparr>ss_refs := ss_refs s + 1\<rparr>)"

definition opaque_ref_clone :: "key \<Rightarrow> streams \<Rightarrow> streams option" where
  "opaque_ref_clone k s = do {
     s \<leftarrow> try_stream k stream_ref_inc s;
     Some (s\<lparr>ss_refs := ss_refs s + 1\<rparr>)
   }"

text \<open>A stream nobody is interested in any more is reset.\<close>

definition maybe_cancel :: "env \<Rightarrow> key \<Rightarrow> streams \<Rightarrow> streams option" where
  "maybe_cancel E k s = do {
     x \<leftarrow> get_stream k s;
     if is_canceled_interest x
     then do {
       let r = (if dyn_is_server (cnt_peer (ss_counts s)) \<and> is_send_closed (st_state x) \<and> is_recv_streaming (st_state x)
                then NO_ERROR else CANCEL);
       s \<leftarrow> send_schedule_implicit_reset k r s;
       recv_enqueue_reset_expiration E k s
     }
     else Some s
   }"

text \<open>The promises of a stream that cannot be reached any more.\<close>

partial_function (option) cancel_promises :: "env \<Rightarrow> queue \<Rightarrow> streams \<Rightarrow> streams option" where
  "cancel_promises E ppp s = do {
     (p, ppp, st) \<leftarrow> queue_pop (next_of 0 NextAccept) (ppp, ss_store s);
     let s = s\<lparr>ss_store := st\<rparr>;
     case p of
       None \<Rightarrow> Some s
     | Some p \<Rightarrow> do {
         s \<leftarrow> transition_upd p (maybe_cancel E p) s;
         cancel_promises E ppp s
       }
   }"

definition release_stream_ref :: "env \<Rightarrow> key \<Rightarrow> streams \<Rightarrow> streams option" where
  "release_stream_ref E k s = do {
     s \<leftarrow> maybe_cancel E k s;
     x \<leftarrow> get_stream k s;
     if st_ref_count x = 0
     then do {
       s \<leftarrow> recv_release_closed_capacity k s;
       x \<leftarrow> get_stream k s;
       let ppp = st_pending_push_promises x;
       cancel_promises E ppp (put_stream k (x\<lparr>st_pending_push_promises := None\<rparr>) s)
     }
     else Some s
   }"

definition drop_stream_ref :: "env \<Rightarrow> key \<Rightarrow> streams \<Rightarrow> streams option" where
  "drop_stream_ref E k s = do {
     _ \<leftarrow> check (ss_refs s > 0);
     s \<leftarrow> try_stream k stream_ref_dec (s\<lparr>ss_refs := ss_refs s - 1\<rparr>);
     x \<leftarrow> get_stream k s;
     let s = (if st_ref_count x = 0 \<and> stream_is_closed x then wake_task s else s);
     transition_upd k (release_stream_ref E k) s
   }"

section \<open>Opening streams\<close>

definition streams_next_incoming :: "streams \<Rightarrow> (key option \<times> streams) option" where
  "streams_next_incoming s = do {
     (k, s) \<leftarrow> recv_next_incoming s;
     case k of
       None \<Rightarrow> Some (None, s)
     | Some k \<Rightarrow> do {
         x \<leftarrow> get_stream k s;
         let s = s\<lparr>ss_refs := ss_refs s + 1\<rparr>;
         s \<leftarrow> upd_when (is_remote_reset (st_state x)) (upd_counts dec_num_remote_reset_streams) s;
         s \<leftarrow> try_stream k stream_ref_inc s;
         Some (Some k, s)
       }
   }"

definition streams_send_request ::
  "env \<Rightarrow> request \<Rightarrow> bool \<Rightarrow> key option \<Rightarrow> streams \<Rightarrow> ((send_error + (key \<times> bool)) \<times> streams) option" where
  "streams_send_request E r end_of_stream pending s =
    (case actions_ensure_no_conn_error s of
       Inl e \<Rightarrow> Some (Inl (SendConnection e), s)
     | Inr _ \<Rightarrow>
    (case send_ensure_next_stream_id s of
       Inl e \<Rightarrow> Some (Inl (SendUser e), s)
     | Inr _ \<Rightarrow> do {
         rejected \<leftarrow> (case pending of Some p \<Rightarrow> map_option st_is_pending_open (get_stream p s) | None \<Rightarrow> Some False);
         if rejected then Some (Inl (SendUser Rejected), s)
         else if dyn_is_server (cnt_peer (ss_counts s)) then Some (Inl (SendUser UnexpectedFrameType), s)
         else err_map SendUser (question (send_open_id s) (\<lambda>i s. do {
           x \<leftarrow> new_stream i s;
           let x = (if rq_method r = ascii ''HEAD'' then x\<lparr>st_content_length := Head\<rparr> else x);
           case client_convert_send_message i r (rq_protocol r) end_of_stream of
             Inl e \<Rightarrow> Some (Inl e, s)
           | Inr f \<Rightarrow> do {
               (k, s) \<leftarrow> insert_stream E i x s;
               (sent, s) \<leftarrow> send_headers E f k s;
               case sent of
                 Inl e \<Rightarrow> do { s \<leftarrow> forget_stream k s; Some (Inl e, s) }
               | Inr _ \<Rightarrow> do {
                   x \<leftarrow> get_stream k s;
                   _ \<leftarrow> check (\<not> is_closed (st_state x));
                   let is_full = next_send_stream_will_reach_capacity (ss_counts s);
                   s \<leftarrow> opaque_ref_new k s;
                   Some (Inr (k, is_full), s)
                 }
             }
         }))
       }))"

definition streams_poll_pending_open :: "waker \<Rightarrow> key option \<Rightarrow> streams \<Rightarrow> ((error_kind + unit) poll \<times> streams) option" where
  "streams_poll_pending_open w pending s =
    (case actions_ensure_no_conn_error s of
       Inl e \<Rightarrow> Some (Ready (Inl (error_from_proto e)), s)
     | Inr _ \<Rightarrow>
    (case send_ensure_next_stream_id s of
       Inl e \<Rightarrow> Some (Ready (Inl (ErrorUser e)), s)
     | Inr _ \<Rightarrow>
    (case pending of
       None \<Rightarrow> Some (Ready (Inr ()), s)
     | Some k \<Rightarrow> do {
         x \<leftarrow> get_stream k s;
         if st_is_pending_open x then Some (Pending, put_stream k (wait_send w x) s)
         else Some (Ready (Inr ()), s)
       })))"

section \<open>Sending\<close>

definition ref_send_data :: "env \<Rightarrow> bytes \<Rightarrow> bool \<Rightarrow> key \<Rightarrow> streams \<Rightarrow> ((user_error + unit) \<times> streams) option" where
  "ref_send_data E b end_stream k = transition k (\<lambda>s. do {
     x \<leftarrow> get_stream k s;
     f \<leftarrow> data_new (st_id x) b;
     send_data E (data_set_end_stream f end_stream) k s
   })"

definition ref_send_trailers :: "env \<Rightarrow> header_map \<Rightarrow> key \<Rightarrow> streams \<Rightarrow> ((user_error + unit) \<times> streams) option" where
  "ref_send_trailers E trailers k = transition k (\<lambda>s. do {
     x \<leftarrow> get_stream k s;
     send_trailers E (headers_trailers (st_id x) trailers) k s
   })"

text \<open>A reset by the user is not counted: the error is \<open>unreachable!\<close>.\<close>

definition ref_send_reset :: "env \<Rightarrow> reason \<Rightarrow> key \<Rightarrow> streams \<Rightarrow> streams option" where
  "ref_send_reset E r k s = do {
     (res, s) \<leftarrow> actions_send_reset E k r User s;
     _ \<leftarrow> check (res = Inr ());
     Some s
   }"

definition ref_send_informational_headers ::
  "env \<Rightarrow> headers_frame \<Rightarrow> key \<Rightarrow> streams \<Rightarrow> ((user_error + unit) \<times> streams) option" where
  "ref_send_informational_headers E f k = transition k (\<lambda>s. do {
     _ \<leftarrow> check (headers_is_informational f);
     if hf_is_end_stream (hf_flags f) then Some (Inl UnexpectedFrameType, s)
     else send_interim_informational_headers E f k s
   })"

definition ref_send_response :: "env \<Rightarrow> response \<Rightarrow> bool \<Rightarrow> key \<Rightarrow> streams \<Rightarrow> ((user_error + unit) \<times> streams) option" where
  "ref_send_response E r end_of_stream k = transition k (\<lambda>s. do {
     x \<leftarrow> get_stream k s;
     send_headers E (server_convert_send_message (st_id x) r end_of_stream) k s
   })"

text \<open>The \<open>?\<close> after \<open>convert_push_message\<close> returns from the whole function: the child stays in the store.\<close>

definition ref_send_push_promise :: "env \<Rightarrow> request \<Rightarrow> key \<Rightarrow> streams \<Rightarrow> ((user_error + key) \<times> streams) option" where
  "ref_send_push_promise E r k s = question (send_reserve_local s) (\<lambda>promised s. do {
     x \<leftarrow> new_stream promised s;
     (child, s) \<leftarrow> insert_stream E promised x s;
     case reserve_local (st_state x) of
       (Panic, _) \<Rightarrow> None
     | (Err e, _) \<Rightarrow> Some (Inl e, s)
     | (Ok _, st) \<Rightarrow> do {
         let s = put_stream child (x\<lparr>st_state := st, st_is_pending_push := True\<rparr>) s;
         p \<leftarrow> get_stream k s;
         m \<leftarrow> server_convert_push_message (st_id p) promised r;
         case m of
           Inl e \<Rightarrow> Some (Inl e, s)
         | Inr f \<Rightarrow> do {
             (pushed, s) \<leftarrow> send_push_promise E f k s;
             case pushed of
               Inl e \<Rightarrow> do { s \<leftarrow> forget_stream child s; Some (Inl e, s) }
             | Inr _ \<Rightarrow> do {
                 s \<leftarrow> opaque_ref_new child s;
                 Some (Inr child, s)
               }
           }
       }
   })"

definition ref_is_pending_open :: "key \<Rightarrow> streams \<Rightarrow> bool option" where
  "ref_is_pending_open k s = map_option st_is_pending_open (get_stream k s)"

section \<open>Reading\<close>

text \<open>\<open>map_ok\<close>: the handle of the promised stream.\<close>

definition opaque_poll_pushed ::
  "waker \<Rightarrow> key \<Rightarrow> streams \<Rightarrow> ((proto_error + (request \<times> key)) option poll \<times> streams) option" where
  "opaque_poll_pushed w k s = do {
     (r, s) \<leftarrow> recv_poll_pushed w k s;
     case r of
       Ready (Some (Inr (req, p))) \<Rightarrow> do {
         s \<leftarrow> opaque_ref_new p s;
         Some (r, s)
       }
     | _ \<Rightarrow> Some (r, s)
   }"

definition opaque_poll_data :: "env \<Rightarrow> waker \<Rightarrow> key \<Rightarrow> streams \<Rightarrow> ((proto_error + bytes) option poll \<times> streams) option" where
  "opaque_poll_data E w k s = do {
     (r, s) \<leftarrow> recv_poll_data E w k s;
     Some (case r of
       Ready (Some (Inr d)) \<Rightarrow>
         (Ready (Some (Inr (de_payload d))),
          if de_is_budgeted d then s\<lparr>ss_counts := release_data_frame (length (de_payload d)) (ss_counts s)\<rparr> else s)
     | Ready (Some (Inl e)) \<Rightarrow> (Ready (Some (Inl e)), s)
     | Ready None \<Rightarrow> (Ready None, s)
     | Pending \<Rightarrow> (Pending, s))
   }"

definition opaque_available_recv_capacity :: "key \<Rightarrow> streams \<Rightarrow> int option" where
  "opaque_available_recv_capacity k s = map_option (\<lambda>x. win_int (fc_available (st_recv_flow x))) (get_stream k s)"

definition opaque_used_recv_capacity :: "key \<Rightarrow> streams \<Rightarrow> u32 option" where
  "opaque_used_recv_capacity k s = map_option st_in_flight_recv_data (get_stream k s)"

definition opaque_release_capacity :: "u32 \<Rightarrow> key \<Rightarrow> streams \<Rightarrow> ((user_error + unit) \<times> streams) option" where
  "opaque_release_capacity cap k s = recv_release_capacity cap k True s"

definition opaque_clear_recv_buffer :: "key \<Rightarrow> streams \<Rightarrow> streams option" where
  "opaque_clear_recv_buffer k s = do {
     s \<leftarrow> mod_stream k (\<lambda>x. x\<lparr>st_is_recv := False\<rparr>) s;
     recv_clear_recv_buffer k s
   }"

definition opaque_stream_id :: "key \<Rightarrow> streams \<Rightarrow> stream_id option" where
  "opaque_stream_id k s = map_option st_id (get_stream k s)"

section \<open>Operations that only take the lock\<close>

definition ref_take_request :: "key \<Rightarrow> streams \<Rightarrow> (request \<times> streams) option" where
  "ref_take_request k s = recv_take_request k s"

definition ref_reserve_capacity :: "u32 \<Rightarrow> key \<Rightarrow> streams \<Rightarrow> streams option" where
  "ref_reserve_capacity cap k s = send_reserve_capacity cap k s"

definition ref_capacity :: "key \<Rightarrow> streams \<Rightarrow> u32 option" where
  "ref_capacity k s = send_capacity k s"

definition ref_poll_capacity :: "waker \<Rightarrow> key \<Rightarrow> streams \<Rightarrow> ((user_error + u32) option poll \<times> streams) option" where
  "ref_poll_capacity w k s = send_poll_capacity w k s"

definition ref_poll_reset ::
  "waker \<Rightarrow> poll_reset \<Rightarrow> key \<Rightarrow> streams \<Rightarrow> ((error_kind + reason) poll \<times> streams) option" where
  "ref_poll_reset w mode k s = send_poll_reset w mode k s"

definition opaque_poll_response :: "waker \<Rightarrow> key \<Rightarrow> streams \<Rightarrow> ((proto_error + response) poll \<times> streams) option" where
  "opaque_poll_response w k s = recv_poll_response w k s"

definition opaque_poll_informational ::
  "env \<Rightarrow> waker \<Rightarrow> key \<Rightarrow> streams \<Rightarrow> ((proto_error + response) option poll \<times> streams) option" where
  "opaque_poll_informational E w k s = recv_poll_informational E w k s"

definition opaque_is_end_stream :: "key \<Rightarrow> streams \<Rightarrow> bool option" where
  "opaque_is_end_stream k s = recv_is_end_stream k s"

definition opaque_poll_trailers ::
  "env \<Rightarrow> waker \<Rightarrow> key \<Rightarrow> streams \<Rightarrow> ((proto_error + header_map) option poll \<times> streams) option" where
  "opaque_poll_trailers E w k s = recv_poll_trailers E w k s"

end
