(* ===== verification/Streams_Ledger.thy ===== *)
theory Streams_Ledger
  imports Streams_User
begin

text \<open>
  Reasoning about the operations on streams. \<open>post\<close> is the partial correctness of an operation that may panic; one rule per
  construct of the model composes it. The locale \<open>ledger\<close> is the interface between an account kept per stream, with its
  counterpart in the connection, and the operations that do not book on it: moving streams between queues, filling and emptying
  deques, counting, waking, and the removal of a stream.
\<close>

section \<open>Partial correctness\<close>

definition post :: "'a option \<Rightarrow> ('a \<Rightarrow> bool) \<Rightarrow> bool" where
  "post m P = (case m of None \<Rightarrow> True | Some y \<Rightarrow> P y)"

named_theorems post_rules "one rule per construct"

lemma post_simps [simp]: "post None P" "post (Some y) P = P y"
  by (simp_all add: post_def)

lemma postI: "(\<And>y. m = Some y \<Longrightarrow> P y) \<Longrightarrow> post m P"
  by (simp add: post_def split: option.splits)

lemma postD: "post m P \<Longrightarrow> m = Some y \<Longrightarrow> P y"
  by (simp add: post_def)

lemma post_mono: "post m P \<Longrightarrow> (\<And>y. m = Some y \<Longrightarrow> P y \<Longrightarrow> Q y) \<Longrightarrow> post m Q"
  by (simp add: post_def split: option.splits)

lemma post_result: "post m (\<lambda>(r, s). I s) \<Longrightarrow> (\<And>r s. I s \<Longrightarrow> P (r, s)) \<Longrightarrow> post m P"
  by (auto elim: post_mono)

lemma post_bind [post_rules]: "post m (\<lambda>y. post (f y) P) \<Longrightarrow> post (Option.bind m f) P"
  by (cases m) simp_all

lemma post_map_option [post_rules]: "post m (\<lambda>y. P (f y)) \<Longrightarrow> post (map_option f m) P"
  by (cases m) simp_all

lemma post_if [post_rules]: "(b \<Longrightarrow> post m P) \<Longrightarrow> (\<not> b \<Longrightarrow> post m' P) \<Longrightarrow> post (if b then m else m') P"
  by simp

lemma post_case_prod [post_rules]: "(\<And>a b. p = (a, b) \<Longrightarrow> post (f a b) P) \<Longrightarrow> post (case p of (a, b) \<Rightarrow> f a b) P"
  by (cases p) simp

lemma post_case_option [post_rules]:
  "(v = None \<Longrightarrow> post m P) \<Longrightarrow> (\<And>x. v = Some x \<Longrightarrow> post (f x) P) \<Longrightarrow> post (case v of None \<Rightarrow> m | Some x \<Rightarrow> f x) P"
  by (cases v) simp_all

lemma post_case_sum [post_rules]:
  "(\<And>e. r = Inl e \<Longrightarrow> post (f e) P) \<Longrightarrow> (\<And>x. r = Inr x \<Longrightarrow> post (g x) P) \<Longrightarrow> post (case r of Inl e \<Rightarrow> f e | Inr x \<Rightarrow> g x) P"
  by (cases r) simp_all

lemma post_case_outcome [post_rules]:
  "(\<And>x. r = Ok x \<Longrightarrow> post (f x) P) \<Longrightarrow> (\<And>e. r = Err e \<Longrightarrow> post (g e) P) \<Longrightarrow> (r = Panic \<Longrightarrow> post h P) \<Longrightarrow>
     post (case r of Ok x \<Rightarrow> f x | Err e \<Rightarrow> g e | Panic \<Rightarrow> h) P"
  by (cases r) simp_all

lemma post_let [post_rules]: "(\<And>x. x = v \<Longrightarrow> post (f x) P) \<Longrightarrow> post (Let v f) P"
  by simp

lemma post_check [post_rules]: "(b \<Longrightarrow> P ()) \<Longrightarrow> post (check b) P"
  by (simp add: check_def)

lemma post_upd_when [post_rules]: "(b \<Longrightarrow> post (f s) P) \<Longrightarrow> (\<not> b \<Longrightarrow> P s) \<Longrightarrow> post (upd_when b f s) P"
  by (simp add: upd_when_def)

lemma post_question [post_rules]:
  "post m (\<lambda>(r, s). case r of Inl e \<Rightarrow> P (Inl e, s) | Inr x \<Rightarrow> post (f x s) P) \<Longrightarrow> post (question m f) P"
  by (cases m) (auto simp: question_def split: prod.splits sum.splits)

lemma post_err_map [post_rules]: "post m (\<lambda>(r, s). P (map_sum f (\<lambda>x. x) r, s)) \<Longrightarrow> post (err_map f m) P"
  by (cases m) (auto simp: err_map_def)

lemma post_get_stream [post_rules]: "(\<And>x. get_stream k s = Some x \<Longrightarrow> P x) \<Longrightarrow> post (get_stream k s) P"
  by (rule postI)

lemma post_mod_stream: "(\<And>x. get_stream k s = Some x \<Longrightarrow> P (put_stream k (f x) s)) \<Longrightarrow> post (mod_stream k f s) P"
  by (auto simp: mod_stream_def intro!: postI split: bind_splits)

lemma post_try_stream:
  "(\<And>x y. get_stream k s = Some x \<Longrightarrow> f x = Some y \<Longrightarrow> P (put_stream k y s)) \<Longrightarrow> post (try_stream k f s) P"
  by (auto simp: try_stream_def intro!: postI split: bind_splits)

lemma post_store_index [post_rules]: "(\<And>x. store_index st k = Some x \<Longrightarrow> P x) \<Longrightarrow> post (store_index st k) P"
  by (rule postI)

lemma post_local_init [post_rules]: "(\<And>b. P b) \<Longrightarrow> post (local_init i s) P"
  by (rule postI)

lemma post_assert_ok [post_rules]: "(\<And>u y. r = (Ok u, y) \<Longrightarrow> P y) \<Longrightarrow> post (assert_ok r) P"
  by (auto simp: assert_ok_def intro!: postI split: prod.splits outcome.splits)

lemma post_ok_of [post_rules]: "(\<And>y. r = Ok y \<Longrightarrow> P y) \<Longrightarrow> post (ok_of r) P"
  by (cases r) (simp_all add: ok_of_def)

lemma post_dst_buffer_frame [post_rules]: "(\<And>y. P y) \<Longrightarrow> post (dst_buffer_frame E f d) P"
  by (rule postI)

section \<open>The slab\<close>

abbreviation slab :: "streams \<Rightarrow> nat \<Rightarrow> stream option" where
  "slab s \<equiv> sto_slab (ss_store s)"

lemma get_stream_slab: "get_stream k s = Some x \<longleftrightarrow> slab s (unat (key_index k)) = Some x \<and> st_id x = key_stream_id k"
  by (auto simp: get_stream_def store_index_def split: option.splits)

lemma get_stream_put: "get_stream k s = Some x \<Longrightarrow> st_id y = st_id x \<Longrightarrow> get_stream k (put_stream k y s) = Some y"
  by (simp add: get_stream_slab put_stream_def store_put_def)

lemma store_index_slab: "store_index st k = Some x \<longleftrightarrow> sto_slab st (unat (key_index k)) = Some x \<and> st_id x = key_stream_id k"
  by (auto simp: store_index_def split: option.splits)

lemma slab_put_stream [simp]: "slab (put_stream k x s) = (slab s)(unat (key_index k) \<mapsto> x)"
  by (simp add: put_stream_def store_put_def)

lemma slab_store_put [simp]: "sto_slab (store_put k x st) = (sto_slab st)(unat (key_index k) \<mapsto> x)"
  by (simp add: store_put_def)

lemma put_stream_sel [simp]:
  "ss_counts (put_stream k x s) = ss_counts s" "ss_recv (put_stream k x s) = ss_recv s"
  "ss_send (put_stream k x s) = ss_send s" "ss_task (put_stream k x s) = ss_task s"
  "ss_conn_error (put_stream k x s) = ss_conn_error s" "ss_refs (put_stream k x s) = ss_refs s"
  "ss_send_buffer (put_stream k x s) = ss_send_buffer s"
  by (simp_all add: put_stream_def)

lemma slab_set_queue [simp]: "ss_store (set_queue n q s) = ss_store s"
  by (cases n) simp_all

lemma slab_wake_task [simp]: "ss_store (wake_task s) = ss_store s"
  by (simp add: wake_task_def split: option.splits)

section \<open>Accounts\<close>

text \<open>\<open>acct\<close> is what is booked on a stream and \<open>conn\<close> what is booked on the connection. The laws say which parts of the state hold no
  bookings.\<close>

locale ledger =
  fixes acct :: "stream \<Rightarrow> 'a" and conn :: "streams \<Rightarrow> 'c"
  assumes acct_set_next: "acct (nx_set_next (next_of now n) k x) = acct x"
    and acct_set_queued: "nx_set_queued (next_of now n) b x = Some y \<Longrightarrow> acct y = acct x"
    and acct_counted: "acct (x\<lparr>st_is_counted := b\<rparr>) = acct x"
    and acct_pending_send: "acct (x\<lparr>st_pending_send := d\<rparr>) = acct x"
    and acct_pending_recv: "acct (x\<lparr>st_pending_recv := d\<rparr>) = acct x"
    and conn_queue: "conn (set_queue n q s) = conn s"
    and conn_store: "conn (s\<lparr>ss_store := st\<rparr>) = conn s"
    and conn_counts: "conn (s\<lparr>ss_counts := c\<rparr>) = conn s"
    and conn_task: "conn (s\<lparr>ss_task := t, ss_woken := w\<rparr>) = conn s"
    and conn_send_buffer: "conn (s\<lparr>ss_send_buffer := sb\<rparr>) = conn s"
    and conn_recv_buffer: "conn (s\<lparr>ss_recv := (ss_recv s)\<lparr>rv_buffer := rb\<rparr>\<rparr>) = conn s"
begin

text \<open>Nothing is booked between two states; streams may be removed.\<close>

definition calm_store :: "(nat \<Rightarrow> stream option) \<Rightarrow> (nat \<Rightarrow> stream option) \<Rightarrow> bool" where
  "calm_store m m' \<longleftrightarrow> (\<forall>n x'. m' n = Some x' \<longrightarrow> (\<exists>x. m n = Some x \<and> acct x' = acct x))"

definition quiet :: "streams \<Rightarrow> streams \<Rightarrow> bool" where
  "quiet s s' \<longleftrightarrow> conn s' = conn s \<and> calm_store (slab s) (slab s')"

definition steady :: "(streams \<Rightarrow> bool) \<Rightarrow> bool" where
  "steady I \<longleftrightarrow> (\<forall>s s'. I s \<longrightarrow> quiet s s' \<longrightarrow> I s')"

lemma calm_store_refl [simp]: "calm_store m m"
  by (simp add: calm_store_def)

lemma calm_store_trans: "calm_store m m' \<Longrightarrow> calm_store m' m'' \<Longrightarrow> calm_store m m''"
  unfolding calm_store_def by (metis (no_types))

lemma calm_store_upd: "m n = Some x \<Longrightarrow> acct y = acct x \<Longrightarrow> calm_store m (m(n \<mapsto> y))"
  by (simp add: calm_store_def)

lemma calm_store_upd2: "calm_store m m' \<Longrightarrow> m n = Some x \<Longrightarrow> acct y = acct x \<Longrightarrow> calm_store m (m'(n \<mapsto> y))"
  by (simp add: calm_store_def)

lemma calm_store_remove: "calm_store m m' \<Longrightarrow> calm_store m (m'(n := None))"
  by (simp add: calm_store_def)

lemma calm_refl [simp]: "quiet s s"
  by (simp add: quiet_def)

lemma calm_trans: "quiet s s' \<Longrightarrow> quiet s' s'' \<Longrightarrow> quiet s s''"
  unfolding quiet_def by (auto intro: calm_store_trans)

lemma calm_put: "get_stream k s = Some x \<Longrightarrow> acct y = acct x \<Longrightarrow> quiet s (put_stream k y s)"
  by (auto simp: quiet_def get_stream_slab put_stream_def conn_store intro: calm_store_upd)

lemma calm_wake: "quiet s (wake_task s)"
  by (simp add: quiet_def wake_task_def conn_task split: option.splits)

lemma set_queued_calm:
  "store_index st k = Some x \<Longrightarrow> nx_set_queued (next_of now n) b x = Some y \<Longrightarrow> calm_store (sto_slab st) (sto_slab (store_put k y st))"
  by (auto simp: store_index_slab intro: calm_store_upd acct_set_queued)

lemma set_next_calm:
  "store_modify k (nx_set_next (next_of now n) j) st = Some st' \<Longrightarrow> calm_store (sto_slab st) (sto_slab st')"
  by (auto simp: store_modify_def bind_eq_Some_conv store_index_slab acct_set_next intro!: calm_store_upd)

lemma set_both_calm:
  "store_index st k = Some x \<Longrightarrow> nx_set_queued (next_of now n) b x = Some y \<Longrightarrow>
     store_modify i (nx_set_next (next_of now n) j) (store_put k y st) = Some st' \<Longrightarrow> calm_store (sto_slab st) (sto_slab st')"
  by (rule calm_store_trans [OF set_queued_calm set_next_calm])

lemma queue_push_calm:
  assumes "queue_push (next_of now n) k (q, st) = Some (b, q', st')"
  shows "calm_store (sto_slab st) (sto_slab st')"
  using assms unfolding queue_push_def
  by (auto simp: Let_def bind_eq_Some_conv simp del: slab_store_put intro: set_queued_calm set_both_calm
      split: if_splits option.splits)

lemma queue_push_front_calm:
  assumes "queue_push_front (next_of now n) k (q, st) = Some (b, q', st')"
  shows "calm_store (sto_slab st) (sto_slab st')"
  using assms unfolding queue_push_front_def
  by (auto simp: Let_def bind_eq_Some_conv simp del: slab_store_put intro: set_queued_calm set_both_calm
      split: if_splits option.splits)

lemma queue_pop_calm:
  assumes "queue_pop (next_of now n) (q, st) = Some (r, q', st')"
  shows "calm_store (sto_slab st) (sto_slab st')"
  using assms unfolding queue_pop_def
  by (auto simp: Let_def bind_eq_Some_conv store_index_slab acct_set_next dest!: acct_set_queued
      intro!: calm_store_upd split: if_splits option.splits)

lemma queue_pop_if_calm:
  assumes "queue_pop_if (next_of now n) f (q, st) = Some (r, q', st')"
  shows "calm_store (sto_slab st) (sto_slab st')"
  using assms unfolding queue_pop_if_def
  by (auto simp: bind_eq_Some_conv dest: queue_pop_calm split: if_splits option.splits)

lemma dec_num_streams_calm: "dec_num_streams x c = Some (y, c') \<Longrightarrow> acct y = acct x"
  by (auto simp: dec_num_streams_def bind_eq_Some_conv acct_counted split: if_splits)

lemma transition_close_calm:
  assumes "store_index st k = Some x"
  shows "post (Option.bind
      (if \<not> is_pending_reset_expiration x
       then (let st1 = ptr_unlink k st in if b then map_option (\<lambda>c1. (c1, st1)) (dec_num_reset_streams c) else Some (c, st1))
       else Some (c, st))
      (\<lambda>(c1, st1).
        if \<not> is_scheduled_reset (st_state x) \<and> st_is_counted x
        then map_option (\<lambda>(s2, c2). (c2, store_put k s2 st1)) (dec_num_streams x c1)
        else Some (c1, st1))) (\<lambda>(c3, st3). calm_store (sto_slab st) (sto_slab st3))"
proof (rule post_bind, rule post_mono [where P = "\<lambda>(c1, st1). sto_slab st1 = sto_slab st"])
  show "post (if \<not> is_pending_reset_expiration x
       then (let st1 = ptr_unlink k st in if b then map_option (\<lambda>c1. (c1, st1)) (dec_num_reset_streams c) else Some (c, st1))
       else Some (c, st)) (\<lambda>(c1, st1). sto_slab st1 = sto_slab st)"
    by (auto simp: ptr_unlink_def Let_def intro!: postI split: if_splits)
next
  fix y :: "counts \<times> store"
  assume "case y of (c1, st1) \<Rightarrow> sto_slab st1 = sto_slab st"
  then show "post (case y of (c1, st1) \<Rightarrow>
        if \<not> is_scheduled_reset (st_state x) \<and> st_is_counted x
        then map_option (\<lambda>(s2, c2). (c2, store_put k s2 st1)) (dec_num_streams x c1)
        else Some (c1, st1)) (\<lambda>(c3, st3). calm_store (sto_slab st) (sto_slab st3))"
    using assms
    by (auto simp: store_index_slab intro!: postI split: if_splits) (rule calm_store_upd, assumption, rule dec_num_streams_calm)
qed

lemma transition_remove_calm:
  "calm_store m (sto_slab st) \<Longrightarrow>
    post (Option.bind (store_index st k) (\<lambda>x. if is_released x then map_option (\<lambda>(_, st4). (c, st4)) (ptr_remove k st)
     else Some (c, st))) (\<lambda>(c', st'). calm_store m (sto_slab st'))"
  by (intro post_rules) (auto intro!: postI calm_store_remove simp: ptr_remove_def split: if_splits option.splits)

lemma transition_after_calm: "post (transition_after k b (c, st)) (\<lambda>(c', st'). calm_store (sto_slab st) (sto_slab st'))"
  unfolding transition_after_def prod.case
  apply (rule post_bind, rule post_store_index, rule post_bind, rule post_if)
   apply (rule post_mono [OF transition_close_calm], assumption, clarsimp, rule transition_remove_calm, assumption)
  apply (subst post_simps, unfold prod.case, rule transition_remove_calm, rule calm_store_refl)
  done

text \<open>An invariant that depends on the accounts alone survives the operations that do not book.\<close>

lemma steadyD: "steady I \<Longrightarrow> I s \<Longrightarrow> quiet s s' \<Longrightarrow> I s'"
  by (auto simp: steady_def)

lemma calm_set_store: "calm_store (slab s) (sto_slab st) \<Longrightarrow> quiet s (s\<lparr>ss_store := st\<rparr>)"
  by (simp add: quiet_def conn_store)

lemma calm_queue_store: "calm_store (slab s) (sto_slab st) \<Longrightarrow> quiet s (set_queue n q (s\<lparr>ss_store := st\<rparr>))"
  by (simp add: quiet_def conn_store conn_queue)

lemma post_steady:
  assumes "steady I" "I s" "post m (quiet s)" "\<And>s'. I s' \<Longrightarrow> P s'"
  shows "post m P"
  by (rule post_mono [OF assms(3)]) (rule assms(4) [OF steadyD [OF assms(1,2)]])

lemma post_steady_result:
  assumes "steady I" "I s" "post m (\<lambda>(r, s'). quiet s s')" "\<And>r s'. I s' \<Longrightarrow> P (r, s')"
  shows "post m P"
  by (rule post_mono [OF assms(3)]) (auto intro!: assms(4) steadyD [OF assms(1,2)])

lemma quiet_steady: "steady (quiet s)"
  by (auto simp: steady_def intro: calm_trans)

lemma calm_counts: "quiet s s' \<Longrightarrow> quiet s (s'\<lparr>ss_counts := c\<rparr>)"
  by (simp add: quiet_def conn_counts)

lemma q_push_steady:
  "steady I \<Longrightarrow> I s \<Longrightarrow> (\<And>s'. I s' \<Longrightarrow> P s') \<Longrightarrow> post (q_push now n k s) P"
  by (erule (1) post_steady) (auto simp: q_push_def intro!: postI calm_queue_store dest: queue_push_calm simp: bind_eq_Some_conv)

lemma q_push_front_steady:
  "steady I \<Longrightarrow> I s \<Longrightarrow> (\<And>s'. I s' \<Longrightarrow> P s') \<Longrightarrow> post (q_push_front now n k s) P"
  by (erule (1) post_steady)
    (auto simp: q_push_front_def intro!: postI calm_queue_store dest: queue_push_front_calm simp: bind_eq_Some_conv)

lemma q_pop_steady:
  "steady I \<Longrightarrow> I s \<Longrightarrow> (\<And>k s'. I s' \<Longrightarrow> P (k, s')) \<Longrightarrow> post (q_pop n s) P"
  by (erule (1) post_steady_result)
    (auto simp: q_pop_def intro!: postI calm_queue_store dest: queue_pop_calm simp: bind_eq_Some_conv)

lemma q_pop_if_steady:
  "steady I \<Longrightarrow> I s \<Longrightarrow> (\<And>k s'. I s' \<Longrightarrow> P (k, s')) \<Longrightarrow> post (q_pop_if n f s) P"
  by (erule (1) post_steady_result)
    (auto simp: q_pop_if_def intro!: postI calm_queue_store dest: queue_pop_if_calm simp: bind_eq_Some_conv)

lemma calm_put_buffer:
  "get_stream k s = Some x \<Longrightarrow> quiet s (put_stream k (x\<lparr>st_pending_send := d\<rparr>) (s\<lparr>ss_send_buffer := b\<rparr>))"
  by (auto simp: quiet_def get_stream_slab put_stream_def conn_store conn_send_buffer acct_pending_send intro!: calm_store_upd)

lemma calm_put_events:
  "get_stream k s = Some x \<Longrightarrow>
    quiet s (put_stream k (x\<lparr>st_pending_recv := d\<rparr>) (s\<lparr>ss_recv := (ss_recv s)\<lparr>rv_buffer := b\<rparr>\<rparr>))"
  by (auto simp: quiet_def get_stream_slab put_stream_def conn_store conn_recv_buffer acct_pending_recv intro!: calm_store_upd)

lemma queue_push_steady:
  assumes "steady I" "I s" "\<And>b q' st. I (s\<lparr>ss_store := st\<rparr>) \<Longrightarrow> P (b, q', st)"
  shows "post (queue_push (next_of now n) k (q, ss_store s)) P"
  by (rule postI) (auto dest!: queue_push_calm intro!: assms(3) steadyD [OF assms(1,2)] calm_set_store)

lemma queue_pop_steady:
  assumes "steady I" "I s" "\<And>k q' st. I (s\<lparr>ss_store := st\<rparr>) \<Longrightarrow> P (k, q', st)"
  shows "post (queue_pop (next_of now n) (q, ss_store s)) P"
  by (rule postI) (auto dest!: queue_pop_calm intro!: assms(3) steadyD [OF assms(1,2)] calm_set_store)

lemma frame_push_back_steady:
  "steady I \<Longrightarrow> I s \<Longrightarrow> (\<And>s'. I s' \<Longrightarrow> P s') \<Longrightarrow> post (frame_push_back E f k s) P"
  by (erule (1) post_steady) (auto simp: frame_push_back_def bind_eq_Some_conv intro!: postI calm_put_buffer)

lemma frame_push_front_steady:
  "steady I \<Longrightarrow> I s \<Longrightarrow> (\<And>s'. I s' \<Longrightarrow> P s') \<Longrightarrow> post (frame_push_front E f k s) P"
  by (erule (1) post_steady) (auto simp: frame_push_front_def bind_eq_Some_conv intro!: postI calm_put_buffer)

lemma frame_pop_front_steady:
  "steady I \<Longrightarrow> I s \<Longrightarrow> (\<And>f s'. I s' \<Longrightarrow> P (f, s')) \<Longrightarrow> post (frame_pop_front k s) P"
  by (erule (1) post_steady_result) (auto simp: frame_pop_front_def bind_eq_Some_conv intro!: postI calm_put_buffer)

lemma event_push_back_steady:
  "steady I \<Longrightarrow> I s \<Longrightarrow> (\<And>s'. I s' \<Longrightarrow> P s') \<Longrightarrow> post (event_push_back E e k s) P"
  by (erule (1) post_steady) (auto simp: event_push_back_def bind_eq_Some_conv intro!: postI calm_put_events)

lemma event_push_front_steady:
  "steady I \<Longrightarrow> I s \<Longrightarrow> (\<And>s'. I s' \<Longrightarrow> P s') \<Longrightarrow> post (event_push_front E e k s) P"
  by (erule (1) post_steady) (auto simp: event_push_front_def bind_eq_Some_conv intro!: postI calm_put_events)

lemma event_pop_front_steady:
  "steady I \<Longrightarrow> I s \<Longrightarrow> (\<And>e s'. I s' \<Longrightarrow> P (e, s')) \<Longrightarrow> post (event_pop_front k s) P"
  by (erule (1) post_steady_result) (auto simp: event_pop_front_def bind_eq_Some_conv intro!: postI calm_put_events)

lemma after_steady: "steady I \<Longrightarrow> I s \<Longrightarrow> (\<And>s'. I s' \<Longrightarrow> P s') \<Longrightarrow> post (after k b s) P"
  by (erule (1) post_steady)
    (auto simp: after_def bind_eq_Some_conv quiet_def conn_store conn_counts intro!: postI
      dest!: postD [OF transition_after_calm])

lemma transition_steady:
  assumes "steady I" "I s" "post (f s) (\<lambda>(r, s'). I s' \<and> (\<forall>s''. I s'' \<longrightarrow> P (r, s'')))"
  shows "post (transition k f s) P"
  unfolding transition_def
  by (intro post_rules post_mono [OF assms(3)]) (auto intro!: post_rules after_steady [OF assms(1)])

lemma transition_upd_steady:
  assumes "steady I" "I s" "post (f s) I" "\<And>s'. I s' \<Longrightarrow> P s'"
  shows "post (transition_upd k f s) P"
  unfolding transition_upd_def using assms
  by (auto intro!: post_map_option transition_steady elim: post_mono)

lemma upd_counts_steady: "steady I \<Longrightarrow> I s \<Longrightarrow> (\<And>s'. I s' \<Longrightarrow> P s') \<Longrightarrow> post (upd_counts f s) P"
  by (erule (1) post_steady) (auto simp: upd_counts_def bind_eq_Some_conv quiet_def conn_counts intro!: postI)

lemma calm_put_counts:
  "get_stream k s = Some x \<Longrightarrow> quiet s (put_stream k (x\<lparr>st_is_counted := b\<rparr>) (s\<lparr>ss_counts := c\<rparr>))"
  by (auto simp: quiet_def get_stream_slab put_stream_def conn_store conn_counts acct_counted intro!: calm_store_upd)

lemma count_send_steady: "steady I \<Longrightarrow> I s \<Longrightarrow> (\<And>s'. I s' \<Longrightarrow> P s') \<Longrightarrow> post (count_send k s) P"
  by (erule (1) post_steady)
    (auto simp: count_send_def inc_num_send_streams_def bind_eq_Some_conv intro!: postI calm_put_counts split: if_splits)

lemma count_recv_steady: "steady I \<Longrightarrow> I s \<Longrightarrow> (\<And>s'. I s' \<Longrightarrow> P s') \<Longrightarrow> post (count_recv k s) P"
  by (erule (1) post_steady)
    (auto simp: count_recv_def inc_num_recv_streams_def bind_eq_Some_conv intro!: postI calm_put_counts split: if_splits)

lemma mod_stream_steady:
  "steady I \<Longrightarrow> I s \<Longrightarrow> (\<And>x. acct (f x) = acct x) \<Longrightarrow> (\<And>s'. I s' \<Longrightarrow> P s') \<Longrightarrow> post (mod_stream k f s) P"
  by (erule (1) post_steady) (auto simp: mod_stream_def bind_eq_Some_conv intro!: postI calm_put)

lemma try_stream_steady:
  "steady I \<Longrightarrow> I s \<Longrightarrow> (\<And>x y. f x = Some y \<Longrightarrow> acct y = acct x) \<Longrightarrow> (\<And>s'. I s' \<Longrightarrow> P s') \<Longrightarrow> post (try_stream k f s) P"
  by (erule (1) post_steady) (auto simp: try_stream_def bind_eq_Some_conv intro!: postI calm_put)

lemma put_stream_steady: "steady I \<Longrightarrow> I s \<Longrightarrow> get_stream k s = Some x \<Longrightarrow> acct y = acct x \<Longrightarrow> I (put_stream k y s)"
  by (erule (1) steadyD) (rule calm_put)

lemma wake_task_steady: "steady I \<Longrightarrow> I s \<Longrightarrow> I (wake_task s)"
  by (erule (1) steadyD) (rule calm_wake)

lemmas steady_rules = queue_push_steady queue_pop_steady q_push_steady q_push_front_steady q_pop_steady q_pop_if_steady frame_push_back_steady
  frame_push_front_steady frame_pop_front_steady event_push_back_steady event_push_front_steady event_pop_front_steady
  after_steady transition_steady transition_upd_steady upd_counts_steady count_send_steady count_recv_steady
  mod_stream_steady try_stream_steady

end

section \<open>Loops over the streams\<close>

lemma try_for_each_post:
  assumes step: "\<And>k s. I s \<Longrightarrow> case f k s of (r, s') \<Rightarrow> r \<noteq> Panic \<longrightarrow> I s'"
  shows "I s \<Longrightarrow> try_for_each get f len i s = (r, s') \<Longrightarrow> r \<noteq> Panic \<Longrightarrow> I s'"
proof (induction "len - i" arbitrary: len i s rule: less_induct)
  case less
  show ?case
  proof (cases "i < len \<and> i < length (sto_ids (get s))")
    case False
    with less.prems show ?thesis
      by (auto simp: try_for_each.simps [of get f len i s] split: if_splits)
  next
    case True
    obtain sid index where e: "sto_ids (get s) ! i = (sid, index)" by fastforce
    obtain r1 s1 where f: "f \<lparr>key_index = index, key_stream_id = sid\<rparr> s = (r1, s1)" by fastforce
    have I1: "r1 \<noteq> Panic \<Longrightarrow> I s1"
      using step [OF less.prems(1), of "\<lparr>key_index = index, key_stream_id = sid\<rparr>"] f by simp
    note run = less.prems(2) [unfolded try_for_each.simps [of get f len i s]]
    show ?thesis
    proof (cases r1)
      case (Ok x)
      let ?new = "length (sto_ids (get s1))"
      from run True e f Ok less.prems(3)
      have "(?new < len \<and> try_for_each get f (len - 1) i s1 = (r, s')) \<or> try_for_each get f len (i + 1) s1 = (r, s')"
        by (auto simp: Let_def split: if_splits)
      then show ?thesis
      proof
        assume "?new < len \<and> try_for_each get f (len - 1) i s1 = (r, s')"
        moreover have "len - 1 - i < len - i" using True by linarith
        ultimately show ?thesis using less.hyps [of "len - 1" i s1] I1 Ok less.prems(3) by simp
      next
        assume "try_for_each get f len (i + 1) s1 = (r, s')"
        moreover have "len - (i + 1) < len - i" using True by linarith
        ultimately show ?thesis using less.hyps [of len "i + 1" s1] I1 Ok less.prems(3) by simp
      qed
    qed (use run True e f I1 less.prems in auto)
  qed
qed

lemma each_stream_post:
  assumes "\<And>k s. I s \<Longrightarrow> post (f k s) (\<lambda>(r, s'). I s')" "I s" "\<And>r s'. I s' \<Longrightarrow> P (r, s')"
  shows "post (each_stream f s) P"
proof (rule postI, clarify)
  fix r s' assume run: "each_stream f s = Some (r, s')"
  let ?g = "\<lambda>k s. case f k s of None \<Rightarrow> (Panic, s) | Some (Inl e, s) \<Rightarrow> (Err e, s) | Some (Inr x, s) \<Rightarrow> (Ok x, s)"
  have step: "I s \<Longrightarrow> case ?g k s of (r, s') \<Rightarrow> r \<noteq> Panic \<longrightarrow> I s'" for k s
    using assms(1) [of s k] by (auto split: option.splits sum.splits)
  from run obtain q where "try_for_each ss_store ?g (length (sto_ids (ss_store s))) 0 s = (q, s')" "q \<noteq> Panic"
    by (auto simp: each_stream_def store_try_for_each_def split: prod.splits outcome.splits)
  from try_for_each_post [OF step assms(2) this] show "P (r, s')" by (rule assms(3))
qed

lemma for_each_stream_post:
  assumes "\<And>k s. I s \<Longrightarrow> post (f k s) I" "I s" "\<And>s'. I s' \<Longrightarrow> P s'"
  shows "post (for_each_stream f s) P"
  unfolding for_each_stream_def
  by (intro post_rules each_stream_post [where I = I]) (use assms in \<open>auto intro!: post_rules elim: post_mono\<close>)


text \<open>A loop is the least fixed point of its body: what the body keeps, the loop keeps.\<close>

lemma loop_admissible: "option.admissible (\<lambda>f. \<forall>x. I x \<longrightarrow> post (f x) (Q x))"
  using option_admissible [of "\<lambda>x y. I x \<longrightarrow> Q x y"] by (simp add: post_def split: option.splits)

lemma loop_admissible2: "option.admissible (\<lambda>f. \<forall>x y. I x y \<longrightarrow> post (curry f x y) (Q x y))"
  using loop_admissible [of "\<lambda>(x, y). I x y" "\<lambda>(x, y). Q x y"] by simp

lemma loop_admissible3: "option.admissible (\<lambda>f. \<forall>x y z. I x y z \<longrightarrow> post (curry (curry f) x y z) (Q x y z))"
  using loop_admissible [of "\<lambda>((x, y), z). I x y z" "\<lambda>((x, y), z). Q x y z"] by simp

lemma loop_admissible4: "option.admissible (\<lambda>f. \<forall>w x y z. I w x y z \<longrightarrow> post (curry (curry (curry f)) w x y z) (Q w x y z))"
  using loop_admissible [of "\<lambda>(((w, x), y), z). I w x y z" "\<lambda>(((w, x), y), z). Q w x y z"] by simp

end
