(* ===== verification/Flow_Numbers.thy ===== *)
theory Flow_Numbers
  imports Streams_Ledger
begin

text \<open>
  The operations on flow control windows, read as integers: what \<open>Ok\<close> means for the window and for the capacity.
\<close>

section \<open>Windows as integers\<close>

lemma word_of_int_2p_len_32: "(4294967296 :: u32) = 0"
  by (rule word_uint_eqI) (simp only: uint_word_arith_bintrs(8) flip: word_of_int_numeral; simp)

lemma uint_sint_nonneg: "0 \<le> sint (w :: u32) \<Longrightarrow> uint w = sint w"
proof (cases "uint w < 2147483648")
  case True
  then show ?thesis by (simp add: sint_uint_31)
next
  case False
  assume nn: "0 \<le> sint w"
  have lt: "uint w < 4294967296" using uint_lt2p [of w] by simp
  have "word_of_int (uint w - 4294967296) = w" 
    using word_of_int_uint [of w] by (simp add: word_of_int_2p_len_32)
  moreover have "in_i32 (uint w - 4294967296)" using False lt unfolding in_i32_def by linarith
  ultimately have "sint w = uint w - 4294967296" by (metis sint_of_in_i32)
  with nn lt show ?thesis by linarith
qed

lemma uint_add_32: "unat a + unat b < 2 ^ 32 \<Longrightarrow> uint (a + b :: u32) = uint a + uint b"
proof -
  assume "unat a + unat b < 2 ^ 32"
  then have "unat a + unat b < 4294967296" by simp
  then have "int (unat a) + int (unat b) < 4294967296" by linarith
  then show ?thesis using uint_add_lem [of a b] by simp
qed

lemma uint_as_size: "uint (window_as_size w) = max 0 (win_int w)"
  by (simp add: window_as_size_def uint_sint_nonneg)

lemma sint_as_size: "sint (window_as_size w) = max 0 (win_int w)"
  by (simp add: window_as_size_def)

lemma assert_ok_Some: "assert_ok r = Some x \<longleftrightarrow> (\<exists>u. r = (Ok u, x))"
  by (auto simp: assert_ok_def split: prod.splits outcome.splits)

lemma assign_capacity_Ok:
  "assign_capacity fc n = (Ok u, fc') \<Longrightarrow>
    win_int (fc_available fc') = win_int (fc_available fc) + sint n \<and> fc_window_size fc' = fc_window_size fc"
  by (auto simp: assign_capacity_def window_increase_by_cases sint_of_in_i32 simp del: of_int_add split: if_splits)

lemma claim_capacity_Ok:
  "claim_capacity fc n = (Ok u, fc') \<Longrightarrow>
    win_int (fc_available fc') = win_int (fc_available fc) - sint n \<and> fc_window_size fc' = fc_window_size fc"
  by (auto simp: claim_capacity_def window_decrease_by_cases sint_of_in_i32 simp del: of_int_diff split: if_splits)

lemma flow_send_data_Ok:
  "flow_send_data fc n = (Ok u, fc') \<Longrightarrow>
    win_int (fc_window_size fc') = win_int (fc_window_size fc) - sint n \<and>
    win_int (fc_available fc') = win_int (fc_available fc) - sint n"
  by (auto simp: flow_send_data_def dec_both_def window_decrease_by_cases sint_of_in_i32 word_gt_0 simp del: of_int_diff
      split: if_splits)

lemma inc_window_Ok:
  "inc_window fc n = (Ok u, fc') \<Longrightarrow>
    win_int (fc_window_size fc') = win_int (fc_window_size fc) + sint n \<and> fc_available fc' = fc_available fc"
  by (auto simp: inc_window_def Let_def split: if_splits)

lemma inc_window_available: "inc_window fc n = (r, fc') \<Longrightarrow> fc_available fc' = fc_available fc"
  by (auto simp: inc_window_def Let_def split: if_splits)

lemma dec_send_window_available: "dec_send_window fc n = (r, fc') \<Longrightarrow> fc_available fc' = fc_available fc"
  by (auto simp: dec_send_window_def split: prod.splits)

section \<open>Wakers\<close>

lemma wake_sel [simp]:
  "st_in_flight_recv_data (notify_send x) = st_in_flight_recv_data x" "st_send_flow (notify_send x) = st_send_flow x"
  "st_in_flight_recv_data (notify_recv x) = st_in_flight_recv_data x" "st_send_flow (notify_recv x) = st_send_flow x"
  "st_in_flight_recv_data (notify_push x) = st_in_flight_recv_data x" "st_send_flow (notify_push x) = st_send_flow x"
  "st_in_flight_recv_data (notify_all x) = st_in_flight_recv_data x" "st_send_flow (notify_all x) = st_send_flow x"
  "st_in_flight_recv_data (wait_send w x) = st_in_flight_recv_data x" "st_send_flow (wait_send w x) = st_send_flow x"
  "st_in_flight_recv_data (stream_set_reset r i x) = st_in_flight_recv_data x"
  "st_send_flow (stream_set_reset r i x) = st_send_flow x"
  by (simp_all add: notify_send_def notify_recv_def notify_push_def notify_all_def wait_send_def stream_set_reset_def
      split: option.splits)

end
