(* ===== verification/Flow_Accounts.thy ===== *)
theory Flow_Accounts
  imports Flow_Numbers
begin

text \<open>
  What the streams of a connection hold of its flow control windows. Sending: the window that the peer granted bounds what the
  connection has not assigned plus what the streams hold. Receiving: the bytes counted as unread on the connection cover those that
  the streams count. \<open>flow_inv d q\<close> says so with \<open>d\<close> bytes of send capacity taken from a stream or from the connection and not yet given
  on, and \<open>q\<close> unread bytes of the connection that no stream counts. Every operation on streams keeps \<open>flow_inv 0 q\<close>.
\<close>

section \<open>Totals over the store\<close>

definition held :: "stream \<Rightarrow> int" where
  "held x = win_int (fc_available (st_send_flow x))"

definition unread :: "stream \<Rightarrow> int" where
  "unread x = uint (st_in_flight_recv_data x)"

definition store_total :: "(stream \<Rightarrow> int) \<Rightarrow> (nat \<Rightarrow> stream option) \<Rightarrow> int" where
  "store_total f m = (\<Sum>n \<in> dom m. f (the (m n)))"

definition send_avail :: "streams \<Rightarrow> int" where
  "send_avail s = win_int (fc_available (pz_flow (prio s)))"

definition send_window :: "streams \<Rightarrow> int" where
  "send_window s = win_int (fc_window_size (pz_flow (prio s)))"

definition conn_unread :: "streams \<Rightarrow> int" where
  "conn_unread s = uint (rv_in_flight_data (ss_recv s))"

definition flow_inv :: "int \<Rightarrow> int \<Rightarrow> streams \<Rightarrow> bool" where
  "flow_inv d q s \<longleftrightarrow> finite (dom (slab s)) \<and> (\<forall>n x. slab s n = Some x \<longrightarrow> 0 \<le> held x) \<and> 0 \<le> send_avail s \<and>
     store_total held (slab s) + send_avail s + d \<le> send_window s \<and>
     store_total unread (slab s) + q \<le> conn_unread s"

lemma unread_nonneg [simp]: "0 \<le> unread x"
  by (simp add: unread_def)

lemma store_total_upd:
  assumes "finite (dom m)" "m n = Some x"
  shows "store_total f (m(n \<mapsto> y)) = store_total f m - f x + f y"
proof -
  let ?h = "\<lambda>m i. f (the (m i))"
  from assms have dom: "dom (m(n \<mapsto> y)) = dom m" by auto
  have "(\<Sum>i \<in> dom m - {n}. ?h (m(n \<mapsto> y)) i) = (\<Sum>i \<in> dom m - {n}. ?h m i)"
    by (rule sum.cong) auto
  moreover have "n \<in> dom m" using assms by auto
  ultimately show ?thesis
    using sum.remove [of "dom m" n "?h (m(n \<mapsto> y))"] sum.remove [of "dom m" n "?h m"] assms
    by (simp add: store_total_def insert_absorb)
qed

lemma store_total_nonneg: "(\<And>n x. m n = Some x \<Longrightarrow> 0 \<le> f x) \<Longrightarrow> 0 \<le> store_total f m"
  unfolding store_total_def by (rule sum_nonneg) auto

lemma le_store_total:
  "finite (dom m) \<Longrightarrow> (\<And>n x. m n = Some x \<Longrightarrow> 0 \<le> f x) \<Longrightarrow> m n = Some x \<Longrightarrow> f x \<le> store_total f m"
  unfolding store_total_def by (drule member_le_sum [of n "dom m" "\<lambda>i. f (the (m i))", rotated -1]) auto

lemma store_total_new:
  assumes "finite (dom m)" "\<And>n x. m n = Some x \<Longrightarrow> 0 \<le> f x" "f y = 0"
  shows "store_total f (m(n \<mapsto> y)) \<le> store_total f m"
proof (cases "m n")
  case None
  let ?h = "\<lambda>m i. f (the (m i))"
  have "(\<Sum>i \<in> dom m. ?h (m(n \<mapsto> y)) i) = (\<Sum>i \<in> dom m. ?h m i)"
    using None by (intro sum.cong) auto
  then show ?thesis
    using None assms by (simp add: store_total_def domIff)
next
  case (Some x)
  with assms show ?thesis by (simp add: store_total_upd)
qed

section \<open>Operations that do not book\<close>

interpretation flow_acct:
  ledger "\<lambda>x. (st_send_flow x, st_in_flight_recv_data x)" "\<lambda>s. (pz_flow (prio s), rv_in_flight_data (ss_recv s))"
proof unfold_locales
  fix now n k x
  show "(st_send_flow (nx_set_next (next_of now n) k x), st_in_flight_recv_data (nx_set_next (next_of now n) k x)) =
      (st_send_flow x, st_in_flight_recv_data x)"
    by (cases n) simp_all
next
  fix now n b x y assume "nx_set_queued (next_of now n) b x = Some y"
  then show "(st_send_flow y, st_in_flight_recv_data y) = (st_send_flow x, st_in_flight_recv_data x)"
    by (cases n) (auto split: if_splits)
next
  fix n q s
  show "(pz_flow (prio (set_queue n q s)), rv_in_flight_data (ss_recv (set_queue n q s))) =
      (pz_flow (prio s), rv_in_flight_data (ss_recv s))"
    by (cases n) simp_all
qed simp_all

lemma store_total_calm:
  assumes "flow_acct.calm_store m m'" "finite (dom m)" "\<And>n x. m n = Some x \<Longrightarrow> 0 \<le> f x"
    "\<And>x y. st_send_flow x = st_send_flow y \<Longrightarrow> st_in_flight_recv_data x = st_in_flight_recv_data y \<Longrightarrow> f x = f y"
  shows "store_total f m' \<le> store_total f m"
proof -
  have same: "n \<in> dom m \<and> f (the (m' n)) = f (the (m n))" if "n \<in> dom m'" for n
  proof -
    from that obtain y where y: "m' n = Some y" by auto
    with assms(1) obtain x where "m n = Some x" "st_send_flow y = st_send_flow x"
        "st_in_flight_recv_data y = st_in_flight_recv_data x"
      unfolding flow_acct.calm_store_def by blast
    with y assms(4) [of y x] show ?thesis by (simp add: domI)
  qed
  have "store_total f m' = (\<Sum>n \<in> dom m'. f (the (m n)))"
    unfolding store_total_def using same by (intro sum.cong) auto
  also have "\<dots> \<le> store_total f m"
    unfolding store_total_def
  proof (rule sum_mono2)
    show "dom m' \<subseteq> dom m" using same by blast
  qed (use assms(2,3) in auto)
  finally show ?thesis .
qed

lemma flow_inv_steady: "flow_acct.steady (flow_inv d q)"
  unfolding flow_acct.steady_def
proof (intro allI impI)
  fix s s' assume inv: "flow_inv d q s" and quiet: "flow_acct.quiet s s'"
  from inv have nn: "\<And>n x. slab s n = Some x \<Longrightarrow> 0 \<le> held x" and fin: "finite (dom (slab s))"
    by (auto simp: flow_inv_def)
  from quiet have flow: "pz_flow (prio s') = pz_flow (prio s)" "rv_in_flight_data (ss_recv s') = rv_in_flight_data (ss_recv s)"
    and calm: "flow_acct.calm_store (slab s) (slab s')"
    by (auto simp: flow_acct.quiet_def)
  from calm have "dom (slab s') \<subseteq> dom (slab s)" by (auto simp: flow_acct.calm_store_def)
  then have "finite (dom (slab s'))" using fin finite_subset by blast
  moreover have "0 \<le> held x" if "slab s' n = Some x" for n x
    using calm nn that by (fastforce simp: flow_acct.calm_store_def held_def)
  moreover have "store_total held (slab s') \<le> store_total held (slab s)"
    by (intro store_total_calm [OF calm fin] nn) (simp_all add: held_def)
  moreover have "store_total unread (slab s') \<le> store_total unread (slab s)"
    by (intro store_total_calm [OF calm fin]) (simp_all add: unread_def)
  ultimately show "flow_inv d q s'"
    using inv flow by (simp add: flow_inv_def send_avail_def send_window_def conn_unread_def)
qed

lemmas flow_rules [post_rules] = flow_acct.steady_rules [OF flow_inv_steady]

section \<open>Bookings\<close>

lemma flow_inv_mono: "flow_inv d q s \<Longrightarrow> d' \<le> d \<Longrightarrow> flow_inv d' q s"
  by (auto simp: flow_inv_def)

lemma flow_inv_unread_mono: "flow_inv d q s \<Longrightarrow> q' \<le> q \<Longrightarrow> flow_inv d q' s"
  by (auto simp: flow_inv_def)

lemma flow_inv_total: "flow_inv d q s \<Longrightarrow> 0 \<le> store_total held (slab s)"
  by (auto simp: flow_inv_def intro: store_total_nonneg)

lemma flow_inv_limit: "flow_inv d q s \<Longrightarrow> d \<le> 2147483647"
  using flow_inv_total [of d q s] sint_in_i32 [of "win_val (fc_window_size (pz_flow (prio s)))"]
  by (simp add: flow_inv_def send_window_def in_i32_def)

lemma flow_inv_held: "flow_inv d q s \<Longrightarrow> get_stream k s = Some x \<Longrightarrow> 0 \<le> held x \<and> held x + send_avail s + d \<le> send_window s"
  using le_store_total [of "slab s" held "unat (key_index k)" x] by (auto simp: flow_inv_def get_stream_slab)

lemma flow_inv_sint: "flow_inv (uint (n :: u32)) q s \<Longrightarrow> sint n = uint n"
  by (rule sint_uint_31) (use flow_inv_limit [of "uint n" q s] in simp)

lemma conn_assign_flow:
  assumes "flow_inv (d + uint n) q s" "0 \<le> d" "\<And>s'. flow_inv d q s' \<Longrightarrow> slab s' = slab s \<Longrightarrow> P s'"
  shows "post (conn_assign n s) P"
proof -
  have "sint n = uint n" by (rule flow_inv_sint [OF flow_inv_mono [OF assms(1)]]) (use assms(2) in simp)
  then show ?thesis
    using assms(1) unfolding conn_assign_def
    by (intro post_rules postI)
      (auto simp: bind_eq_Some_conv assert_ok_Some dest!: assign_capacity_Ok intro!: assms(3)
        simp: flow_inv_def send_avail_def send_window_def conn_unread_def)
qed

lemma conn_claim_flow:
  assumes "flow_inv d q s" "n \<le> window_as_size (fc_available (pz_flow (prio s)))"
    "\<And>s'. flow_inv (d + uint n) q s' \<Longrightarrow> slab s' = slab s \<Longrightarrow> P s'"
  shows "post (conn_claim n s) P"
proof -
  have le: "uint n \<le> send_avail s"
    using assms(1,2) by (simp add: word_le_def uint_as_size send_avail_def flow_inv_def)
  then have "sint n = uint n"
    using sint_in_i32 [of "win_val (fc_available (pz_flow (prio s)))"] by (intro sint_uint_31) (simp add: send_avail_def in_i32_def)
  with le show ?thesis
    using assms(1) unfolding conn_claim_def
    by (intro post_rules postI)
      (auto simp: bind_eq_Some_conv assert_ok_Some dest!: claim_capacity_Ok intro!: assms(3)
        simp: flow_inv_def send_avail_def send_window_def conn_unread_def)
qed

text \<open>A change of the capacity of one stream is booked on \<open>d\<close>.\<close>

lemma flow_put_stream:
  assumes "flow_inv d q s" "get_stream k s = Some x" "0 \<le> held y"
  shows "flow_inv (d + held x - held y) (q + unread x - unread y) (put_stream k y s)"
  using assms
  by (auto simp: flow_inv_def get_stream_slab store_total_upd send_avail_def send_window_def conn_unread_def split: if_splits)

lemma flow_put_held:
  assumes "flow_inv d q s" "get_stream k s = Some x" "0 \<le> held y" "unread y = unread x"
  shows "flow_inv (d + held x - held y) q (put_stream k y s)"
  using flow_put_stream [OF assms(1-3)] assms(4) by simp

lemma flow_put_unread:
  assumes "flow_inv d q s" "get_stream k s = Some x" "held y = held x"
  shows "flow_inv d (q + unread x - unread y) (put_stream k y s)"
  using flow_put_stream [OF assms(1,2), of y] assms(3) flow_inv_held [OF assms(1,2)] by simp

lemma flow_put_same:
  assumes "flow_inv d q s" "get_stream k s = Some x" "held y = held x" "unread y = unread x"
  shows "flow_inv d q (put_stream k y s)"
  using flow_put_unread [OF assms(1-3)] assms(4) by simp

lemma flow_put [post_rules, simp]:
  "flow_inv d q s \<Longrightarrow> get_stream k s \<noteq> None \<Longrightarrow> held y = held (the (get_stream k s)) \<Longrightarrow>
    unread y = unread (the (get_stream k s)) \<Longrightarrow> flow_inv d q (put_stream k y s)"
  by (auto intro: flow_put_same)

lemma flow_inv_wake [simp]: "flow_inv d q (wake_task s) = flow_inv d q s"
  by (simp add: flow_inv_def send_avail_def send_window_def conn_unread_def wake_task_def split: option.splits)

lemma stream_claim_flow:
  assumes "flow_inv d q s" "get_stream k s = Some x" "n \<le> window_as_size (fc_available (st_send_flow x))"
    "\<And>s'. flow_inv (d + uint n) q s' \<Longrightarrow> P s'"
  shows "post (stream_claim k n s) P"
proof -
  have le: "uint n \<le> held x"
    using assms(3) flow_inv_held [OF assms(1,2)] by (simp add: word_le_def uint_as_size held_def)
  then have "sint n = uint n"
    using sint_in_i32 [of "win_val (fc_available (st_send_flow x))"] by (intro sint_uint_31) (simp add: held_def in_i32_def)
  then have "assert_ok (claim_capacity (st_send_flow x) n) = Some fl \<Longrightarrow> held (x\<lparr>st_send_flow := fl\<rparr>) = held x - uint n" for fl
    by (auto simp: assert_ok_Some held_def dest!: claim_capacity_Ok)
  then have "assert_ok (claim_capacity (st_send_flow x) n) = Some fl \<Longrightarrow> flow_inv (d + uint n) q (put_stream k (x\<lparr>st_send_flow := fl\<rparr>) s)" for fl
    using flow_put_held [OF assms(1,2), of "x\<lparr>st_send_flow := fl\<rparr>"] le by (simp add: unread_def)
  then show ?thesis
    unfolding stream_claim_def try_stream_def
    by (intro post_rules postI) (auto simp: bind_eq_Some_conv assms(2) intro!: assms(4))
qed

lemma stream_assign_held:
  "stream_assign_capacity n b x = Some y \<Longrightarrow> held y = held x + sint n \<and> unread y = unread x"
  by (auto simp: unread_def stream_assign_capacity_def Let_def held_def notify_capacity_def dest!: assign_capacity_Ok
      split: if_splits prod.splits outcome.splits)

lemma stream_send_data_held:
  "stream_send_data n b x = Some y \<Longrightarrow> held y = held x - sint n \<and> unread y = unread x"
  by (auto simp: unread_def stream_send_data_def Let_def held_def notify_capacity_def dest!: flow_send_data_Ok
      split: if_splits prod.splits outcome.splits)


section \<open>Assigning capacity\<close>

lemma assign_claim_flow:
  assumes "flow_inv 0 q s" "n \<le> window_as_size (fc_available (pz_flow (prio s)))" "\<And>s'. flow_inv 0 q s' \<Longrightarrow> P s'"
  shows "post (Option.bind (try_stream k (stream_assign_capacity n b) s) (conn_claim n)) P"
proof -
  have le: "uint n \<le> send_avail s"
    using assms(1,2) by (simp add: word_le_def uint_as_size send_avail_def flow_inv_def)
  then have n: "sint n = uint n"
    using sint_in_i32 [of "win_val (fc_available (pz_flow (prio s)))"] by (intro sint_uint_31) (simp add: send_avail_def in_i32_def)
  have "flow_inv (- uint n) q (put_stream k y s)" if "get_stream k s = Some x" "stream_assign_capacity n b x = Some y" for x y
    using flow_put_held [OF assms(1) that(1), of y] stream_assign_held [OF that(2)] n flow_inv_held [OF assms(1) that(1)]
    by simp
  then show ?thesis
    unfolding try_stream_def using assms(2)
    by (intro post_rules postI [of "stream_assign_capacity n b _"]) (auto intro!: conn_claim_flow assms(3))
qed

lemma try_assign_flow:
  "flow_inv 0 q s \<Longrightarrow> (\<And>s'. flow_inv 0 q s' \<Longrightarrow> P s') \<Longrightarrow> post (prio_try_assign_capacity k s) P"
  unfolding prio_try_assign_capacity_def Let_def
  by (intro post_rules assign_claim_flow postI [of "additional_capacity _"]) (auto intro!: post_rules)

lemma assign_step_flow:
  "flow_inv 0 q s \<Longrightarrow> (\<And>r s'. flow_inv 0 q s' \<Longrightarrow> P (r, s')) \<Longrightarrow> post (assign_capacity_step s) P"
  unfolding assign_capacity_step_def
  by (intro post_rules) (auto intro!: post_rules try_assign_flow)

lemma assign_loop_flow: "flow_inv 0 q s \<Longrightarrow> (\<And>s'. flow_inv 0 q s' \<Longrightarrow> P s') \<Longrightarrow> post (assign_capacity_loop s) P"
proof -
  have "\<forall>s. flow_inv 0 q s \<longrightarrow> post (assign_capacity_loop s) (flow_inv 0 q)"
    by (rule assign_capacity_loop.fixp_induct [OF loop_admissible])
      (auto intro!: post_rules assign_step_flow split: loop_flow.splits)
  then show "flow_inv 0 q s \<Longrightarrow> (\<And>s'. flow_inv 0 q s' \<Longrightarrow> P s') \<Longrightarrow> post (assign_capacity_loop s) P"
    by (blast intro: post_mono)
qed

lemma assign_connection_flow:
  "flow_inv (uint n) q s \<Longrightarrow> (\<And>s'. flow_inv 0 q s' \<Longrightarrow> P s') \<Longrightarrow> post (prio_assign_connection_capacity n s) P"
  unfolding prio_assign_connection_capacity_def
  by (intro post_rules conn_assign_flow [where d = 0]) (auto intro!: assign_loop_flow)

lemma word_diff_le: "b \<le> a \<Longrightarrow> a - b \<le> (a :: u32)"
  by (simp add: word_le_def uint_sub_lem [THEN iffD1])

lemma reclaim_all_flow:
  "flow_inv 0 q s \<Longrightarrow> (\<And>s'. flow_inv 0 q s' \<Longrightarrow> P s') \<Longrightarrow> post (prio_reclaim_all_capacity k s) P"
  unfolding prio_reclaim_all_capacity_def Let_def
  by (intro post_rules) (auto intro!: stream_claim_flow assign_connection_flow)


lemma excess_flow:
  assumes "flow_inv 0 q s" "get_stream k s = Some y" "st_send_flow y = st_send_flow x"
    "c < unat (window_as_size (fc_available (st_send_flow x)))" "\<And>s'. flow_inv 0 q s' \<Longrightarrow> P s'"
  shows "post (Option.bind (stream_claim k (window_as_size (fc_available (st_send_flow x)) - of_nat c) s)
     (prio_assign_connection_capacity (window_as_size (fc_available (st_send_flow x)) - of_nat c))) P"
proof -
  let ?a = "window_as_size (fc_available (st_send_flow x))"
  have "c < 2 ^ 32" using assms(4) unsigned_less [of ?a, where 'a = nat] by (simp add: unsigned_less order.strict_trans)
  then have "unat (of_nat c :: u32) = c" by (simp add: unsigned_of_nat take_bit_nat_eq_self)
  then have "(of_nat c :: u32) \<le> ?a" using assms(4) by (simp add: word_le_nat_alt)
  then have "?a - of_nat c \<le> window_as_size (fc_available (st_send_flow y))" by (simp add: word_diff_le assms(3))
  then show ?thesis
    by (intro post_bind stream_claim_flow [OF assms(1,2)]) (auto intro!: assign_connection_flow assms(5))
qed

lemma reserve_flow:
  assumes "flow_inv 0 q s" and P: "\<And>s'. flow_inv 0 q s' \<Longrightarrow> P s'"
  shows "post (prio_reserve_capacity n k s) P"
proof -
  have less: "flow_inv 0 q (put_stream k (x\<lparr>st_requested_send_capacity := r\<rparr>) s)"
      "get_stream k (put_stream k (x\<lparr>st_requested_send_capacity := r\<rparr>) s) = Some (x\<lparr>st_requested_send_capacity := r\<rparr>)"
    if "get_stream k s = Some x" for x r
    using flow_put_same [OF assms(1) that, of "x\<lparr>st_requested_send_capacity := r\<rparr>"]
      get_stream_put [OF that, of "x\<lparr>st_requested_send_capacity := r\<rparr>"] by (simp_all add: held_def unread_def)
  show ?thesis
    unfolding prio_reserve_capacity_def Let_def
    apply (rule post_bind, rule post_get_stream)
    apply (rule post_if, simp add: P assms(1))
    apply (rule post_if)
     apply (rule post_bind, rule post_mod_stream)
     apply (rule post_if)
      apply (rule excess_flow [OF less], assumption+, simp, assumption, erule P)
     apply (simp add: P less)
    apply (intro post_rules post_mod_stream)
       apply (simp add: P assms(1))
      apply (rule assms(1), simp)
    apply (erule try_assign_flow, erule P)
    done
qed

lemma reclaim_reserved_flow:
  "flow_inv 0 q s \<Longrightarrow> (\<And>s'. flow_inv 0 q s' \<Longrightarrow> P s') \<Longrightarrow> post (prio_reclaim_reserved_capacity k s) P"
  unfolding prio_reclaim_reserved_capacity_def Let_def
  by (intro post_if excess_flow post_bind [of "get_stream k s"] post_get_stream) auto

end
