(* ===== verification/Flow_Send.thy ===== *)
theory Flow_Send
  imports Flow_Accounts
begin

text \<open>
  The sending half keeps the flow control accounts: window updates, data that is queued, cleared, popped and handed to the codec,
  resets and a new initial window.
\<close>

declare try_assign_flow [post_rules] assign_connection_flow [post_rules] reclaim_all_flow [post_rules]
  reserve_flow [post_rules] reclaim_reserved_flow [post_rules]

declare held_def [simp] unread_def [simp]

lemma post_case_pop [post_rules]:
  "(r = PopAgain \<Longrightarrow> post m P) \<Longrightarrow> (r = PopNone \<Longrightarrow> post m' P) \<Longrightarrow> (\<And>f. r = PopFrame f \<Longrightarrow> post (g f) P) \<Longrightarrow>
    post (case r of PopAgain \<Rightarrow> m | PopNone \<Rightarrow> m' | PopFrame f \<Rightarrow> g f) P"
  by (cases r) simp_all

section \<open>Window updates\<close>

lemma stream_window_update_flow [post_rules]:
  "flow_inv 0 q s \<Longrightarrow> (\<And>r s'. flow_inv 0 q s' \<Longrightarrow> P (r, s')) \<Longrightarrow> post (prio_recv_stream_window_update inc k s) P"
  unfolding prio_recv_stream_window_update_def
  by (intro post_rules) (auto dest: inc_window_available intro!: post_rules)

lemma connection_window_update_flow [post_rules]:
  assumes "flow_inv 0 q s" "uint inc < 2 ^ 31" "\<And>r s'. flow_inv 0 q s' \<Longrightarrow> P (r, s')"
  shows "post (prio_recv_connection_window_update inc s) P"
proof -
  have "sint inc = uint inc" by (rule sint_uint_31) (use assms(2) in simp)
  then have "flow_inv (uint inc) q (upd_prio (\<lambda>p. p\<lparr>pz_flow := fl\<rparr>) s)" if "inc_window (pz_flow (prio s)) inc = (Ok u, fl)" for u fl
    using assms(1) inc_window_Ok [OF that] by (simp add: flow_inv_def send_avail_def send_window_def conn_unread_def)
  then show ?thesis
    unfolding prio_recv_connection_window_update_def
    by (intro post_rules) (auto intro!: assign_connection_flow assms)
qed

section \<open>Queued data\<close>

lemma schedule_send_flow [post_rules]:
  "flow_inv d q s \<Longrightarrow> (\<And>s'. flow_inv d q s' \<Longrightarrow> P s') \<Longrightarrow> post (prio_schedule_send k s) P"
  unfolding prio_schedule_send_def by (intro post_rules) auto

lemma queue_frame_flow [post_rules]:
  "flow_inv d q s \<Longrightarrow> (\<And>s'. flow_inv d q s' \<Longrightarrow> P s') \<Longrightarrow> post (prio_queue_frame E f k s) P"
  unfolding prio_queue_frame_def by (intro post_rules) auto

lemma queue_open_flow [post_rules]:
  "flow_inv d q s \<Longrightarrow> (\<And>s'. flow_inv d q s' \<Longrightarrow> P s') \<Longrightarrow> post (prio_queue_open k s) P"
  unfolding prio_queue_open_def by (intro post_rules) auto

lemma close_sender_flow [post_rules]:
  "flow_inv d q s \<Longrightarrow> (\<And>s'. flow_inv d q s' \<Longrightarrow> P s') \<Longrightarrow>
    post (try_stream k (\<lambda>x. Option.bind (send_close (st_state x)) (\<lambda>st. Some (x\<lparr>st_state := st\<rparr>))) s) P"
  by (rule flow_rules) (auto simp: bind_eq_Some_conv)

lemma prio_send_data_flow [post_rules]:
  "flow_inv 0 q s \<Longrightarrow> (\<And>r s'. flow_inv 0 q s' \<Longrightarrow> P (r, s')) \<Longrightarrow> post (prio_send_data E f k s) P"
  unfolding prio_send_data_def Let_def
  by (intro post_rules) (auto intro!: post_rules)

section \<open>Clearing\<close>

lemma drop_frames_flow [post_rules]: "flow_inv d q s \<Longrightarrow> (\<And>s'. flow_inv d q s' \<Longrightarrow> P s') \<Longrightarrow> post (drop_frames k s) P"
proof -
  have "\<forall>k s. flow_inv d q s \<longrightarrow> post (drop_frames k s) (flow_inv d q)"
    by (rule drop_frames.fixp_induct [OF loop_admissible2]) (auto intro!: post_rules split: option.splits)
  then show "flow_inv d q s \<Longrightarrow> (\<And>s'. flow_inv d q s' \<Longrightarrow> P s') \<Longrightarrow> post (drop_frames k s) P"
    by (blast intro: post_mono)
qed

lemma flow_inv_prio [simp]:
  "flow_inv d q (upd_prio (\<lambda>p. p\<lparr>pz_in_flight_data_frame := i\<rparr>) s) = flow_inv d q s"
  "flow_inv d q (upd_prio (\<lambda>p. p\<lparr>pz_last_opened_id := j\<rparr>) s) = flow_inv d q s"
  by (simp_all add: flow_inv_def send_avail_def send_window_def conn_unread_def)

lemma clear_queue_flow [post_rules]: "flow_inv d q s \<Longrightarrow> (\<And>s'. flow_inv d q s' \<Longrightarrow> P s') \<Longrightarrow> post (prio_clear_queue k s) P"
  unfolding prio_clear_queue_def by (intro post_rules) auto

lemma clear_pending_capacity_flow [post_rules]:
  "flow_inv d q s \<Longrightarrow> (\<And>s'. flow_inv d q s' \<Longrightarrow> P s') \<Longrightarrow> post (prio_clear_pending_capacity s) P"
proof -
  have "\<forall>s. flow_inv d q s \<longrightarrow> post (prio_clear_pending_capacity s) (flow_inv d q)"
    by (rule prio_clear_pending_capacity.fixp_induct [OF loop_admissible]) (auto intro!: post_rules)
  then show "flow_inv d q s \<Longrightarrow> (\<And>s'. flow_inv d q s' \<Longrightarrow> P s') \<Longrightarrow> post (prio_clear_pending_capacity s) P"
    by (blast intro: post_mono)
qed

lemma clear_send_entry_flow [post_rules]:
  "flow_inv d q s \<Longrightarrow> (\<And>s'. flow_inv d q s' \<Longrightarrow> P s') \<Longrightarrow> post (clear_send_entry k s) P"
  unfolding clear_send_entry_def Let_def by (intro post_rules) (auto intro!: post_rules split: option.splits)

lemma clear_pending_send_flow [post_rules]:
  "flow_inv d q s \<Longrightarrow> (\<And>s'. flow_inv d q s' \<Longrightarrow> P s') \<Longrightarrow> post (prio_clear_pending_send s) P"
proof -
  have "\<forall>s. flow_inv d q s \<longrightarrow> post (prio_clear_pending_send s) (flow_inv d q)"
    by (rule prio_clear_pending_send.fixp_induct [OF loop_admissible]) (auto intro!: post_rules)
  then show "flow_inv d q s \<Longrightarrow> (\<And>s'. flow_inv d q s' \<Longrightarrow> P s') \<Longrightarrow> post (prio_clear_pending_send s) P"
    by (blast intro: post_mono)
qed

lemma clear_pending_open_flow [post_rules]:
  "flow_inv d q s \<Longrightarrow> (\<And>s'. flow_inv d q s' \<Longrightarrow> P s') \<Longrightarrow> post (prio_clear_pending_open s) P"
proof -
  have "\<forall>s. flow_inv d q s \<longrightarrow> post (prio_clear_pending_open s) (flow_inv d q)"
    by (rule prio_clear_pending_open.fixp_induct [OF loop_admissible]) (auto intro!: post_rules)
  then show "flow_inv d q s \<Longrightarrow> (\<And>s'. flow_inv d q s' \<Longrightarrow> P s') \<Longrightarrow> post (prio_clear_pending_open s) P"
    by (blast intro: post_mono)
qed


section \<open>The next frame\<close>

text \<open>The length of a DATA frame is bounded by the capacity that its stream holds, so by the window of the connection.\<close>

lemma data_len:
  fixes capacity :: window
  defines "len m \<equiv> (of_nat (min m (unat (window_as_size capacity))) :: u32)"
  assumes "0 \<le> win_int capacity"
  shows "uint (len m) \<le> win_int capacity" "sint (len m) = uint (len m)" "unat (len m) \<le> m"
proof -
  let ?c = "unat (window_as_size capacity)"
  have c: "int ?c = win_int capacity" using assms(2) by (simp add: uint_as_size)
  have "win_int capacity < 2147483648" using sint_in_i32 [of "win_val capacity"] by (simp add: in_i32_def)
  then have "?c < 2147483648" using c by linarith
  then have lt: "min m ?c < 2147483648" by (simp add: min_less_iff_disj)
  then have n: "unat (len m) = min m ?c" by (simp add: len_def unsigned_of_nat take_bit_nat_eq_self)
  have u: "uint (len m) = int (min m ?c)" unfolding n [symmetric] by simp
  show "unat (len m) \<le> m" by (simp add: n)
  show "uint (len m) \<le> win_int capacity" unfolding u using c by linarith
  show "sint (len m) = uint (len m)" by (rule sint_uint_31) (use u lt in linarith)
qed

text \<open>The frame is paid from the window of the connection and from the stream.\<close>

lemma pop_data_paid:
  assumes inv: "flow_inv 0 q s" and x: "get_stream k s = Some x"
    and len: "uint (len :: u32) \<le> held x" "sint len = uint len"
    and P: "\<And>s' y. flow_inv 0 q s' \<Longrightarrow> send_window s' = send_window s - uint len \<Longrightarrow>
      stream_send_data len b x = Some y \<Longrightarrow> slab s' = slab (put_stream k y s) \<Longrightarrow> P (r, s')"
  shows "post (do {
           s \<leftarrow> try_stream k (stream_send_data len b) s;
           s \<leftarrow> conn_assign len s;
           fl \<leftarrow> assert_ok (flow_send_data (pz_flow (prio s)) len);
           Some (r, upd_prio (\<lambda>p. p\<lparr>pz_flow := fl\<rparr>) s)
         }) P"
proof -
  have paid: "P (r, upd_prio (\<lambda>p. p\<lparr>pz_flow := fl\<rparr>) (upd_prio (\<lambda>p. p\<lparr>pz_flow := fl1\<rparr>) (put_stream k y s)))"
    if y: "stream_send_data len b x = Some y"
      and fl1: "assign_capacity (pz_flow (prio s)) len = (Ok u, fl1)" and fl: "flow_send_data fl1 len = (Ok v, fl)" for y fl1 fl u v
  proof (rule P [OF _ _ y])
    have "flow_inv (uint len) q (put_stream k y s)"
      using flow_put_held [OF inv x, of y] stream_send_data_held [OF y] len by simp
    then show "flow_inv 0 q (upd_prio (\<lambda>p. p\<lparr>pz_flow := fl\<rparr>) (upd_prio (\<lambda>p. p\<lparr>pz_flow := fl1\<rparr>) (put_stream k y s)))"
      using assign_capacity_Ok [OF fl1] flow_send_data_Ok [OF fl] len(2)
      by (simp add: flow_inv_def send_avail_def send_window_def conn_unread_def)
  qed (use assign_capacity_Ok [OF fl1] flow_send_data_Ok [OF fl] len(2) in \<open>simp_all add: send_window_def\<close>)
  show ?thesis
    by (rule postI) (auto simp: try_stream_def conn_assign_def bind_eq_Some_conv x assert_ok_Some intro: paid [simplified])
qed

lemma pop_data_flow [post_rules]:
  assumes inv: "flow_inv 0 q s" and P: "\<And>r s'. flow_inv 0 q s' \<Longrightarrow> P (r, s')"
  shows "post (pop_data E max_len f k s) P"
proof -
  have held: "0 \<le> win_int (fc_available (st_send_flow x))" if "get_stream k s = Some x" for x
    using flow_inv_held [OF inv that] by simp
  show ?thesis
    unfolding pop_data_def Let_def
    apply (rule post_bind, rule post_get_stream)
    apply (rule post_if, (use inv P in \<open>auto intro!: post_rules\<close>)[1])
    apply (rule post_if, (use inv P in \<open>auto intro!: post_rules\<close>)[1])
    apply (rule post_bind, rule post_check)
    apply (rule post_if, (use inv P in \<open>auto intro!: post_rules\<close>)[1])
    apply (rule pop_data_paid [OF inv], assumption)
      apply (simp add: data_len held)
     apply (simp add: data_len held)
    apply (erule P)
    done
qed

lemma pop_push_promise_flow [post_rules]:
  "flow_inv 0 q s \<Longrightarrow> (\<And>s'. flow_inv 0 q s' \<Longrightarrow> P s') \<Longrightarrow> post (pop_push_promise f s) P"
  unfolding pop_push_promise_def
  by (intro post_rules postI [of "store_find _ _"]) (auto intro!: post_rules)

lemma pop_stream_frame_flow [post_rules]:
  "flow_inv 0 q s \<Longrightarrow> (\<And>r s'. flow_inv 0 q s' \<Longrightarrow> P (r, s')) \<Longrightarrow> post (pop_stream_frame E max_len k s) P"
  unfolding pop_stream_frame_def
  by (intro post_rules) (auto intro!: post_rules split: frame.splits option.splits)

lemma requeue_sender_flow [post_rules]:
  "flow_inv 0 q s \<Longrightarrow> (\<And>s'. flow_inv 0 q s' \<Longrightarrow> P s') \<Longrightarrow> post (requeue_sender k s) P"
  unfolding requeue_sender_def Let_def by (intro post_rules) (auto intro!: post_rules)

lemma pop_frame_step_flow [post_rules]:
  "flow_inv 0 q s \<Longrightarrow> (\<And>r s'. flow_inv 0 q s' \<Longrightarrow> P (r, s')) \<Longrightarrow> post (pop_frame_step E max_len s) P"
  unfolding pop_frame_step_def Let_def
  by (intro post_rules) (auto intro!: post_rules split: pop_result.splits)

lemma pop_frame_flow [post_rules]:
  "flow_inv 0 q s \<Longrightarrow> (\<And>r s'. flow_inv 0 q s' \<Longrightarrow> P (r, s')) \<Longrightarrow> post (prio_pop_frame E max_len s) P"
proof -
  have "\<forall>E max_len s. flow_inv 0 q s \<longrightarrow> post (prio_pop_frame E max_len s) (\<lambda>(r, s'). flow_inv 0 q s')"
    by (rule prio_pop_frame.fixp_induct [OF loop_admissible3]) (auto intro!: post_rules)
  then show "flow_inv 0 q s \<Longrightarrow> (\<And>r s'. flow_inv 0 q s' \<Longrightarrow> P (r, s')) \<Longrightarrow> post (prio_pop_frame E max_len s) P"
    by (blast intro: post_result)
qed

lemma pop_pending_open_flow [post_rules]:
  "flow_inv 0 q s \<Longrightarrow> (\<And>r s'. flow_inv 0 q s' \<Longrightarrow> P (r, s')) \<Longrightarrow> post (prio_pop_pending_open s) P"
  unfolding prio_pop_pending_open_def by (intro post_rules) auto


section \<open>The codec\<close>

lemma push_back_frame_flow [post_rules]:
  "flow_inv d q s \<Longrightarrow> (\<And>s'. flow_inv d q s' \<Longrightarrow> P s') \<Longrightarrow> post (prio_push_back_frame E f k s) P"
  unfolding prio_push_back_frame_def by (intro post_rules) auto

lemma reclaim_frame_inner_flow [post_rules]:
  "flow_inv d q s \<Longrightarrow> (\<And>r s'. flow_inv d q s' \<Longrightarrow> P (r, s')) \<Longrightarrow> post (prio_reclaim_frame_inner E f s) P"
  unfolding prio_reclaim_frame_inner_def Let_def by (auto intro!: post_rules split: in_flight_data.splits)

lemma reclaim_frame_flow [post_rules]:
  "flow_inv d q (fst sd) \<Longrightarrow> (\<And>r sd'. flow_inv d q (fst sd') \<Longrightarrow> P (r, sd')) \<Longrightarrow> post (prio_reclaim_frame E sd) P"
  unfolding prio_reclaim_frame_def Let_def
  by (intro post_rules postI [of "dst_take_last_data_frame _"]) (auto intro!: post_rules)

lemma buffer_frame_step_flow [post_rules]:
  "flow_inv 0 q (fst sd) \<Longrightarrow> (\<And>r sd'. flow_inv 0 q (fst sd') \<Longrightarrow> P (r, sd')) \<Longrightarrow> post (buffer_frame_step E n sd) P"
  unfolding buffer_frame_step_def Let_def
  by (intro post_rules) (auto intro!: post_rules split: frame.splits)

lemma buffer_frames_flow [post_rules]:
  "flow_inv 0 q (fst sd) \<Longrightarrow> (\<And>r sd'. flow_inv 0 q (fst sd') \<Longrightarrow> P (r, sd')) \<Longrightarrow> post (buffer_frames E n sd) P"
proof -
  have "\<forall>E n sd. flow_inv 0 q (fst sd) \<longrightarrow> post (buffer_frames E n sd) (\<lambda>(r, sd'). flow_inv 0 q (fst sd'))"
    by (rule buffer_frames.fixp_induct [OF loop_admissible3]) (auto intro!: post_rules)
  then show "flow_inv 0 q (fst sd) \<Longrightarrow> (\<And>r sd'. flow_inv 0 q (fst sd') \<Longrightarrow> P (r, sd')) \<Longrightarrow> post (buffer_frames E n sd) P"
    by (blast intro: post_result)
qed

lemma buffer_pending_flow [post_rules]:
  "flow_inv 0 q (fst sd) \<Longrightarrow> (\<And>r sd'. flow_inv 0 q (fst sd') \<Longrightarrow> P (r, sd')) \<Longrightarrow> post (prio_buffer_pending E sd) P"
  unfolding prio_buffer_pending_def by (intro post_rules) auto


section \<open>The operations of the sending half\<close>

lemma send_push_promise_flow [post_rules]:
  "flow_inv 0 q s \<Longrightarrow> (\<And>r s'. flow_inv 0 q s' \<Longrightarrow> P (r, s')) \<Longrightarrow> post (send_push_promise E f k s) P"
  unfolding send_push_promise_def by (intro post_rules) auto

lemma send_headers_flow [post_rules]:
  "flow_inv 0 q s \<Longrightarrow> (\<And>r s'. flow_inv 0 q s' \<Longrightarrow> P (r, s')) \<Longrightarrow> post (send_headers E f k s) P"
  unfolding send_headers_def Let_def by (intro post_rules) (auto intro!: post_rules)

lemma send_interim_flow [post_rules]:
  "flow_inv 0 q s \<Longrightarrow> (\<And>r s'. flow_inv 0 q s' \<Longrightarrow> P (r, s')) \<Longrightarrow> post (send_interim_informational_headers E f k s) P"
  unfolding send_interim_informational_headers_def by (intro post_rules) auto

lemma send_data_flow [post_rules]:
  "flow_inv 0 q s \<Longrightarrow> (\<And>r s'. flow_inv 0 q s' \<Longrightarrow> P (r, s')) \<Longrightarrow> post (send_data E f k s) P"
  unfolding send_data_def by (rule prio_send_data_flow)

lemma send_trailers_flow [post_rules]:
  "flow_inv 0 q s \<Longrightarrow> (\<And>r s'. flow_inv 0 q s' \<Longrightarrow> P (r, s')) \<Longrightarrow> post (send_trailers E f k s) P"
  unfolding send_trailers_def by (intro post_rules postI [of "send_close _"]) (auto intro!: post_rules)

lemma send_reset_flow [post_rules]:
  "flow_inv 0 q s \<Longrightarrow> (\<And>s'. flow_inv 0 q s' \<Longrightarrow> P s') \<Longrightarrow> post (send_reset E r ini k s) P"
  unfolding send_reset_def Let_def by (intro post_rules) (auto intro!: post_rules)

lemma send_schedule_implicit_reset_flow [post_rules]:
  "flow_inv 0 q s \<Longrightarrow> (\<And>s'. flow_inv 0 q s' \<Longrightarrow> P s') \<Longrightarrow> post (send_schedule_implicit_reset k r s) P"
  unfolding send_schedule_implicit_reset_def
  by (intro post_rules postI [of "set_scheduled_reset _ _"]) (auto intro!: post_rules)

lemma send_handle_error_flow [post_rules]:
  "flow_inv 0 q s \<Longrightarrow> (\<And>s'. flow_inv 0 q s' \<Longrightarrow> P s') \<Longrightarrow> post (send_handle_error k s) P"
  unfolding send_handle_error_def by (intro post_rules) auto

lemma send_poll_capacity_flow [post_rules]:
  "flow_inv 0 q s \<Longrightarrow> (\<And>r s'. flow_inv 0 q s' \<Longrightarrow> P (r, s')) \<Longrightarrow> post (send_poll_capacity w k s) P"
  unfolding send_poll_capacity_def Let_def by (intro post_rules) (auto intro!: post_rules)

lemma send_poll_reset_flow [post_rules]:
  "flow_inv 0 q s \<Longrightarrow> (\<And>r s'. flow_inv 0 q s' \<Longrightarrow> P (r, s')) \<Longrightarrow> post (send_poll_reset w mode k s) P"
  unfolding send_poll_reset_def by (intro post_rules) (auto intro!: post_rules split: outcome.splits option.splits)

lemma send_connection_window_update_flow [post_rules]:
  "flow_inv 0 q s \<Longrightarrow> uint (wu_size_increment f) < 2 ^ 31 \<Longrightarrow> (\<And>r s'. flow_inv 0 q s' \<Longrightarrow> P (r, s')) \<Longrightarrow>
    post (send_recv_connection_window_update f s) P"
  unfolding send_recv_connection_window_update_def by (rule connection_window_update_flow)

lemma send_stream_window_update_flow [post_rules]:
  "flow_inv 0 q s \<Longrightarrow> (\<And>r s'. flow_inv 0 q s' \<Longrightarrow> P (r, s')) \<Longrightarrow> post (send_recv_stream_window_update E inc k s) P"
  unfolding send_recv_stream_window_update_def by (intro post_rules) (auto intro!: post_rules split: sum.splits)

lemma flow_inv_send [simp]:
  "pz_flow (sn_prioritize x) = pz_flow (prio s) \<Longrightarrow> flow_inv d q (s\<lparr>ss_send := x\<rparr>) = flow_inv d q s"
  by (simp add: flow_inv_def send_avail_def send_window_def conn_unread_def)

lemma send_open_id_flow [post_rules]:
  "flow_inv d q s \<Longrightarrow> (\<And>r s'. flow_inv d q s' \<Longrightarrow> P (r, s')) \<Longrightarrow> post (send_open_id s) P"
  unfolding send_open_id_def by (intro post_rules postI [of "next_id_checked _"]) auto

lemma send_reserve_local_flow [post_rules]:
  "flow_inv d q s \<Longrightarrow> (\<And>r s'. flow_inv d q s' \<Longrightarrow> P (r, s')) \<Longrightarrow> post (send_reserve_local s) P"
  unfolding send_reserve_local_def by (intro post_rules postI [of "next_id_checked _"]) auto

lemma send_maybe_reset_next_stream_id_flow [post_rules]:
  "flow_inv d q s \<Longrightarrow> (\<And>s'. flow_inv d q s' \<Longrightarrow> P s') \<Longrightarrow> post (send_maybe_reset_next_stream_id i s) P"
  unfolding send_maybe_reset_next_stream_id_def by (intro post_rules postI [of "next_id_checked _"]) auto

lemma send_clear_queues_flow [post_rules]:
  "flow_inv d q s \<Longrightarrow> (\<And>s'. flow_inv d q s' \<Longrightarrow> P s') \<Longrightarrow> post (send_clear_queues s) P"
  unfolding send_clear_queues_def by (intro post_rules) auto

section \<open>A new initial window\<close>

lemma dec_stream_window_held:
  assumes "dec_stream_window dec x = Some (r, y)" "0 \<le> held x"
  shows "unread y = unread x" "st_id y = st_id x" "0 \<le> held y"
    "held y = held x - (case r of Inl _ \<Rightarrow> 0 | Inr n \<Rightarrow> uint n)"
proof -
  have claim: "win_int (fc_available fl') = win_int (fc_available fl) - uint (window_as_size (fc_available fl) - w) \<and>
      uint (window_as_size (fc_available fl) - w) \<le> win_int (fc_available fl)"
    if "claim_capacity fl (window_as_size (fc_available fl) - w) = (Ok u, fl')" "w < window_as_size (fc_available fl)"
      "0 \<le> win_int (fc_available fl)" for fl fl' w u
  proof -
    let ?n = "window_as_size (fc_available fl) - w"
    have le: "uint ?n \<le> win_int (fc_available fl)"
      using word_diff_le [OF less_imp_le [OF that(2)]] that(3) by (simp add: word_le_def uint_as_size)
    then have "sint ?n = uint ?n"
      using sint_in_i32 [of "win_val (fc_available fl)"] by (intro sint_uint_31) (simp add: in_i32_def)
    with le show ?thesis using claim_capacity_Ok [OF that(1)] by simp
  qed
  have keep: "fc_available fl' = fc_available fl" if "claim_capacity fl n = (Err e, fl')" for fl fl' n e
    using that by (auto simp: claim_capacity_def window_decrease_by_cases split: if_splits)
  show "unread y = unread x" "st_id y = st_id x" "0 \<le> held y"
    "held y = held x - (case r of Inl _ \<Rightarrow> 0 | Inr n \<Rightarrow> uint n)"
    using assms
    by (auto simp: dec_stream_window_def Let_def dest!: keep dec_send_window_available dest: claim
        split: if_splits prod.splits outcome.splits)
qed


lemma dec_all_windows_flow [post_rules]:
  assumes inv: "flow_inv 0 q s" and P: "\<And>r s'. flow_inv (case r of Inl _ \<Rightarrow> 0 | Inr n \<Rightarrow> uint n) q s' \<Longrightarrow> P (r, s')"
  shows "post (dec_all_windows dec s) P"
proof (rule postI, clarify)
  fix r s' assume run: "dec_all_windows dec s = Some (r, s')"
  let ?f = "\<lambda>k (s, tot).
          case do { x \<leftarrow> get_stream k s; dec_stream_window dec x } of
            None \<Rightarrow> (Panic, (s, tot))
          | Some (Inl e, x) \<Rightarrow> (Err e, (put_stream k x s, tot))
          | Some (Inr n, x) \<Rightarrow>
              if unat tot + unat n \<ge> 2 ^ 32 then (Panic, (s, tot)) else (Ok (), (put_stream k x s, tot + n))"
  let ?I = "\<lambda>(s, tot :: u32). flow_inv (uint tot) q s"
  have step: "case ?f k st of (r, st') \<Rightarrow> r \<noteq> Panic \<longrightarrow> ?I st'" if "?I st" for k st
  proof -
    obtain s tot where st: "st = (s, tot)" by fastforce
    with that have inv: "flow_inv (uint tot) q s" by simp
    have put: "flow_inv (uint tot + (case r of Inl _ \<Rightarrow> 0 | Inr n \<Rightarrow> uint n)) q (put_stream k y s)"
      if "get_stream k s = Some x" "dec_stream_window dec x = Some (r, y)" for x y r
      using flow_put_held [OF inv that(1), of y] dec_stream_window_held [OF that(2)] flow_inv_held [OF inv that(1)]
      by simp
    note add = uint_add_32 [of tot]
    show ?thesis
    proof (cases "do { x \<leftarrow> get_stream k s; dec_stream_window dec x }")
      case (Some ry)
      then obtain x r y where x: "get_stream k s = Some x" "dec_stream_window dec x = Some (r, y)" and ry: "ry = (r, y)"
        by (cases ry) (auto simp: bind_eq_Some_conv)
      show ?thesis
      proof (cases r)
        case (Inr n)
        show ?thesis using Some ry Inr put [OF x] add [of n] unfolding st by (simp add: not_le)
      qed (use Some ry put [OF x] in \<open>simp add: st\<close>)
    qed (simp add: st)
  qed
  from run obtain v tot where v: "try_for_each (\<lambda>(s, _). ss_store s) ?f (length (sto_ids (ss_store s))) 0 (s, 0) = (v, (s', tot))"
      "v \<noteq> Panic" "r = (case v of Err e \<Rightarrow> Inl e | _ \<Rightarrow> Inr tot)"
    by (auto simp: dec_all_windows_def store_try_for_each_def split: prod.splits outcome.splits)
  have "?I (s', tot)"
    by (rule try_for_each_post [where I = ?I, OF step _ v(1,2)]) (use inv in simp_all)
  then show "P (r, s')"
    using v(2,3) by (intro P) (auto split: outcome.splits elim: flow_inv_mono)
qed

lemma apply_initial_window_flow [post_rules]:
  assumes "flow_inv 0 q s" "\<And>r s'. flow_inv 0 q s' \<Longrightarrow> P (r, s')"
  shows "post (send_apply_initial_window E val s) P"
  unfolding send_apply_initial_window_def Let_def using assms
  by (intro post_rules) (auto intro!: post_rules each_stream_post [where I = "flow_inv 0 q"] split: sum.splits)

lemma apply_remote_settings_flow [post_rules]:
  "flow_inv 0 q s \<Longrightarrow> (\<And>r s'. flow_inv 0 q s' \<Longrightarrow> P (r, s')) \<Longrightarrow> post (send_apply_remote_settings E v s) P"
  unfolding send_apply_remote_settings_def Let_def
  by (intro post_rules) (auto intro!: post_rules split: sum.splits option.splits)

end
