(* ===== verification/Flow_Recv.thy ===== *)
theory Flow_Recv
  imports Flow_Send
begin

text \<open>
  The receiving half keeps the flow control accounts: DATA that is consumed, delivered, ignored or refused, the capacity that the user
  releases, buffers that are cleared, and the WINDOW_UPDATE frames.
\<close>

section \<open>The window of the connection\<close>

lemma get_stream_cong: "ss_store s' = ss_store s \<Longrightarrow> get_stream k s' = get_stream k s"
  by (simp add: get_stream_def)

lemma release_connection_flow [post_rules]:
  assumes inv: "flow_inv d q s"
    and P: "\<And>s'. flow_inv d (q - uint n) s' \<Longrightarrow> (\<And>k. get_stream k s' = get_stream k s) \<Longrightarrow> P s'"
  shows "post (recv_release_connection_capacity n b s) P"
proof -
  let ?s = "\<lambda>fl. upd_recv (\<lambda>r. r\<lparr>rv_in_flight_data := rv_in_flight_data r - n, rv_flow := fl\<rparr>) s"
  have "flow_inv d (q - uint n) (?s fl)" if "n \<le> rv_in_flight_data (ss_recv s)" for fl
    using inv that
    by (auto simp: flow_inv_def send_avail_def send_window_def conn_unread_def word_le_def uint_sub_lem [THEN iffD1])
  moreover have "get_stream k (?s fl) = get_stream k s" "get_stream k (wake_task (?s fl)) = get_stream k s" for k fl
    by (simp_all add: get_stream_def)
  ultimately show ?thesis
    unfolding recv_release_connection_capacity_def Let_def
    by (intro post_rules postI [of "unclaimed_some _"]) (auto intro!: P)
qed

lemma consume_connection_flow [post_rules]:
  assumes inv: "flow_inv d q s"
    and P: "\<And>r s'. flow_inv d (q + (if r = Inr () then uint n else 0)) s' \<Longrightarrow> (\<And>k. get_stream k s' = get_stream k s) \<Longrightarrow> 
       (case r of Inl (ErrReset _ _ _) \<Rightarrow> False | _ \<Rightarrow> True) \<Longrightarrow> P (r, s')"
  shows "post (recv_consume_connection_window n s) P"
proof -
  have "flow_inv d (q + uint n) (upd_recv (\<lambda>r. r\<lparr>rv_flow := fl, rv_in_flight_data := rv_in_flight_data r + n\<rparr>) s)"
    if "unat (rv_in_flight_data (ss_recv s)) + unat n < 2 ^ 32" for fl
    using inv uint_add_32 [OF that] by (simp add: flow_inv_def send_avail_def send_window_def conn_unread_def)
  moreover have "flow_inv d q (upd_recv (\<lambda>r. r\<lparr>rv_flow := fl\<rparr>) s)" for fl
    using inv by (simp add: flow_inv_def send_avail_def send_window_def conn_unread_def)
  moreover have "get_stream k (upd_recv f s) = get_stream k s" for k f
    by (simp add: get_stream_def)
  ultimately show ?thesis
    unfolding recv_consume_connection_window_def
    by (intro post_rules) (use inv in \<open>auto intro!: P post_rules simp: library_go_away_def\<close>)
qed

lemma ignore_data_flow [post_rules]:
  "flow_inv d q s \<Longrightarrow> (\<And>r s'. flow_inv d q s' \<Longrightarrow> (case r of Inl (ErrReset _ _ _) \<Rightarrow> False | _ \<Rightarrow> True) \<Longrightarrow> P (r, s')) \<Longrightarrow>
    post (recv_ignore_data n s) P"
  unfolding recv_ignore_data_def by (intro post_rules) (auto intro!: post_rules split: sum.splits)


section \<open>What streams count\<close>

lemma release_capacity_flow [post_rules]:
  assumes inv: "flow_inv d q s" and P: "\<And>r s'. flow_inv d q s' \<Longrightarrow> P (r, s')"
  shows "post (recv_release_capacity n k b s) P"
proof -
  have put: "flow_inv d q (put_stream k (x\<lparr>st_in_flight_recv_data := st_in_flight_recv_data x - n, st_recv_flow := fl\<rparr>) s')"
    if "get_stream k s = Some x" "n \<le> st_in_flight_recv_data x" "flow_inv d (q - uint n) s'"
      "\<And>k. get_stream k s' = get_stream k s" for x fl s'
    using flow_put_unread [OF that(3), of k x "x\<lparr>st_in_flight_recv_data := st_in_flight_recv_data x - n, st_recv_flow := fl\<rparr>"] that
    by (simp add: word_le_def uint_sub_lem [THEN iffD1])
  show ?thesis
    supply flow_put [post_rules del]
    unfolding recv_release_capacity_def Let_def
    by (intro release_connection_flow [OF inv] post_rules postI [of "unclaimed_some _"])
      (auto simp: not_less inv put intro!: P post_rules)
qed

lemma drop_event_bound: "n \<le> lim \<Longrightarrow> drop_event e lim n c = (m, c') \<Longrightarrow> m \<le> lim"
  by (auto simp: drop_event_def split: event.splits)

lemma drop_events_bound:
  "n \<le> lim \<Longrightarrow> post (drop_events k lim n s) (\<lambda>(m, s'). m \<le> lim \<and> flow_acct.quiet s s')"
proof -
  have "\<forall>k lim n s'. n \<le> lim \<and> flow_acct.quiet s s' \<longrightarrow> post (drop_events k lim n s') (\<lambda>(m, s'). m \<le> lim \<and> flow_acct.quiet s s')"
    by (rule drop_events.fixp_induct [OF loop_admissible4])
      (auto intro!: post_rules flow_acct.event_pop_front_steady [OF flow_acct.quiet_steady]
        simp: flow_acct.calm_counts dest: drop_event_bound [rotated])
  then show "n \<le> lim \<Longrightarrow> post (drop_events k lim n s) (\<lambda>(m, s'). m \<le> lim \<and> flow_acct.quiet s s')"
    by simp
qed

lemma quiet_unread:
  "flow_acct.quiet s s' \<Longrightarrow> get_stream k s = Some x \<Longrightarrow> get_stream k s' = Some y \<Longrightarrow>
    st_in_flight_recv_data y = st_in_flight_recv_data x"
  by (fastforce simp: flow_acct.quiet_def flow_acct.calm_store_def get_stream_slab)

lemma clear_recv_buffer_flow [post_rules]:
  assumes inv: "flow_inv d q s" and P: "\<And>s'. flow_inv d q s' \<Longrightarrow> P s'"
  shows "post (recv_clear_recv_buffer k s) P"
  unfolding recv_clear_recv_buffer_def
proof (rule post_bind, rule post_get_stream)
  fix x assume x: "get_stream k s = Some x"
  show "post (do {
      (n, s) \<leftarrow> drop_events k (st_in_flight_recv_data x) 0 s;
      if n > 0
      then do {
        s \<leftarrow> mod_stream k (\<lambda>x. x\<lparr>st_in_flight_recv_data := st_in_flight_recv_data x - n\<rparr>) s;
        recv_release_connection_capacity n True s
      }
      else Some s
    }) P"
  proof (rule post_bind, rule post_mono [OF drop_events_bound], simp, clarify)
    fix n s' assume n: "n \<le> st_in_flight_recv_data x" and quiet: "flow_acct.quiet s s'"
    have inv': "flow_inv d q s'" by (rule flow_acct.steadyD [OF flow_inv_steady inv quiet])
    have "flow_inv d (q + uint n) (put_stream k (y\<lparr>st_in_flight_recv_data := st_in_flight_recv_data y - n\<rparr>) s')"
      if y: "get_stream k s' = Some y" for y
    proof -
      have "n \<le> st_in_flight_recv_data y" using n quiet_unread [OF quiet x y] by simp
      then show ?thesis
        using flow_put_unread [OF inv' y, of "y\<lparr>st_in_flight_recv_data := st_in_flight_recv_data y - n\<rparr>"]
        by (simp add: word_le_def uint_sub_lem [THEN iffD1])
    qed
    then show "post (if n > 0
      then do {
        s \<leftarrow> mod_stream k (\<lambda>x. x\<lparr>st_in_flight_recv_data := st_in_flight_recv_data x - n\<rparr>) s';
        recv_release_connection_capacity n True s
      }
      else Some s') P"
      by (intro post_if post_bind post_mod_stream release_connection_flow [of d "q + uint n"]) (use inv' in \<open>auto intro!: P\<close>)
  qed
qed

lemma release_closed_capacity_flow [post_rules]:
  assumes inv: "flow_inv d q s" and P: "\<And>s'. flow_inv d q s' \<Longrightarrow> P s'"
  shows "post (recv_release_closed_capacity k s) P"
proof -
  have "flow_inv d q (put_stream k (y\<lparr>st_in_flight_recv_data := 0\<rparr>) s')"
    if "get_stream k s = Some x" "flow_inv d (q - uint (st_in_flight_recv_data x)) s'" "\<And>k. get_stream k s' = get_stream k s"
      "get_stream k s' = Some y" for x y s'
    using flow_put_unread [OF that(2,4), of "y\<lparr>st_in_flight_recv_data := 0\<rparr>"] that by simp
  then show ?thesis
    unfolding recv_release_closed_capacity_def
    apply (intro post_bind post_get_stream post_check post_upd_when release_connection_flow [OF inv] post_mod_stream)
     apply (rule clear_recv_buffer_flow [of d q], simp, erule P)
    apply (rule clear_recv_buffer_flow [OF inv P], assumption)
    done
qed


section \<open>Parts of the state that hold no account\<close>

lemma flow_inv_parts [simp]:
  "flow_inv d q (s\<lparr>ss_counts := c\<rparr>) = flow_inv d q s"
  "flow_inv d q (s\<lparr>ss_refs := n\<rparr>) = flow_inv d q s"
  "flow_inv d q (s\<lparr>ss_task := t\<rparr>) = flow_inv d q s"
  "flow_inv d q (s\<lparr>ss_conn_error := e\<rparr>) = flow_inv d q s"
  "rv_in_flight_data x = rv_in_flight_data (ss_recv s) \<Longrightarrow> flow_inv d q (s\<lparr>ss_recv := x\<rparr>) = flow_inv d q s"
  by (simp_all add: flow_inv_def send_avail_def send_window_def conn_unread_def)

lemma recv_set_target_flow [post_rules]:
  "flow_inv d q s \<Longrightarrow> (\<And>r s'. flow_inv d q s' \<Longrightarrow> P (r, s')) \<Longrightarrow> post (recv_set_target_connection_window n s) P"
  unfolding recv_set_target_connection_window_def Let_def
  by (intro post_rules postI [of "unclaimed_some _"] postI [of "window_checked_size _"]) auto

lemma recv_adjust_window_same:
  "recv_adjust_window t old_sz x = Some (r, y) \<Longrightarrow> held y = held x \<and> unread y = unread x"
  by (auto simp: recv_adjust_window_def split: prod.splits outcome.splits)

lemma recv_apply_local_settings_flow [post_rules]:
  "flow_inv d q s \<Longrightarrow> (\<And>r s'. flow_inv d q s' \<Longrightarrow> P (r, s')) \<Longrightarrow> post (recv_apply_local_settings v s) P"
  unfolding recv_apply_local_settings_def Let_def
  by (intro post_rules)
    (auto intro!: post_rules each_stream_post [where I = "flow_inv d q"] postI [of "recv_adjust_window _ _ _"]
      dest!: recv_adjust_window_same split: option.splits)

section \<open>DATA\<close>

text \<open>After a stream error the bytes of the frame are counted as unread, and no stream counts them.\<close>

definition owed :: "int \<Rightarrow> proto_error + 'a \<Rightarrow> int" where
  "owed n r = (case r of Inl (ErrReset _ _ _) \<Rightarrow> n | _ \<Rightarrow> 0)"

lemma owed_simps [simp]:
  "owed n (Inr x) = 0" "owed n (Inl (library_reset i r)) = n" "owed n (Inl (library_go_away r)) = 0" "owed n (Inl (library_go_away_data r b)) = 0"
  by (simp_all add: owed_def library_reset_def library_go_away_def library_go_away_data_def)

lemma recv_data_content_same:
  "recv_data_content f x = (r, y) \<Longrightarrow> st_id y = st_id x \<and> held y = held x \<and> unread y = unread x \<and> st_is_recv y = st_is_recv x"
  by (auto simp: recv_data_content_def dec_content_length_def split: prod.splits outcome.splits if_splits content_length.splits)

lemma data_deliver_flow:
  assumes inv: "flow_inv 0 (q + uint n) s" and P: "\<And>r s'. flow_inv 0 q s' \<Longrightarrow> owed (uint n) r = 0 \<Longrightarrow> P (r, s')"
  shows "post (recv_data_deliver E f n k s) P"
proof -
  have put: "flow_inv 0 q (put_stream k (x\<lparr>st_recv_flow := fl, st_in_flight_recv_data := st_in_flight_recv_data x + n\<rparr>) s)"
    if "get_stream k s = Some x" "unat (st_in_flight_recv_data x) + unat n < 2 ^ 32" for x fl
    using flow_put_unread [OF inv that(1), of "x\<lparr>st_recv_flow := fl, st_in_flight_recv_data := st_in_flight_recv_data x + n\<rparr>"]
      uint_add_32 [OF that(2)] by simp
  have inv0: "flow_inv 0 q s" using inv by (rule flow_inv_unread_mono) simp
  have err: "flow_inv 0 q (put_stream k (x\<lparr>st_recv_flow := fl\<rparr>) s)" if "get_stream k s = Some x" for x fl
    using inv0 that by simp
  show ?thesis
    supply flow_put [post_rules del]
    unfolding recv_data_deliver_def Let_def
    by (intro post_rules) (auto intro!: post_rules P simp: put err)
qed

lemma recv_data_consumed_flow:
  assumes inv: "flow_inv 0 (q + uint n) s" and x: "get_stream k s = Some x"
    and P: "\<And>r s'. flow_inv 0 (q + owed (uint n) r) s' \<Longrightarrow> P (r, s')"
  shows "post (case recv_data_content f x of (r, x) \<Rightarrow>
         let s = put_stream k x s in
         case r of
           Inl e \<Rightarrow> Some (Inl e, s)
         | Inr _ \<Rightarrow>
             if \<not> st_is_recv x
             then do {
               s \<leftarrow> recv_release_connection_capacity n False s;
               Some (Inr (), s)
             }
             else recv_data_deliver E f n k s) P"
proof (rule post_case_prod)
  fix r y assume c: "recv_data_content f x = (r, y)"
  have inv': "flow_inv 0 (q + uint n) (put_stream k y s)"
    using recv_data_content_same [OF c] inv x by simp
  have "P (Inl e, put_stream k y s)" for e
    by (rule P, rule flow_inv_unread_mono [OF inv']) (simp add: owed_def split: proto_error.splits)
  then show "post (let s = put_stream k y s in case r of
           Inl e \<Rightarrow> Some (Inl e, s)
         | Inr _ \<Rightarrow>
             if \<not> st_is_recv y
             then do {
               s \<leftarrow> recv_release_connection_capacity n False s;
               Some (Inr (), s)
             }
             else recv_data_deliver E f n k s) P"
    unfolding Let_def
    by (intro post_case_sum post_if post_bind release_connection_flow [OF inv'] data_deliver_flow [OF inv']) (auto intro!: P)
qed

lemma recv_data_flow [post_rules]:
  assumes inv: "flow_inv 0 q s"
    and P: "\<And>r s'. flow_inv 0 (q + owed (uint (of_nat (flow_controlled_len f) :: u32)) r) s' \<Longrightarrow> P (r, s')"
  shows "post (recv_data E f k s) P"
  unfolding recv_data_def
  apply (rule post_bind, rule post_check, subst Let_def, rule post_bind, rule post_get_stream, subst Let_def)
  apply (rule post_if, simp add: inv P)
  apply (rule post_if, rule ignore_data_flow [OF inv])
   apply (rule P, simp add: owed_def split: sum.splits proto_error.splits)
  apply (rule post_question, rule consume_connection_flow [OF inv])
  subgoal for x r s'
  proof (cases r)
    case (Inr u)
    assume x: "get_stream k s = Some x" and inv': "flow_inv 0 (q + (if r = Inr () then uint (of_nat (flow_controlled_len f) :: u32) else 0)) s'"
      and same: "\<And>k. get_stream k s' = get_stream k s"
    show ?thesis
      unfolding Inr using inv' x same
      by (simp add: Inr) (intro conjI impI P recv_data_consumed_flow; simp add: Inr)
  qed (auto intro!: P simp: owed_def split: sum.splits proto_error.splits)
  done


section \<open>Header blocks and errors\<close>

lemma recv_open_id_flow [post_rules]:
  "flow_inv d q s \<Longrightarrow> (\<And>r s'. flow_inv d q s' \<Longrightarrow> P (r, s')) \<Longrightarrow> post (recv_open_id i mode s) P"
  unfolding recv_open_id_def Let_def by (intro post_rules postI [of "next_id_checked _"]) auto

lemma recv_maybe_reset_next_stream_id_flow [post_rules]:
  "flow_inv d q s \<Longrightarrow> (\<And>s'. flow_inv d q s' \<Longrightarrow> P s') \<Longrightarrow> post (recv_maybe_reset_next_stream_id i s) P"
  unfolding recv_maybe_reset_next_stream_id_def by (intro post_rules postI [of "next_id_checked _"]) auto

lemma recv_go_away_flow [post_rules]:
  "flow_inv d q s \<Longrightarrow> (\<And>s'. flow_inv d q s' \<Longrightarrow> P s') \<Longrightarrow> post (recv_go_away i s) P"
  unfolding recv_go_away_def by (intro post_rules) auto

lemma recv_content_length_post: "post (recv_content_length f x) (\<lambda>(r, y). held y = held x \<and> unread y = unread x)"
  unfolding recv_content_length_def Let_def by (intro post_rules postI [of "content_length_of _ _"]) auto

lemmas recv_content_length_same = postD [OF recv_content_length_post, simplified split_beta]

lemma recv_message_flow [post_rules]:
  "flow_inv d q s \<Longrightarrow> (\<And>r s'. flow_inv d q s' \<Longrightarrow> P (r, s')) \<Longrightarrow> post (recv_message E f k s) P"
  unfolding recv_message_def Let_def by (intro post_rules) (auto intro!: post_rules)

lemma recv_headers_flow [post_rules]:
  "flow_inv d q s \<Longrightarrow> (\<And>r s'. flow_inv d q s' \<Longrightarrow> P (r, s')) \<Longrightarrow> post (recv_headers E f k s) P"
  unfolding recv_headers_def Let_def
  by (intro post_rules postI [of "recv_content_length _ _"])
    (auto intro!: post_rules dest!: recv_content_length_same split: sum.splits)

lemma recv_trailers_flow [post_rules]:
  "flow_inv d q s \<Longrightarrow> (\<And>r s'. flow_inv d q s' \<Longrightarrow> P (r, s')) \<Longrightarrow> post (recv_trailers E f k s) P"
  unfolding recv_trailers_def Let_def by (intro post_rules) (auto intro!: post_rules)

lemma recv_push_promise_flow [post_rules]:
  "flow_inv d q s \<Longrightarrow> (\<And>r s'. flow_inv d q s' \<Longrightarrow> P (r, s')) \<Longrightarrow> post (recv_push_promise E f k s) P"
  unfolding recv_push_promise_def Let_def by (intro post_rules) (auto intro!: post_rules)

lemma recv_reset_flow [post_rules]:
  "flow_inv d q s \<Longrightarrow> (\<And>r s'. flow_inv d q s' \<Longrightarrow> P (r, s')) \<Longrightarrow> post (recv_reset f k s) P"
  unfolding recv_reset_def Let_def by (intro post_rules) (auto intro!: post_rules)

lemma recv_handle_error_flow [post_rules]:
  "flow_inv d q s \<Longrightarrow> (\<And>s'. flow_inv d q s' \<Longrightarrow> P s') \<Longrightarrow> post (recv_handle_error e k s) P"
  unfolding recv_handle_error_def by (intro post_rules) auto

lemma recv_recv_eof_flow [post_rules]:
  "flow_inv d q s \<Longrightarrow> (\<And>s'. flow_inv d q s' \<Longrightarrow> P s') \<Longrightarrow> post (recv_recv_eof k s) P"
  unfolding recv_recv_eof_def by (intro post_rules) auto

lemma recv_enqueue_reset_expiration_flow [post_rules]:
  "flow_inv d q s \<Longrightarrow> (\<And>s'. flow_inv d q s' \<Longrightarrow> P s') \<Longrightarrow> post (recv_enqueue_reset_expiration E k s) P"
  unfolding recv_enqueue_reset_expiration_def by (intro post_rules) auto

lemma expire_resets_flow [post_rules]:
  "flow_inv d q s \<Longrightarrow> (\<And>s'. flow_inv d q s' \<Longrightarrow> P s') \<Longrightarrow> post (expire_resets now s) P"
proof -
  have "\<forall>now s. flow_inv d q s \<longrightarrow> post (expire_resets now s) (flow_inv d q)"
    by (rule expire_resets.fixp_induct [OF loop_admissible2]) (auto intro!: post_rules postI [of "reset_head_timed _"])
  then show "flow_inv d q s \<Longrightarrow> (\<And>s'. flow_inv d q s' \<Longrightarrow> P s') \<Longrightarrow> post (expire_resets now s) P"
    by (blast intro: post_mono)
qed

lemma clear_expired_flow [post_rules]:
  "flow_inv d q s \<Longrightarrow> (\<And>s'. flow_inv d q s' \<Longrightarrow> P s') \<Longrightarrow> post (recv_clear_expired_reset_streams E s) P"
  unfolding recv_clear_expired_reset_streams_def by (intro post_rules) auto

lemma clear_window_update_queue_flow [post_rules]:
  "flow_inv d q s \<Longrightarrow> (\<And>s'. flow_inv d q s' \<Longrightarrow> P s') \<Longrightarrow> post (recv_clear_stream_window_update_queue s) P"
proof -
  have "\<forall>s. flow_inv d q s \<longrightarrow> post (recv_clear_stream_window_update_queue s) (flow_inv d q)"
    by (rule recv_clear_stream_window_update_queue.fixp_induct [OF loop_admissible]) (auto intro!: post_rules)
  then show "flow_inv d q s \<Longrightarrow> (\<And>s'. flow_inv d q s' \<Longrightarrow> P s') \<Longrightarrow> post (recv_clear_stream_window_update_queue s) P"
    by (blast intro: post_mono)
qed

lemma clear_all_reset_flow [post_rules]:
  "flow_inv d q s \<Longrightarrow> (\<And>s'. flow_inv d q s' \<Longrightarrow> P s') \<Longrightarrow> post (recv_clear_all_reset_streams s) P"
proof -
  have "\<forall>s. flow_inv d q s \<longrightarrow> post (recv_clear_all_reset_streams s) (flow_inv d q)"
    by (rule recv_clear_all_reset_streams.fixp_induct [OF loop_admissible]) (auto intro!: post_rules)
  then show "flow_inv d q s \<Longrightarrow> (\<And>s'. flow_inv d q s' \<Longrightarrow> P s') \<Longrightarrow> post (recv_clear_all_reset_streams s) P"
    by (blast intro: post_mono)
qed

lemma clear_all_pending_accept_flow [post_rules]:
  "flow_inv d q s \<Longrightarrow> (\<And>s'. flow_inv d q s' \<Longrightarrow> P s') \<Longrightarrow> post (recv_clear_all_pending_accept s) P"
proof -
  have "\<forall>s. flow_inv d q s \<longrightarrow> post (recv_clear_all_pending_accept s) (flow_inv d q)"
    by (rule recv_clear_all_pending_accept.fixp_induct [OF loop_admissible]) (auto intro!: post_rules)
  then show "flow_inv d q s \<Longrightarrow> (\<And>s'. flow_inv d q s' \<Longrightarrow> P s') \<Longrightarrow> post (recv_clear_all_pending_accept s) P"
    by (blast intro: post_mono)
qed

lemma recv_clear_queues_flow [post_rules]:
  "flow_inv d q s \<Longrightarrow> (\<And>s'. flow_inv d q s' \<Longrightarrow> P s') \<Longrightarrow> post (recv_clear_queues b s) P"
  unfolding recv_clear_queues_def by (intro post_rules) auto

section \<open>Reading\<close>

lemma recv_next_incoming_flow [post_rules]:
  "flow_inv d q s \<Longrightarrow> (\<And>r s'. flow_inv d q s' \<Longrightarrow> P (r, s')) \<Longrightarrow> post (recv_next_incoming s) P"
  unfolding recv_next_incoming_def by (intro post_rules) auto

lemma recv_take_request_flow [post_rules]:
  "flow_inv d q s \<Longrightarrow> (\<And>r s'. flow_inv d q s' \<Longrightarrow> P (r, s')) \<Longrightarrow> post (recv_take_request k s) P"
  unfolding recv_take_request_def by (intro post_rules) (auto split: event.splits poll_message.splits)

lemma recv_schedule_flow [post_rules]:
  "flow_inv d q s \<Longrightarrow> (\<And>r s'. flow_inv d q s' \<Longrightarrow> P (r, s')) \<Longrightarrow> post (recv_schedule w k s) P"
  unfolding recv_schedule_def by (intro post_rules) (auto split: outcome.splits bool.splits)

lemma recv_poll_data_flow [post_rules]:
  "flow_inv d q s \<Longrightarrow> (\<And>r s'. flow_inv d q s' \<Longrightarrow> P (r, s')) \<Longrightarrow> post (recv_poll_data E w k s) P"
  unfolding recv_poll_data_def by (intro post_rules) (auto intro!: post_rules split: event.splits option.splits)

lemma recv_poll_trailers_flow [post_rules]:
  "flow_inv d q s \<Longrightarrow> (\<And>r s'. flow_inv d q s' \<Longrightarrow> P (r, s')) \<Longrightarrow> post (recv_poll_trailers E w k s) P"
  unfolding recv_poll_trailers_def by (intro post_rules) (auto intro!: post_rules split: event.splits option.splits)

lemma recv_poll_informational_flow [post_rules]:
  "flow_inv d q s \<Longrightarrow> (\<And>r s'. flow_inv d q s' \<Longrightarrow> P (r, s')) \<Longrightarrow> post (recv_poll_informational E w k s) P"
  unfolding recv_poll_informational_def
  by (intro post_rules) (auto intro!: post_rules split: event.splits option.splits poll_message.splits)

lemma recv_poll_response_flow [post_rules]:
  "flow_inv d q s \<Longrightarrow> (\<And>r s'. flow_inv d q s' \<Longrightarrow> P (r, s')) \<Longrightarrow> post (recv_poll_response w k s) P"
proof -
  have "\<forall>w k s. flow_inv d q s \<longrightarrow> post (recv_poll_response w k s) (\<lambda>(r, s'). flow_inv d q s')"
    by (rule recv_poll_response.fixp_induct [OF loop_admissible3])
      (auto intro!: post_rules split: event.splits option.splits poll_message.splits bool.splits outcome.splits)
  then show "flow_inv d q s \<Longrightarrow> (\<And>r s'. flow_inv d q s' \<Longrightarrow> P (r, s')) \<Longrightarrow> post (recv_poll_response w k s) P"
    by (blast intro: post_result)
qed


lemma pop_push_promises_flow [post_rules]:
  assumes inv: "flow_inv d q s" and P: "\<And>r s'. flow_inv d q s' \<Longrightarrow> P (r, s')"
  shows "post (pop_push_promises k s) P"
  unfolding pop_push_promises_def Let_def
  apply (rule post_bind, rule post_get_stream)
  apply (rule post_bind, rule flow_acct.queue_pop_steady [OF flow_inv_steady])
  using inv by (auto intro!: post_rules P)

lemma recv_poll_pushed_flow [post_rules]:
  "flow_inv d q s \<Longrightarrow> (\<And>r s'. flow_inv d q s' \<Longrightarrow> P (r, s')) \<Longrightarrow> post (recv_poll_pushed w k s) P"
  unfolding recv_poll_pushed_def by (intro post_rules) (auto intro!: post_rules split: outcome.splits bool.splits)

section \<open>Window updates\<close>

lemma send_connection_window_update_frame_flow [post_rules]:
  "flow_inv d q (fst sd) \<Longrightarrow> (\<And>r sd'. flow_inv d q (fst sd') \<Longrightarrow> P (r, sd')) \<Longrightarrow>
    post (recv_send_connection_window_update E sd) P"
  unfolding recv_send_connection_window_update_def Let_def by (intro post_rules) auto

lemma send_stream_window_update_frame_flow [post_rules]:
  "flow_inv d q s \<Longrightarrow> (\<And>r s'. flow_inv d q s' \<Longrightarrow> P (r, s')) \<Longrightarrow> post (recv_send_stream_window_update E k dt s) P"
  unfolding recv_send_stream_window_update_def by (intro post_rules) (auto intro!: post_rules)

lemma send_stream_window_updates_flow [post_rules]:
  "flow_inv d q (fst sd) \<Longrightarrow> (\<And>r sd'. flow_inv d q (fst sd') \<Longrightarrow> P (r, sd')) \<Longrightarrow>
    post (recv_send_stream_window_updates E sd) P"
proof -
  have "\<forall>E sd. flow_inv d q (fst sd) \<longrightarrow> post (recv_send_stream_window_updates E sd) (\<lambda>(r, sd'). flow_inv d q (fst sd'))"
    by (rule recv_send_stream_window_updates.fixp_induct [OF loop_admissible2]) (auto simp: Let_def intro!: post_rules)
  then show "flow_inv d q (fst sd) \<Longrightarrow> (\<And>r sd'. flow_inv d q (fst sd') \<Longrightarrow> P (r, sd')) \<Longrightarrow>
      post (recv_send_stream_window_updates E sd) P"
    by (blast intro: post_result)
qed

lemma recv_buffer_pending_flow [post_rules]:
  "flow_inv d q (fst sd) \<Longrightarrow> (\<And>r sd'. flow_inv d q (fst sd') \<Longrightarrow> P (r, sd')) \<Longrightarrow> post (recv_buffer_pending E sd) P"
  unfolding recv_buffer_pending_def by (intro post_rules) (auto intro!: post_rules)

end
