(* ===== verification/Flow_Streams.thy ===== *)
theory Flow_Streams
  imports Flow_Recv
begin

text \<open>
  The operations of \<open>Inner\<close> and of the handles keep the flow control accounts, for every interleaving of them: what the
  connection does with frames, errors and its end, what it writes, and what the user does with requests, bodies and resets.
\<close>

section \<open>New streams\<close>

lemma flow_put_new:
  assumes "flow_inv d q s" "held y = 0" "unread y = 0" "sto_slab st = (slab s)(n \<mapsto> y)"
  shows "flow_inv d q (s\<lparr>ss_store := st\<rparr>)"
proof -
  have "store_total held ((slab s)(n \<mapsto> y)) \<le> store_total held (slab s)"
    "store_total unread ((slab s)(n \<mapsto> y)) \<le> store_total unread (slab s)"
    using assms by (auto intro!: store_total_new simp: flow_inv_def simp del: unread_def held_def)
  then show ?thesis
    using assms by (auto simp: flow_inv_def send_avail_def send_window_def conn_unread_def)
qed

lemma stream_new_zero: "stream_new i w v = Some x \<Longrightarrow> held x = 0 \<and> unread x = 0"
  using stream_new_fields(8) [of i w v x] by (auto simp: stream_new_def Let_def split: prod.splits outcome.splits if_splits)

lemma new_stream_zero [post_rules]:
  "(\<And>x. held x = 0 \<Longrightarrow> unread x = 0 \<Longrightarrow> P x) \<Longrightarrow> post (stream_new i w v) P"
  by (rule postI) (blast dest: stream_new_zero)

lemma insert_stream_flow [post_rules]:
  assumes "flow_inv d q s" "held x = 0" "unread x = 0" "\<And>k s'. flow_inv d q s' \<Longrightarrow> P (k, s')"
  shows "post (insert_stream E i x s) P"
  unfolding insert_stream_def store_insert_def Let_def
  by (auto intro!: post_rules assms(4) flow_put_new [OF assms(1-3)])

lemma insert_vacant_flow:
  "insert_vacant E i x s = (k, s') \<Longrightarrow> flow_inv d q s \<Longrightarrow> held x = 0 \<Longrightarrow> unread x = 0 \<Longrightarrow> flow_inv d q s'"
  by (auto simp: insert_vacant_def vacant_insert_def Let_def
      intro!: flow_put_new [of d q s x])

lemma put_zero_flow: "flow_inv d q s \<Longrightarrow> held y = 0 \<Longrightarrow> unread y = 0 \<Longrightarrow> flow_inv d q (put_stream k y s)"
  unfolding put_stream_def by (rule flow_put_new) auto

lemma forget_stream_flow [post_rules]:
  assumes "flow_inv d q s" "\<And>s'. flow_inv d q s' \<Longrightarrow> P s'"
  shows "post (forget_stream k s) P"
proof -
  have "flow_acct.quiet s s'" if "forget_stream k s = Some s'" for s'
    using that
    by (auto simp: forget_stream_def bind_eq_Some_conv ptr_remove_def ptr_unlink_def
        intro!: flow_acct.calm_set_store flow_acct.calm_store_remove split: if_splits option.splits)
  then show ?thesis
    by (intro postI assms(2)) (rule flow_acct.steadyD [OF flow_inv_steady assms(1)])
qed

section \<open>Actions\<close>

lemma actions_reset_stream_flow [post_rules]:
  "flow_inv 0 q s \<Longrightarrow> (\<And>s'. flow_inv 0 q s' \<Longrightarrow> P s') \<Longrightarrow> post (actions_reset_stream E r ini k s) P"
  unfolding actions_reset_stream_def by (intro post_rules) auto

lemma actions_send_reset_flow [post_rules]:
  "flow_inv 0 q s \<Longrightarrow> (\<And>r s'. flow_inv 0 q s' \<Longrightarrow> P (r, s')) \<Longrightarrow> post (actions_send_reset E k r ini s) P"
  unfolding actions_send_reset_def by (rule flow_rules) (auto intro!: post_rules)

lemma reset_on_recv_stream_err_flow [post_rules]:
  "flow_inv 0 q s \<Longrightarrow> (\<And>r s'. flow_inv 0 q s' \<Longrightarrow> P (r, s')) \<Longrightarrow> post (actions_reset_on_recv_stream_err E k res s) P"
  unfolding actions_reset_on_recv_stream_err_def
  by (auto intro!: post_rules split: sum.splits proto_error.splits)

lemma reset_on_recv_stream_err_deferred_flow [post_rules]:
  "flow_inv 0 q s \<Longrightarrow> (\<And>r s'. flow_inv 0 q s' \<Longrightarrow> P (r, s')) \<Longrightarrow>
    post (actions_reset_on_recv_stream_err_deferred E k res s) P"
  unfolding actions_reset_on_recv_stream_err_deferred_def
  by (auto intro!: post_rules split: sum.splits proto_error.splits)

lemma actions_clear_queues_flow [post_rules]:
  "flow_inv d q s \<Longrightarrow> (\<And>s'. flow_inv d q s' \<Longrightarrow> P s') \<Longrightarrow> post (actions_clear_queues b s) P"
  unfolding actions_clear_queues_def by (intro post_rules) auto

section \<open>Frames received\<close>

lemma headers_entry_flow [post_rules]:
  "flow_inv d q s \<Longrightarrow> (\<And>r s'. flow_inv d q s' \<Longrightarrow> P (r, s')) \<Longrightarrow> post (inner_headers_entry E i s) P"
  unfolding inner_headers_entry_def Let_def new_stream_def
  by (intro post_rules postI [of "actions_may_have_forgotten_stream _ _"])
    (auto intro!: post_rules dest!: insert_vacant_flow split: sum.splits)

lemma oversize_response_flow [post_rules]:
  "flow_inv 0 q s \<Longrightarrow> (\<And>s'. flow_inv 0 q s' \<Longrightarrow> P s') \<Longrightarrow> post (inner_oversize_response E k s) P"
  unfolding inner_oversize_response_def by (intro post_rules) auto

lemma headers_block_flow [post_rules]:
  "flow_inv 0 q s \<Longrightarrow> (\<And>r s'. flow_inv 0 q s' \<Longrightarrow> P (r, s')) \<Longrightarrow> post (inner_headers_block E f k s) P"
  unfolding inner_headers_block_def by (intro post_rules) (auto intro!: post_rules split: recv_header_error.splits)

lemma headers_on_stream_flow [post_rules]:
  "flow_inv 0 q s \<Longrightarrow> (\<And>r s'. flow_inv 0 q s' \<Longrightarrow> P (r, s')) \<Longrightarrow> post (inner_headers_on_stream E f k s) P"
  unfolding inner_headers_on_stream_def by (intro post_rules) (auto intro!: post_rules)

lemma recv_headers_frame_flow [post_rules]:
  "flow_inv 0 q s \<Longrightarrow> (\<And>r s'. flow_inv 0 q s' \<Longrightarrow> P (r, s')) \<Longrightarrow> post (inner_recv_headers E f s) P"
  unfolding inner_recv_headers_def Let_def
  by (intro post_rules) (auto intro!: post_rules split: sum.splits option.splits)

lemma data_unknown_flow [post_rules]:
  "flow_inv 0 q s \<Longrightarrow> (\<And>r s'. flow_inv 0 q s' \<Longrightarrow> P (r, s')) \<Longrightarrow> post (inner_data_unknown f s) P"
  unfolding inner_data_unknown_def Let_def
  by (intro post_rules postI [of "actions_may_have_forgotten_stream _ _"]) (auto intro!: post_rules split: sum.splits)


lemma data_on_stream_flow [post_rules]:
  assumes inv: "flow_inv 0 q s" and P: "\<And>r s'. flow_inv 0 q s' \<Longrightarrow> P (r, s')"
  shows "post (inner_data_on_stream E f k s) P"
proof -
  let ?n = "of_nat (flow_controlled_len f) :: u32"
  have resume: "post (do {
      s \<leftarrow> upd_when (case res of Inl (ErrReset _ _ _) \<Rightarrow> True | _ \<Rightarrow> False) (recv_release_connection_capacity ?n False) s';
      actions_reset_on_recv_stream_err_deferred E k res s
    }) P" if "flow_inv 0 (q + owed (uint ?n) res) s'" for res s'
    using that
    by (auto intro!: post_rules P release_connection_flow [of 0 "q + uint ?n"] simp: owed_def
        split: sum.splits proto_error.splits)
  show ?thesis
    unfolding inner_data_on_stream_def
    apply (rule post_bind, rule recv_data_flow [OF inv])
    apply (unfold prod.case Let_def)
    apply (rule post_case_prod, rule resume)
    apply (auto split: prod.splits outcome.splits if_splits)
    done
qed

lemma recv_data_frame_flow [post_rules]:
  "flow_inv 0 q s \<Longrightarrow> (\<And>r s'. flow_inv 0 q s' \<Longrightarrow> P (r, s')) \<Longrightarrow> post (inner_recv_data E f s) P"
  unfolding inner_recv_data_def by (intro post_rules) (auto intro!: post_rules)

lemma reset_on_stream_flow [post_rules]:
  "flow_inv 0 q s \<Longrightarrow> (\<And>r s'. flow_inv 0 q s' \<Longrightarrow> P (r, s')) \<Longrightarrow> post (inner_reset_on_stream f k s) P"
  unfolding inner_reset_on_stream_def by (intro post_rules) (auto intro!: post_rules split: sum.splits)

lemma not_idle_flow [post_rules]:
  "flow_inv d q s \<Longrightarrow> (\<And>r s'. flow_inv d q s' \<Longrightarrow> P (r, s')) \<Longrightarrow> post (inner_not_idle i s) P"
  unfolding inner_not_idle_def by (intro post_rules postI [of "actions_ensure_not_idle _ _"]) auto

lemma recv_reset_frame_flow [post_rules]:
  "flow_inv 0 q s \<Longrightarrow> (\<And>r s'. flow_inv 0 q s' \<Longrightarrow> P (r, s')) \<Longrightarrow> post (inner_recv_reset f s) P"
  unfolding inner_recv_reset_def Let_def by (intro post_rules) (auto intro!: post_rules)

lemma recv_window_update_frame_flow [post_rules]:
  "flow_inv 0 q s \<Longrightarrow> uint (wu_size_increment f) < 2 ^ 31 \<Longrightarrow> (\<And>r s'. flow_inv 0 q s' \<Longrightarrow> P (r, s')) \<Longrightarrow>
    post (inner_recv_window_update E f s) P"
  unfolding inner_recv_window_update_def Let_def by (intro post_rules) (auto intro!: post_rules)

lemma fail_stream_flow [post_rules]:
  "flow_inv 0 q s \<Longrightarrow> (\<And>s'. flow_inv 0 q s' \<Longrightarrow> P s') \<Longrightarrow> post (inner_fail_stream e k s) P"
  unfolding inner_fail_stream_def by (rule flow_rules) (auto intro!: post_rules)

lemma handle_error_flow [post_rules]:
  "flow_inv 0 q s \<Longrightarrow> (\<And>r s'. flow_inv 0 q s' \<Longrightarrow> P (r, s')) \<Longrightarrow> post (inner_handle_error e s) P"
  unfolding inner_handle_error_def Let_def
  by (intro post_bind for_each_stream_post [where I = "flow_inv 0 q"]) (auto intro!: post_rules)

lemma recv_go_away_frame_flow [post_rules]:
  "flow_inv 0 q s \<Longrightarrow> (\<And>r s'. flow_inv 0 q s' \<Longrightarrow> P (r, s')) \<Longrightarrow> post (inner_recv_go_away f s) P"
  unfolding inner_recv_go_away_def Let_def send_recv_go_away_def
  by (intro post_question) (auto intro!: post_rules for_each_stream_post [where I = "flow_inv 0 q"] split: sum.splits)

lemma eof_stream_flow [post_rules]:
  "flow_inv 0 q s \<Longrightarrow> (\<And>s'. flow_inv 0 q s' \<Longrightarrow> P s') \<Longrightarrow> post (inner_eof_stream k s) P"
  unfolding inner_eof_stream_def by (rule flow_rules) (auto intro!: post_rules)

lemma recv_eof_flow [post_rules]:
  "flow_inv 0 q s \<Longrightarrow> (\<And>s'. flow_inv 0 q s' \<Longrightarrow> P s') \<Longrightarrow> post (inner_recv_eof b s) P"
  unfolding inner_recv_eof_def Let_def
  by (intro post_bind for_each_stream_post [where I = "flow_inv 0 q"]) (auto intro!: post_rules)

lemma push_child_flow [post_rules]:
  "flow_inv 0 q s \<Longrightarrow> (\<And>r s'. flow_inv 0 q s' \<Longrightarrow> P (r, s')) \<Longrightarrow> post (inner_push_child E f k s) P"
  unfolding inner_push_child_def by (rule flow_rules) (auto intro!: post_rules split: sum.splits)

lemma push_link_flow [post_rules]:
  assumes inv: "flow_inv d q s" and P: "\<And>s'. flow_inv d q s' \<Longrightarrow> P s'"
  shows "post (inner_push_link p c s) P"
  unfolding inner_push_link_def Let_def
  apply (rule post_bind, rule post_get_stream)
  apply (rule post_bind, rule flow_acct.queue_push_steady [OF flow_inv_steady])
  using inv by (auto intro!: post_rules P)

lemma recv_push_promise_frame_flow [post_rules]:
  "flow_inv 0 q s \<Longrightarrow> (\<And>r s'. flow_inv 0 q s' \<Longrightarrow> P (r, s')) \<Longrightarrow> post (inner_recv_push_promise E f s) P"
  unfolding inner_recv_push_promise_def Let_def new_stream_def
  by (intro post_rules postI [of "inner_push_parent _ _"]) (auto intro!: post_rules split: sum.splits option.splits)

section \<open>Resets and frames to write\<close>

lemma reset_entry_flow [post_rules]:
  assumes inv: "flow_inv d q s" and P: "\<And>k s'. flow_inv d q s' \<Longrightarrow> P (k, s')"
  shows "post (inner_reset_entry E i s) P"
proof -
  have "P (insert_vacant E i x s')" if "flow_inv d q s'" "stream_new i 0 0 = Some x" for s' x
    using that stream_new_zero [OF that(2)]
    by (cases "insert_vacant E i x s'") (auto intro!: P dest!: insert_vacant_flow)
  then show ?thesis
    unfolding inner_reset_entry_def
    by (intro post_rules postI [of "stream_new _ _ _"]) (auto intro!: P inv post_rules)
qed

lemma inner_send_reset_flow [post_rules]:
  "flow_inv 0 q s \<Longrightarrow> (\<And>r s'. flow_inv 0 q s' \<Longrightarrow> P (r, s')) \<Longrightarrow> post (inner_send_reset E i r s) P"
  unfolding inner_send_reset_def by (intro post_rules) auto

lemma inner_buffer_pending_flow [post_rules]:
  "flow_inv 0 q (fst sd) \<Longrightarrow> (\<And>r sd'. flow_inv 0 q (fst sd') \<Longrightarrow> P (r, sd')) \<Longrightarrow> post (inner_buffer_pending E sd) P"
  unfolding inner_buffer_pending_def by (intro post_rules) (auto intro!: post_rules)

lemma poll_complete_step_flow [post_rules]:
  "flow_inv 0 q (fst sd) \<Longrightarrow> (\<And>r sd'. flow_inv 0 q (fst sd') \<Longrightarrow> P (r, sd')) \<Longrightarrow> post (poll_complete_step E w sd) P"
  unfolding poll_complete_step_def Let_def inner_reclaim_written_frame_def
  by (intro post_rules postI [of "dst_poll_ready _ _"] postI [of "dst_flush _ _"])
    (auto intro!: post_rules postI [of "dst_flush _ _"])

lemma poll_complete_flow [post_rules]:
  "flow_inv 0 q (fst sd) \<Longrightarrow> (\<And>r sd'. flow_inv 0 q (fst sd') \<Longrightarrow> P (r, sd')) \<Longrightarrow> post (streams_poll_complete E w sd) P"
proof -
  have "\<forall>E w sd. flow_inv 0 q (fst sd) \<longrightarrow> post (streams_poll_complete E w sd) (\<lambda>(r, sd'). flow_inv 0 q (fst sd'))"
    by (rule streams_poll_complete.fixp_induct [OF loop_admissible3]) (auto intro!: post_rules)
  then show "flow_inv 0 q (fst sd) \<Longrightarrow> (\<And>r sd'. flow_inv 0 q (fst sd') \<Longrightarrow> P (r, sd')) \<Longrightarrow> post (streams_poll_complete E w sd) P"
    by (blast intro: post_result)
qed


lemma set_target_window_flow [post_rules]:
  "flow_inv d q s \<Longrightarrow> (\<And>r s'. flow_inv d q s' \<Longrightarrow> P (r, s')) \<Longrightarrow>
    post (streams_set_target_connection_window_size n s) P"
  unfolding streams_set_target_connection_window_size_def by (intro post_rules) (auto split: sum.splits)

lemma count_pending_refusal_flow [post_rules]:
  "flow_inv d q s \<Longrightarrow> (\<And>r s'. flow_inv d q s' \<Longrightarrow> P (r, s')) \<Longrightarrow> post (streams_count_pending_refusal s) P"
  unfolding streams_count_pending_refusal_def by (intro post_rules) auto

lemma streams_remote_settings_flow [post_rules]:
  "flow_inv 0 q s \<Longrightarrow> (\<And>r s'. flow_inv 0 q s' \<Longrightarrow> P (r, s')) \<Longrightarrow> post (streams_apply_remote_settings E v b s) P"
  unfolding streams_apply_remote_settings_def by (intro post_rules) auto

lemma streams_drop_flow [post_rules]:
  "flow_inv d q s \<Longrightarrow> (\<And>s'. flow_inv d q s' \<Longrightarrow> P s') \<Longrightarrow> post (streams_drop s) P"
  unfolding streams_drop_def Let_def by (intro post_rules) auto

section \<open>The handles of the user\<close>

lemma stream_ref_same:
  "stream_ref_inc x = Some y \<Longrightarrow> st_send_flow y = st_send_flow x \<and> st_in_flight_recv_data y = st_in_flight_recv_data x"
  "stream_ref_dec x = Some y \<Longrightarrow> st_send_flow y = st_send_flow x \<and> st_in_flight_recv_data y = st_in_flight_recv_data x"
  by (auto simp: stream_ref_inc_def stream_ref_dec_def split: if_splits)

lemma opaque_ref_new_flow [post_rules]:
  "flow_inv d q s \<Longrightarrow> (\<And>s'. flow_inv d q s' \<Longrightarrow> P s') \<Longrightarrow> post (opaque_ref_new k s) P"
  unfolding opaque_ref_new_def by (intro post_rules) (auto dest: stream_ref_same)

lemma opaque_ref_clone_flow [post_rules]:
  "flow_inv d q s \<Longrightarrow> (\<And>s'. flow_inv d q s' \<Longrightarrow> P s') \<Longrightarrow> post (opaque_ref_clone k s) P"
  unfolding opaque_ref_clone_def by (intro post_rules) (auto dest: stream_ref_same)

lemma maybe_cancel_flow [post_rules]:
  "flow_inv 0 q s \<Longrightarrow> (\<And>s'. flow_inv 0 q s' \<Longrightarrow> P s') \<Longrightarrow> post (maybe_cancel E k s) P"
  unfolding maybe_cancel_def Let_def by (intro post_rules) auto

lemma cancel_promises_flow [post_rules]:
  "flow_inv 0 q s \<Longrightarrow> (\<And>s'. flow_inv 0 q s' \<Longrightarrow> P s') \<Longrightarrow> post (cancel_promises E ppp s) P"
proof -
  have "\<forall>E ppp s. flow_inv 0 q s \<longrightarrow> post (cancel_promises E ppp s) (flow_inv 0 q)"
    by (rule cancel_promises.fixp_induct [OF loop_admissible3])
      (auto simp: Let_def simp del: next_of.simps intro!: post_rules)
  then show "flow_inv 0 q s \<Longrightarrow> (\<And>s'. flow_inv 0 q s' \<Longrightarrow> P s') \<Longrightarrow> post (cancel_promises E ppp s) P"
    by (blast intro: post_mono)
qed

lemma release_stream_ref_flow [post_rules]:
  "flow_inv 0 q s \<Longrightarrow> (\<And>s'. flow_inv 0 q s' \<Longrightarrow> P s') \<Longrightarrow> post (release_stream_ref E k s) P"
  unfolding release_stream_ref_def Let_def by (intro post_rules) auto

lemma drop_stream_ref_flow [post_rules]:
  "flow_inv 0 q s \<Longrightarrow> (\<And>s'. flow_inv 0 q s' \<Longrightarrow> P s') \<Longrightarrow> post (drop_stream_ref E k s) P"
  unfolding drop_stream_ref_def Let_def by (intro post_rules) (auto dest: stream_ref_same intro!: post_rules)

lemma next_incoming_flow [post_rules]:
  "flow_inv d q s \<Longrightarrow> (\<And>r s'. flow_inv d q s' \<Longrightarrow> P (r, s')) \<Longrightarrow> post (streams_next_incoming s) P"
  unfolding streams_next_incoming_def Let_def by (intro post_rules) (auto dest: stream_ref_same intro!: post_rules)

lemma send_request_flow [post_rules]:
  "flow_inv 0 q s \<Longrightarrow> (\<And>r s'. flow_inv 0 q s' \<Longrightarrow> P (r, s')) \<Longrightarrow> post (streams_send_request E rq b pending s) P"
  unfolding streams_send_request_def Let_def new_stream_def
  by (intro post_rules postI [of "map_option _ (get_stream _ _)"]) (auto intro!: post_rules split: sum.splits)

lemma poll_pending_open_flow [post_rules]:
  "flow_inv d q s \<Longrightarrow> (\<And>r s'. flow_inv d q s' \<Longrightarrow> P (r, s')) \<Longrightarrow> post (streams_poll_pending_open w pending s) P"
  unfolding streams_poll_pending_open_def by (intro post_rules) (auto intro!: post_rules)

lemma ref_send_data_flow [post_rules]:
  "flow_inv 0 q s \<Longrightarrow> (\<And>r s'. flow_inv 0 q s' \<Longrightarrow> P (r, s')) \<Longrightarrow> post (ref_send_data E bs b k s) P"
  unfolding ref_send_data_def by (rule flow_rules) (auto intro!: post_rules postI [of "data_new _ _"])

lemma ref_send_trailers_flow [post_rules]:
  "flow_inv 0 q s \<Longrightarrow> (\<And>r s'. flow_inv 0 q s' \<Longrightarrow> P (r, s')) \<Longrightarrow> post (ref_send_trailers E m k s) P"
  unfolding ref_send_trailers_def by (rule flow_rules) (auto intro!: post_rules)

lemma ref_send_reset_flow [post_rules]:
  "flow_inv 0 q s \<Longrightarrow> (\<And>s'. flow_inv 0 q s' \<Longrightarrow> P s') \<Longrightarrow> post (ref_send_reset E r k s) P"
  unfolding ref_send_reset_def by (intro post_rules) auto

lemma ref_send_informational_headers_flow [post_rules]:
  "flow_inv 0 q s \<Longrightarrow> (\<And>r s'. flow_inv 0 q s' \<Longrightarrow> P (r, s')) \<Longrightarrow> post (ref_send_informational_headers E f k s) P"
  unfolding ref_send_informational_headers_def by (rule flow_rules) (auto intro!: post_rules)

lemma ref_send_response_flow [post_rules]:
  "flow_inv 0 q s \<Longrightarrow> (\<And>r s'. flow_inv 0 q s' \<Longrightarrow> P (r, s')) \<Longrightarrow> post (ref_send_response E rs b k s) P"
  unfolding ref_send_response_def by (rule flow_rules) (auto intro!: post_rules)

lemma ref_send_push_promise_flow [post_rules]:
  assumes inv: "flow_inv 0 q s" and P: "\<And>r s'. flow_inv 0 q s' \<Longrightarrow> P (r, s')"
  shows "post (ref_send_push_promise E rq k s) P"
  supply flow_put [post_rules del]
  unfolding ref_send_push_promise_def Let_def new_stream_def
  by (intro post_rules postI [of "server_convert_push_message _ _ _"])
    (use inv in \<open>auto intro!: post_rules postI [of "server_convert_push_message _ _ _"] P put_zero_flow split: sum.splits\<close>)

section \<open>Reading\<close>

lemma opaque_poll_pushed_flow [post_rules]:
  "flow_inv d q s \<Longrightarrow> (\<And>r s'. flow_inv d q s' \<Longrightarrow> P (r, s')) \<Longrightarrow> post (opaque_poll_pushed w k s) P"
  unfolding opaque_poll_pushed_def
  by (intro post_rules) (auto intro!: post_rules split: poll.splits option.splits sum.splits)

lemma opaque_poll_data_flow [post_rules]:
  "flow_inv d q s \<Longrightarrow> (\<And>r s'. flow_inv d q s' \<Longrightarrow> P (r, s')) \<Longrightarrow> post (opaque_poll_data E w k s) P"
  unfolding opaque_poll_data_def
  by (intro post_rules) (auto intro!: post_rules split: poll.splits option.splits sum.splits)

lemma opaque_release_capacity_flow [post_rules]:
  "flow_inv d q s \<Longrightarrow> (\<And>r s'. flow_inv d q s' \<Longrightarrow> P (r, s')) \<Longrightarrow> post (opaque_release_capacity n k s) P"
  unfolding opaque_release_capacity_def by (rule release_capacity_flow)

lemma opaque_clear_recv_buffer_flow [post_rules]:
  "flow_inv d q s \<Longrightarrow> (\<And>s'. flow_inv d q s' \<Longrightarrow> P s') \<Longrightarrow> post (opaque_clear_recv_buffer k s) P"
  unfolding opaque_clear_recv_buffer_def by (intro post_rules) auto

end
