(* ===== verification/Flow_Windows.thy ===== *)
theory Flow_Windows
  imports Flow_Numbers
begin

text \<open>
  The windows that the peer granted, while the next frame to send is chosen: assigning and reclaiming capacity, queues and resets
  leave the window of every stream and of the connection as they are; only a DATA frame that is popped pays from them, its length from
  the window of its stream and from the window of the connection.
\<close>

interpretation wnd: ledger "\<lambda>x. fc_window_size (st_send_flow x)" "\<lambda>s. fc_window_size (pz_flow (prio s))"
proof unfold_locales
  fix now n k x
  show "fc_window_size (st_send_flow (nx_set_next (next_of now n) k x)) = fc_window_size (st_send_flow x)"
    by (cases n) simp_all
next
  fix now n b x y assume "nx_set_queued (next_of now n) b x = Some y"
  then show "fc_window_size (st_send_flow y) = fc_window_size (st_send_flow x)"
    by (cases n) (auto split: if_splits)
next
  fix n q s
  show "fc_window_size (pz_flow (prio (set_queue n q s))) = fc_window_size (pz_flow (prio s))"
    by (cases n) simp_all
qed simp_all

named_theorems window_rules "operations that leave the windows as they are"

declare wnd.steady_rules [OF wnd.quiet_steady, window_rules]

lemma quiet_wake [simp]: "wnd.quiet s0 s \<Longrightarrow> wnd.quiet s0 (wake_task s)"
  by (rule wnd.calm_trans [OF _ wnd.calm_wake])

lemma quiet_prio [simp]:
  "fc_window_size (pz_flow (sn_prioritize x)) = fc_window_size (pz_flow (prio s)) \<Longrightarrow>
    wnd.quiet s0 (s\<lparr>ss_send := x\<rparr>) = wnd.quiet s0 s"
  by (simp add: wnd.quiet_def)

lemma quiet_put [window_rules, simp]:
  "wnd.quiet s0 s \<Longrightarrow> get_stream k s \<noteq> None \<Longrightarrow>
    fc_window_size (st_send_flow y) = fc_window_size (st_send_flow (the (get_stream k s))) \<Longrightarrow> wnd.quiet s0 (put_stream k y s)"
  by (erule wnd.calm_trans) (auto intro: wnd.calm_put)

lemma conn_assign_window [window_rules]:
  "wnd.quiet s0 s \<Longrightarrow> (\<And>s'. wnd.quiet s0 s' \<Longrightarrow> P s') \<Longrightarrow> post (conn_assign n s) P"
  unfolding conn_assign_def by (intro post_rules) (auto dest: assign_capacity_Ok)

lemma conn_claim_window [window_rules]:
  "wnd.quiet s0 s \<Longrightarrow> (\<And>s'. wnd.quiet s0 s' \<Longrightarrow> P s') \<Longrightarrow> post (conn_claim n s) P"
  unfolding conn_claim_def by (intro post_rules) (auto dest: claim_capacity_Ok)

lemma stream_claim_window [window_rules]:
  "wnd.quiet s0 s \<Longrightarrow> (\<And>s'. wnd.quiet s0 s' \<Longrightarrow> P s') \<Longrightarrow> post (stream_claim k n s) P"
  unfolding stream_claim_def
  by (intro window_rules) (auto simp: bind_eq_Some_conv assert_ok_Some dest: claim_capacity_Ok)

lemma stream_assign_window: "stream_assign_capacity n b x = Some y \<Longrightarrow> fc_window_size (st_send_flow y) = fc_window_size (st_send_flow x)"
  by (auto simp: stream_assign_capacity_def Let_def notify_capacity_def dest!: assign_capacity_Ok
      split: if_splits prod.splits outcome.splits)

lemma try_assign_window [window_rules]:
  "wnd.quiet s0 s \<Longrightarrow> (\<And>s'. wnd.quiet s0 s' \<Longrightarrow> P s') \<Longrightarrow> post (prio_try_assign_capacity k s) P"
  unfolding prio_try_assign_capacity_def Let_def
  by (intro post_rules postI [of "additional_capacity _"]) (auto intro!: post_rules window_rules dest: stream_assign_window)


lemma assign_step_window [window_rules]:
  "wnd.quiet s0 s \<Longrightarrow> (\<And>r s'. wnd.quiet s0 s' \<Longrightarrow> P (r, s')) \<Longrightarrow> post (assign_capacity_step s) P"
  unfolding assign_capacity_step_def
  by (intro post_rules window_rules) (auto intro!: post_rules window_rules)

lemma assign_loop_window [window_rules]:
  "wnd.quiet s0 s \<Longrightarrow> (\<And>s'. wnd.quiet s0 s' \<Longrightarrow> P s') \<Longrightarrow> post (assign_capacity_loop s) P"
proof -
  have "\<forall>s. wnd.quiet s0 s \<longrightarrow> post (assign_capacity_loop s) (wnd.quiet s0)"
    by (rule assign_capacity_loop.fixp_induct [OF loop_admissible])
      (auto intro!: post_rules window_rules split: loop_flow.splits)
  then show "wnd.quiet s0 s \<Longrightarrow> (\<And>s'. wnd.quiet s0 s' \<Longrightarrow> P s') \<Longrightarrow> post (assign_capacity_loop s) P"
    by (blast intro: post_mono)
qed

lemma assign_connection_window [window_rules]:
  "wnd.quiet s0 s \<Longrightarrow> (\<And>s'. wnd.quiet s0 s' \<Longrightarrow> P s') \<Longrightarrow> post (prio_assign_connection_capacity n s) P"
  unfolding prio_assign_connection_capacity_def by (intro post_rules window_rules) auto

lemma reclaim_all_window [window_rules]:
  "wnd.quiet s0 s \<Longrightarrow> (\<And>s'. wnd.quiet s0 s' \<Longrightarrow> P s') \<Longrightarrow> post (prio_reclaim_all_capacity k s) P"
  unfolding prio_reclaim_all_capacity_def Let_def by (intro post_rules window_rules) auto

lemma drop_frames_window [window_rules]:
  "wnd.quiet s0 s \<Longrightarrow> (\<And>s'. wnd.quiet s0 s' \<Longrightarrow> P s') \<Longrightarrow> post (drop_frames k s) P"
proof -
  have "\<forall>k s. wnd.quiet s0 s \<longrightarrow> post (drop_frames k s) (wnd.quiet s0)"
    by (rule drop_frames.fixp_induct [OF loop_admissible2]) (auto intro!: post_rules window_rules)
  then show "wnd.quiet s0 s \<Longrightarrow> (\<And>s'. wnd.quiet s0 s' \<Longrightarrow> P s') \<Longrightarrow> post (drop_frames k s) P"
    by (blast intro: post_mono)
qed

lemma clear_queue_window [window_rules]:
  "wnd.quiet s0 s \<Longrightarrow> (\<And>s'. wnd.quiet s0 s' \<Longrightarrow> P s') \<Longrightarrow> post (prio_clear_queue k s) P"
  unfolding prio_clear_queue_def by (intro post_rules window_rules) auto

lemma pop_push_promise_window [window_rules]:
  "wnd.quiet s0 s \<Longrightarrow> (\<And>s'. wnd.quiet s0 s' \<Longrightarrow> P s') \<Longrightarrow> post (pop_push_promise f s) P"
  unfolding pop_push_promise_def prio_queue_open_def
  by (intro post_rules window_rules postI [of "store_find _ _"]) (auto intro!: post_rules window_rules)

lemma requeue_sender_window [window_rules]:
  "wnd.quiet s0 s \<Longrightarrow> (\<And>s'. wnd.quiet s0 s' \<Longrightarrow> P s') \<Longrightarrow> post (requeue_sender k s) P"
  unfolding requeue_sender_def Let_def by (intro post_rules window_rules) (auto intro!: post_rules window_rules)

end
