(* ===== verification/Flow_Sent.thy ===== *)
theory Flow_Sent
  imports Flow_Send Flow_Windows
begin

text \<open>
  What the next frame costs. A DATA frame is no longer than the frame size, the window of its stream and the window of the connection,
  and both windows pay its length; any other frame, and a round that finds none, leaves every window as it is.
\<close>

definition stream_window :: "stream \<Rightarrow> int" where
  "stream_window x = win_int (fc_window_size (st_send_flow x))"

definition paid :: "nat \<Rightarrow> nat \<Rightarrow> streams \<Rightarrow> streams \<Rightarrow> bool" where
  "paid n i s s' \<longleftrightarrow> send_window s' = send_window s - int n \<and>
     (\<forall>j y. slab s' j = Some y \<longrightarrow>
       (\<exists>x. slab s j = Some x \<and> stream_window y = stream_window x - (if j = i then int n else 0)))"

definition covered :: "nat \<Rightarrow> nat \<Rightarrow> nat \<Rightarrow> streams \<Rightarrow> bool" where
  "covered max_len n i s \<longleftrightarrow> n \<le> max_len \<and> int n \<le> send_window s \<and>
     (\<exists>x. slab s i = Some x \<and> (n = 0 \<or> int n \<le> stream_window x))"

definition frame_paid :: "nat \<Rightarrow> prioritized frame option \<Rightarrow> streams \<Rightarrow> streams \<Rightarrow> bool" where
  "frame_paid max_len f s s' \<longleftrightarrow>
    (case f of
       Some (FrameData v) \<Rightarrow>
         let n = pd_limit (data_data v); i = unat (key_index (pd_stream (data_data v)))
         in covered max_len n i s \<and> paid n i s s'
     | _ \<Rightarrow> wnd.quiet s s')"

lemma paid_quiet: "paid n i s s1 \<Longrightarrow> wnd.quiet s1 s2 \<Longrightarrow> paid n i s s2"
  unfolding paid_def wnd.quiet_def wnd.calm_store_def send_window_def stream_window_def by (metis (no_types, lifting))

lemma quiet_paid: "wnd.quiet s s1 \<Longrightarrow> paid n i s1 s2 \<Longrightarrow> paid n i s s2"
  unfolding paid_def wnd.quiet_def wnd.calm_store_def send_window_def stream_window_def by (metis (no_types, lifting))

lemma quiet_covered: "wnd.quiet s s1 \<Longrightarrow> covered m n i s1 \<Longrightarrow> covered m n i s"
  unfolding covered_def wnd.quiet_def wnd.calm_store_def send_window_def stream_window_def by (metis (no_types, lifting))

lemma frame_paid_quiet: "frame_paid m f s s1 \<Longrightarrow> wnd.quiet s1 s2 \<Longrightarrow> frame_paid m f s s2"
  by (auto simp: frame_paid_def Let_def intro: paid_quiet wnd.calm_trans split: option.splits frame.splits)

lemma quiet_frame_paid: "wnd.quiet s s1 \<Longrightarrow> frame_paid m f s1 s2 \<Longrightarrow> frame_paid m f s s2"
  by (auto simp: frame_paid_def Let_def intro: quiet_paid quiet_covered wnd.calm_trans split: option.splits frame.splits)

lemma post_both: "post m (\<lambda>(r, s). P s) \<Longrightarrow> post m (\<lambda>(r, s). Q s) \<Longrightarrow> post m (\<lambda>(r, s). P s \<and> Q s)"
  by (cases m) auto

abbreviation step_paid :: "nat \<Rightarrow> streams \<Rightarrow> pop_result \<times> streams \<Rightarrow> bool" where
  "step_paid max_len s rs \<equiv>
    (case rs of (r, s') \<Rightarrow> case r of PopFrame f \<Rightarrow> frame_paid max_len (Some f) s s' | _ \<Rightarrow> wnd.quiet s s')"

lemma quiet_step_paid: "wnd.quiet s s1 \<Longrightarrow> step_paid m s1 rs \<Longrightarrow> step_paid m s rs"
  by (auto intro: quiet_frame_paid wnd.calm_trans split: prod.splits pop_result.splits)

lemma stream_send_data_window:
  "stream_send_data n b x = Some y \<Longrightarrow> stream_window y = stream_window x - sint n"
  by (auto simp: stream_send_data_def Let_def stream_window_def notify_capacity_def dest!: flow_send_data_Ok
      split: if_splits prod.splits outcome.splits)

lemma data_set_end_stream_data [simp]: "data_data (data_set_end_stream f b) = data_data f"
  by (simp add: data_set_end_stream_def)

lemma data_paid:
  assumes x: "get_stream k s = Some x" and len: "sint len = uint len" "unat len \<le> m"
    and fits: "\<not> (0 < len \<and> flow_window_size (st_send_flow x) < len)" "uint len \<le> send_window s"
    and s': "send_window s' = send_window s - uint len" "stream_send_data len b x = Some y" "slab s' = slab (put_stream k y s)"
  shows "paid (unat len) (unat (key_index k)) s s'" "covered m (unat len) (unat (key_index k)) s"
proof -
  have n: "int (unat len) = uint len" by simp
  have i: "slab s (unat (key_index k)) = Some x" using x by (simp add: get_stream_slab)
  show "paid (unat len) (unat (key_index k)) s s'"
    unfolding paid_def n s'(1,3) using stream_send_data_window [OF s'(2)] len(1) i by simp
  have "unat len = 0 \<or> uint len \<le> stream_window x"
  proof (cases "len = 0")
    case False
    then have "0 < len" by (simp add: word_neq_0_conv)
    then have "0 < uint len" "uint len \<le> max 0 (stream_window x)"
      using fits(1) by (simp_all add: flow_window_size_def word_le_def not_less uint_as_size stream_window_def word_less_def)
    then show ?thesis by linarith
  qed simp
  then show "covered m (unat len) (unat (key_index k)) s"
    unfolding covered_def n using i len(2) fits(2) by simp
qed

lemma pop_data_sent:
  assumes inv: "flow_inv 0 q s"
  shows "post (pop_data E max_len f k s) (step_paid max_len s)"
proof -
  have held: "0 \<le> win_int (fc_available (st_send_flow x))" if "get_stream k s = Some x" for x
    using flow_inv_held [OF inv that] by simp
  have quiet: "post m (step_paid max_len s)" if "post m (\<lambda>(r, s'). r = PopAgain \<and> wnd.quiet s s')" for m
    using that by (rule post_mono) auto
  show ?thesis
    unfolding pop_data_def Let_def
    apply (rule post_bind, rule post_get_stream)
    apply (rule post_if, rule quiet)
     apply (rule post_bind, rule window_rules, (assumption | rule wnd.calm_refl))+
     apply simp
    apply (rule post_if, rule quiet)
     apply (rule post_bind, rule window_rules, rule wnd.calm_refl)
     apply simp
    apply (rule post_bind, rule post_check)
    apply (rule post_if, rule quiet)
     apply (rule post_bind, rule window_rules, rule wnd.calm_refl)
     apply simp
    apply (rule pop_data_paid [OF inv], assumption)
      apply (simp add: data_len held)
     apply (simp add: data_len held)
    subgoal premises p for x s' y
    proof -
      note len = data_len [OF held [OF p(1)], of "min (length (data_data f)) max_len"]
      have "unat (of_nat (min (min (length (data_data f)) max_len) (unat (window_as_size (fc_available (st_send_flow x))))) :: u32) \<le> max_len"
        using len(3) by (rule order.trans) simp
      moreover have "uint (of_nat (min (min (length (data_data f)) max_len) (unat (window_as_size (fc_available (st_send_flow x))))) :: u32)
          \<le> send_window s"
        using len(1) flow_inv_held [OF inv p(1)] inv by (simp add: flow_inv_def del: unread_def)
      ultimately show ?thesis
        using data_paid [OF p(1) len(2) _ p(5) _ p(7-9)] by (simp add: frame_paid_def data_map_def)
    qed
    done
qed

lemma pop_stream_frame_sent:
  assumes inv: "flow_inv 0 q s"
  shows "post (pop_stream_frame E max_len k s) (step_paid max_len s)"
proof -
  have start: "post (frame_pop_front k s) (\<lambda>(f, s1). flow_inv 0 q s1 \<and> wnd.quiet s s1)"
  proof (rule post_both)
    show "post (frame_pop_front k s) (\<lambda>(f, s1). flow_inv 0 q s1)" using inv by (auto intro!: flow_rules)
    show "post (frame_pop_front k s) (\<lambda>(f, s1). wnd.quiet s s1)" by (rule window_rules, rule wnd.calm_refl) simp
  qed
  show ?thesis
    unfolding pop_stream_frame_def
  proof (rule post_bind, rule post_mono [OF start], clarify)
    fix f s1 assume s1: "flow_inv 0 q s1" "wnd.quiet s s1"
    have quiet: "post m (step_paid max_len s)"
      if "post m (\<lambda>(r, s'). (\<forall>v. r \<noteq> PopFrame (FrameData v)) \<and> wnd.quiet s s')" for m
      using that by (rule post_mono) (auto simp: frame_paid_def split: pop_result.splits frame.splits)
    have data: "post (pop_data E max_len v k s1) (step_paid max_len s)" for v
      by (rule post_mono [OF pop_data_sent [OF s1(1)]]) (rule quiet_step_paid [OF s1(2)])
    have promise: "post (pop_push_promise v s1) (wnd.quiet s)" for v
      using s1(2) by (rule pop_push_promise_window)
    show "post (case f of
       Some (FrameData f) \<Rightarrow> pop_data E max_len f k s1
     | Some (FramePushPromise f) \<Rightarrow> do {
         s \<leftarrow> pop_push_promise f s1;
         Some (PopFrame (FramePushPromise f), s)
       }
     | Some f \<Rightarrow> Some (PopFrame (frame_map (\<lambda>b. \<lparr>pd_inner = b, pd_limit = 0, pd_end_of_stream = False, pd_stream = k\<rparr>) f), s1)
     | None \<Rightarrow> do {
         x \<leftarrow> get_stream k s1;
         case get_scheduled_reset (st_state x) of
           Some r \<Rightarrow> Some (PopFrame (FrameReset (reset_new (st_id x) r)), put_stream k (stream_set_reset r Library x) s1)
         | None \<Rightarrow> do {
             _ \<leftarrow> check (is_closed (st_state x));
             Some (PopNone, s1)
           }
       }) (step_paid max_len s)"
    proof (cases f)
      case None
      then show ?thesis
        by (auto intro!: quiet post_bind post_get_stream post_check post_case_option simp: s1(2))
    next
      case (Some g)
      show ?thesis
        by (cases g) (use Some data s1(2) in \<open>auto intro!: quiet post_bind post_mono [OF promise] simp: frame_paid_def\<close>)
    qed
  qed
qed

lemma pop_frame_step_sent:
  assumes inv: "flow_inv 0 q s"
  shows "post (pop_frame_step E max_len s) (step_paid max_len s)"
proof -
  have start: "post (q_pop NextSend s) (\<lambda>(f, s1). flow_inv 0 q s1 \<and> wnd.quiet s s1)"
  proof (rule post_both)
    show "post (q_pop NextSend s) (\<lambda>(f, s1). flow_inv 0 q s1)" using inv by (auto intro!: flow_rules)
    show "post (q_pop NextSend s) (\<lambda>(f, s1). wnd.quiet s s1)" by (rule window_rules, rule wnd.calm_refl) simp
  qed
  have quiet: "post m (step_paid max_len s)" if "post m (\<lambda>(r, s'). r = PopAgain \<and> wnd.quiet s s')" for m
    using that by (rule post_mono) auto
  show ?thesis
    unfolding pop_frame_step_def Let_def
  proof (rule post_bind, rule post_mono [OF start], clarify)
    fix f s1 assume s1: "flow_inv 0 q s1" "wnd.quiet s s1"
    show "post (case f of
         None \<Rightarrow> Some (PopNone, s1)
       | Some k \<Rightarrow> do {
           x \<leftarrow> get_stream k s1;
           (r, s) \<leftarrow> pop_stream_frame E max_len k s1;
           case r of
             PopAgain \<Rightarrow> Some (PopAgain, s)
           | PopNone \<Rightarrow> do {
               s \<leftarrow> after k (is_pending_reset_expiration x) s;
               Some (PopAgain, s)
             }
           | PopFrame f \<Rightarrow> do {
               s \<leftarrow> requeue_sender k s;
               s \<leftarrow> after k (is_pending_reset_expiration x) s;
               Some (PopFrame f, s)
             }
         }) (step_paid max_len s)"
    proof (cases f)
      case (Some k)
      have rest: "post (case r of
             PopAgain \<Rightarrow> Some (PopAgain, s2)
           | PopNone \<Rightarrow> do {
               s \<leftarrow> after k b s2;
               Some (PopAgain, s)
             }
           | PopFrame f \<Rightarrow> do {
               s \<leftarrow> requeue_sender k s2;
               s \<leftarrow> after k b s;
               Some (PopFrame f, s)
             }) (step_paid max_len s)" if "step_paid max_len s (r, s2)" for r s2 b
      proof (cases r)
        case PopNone
        then have "wnd.quiet s s2" using that by simp
        then show ?thesis unfolding PopNone by (auto intro!: post_bind window_rules)
      next
        case (PopFrame g)
        with that have paid: "frame_paid max_len (Some g) s s2" by simp
        show ?thesis
          unfolding PopFrame
          apply (simp, rule post_bind, rule requeue_sender_window, rule wnd.calm_refl)
          apply (rule post_bind, rule wnd.after_steady [OF wnd.quiet_steady], assumption)
          apply (simp add: frame_paid_quiet [OF paid])
          done
      qed (use that in simp)
      have "post (pop_stream_frame E max_len k s1) (step_paid max_len s)"
        by (rule post_mono [OF pop_stream_frame_sent [OF s1(1)]]) (rule quiet_step_paid [OF s1(2)])
      then show ?thesis
        unfolding Some by (auto intro!: post_bind post_get_stream rest elim!: post_mono)
    qed (use s1 in simp)
  qed
qed

text \<open>The whole search for the next frame.\<close>

lemma pop_frame_sent: "flow_inv 0 q s \<Longrightarrow> post (prio_pop_frame E max_len s) (\<lambda>(f, s'). frame_paid max_len f s s')"
proof -
  have "\<forall>E max_len s. flow_inv 0 q s \<longrightarrow> post (prio_pop_frame E max_len s) (\<lambda>(f, s'). frame_paid max_len f s s')"
  proof (rule prio_pop_frame.fixp_induct [OF loop_admissible3]; (intro allI impI)?)
    fix pop :: "env \<Rightarrow> nat \<Rightarrow> streams \<Rightarrow> (prioritized frame option \<times> streams) option" and E max_len s
    assume IH: "\<forall>E max_len s. flow_inv 0 q s \<longrightarrow> post (pop E max_len s) (\<lambda>(f, s'). frame_paid max_len f s s')"
      and inv: "flow_inv 0 q s"
    have rest: "post (case r of
         PopAgain \<Rightarrow> pop E max_len s1
       | PopNone \<Rightarrow> Some (None, s1)
       | PopFrame f \<Rightarrow> Some (Some f, s1)) (\<lambda>(f, s'). frame_paid max_len f s s')"
      if "flow_inv 0 q s1" "step_paid max_len s (r, s1)" for r s1
    proof (cases r)
      case PopAgain
      have "post (pop E max_len s1) (\<lambda>(f, s'). frame_paid max_len f s1 s')" using IH that(1) by blast
      then show ?thesis
        using that(2) unfolding PopAgain by (auto elim!: post_mono intro: quiet_frame_paid)
    qed (use that(2) in \<open>auto simp: frame_paid_def\<close>)
    have "post (pop_frame_step E max_len s) (\<lambda>(r, s'). flow_inv 0 q s')" using inv by (auto intro!: pop_frame_step_flow)
    then have "post (pop_frame_step E max_len s) (\<lambda>(r, s'). flow_inv 0 q s' \<and> step_paid max_len s (r, s'))"
      using pop_frame_step_sent [OF inv, of E max_len] by (cases "pop_frame_step E max_len s") auto
    then show "post (do {
        (r, s) \<leftarrow> pop_frame_step E max_len s;
        case r of
          PopAgain \<Rightarrow> pop E max_len s
        | PopNone \<Rightarrow> Some (None, s)
        | PopFrame f \<Rightarrow> Some (Some f, s)
      }) (\<lambda>(f, s'). frame_paid max_len f s s')"
      by (auto intro!: post_bind rest elim!: post_mono)
  qed simp
  then show "flow_inv 0 q s \<Longrightarrow> post (prio_pop_frame E max_len s) (\<lambda>(f, s'). frame_paid max_len f s s')"
    by blast
qed

end
