(* ===== verification/Connection.thy ===== *)
theory Connection
  imports Streams_User Ping_Pong
begin

text \<open>
  The connection (\<open>src/proto/connection.rs\<close>): its state, the frames it hands to the streams, the SETTINGS, PING and GOAWAY
  exchanges, what becomes of an error, and the loop that drives all of it. Its type parameter \<open>P\<close> is the peer of the
  counters; the codec and the transport are those of \<open>Streams_Inner\<close>. \<open>header_lib\<close> is what the \<open>http\<close> crate decides
  about a header field.
\<close>

section \<open>The state\<close>

datatype conn_state = ConnOpen | ConnClosing reason initiator | ConnClosed reason initiator

record conn_config =
  cc_next_stream_id :: stream_id
  cc_initial_max_send_streams :: nat
  cc_max_send_buffer_size :: nat
  cc_reset_stream_duration :: nat
  cc_reset_stream_max :: nat
  cc_remote_reset_stream_max :: nat
  cc_local_error_reset_streams_max :: "nat option"
  cc_settings :: settings
  cc_data_frame_budget :: data_frame_budget

record connection =
  cn_codec :: "dst \<times> transport"
  cn_state :: conn_state
  cn_error :: "go_away_frame option"
  cn_go_away :: go_away_state
  cn_pending_refusal :: "stream_id option"
  cn_ping_pong :: ping_pong_state
  cn_settings :: settings_sync
  cn_streams :: streams

definition streams_config :: "conn_config \<Rightarrow> config" where
  "streams_config c = \<lparr>
     cfg_initial_max_send_streams = cc_initial_max_send_streams c,
     cfg_local_max_buffer_size = cc_max_send_buffer_size c,
     cfg_local_next_stream_id = cc_next_stream_id c,
     cfg_local_push_enabled = (case settings_is_push_enabled (cc_settings c) of Some b \<Rightarrow> b | None \<Rightarrow> True),
     cfg_extended_connect_protocol_enabled =
       (case settings_is_extended_connect_protocol_enabled (cc_settings c) of Some b \<Rightarrow> b | None \<Rightarrow> False),
     cfg_local_reset_duration = cc_reset_stream_duration c,
     cfg_local_reset_max = cc_reset_stream_max c,
     cfg_remote_reset_max = cc_remote_reset_stream_max c,
     cfg_remote_init_window_sz = DEFAULT_INITIAL_WINDOW_SIZE,
     cfg_remote_max_initiated = map_option unat (set_max_concurrent_streams (cc_settings c)),
     cfg_local_max_error_reset_streams = cc_local_error_reset_streams_max c,
     cfg_data_frame_budget = cc_data_frame_budget c\<rparr>"

definition connection_new :: "dyn \<Rightarrow> dst \<times> transport \<Rightarrow> conn_config \<Rightarrow> connection option" where
  "connection_new peer codec c = do {
     s \<leftarrow> streams_new peer (streams_config c);
     Some \<lparr>cn_codec = codec, cn_state = ConnOpen, cn_error = None, cn_go_away = go_away_state_new,
       cn_pending_refusal = None, cn_ping_pong = ping_pong_new, cn_settings = settings_sync_new (cc_settings c),
       cn_streams = s\<rparr>
   }"

text \<open>An operation on the streams, as part of the connection.\<close>

definition on_streams :: "(streams \<Rightarrow> ('r \<times> streams) option) \<Rightarrow> connection \<Rightarrow> ('r \<times> connection) option" where
  "on_streams f c = do {
     (r, s) \<leftarrow> f (cn_streams c);
     Some (r, c\<lparr>cn_streams := s\<rparr>)
   }"

definition upd_streams :: "(streams \<Rightarrow> streams option) \<Rightarrow> connection \<Rightarrow> connection option" where
  "upd_streams f c = do {
     s \<leftarrow> f (cn_streams c);
     Some (c\<lparr>cn_streams := s\<rparr>)
   }"

section \<open>Settings of the user\<close>

definition conn_set_target_window_size :: "u32 \<Rightarrow> connection \<Rightarrow> connection option" where
  "conn_set_target_window_size sz c = do {
     (r, c) \<leftarrow> on_streams (streams_set_target_connection_window_size sz) c;
     _ \<leftarrow> check (r = Inr ());
     Some c
   }"

definition conn_send_settings :: "settings \<Rightarrow> connection \<Rightarrow> ((user_error + unit) \<times> connection) option" where
  "conn_send_settings v c = do {
     (r, y) \<leftarrow> send_settings v (cn_settings c);
     r \<leftarrow> sum_of r;
     Some (r, c\<lparr>cn_settings := y\<rparr>)
   }"

definition conn_set_initial_window_size :: "u32 \<Rightarrow> connection \<Rightarrow> ((user_error + unit) \<times> connection) option" where
  "conn_set_initial_window_size sz = conn_send_settings (settings_default\<lparr>set_initial_window_size := Some sz\<rparr>)"

definition conn_set_enable_connect_protocol :: "connection \<Rightarrow> ((user_error + unit) \<times> connection) option" where
  "conn_set_enable_connect_protocol = conn_send_settings (settings_default\<lparr>set_enable_connect_protocol := Some 1\<rparr>)"

section \<open>GOAWAY\<close>

definition conn_go_away :: "stream_id \<Rightarrow> reason \<Rightarrow> connection \<Rightarrow> connection option" where
  "conn_go_away i r c = do {
     c \<leftarrow> upd_streams (recv_go_away i) c;
     g \<leftarrow> go_away (go_away_new i r) (cn_go_away c);
     Some (c\<lparr>cn_go_away := g\<rparr>)
   }"

definition conn_last_processed_id :: "connection \<Rightarrow> stream_id" where
  "conn_last_processed_id c = rv_last_processed_id (ss_recv (cn_streams c))"

definition conn_go_away_now :: "reason \<Rightarrow> connection \<Rightarrow> connection option" where
  "conn_go_away_now r c = do {
     g \<leftarrow> go_away_now (go_away_new (conn_last_processed_id c) r) (cn_go_away c);
     Some (c\<lparr>cn_go_away := g\<rparr>)
   }"

definition conn_go_away_now_data :: "reason \<Rightarrow> bytes \<Rightarrow> connection \<Rightarrow> connection option" where
  "conn_go_away_now_data r data c = do {
     g \<leftarrow> go_away_now (go_away_with_debug_data (conn_last_processed_id c) r data) (cn_go_away c);
     Some (c\<lparr>cn_go_away := g\<rparr>)
   }"

definition conn_handle_error :: "proto_error \<Rightarrow> connection \<Rightarrow> connection option" where
  "conn_handle_error e c = map_option snd (on_streams (inner_handle_error e) c)"

definition conn_go_away_from_user :: "reason \<Rightarrow> connection \<Rightarrow> connection option" where
  "conn_go_away_from_user r c = do {
     g \<leftarrow> go_away_from_user (go_away_new (conn_last_processed_id c) r) (cn_go_away c);
     conn_handle_error (user_go_away r) (c\<lparr>cn_go_away := g\<rparr>)
   }"

text \<open>A graceful shutdown names the largest stream first, and pings to learn when the peer has seen it.\<close>

definition conn_go_away_gracefully :: "connection \<Rightarrow> connection option" where
  "conn_go_away_gracefully c =
    (if is_going_away (cn_go_away c) then Some c
     else do {
       c \<leftarrow> conn_go_away STREAM_ID_MAX NO_ERROR c;
       p \<leftarrow> ping_shutdown (cn_ping_pong c);
       Some (c\<lparr>cn_ping_pong := p\<rparr>)
     })"

definition conn_maybe_close_if_no_streams :: "connection \<Rightarrow> connection option" where
  "conn_maybe_close_if_no_streams c =
    (if \<not> streams_has_streams_or_other_references (cn_streams c) then conn_go_away_now NO_ERROR c else Some c)"

section \<open>Errors\<close>

definition conn_handle_go_away :: "reason \<Rightarrow> bytes \<Rightarrow> initiator \<Rightarrow> connection \<Rightarrow> connection option" where
  "conn_handle_go_away r data ini c =
    (if (case gos_going_away (cn_go_away c) of Some g \<Rightarrow> goi_reason g = r | None \<Rightarrow> False)
     then Some (c\<lparr>cn_state := ConnClosing r ini\<rparr>)
     else do {
       c \<leftarrow> conn_handle_error (ErrGoAway data r ini) c;
       conn_go_away_now_data r data c
     })"

definition conn_handle_io_error ::
  "io_error_kind \<Rightarrow> string option \<Rightarrow> connection \<Rightarrow> ((proto_error + unit) \<times> connection) option" where
  "conn_handle_io_error kind inner c = do {
     c \<leftarrow> conn_handle_error (ErrIo kind inner) c;
     if ss_send_buffer (cn_streams c) = (\<lambda>_. None) \<and> kind = UnexpectedEof \<and>
        (dyn_is_server (cnt_peer (ss_counts (cn_streams c))) \<or> map_option ga_error_code (cn_error c) = Some NO_ERROR)
     then Some (Inr (), c\<lparr>cn_state := ConnClosed NO_ERROR Library\<rparr>)
     else Some (Inl (ErrIo kind inner), c)
   }"

definition conn_handle_poll2_result ::
  "env \<Rightarrow> proto_error + unit \<Rightarrow> connection \<Rightarrow> ((proto_error + unit) \<times> connection) option" where
  "conn_handle_poll2_result E result c =
    (case result of
       Inr _ \<Rightarrow> Some (Inr (), c\<lparr>cn_state := ConnClosing NO_ERROR Library\<rparr>)
     | Inl (ErrGoAway data r ini) \<Rightarrow> do {
         c \<leftarrow> conn_handle_go_away r data ini c;
         Some (Inr (), c)
       }
     | Inl (ErrReset i r ini) \<Rightarrow>
         if ini = Remote then Some (Inr (), c)
         else do {
           _ \<leftarrow> check (ini = Library);
           (res, c) \<leftarrow> on_streams (inner_send_reset E i r) c;
           case res of
             Inr _ \<Rightarrow> Some (Inr (), c)
           | Inl (r, data) \<Rightarrow> do {
               c \<leftarrow> conn_handle_go_away r data Library c;
               Some (Inr (), c)
             }
         }
     | Inl (ErrIo kind inner) \<Rightarrow> conn_handle_io_error kind inner c)"

text \<open>The error reported when the connection is closed: theirs, if they gave one.\<close>

definition conn_take_error :: "reason \<Rightarrow> initiator \<Rightarrow> connection \<Rightarrow> (proto_error + unit) \<times> connection" where
  "conn_take_error ours ini c =
    (let (data, theirs) = (case cn_error c of None \<Rightarrow> ([], NO_ERROR) | Some f \<Rightarrow> (ga_debug_data f, ga_error_code f)) in
     (if ours = NO_ERROR \<and> theirs = NO_ERROR then Inr ()
      else if theirs = NO_ERROR then Inl (ErrGoAway [] ours ini)
      else Inl (remote_go_away data theirs),
      c\<lparr>cn_error := None\<rparr>))"

section \<open>Receiving a frame\<close>

datatype received_frame = RfRefused stream_id | RfSettings settings | RfContinue | RfDone

definition outcome_frame :: "recv_outcome \<Rightarrow> received_frame" where
  "outcome_frame r = (case r of Processed \<Rightarrow> RfContinue | Refused i \<Rightarrow> RfRefused i)"

definition conn_recv_ping :: "ping \<Rightarrow> connection \<Rightarrow> connection option" where
  "conn_recv_ping f c = do {
     (status, p) \<leftarrow> recv_ping f (cn_ping_pong c);
     let c = c\<lparr>cn_ping_pong := p\<rparr>;
     if status = Shutdown
     then do {
       _ \<leftarrow> check (is_going_away (cn_go_away c));
       conn_go_away (conn_last_processed_id c) NO_ERROR c
     }
     else Some c
   }"

definition conn_recv_frame ::
  "env \<Rightarrow> bytes frame option \<Rightarrow> connection \<Rightarrow> ((proto_error + received_frame) \<times> connection) option" where
  "conn_recv_frame E f c =
    (case f of
       None \<Rightarrow> do { c \<leftarrow> upd_streams (inner_recv_eof False) c; Some (Inr RfDone, c) }
     | Some (FrameHeaders v) \<Rightarrow>
         question (on_streams (inner_recv_headers E v) c) (\<lambda>r c. Some (Inr (outcome_frame r), c))
     | Some (FrameData v) \<Rightarrow> question (on_streams (inner_recv_data E v) c) (\<lambda>_ c. Some (Inr RfContinue, c))
     | Some (FrameReset v) \<Rightarrow> question (on_streams (inner_recv_reset v) c) (\<lambda>_ c. Some (Inr RfContinue, c))
     | Some (FramePushPromise v) \<Rightarrow>
         question (on_streams (inner_recv_push_promise E v) c) (\<lambda>r c. Some (Inr (outcome_frame r), c))
     | Some (FrameSettings v) \<Rightarrow> Some (Inr (RfSettings v), c)
     | Some (FrameGoAway v) \<Rightarrow>
         question (on_streams (inner_recv_go_away v) c) (\<lambda>_ c. Some (Inr RfContinue, c\<lparr>cn_error := Some v\<rparr>))
     | Some (FramePing v) \<Rightarrow> do { c \<leftarrow> conn_recv_ping v c; Some (Inr RfContinue, c) }
     | Some (FrameWindowUpdate v) \<Rightarrow> question (on_streams (inner_recv_window_update E v) c) (\<lambda>_ c. Some (Inr RfContinue, c))
     | Some (FramePriority _) \<Rightarrow> Some (Inr RfContinue, c))"

section \<open>Polling\<close>

text \<open>\<open>ready!(...)?\<close>\<close>

definition ready_question ::
  "(('e + 'a) poll \<times> 's) option \<Rightarrow> ('a \<Rightarrow> 's \<Rightarrow> (('e + 'b) poll \<times> 's) option) \<Rightarrow> (('e + 'b) poll \<times> 's) option" where
  "ready_question m f = do {
     (r, s) \<leftarrow> m;
     case r of Pending \<Rightarrow> Some (Pending, s) | Ready (Inl e) \<Rightarrow> Some (Ready (Inl e), s) | Ready (Inr x) \<Rightarrow> f x s
   }"

definition poll_sum :: "('a, 'e) outcome poll \<Rightarrow> ('e + 'a) poll option" where
  "poll_sum p = (case p of Pending \<Rightarrow> Some Pending | Ready r \<Rightarrow> map_option Ready (sum_of r))"

definition io_sum :: "io_poll \<Rightarrow> (proto_error + unit) poll" where
  "io_sum p = (case p of IoReady \<Rightarrow> Ready (Inr ()) | IoPending \<Rightarrow> Pending | IoError k m \<Rightarrow> Ready (Inl (ErrIo k m)))"

text \<open>\<open>poll_ready\<close> of the codec, where the code comes to it.\<close>

definition poll_ready_when :: "env \<Rightarrow> bool \<Rightarrow> connection \<Rightarrow> (io_poll \<times> connection) option" where
  "poll_ready_when E b c =
    (if b then do { (p, d) \<leftarrow> dst_poll_ready E (cn_codec c); Some (p, c\<lparr>cn_codec := d\<rparr>) } else Some (IoReady, c))"

fun conn_codec_op :: "env \<Rightarrow> codec_op \<Rightarrow> dst \<Rightarrow> dst option" where
  "conn_codec_op E (SetMaxRecvFrameSize n) d = map_option (\<lambda>c. d\<lparr>ds_codec := c\<rparr>) (codec_set_max_recv_frame_size n (ds_codec d))"
| "conn_codec_op E (SetMaxRecvHeaderListSize n) d =
     map_option (\<lambda>c. d\<lparr>ds_codec := c\<rparr>) (codec_set_max_recv_header_list_size n (ds_codec d))"
| "conn_codec_op E (SetRecvHeaderTableSize n) d = Some (d\<lparr>ds_codec := codec_set_recv_header_table_size n (ds_codec d)\<rparr>)"
| "conn_codec_op E (SetSendHeaderTableSize n) d = Some (d\<lparr>ds_codec := codec_set_send_header_table_size n (ds_codec d)\<rparr>)"
| "conn_codec_op E (SetMaxSendFrameSize n) d = map_option (\<lambda>c. d\<lparr>ds_codec := c\<rparr>) (codec_set_max_send_frame_size n (ds_codec d))"
| "conn_codec_op E (BufferSettings v) d = dst_buffer_frame E (FrameSettings v) d"

text \<open>The calls that a component of the connection makes on the codec, one after the other.\<close>

fun on_codec :: "('o \<Rightarrow> dst \<Rightarrow> dst option) \<Rightarrow> 'o list \<Rightarrow> connection \<Rightarrow> connection option" where
  "on_codec f [] c = Some c"
| "on_codec f (x # xs) c = do {
     let (d, t) = cn_codec c;
     d \<leftarrow> f x d;
     on_codec f xs (c\<lparr>cn_codec := (d, t)\<rparr>)
   }"

text \<open>A method of the streams in the form in which \<open>Settings_Sync\<close> takes it.\<close>

definition streams_apply ::
  "(streams \<Rightarrow> ((proto_error + unit) \<times> streams) option) \<Rightarrow> streams \<Rightarrow> (unit, proto_error) outcome \<times> streams" where
  "streams_apply f s = (case f s of None \<Rightarrow> (Panic, s) | Some (Inl e, s) \<Rightarrow> (Err e, s) | Some (Inr x, s) \<Rightarrow> (Ok x, s))"

definition conn_poll_go_away ::
  "env \<Rightarrow> connection \<Rightarrow> ((proto_error + reason option) poll \<times> connection) option" where
  "conn_poll_go_away E c = do {
     (ready, c) \<leftarrow> poll_ready_when E (gos_pending (cn_go_away c) \<noteq> None) c;
     let (fs, r, g) = send_pending_go_away ready (cn_go_away c);
     c \<leftarrow> on_codec (\<lambda>f. dst_buffer_frame E (FrameGoAway f)) fs (c\<lparr>cn_go_away := g\<rparr>);
     r \<leftarrow> (case r of
            Pending \<Rightarrow> Some Pending
          | Ready None \<Rightarrow> Some (Ready (Inr None))
          | Ready (Some x) \<Rightarrow> map_option (\<lambda>x. Ready (map_sum (\<lambda>e. e) Some x)) (sum_of x));
     Some (r, c)
   }"

definition conn_poll_pong :: "env \<Rightarrow> connection \<Rightarrow> ((proto_error + unit) poll \<times> connection) option" where
  "conn_poll_pong E c = do {
     (ready, c) \<leftarrow> poll_ready_when E (pp_pending_pong (cn_ping_pong c) \<noteq> None) c;
     let (fs, r, p) = send_pending_pong ready (cn_ping_pong c);
     c \<leftarrow> on_codec (\<lambda>f. dst_buffer_frame E (FramePing f)) fs (c\<lparr>cn_ping_pong := p\<rparr>);
     r \<leftarrow> poll_sum r;
     Some (r, c)
   }"

definition ping_to_send :: "ping_pong_state \<Rightarrow> bool" where
  "ping_to_send p =
    (case pp_pending_ping p of
       Some g \<Rightarrow> \<not> pp_sent g
     | None \<Rightarrow> (case pp_user_pings p of Some u \<Rightarrow> up_state u = USER_STATE_PENDING_PING | None \<Rightarrow> False))"

definition conn_poll_ping :: "env \<Rightarrow> waker \<Rightarrow> connection \<Rightarrow> ((proto_error + unit) poll \<times> connection) option" where
  "conn_poll_ping E w c = do {
     (ready, c) \<leftarrow> poll_ready_when E (ping_to_send (cn_ping_pong c)) c;
     let (fs, r, p) = send_pending_ping w ready (cn_ping_pong c);
     c \<leftarrow> on_codec (\<lambda>f. dst_buffer_frame E (FramePing f)) fs (c\<lparr>cn_ping_pong := p\<rparr>);
     r \<leftarrow> poll_sum r;
     Some (r, c)
   }"

text \<open>\<open>settings.poll_send\<close>, in its two parts.\<close>

definition conn_poll_remote_settings :: "env \<Rightarrow> connection \<Rightarrow> ((proto_error + unit) poll \<times> connection) option" where
  "conn_poll_remote_settings E c = do {
     (ready, c) \<leftarrow> poll_ready_when E (sy_remote (cn_settings c) \<noteq> None) c;
     let (ops, r, (y, s)) =
       poll_send_remote (\<lambda>v b. streams_apply (streams_apply_remote_settings E v b)) ready (cn_settings c, cn_streams c);
     c \<leftarrow> on_codec (conn_codec_op E) ops (c\<lparr>cn_settings := y, cn_streams := s\<rparr>);
     r \<leftarrow> poll_sum r;
     Some (r, c)
   }"

definition conn_poll_local_settings :: "env \<Rightarrow> connection \<Rightarrow> ((proto_error + unit) poll \<times> connection) option" where
  "conn_poll_local_settings E c = do {
     (ready, c) \<leftarrow> poll_ready_when E (case sy_local (cn_settings c) of ToSend _ \<Rightarrow> True | _ \<Rightarrow> False) c;
     let (ops, r, y) = poll_send_local ready (cn_settings c);
     c \<leftarrow> on_codec (conn_codec_op E) ops (c\<lparr>cn_settings := y\<rparr>);
     r \<leftarrow> poll_sum r;
     Some (r, c)
   }"

definition conn_poll_refusal :: "env \<Rightarrow> connection \<Rightarrow> ((proto_error + unit) poll \<times> connection) option" where
  "conn_poll_refusal E c =
    (case cn_pending_refusal c of
       None \<Rightarrow> Some (Ready (Inr ()), c)
     | Some i \<Rightarrow> do {
         (p, c) \<leftarrow> poll_ready_when E True c;
         ready_question (Some (io_sum p, c)) (\<lambda>_ c. do {
           (r, c) \<leftarrow> on_streams streams_count_pending_refusal c;
           ready_question (Some (Ready r, c)) (\<lambda>_ c. do {
             c \<leftarrow> on_codec (\<lambda>f. dst_buffer_frame E (FrameReset f)) [reset_new i REFUSED_STREAM] c;
             Some (Ready (Inr ()), c\<lparr>cn_pending_refusal := None\<rparr>)
           })
         })
       })"

definition conn_poll_ready :: "env \<Rightarrow> waker \<Rightarrow> connection \<Rightarrow> ((proto_error + unit) poll \<times> connection) option" where
  "conn_poll_ready E w c =
     ready_question (conn_poll_pong E c) (\<lambda>_ c.
     ready_question (conn_poll_ping E w c) (\<lambda>_ c.
     ready_question (conn_poll_remote_settings E c) (\<lambda>_ c.
     ready_question (conn_poll_local_settings E c) (\<lambda>_ c.
     conn_poll_refusal E c))))"

definition conn_poll_frame ::
  "header_lib \<Rightarrow> connection \<Rightarrow> ((proto_error + bytes frame option) poll \<times> connection) option" where
  "conn_poll_frame L c = do {
     let (d, t) = cn_codec c;
     let (r, codec, items) = codec_poll_next L (ds_codec d) (tr_reads t);
     let c = c\<lparr>cn_codec := (d\<lparr>ds_codec := codec\<rparr>, t\<lparr>tr_reads := items\<rparr>)\<rparr>;
     case r of
       Pending \<Rightarrow> Some (Pending, c)
     | Ready None \<Rightarrow> Some (Ready (Inr None), c)
     | Ready (Some x) \<Rightarrow> do { x \<leftarrow> sum_of x; Some (Ready (map_sum (\<lambda>e. e) Some x), c) }
   }"

definition conn_recv_settings :: "env \<Rightarrow> settings \<Rightarrow> connection \<Rightarrow> ((proto_error + unit) \<times> connection) option" where
  "conn_recv_settings E v c = do {
     (ops, r, (y, s)) \<leftarrow> recv_settings (\<lambda>l. streams_apply (recv_apply_local_settings l)) v (cn_settings c, cn_streams c);
     c \<leftarrow> on_codec (conn_codec_op E) ops (c\<lparr>cn_settings := y, cn_streams := s\<rparr>);
     r \<leftarrow> sum_of r;
     Some (r, c)
   }"

text \<open>One round of the loop of \<open>poll2\<close>. A value besides the error tells whether the loop ends.\<close>

definition poll2_dispatch ::
  "env \<Rightarrow> received_frame \<Rightarrow> connection \<Rightarrow> ((proto_error + loop_flow) poll \<times> connection) option" where
  "poll2_dispatch E f c =
    (case f of
       RfSettings v \<Rightarrow> do {
         (r, c) \<leftarrow> conn_recv_settings E v c;
         Some (Ready (map_sum (\<lambda>e. e) (\<lambda>_. Again) r), c)
       }
     | RfRefused i \<Rightarrow> do {
         _ \<leftarrow> check (cn_pending_refusal c = None);
         Some (Ready (Inr Again), c\<lparr>cn_pending_refusal := Some i\<rparr>)
       }
     | RfContinue \<Rightarrow> Some (Ready (Inr Again), c)
     | RfDone \<Rightarrow> Some (Ready (Inr Finished), c))"

definition poll2_read :: "env \<Rightarrow> header_lib \<Rightarrow> waker \<Rightarrow> connection \<Rightarrow> ((proto_error + loop_flow) poll \<times> connection) option" where
  "poll2_read E L w c =
     ready_question (conn_poll_ready E w c) (\<lambda>_ c.
     ready_question (conn_poll_frame L c) (\<lambda>f c. do {
       (r, c) \<leftarrow> conn_recv_frame E f c;
       ready_question (Some (Ready r, c)) (poll2_dispatch E)
     }))"

definition poll2_step :: "env \<Rightarrow> header_lib \<Rightarrow> waker \<Rightarrow> connection \<Rightarrow> ((proto_error + loop_flow) poll \<times> connection) option" where
  "poll2_step E L w c =
     ready_question (conn_poll_go_away E c) (\<lambda>r c.
       case r of
         None \<Rightarrow> poll2_read E L w c
       | Some r \<Rightarrow>
           if should_close_now (cn_go_away c)
           then Some (Ready (if gos_is_user_initiated (cn_go_away c) then Inr Finished else Inl (library_go_away r)), c)
           else do {
             _ \<leftarrow> check (r = NO_ERROR);
             poll2_read E L w c
           })"

partial_function (option) poll2_loop ::
  "env \<Rightarrow> header_lib \<Rightarrow> waker \<Rightarrow> connection \<Rightarrow> ((proto_error + unit) poll \<times> connection) option" where
  "poll2_loop E L w c = do {
     (r, c) \<leftarrow> poll2_step E L w c;
     case r of
       Pending \<Rightarrow> Some (Pending, c)
     | Ready (Inl e) \<Rightarrow> Some (Ready (Inl e), c)
     | Ready (Inr Finished) \<Rightarrow> Some (Ready (Inr ()), c)
     | Ready (Inr Again) \<Rightarrow> poll2_loop E L w c
   }"

definition conn_poll2 :: "env \<Rightarrow> header_lib \<Rightarrow> waker \<Rightarrow> connection \<Rightarrow> ((proto_error + unit) poll \<times> connection) option" where
  "conn_poll2 E L w c = do {
     c \<leftarrow> upd_streams (recv_clear_expired_reset_streams E) c;
     poll2_loop E L w c
   }"

text \<open>One round of the loop of \<open>poll\<close>; \<open>None\<close> as result: go on.\<close>

definition poll_pending ::
  "env \<Rightarrow> waker \<Rightarrow> connection \<Rightarrow> ((proto_error + unit) poll option \<times> connection) option" where
  "poll_pending E w c = do {
     (p, (s, d)) \<leftarrow> streams_poll_complete E w (cn_streams c, cn_codec c);
     let c = c\<lparr>cn_streams := s, cn_codec := d\<rparr>;
     if p \<noteq> IoReady then Some (Some (io_sum p), c)
     else if (cn_error c \<noteq> None \<or> should_close_on_idle (cn_go_away c)) \<and> \<not> streams_has_streams (cn_streams c)
     then do { c \<leftarrow> conn_go_away_now NO_ERROR c; Some (None, c) }
     else Some (Some Pending, c)
   }"

definition poll_step ::
  "env \<Rightarrow> header_lib \<Rightarrow> waker \<Rightarrow> connection \<Rightarrow> ((proto_error + unit) poll option \<times> connection) option" where
  "poll_step E L w c =
    (case cn_state c of
       ConnOpen \<Rightarrow> do {
         (r, c) \<leftarrow> conn_poll2 E L w c;
         case r of
           Pending \<Rightarrow> poll_pending E w c
         | Ready result \<Rightarrow> do {
             (r, c) \<leftarrow> conn_handle_poll2_result E result c;
             Some (case r of Inl e \<Rightarrow> Some (Ready (Inl e)) | Inr _ \<Rightarrow> None, c)
           }
       }
     | ConnClosing r ini \<Rightarrow> do {
         (p, d) \<leftarrow> dst_shutdown E (cn_codec c);
         let c = c\<lparr>cn_codec := d\<rparr>;
         if p \<noteq> IoReady then Some (Some (io_sum p), c)
         else Some (None, c\<lparr>cn_state := ConnClosed r ini\<rparr>)
       }
     | ConnClosed r ini \<Rightarrow> (case conn_take_error r ini c of (res, c) \<Rightarrow> Some (Some (Ready res), c)))"

partial_function (option) conn_poll ::
  "env \<Rightarrow> header_lib \<Rightarrow> waker \<Rightarrow> connection \<Rightarrow> ((proto_error + unit) poll \<times> connection) option" where
  "conn_poll E L w c = do {
     (r, c) \<leftarrow> poll_step E L w c;
     case r of Some p \<Rightarrow> Some (p, c) | None \<Rightarrow> conn_poll E L w c
   }"

definition conn_drop :: "connection \<Rightarrow> connection option" where
  "conn_drop c = upd_streams (inner_recv_eof True) c"

end
