(* ===== verification/Streams_Sample.thy ===== *)
theory Streams_Sample
  imports Connection "HOL-Library.Code_Target_Numeral"
begin

text \<open>
  A concrete connection that the examples start from: a server that answers one request. The request is accepted, the response and
  three bytes of its body are queued, and five bytes of a request body have arrived.
\<close>

definition sample_env :: env where
  "sample_env = \<lparr>ev_frame_key = (\<lambda>b. if b 0 = None then 0 else if b 1 = None then 1 else 2),
     ev_event_key = (\<lambda>b. if b 0 = None then 0 else if b 1 = None then 1 else 2),
     ev_stream_key = (\<lambda>m. if m 0 = None then 0 else 1), ev_now = 0, ev_fnv = (\<lambda>_. 0), ev_grow = (\<lambda>n m. m),
     ev_authority = (\<lambda>_. True), ev_scheme = (\<lambda>_. True), ev_path = (\<lambda>_. True), ev_request = (\<lambda>_. True)\<rparr>"

definition sample_config :: conn_config where
  "sample_config = \<lparr>cc_next_stream_id = StreamId 2, cc_initial_max_send_streams = 10, cc_max_send_buffer_size = 100,
     cc_reset_stream_duration = 30, cc_reset_stream_max = 10, cc_remote_reset_stream_max = 20,
     cc_local_error_reset_streams_max = Some 100, cc_settings = settings_default, cc_data_frame_budget = BudgetAuto\<rparr>"

definition sample_request :: headers_frame where
  "sample_request = headers_new (StreamId 1)
     (pseudo_request (ascii ''POST'') \<lparr>uri_scheme = Some (ascii ''https''), uri_authority = Some (ascii ''a''),
        uri_path_and_query = Some (ascii ''/'')\<rparr> None) []"

definition sample_key :: key where
  "sample_key = \<lparr>key_index = 0, key_stream_id = StreamId 1\<rparr>"

definition sample_run :: "streams option" where
  "sample_run = do {
     s \<leftarrow> streams_new Server (streams_config sample_config);
     (_, s) \<leftarrow> inner_recv_headers sample_env sample_request s;
     (_, s) \<leftarrow> streams_next_incoming s;
     f \<leftarrow> data_new (StreamId 1) [1, 2, 3, 4, 5];
     (_, s) \<leftarrow> inner_recv_data sample_env f s;
     (_, s) \<leftarrow> ref_send_response sample_env \<lparr>rs_status = 200, rs_fields = []\<rparr> False sample_key s;
     (_, s) \<leftarrow> ref_send_data sample_env [1, 2, 3] False sample_key s;
     Some s
   }"

lemma run_step:
  "Option.bind m (\<lambda>(r, s). f r s) = Some t \<Longrightarrow> (\<And>r s. m = Some (r, s) \<Longrightarrow> f r s = Some t \<Longrightarrow> Q) \<Longrightarrow> Q"
  by (cases m) auto

lemma run_value: "Option.bind m f = Some t \<Longrightarrow> (\<And>x. m = Some x \<Longrightarrow> f x = Some t \<Longrightarrow> Q) \<Longrightarrow> Q"
  by (cases m) auto

section \<open>A push promise that cannot be converted\<close>

text \<open>
  \<open>send_push_promise\<close> (\<open>src/proto/streams/streams.rs\<close>) inserts the promised stream before it converts the request; when the
  conversion fails, the promised stream stays in the store with no handle and in no queue, so nothing removes it before the connection
  ends. Both a POST request and one that declares content are refused this way.
\<close>

definition sample_post :: request where
  "sample_post = \<lparr>rq_is_http2 = True, rq_method = ascii ''POST'',
     rq_uri = \<lparr>uri_scheme = Some (ascii ''https''), uri_authority = Some (ascii ''a''), uri_path_and_query = Some (ascii ''/'')\<rparr>,
     rq_protocol = None, rq_fields = []\<rparr>"

lemma sample_post_refused: "server_convert_push_message i promised sample_post = Some (Inl MalformedHeaders)"
proof -
  have "ascii ''POST'' \<noteq> ascii ''GET''" "ascii ''POST'' \<noteq> ascii ''HEAD''" by code_simp+
  then show ?thesis
    by (simp add: server_convert_push_message_def validate_request_def sample_post_def header_get_all_def safe_and_cacheable_def)
qed

lemma refused_push_promise_keeps_stream:
  "case do { s \<leftarrow> sample_run; ref_send_push_promise sample_env sample_post sample_key s } of
     Some (Inl e, s) \<Rightarrow> e = MalformedHeaders \<and> map_of (sto_ids (ss_store s)) (StreamId 2) = Some 1 \<and>
       map_option (\<lambda>x. (st_ref_count x, st_is_pending_send x, st_is_pending_accept x, st_is_pending_open x,
         st_is_pending_window_update x, st_is_pending_send_capacity x)) (sto_slab (ss_store s) 1) = Some (0, False, False, False, False, False)
   | _ \<Rightarrow> False"
  unfolding ref_send_push_promise_def sample_post_refused by code_simp

section \<open>A remote reset of a stream that was reset locally\<close>

text \<open>
  \<open>recv_reset\<close> (\<open>src/proto/streams/recv.rs\<close>) counts a reset of a stream that waits to be accepted also when the stream
  was reset by this endpoint before; its state does not change then, so \<open>next_incoming\<close>, which looks at the state, does not take
  it off the count again. In the run below the endpoint resets the stream and writes its RST_STREAM before that of the peer arrives;
  after the stream was accepted nothing waits to be accepted and the count is one.
\<close>

declare drop_frames.simps [code] assign_capacity_loop.simps [code] prio_pop_frame.simps [code]

lemma remote_reset_count_leaks:
  "case do {
     s \<leftarrow> streams_new Server (streams_config sample_config);
     (_, s) \<leftarrow> inner_recv_headers sample_env sample_request s;
     (_, s) \<leftarrow> inner_send_reset sample_env (StreamId 1) PROTOCOL_ERROR s;
     (_, s) \<leftarrow> prio_pop_frame sample_env 16384 s;
     (_, s) \<leftarrow> inner_recv_reset (reset_new (StreamId 1) CANCEL) s;
     streams_next_incoming s } of
   Some (k, s) \<Rightarrow> k = Some sample_key \<and> cnt_num_remote_reset_streams (ss_counts s) = 1 \<and> get_queue NextAccept s = None
   | None \<Rightarrow> False"
  by code_simp

section \<open>A scheduled reset that is never written\<close>

text \<open>
  The case of \<open>transition_after\<close> (\<open>src/proto/streams/counts.rs\<close>) that \<open>counters_count_streams\<close> accounts for
  separately. The peer leaves its window for the response closed; the server accepts the request,
  queues a whole response and drops its handles, which schedules a NO_ERROR reset behind the DATA that waits
  for window. The reset expires before it was written: the stream is not closed, its DATA being still
  queued, so \<open>transition_after\<close> does not count the expired reset down. Then the peer resets the stream, which
  drops its DATA: now the stream is closed and released, but a stream with a scheduled reset is not
  uncounted. In the end no stream is left, and both counters are one.
\<close>

declare expire_resets.simps [code] cancel_promises.simps [code] drop_events.simps [code]

lemma scheduled_reset_count_leaks:
  "case do {
     s \<leftarrow> streams_new Server (streams_config sample_config);
     (_, s) \<leftarrow> streams_apply_remote_settings sample_env (settings_default\<lparr>set_initial_window_size := Some 0\<rparr>) True s;
     (_, s) \<leftarrow> inner_recv_headers sample_env sample_request s;
     (_, s) \<leftarrow> streams_next_incoming s;
     (_, s) \<leftarrow> ref_send_response sample_env \<lparr>rs_status = 200, rs_fields = []\<rparr> False sample_key s;
     (_, s) \<leftarrow> ref_send_data sample_env [1, 2, 3] True sample_key s;
     s \<leftarrow> drop_stream_ref sample_env sample_key s;
     (_, s) \<leftarrow> prio_pop_frame sample_env 16384 s;
     (_, s) \<leftarrow> prio_pop_frame sample_env 16384 s;
     s \<leftarrow> recv_clear_expired_reset_streams (sample_env\<lparr>ev_now := 100\<rparr>) s;
     inner_recv_reset (reset_new (StreamId 1) CANCEL) s } of
   Some (Inr _, s) \<Rightarrow> sto_ids (ss_store s) = [] \<and> sto_slab (ss_store s) 0 = None \<and>
     cnt_num_recv_streams (ss_counts s) = 1 \<and> cnt_num_local_reset_streams (ss_counts s) = 1
   | _ \<Rightarrow> False"
  by code_simp

end
