(* ===== verification/Streams_Steps.thy ===== *)
theory Streams_Steps
  imports Connection
begin

text \<open>
  The streams of a connection as a transition system. One step is one operation that takes the lock: a frame that was received, an
  error, a write, or a call of the user on a handle, in any order and on any stream; the environment (clock, slab keys) may differ from
  step to step.
\<close>

section \<open>Steps\<close>

inductive streams_step :: "streams \<Rightarrow> streams \<Rightarrow> bool" where
  step_recv_headers: "inner_recv_headers E hf s = Some (r, s') \<Longrightarrow> streams_step s s'"
| step_recv_data: "inner_recv_data E df s = Some (r, s') \<Longrightarrow> streams_step s s'"
| step_recv_reset: "inner_recv_reset rf s = Some (r, s') \<Longrightarrow> streams_step s s'"
| step_recv_window_update:
    "uint (wu_size_increment wu) < 2 ^ 31 \<Longrightarrow> inner_recv_window_update E wu s = Some (r, s') \<Longrightarrow> streams_step s s'"
| step_recv_go_away: "inner_recv_go_away gf s = Some (r, s') \<Longrightarrow> streams_step s s'"
| step_recv_push_promise: "inner_recv_push_promise E pf s = Some (r, s') \<Longrightarrow> streams_step s s'"
| step_recv_eof: "inner_recv_eof b s = Some s' \<Longrightarrow> streams_step s s'"
| step_handle_error: "inner_handle_error e s = Some (r, s') \<Longrightarrow> streams_step s s'"
| step_inner_send_reset: "inner_send_reset E i rs s = Some (r, s') \<Longrightarrow> streams_step s s'"
| step_clear_expired: "recv_clear_expired_reset_streams E s = Some s' \<Longrightarrow> streams_step s s'"
| step_poll_complete: "streams_poll_complete E w (s, dt) = Some (r, (s', dt')) \<Longrightarrow> streams_step s s'"
| step_remote_settings: "streams_apply_remote_settings E v b s = Some (r, s') \<Longrightarrow> streams_step s s'"
| step_local_settings: "recv_apply_local_settings v s = Some (r, s') \<Longrightarrow> streams_step s s'"
| step_target_window: "streams_set_target_connection_window_size n s = Some (r, s') \<Longrightarrow> streams_step s s'"
| step_pending_refusal: "streams_count_pending_refusal s = Some (r, s') \<Longrightarrow> streams_step s s'"
| step_send_go_away: "recv_go_away i s = Some s' \<Longrightarrow> streams_step s s'"
| step_clone: "streams_step s (streams_clone s)"
| step_drop: "streams_drop s = Some s' \<Longrightarrow> streams_step s s'"
| step_next_incoming: "streams_next_incoming s = Some (r, s') \<Longrightarrow> streams_step s s'"
| step_send_request: "streams_send_request E rq b pending s = Some (r, s') \<Longrightarrow> streams_step s s'"
| step_poll_pending_open: "streams_poll_pending_open w pending s = Some (r, s') \<Longrightarrow> streams_step s s'"
| step_ref_clone: "opaque_ref_clone k s = Some s' \<Longrightarrow> streams_step s s'"
| step_ref_drop: "drop_stream_ref E k s = Some s' \<Longrightarrow> streams_step s s'"
| step_send_data: "ref_send_data E bs b k s = Some (r, s') \<Longrightarrow> streams_step s s'"
| step_send_trailers: "ref_send_trailers E m k s = Some (r, s') \<Longrightarrow> streams_step s s'"
| step_send_reset: "ref_send_reset E rs k s = Some s' \<Longrightarrow> streams_step s s'"
| step_send_informational: "ref_send_informational_headers E hf k s = Some (r, s') \<Longrightarrow> streams_step s s'"
| step_send_response: "ref_send_response E rp b k s = Some (r, s') \<Longrightarrow> streams_step s s'"
| step_send_push_promise: "ref_send_push_promise E rq k s = Some (r, s') \<Longrightarrow> streams_step s s'"
| step_reserve_capacity: "ref_reserve_capacity n k s = Some s' \<Longrightarrow> streams_step s s'"
| step_poll_capacity: "ref_poll_capacity w k s = Some (r, s') \<Longrightarrow> streams_step s s'"
| step_poll_reset: "ref_poll_reset w mode k s = Some (r, s') \<Longrightarrow> streams_step s s'"
| step_take_request: "ref_take_request k s = Some (r, s') \<Longrightarrow> streams_step s s'"
| step_poll_pushed: "opaque_poll_pushed w k s = Some (r, s') \<Longrightarrow> streams_step s s'"
| step_poll_data: "opaque_poll_data E w k s = Some (r, s') \<Longrightarrow> streams_step s s'"
| step_poll_response: "opaque_poll_response w k s = Some (r, s') \<Longrightarrow> streams_step s s'"
| step_poll_informational: "opaque_poll_informational E w k s = Some (r, s') \<Longrightarrow> streams_step s s'"
| step_poll_trailers: "opaque_poll_trailers E w k s = Some (r, s') \<Longrightarrow> streams_step s s'"
| step_release_capacity: "opaque_release_capacity n k s = Some (r, s') \<Longrightarrow> streams_step s s'"
| step_clear_recv_buffer: "opaque_clear_recv_buffer k s = Some s' \<Longrightarrow> streams_step s s'"

inductive streams_reachable :: "streams \<Rightarrow> bool" where
  reach_new: "streams_new peer (streams_config c) = Some s \<Longrightarrow> streams_reachable s"
| reach_step: "streams_reachable s \<Longrightarrow> streams_step s s' \<Longrightarrow> streams_reachable s'"

end
