(* ===== verification/Flow_Reach.thy ===== *)
theory Flow_Reach
  imports Flow_Streams Flow_Sent Streams_Sample Streams_Steps
begin

text \<open>
  In every state that the streams of a connection can reach (\<open>Streams_Steps\<close>) the flow control accounts balance.
\<close>

section \<open>The invariant\<close>

lemma result_inv: "m = Some (r, s') \<Longrightarrow> post m (\<lambda>(r, s'). I s') \<Longrightarrow> I s'"
  by simp

lemma state_inv: "m = Some s' \<Longrightarrow> post m I \<Longrightarrow> I s'"
  by simp

lemma write_inv: "m = Some (r, (s', dt')) \<Longrightarrow> post m (\<lambda>(r, sdt). I (fst sdt)) \<Longrightarrow> I s'"
  by simp

lemma streams_step_flow: "streams_step s s' \<Longrightarrow> flow_inv 0 q s \<Longrightarrow> flow_inv 0 q s'"
  by (induction rule: streams_step.induct)
    (erule state_inv result_inv write_inv,
      (auto intro!: post_rules simp: ref_reserve_capacity_def send_reserve_capacity_def ref_poll_capacity_def ref_poll_reset_def
        ref_take_request_def opaque_poll_response_def opaque_poll_informational_def opaque_poll_trailers_def; fail)
    | simp add: streams_clone_def)+

lemma prioritize_new_flow:
  "prioritize_new (streams_config c) = Some p \<Longrightarrow>
    win_int (fc_window_size (pz_flow p)) = 65535 \<and> win_int (fc_available (pz_flow p)) = 65535"
  by (auto simp: prioritize_new_def bind_eq_Some_conv assert_ok_Some streams_config_def flow_new_def DEFAULT_INITIAL_WINDOW_SIZE_def
      dest!: assign_capacity_Ok inc_window_Ok)

lemma streams_new_flow: "streams_new peer (streams_config c) = Some s \<Longrightarrow> flow_inv 0 0 s"
  by (auto simp: streams_new_def send_new_def recv_new_def bind_eq_Some_conv flow_inv_def store_total_def store_new_def
      send_avail_def send_window_def conn_unread_def dest!: prioritize_new_flow)

lemma reachable_flow: "streams_reachable s \<Longrightarrow> flow_inv 0 0 s"
  by (induction rule: streams_reachable.induct) (auto intro: streams_new_flow streams_step_flow)


section \<open>Properties\<close>

lemma sample_reachable: "sample_run = Some s \<Longrightarrow> streams_reachable s"
  unfolding sample_run_def
  apply (erule run_value, drule reach_new)
  apply (erule run_step, drule (1) reach_step [OF _ step_recv_headers])
  apply (erule run_step, drule (1) reach_step [OF _ step_next_incoming])
  apply (erule run_value)
  apply (erule run_step, drule (1) reach_step [OF _ step_recv_data])
  apply (erule run_step, drule (1) reach_step [OF _ step_send_response])
  apply (erule run_step, drule (1) reach_step [OF _ step_send_data])
  apply simp
  done

lemma sample_run_facts:
  "map_option (\<lambda>s. (map_option held (slab s 0), send_avail s, map_option unread (slab s 0), conn_unread s)) sample_run =
    Some (Some 3, 65532, Some 5, 5)"
  by code_simp

lemma sample_state:
  obtains s x where "sample_run = Some s" "streams_reachable s" "slab s 0 = Some x" "held x = 3" "unread x = 5" "conn_unread s = 5"
    "send_avail s = 65532"
  using sample_run_facts sample_reachable by (cases sample_run) (auto simp del: held_def unread_def)

text \<open>C1: in every reachable state the capacity that the streams hold and the capacity that the connection has not assigned are not
  negative, and together they do not exceed the window of the connection; so no stream holds more than that window, which is what the
  assertion before a DATA frame is sent requires.\<close>

theorem send_capacity_conserved:
  assumes "streams_reachable s"
  shows "store_total held (slab s) + send_avail s \<le> send_window s \<and> 0 \<le> send_avail s \<and>
    (\<forall>n x. slab s n = Some x \<longrightarrow>
      0 \<le> held x \<and> window_as_size (fc_available (st_send_flow x)) \<le> flow_window_size (pz_flow (prio s)))"
proof -
  note inv = reachable_flow [OF assms]
  have "0 \<le> held x \<and> window_as_size (fc_available (st_send_flow x)) \<le> flow_window_size (pz_flow (prio s))"
    if x: "slab s n = Some x" for n x
  proof -
    have "held x \<le> store_total held (slab s)" "0 \<le> held x"
      using inv x by (auto simp: flow_inv_def simp del: held_def intro!: le_store_total)
    then show ?thesis
      using inv by (simp add: flow_inv_def word_le_def uint_as_size flow_window_size_def send_window_def max_def)
  qed
  then show ?thesis using inv by (simp add: flow_inv_def)
qed

lemma send_capacity_conserved_witness:
  "\<exists>s x. streams_reachable s \<and> slab s 0 = Some x \<and> held x = 3 \<and> store_total held (slab s) + 65532 \<le> send_window s"
proof -
  obtain s x where s: "streams_reachable s" "slab s 0 = Some x" "held x = 3" "send_avail s = 65532" by (rule sample_state)
  then show ?thesis using send_capacity_conserved [OF s(1)] by auto
qed

text \<open>C3: in every reachable state the bytes that the streams count as received and not released are covered by what the connection
  counts, so releasing the capacity of a stream never underflows the count of the connection.\<close>

theorem unread_data_accounted:
  assumes "streams_reachable s"
  shows "store_total unread (slab s) \<le> conn_unread s \<and>
    (\<forall>n x. slab s n = Some x \<longrightarrow> st_in_flight_recv_data x \<le> rv_in_flight_data (ss_recv s))"
proof -
  note inv = reachable_flow [OF assms]
  have "st_in_flight_recv_data x \<le> rv_in_flight_data (ss_recv s)" if x: "slab s n = Some x" for n x
  proof -
    have "unread x \<le> store_total unread (slab s)"
      using inv x by (intro le_store_total) (auto simp: flow_inv_def)
    then show ?thesis
      using inv by (simp add: flow_inv_def conn_unread_def word_le_def)
  qed
  then show ?thesis using inv by (simp add: flow_inv_def)
qed

lemma unread_data_accounted_witness:
  "\<exists>s x. streams_reachable s \<and> slab s 0 = Some x \<and> unread x = 5 \<and> 5 \<le> rv_in_flight_data (ss_recv s)"
proof -
  obtain s x where s: "streams_reachable s" "slab s 0 = Some x" "unread x = 5" by (rule sample_state)
  moreover have "st_in_flight_recv_data x = 5" using s(3) by (simp add: word_uint_eq_iff)
  ultimately show ?thesis using unread_data_accounted [OF s(1)] by metis
qed

text \<open>C2: in every state whose accounts balance, the search for the next frame obeys flow control: a DATA frame is not longer than the
  frame size asked for, the window of its stream and the window of the connection, and it lowers both windows by its length and no
  other window; any other frame, and finding none, leaves all windows as they are.\<close>

theorem data_frames_within_windows:
  assumes "flow_inv 0 q s" "prio_pop_frame E max_len s = Some (f, s')"
  shows "frame_paid max_len f s s'"
  using postD [OF pop_frame_sent [OF assms(1)] assms(2)] by simp

lemma sample_pop:
  "case do { s \<leftarrow> sample_run; (_, s) \<leftarrow> prio_pop_frame sample_env 2 s; prio_pop_frame sample_env 2 s } of
     Some (Some (FrameData v), _) \<Rightarrow> pd_limit (data_data v) = 2 | _ \<Rightarrow> False"
  by (subst (1 2) prio_pop_frame.simps) code_simp

lemma data_frames_within_windows_witness:
  "\<exists>s v s'. flow_inv 0 0 s \<and> prio_pop_frame sample_env 2 s = Some (Some (FrameData v), s') \<and>
     pd_limit (data_data v) = 2 \<and> frame_paid 2 (Some (FrameData v)) s s'"
proof -
  obtain s where s: "sample_run = Some s" by (rule sample_state)
  then have "flow_inv 0 0 s" by (intro reachable_flow sample_reachable)
  moreover obtain g s1 where first: "prio_pop_frame sample_env 2 s = Some (g, s1)"
    using sample_pop unfolding s by (cases "prio_pop_frame sample_env 2 s") auto
  ultimately have "flow_inv 0 0 s1" using postD [OF pop_frame_flow [of 0 s "\<lambda>(r, s'). flow_inv 0 0 s'"] first] by auto
  moreover obtain f s2 where second: "prio_pop_frame sample_env 2 s1 = Some (f, s2)"
    using sample_pop unfolding s by (cases "prio_pop_frame sample_env 2 s1") (auto simp: first)
  moreover obtain v where "f = Some (FrameData v)" "pd_limit (data_data v) = 2"
    using sample_pop unfolding s by (cases f; cases "the f") (auto simp: first second)
  ultimately show ?thesis
    using data_frames_within_windows [OF _ second] by blast
qed

end
