(* ===== verification/Codec_Types.thy ===== *)
theory Codec_Types
  imports Codec_Sound
begin

text \<open>
  What holds of the fields of a frame that the decoder accepts: identifiers of 31 bits, not zero where the frame belongs to a stream, no
  stream that depends on itself, increments and settings within the ranges of RFC 9113.
\<close>

section \<open>Typed frames\<close>

definition sid_stream :: "stream_id \<Rightarrow> bool" where
  "sid_stream i \<longleftrightarrow> sid_valid i \<and> i \<noteq> STREAM_ID_ZERO"

definition settings_typed :: "settings \<Rightarrow> bool" where
  "settings_typed v \<longleftrightarrow>
     (\<forall>n. set_enable_push v = Some n \<longrightarrow> n = 0 \<or> n = 1) \<and>
     (\<forall>n. set_enable_connect_protocol v = Some n \<longrightarrow> n = 0 \<or> n = 1) \<and>
     (\<forall>n. set_initial_window_size v = Some n \<longrightarrow> unat n < 2 ^ 31) \<and>
     (\<forall>n. set_max_frame_size v = Some n \<longrightarrow> 2 ^ 14 \<le> unat n \<and> unat n < 2 ^ 24)"

fun cont_typed :: "continuable \<Rightarrow> bool" where
  "cont_typed (ContHeaders f) \<longleftrightarrow> sid_stream (hf_stream_id f) \<and>
     (\<forall>d. hf_stream_dep f = Some d \<longrightarrow> sid_valid (dep_id d) \<and> dep_id d \<noteq> hf_stream_id f)"
| "cont_typed (ContPushPromise f) \<longleftrightarrow> sid_stream (pp_stream_id f) \<and> sid_valid (pp_promised_id f)"

fun frame_typed :: "bytes frame \<Rightarrow> bool" where
  "frame_typed (FrameData f) \<longleftrightarrow> sid_stream (data_stream_id f)"
| "frame_typed (FrameHeaders f) \<longleftrightarrow> cont_typed (ContHeaders f) \<and> hf_is_end_headers (hf_flags f)"
| "frame_typed (FramePriority f) \<longleftrightarrow> sid_stream (prio_stream_id f) \<and> sid_valid (dep_id (prio_dependency f)) \<and>
     dep_id (prio_dependency f) \<noteq> prio_stream_id f"
| "frame_typed (FramePushPromise f) \<longleftrightarrow> cont_typed (ContPushPromise f) \<and> pp_is_end_headers (pp_flags f)"
| "frame_typed (FrameSettings v) \<longleftrightarrow> settings_typed v"
| "frame_typed (FramePing f) \<longleftrightarrow> length (ping_payload f) = 8"
| "frame_typed (FrameGoAway f) \<longleftrightarrow> sid_valid (ga_last_stream_id f)"
| "frame_typed (FrameWindowUpdate f) \<longleftrightarrow> sid_valid (wu_stream_id f) \<and> 0 < unat (wu_size_increment f) \<and>
     unat (wu_size_increment f) < 2 ^ 31"
| "frame_typed (FrameReset f) \<longleftrightarrow> sid_valid (rst_stream_id f)"

definition partial_typed :: "frame_decoder \<Rightarrow> bool" where
  "partial_typed fd \<longleftrightarrow> (\<forall>p. fd_partial fd = Some p \<longrightarrow> cont_typed (part_frame p))"

section \<open>Loading\<close>

lemma head_parse_typed: "head_parse b = Some h \<Longrightarrow> sid_valid (hd_stream_id h)"
  by (auto simp: head_parse_def dest: stream_id_parse_valid split: if_splits option.splits)

lemma sid_zero: "sid_is_zero i \<longleftrightarrow> i = STREAM_ID_ZERO"
  by (cases i) (simp add: sid_is_zero_def STREAM_ID_ZERO_def)

lemma dependency_typed: "stream_dependency_load b = Ok d \<Longrightarrow> sid_valid (dep_id d)"
  by (auto simp: stream_dependency_load_def bind_outcome_Ok_iff dest: stream_id_parse_valid split: if_splits)

lemma headers_load_typed: "headers_load h b = Ok (f, p) \<Longrightarrow> sid_valid (hd_stream_id h) \<Longrightarrow> cont_typed (ContHeaders f)"
  by (auto simp: headers_load_def Let_def bind_outcome_Ok_iff sid_stream_def sid_zero dest: dependency_typed split: if_splits prod.splits)

lemma push_promise_load_typed: "push_promise_load h b = Ok (f, p) \<Longrightarrow> sid_valid (hd_stream_id h) \<Longrightarrow> cont_typed (ContPushPromise f)"
  by (auto simp: push_promise_load_def Let_def bind_outcome_Ok_iff sid_stream_def sid_zero dest: stream_id_parse_valid
      split: if_splits prod.splits)

lemma settings_load_one_typed: "settings_load_one s st = Ok s' \<Longrightarrow> settings_typed s \<Longrightarrow> settings_typed s'"
  by (cases "(s, st)" rule: settings_load_one.cases)
    (auto simp: settings_typed_def MAX_INITIAL_WINDOW_SIZE_def DEFAULT_MAX_FRAME_SIZE_def MAX_MAX_FRAME_SIZE_def word_le_nat_alt
      split: if_splits)

lemma settings_load_chunks_typed: "settings_load_chunks s b = Ok s' \<Longrightarrow> settings_typed s \<Longrightarrow> settings_typed s'"
proof (induction s b rule: settings_load_chunks.induct)
  case (1 s b)
  from 1(2,3) show ?case
    by (subst (asm) settings_load_chunks.simps)
      (auto simp: bind_outcome_Ok_iff split: if_splits dest: settings_load_one_typed [OF _ 1(3)] intro: 1(1))
qed

lemma settings_load_typed: "settings_load h b = Ok v \<Longrightarrow> settings_typed v"
proof -
  have "settings_typed settings_ack" "settings_typed settings_default"
    by (simp_all add: settings_typed_def settings_ack_def settings_default_def)
  then show "settings_load h b = Ok v \<Longrightarrow> settings_typed v"
    by (auto simp: settings_load_def Let_def dest: settings_load_chunks_typed split: if_splits)
qed

lemma window_update_load_typed:
  "window_update_load h b = Ok f \<Longrightarrow> sid_valid (hd_stream_id h) \<Longrightarrow> frame_typed (FrameWindowUpdate f)"
  using window_update_load_range [of h b f] by (auto simp: window_update_load_eq bind_outcome_Ok_iff split: if_splits)

lemma cont_load_hpack_typed: "cont_load_hpack L src lim d c = (r, c', d', rest) \<Longrightarrow> cont_typed c' = cont_typed c \<and>
    cont_is_end_headers c' = cont_is_end_headers c \<and> cont_stream_id c' = cont_stream_id c"
  by (cases c; auto simp: headers_load_hpack_def push_promise_load_hpack_def split: prod.splits)

lemma cont_frame_typed: "cont_typed c \<Longrightarrow> cont_is_end_headers c \<Longrightarrow> frame_typed (cont_frame c)"
  by (cases c) simp_all

lemma cont_into_frame_typed: "cont_typed c \<Longrightarrow> frame_typed (cont_into_frame c)"
  by (cases c) (simp_all add: hf_set_end_headers_def hf_is_end_headers_def pp_set_end_headers_def pp_is_end_headers_def)

section \<open>Decoding\<close>

text \<open>A step of the decoder: what it returns is typed, and what it keeps.\<close>

definition typed_result :: "decode_result \<Rightarrow> bool" where
  "typed_result rf \<longleftrightarrow> (case rf of (r, fd) \<Rightarrow> (\<forall>f. r = Ok (Some f) \<longrightarrow> frame_typed f) \<and> partial_typed fd)"

lemma decode_simple_typed: "partial_typed fd \<Longrightarrow> (\<And>f. r = Ok f \<Longrightarrow> frame_typed (into f)) \<Longrightarrow> typed_result (decode_simple into r fd)"
  by (auto simp: typed_result_def decode_simple_def bind_outcome_Ok_iff split: outcome.splits)

lemma decode_header_block_typed:
  assumes "partial_typed fd" "\<And>c p. loaded = Ok (c, p) \<Longrightarrow> cont_typed c"
  shows "typed_result (decode_header_block L head loaded fd)"
proof (cases loaded)
  case (Ok cp)
  obtain c p where c: "cp = (c, p)" by fastforce
  obtain r c' d q where l: "cont_load_hpack L p (fd_max_header_list_size fd) (fd_hpack fd) c = (r, c', d, q)" by (metis surj_pair)
  show ?thesis
    using assms cont_load_hpack_typed [OF l]
    by (auto simp: typed_result_def decode_header_block_def Ok c l Let_def partial_typed_def cont_frame_typed split: outcome.splits)
qed (use assms(1) in \<open>auto simp: typed_result_def decode_header_block_def split: frame_error.splits\<close>)

lemma decode_continuation_typed:
  assumes "partial_typed fd"
  shows "typed_result (decode_continuation L head bs fd)"
proof (cases "fd_partial fd")
  case (Some p)
  define buf where "buf = (if part_buf p = [] then drop HEADER_LEN bs else part_buf p @ drop HEADER_LEN bs)"
  obtain r c' d q where l: "cont_load_hpack L buf (fd_max_header_list_size fd) (fd_hpack fd) (part_frame p) = (r, c', d, q)"
    by (metis surj_pair)
  have "cont_typed c'" using assms Some cont_load_hpack_typed [OF l] by (simp add: partial_typed_def)
  then show ?thesis
    using l assms unfolding decode_continuation_def Some buf_def
    by (auto simp: typed_result_def Let_def partial_typed_def cont_into_frame_typed split: outcome.splits)
qed (use assms in \<open>simp add: typed_result_def decode_continuation_def\<close>)

lemma decode_frame_typed_step: "partial_typed fd \<Longrightarrow> typed_result (decode_frame L fd bs)"
proof (cases "head_parse bs")
  case (Some h)
  assume fd: "partial_typed fd"
  have h: "sid_valid (hd_stream_id h)" using Some by (rule head_parse_typed)
  let ?p = "drop HEADER_LEN bs"
  note simple = decode_simple_typed [OF fd]
  have "typed_result (Err e, fd)" "typed_result (Ok None, fd)" for e using fd by (simp_all add: typed_result_def)
  moreover have "typed_result (decode_simple FrameSettings (settings_load h ?p) fd)"
    by (rule simple) (simp add: settings_load_typed)
  moreover have "typed_result (decode_simple FramePing (ping_load h ?p) fd)"
    by (rule simple) (auto simp: ping_load_def split: if_splits)
  moreover have "typed_result (decode_simple FrameWindowUpdate (window_update_load h ?p) fd)"
    by (rule simple) (rule window_update_load_typed [OF _ h])
  moreover have "typed_result (decode_simple FrameData (data_load h ?p) fd)"
    by (rule simple) (use h in \<open>auto simp: data_load_def Let_def bind_outcome_Ok_iff sid_stream_def sid_zero split: if_splits\<close>)
  moreover have "typed_result (decode_simple FrameReset (reset_load h ?p) fd)"
    by (rule simple) (use h in \<open>auto simp: reset_load_def bind_outcome_Ok_iff split: if_splits\<close>)
  moreover have "typed_result (decode_simple FrameGoAway (go_away_load h ?p) fd)"
    by (rule simple) (auto simp: go_away_load_def bind_outcome_Ok_iff dest: stream_id_parse_valid split: if_splits)
  moreover have "typed_result (decode_header_block L h (bind_outcome (headers_load h ?p) (\<lambda>(f, p). Ok (ContHeaders f, p))) fd)"
    by (rule decode_header_block_typed [OF fd]) (auto simp: bind_outcome_Ok_iff simp del: cont_typed.simps dest: headers_load_typed [OF _ h])
  moreover have "typed_result (decode_header_block L h (bind_outcome (push_promise_load h ?p) (\<lambda>(f, p). Ok (ContPushPromise f, p))) fd)"
    by (rule decode_header_block_typed [OF fd])
      (auto simp: bind_outcome_Ok_iff simp del: cont_typed.simps dest: push_promise_load_typed [OF _ h])
  moreover have "typed_result (decode_priority h ?p fd)"
    using fd h by (auto simp: typed_result_def decode_priority_def priority_load_def bind_outcome_Ok_iff sid_stream_def
        STREAM_ID_ZERO_def dest: dependency_typed split: outcome.splits frame_error.splits if_splits)
  moreover have "typed_result (decode_continuation L h bs fd)" by (rule decode_continuation_typed [OF fd])
  ultimately show ?thesis
    by (cases "hd_kind h") (simp_all add: decode_frame_def Some Let_def)
qed (simp add: decode_frame_def typed_result_def)

section \<open>Properties\<close>

text \<open>C5: every frame that the decoder returns, from whatever bytes the peer sends, is typed: identifiers have 31 bits and are not zero
  where the frame belongs to a stream, a stream does not depend on itself, a WINDOW_UPDATE increment is between 1 and
  \<open>2 ^ 31 - 1\<close>, settings are in their ranges, a PING has eight bytes, and a header block is marked as ended. The header block
  that a decoder keeps for a CONTINUATION is typed as well, which it is in a new decoder.\<close>

theorem decoded_frames_typed:
  assumes "partial_typed fd" "decode_frame L fd bs = (r, fd')"
  shows "(\<forall>f. r = Ok (Some f) \<longrightarrow> frame_typed f) \<and> partial_typed fd'"
  using decode_frame_typed_step [OF assms(1), of L bs] by (simp add: assms(2) typed_result_def)

lemma decoded_frames_typed_witness:
  "frame_typed (FrameWindowUpdate \<lparr>wu_stream_id = StreamId 5, wu_size_increment = 7\<rparr>)"
proof -
  have "partial_typed sample_fd" by (simp add: partial_typed_def sample_fd_def)
  moreover have "decode_frame sample_lib sample_fd [0, 0, 4, 8, 0, 0x80, 0, 0, 5, 0x80, 0, 0, 7] =
      (Ok (Some (FrameWindowUpdate \<lparr>wu_stream_id = StreamId 5, wu_size_increment = 7\<rparr>)), sample_fd)"
    by code_simp
  ultimately show ?thesis using decoded_frames_typed by blast
qed

end
