(* ===== verification/Recv_Errors.thy ===== *)
theory Recv_Errors
  imports Streams_Ledger Streams_Sample
begin

text \<open>
  The errors that a frame of the peer can cause. A stream error is answered on the stream; what is returned to the connection is an
  error of the whole connection, found by this endpoint and with one of three codes, or the reset of a stream that the store does not
  have any more.
\<close>

section \<open>Errors of an operation\<close>

definition errs :: "('e \<Rightarrow> bool) \<Rightarrow> (('e + 'a) \<times> 's) option \<Rightarrow> bool" where
  "errs Q m \<longleftrightarrow> post m (\<lambda>(r, s). \<forall>e. r = Inl e \<longrightarrow> Q e)"

named_theorems err_rules "errors of a composed operation"

lemma errsD: "errs Q m \<Longrightarrow> m = Some (Inl e, s) \<Longrightarrow> Q e"
  by (simp add: errs_def)

lemma errs_simps [simp]: "errs Q None" "errs Q (Some (Inr x, s))" "errs Q (Some (Inl e, s)) = Q e"
  by (simp_all add: errs_def)

lemma errs_bind [err_rules]: "(\<And>y. m = Some y \<Longrightarrow> errs Q (f y)) \<Longrightarrow> errs Q (Option.bind m f)"
  by (cases m) simp_all

lemma errs_question [err_rules]: "errs Q m \<Longrightarrow> (\<And>x s. m = Some (Inr x, s) \<Longrightarrow> errs Q (f x s)) \<Longrightarrow> errs Q (question m f)"
  by (auto simp: errs_def question_def split: sum.splits bind_splits)

lemma errs_transition [err_rules]: "(\<And>s. errs Q (f s)) \<Longrightarrow> errs Q (transition k f s)"
  by (fastforce simp: errs_def transition_def post_def split: bind_splits option.splits)

lemma errs_err_map [err_rules]: "errs (\<lambda>e. Q (g e)) m \<Longrightarrow> errs Q (err_map g m)"
  by (cases m; cases "fst (the m)") (auto simp: errs_def err_map_def)

lemma errs_if [err_rules]: "(b \<Longrightarrow> errs Q m) \<Longrightarrow> (\<not> b \<Longrightarrow> errs Q m') \<Longrightarrow> errs Q (if b then m else m')"
  by simp

lemma errs_case_prod [err_rules]: "(\<And>a b. p = (a, b) \<Longrightarrow> errs Q (f a b)) \<Longrightarrow> errs Q (case p of (a, b) \<Rightarrow> f a b)"
  by (cases p) simp

lemma errs_case_option [err_rules]:
  "(v = None \<Longrightarrow> errs Q m) \<Longrightarrow> (\<And>x. v = Some x \<Longrightarrow> errs Q (f x)) \<Longrightarrow> errs Q (case v of None \<Rightarrow> m | Some x \<Rightarrow> f x)"
  by (cases v) simp_all

lemma errs_case_sum [err_rules]:
  "(\<And>e. r = Inl e \<Longrightarrow> errs Q (f e)) \<Longrightarrow> (\<And>x. r = Inr x \<Longrightarrow> errs Q (g x)) \<Longrightarrow> errs Q (case r of Inl e \<Rightarrow> f e | Inr x \<Rightarrow> g x)"
  by (cases r) simp_all

lemma errs_case_outcome [err_rules]:
  "(\<And>x. r = Ok x \<Longrightarrow> errs Q (f x)) \<Longrightarrow> (\<And>e. r = Err e \<Longrightarrow> errs Q (g e)) \<Longrightarrow> (r = Panic \<Longrightarrow> errs Q h) \<Longrightarrow>
    errs Q (case r of Ok x \<Rightarrow> f x | Err e \<Rightarrow> g e | Panic \<Rightarrow> h)"
  by (cases r) simp_all

lemma errs_map_option [err_rules]: "errs Q (map_option (Pair (Inr x)) m)"
  by (cases m) simp_all

section \<open>Errors of the connection\<close>

definition conn_violation :: "proto_error \<Rightarrow> bool" where
  "conn_violation e \<longleftrightarrow>
    (\<exists>d r. e = ErrGoAway d r Library \<and> r \<in> {PROTOCOL_ERROR, FLOW_CONTROL_ERROR, ENHANCE_YOUR_CALM})"

definition is_stream_error :: "proto_error \<Rightarrow> bool" where
  "is_stream_error e \<longleftrightarrow> (\<exists>i r. e = library_reset i r)"

lemma conn_violation_simps [simp]:
  "conn_violation (library_go_away PROTOCOL_ERROR)" "conn_violation (library_go_away FLOW_CONTROL_ERROR)"
  "conn_violation (library_go_away_data ENHANCE_YOUR_CALM d)" "\<not> conn_violation (library_reset i r)"
  by (simp_all add: conn_violation_def library_go_away_def library_go_away_data_def library_reset_def)

lemma flow_errors:
  "inc_window fc n = (Err e, fc') \<Longrightarrow> e = FLOW_CONTROL_ERROR" "flow_send_data fc n = (Err e, fc') \<Longrightarrow> e = FLOW_CONTROL_ERROR"
  by (auto simp: inc_window_def Let_def flow_send_data_def dec_both_def window_decrease_by_cases split: if_splits prod.splits)

lemma reset_on_err_errs [err_rules]:
  "(\<And>e. res = Inl e \<Longrightarrow> conn_violation e \<or> is_stream_error e) \<Longrightarrow> errs conn_violation (actions_reset_on_recv_stream_err E k res s)"
  unfolding actions_reset_on_recv_stream_err_def
  by (auto intro!: err_rules simp: conn_violation_def is_stream_error_def library_reset_def library_go_away_data_def
      split: sum.splits proto_error.splits)

lemma reset_on_err_deferred_errs [err_rules]:
  "(\<And>e. res = Inl e \<Longrightarrow> conn_violation e \<or> is_stream_error e) \<Longrightarrow>
    errs conn_violation (actions_reset_on_recv_stream_err_deferred E k res s)"
  unfolding actions_reset_on_recv_stream_err_deferred_def
  by (auto intro!: reset_on_err_errs simp: conn_violation_def is_stream_error_def library_reset_def
      split: sum.splits proto_error.splits)

section \<open>DATA\<close>

lemma consume_errs [err_rules]: "errs conn_violation (recv_consume_connection_window n s)"
  unfolding recv_consume_connection_window_def by (auto intro!: err_rules dest: flow_errors)

lemma ignore_data_errs [err_rules]: "errs conn_violation (recv_ignore_data n s)"
  unfolding recv_ignore_data_def by (intro err_rules) simp

abbreviation stream_or_conn :: "proto_error \<Rightarrow> bool" where
  "stream_or_conn e \<equiv> conn_violation e \<or> is_stream_error e"

lemma stream_error [simp]: "is_stream_error (library_reset i r)"
  by (auto simp: is_stream_error_def)

lemma errs_weaken: "errs Q m \<Longrightarrow> (\<And>e. Q e \<Longrightarrow> R e) \<Longrightarrow> errs R m"
  by (auto simp: errs_def elim: post_mono)

lemma recv_data_deliver_errs: "errs stream_or_conn (recv_data_deliver E f n k s)"
  unfolding recv_data_deliver_def Let_def by (auto intro!: err_rules dest: flow_errors)

lemma recv_data_content_errs: "recv_data_content f x = (Inl e, y) \<Longrightarrow> stream_or_conn e"
  by (auto simp: recv_data_content_def split: prod.splits outcome.splits if_splits)

lemma recv_data_errs: "errs stream_or_conn (recv_data E f k s)"
  unfolding recv_data_def Let_def
  by (auto intro!: err_rules recv_data_deliver_errs errs_weaken [OF ignore_data_errs] errs_weaken [OF consume_errs]
      dest: recv_data_content_errs)

lemma data_on_stream_errs [err_rules]: "errs conn_violation (inner_data_on_stream E f k s)"
proof -
  have "stream_or_conn e" if "recv_data E f k s = Some (Inl e, s')" for e s'
    using errsD [OF recv_data_errs that] .
  then show ?thesis
    unfolding inner_data_on_stream_def Let_def
    by (auto intro!: err_rules split: prod.splits outcome.splits if_splits)
qed

lemma recv_data_frame_errs:
  "errs (\<lambda>e. conn_violation e \<or> e = library_reset (data_stream_id f) STREAM_CLOSED \<and> store_find (data_stream_id f) (ss_store s) = None)
    (inner_recv_data E f s)"
  unfolding inner_recv_data_def inner_data_unknown_def Let_def
  by (auto intro!: err_rules errs_weaken [OF data_on_stream_errs] errs_weaken [OF ignore_data_errs])

section \<open>HEADERS\<close>


lemma headers_entry_errs:
  "errs (\<lambda>e. conn_violation e \<or> e = library_reset i STREAM_CLOSED \<and> store_find i (ss_store s) = None) (inner_headers_entry E i s)"
  unfolding inner_headers_entry_def recv_open_id_def Let_def
  by (auto intro!: err_rules simp: ensure_can_open_def recv_next_stream_id_def split: if_splits outcome.splits)

lemma recv_open_id_same: "recv_open_id i mode s = Some (Inr (Some j), s') \<Longrightarrow> j = i"
  by (auto simp: recv_open_id_def Let_def bind_eq_Some_conv split: outcome.splits sum.splits if_splits)

lemma insert_vacant_key: "insert_vacant E j x s = (k, s') \<Longrightarrow> key_stream_id k = st_id x"
  by (auto simp: insert_vacant_def vacant_insert_def Let_def)

lemma headers_entry_key_post:
  "post (inner_headers_entry E i s) (\<lambda>(r, s'). \<forall>k. r = Inr (Some k) \<longrightarrow> key_stream_id k = i)"
  unfolding inner_headers_entry_def new_stream_def
  by (intro post_rules postI [of "stream_new _ _ _"] postI [of "recv_open_id _ _ _"] postI [of "actions_may_have_forgotten_stream _ _"])
    (auto simp: store_find_def dest!: recv_open_id_same insert_vacant_key stream_new_fields(1) split: sum.splits option.splits
      intro!: post_rules postI [of "stream_new _ _ _"] postI [of "recv_open_id _ _ _"])

lemma headers_entry_key: "inner_headers_entry E i s = Some (Inr (Some k), s') \<Longrightarrow> key_stream_id k = i"
  using postD [OF headers_entry_key_post] by fastforce

abbreviation block_error :: "recv_header_error \<Rightarrow> bool" where
  "block_error b \<equiv> (\<forall>e. b = BlockState e \<longrightarrow> stream_or_conn e)"

lemma convert_errs: "convert_poll_message E peer p fs i = Inl e \<Longrightarrow> is_stream_error e"
  by (auto simp: convert_poll_message_def server_convert_poll_message_def client_convert_poll_message_def
      split: if_splits option.splits)

lemma state_errs: "recv_open b c st = (Err e, st') \<Longrightarrow> conn_violation e" "recv_close st = (Err e, st') \<Longrightarrow> conn_violation e"
  by (auto elim!: recv_open.elims recv_close.elims split: if_splits)

lemma recv_message_errs: "errs block_error (recv_message E f k s)"
  unfolding recv_message_def Let_def by (auto intro!: err_rules dest: convert_errs)

lemma content_length_errs: "errs is_stream_error (recv_content_length f x)"
  unfolding recv_content_length_def Let_def by (auto intro!: err_rules)

lemmas recv_content_length_errs = errsD [OF content_length_errs]

lemma recv_headers_block_errs: "errs block_error (recv_headers E f k s)"
  unfolding recv_headers_def Let_def
  by (auto intro!: err_rules recv_message_errs dest: state_errs recv_content_length_errs)

lemma recv_headers_errs: "recv_headers E f k s = Some (Inl (BlockState e), s') \<Longrightarrow> stream_or_conn e"
  using errsD [OF recv_headers_block_errs] by blast

lemma headers_block_errs: "errs stream_or_conn (inner_headers_block E f k s)"
  unfolding inner_headers_block_def
  by (auto intro!: err_rules dest: recv_headers_errs split: recv_header_error.splits)

lemma recv_trailers_errs: "errs stream_or_conn (recv_trailers E f k s)"
  unfolding recv_trailers_def Let_def by (auto intro!: err_rules dest: state_errs)

lemma headers_on_stream_errs:
  "errs (\<lambda>e. conn_violation e \<or> e = library_reset (key_stream_id k) PROTOCOL_ERROR) (inner_headers_on_stream E f k s)"
  unfolding inner_headers_on_stream_def
  by (auto intro!: err_rules errs_weaken [OF reset_on_err_deferred_errs] dest: errsD [OF headers_block_errs] errsD [OF recv_trailers_errs]
     simp: get_stream_slab)

lemma recv_headers_frame_errs:
  "errs (\<lambda>e. conn_violation e \<or> e = library_reset (hf_stream_id f) PROTOCOL_ERROR \<or>
      e = library_reset (hf_stream_id f) STREAM_CLOSED \<and> store_find (hf_stream_id f) (ss_store s) = None)
    (inner_recv_headers E f s)"
  unfolding inner_recv_headers_def Let_def
  by (auto intro!: err_rules errs_weaken [OF headers_entry_errs] errs_weaken [OF headers_on_stream_errs] dest: headers_entry_key)

section \<open>RST_STREAM and WINDOW_UPDATE\<close>

lemma not_idle_errs [err_rules]: "errs conn_violation (inner_not_idle i s)"
proof -
  have "r = Inl e \<Longrightarrow> e = PROTOCOL_ERROR" if "actions_ensure_not_idle i s = Some r" for r e
    using that
    by (auto simp: actions_ensure_not_idle_def send_ensure_not_idle_def recv_ensure_not_idle_def bind_eq_Some_conv
        split: if_splits outcome.splits)
  then show ?thesis
    unfolding inner_not_idle_def by (cases "actions_ensure_not_idle i s"; cases "the (actions_ensure_not_idle i s)") auto
qed

lemma recv_reset_frame_errs: "errs conn_violation (inner_recv_reset f s)"
  unfolding inner_recv_reset_def Let_def inner_reset_on_stream_def recv_reset_def
  by (auto intro!: err_rules)

lemma recv_window_update_frame_errs: "errs conn_violation (inner_recv_window_update E f s)"
proof -
  have "is_stream_error e" if "map_sum (library_reset i) (\<lambda>x. x) r = Inl e" for i e and r :: "reason + unit"
    using that by (cases r) auto
  then show ?thesis
    unfolding inner_recv_window_update_def Let_def send_recv_connection_window_update_def prio_recv_connection_window_update_def
    by (auto intro!: err_rules dest: flow_errors)
qed

section \<open>Properties\<close>


lemma sample_idle_data:
  "case do { s \<leftarrow> sample_run; f \<leftarrow> data_new (StreamId 7) [1]; inner_recv_data sample_env f s } of
     Some (Inl e, _) \<Rightarrow> e = library_go_away PROTOCOL_ERROR | _ \<Rightarrow> False"
  by code_simp


end
