(* ===== verification/Error_Text.thy ===== *)
theory Error_Text
  imports Error_Types
begin

text \<open>
  The texts of the errors (\<open>Display\<close> and \<open>Debug\<close> in \<open>src/frame/reason.rs\<close>, \<open>src/codec/error.rs\<close>, \<open>src/proto/error.rs\<close> and
  \<open>src/error.rs\<close>). The text of an \<open>io::Error\<close> and the debug form of bytes are not of this crate: they are parameters.
\<close>

fun reason_description :: "reason \<Rightarrow> string" where
  "reason_description (Reason r) =
    (if r = 0 then ''not a result of an error''
     else if r = 1 then ''unspecific protocol error detected''
     else if r = 2 then ''unexpected internal error encountered''
     else if r = 3 then ''flow-control protocol violated''
     else if r = 4 then ''settings ACK not received in timely manner''
     else if r = 5 then ''received frame when stream half-closed''
     else if r = 6 then ''frame with invalid size''
     else if r = 7 then ''refused stream before processing any application logic''
     else if r = 8 then ''stream no longer needed''
     else if r = 9 then ''unable to maintain the header compression context''
     else if r = 10 then ''connection established in response to a CONNECT request was reset or abnormally closed''
     else if r = 11 then ''detected excessive load generating behavior''
     else if r = 12 then ''security properties do not meet minimum requirements''
     else if r = 13 then ''endpoint requires HTTP/1.1''
     else ''unknown reason'')"

definition reason_names :: "string list" where
  "reason_names = [''NO_ERROR'', ''PROTOCOL_ERROR'', ''INTERNAL_ERROR'', ''FLOW_CONTROL_ERROR'', ''SETTINGS_TIMEOUT'',
     ''STREAM_CLOSED'', ''FRAME_SIZE_ERROR'', ''REFUSED_STREAM'', ''CANCEL'', ''COMPRESSION_ERROR'', ''CONNECT_ERROR'',
     ''ENHANCE_YOUR_CALM'', ''INADEQUATE_SECURITY'', ''HTTP_1_1_REQUIRED'']"

text \<open>\<open>LowerHex\<close>: the digits without leading zeros.\<close>

definition hex_digit :: "nat \<Rightarrow> char" where
  "hex_digit d = ''0123456789abcdef'' ! d"

fun lower_hex :: "nat \<Rightarrow> string" where
  "lower_hex n = (if n < 16 then [hex_digit n] else lower_hex (n div 16) @ [hex_digit (n mod 16)])"

declare lower_hex.simps [simp del]

fun reason_debug :: "reason \<Rightarrow> string" where
  "reason_debug (Reason r) =
    (if unat r < length reason_names then reason_names ! unat r else ''Reason('' @ lower_hex (unat r) @ '')'')"

fun user_error_display :: "user_error \<Rightarrow> string" where
  "user_error_display InactiveStreamId = ''inactive stream''"
| "user_error_display UnexpectedFrameType = ''unexpected frame type''"
| "user_error_display PayloadTooBig = ''payload too big''"
| "user_error_display Rejected = ''rejected''"
| "user_error_display ReleaseCapacityTooBig = ''release capacity too big''"
| "user_error_display OverflowedStreamId = ''stream ID overflowed''"
| "user_error_display MalformedHeaders = ''malformed headers''"
| "user_error_display MissingUriSchemeAndAuthority = ''request URI missing scheme and authority''"
| "user_error_display PollResetAfterSendResponse = ''poll_reset after send_response is illegal''"
| "user_error_display SendPingWhilePending = ''send_ping before received previous pong''"
| "user_error_display SendSettingsWhilePending = ''sending SETTINGS before received previous ACK''"
| "user_error_display PeerDisabledServerPush = ''sending PUSH_PROMISE to peer who disabled server push''"
| "user_error_display InvalidInformationalStatusCode = ''invalid informational status code''"

fun proto_error_display :: "(io_error_kind \<Rightarrow> string) \<Rightarrow> proto_error \<Rightarrow> string" where
  "proto_error_display io (ErrReset _ r _) = reason_description r"
| "proto_error_display io (ErrGoAway _ r _) = reason_description r"
| "proto_error_display io (ErrIo _ (Some inner)) = inner"
| "proto_error_display io (ErrIo k None) = io k"

fun send_error_display :: "(io_error_kind \<Rightarrow> string) \<Rightarrow> send_error \<Rightarrow> string" where
  "send_error_display io (SendConnection e) = proto_error_display io e"
| "send_error_display io (SendUser e) = user_error_display e"

fun initiator_display :: "initiator \<Rightarrow> string" where
  "initiator_display User = ''sent by user: ''"
| "initiator_display Library = ''detected: ''"
| "initiator_display Remote = ''received: ''"

fun error_display :: "(io_error_kind \<Rightarrow> string) \<Rightarrow> (bytes \<Rightarrow> string) \<Rightarrow> error_kind \<Rightarrow> string" where
  "error_display io debug (ErrorReset _ r i) = ''stream error '' @ initiator_display i @ reason_description r"
| "error_display io debug (ErrorGoAway data r i) =
     ''connection error '' @ initiator_display i @ reason_description r @
       (if data \<noteq> [] then '' ('' @ debug data @ '')'' else '''')"
| "error_display io debug (ErrorReason r) = ''protocol error: '' @ reason_description r"
| "error_display io debug (ErrorUser e) = ''user error: '' @ user_error_display e"
| "error_display io debug (ErrorIo k (Some inner)) = inner"
| "error_display io debug (ErrorIo k None) = io k"

section \<open>The debug form identifies the reason\<close>

lemma hex_digit_inj: "hex_digit a = hex_digit b \<Longrightarrow> a < 16 \<Longrightarrow> b < 16 \<Longrightarrow> a = b"
proof -
  have "distinct ''0123456789abcdef''" by simp
  then show "hex_digit a = hex_digit b \<Longrightarrow> a < 16 \<Longrightarrow> b < 16 \<Longrightarrow> a = b"
    unfolding hex_digit_def by (subst (asm) nth_eq_iff_index_eq) simp_all
qed

lemma lower_hex_nonempty [simp]: "lower_hex n \<noteq> []"
  by (subst lower_hex.simps) simp

lemma lower_hex_inj: "lower_hex m = lower_hex n \<Longrightarrow> m = n"
proof (induction m arbitrary: n rule: lower_hex.induct)
  case (1 m)
  have eq: "lower_hex m = lower_hex n" by (rule 1)
  consider "m < 16" "n < 16" | "m \<ge> 16" "n \<ge> 16" | "m < 16 \<longleftrightarrow> n \<ge> 16" by linarith
  then show ?case
  proof cases
    case 1
    then show ?thesis using eq hex_digit_inj by (simp add: lower_hex.simps [of m] lower_hex.simps [of n])
  next
    case 2
    then have "lower_hex (m div 16) = lower_hex (n div 16)" "hex_digit (m mod 16) = hex_digit (n mod 16)"
      using eq by (simp_all add: lower_hex.simps [of m] lower_hex.simps [of n])
    then have "m div 16 = n div 16" "m mod 16 = n mod 16"
      using "1.IH" 2(1) hex_digit_inj by simp_all
    then show ?thesis by (metis div_mult_mod_eq)
  next
    case 3
    then show ?thesis using eq
      by (cases "m < 16") (simp_all add: lower_hex.simps [of m] lower_hex.simps [of n] append_eq_Cons_conv Cons_eq_append_conv)
  qed
qed

lemma reason_debug_inj: "reason_debug r = reason_debug r' \<Longrightarrow> r = r'"
proof (cases r; cases r')
  fix a b assume r: "r = Reason a" "r' = Reason b" and eq: "reason_debug r = reason_debug r'"
  have names: "distinct reason_names" "\<forall>x \<in> set reason_names. hd x \<noteq> CHR ''R'' \<or> x ! 2 = CHR ''F''"
    by (simp_all add: reason_names_def)
  have other: "reason_names ! i \<noteq> ''Reason('' @ t" if "i < length reason_names" for i t
    using bspec [OF names(2) nth_mem [OF that]] by (auto dest: arg_cong [of _ _ hd] arg_cong [of _ _ "\<lambda>x. x ! 2"])
  show "r = r'"
    using eq names(1) other other [THEN not_sym]
    by (auto simp: r nth_eq_iff_index_eq word_unat_eq_iff dest: lower_hex_inj split: if_splits)
qed

end
