(* ===== verification/Handles.thy ===== *)
theory Handles
  imports Connection
begin

text \<open>
  The handles on the body of a message and on the pings (\<open>src/share.rs\<close>): \<open>SendStream\<close>, \<open>RecvStream\<close>, \<open>FlowControl\<close> and
  \<open>PingPong\<close>. A handle on a stream is the key of the stream; the errors of the streams become public errors.
\<close>

section \<open>Errors of the user\<close>

text \<open>\<open>Poll<Option<Result>>\<close> under \<open>map_err\<close> and \<open>map_ok\<close>.\<close>

definition poll_result :: "('e \<Rightarrow> 'f) \<Rightarrow> ('a \<Rightarrow> 'b) \<Rightarrow> ('e + 'a) poll \<Rightarrow> ('f + 'b) poll" where
  "poll_result f g = map_poll (map_sum f g)"

definition poll_item :: "('e \<Rightarrow> 'f) \<Rightarrow> ('a \<Rightarrow> 'b) \<Rightarrow> ('e + 'a) option poll \<Rightarrow> ('f + 'b) option poll" where
  "poll_item f g = map_poll (map_option (map_sum f g))"

section \<open>SendStream\<close>

text \<open>\<open>capacity as WindowSize\<close> keeps the low 32 bits.\<close>

definition send_stream_reserve_capacity :: "nat \<Rightarrow> key \<Rightarrow> streams \<Rightarrow> streams option" where
  "send_stream_reserve_capacity capacity k s = ref_reserve_capacity (of_nat capacity) k s"

definition send_stream_capacity :: "key \<Rightarrow> streams \<Rightarrow> nat option" where
  "send_stream_capacity k s = map_option unat (ref_capacity k s)"

definition send_stream_poll_capacity ::
  "waker \<Rightarrow> key \<Rightarrow> streams \<Rightarrow> ((error_kind + nat) option poll \<times> streams) option" where
  "send_stream_poll_capacity w k s = map_option (apfst (poll_item ErrorUser unat)) (ref_poll_capacity w k s)"

definition send_stream_send_data ::
  "env \<Rightarrow> bytes \<Rightarrow> bool \<Rightarrow> key \<Rightarrow> streams \<Rightarrow> ((error_kind + unit) \<times> streams) option" where
  "send_stream_send_data E b end_of_stream k s = err_map ErrorUser (ref_send_data E b end_of_stream k s)"

definition send_stream_send_trailers ::
  "env \<Rightarrow> header_map \<Rightarrow> key \<Rightarrow> streams \<Rightarrow> ((error_kind + unit) \<times> streams) option" where
  "send_stream_send_trailers E trailers k s = err_map ErrorUser (ref_send_trailers E trailers k s)"

definition send_stream_send_reset :: "env \<Rightarrow> reason \<Rightarrow> key \<Rightarrow> streams \<Rightarrow> streams option" where
  "send_stream_send_reset E r k s = ref_send_reset E r k s"

definition send_stream_poll_reset :: "waker \<Rightarrow> key \<Rightarrow> streams \<Rightarrow> ((error_kind + reason) poll \<times> streams) option" where
  "send_stream_poll_reset w k s = ref_poll_reset w PollStreaming k s"

section \<open>RecvStream\<close>

definition recv_stream_poll_data ::
  "env \<Rightarrow> waker \<Rightarrow> key \<Rightarrow> streams \<Rightarrow> ((error_kind + bytes) option poll \<times> streams) option" where
  "recv_stream_poll_data E w k s = map_option (apfst (poll_item error_from_proto (\<lambda>b. b))) (opaque_poll_data E w k s)"

definition recv_stream_poll_trailers ::
  "env \<Rightarrow> waker \<Rightarrow> key \<Rightarrow> streams \<Rightarrow> ((error_kind + header_map option) poll \<times> streams) option" where
  "recv_stream_poll_trailers E w k s = do {
     (r, s) \<leftarrow> opaque_poll_trailers E w k s;
     Some (case r of
       Pending \<Rightarrow> Pending
     | Ready (Some (Inr m)) \<Rightarrow> Ready (Inr (Some m))
     | Ready (Some (Inl e)) \<Rightarrow> Ready (Inl (error_from_proto e))
     | Ready None \<Rightarrow> Ready (Inr None), s)
   }"

definition recv_stream_is_end_stream :: "key \<Rightarrow> streams \<Rightarrow> bool option" where
  "recv_stream_is_end_stream k s = opaque_is_end_stream k s"

text \<open>\<open>Drop\<close>: the received frames go at once, and then the handle inside is dropped.\<close>

definition recv_stream_drop :: "env \<Rightarrow> key \<Rightarrow> streams \<Rightarrow> streams option" where
  "recv_stream_drop E k s = do {
     s \<leftarrow> opaque_clear_recv_buffer k s;
     drop_stream_ref E k s
   }"

section \<open>FlowControl\<close>

definition flow_control_available_capacity :: "key \<Rightarrow> streams \<Rightarrow> int option" where
  "flow_control_available_capacity k s = opaque_available_recv_capacity k s"

definition flow_control_used_capacity :: "key \<Rightarrow> streams \<Rightarrow> nat option" where
  "flow_control_used_capacity k s = map_option unat (opaque_used_recv_capacity k s)"

definition flow_control_release_capacity ::
  "nat \<Rightarrow> key \<Rightarrow> streams \<Rightarrow> ((error_kind + unit) \<times> streams) option" where
  "flow_control_release_capacity sz k s =
    (if sz > unat MAX_WINDOW_SIZE then Some (Inl (ErrorUser ReleaseCapacityTooBig), s)
     else err_map ErrorUser (opaque_release_capacity (of_nat sz) k s))"

section \<open>PingPong\<close>

definition ping_pong_send_ping :: "user_pings_inner \<Rightarrow> ((error_kind + unit) \<times> user_pings_inner) option" where
  "ping_pong_send_ping u =
    (case user_send_ping u of
       (Ok _, u) \<Rightarrow> Some (Inr (), u)
     | (Err (Some e), u) \<Rightarrow> Some (Inl (error_from_proto e), u)
     | (Err None, u) \<Rightarrow> Some (Inl (ErrorUser SendPingWhilePending), u)
     | (Panic, _) \<Rightarrow> None)"

definition ping_pong_poll_pong ::
  "waker \<Rightarrow> user_pings_inner \<Rightarrow> ((error_kind + unit) poll \<times> user_pings_inner) option" where
  "ping_pong_poll_pong w u = do {
     let (r, u) = user_poll_pong w u;
     r \<leftarrow> poll_sum r;
     Some (poll_result error_from_proto (\<lambda>x. x) r, u)
   }"

section \<open>Lemmas\<close>

text \<open>A request for \<open>2 ^ 32\<close> bytes or more is cut to 32 bits before it reaches the stream.\<close>

lemma reserve_capacity_truncates:
  "send_stream_reserve_capacity (n + 2 ^ 32) k s = send_stream_reserve_capacity n k s"
proof -
  have "(of_nat (n + 2 ^ 32) :: u32) = of_nat n"
    by (simp add: word_of_nat_eq_iff take_bit_eq_mod del: of_nat_add)
  then show ?thesis by (simp only: send_stream_reserve_capacity_def)
qed

text \<open>Releasing more than is used is refused, whatever its size, and changes nothing.\<close>

lemma release_capacity_refused:
  assumes "flow_control_used_capacity k s = Some used" "used < sz"
  shows "flow_control_release_capacity sz k s = Some (Inl (ErrorUser ReleaseCapacityTooBig), s)"
proof (cases "sz > unat MAX_WINDOW_SIZE")
  case False
  from assms(1) obtain x where x: "get_stream k s = Some x" "used = unat (st_in_flight_recv_data x)"
    by (auto simp: flow_control_used_capacity_def opaque_used_recv_capacity_def)
  have "sz < 2 ^ 32" using False by (simp add: MAX_WINDOW_SIZE_def not_less)
  then have "st_in_flight_recv_data x < of_nat sz"
    using assms(2) x(2) by (simp add: word_less_nat_alt unat_of_nat take_bit_eq_mod)
  then show ?thesis
    using False x(1) by (simp add: flow_control_release_capacity_def opaque_release_capacity_def recv_release_capacity_def err_map_def)
qed (simp add: flow_control_release_capacity_def)

end
