(* ===== verification/Client.thy ===== *)
theory Client
  imports Handles
begin

text \<open>
  The client (\<open>src/client.rs\<close>): the builder, the handshake, \<open>SendRequest\<close> with the stream it waits for, the futures of
  responses and pushed requests, and the connection as a future. \<open>AsyncWriteExt::write_all\<close> is of \<open>tokio\<close>: it is a parameter,
  which writes all bytes to the transport or returns an I/O error.
\<close>

section \<open>Builder\<close>

definition DEFAULT_RESET_STREAM_SECS :: nat where "DEFAULT_RESET_STREAM_SECS = 1"
definition DEFAULT_MAX_SEND_BUFFER_SIZE :: nat where "DEFAULT_MAX_SEND_BUFFER_SIZE = 1024 * 400"

record client_builder =
  cb_reset_stream_duration :: nat
  cb_initial_max_send_streams :: nat
  cb_initial_target_connection_window_size :: "u32 option"
  cb_max_send_buffer_size :: nat
  cb_reset_stream_max :: nat
  cb_pending_accept_reset_stream_max :: nat
  cb_settings :: settings
  cb_stream_id :: stream_id
  cb_local_max_error_reset_streams :: "nat option"
  cb_data_frame_budget :: data_frame_budget

definition client_builder_new :: client_builder where
  "client_builder_new = \<lparr>
     cb_reset_stream_duration = DEFAULT_RESET_STREAM_SECS, cb_initial_max_send_streams = USIZE_MAX,
     cb_initial_target_connection_window_size = None, cb_max_send_buffer_size = DEFAULT_MAX_SEND_BUFFER_SIZE,
     cb_reset_stream_max = DEFAULT_RESET_STREAM_MAX, cb_pending_accept_reset_stream_max = DEFAULT_REMOTE_RESET_STREAM_MAX,
     cb_settings = settings_default, cb_stream_id = StreamId 1,
     cb_local_max_error_reset_streams = Some DEFAULT_LOCAL_RESET_COUNT_MAX, cb_data_frame_budget = BudgetAuto\<rparr>"

definition cb_upd_settings :: "(settings \<Rightarrow> settings) \<Rightarrow> client_builder \<Rightarrow> client_builder" where
  "cb_upd_settings f b = b\<lparr>cb_settings := f (cb_settings b)\<rparr>"

definition client_initial_window_size :: "u32 \<Rightarrow> client_builder \<Rightarrow> client_builder" where
  "client_initial_window_size sz = cb_upd_settings (\<lambda>v. v\<lparr>set_initial_window_size := Some sz\<rparr>)"

definition client_initial_connection_window_size :: "u32 \<Rightarrow> client_builder \<Rightarrow> client_builder" where
  "client_initial_connection_window_size sz b = b\<lparr>cb_initial_target_connection_window_size := Some sz\<rparr>"

definition client_max_frame_size :: "u32 \<Rightarrow> client_builder \<Rightarrow> client_builder option" where
  "client_max_frame_size sz b = do {
     v \<leftarrow> settings_set_max_frame_size (cb_settings b) (Some sz);
     Some (b\<lparr>cb_settings := v\<rparr>)
   }"

definition client_max_header_list_size :: "u32 \<Rightarrow> client_builder \<Rightarrow> client_builder" where
  "client_max_header_list_size n = cb_upd_settings (\<lambda>v. v\<lparr>set_max_header_list_size := Some n\<rparr>)"

definition client_max_concurrent_streams :: "u32 \<Rightarrow> client_builder \<Rightarrow> client_builder" where
  "client_max_concurrent_streams n = cb_upd_settings (\<lambda>v. v\<lparr>set_max_concurrent_streams := Some n\<rparr>)"

definition client_initial_max_send_streams :: "nat \<Rightarrow> client_builder \<Rightarrow> client_builder" where
  "client_initial_max_send_streams n b = b\<lparr>cb_initial_max_send_streams := n\<rparr>"

definition client_max_concurrent_reset_streams :: "nat \<Rightarrow> client_builder \<Rightarrow> client_builder" where
  "client_max_concurrent_reset_streams n b = b\<lparr>cb_reset_stream_max := n\<rparr>"

definition client_reset_stream_duration :: "nat \<Rightarrow> client_builder \<Rightarrow> client_builder" where
  "client_reset_stream_duration d b = b\<lparr>cb_reset_stream_duration := d\<rparr>"

definition client_max_local_error_reset_streams :: "nat option \<Rightarrow> client_builder \<Rightarrow> client_builder" where
  "client_max_local_error_reset_streams n b = b\<lparr>cb_local_max_error_reset_streams := n\<rparr>"

definition client_max_pending_accept_reset_streams :: "nat \<Rightarrow> client_builder \<Rightarrow> client_builder" where
  "client_max_pending_accept_reset_streams n b = b\<lparr>cb_pending_accept_reset_stream_max := n\<rparr>"

definition client_max_send_buffer_size :: "nat \<Rightarrow> client_builder \<Rightarrow> client_builder option" where
  "client_max_send_buffer_size n b = do {
     _ \<leftarrow> check (n \<le> 2 ^ 32 - 1);
     Some (b\<lparr>cb_max_send_buffer_size := n\<rparr>)
   }"

definition client_enable_push :: "bool \<Rightarrow> client_builder \<Rightarrow> client_builder" where
  "client_enable_push enabled = cb_upd_settings (\<lambda>v. settings_set_enable_push v enabled)"

definition client_header_table_size :: "u32 \<Rightarrow> client_builder \<Rightarrow> client_builder" where
  "client_header_table_size n = cb_upd_settings (\<lambda>v. v\<lparr>set_header_table_size := Some n\<rparr>)"

definition client_data_frame_budget :: "nat \<Rightarrow> client_builder \<Rightarrow> client_builder" where
  "client_data_frame_budget n b = b\<lparr>cb_data_frame_budget := BudgetConfigured n\<rparr>"

text \<open>\<open>stream_id.into()\<close> panics when the reserved bit is set, and the assertion for a stream that clients cannot open.\<close>

definition client_initial_stream_id :: "u32 \<Rightarrow> client_builder \<Rightarrow> client_builder option" where
  "client_initial_stream_id n b = do {
     i \<leftarrow> stream_id_from n;
     _ \<leftarrow> check (is_client_initiated i);
     Some (b\<lparr>cb_stream_id := i\<rparr>)
   }"

section \<open>Handshake\<close>

definition CLIENT_PREFACE :: bytes where
  "CLIENT_PREFACE = ascii ''PRI * HTTP/2.0'' @ [13, 10, 13, 10] @ ascii ''SM'' @ [13, 10, 13, 10]"

type_synonym 'w write_all = "bytes \<Rightarrow> 'w \<Rightarrow> ((io_error_kind \<times> string option) + unit) \<times> 'w"

definition bind_connection :: "'w write_all \<Rightarrow> 'w \<Rightarrow> (error_kind + unit) \<times> 'w" where
  "bind_connection write_all io = apfst (map_sum (\<lambda>(k, m). ErrorIo k m) (\<lambda>x. x)) (write_all CLIENT_PREFACE io)"

text \<open>\<open>Codec::new\<close>, the limits of the local settings, and the SETTINGS frame.\<close>

definition handshake_codec :: "env \<Rightarrow> bool \<Rightarrow> nat \<Rightarrow> settings \<Rightarrow> dst option" where
  "handshake_codec E vectored delimited_default v = do {
     c \<leftarrow> codec_new vectored delimited_default;
     c \<leftarrow> (case set_max_frame_size v of Some n \<Rightarrow> codec_set_max_recv_frame_size (unat n) c | None \<Rightarrow> Some c);
     c \<leftarrow> (case set_max_header_list_size v of Some n \<Rightarrow> codec_set_max_recv_header_list_size (unat n) c | None \<Rightarrow> Some c);
     dst_buffer_frame E (FrameSettings v) \<lparr>ds_codec = c, ds_rest = None\<rparr>
   }"

definition client_config :: "client_builder \<Rightarrow> conn_config" where
  "client_config b = \<lparr>
     cc_next_stream_id = cb_stream_id b, cc_initial_max_send_streams = cb_initial_max_send_streams b,
     cc_max_send_buffer_size = cb_max_send_buffer_size b, cc_reset_stream_duration = cb_reset_stream_duration b,
     cc_reset_stream_max = cb_reset_stream_max b, cc_remote_reset_stream_max = cb_pending_accept_reset_stream_max b,
     cc_local_error_reset_streams_max = cb_local_max_error_reset_streams b, cc_settings = cb_settings b,
     cc_data_frame_budget = cb_data_frame_budget b\<rparr>"

text \<open>\<open>set_target_window_size\<close> and \<open>set_initial_window_size\<close> of the connections of both roles.\<close>

definition public_set_target_window_size :: "u32 \<Rightarrow> connection \<Rightarrow> connection option" where
  "public_set_target_window_size sz c = do {
     _ \<leftarrow> check (sz \<le> MAX_WINDOW_SIZE);
     conn_set_target_window_size sz c
   }"

definition public_set_initial_window_size :: "u32 \<Rightarrow> connection \<Rightarrow> ((error_kind + unit) \<times> connection) option" where
  "public_set_initial_window_size sz c = do {
     _ \<leftarrow> check (sz \<le> MAX_WINDOW_SIZE);
     err_map ErrorUser (conn_set_initial_window_size sz c)
   }"

definition target_window_from :: "u32 option \<Rightarrow> connection \<Rightarrow> connection option" where
  "target_window_from sz c = (case sz of Some sz \<Rightarrow> public_set_target_window_size sz c | None \<Rightarrow> Some c)"

text \<open>The second handle on the streams is that of \<open>SendRequest\<close>.\<close>

definition client_handshake2 ::
  "transport write_all \<Rightarrow> env \<Rightarrow> bool \<Rightarrow> nat \<Rightarrow> transport \<Rightarrow> client_builder \<Rightarrow> (error_kind + connection) option" where
  "client_handshake2 write_all E vectored delimited_default io b =
    (case bind_connection write_all io of
       (Inl e, _) \<Rightarrow> Some (Inl e)
     | (Inr _, io) \<Rightarrow> do {
         d \<leftarrow> handshake_codec E vectored delimited_default (cb_settings b);
         c \<leftarrow> connection_new Client (d, io) (client_config b);
         let c = c\<lparr>cn_streams := streams_clone (cn_streams c)\<rparr>;
         c \<leftarrow> target_window_from (cb_initial_target_connection_window_size b) c;
         Some (Inr c)
       })"

section \<open>SendRequest\<close>

text \<open>\<open>SendRequest\<close> is a handle on the streams, counted by them, and the handle of the stream that waits to be opened.\<close>

definition drop_pending :: "env \<Rightarrow> key option \<Rightarrow> streams \<Rightarrow> streams option" where
  "drop_pending E pending s = (case pending of Some k \<Rightarrow> drop_stream_ref E k s | None \<Rightarrow> Some s)"

definition send_request_poll_ready ::
  "env \<Rightarrow> waker \<Rightarrow> key option \<times> streams \<Rightarrow> ((error_kind + unit) poll \<times> (key option \<times> streams)) option" where
  "send_request_poll_ready E w h = do {
     let (pending, s) = h;
     (r, s) \<leftarrow> streams_poll_pending_open w pending s;
     case r of
       Ready (Inr _) \<Rightarrow> do {
         s \<leftarrow> drop_pending E pending s;
         Some (Ready (Inr ()), (None, s))
       }
     | _ \<Rightarrow> Some (r, (pending, s))
   }"

text \<open>The result is the key of the \<open>ResponseFuture\<close> and of the \<open>SendStream\<close>: two handles on one stream. A pending handle that is
  replaced is dropped after the new one was made.\<close>

definition send_request_send ::
  "env \<Rightarrow> request \<Rightarrow> bool \<Rightarrow> key option \<times> streams \<Rightarrow> ((error_kind + key) \<times> (key option \<times> streams)) option" where
  "send_request_send E rq end_of_stream h = do {
     let (pending, s) = h;
     (r, s) \<leftarrow> streams_send_request E rq end_of_stream pending s;
     case r of
       Inl e \<Rightarrow> Some (Inl (error_from_send e), (pending, s))
     | Inr (k, is_full) \<Rightarrow> do {
         waits \<leftarrow> ref_is_pending_open k s;
         (pending, s) \<leftarrow> (if waits \<and> is_full
           then do {
             s \<leftarrow> opaque_ref_clone k s;
             s \<leftarrow> drop_pending E pending s;
             Some (Some k, s)
           }
           else Some (pending, s));
         s \<leftarrow> opaque_ref_clone k s;
         Some (Inr k, (pending, s))
       }
   }"

definition send_request_is_extended_connect :: "streams \<Rightarrow> bool" where
  "send_request_is_extended_connect s \<longleftrightarrow> sn_is_extended_connect_protocol_enabled (ss_send s)"

definition current_max_send_streams :: "streams \<Rightarrow> nat" where
  "current_max_send_streams s = cnt_max_send_streams (ss_counts s)"

definition current_max_recv_streams :: "streams \<Rightarrow> nat" where
  "current_max_recv_streams s = cnt_max_recv_streams (ss_counts s)"

definition num_active_streams :: "streams \<Rightarrow> nat" where
  "num_active_streams s = length (sto_ids (ss_store s))"

definition send_request_clone :: "key option \<times> streams \<Rightarrow> (key option \<times> streams) \<times> key option" where
  "send_request_clone h = ((fst h, streams_clone (snd h)), None)"

text \<open>The fields are dropped in their order.\<close>

definition send_request_drop :: "env \<Rightarrow> key option \<times> streams \<Rightarrow> streams option" where
  "send_request_drop E h = do {
     s \<leftarrow> streams_drop (snd h);
     drop_pending E (fst h) s
   }"

text \<open>\<open>ReadySendRequest\<close>: polled after it gave its request back, it panics.\<close>

definition ready_send_request_poll ::
  "env \<Rightarrow> waker \<Rightarrow> bool \<Rightarrow> key option \<times> streams \<Rightarrow> (((error_kind + key option) poll \<times> bool) \<times> (key option \<times> streams)) option" where
  "ready_send_request_poll E w present h =
    (if \<not> present then None
     else do {
       (r, h) \<leftarrow> send_request_poll_ready E w h;
       Some (case r of
         Ready (Inr _) \<Rightarrow> ((Ready (Inr (fst h)), False), h)
       | Ready (Inl e) \<Rightarrow> ((Ready (Inl e), True), h)
       | Pending \<Rightarrow> ((Pending, True), h))
     })"

section \<open>Responses and promises\<close>

text \<open>The body of a response is one more handle on the stream.\<close>

definition response_future_poll :: "waker \<Rightarrow> key \<Rightarrow> streams \<Rightarrow> ((error_kind + response) poll \<times> streams) option" where
  "response_future_poll w k s = do {
     (r, s) \<leftarrow> opaque_poll_response w k s;
     case r of
       Ready (Inr resp) \<Rightarrow> do {
         s \<leftarrow> opaque_ref_clone k s;
         Some (Ready (Inr resp), s)
       }
     | Ready (Inl e) \<Rightarrow> Some (Ready (Inl (error_from_proto e)), s)
     | Pending \<Rightarrow> Some (Pending, s)
   }"

definition response_future_poll_informational ::
  "env \<Rightarrow> waker \<Rightarrow> key \<Rightarrow> streams \<Rightarrow> ((error_kind + response) option poll \<times> streams) option" where
  "response_future_poll_informational E w k s =
     map_option (apfst (poll_item error_from_proto (\<lambda>r. r))) (opaque_poll_informational E w k s)"

text \<open>\<open>push_promises\<close> gives its stream of promises once; a second call panics.\<close>

definition response_future_push_promises :: "bool \<Rightarrow> key \<Rightarrow> streams \<Rightarrow> (bool \<times> streams) option" where
  "response_future_push_promises push_promise_consumed k s = do {
     _ \<leftarrow> check (\<not> push_promise_consumed);
     s \<leftarrow> opaque_ref_clone k s;
     Some (True, s)
   }"

definition push_promises_poll ::
  "waker \<Rightarrow> key \<Rightarrow> streams \<Rightarrow> ((error_kind + (request \<times> key)) option poll \<times> streams) option" where
  "push_promises_poll w k s = map_option (apfst (poll_item error_from_proto (\<lambda>x. x))) (opaque_poll_pushed w k s)"

section \<open>The connection\<close>

text \<open>The first value tells whether the task wakes itself.\<close>

definition client_connection_poll ::
  "env \<Rightarrow> header_lib \<Rightarrow> waker \<Rightarrow> connection \<Rightarrow> ((bool \<times> (error_kind + unit) poll) \<times> connection) option" where
  "client_connection_poll E L w c = do {
     let had_streams_or_refs = streams_has_streams_or_other_references (cn_streams c);
     c \<leftarrow> conn_maybe_close_if_no_streams c;
     (r, c) \<leftarrow> conn_poll E L w c;
     Some ((r = Pending \<and> had_streams_or_refs \<and> \<not> streams_has_streams_or_other_references (cn_streams c),
            poll_result error_from_proto (\<lambda>x. x) r), c)
   }"

definition public_ping_pong :: "connection \<Rightarrow> bool \<times> connection" where
  "public_ping_pong c = (case take_user_pings (cn_ping_pong c) of (u, p) \<Rightarrow> (u \<noteq> None, c\<lparr>cn_ping_pong := p\<rparr>))"

definition public_max_concurrent_send_streams :: "connection \<Rightarrow> nat" where
  "public_max_concurrent_send_streams c = current_max_send_streams (cn_streams c)"

definition public_max_concurrent_recv_streams :: "connection \<Rightarrow> nat" where
  "public_max_concurrent_recv_streams c = current_max_recv_streams (cn_streams c)"

end
