(* ===== verification/Server.thy ===== *)
theory Server
  imports Client "HOL-Library.Sublist"
begin

text \<open>
  The server (\<open>src/server.rs\<close>): the builder, the handshake with the preface of the client, accepting requests, the shutdowns, and
  the handles that answer a request. The raw reads of the transport before the first frame are a list of what they return.
\<close>

section \<open>Builder\<close>

record server_builder =
  sb_reset_stream_duration :: nat
  sb_reset_stream_max :: nat
  sb_pending_accept_reset_stream_max :: nat
  sb_settings :: settings
  sb_initial_target_connection_window_size :: "u32 option"
  sb_max_send_buffer_size :: nat
  sb_local_max_error_reset_streams :: "nat option"
  sb_data_frame_budget :: data_frame_budget

definition server_builder_new :: server_builder where
  "server_builder_new = \<lparr>
     sb_reset_stream_duration = DEFAULT_RESET_STREAM_SECS, sb_reset_stream_max = DEFAULT_RESET_STREAM_MAX,
     sb_pending_accept_reset_stream_max = DEFAULT_REMOTE_RESET_STREAM_MAX, sb_settings = settings_default,
     sb_initial_target_connection_window_size = None, sb_max_send_buffer_size = DEFAULT_MAX_SEND_BUFFER_SIZE,
     sb_local_max_error_reset_streams = Some DEFAULT_LOCAL_RESET_COUNT_MAX, sb_data_frame_budget = BudgetAuto\<rparr>"

definition sb_upd_settings :: "(settings \<Rightarrow> settings) \<Rightarrow> server_builder \<Rightarrow> server_builder" where
  "sb_upd_settings f b = b\<lparr>sb_settings := f (sb_settings b)\<rparr>"

definition server_initial_window_size :: "u32 \<Rightarrow> server_builder \<Rightarrow> server_builder" where
  "server_initial_window_size sz = sb_upd_settings (\<lambda>v. v\<lparr>set_initial_window_size := Some sz\<rparr>)"

definition server_initial_connection_window_size :: "u32 \<Rightarrow> server_builder \<Rightarrow> server_builder" where
  "server_initial_connection_window_size sz b = b\<lparr>sb_initial_target_connection_window_size := Some sz\<rparr>"

definition server_max_frame_size :: "u32 \<Rightarrow> server_builder \<Rightarrow> server_builder option" where
  "server_max_frame_size sz b = do {
     v \<leftarrow> settings_set_max_frame_size (sb_settings b) (Some sz);
     Some (b\<lparr>sb_settings := v\<rparr>)
   }"

definition server_max_header_list_size :: "u32 \<Rightarrow> server_builder \<Rightarrow> server_builder" where
  "server_max_header_list_size n = sb_upd_settings (\<lambda>v. v\<lparr>set_max_header_list_size := Some n\<rparr>)"

definition server_header_table_size :: "u32 \<Rightarrow> server_builder \<Rightarrow> server_builder" where
  "server_header_table_size n = sb_upd_settings (\<lambda>v. v\<lparr>set_header_table_size := Some n\<rparr>)"

definition server_max_concurrent_streams :: "u32 \<Rightarrow> server_builder \<Rightarrow> server_builder" where
  "server_max_concurrent_streams n = sb_upd_settings (\<lambda>v. v\<lparr>set_max_concurrent_streams := Some n\<rparr>)"

definition server_max_concurrent_reset_streams :: "nat \<Rightarrow> server_builder \<Rightarrow> server_builder" where
  "server_max_concurrent_reset_streams n b = b\<lparr>sb_reset_stream_max := n\<rparr>"

definition server_max_local_error_reset_streams :: "nat option \<Rightarrow> server_builder \<Rightarrow> server_builder" where
  "server_max_local_error_reset_streams n b = b\<lparr>sb_local_max_error_reset_streams := n\<rparr>"

definition server_max_pending_accept_reset_streams :: "nat \<Rightarrow> server_builder \<Rightarrow> server_builder" where
  "server_max_pending_accept_reset_streams n b = b\<lparr>sb_pending_accept_reset_stream_max := n\<rparr>"

definition server_max_send_buffer_size :: "nat \<Rightarrow> server_builder \<Rightarrow> server_builder option" where
  "server_max_send_buffer_size n b = do {
     _ \<leftarrow> check (n \<le> 2 ^ 32 - 1);
     Some (b\<lparr>sb_max_send_buffer_size := n\<rparr>)
   }"

definition server_reset_stream_duration :: "nat \<Rightarrow> server_builder \<Rightarrow> server_builder" where
  "server_reset_stream_duration d b = b\<lparr>sb_reset_stream_duration := d\<rparr>"

definition server_builder_enable_connect_protocol :: "server_builder \<Rightarrow> server_builder" where
  "server_builder_enable_connect_protocol = sb_upd_settings (\<lambda>v. v\<lparr>set_enable_connect_protocol := Some 1\<rparr>)"

definition server_data_frame_budget :: "nat \<Rightarrow> server_builder \<Rightarrow> server_builder" where
  "server_data_frame_budget n b = b\<lparr>sb_data_frame_budget := BudgetConfigured n\<rparr>"

section \<open>Preface\<close>

definition PREFACE :: bytes where
  "PREFACE = ascii ''PRI * HTTP/2.0'' @ [13, 10, 13, 10] @ ascii ''SM'' @ [13, 10, 13, 10]"

text \<open>A read fills at most the \<open>rem\<close> bytes of the buffer it is given; what is left of a chunk stays for the next read. An
  empty chunk is the end of the stream.\<close>

datatype raw_item = RawBytes bytes | RawPending | RawErr io_error_kind "string option"

definition preface_eof :: error_kind where
  "preface_eof = ErrorIo UnexpectedEof (Some ''connection closed before reading preface'')"

definition preface_invalid :: error_kind where
  "preface_invalid = error_from_proto (library_go_away PROTOCOL_ERROR)"

definition raw_rest :: "nat \<Rightarrow> bytes \<Rightarrow> raw_item list \<Rightarrow> raw_item list" where
  "raw_rest n b rs = (if n < length b then RawBytes (drop n b) # rs else rs)"

function read_preface :: "nat \<Rightarrow> raw_item list \<Rightarrow> (error_kind + unit) poll \<times> nat \<times> raw_item list" where
  "read_preface pos rs =
    (if length PREFACE \<le> pos then (Ready (Inr ()), pos, rs)
     else case rs of
       [] \<Rightarrow> (Pending, pos, [])
     | RawPending # rs \<Rightarrow> (Pending, pos, rs)
     | RawErr k m # rs \<Rightarrow> (Ready (Inl (ErrorIo k m)), pos, rs)
     | RawBytes b # rs \<Rightarrow>
         (let n = min (length b) (length PREFACE - pos) in
          if n = 0 then (Ready (Inl preface_eof), pos, rs)
          else if take n (drop pos PREFACE) \<noteq> take n b then (Ready (Inl preface_invalid), pos, raw_rest n b rs)
          else read_preface (pos + n) (raw_rest n b rs)))"
  by pat_completeness auto

termination
  by (relation "measure (\<lambda>(pos, rs). length PREFACE - pos)") (auto simp: min_def)

declare read_preface.simps [simp del]

section \<open>Handshake\<close>

datatype handshaking = Flushing dst | ReadingPreface dst nat | HandshakeDone

record server_io =
  si_transport :: transport
  si_raw :: "raw_item list"

text \<open>\<open>handshake2\<close> buffers the SETTINGS frame; nothing is written before the future is polled.\<close>

definition server_handshake2 :: "env \<Rightarrow> bool \<Rightarrow> nat \<Rightarrow> server_builder \<Rightarrow> handshaking option" where
  "server_handshake2 E vectored delimited_default b =
     map_option Flushing (handshake_codec E vectored delimited_default (sb_settings b))"

definition server_config :: "server_builder \<Rightarrow> conn_config" where
  "server_config b = \<lparr>
     cc_next_stream_id = StreamId 2, cc_initial_max_send_streams = 0,
     cc_max_send_buffer_size = sb_max_send_buffer_size b, cc_reset_stream_duration = sb_reset_stream_duration b,
     cc_reset_stream_max = sb_reset_stream_max b, cc_remote_reset_stream_max = sb_pending_accept_reset_stream_max b,
     cc_local_error_reset_streams_max = sb_local_max_error_reset_streams b, cc_settings = sb_settings b,
     cc_data_frame_budget = sb_data_frame_budget b\<rparr>"

definition handshake_reading ::
  "server_builder \<Rightarrow> dst \<Rightarrow> nat \<Rightarrow> server_io \<Rightarrow>
     ((error_kind + connection) poll \<times> handshaking \<times> server_io) option" where
  "handshake_reading b d pos io =
    (let (r, pos, raw) = read_preface pos (si_raw io); io = io\<lparr>si_raw := raw\<rparr> in
     case r of
       Pending \<Rightarrow> Some (Pending, ReadingPreface d pos, io)
     | Ready (Inl e) \<Rightarrow> Some (Ready (Inl e), ReadingPreface d pos, io)
     | Ready (Inr _) \<Rightarrow> do {
         c \<leftarrow> connection_new Server (d, si_transport io) (server_config b);
         c \<leftarrow> target_window_from (sb_initial_target_connection_window_size b) c;
         Some (Ready (Inr c), HandshakeDone, io)
       })"

text \<open>The loop of \<open>Handshake::poll\<close> goes through its states in this order.\<close>

definition handshake_poll ::
  "env \<Rightarrow> server_builder \<Rightarrow> handshaking \<Rightarrow> server_io \<Rightarrow>
     ((error_kind + connection) poll \<times> handshaking \<times> server_io) option" where
  "handshake_poll E b h io =
    (case h of
       Flushing d \<Rightarrow> do {
         (p, (d, t)) \<leftarrow> dst_flush E (d, si_transport io);
         let io = io\<lparr>si_transport := t\<rparr>;
         case p of
           IoPending \<Rightarrow> Some (Pending, Flushing d, io)
         | IoError k m \<Rightarrow> Some (Ready (Inl (ErrorIo k m)), Flushing d, io)
         | IoReady \<Rightarrow> handshake_reading b d 0 io
       }
     | ReadingPreface d pos \<Rightarrow> handshake_reading b d pos io
     | HandshakeDone \<Rightarrow> None)"

section \<open>The connection\<close>

definition server_poll_closed ::
  "env \<Rightarrow> header_lib \<Rightarrow> waker \<Rightarrow> connection \<Rightarrow> ((error_kind + unit) poll \<times> connection) option" where
  "server_poll_closed E L w c = map_option (apfst (poll_result error_from_proto (\<lambda>x. x))) (conn_poll E L w c)"

text \<open>The request comes with two handles on its stream: its body, and the one that answers it.\<close>

definition server_poll_accept ::
  "env \<Rightarrow> header_lib \<Rightarrow> waker \<Rightarrow> connection \<Rightarrow> ((error_kind + (request \<times> key)) option poll \<times> connection) option" where
  "server_poll_accept E L w c = do {
     (r, c) \<leftarrow> server_poll_closed E L w c;
     case r of
       Ready (Inl e) \<Rightarrow> Some (Ready (Some (Inl e)), c)
     | Ready (Inr _) \<Rightarrow> Some (Ready None, c)
     | Pending \<Rightarrow> do {
         (k, c) \<leftarrow> on_streams streams_next_incoming c;
         case k of
           None \<Rightarrow> Some (Pending, c)
         | Some k \<Rightarrow> do {
             (rq, c) \<leftarrow> on_streams (ref_take_request k) c;
             c \<leftarrow> upd_streams (opaque_ref_clone k) c;
             Some (Ready (Some (Inr (rq, k))), c)
           }
       }
   }"

definition server_enable_connect_protocol :: "connection \<Rightarrow> ((error_kind + unit) \<times> connection) option" where
  "server_enable_connect_protocol c = err_map ErrorUser (conn_set_enable_connect_protocol c)"

definition server_abrupt_shutdown :: "reason \<Rightarrow> connection \<Rightarrow> connection option" where
  "server_abrupt_shutdown r c = conn_go_away_from_user r c"

definition server_graceful_shutdown :: "connection \<Rightarrow> connection option" where
  "server_graceful_shutdown c = conn_go_away_gracefully c"

definition server_has_streams :: "connection \<Rightarrow> bool" where
  "server_has_streams c = streams_has_streams (cn_streams c)"

section \<open>Answering a request\<close>

definition send_response_informational :: "env \<Rightarrow> response \<Rightarrow> key \<Rightarrow> streams \<Rightarrow> ((error_kind + unit) \<times> streams) option" where
  "send_response_informational E r k s = do {
     i \<leftarrow> opaque_stream_id k s;
     if \<not> (100 \<le> rs_status r \<and> rs_status r < 200) then Some (Inl (ErrorUser InvalidInformationalStatusCode), s)
     else err_map ErrorUser (ref_send_informational_headers E (server_convert_send_message i r False) k s)
   }"

text \<open>The \<open>SendStream\<close> for the body is one more handle.\<close>

definition send_response_send ::
  "env \<Rightarrow> response \<Rightarrow> bool \<Rightarrow> key \<Rightarrow> streams \<Rightarrow> ((error_kind + unit) \<times> streams) option" where
  "send_response_send E r end_of_stream k s = do {
     (res, s) \<leftarrow> ref_send_response E r end_of_stream k s;
     case res of
       Inl e \<Rightarrow> Some (Inl (ErrorUser e), s)
     | Inr _ \<Rightarrow> do {
         s \<leftarrow> opaque_ref_clone k s;
         Some (Inr (), s)
       }
   }"

definition send_response_push_request ::
  "env \<Rightarrow> request \<Rightarrow> key \<Rightarrow> streams \<Rightarrow> ((error_kind + key) \<times> streams) option" where
  "send_response_push_request E rq k s = err_map ErrorUser (ref_send_push_promise E rq k s)"

definition send_response_send_reset :: "env \<Rightarrow> reason \<Rightarrow> key \<Rightarrow> streams \<Rightarrow> streams option" where
  "send_response_send_reset E r k s = ref_send_reset E r k s"

definition send_response_poll_reset :: "waker \<Rightarrow> key \<Rightarrow> streams \<Rightarrow> ((error_kind + reason) poll \<times> streams) option" where
  "send_response_poll_reset w k s = ref_poll_reset w PollAwaitingHeaders k s"

definition send_pushed_response_send ::
  "env \<Rightarrow> response \<Rightarrow> bool \<Rightarrow> key \<Rightarrow> streams \<Rightarrow> ((error_kind + unit) \<times> streams) option" where
  "send_pushed_response_send E r end_of_stream k s = send_response_send E r end_of_stream k s"

definition send_pushed_response_send_reset :: "env \<Rightarrow> reason \<Rightarrow> key \<Rightarrow> streams \<Rightarrow> streams option" where
  "send_pushed_response_send_reset E r k s = send_response_send_reset E r k s"

definition send_pushed_response_poll_reset ::
  "waker \<Rightarrow> key \<Rightarrow> streams \<Rightarrow> ((error_kind + reason) poll \<times> streams) option" where
  "send_pushed_response_poll_reset w k s = send_response_poll_reset w k s"

section \<open>The preface is recognised however it is cut\<close>

text \<open>The bytes of the reads up to the first that is pending, an error or the end.\<close>

fun raw_bytes :: "raw_item list \<Rightarrow> bytes" where
  "raw_bytes (RawBytes b # rs) = (if b = [] then [] else b @ raw_bytes rs)"
| "raw_bytes _ = []"

lemma raw_bytes_rest: "b \<noteq> [] \<Longrightarrow> n \<le> length b \<Longrightarrow> raw_bytes (raw_rest n b rs) = drop n (b @ raw_bytes rs)"
  by (auto simp: raw_rest_def)

lemma prefix_drop_iff:
  assumes "take n xs = take n ys" "n \<le> length xs" "n \<le> length ys"
  shows "prefix (drop n xs) (drop n ys) \<longleftrightarrow> prefix xs ys"
  using same_prefix_prefix [of "take n xs" "drop n xs" "drop n ys"] assms(1) by (metis append_take_drop_id)

lemma prefix_take: "prefix xs ys \<Longrightarrow> n \<le> length xs \<Longrightarrow> take n xs = take n ys"
  by (auto simp: prefix_def)

text \<open>The outcome of reading from position \<open>pos\<close>: accepted, refused, or to be continued.\<close>

definition preface_spec :: "nat \<Rightarrow> raw_item list \<Rightarrow> (error_kind + unit) poll \<times> nat \<times> raw_item list \<Rightarrow> bool" where
  "preface_spec pos rs out \<longleftrightarrow> (case out of (r, p, rest) \<Rightarrow>
     let want = drop pos PREFACE; bs = raw_bytes rs in
     (r = Ready (Inr ()) \<longleftrightarrow> prefix want bs) \<and>
     (r = Ready (Inl preface_invalid) \<longleftrightarrow> \<not> prefix want bs \<and> \<not> prefix bs want) \<and>
     (prefix want bs \<longrightarrow> raw_bytes rest = drop (length want) bs) \<and>
     (prefix bs want \<longrightarrow> p = pos + length bs))"

lemma preface_eof_neq [simp]: "preface_eof \<noteq> preface_invalid" "ErrorIo k m \<noteq> preface_invalid" "preface_invalid \<noteq> ErrorIo k m"
  by (simp_all add: preface_eof_def preface_invalid_def library_go_away_def)

lemma read_preface_spec: "pos \<le> length PREFACE \<Longrightarrow> preface_spec pos rs (read_preface pos rs)"
proof (induction pos rs rule: read_preface.induct)
  case (1 pos rs)
  show ?case
  proof (cases "pos < length PREFACE \<and> (\<exists>b rs'. rs = RawBytes b # rs' \<and> b \<noteq> [])")
    case False
    then show ?thesis using 1(2)
      by (subst read_preface.simps)
        (auto simp: preface_spec_def split: list.splits raw_item.splits)
  next
    case True
    then obtain b rs' where rs: "rs = RawBytes b # rs'" "b \<noteq> []" and pos: "pos < length PREFACE" by blast
    define n where "n = min (length b) (length PREFACE - pos)"
    have n: "0 < n" "n \<le> length b" "n \<le> length (drop pos PREFACE)" "pos + n \<le> length PREFACE"
      using rs(2) pos by (auto simp: n_def)
    show ?thesis
    proof (cases "take n (drop pos PREFACE) = take n b")
      case False
      then have "\<not> prefix (drop pos PREFACE) (b @ raw_bytes rs')" "\<not> prefix (b @ raw_bytes rs') (drop pos PREFACE)"
        using n prefix_take [of _ _ n] by fastforce+
      then show ?thesis
        using rs pos n False by (subst read_preface.simps) (simp add: preface_spec_def n_def [symmetric] Let_def)
    next
      case match: True
      then have run: "read_preface pos rs = read_preface (pos + n) (raw_rest n b rs')"
        using rs pos n by (subst read_preface.simps) (simp add: n_def [symmetric] Let_def)
      have IH: "preface_spec (pos + n) (raw_rest n b rs') (read_preface (pos + n) (raw_rest n b rs'))"
        using 1(1) [OF _ rs(1) refl n_def] pos n match by simp
      have eq: "take n (drop pos PREFACE) = take n (b @ raw_bytes rs')" using match n by simp
      have "prefix (drop (pos + n) PREFACE) (drop n (b @ raw_bytes rs')) \<longleftrightarrow> prefix (drop pos PREFACE) (b @ raw_bytes rs')"
        "prefix (drop n (b @ raw_bytes rs')) (drop (pos + n) PREFACE) \<longleftrightarrow> prefix (b @ raw_bytes rs') (drop pos PREFACE)"
        using prefix_drop_iff [OF eq] prefix_drop_iff [OF eq [symmetric]] n by (simp_all add: add.commute)
      moreover obtain r p rest where out: "read_preface (pos + n) (raw_rest n b rs') = (r, p, rest)"
        by (cases "read_preface (pos + n) (raw_rest n b rs')")
      moreover have "raw_bytes rs = b @ raw_bytes rs'" using rs by simp
      moreover have "raw_bytes (raw_rest n b rs') = drop n (b @ raw_bytes rs')" using rs(2) n(2) by (rule raw_bytes_rest)
      moreover have "drop (length (drop (pos + n) PREFACE)) (drop n xs) = drop (length (drop pos PREFACE)) xs" for xs :: bytes
        using n(4) by simp
      moreover have "prefix (b @ raw_bytes rs') (drop pos PREFACE) \<Longrightarrow>
          pos + n + length (drop n (b @ raw_bytes rs')) = pos + length (b @ raw_bytes rs')"
        using n(2) by simp
      ultimately show ?thesis
        using IH by (simp add: run out preface_spec_def Let_def del: append_take_drop_id drop_append drop_drop length_append length_drop)
    qed
  qed
qed

section \<open>Properties\<close>

text \<open>C24: whatever the sizes of the reads, the server accepts a connection exactly when the bytes that arrive start with the preface, and
  leaves what follows it to the frames; it refuses them with PROTOCOL_ERROR exactly when they differ from the preface in some byte;
  and as long as they are a part of the preface it has counted each of them, so that the next poll goes on with the rest.\<close>

theorem preface_recognised:
  assumes "pos \<le> length PREFACE"
  shows "preface_spec pos rs (read_preface pos rs)"
  using assms by (rule read_preface_spec)

lemma preface_recognised_witness:
  "preface_spec 3 [RawBytes (ascii '' * HTTP/2.0''), RawBytes [13, 10, 13, 10, 83], RawPending]
     (read_preface 3 [RawBytes (ascii '' * HTTP/2.0''), RawBytes [13, 10, 13, 10, 83], RawPending])"
  by (rule preface_recognised) (simp add: PREFACE_def)

end
