(* ===== verification/Conn_Reader.thy ===== *)
theory Conn_Reader
  imports Streams_Ledger Codec_Types
begin

text \<open>
  What the operations of a connection do to the reading half of its codec: writing frames, flushing and taking written frames back
  never touch it, so the frames that the connection dispatches are typed whatever it has written in between.
\<close>

section \<open>Writing\<close>

definition reader :: "dst \<Rightarrow> framed_read" where
  "reader d = cd_read (ds_codec d)"

lemma codec_buffer_reader: "codec_buffer fnv grow f c = (r, c') \<Longrightarrow> cd_read c' = cd_read c"
  by (auto simp: codec_buffer_def split: prod.splits)

lemma dst_buffer_reader: "dst_buffer E f d = (r, d') \<Longrightarrow> reader d' = reader d"
  by (auto simp: dst_buffer_def reader_def split: prod.splits dest: codec_buffer_reader)

lemma dst_buffer_frame_reader: "dst_buffer_frame E f d = Some d' \<Longrightarrow> reader d' = reader d"
  by (auto simp: dst_buffer_frame_def assert_ok_def split: prod.splits outcome.splits dest: dst_buffer_reader)

text \<open>One rule per construct, as in \<open>Streams_Ledger\<close>; what only changes the streams may do as it likes.\<close>

named_theorems reader_rules "operations that keep the reading half"

lemmas reader_plain [reader_rules] =
  post_bind post_map_option post_if post_case_prod post_case_option post_case_sum post_case_outcome post_let post_check post_question
  post_err_map post_get_stream post_ok_of
  postI [of "prio_pop_frame _ _ _"] postI [of "prio_pop_pending_open _"] postI [of "q_push_front _ _ _ _"]
  postI [of "prio_try_assign_capacity _ _"] postI [of "q_pop _ _"] postI [of "prio_reclaim_frame_inner _ _ _"]

lemma assert_buffer_reader [reader_rules]:
  "reader d = q \<Longrightarrow> (\<And>d'. reader d' = q \<Longrightarrow> P d') \<Longrightarrow> post (assert_ok (dst_buffer E f d)) P"
  by (rule post_assert_ok) (auto dest: dst_buffer_reader)

lemma buffer_frame_reader [reader_rules]:
  "reader d = q \<Longrightarrow> (\<And>d'. reader d' = q \<Longrightarrow> P d') \<Longrightarrow> post (dst_buffer_frame E f d) P"
  unfolding dst_buffer_frame_def by (rule assert_buffer_reader)

lemma assert_window_reader [reader_rules]: "(\<And>y. P y) \<Longrightarrow> post (assert_ok (inc_window fl n)) P"
  by (rule post_assert_ok)

lemma take_last_reader [reader_rules]:
  "reader d = q \<Longrightarrow> (\<And>f d'. reader d' = q \<Longrightarrow> P (f, d')) \<Longrightarrow> post (dst_take_last_data_frame d) P"
  by (rule postI)
    (auto simp: dst_take_last_data_frame_def codec_take_last_data_frame_def reader_def split: prod.splits option.splits)

lemma reclaim_reader [reader_rules]:
  "reader (snd sd) = q \<Longrightarrow> (\<And>b sd'. reader (snd sd') = q \<Longrightarrow> P (b, sd')) \<Longrightarrow> post (prio_reclaim_frame E sd) P"
  unfolding prio_reclaim_frame_def by (auto intro!: reader_rules)

lemma buffer_frame_step_reader [reader_rules]:
  "reader (snd sd) = q \<Longrightarrow> (\<And>r sd'. reader (snd sd') = q \<Longrightarrow> P (r, sd')) \<Longrightarrow> post (buffer_frame_step E n sd) P"
  unfolding buffer_frame_step_def by (auto intro!: reader_rules)

lemma buffer_frames_reader [reader_rules]:
  "reader (snd sd) = q \<Longrightarrow> (\<And>r sd'. reader (snd sd') = q \<Longrightarrow> P (r, sd')) \<Longrightarrow> post (buffer_frames E n sd) P"
proof -
  have "\<forall>E n sd. reader (snd sd) = q \<longrightarrow> post (buffer_frames E n sd) (\<lambda>(r, sd'). reader (snd sd') = q)"
    by (rule buffer_frames.fixp_induct [OF loop_admissible3]) (auto intro!: reader_rules)
  then show "reader (snd sd) = q \<Longrightarrow> (\<And>r sd'. reader (snd sd') = q \<Longrightarrow> P (r, sd')) \<Longrightarrow> post (buffer_frames E n sd) P"
    by (blast intro: post_result)
qed

lemma buffer_pending_reader [reader_rules]:
  "reader (snd sd) = q \<Longrightarrow> (\<And>r sd'. reader (snd sd') = q \<Longrightarrow> P (r, sd')) \<Longrightarrow> post (prio_buffer_pending E sd) P"
  unfolding prio_buffer_pending_def by (auto intro!: reader_rules)

lemma connection_update_reader [reader_rules]:
  "reader (snd sd) = q \<Longrightarrow> (\<And>r sd'. reader (snd sd') = q \<Longrightarrow> P (r, sd')) \<Longrightarrow> post (recv_send_connection_window_update E sd) P"
  unfolding recv_send_connection_window_update_def by (auto intro!: reader_rules)

lemma stream_update_reader:
  "reader d = q \<Longrightarrow> post (recv_send_stream_window_update E k d s) (\<lambda>(d', s'). reader d' = q)"
  unfolding recv_send_stream_window_update_def by (auto intro!: reader_rules)

lemma transition_reader [reader_rules]:
  assumes "reader d = q" "\<And>d' s'. reader d' = q \<Longrightarrow> P (d', s')"
  shows "post (transition k (recv_send_stream_window_update E k d) s) P"
  using assms postD [OF stream_update_reader [OF assms(1)]]
  by (auto simp: transition_def intro!: postI split: bind_splits)

lemma stream_updates_reader [reader_rules]:
  "reader (snd sd) = q \<Longrightarrow> (\<And>r sd'. reader (snd sd') = q \<Longrightarrow> P (r, sd')) \<Longrightarrow> post (recv_send_stream_window_updates E sd) P"
proof -
  have "\<forall>E sd. reader (snd sd) = q \<longrightarrow> post (recv_send_stream_window_updates E sd) (\<lambda>(r, sd'). reader (snd sd') = q)"
    by (rule recv_send_stream_window_updates.fixp_induct [OF loop_admissible2]) (auto intro!: reader_rules)
  then show "reader (snd sd) = q \<Longrightarrow> (\<And>r sd'. reader (snd sd') = q \<Longrightarrow> P (r, sd')) \<Longrightarrow> post (recv_send_stream_window_updates E sd) P"
    by (blast intro: post_result)
qed

lemma inner_buffer_reader [reader_rules]:
  "reader (snd sd) = q \<Longrightarrow> (\<And>r sd'. reader (snd sd') = q \<Longrightarrow> P (r, sd')) \<Longrightarrow> post (inner_buffer_pending E sd) P"
  unfolding inner_buffer_pending_def recv_buffer_pending_def by (auto intro!: reader_rules)

section \<open>The transport\<close>

lemma dst_write_reader:
  "reader (fst dt) = q \<Longrightarrow> (\<And>p dt'. reader (fst dt') = q \<Longrightarrow> P (p, dt')) \<Longrightarrow> post (dst_write f dt) P"
  unfolding dst_write_def by (auto intro!: reader_plain postI [of "f _ _ _"] simp: reader_def)

lemma transport_reader [reader_rules]:
  "reader (fst dt) = q \<Longrightarrow> (\<And>p dt'. reader (fst dt') = q \<Longrightarrow> P (p, dt')) \<Longrightarrow> post (dst_poll_ready E dt) P"
  "reader (fst dt) = q \<Longrightarrow> (\<And>p dt'. reader (fst dt') = q \<Longrightarrow> P (p, dt')) \<Longrightarrow> post (dst_flush E dt) P"
  "reader (fst dt) = q \<Longrightarrow> (\<And>p dt'. reader (fst dt') = q \<Longrightarrow> P (p, dt')) \<Longrightarrow> post (dst_shutdown E dt) P"
  unfolding dst_poll_ready_def dst_flush_def dst_shutdown_def by (auto intro!: reader_plain dst_write_reader)

lemma poll_complete_step_reader [reader_rules]:
  "reader (fst (snd sdt)) = q \<Longrightarrow> (\<And>r sdt'. reader (fst (snd sdt')) = q \<Longrightarrow> P (r, sdt')) \<Longrightarrow> post (poll_complete_step E w sdt) P"
  unfolding poll_complete_step_def inner_reclaim_written_frame_def by (auto intro!: reader_rules)

lemma poll_complete_reader:
  "reader (fst (snd sdt)) = q \<Longrightarrow> post (streams_poll_complete E w sdt) (\<lambda>(r, sdt'). reader (fst (snd sdt')) = q)"
proof -
  have "\<forall>E w sdt. reader (fst (snd sdt)) = q \<longrightarrow> post (streams_poll_complete E w sdt) (\<lambda>(r, sdt'). reader (fst (snd sdt')) = q)"
    by (rule streams_poll_complete.fixp_induct [OF loop_admissible3]) (auto intro!: reader_rules)
  then show "reader (fst (snd sdt)) = q \<Longrightarrow> post (streams_poll_complete E w sdt) (\<lambda>(r, sdt'). reader (fst (snd sdt')) = q)"
    by blast
qed

section \<open>Reading\<close>

definition reader_typed :: "dst \<Rightarrow> bool" where
  "reader_typed d \<longleftrightarrow> partial_typed (fr_decoder (reader d))"

lemma reader_typed_same: "reader d' = reader d \<Longrightarrow> reader_typed d' = reader_typed d"
  by (simp add: reader_typed_def)

lemma poll_next_typed:
  assumes "partial_typed (fr_decoder fr)" "read_poll_next L fr items = (r, fr', items')"
  shows "partial_typed (fr_decoder fr') \<and> (\<forall>f. r = Ready (Some (Ok f)) \<longrightarrow> frame_typed f)"
  using assms
proof (induction L fr items rule: read_poll_next.induct)
  case (4 L fr bs items)
  obtain x fd where "decode_frame L (fr_decoder fr) bs = (x, fd)" by (cases "decode_frame L (fr_decoder fr) bs")
  moreover note decode_frame_typed_step [OF 4(2), of L bs]
  ultimately show ?case
    using 4 by (fastforce simp: typed_result_def split: outcome.splits option.splits)
qed auto

lemma reader_settings_typed:
  "codec_set_max_recv_frame_size n c = Some c' \<Longrightarrow> partial_typed (fr_decoder (cd_read c)) \<Longrightarrow> partial_typed (fr_decoder (cd_read c'))"
  "codec_set_max_recv_header_list_size n c = Some c' \<Longrightarrow> partial_typed (fr_decoder (cd_read c)) \<Longrightarrow> partial_typed (fr_decoder (cd_read c'))"
  "partial_typed (fr_decoder (cd_read (codec_set_recv_header_table_size n c))) \<longleftrightarrow> partial_typed (fr_decoder (cd_read c))"
  by (auto simp: codec_set_max_recv_frame_size_def codec_set_max_recv_header_list_size_def codec_set_recv_header_table_size_def
      fr_set_max_frame_size_def fr_set_max_header_list_size_def fr_set_header_table_size_def fd_set_max_frame_size_def
      fd_set_max_header_list_size_def fd_set_header_table_size_def partial_typed_def split: if_splits)

end
