(* ===== verification/Conn_Steps.thy ===== *)
theory Conn_Steps
  imports Conn_Reader Streams_Steps Server
begin

text \<open>
  The connection refines the transition system of its streams. Whatever the connection, the client, the server and the handles do
  is, on the streams, a sequence of steps of \<open>Streams_Steps\<close>; the frames it dispatches are those of \<open>Codec_Types\<close>, which is
  what the step of a WINDOW_UPDATE frame asks for.
\<close>

section \<open>Runs of the streams\<close>

abbreviation streams_run :: "streams \<Rightarrow> streams \<Rightarrow> bool" where
  "streams_run \<equiv> streams_step\<^sup>*\<^sup>*"

lemma run_then: "streams_run s0 s \<Longrightarrow> streams_step s s' \<Longrightarrow> streams_run s0 s'"
  by (rule rtranclp.rtrancl_into_rtrancl)

lemma run_reachable: "streams_run s s' \<Longrightarrow> streams_reachable s \<Longrightarrow> streams_reachable s'"
  by (induction rule: rtranclp_induct) (auto intro: reach_step)

section \<open>The simulation\<close>

definition conn_sim :: "streams \<Rightarrow> connection \<Rightarrow> bool" where
  "conn_sim s0 c \<longleftrightarrow> streams_run s0 (cn_streams c) \<and> reader_typed (fst (cn_codec c))"

named_theorems conn_rules "operations of the connection"

lemmas conn_plain [conn_rules] =
  post_bind post_map_option post_if post_case_prod post_case_option post_case_sum post_case_outcome post_let post_check post_question
  post_err_map

lemma conn_sim_fields [simp]:
  "conn_sim s0 (c\<lparr>cn_state := st\<rparr>) = conn_sim s0 c" "conn_sim s0 (c\<lparr>cn_error := e\<rparr>) = conn_sim s0 c"
  "conn_sim s0 (c\<lparr>cn_go_away := g\<rparr>) = conn_sim s0 c" "conn_sim s0 (c\<lparr>cn_pending_refusal := p\<rparr>) = conn_sim s0 c"
  "conn_sim s0 (c\<lparr>cn_ping_pong := q\<rparr>) = conn_sim s0 c" "conn_sim s0 (c\<lparr>cn_settings := y\<rparr>) = conn_sim s0 c"
  by (simp_all add: conn_sim_def)

lemmas conn_sim_intros [intro] = conn_sim_fields [THEN iffD2]

lemma conn_sim_step: "conn_sim s0 c \<Longrightarrow> streams_step (cn_streams c) s' \<Longrightarrow> conn_sim s0 (c\<lparr>cn_streams := s'\<rparr>)"
  by (auto simp: conn_sim_def intro: run_then)

lemma conn_sim_codec: "conn_sim s0 c \<Longrightarrow> reader_typed (fst dt) \<Longrightarrow> conn_sim s0 (c\<lparr>cn_codec := dt\<rparr>)"
  by (simp add: conn_sim_def)

definition steps_by :: "(streams \<Rightarrow> ('r \<times> streams) option) \<Rightarrow> bool" where
  "steps_by f \<longleftrightarrow> (\<forall>s r s'. f s = Some (r, s') \<longrightarrow> streams_step s s')"

definition updates_by :: "(streams \<Rightarrow> streams option) \<Rightarrow> bool" where
  "updates_by f \<longleftrightarrow> (\<forall>s s'. f s = Some s' \<longrightarrow> streams_step s s')"

lemma steps_by_rules [conn_rules]:
  "steps_by (inner_recv_headers E v)"
  "steps_by (inner_recv_data E d)"
  "steps_by (inner_recv_reset t)"
  "steps_by (inner_recv_go_away g)"
  "steps_by (inner_recv_push_promise E p)"
  "steps_by (inner_handle_error e)"
  "steps_by (inner_send_reset E i r)"
  "steps_by (streams_set_target_connection_window_size n)"
  "steps_by streams_count_pending_refusal"
  "steps_by streams_next_incoming"
  "steps_by (ref_take_request k)"
  "uint (wu_size_increment wu) < 2 ^ 31 \<Longrightarrow> steps_by (inner_recv_window_update E wu)"
  "updates_by (inner_recv_eof b)"
  "updates_by (recv_clear_expired_reset_streams E)"
  "updates_by (recv_go_away i)"
  "updates_by (opaque_ref_clone k)"
  by (auto simp: steps_by_def updates_by_def intro: streams_step.intros)

lemma on_streams_sim [conn_rules]:
  assumes "steps_by f" "conn_sim s0 c" and P: "\<And>r c'. conn_sim s0 c' \<Longrightarrow> P (r, c')"
  shows "post (on_streams f c) P"
  using assms(1) unfolding on_streams_def
  by (auto simp: steps_by_def intro!: postI P conn_sim_step [OF assms(2)] split: bind_splits)

lemma upd_streams_sim [conn_rules]:
  assumes "updates_by f" "conn_sim s0 c" and P: "\<And>c'. conn_sim s0 c' \<Longrightarrow> P c'"
  shows "post (upd_streams f c) P"
  using assms(1) unfolding upd_streams_def
  by (auto simp: updates_by_def intro!: postI P conn_sim_step [OF assms(2)] split: bind_splits)

text \<open>What touches neither the streams nor the codec.\<close>

lemmas conn_other [conn_rules] =
  postI [of "go_away _ _"] postI [of "go_away_now _ _"] postI [of "go_away_from_user _ _"] postI [of "ping_shutdown _"]
  postI [of "send_settings _ _"] postI [of "sum_of _"] postI [of "recv_ping _ _"] postI [of "poll_sum _"]

section \<open>GOAWAY, settings of the user and errors\<close>

lemma go_away_sim [conn_rules]:
  "conn_sim s0 c \<Longrightarrow> (\<And>c'. conn_sim s0 c' \<Longrightarrow> P c') \<Longrightarrow> post (conn_go_away i r c) P"
  "conn_sim s0 c \<Longrightarrow> (\<And>c'. conn_sim s0 c' \<Longrightarrow> P c') \<Longrightarrow> post (conn_go_away_now r c) P"
  "conn_sim s0 c \<Longrightarrow> (\<And>c'. conn_sim s0 c' \<Longrightarrow> P c') \<Longrightarrow> post (conn_go_away_now_data r data c) P"
  "conn_sim s0 c \<Longrightarrow> (\<And>c'. conn_sim s0 c' \<Longrightarrow> P c') \<Longrightarrow> post (conn_handle_error e c) P"
  unfolding conn_go_away_def conn_go_away_now_def conn_go_away_now_data_def conn_handle_error_def
  by (auto intro!: conn_rules)

lemma go_away_more_sim [conn_rules]:
  "conn_sim s0 c \<Longrightarrow> (\<And>c'. conn_sim s0 c' \<Longrightarrow> P c') \<Longrightarrow> post (conn_go_away_from_user r c) P"
  "conn_sim s0 c \<Longrightarrow> (\<And>c'. conn_sim s0 c' \<Longrightarrow> P c') \<Longrightarrow> post (conn_go_away_gracefully c) P"
  "conn_sim s0 c \<Longrightarrow> (\<And>c'. conn_sim s0 c' \<Longrightarrow> P c') \<Longrightarrow> post (conn_maybe_close_if_no_streams c) P"
  "conn_sim s0 c \<Longrightarrow> (\<And>c'. conn_sim s0 c' \<Longrightarrow> P c') \<Longrightarrow> post (conn_handle_go_away r data ini c) P"
  unfolding conn_go_away_from_user_def conn_go_away_gracefully_def conn_maybe_close_if_no_streams_def conn_handle_go_away_def
  by (auto intro!: conn_rules)

lemma settings_sim [conn_rules]:
  "conn_sim s0 c \<Longrightarrow> (\<And>c'. conn_sim s0 c' \<Longrightarrow> P c') \<Longrightarrow> post (conn_set_target_window_size sz c) P"
  "conn_sim s0 c \<Longrightarrow> (\<And>r c'. conn_sim s0 c' \<Longrightarrow> Q (r, c')) \<Longrightarrow> post (conn_send_settings v c) Q"
  unfolding conn_set_target_window_size_def conn_send_settings_def
  by (auto intro!: conn_rules)

lemma handle_io_error_sim [conn_rules]:
  "conn_sim s0 c \<Longrightarrow> (\<And>r c'. conn_sim s0 c' \<Longrightarrow> P (r, c')) \<Longrightarrow> post (conn_handle_io_error k m c) P"
  unfolding conn_handle_io_error_def by (auto intro!: conn_rules)

lemma handle_result_sim [conn_rules]:
  "conn_sim s0 c \<Longrightarrow> (\<And>r c'. conn_sim s0 c' \<Longrightarrow> P (r, c')) \<Longrightarrow> post (conn_handle_poll2_result E result c) P"
  unfolding conn_handle_poll2_result_def by (auto intro!: conn_rules split: proto_error.splits)

section \<open>Polling\<close>

lemma ready_question_sim [conn_rules]:
  "post m (\<lambda>(r, c). case r of
      Pending \<Rightarrow> P (Pending, c)
    | Ready (Inl e) \<Rightarrow> P (Ready (Inl e), c)
    | Ready (Inr x) \<Rightarrow> post (f x c) P) \<Longrightarrow> post (ready_question m f) P"
  by (cases m) (auto simp: ready_question_def split: poll.splits sum.splits)

lemma post_case_poll [conn_rules]:
  "(\<And>x. p = Ready x \<Longrightarrow> post (f x) P) \<Longrightarrow> (p = Pending \<Longrightarrow> post g P) \<Longrightarrow> post (case p of Ready x \<Rightarrow> f x | Pending \<Rightarrow> g) P"
  by (cases p) simp_all

lemma dst_buffer_frame_same: "dst_buffer_frame E f d = Some d' \<Longrightarrow> cd_read (ds_codec d') = cd_read (ds_codec d)"
  using postD [OF buffer_frame_reader [of d "reader d" "\<lambda>d'. reader d' = reader d"]] by (simp add: reader_def)

lemma buffer_typed: "dst_buffer_frame E f d = Some d' \<Longrightarrow> reader_typed d \<Longrightarrow> reader_typed d'"
  by (simp add: reader_typed_def reader_def dst_buffer_frame_same)

declare on_codec.simps [simp del]

lemma codec_op_typed: "conn_codec_op E op d = Some d' \<Longrightarrow> reader_typed d \<Longrightarrow> reader_typed d'"
  by (cases op)
    (auto simp: reader_typed_def reader_def codec_set_send_header_table_size_def codec_set_max_send_frame_size_def reader_settings_typed(3)
      dest: reader_settings_typed(1,2) dst_buffer_frame_same)

lemma on_codec_sim:
  assumes "\<And>x d d'. f x d = Some d' \<Longrightarrow> reader_typed d \<Longrightarrow> reader_typed d'"
    and "conn_sim s0 c" and P: "\<And>c'. conn_sim s0 c' \<Longrightarrow> P c'"
  shows "post (on_codec f xs c) P"
  using assms(2)
proof (induction xs arbitrary: c)
  case (Cons x xs)
  obtain d t where d: "cn_codec c = (d, t)" by (cases "cn_codec c")
  show ?case
  proof (cases "f x d")
    case (Some d')
    then have "conn_sim s0 (c\<lparr>cn_codec := (d', t)\<rparr>)"
      using Cons.prems assms(1) [OF Some] by (simp add: conn_sim_def d)
    then show ?thesis using Cons.IH Some by (simp add: d on_codec.simps)
  qed (simp add: d on_codec.simps)
qed (simp add: P on_codec.simps)

lemmas on_codec_rules [conn_rules] =
  on_codec_sim [where f = "conn_codec_op E" for E, OF codec_op_typed]
  on_codec_sim [where f = "\<lambda>x. dst_buffer_frame E (g x)" for E g, OF buffer_typed]

lemma poll_ready_sim [conn_rules]:
  assumes c: "conn_sim s0 c" and P: "\<And>p c'. conn_sim s0 c' \<Longrightarrow> P (p, c')"
  shows "post (poll_ready_when E b c) P"
proof -
  have "conn_sim s0 (c\<lparr>cn_codec := dt\<rparr>)" if "reader (fst dt) = reader (fst (cn_codec c))" for dt
    using c that by (simp add: conn_sim_def reader_typed_def)
  then show ?thesis
    unfolding poll_ready_when_def by (intro conn_plain transport_reader [where q = "reader (fst (cn_codec c))"]) (auto intro: P c)
qed

lemma send_parts_sim [conn_rules]:
  "conn_sim s0 c \<Longrightarrow> (\<And>r c'. conn_sim s0 c' \<Longrightarrow> P (r, c')) \<Longrightarrow> post (conn_poll_go_away E c) P"
  "conn_sim s0 c \<Longrightarrow> (\<And>r c'. conn_sim s0 c' \<Longrightarrow> Q (r, c')) \<Longrightarrow> post (conn_poll_pong E c) Q"
  "conn_sim s0 c \<Longrightarrow> (\<And>r c'. conn_sim s0 c' \<Longrightarrow> Q (r, c')) \<Longrightarrow> post (conn_poll_ping E w c) Q"
  "conn_sim s0 c \<Longrightarrow> (\<And>r c'. conn_sim s0 c' \<Longrightarrow> Q (r, c')) \<Longrightarrow> post (conn_poll_local_settings E c) Q"
  unfolding conn_poll_go_away_def conn_poll_pong_def conn_poll_ping_def conn_poll_local_settings_def
  by (auto intro!: conn_rules split: poll.splits option.splits sum.splits)

lemma poll_refusal_sim [conn_rules]:
  assumes c: "conn_sim s0 c" and P: "\<And>r c'. conn_sim s0 c' \<Longrightarrow> P (r, c')"
  shows "post (conn_poll_refusal E c) P"
  unfolding conn_poll_refusal_def by (auto intro!: conn_rules c P split: poll.splits sum.splits)

lemma streams_apply_cases: "streams_apply f s = (r, s') \<Longrightarrow> (\<exists>x. f s = Some (x, s')) \<or> s' = s"
  by (auto simp: streams_apply_def split: option.splits sum.splits prod.splits)

lemma poll_send_remote_streams:
  "poll_send_remote ap ready (y, s) = (ops, r, (y', s')) \<Longrightarrow> s' = s \<or> (\<exists>v b x. ap v b s = (x, s'))"
  by (auto simp: poll_send_remote_def Let_def split: option.splits io_poll.splits outcome.splits prod.splits)

lemma recv_settings_streams:
  "recv_settings ap v (y, s) = Some (ops, r, (y', s')) \<Longrightarrow> s' = s \<or> (\<exists>l x. ap l s = (x, s'))"
  by (auto simp: recv_settings_def Let_def split: if_splits option.splits outcome.splits prod.splits local_settings.splits)

lemma settings_exchange_sim:
  assumes c: "conn_sim s0 c" and s': "s' = cn_streams c \<or> streams_step (cn_streams c) s'"
  shows "conn_sim s0 (c\<lparr>cn_settings := y, cn_streams := s'\<rparr>)"
  using c s' by (auto simp: conn_sim_def intro: run_then)

lemma remote_settings_sim [conn_rules]:
  assumes c: "conn_sim s0 c" and P: "\<And>r c'. conn_sim s0 c' \<Longrightarrow> P (r, c')"
  shows "post (conn_poll_remote_settings E c) P"
proof -
  have "conn_sim s0 (c'\<lparr>cn_settings := y, cn_streams := s'\<rparr>)"
    if "poll_send_remote (\<lambda>v b. streams_apply (streams_apply_remote_settings E v b)) ready (cn_settings c', cn_streams c') =
        (ops, r, (y, s'))" "conn_sim s0 c'"
    for c' ops r y s' ready
    using that(2) poll_send_remote_streams [OF that(1)]
    by (intro settings_exchange_sim) (auto dest!: streams_apply_cases intro: step_remote_settings)
  then show ?thesis
    unfolding conn_poll_remote_settings_def by (auto intro!: conn_rules c P dest: sym)
qed

lemma conn_recv_settings_sim [conn_rules]:
  assumes c: "conn_sim s0 c" and P: "\<And>r c'. conn_sim s0 c' \<Longrightarrow> P (r, c')"
  shows "post (conn_recv_settings E v c) P"
proof -
  have "conn_sim s0 (c\<lparr>cn_settings := y, cn_streams := s'\<rparr>)"
    if "recv_settings (\<lambda>l. streams_apply (recv_apply_local_settings l)) v (cn_settings c, cn_streams c) = Some (ops, r, (y, s'))"
    for ops r y s'
    using c recv_settings_streams [OF that]
    by (intro settings_exchange_sim) (auto dest!: streams_apply_cases intro: step_local_settings)
  then show ?thesis
    unfolding conn_recv_settings_def
    by (auto intro!: conn_plain on_codec_rules P postI [of "recv_settings _ _ _"] postI [of "sum_of _"])
qed

lemma poll_frame_sim [conn_rules]:
  assumes c: "conn_sim s0 c" and P: "\<And>r c'. conn_sim s0 c' \<Longrightarrow> (\<forall>f. r = Ready (Inr (Some f)) \<longrightarrow> frame_typed f) \<Longrightarrow> P (r, c')"
  shows "post (conn_poll_frame L c) P"
proof -
  obtain d t where d: "cn_codec c = (d, t)" by (cases "cn_codec c")
  obtain r fr items where read: "read_poll_next L (cd_read (ds_codec d)) (tr_reads t) = (r, fr, items)"
    by (cases "read_poll_next L (cd_read (ds_codec d)) (tr_reads t)")
  have typed: "partial_typed (fr_decoder fr) \<and> (\<forall>f. r = Ready (Some (Ok f)) \<longrightarrow> frame_typed f)"
    using poll_next_typed [OF _ read] c by (simp add: conn_sim_def d reader_typed_def reader_def)
  then have "conn_sim s0 (c\<lparr>cn_codec := (d\<lparr>ds_codec := (ds_codec d)\<lparr>cd_read := fr\<rparr>\<rparr>, t\<lparr>tr_reads := items\<rparr>)\<rparr>)"
    using c by (simp add: conn_sim_def d reader_typed_def reader_def)
  then show ?thesis
    using typed unfolding conn_poll_frame_def
    by (auto simp: d codec_poll_next_def read sum_of_def intro!: conn_plain post_case_poll P split: outcome.splits)
qed

section \<open>Receiving a frame\<close>

lemma typed_increment:
  assumes "frame_typed (FrameWindowUpdate wu)"
  shows "uint (wu_size_increment wu) < 2 ^ 31"
proof -
  have "int (unat (wu_size_increment wu)) < int (2 ^ 31)" using assms by (simp only: frame_typed.simps of_nat_less_iff)
  then show ?thesis by simp
qed

lemma recv_ping_sim [conn_rules]:
  "conn_sim s0 c \<Longrightarrow> (\<And>c'. conn_sim s0 c' \<Longrightarrow> P c') \<Longrightarrow> post (conn_recv_ping f c) P"
  unfolding conn_recv_ping_def by (auto intro!: conn_rules)

lemma recv_frame_sim [conn_rules]:
  assumes c: "conn_sim s0 c" and f: "\<forall>v. f = Some v \<longrightarrow> frame_typed v" and P: "\<And>r c'. conn_sim s0 c' \<Longrightarrow> P (r, c')"
  shows "post (conn_recv_frame E f c) P"
proof (cases f)
  case None
  then show ?thesis by (auto simp: conn_recv_frame_def intro!: conn_rules c P)
next
  case (Some v)
  then show ?thesis
  proof (cases v)
    case (FrameWindowUpdate wu)
    have "frame_typed (FrameWindowUpdate wu)" using f Some FrameWindowUpdate by blast
    then have "uint (wu_size_increment wu) < 2 ^ 31" by (rule typed_increment)
    then show ?thesis
      by (simp add: conn_recv_frame_def Some FrameWindowUpdate)
        (intro post_question on_streams_sim steps_by_rules, auto intro: c P split: sum.splits)
  qed (auto simp: conn_recv_frame_def Some intro!: post_question post_bind on_streams_sim steps_by_rules recv_ping_sim c P split: sum.splits)
qed

lemma dispatch_sim [conn_rules]:
  assumes c: "conn_sim s0 c" and P: "\<And>r c'. conn_sim s0 c' \<Longrightarrow> P (r, c')"
  shows "post (poll2_dispatch E f c) P"
  unfolding poll2_dispatch_def
  by (cases f) (auto intro!: conn_rules c P postI [of "check _"] split: sum.splits)

section \<open>The loops\<close>

lemma conn_poll_ready_sim [conn_rules]:
  assumes c: "conn_sim s0 c" and P: "\<And>r c'. conn_sim s0 c' \<Longrightarrow> P (r, c')"
  shows "post (conn_poll_ready E w c) P"
  unfolding conn_poll_ready_def by (auto intro!: conn_rules c P split: poll.splits sum.splits)

lemma poll2_read_sim [conn_rules]:
  assumes c: "conn_sim s0 c" and P: "\<And>r c'. conn_sim s0 c' \<Longrightarrow> P (r, c')"
  shows "post (poll2_read E L w c) P"
  unfolding poll2_read_def by (auto intro!: conn_rules c P split: poll.splits sum.splits)

lemma poll2_step_sim [conn_rules]:
  assumes c: "conn_sim s0 c" and P: "\<And>r c'. conn_sim s0 c' \<Longrightarrow> P (r, c')"
  shows "post (poll2_step E L w c) P"
  unfolding poll2_step_def by (auto intro!: conn_rules c P split: poll.splits sum.splits)

lemma poll2_loop_sim [conn_rules]:
  assumes c: "conn_sim s0 c" and P: "\<And>r c'. conn_sim s0 c' \<Longrightarrow> P (r, c')"
  shows "post (poll2_loop E L w c) P"
proof -
  have "\<forall>E L w c. conn_sim s0 c \<longrightarrow> post (poll2_loop E L w c) (\<lambda>(r, c'). conn_sim s0 c')"
    by (rule poll2_loop.fixp_induct [OF loop_admissible4]) (auto intro!: conn_rules split: poll.splits sum.splits loop_flow.splits)
  then show ?thesis using c P by (blast intro: post_result)
qed

lemma poll_pending_sim [conn_rules]:
  assumes c: "conn_sim s0 c" and P: "\<And>r c'. conn_sim s0 c' \<Longrightarrow> P (r, c')"
  shows "post (poll_pending E w c) P"
proof -
  obtain d t where d: "cn_codec c = (d, t)" by (cases "cn_codec c")
  have "conn_sim s0 (c\<lparr>cn_streams := s', cn_codec := dt'\<rparr>)"
    if "streams_poll_complete E w (cn_streams c, cn_codec c) = Some (p, (s', dt'))" for p s' dt'
  proof -
    have "streams_step (cn_streams c) s'" using that by (cases dt') (simp add: d step_poll_complete)
    moreover have "reader (fst dt') = reader d"
      using postD [OF poll_complete_reader [of "(cn_streams c, cn_codec c)" "reader d" E w] that] by (simp add: d)
    ultimately show ?thesis using c by (auto simp: conn_sim_def d reader_typed_def intro: run_then)
  qed
  then show ?thesis
    unfolding poll_pending_def
    by (auto simp: Let_def intro!: conn_plain go_away_sim P postI [of "streams_poll_complete _ _ _"])
qed

lemma shutdown_sim:
  assumes c: "conn_sim s0 c" and P: "\<And>p dt. conn_sim s0 (c\<lparr>cn_codec := dt\<rparr>) \<Longrightarrow> P (p, dt)"
  shows "post (dst_shutdown E (cn_codec c)) P"
proof (rule transport_reader(3))
  show "P (p, dt)" if "reader (fst dt) = reader (fst (cn_codec c))" for p dt
    using c that by (intro P conn_sim_codec) (auto simp: conn_sim_def reader_typed_def)
qed simp

lemma take_error_sim: "conn_sim s0 c \<Longrightarrow> conn_take_error r ini c = (e, c') \<Longrightarrow> conn_sim s0 c'"
  by (auto simp: conn_take_error_def Let_def split: option.splits)

lemma poll_step_sim [conn_rules]:
  assumes c: "conn_sim s0 c" and P: "\<And>r c'. conn_sim s0 c' \<Longrightarrow> P (r, c')"
  shows "post (poll_step E L w c) P"
  unfolding poll_step_def conn_poll2_def
  by (cases "cn_state c")
    (auto simp: Let_def intro!: conn_rules c P shutdown_sim [OF c] dest: take_error_sim [OF c] split: poll.splits)

lemma conn_poll_sim [conn_rules]:
  assumes c: "conn_sim s0 c" and P: "\<And>r c'. conn_sim s0 c' \<Longrightarrow> P (r, c')"
  shows "post (conn_poll E L w c) P"
proof -
  have "\<forall>E L w c. conn_sim s0 c \<longrightarrow> post (conn_poll E L w c) (\<lambda>(r, c'). conn_sim s0 c')"
    by (rule conn_poll.fixp_induct [OF loop_admissible4]) (auto intro!: conn_rules split: option.splits)
  then show ?thesis using c P by (blast intro: post_result)
qed

end
