(* ===== verification/System.thy ===== *)
theory System
  imports Conn_Steps Flow_Reach
begin

text \<open>
  The whole program as one transition system: a connection that a handshake made, and whatever the client, the server and the
  handles do with it, in any order. Every reachable state is reachable for the streams (\<open>Streams_Steps\<close>), so the invariants of the
  streams hold in it. The handles that a user holds are not kept in the state: a step may use any key.
\<close>

section \<open>Handles\<close>

text \<open>Each operation of a handle is one step of the streams; one rule for each of them.\<close>

named_theorems run_rules "operations of the handles"

lemmas run_plain [run_rules] = conn_plain post_case_poll

lemma run_by:
  assumes "steps_by f" "streams_run s0 s" "\<And>r s'. streams_run s0 s' \<Longrightarrow> P (r, s')"
  shows "post (f s) P"
  using assms by (auto simp: steps_by_def intro!: postI assms(3) elim: run_then)

lemma update_by:
  assumes "updates_by f" "streams_run s0 s" "\<And>s'. streams_run s0 s' \<Longrightarrow> P s'"
  shows "post (f s) P"
  using assms by (auto simp: updates_by_def intro!: postI assms(3) elim: run_then)

lemma handle_steps:
  "steps_by (ref_poll_capacity w k)" "steps_by (ref_send_data E b eos k)" "steps_by (ref_send_trailers E m k)"
  "steps_by (ref_poll_reset w mode k)" "steps_by (opaque_poll_data E w k)" "steps_by (opaque_poll_trailers E w k)"
  "steps_by (opaque_release_capacity n k)" "steps_by (opaque_poll_response w k)" "steps_by (opaque_poll_informational E w k)"
  "steps_by (opaque_poll_pushed w k)" "steps_by (ref_send_informational_headers E hf k)" "steps_by (ref_send_response E rp eos k)"
  "steps_by (ref_send_push_promise E rq k)" "steps_by (streams_poll_pending_open w p)" "steps_by (streams_send_request E rq eos p)"
  by (auto simp: steps_by_def intro: streams_step.intros)

lemma handle_updates:
  "updates_by (ref_reserve_capacity n k)" "updates_by (ref_send_reset E r k)" "updates_by (opaque_clear_recv_buffer k)"
  "updates_by (drop_stream_ref E k)" "updates_by (opaque_ref_clone k)" "updates_by streams_drop"
  by (auto simp: updates_by_def intro: streams_step.intros)

lemmas handle_rules [run_rules] = handle_steps [THEN run_by] handle_updates [THEN update_by]

definition runs_by :: "(streams \<Rightarrow> ('r \<times> streams) option) \<Rightarrow> bool" where
  "runs_by f \<longleftrightarrow> (\<forall>s. post (f s) (\<lambda>(r, s'). streams_run s s'))"

definition changes_by :: "(streams \<Rightarrow> streams option) \<Rightarrow> bool" where
  "changes_by f \<longleftrightarrow> (\<forall>s. post (f s) (streams_run s))"

lemma runs_byD: "runs_by f \<Longrightarrow> f s = Some (r, s') \<Longrightarrow> streams_run s s'"
  unfolding runs_by_def by (blast dest: postD)

lemma changes_byD: "changes_by f \<Longrightarrow> f s = Some s' \<Longrightarrow> streams_run s s'"
  unfolding changes_by_def by (blast dest: postD)

lemma handle_runs:
  "runs_by (send_stream_poll_capacity w k)" "runs_by (send_stream_send_data E b eos k)" "runs_by (send_stream_send_trailers E m k)"
  "runs_by (send_stream_poll_reset w k)" "runs_by (recv_stream_poll_data E w k)" "runs_by (recv_stream_poll_trailers E w k)"
  "runs_by (flow_control_release_capacity n k)" "runs_by (response_future_poll w k)"
  "runs_by (response_future_poll_informational E w k)" "runs_by (response_future_push_promises c k)"
  "runs_by (push_promises_poll w k)" "runs_by (send_response_informational E rp k)" "runs_by (send_response_send E rp eos k)"
  "runs_by (send_response_push_request E rq k)" "runs_by (send_response_poll_reset w k)"
  unfolding runs_by_def send_stream_poll_capacity_def send_stream_send_data_def send_stream_send_trailers_def
    send_stream_poll_reset_def recv_stream_poll_data_def recv_stream_poll_trailers_def flow_control_release_capacity_def
    response_future_poll_def response_future_poll_informational_def response_future_push_promises_def push_promises_poll_def
    send_response_informational_def send_response_send_def send_response_push_request_def send_response_poll_reset_def
  by (auto intro!: run_rules postI [of "opaque_stream_id _ _"])

lemma handle_changes:
  "changes_by (send_stream_reserve_capacity n k)" "changes_by (send_stream_send_reset E r k)" "changes_by (recv_stream_drop E k)"
  "changes_by (send_response_send_reset E r k)" "changes_by (opaque_ref_clone k)" "changes_by (drop_stream_ref E k)"
  unfolding changes_by_def send_stream_reserve_capacity_def send_stream_send_reset_def recv_stream_drop_def
    send_response_send_reset_def
  by (auto intro!: run_rules)

lemma drop_pending_run [run_rules]:
  "streams_run s0 s \<Longrightarrow> (\<And>s'. streams_run s0 s' \<Longrightarrow> P s') \<Longrightarrow> post (drop_pending E p s) P"
  unfolding drop_pending_def by (auto intro!: run_rules)

lemma poll_ready_runs: "post (send_request_poll_ready E w h) (\<lambda>(r, h'). streams_run (snd h) (snd h'))"
  unfolding send_request_poll_ready_def by (auto intro!: run_rules)

lemma poll_ready_run [run_rules]:
  assumes "streams_run s0 (snd h)" "\<And>r h'. streams_run s0 (snd h') \<Longrightarrow> P (r, h')"
  shows "post (send_request_poll_ready E w h) P"
  by (rule post_mono [OF poll_ready_runs]) (auto intro!: assms(2) intro: rtranclp_trans [OF assms(1)])

lemma send_request_runs:
  "post (send_request_send E rq eos h) (\<lambda>(r, h'). streams_run (snd h) (snd h'))"
  "post (ready_send_request_poll E w b h) (\<lambda>(r, h'). streams_run (snd h) (snd h'))"
  "post (send_request_drop E h) (streams_run (snd h))"
  "streams_run (snd h) (snd (fst (send_request_clone h)))"
  unfolding send_request_send_def ready_send_request_poll_def send_request_drop_def
  by (auto intro!: run_rules postI [of "ref_is_pending_open _ _"] simp: send_request_clone_def
      intro: r_into_rtranclp step_clone split: poll.splits sum.splits)

section \<open>The connection\<close>

lemma public_sim [conn_rules]:
  "conn_sim s0 c \<Longrightarrow> (\<And>c'. conn_sim s0 c' \<Longrightarrow> P c') \<Longrightarrow> post (public_set_target_window_size n c) P"
  "conn_sim s0 c \<Longrightarrow> (\<And>r c'. conn_sim s0 c' \<Longrightarrow> Q (r, c')) \<Longrightarrow> post (public_set_initial_window_size n c) Q"
  "conn_sim s0 c \<Longrightarrow> (\<And>r c'. conn_sim s0 c' \<Longrightarrow> Q (r, c')) \<Longrightarrow> post (server_enable_connect_protocol c) Q"
  unfolding public_set_target_window_size_def public_set_initial_window_size_def server_enable_connect_protocol_def
    conn_set_initial_window_size_def conn_set_enable_connect_protocol_def
  by (auto intro!: conn_rules)

lemma client_poll_sim: "conn_sim s0 c \<Longrightarrow> post (client_connection_poll E L w c) (\<lambda>(r, c'). conn_sim s0 c')"
  unfolding client_connection_poll_def by (auto intro!: conn_rules)

lemma server_poll_sim [conn_rules]:
  "conn_sim s0 c \<Longrightarrow> (\<And>r c'. conn_sim s0 c' \<Longrightarrow> P (r, c')) \<Longrightarrow> post (server_poll_closed E L w c) P"
  unfolding server_poll_closed_def by (auto intro!: conn_rules)

lemma server_accept_sim: "conn_sim s0 c \<Longrightarrow> post (server_poll_accept E L w c) (\<lambda>(r, c'). conn_sim s0 c')"
  unfolding server_poll_accept_def by (auto intro!: conn_rules)

section \<open>Handshakes\<close>

lemma codec_new_typed: "codec_new vectored n = Some c \<Longrightarrow> partial_typed (fr_decoder (cd_read c))"
  by (auto simp: codec_new_def codec_with_max_recv_frame_size_def framed_read_new_def frame_decoder_new_def fr_set_max_frame_size_def
      fd_set_max_frame_size_def partial_typed_def split: option.splits if_splits)

lemma handshake_codec_typed: "handshake_codec E vectored n v = Some d \<Longrightarrow> reader_typed d"
  by (auto simp: handshake_codec_def bind_eq_Some_conv reader_typed_def reader_def dst_buffer_frame_same
      dest!: codec_new_typed split: option.splits intro: reader_settings_typed(1,2))
    (metis reader_settings_typed(1,2))+

lemma connection_new_sim: "connection_new peer (d, io) cfg = Some c \<Longrightarrow> reader_typed d \<Longrightarrow>
    streams_reachable (cn_streams c) \<and> conn_sim (cn_streams c) c"
  by (auto simp: connection_new_def bind_eq_Some_conv conn_sim_def intro: reach_new)

lemma target_window_sim:
  assumes "conn_sim s0 c" "target_window_from n c = Some c'"
  shows "conn_sim s0 c'"
proof -
  have "post (target_window_from n c) (conn_sim s0)"
    using assms(1) unfolding target_window_from_def by (auto intro!: conn_rules split: option.splits)
  then show ?thesis using assms(2) by (rule postD)
qed

text \<open>A connection whose streams are reachable and whose codec reads typed frames.\<close>

definition conn_sound :: "connection \<Rightarrow> bool" where
  "conn_sound c \<longleftrightarrow> streams_reachable (cn_streams c) \<and> reader_typed (fst (cn_codec c))"

lemma sound_sim: "conn_sound c \<Longrightarrow> conn_sim (cn_streams c) c"
  by (simp add: conn_sound_def conn_sim_def)

lemma sim_sound: "conn_sim s0 c \<Longrightarrow> streams_reachable s0 \<Longrightarrow> conn_sound c"
  by (auto simp: conn_sound_def conn_sim_def intro: run_reachable)

lemma sound_streams: "conn_sound c \<Longrightarrow> streams_run (cn_streams c) s' \<Longrightarrow> conn_sound (c\<lparr>cn_streams := s'\<rparr>)"
  by (auto simp: conn_sound_def intro: run_reachable)

lemma client_handshake_sound:
  assumes "client_handshake2 wa E vectored n io b = Some (Inr c)"
  shows "conn_sound c"
proof -
  obtain d c0 io' where d: "handshake_codec E vectored n (cb_settings b) = Some d"
      and c0: "connection_new Client (d, io') (client_config b) = Some c0"
      and c: "target_window_from (cb_initial_target_connection_window_size b) (c0\<lparr>cn_streams := streams_clone (cn_streams c0)\<rparr>) = Some c"
    using assms by (auto simp: client_handshake2_def bind_eq_Some_conv split: prod.splits sum.splits)
  note new = connection_new_sim [OF c0 handshake_codec_typed [OF d]]
  then have "conn_sim (cn_streams c0) (c0\<lparr>cn_streams := streams_clone (cn_streams c0)\<rparr>)"
    by (auto intro: conn_sim_step step_clone)
  from target_window_sim [OF this c] show ?thesis using new by (blast intro: sim_sound)
qed

text \<open>The states of the server's handshake, however often it is polled and whatever the transport does.\<close>

fun handshake_typed :: "handshaking \<Rightarrow> bool" where
  "handshake_typed (Flushing d) \<longleftrightarrow> reader_typed d"
| "handshake_typed (ReadingPreface d _) \<longleftrightarrow> reader_typed d"
| "handshake_typed HandshakeDone \<longleftrightarrow> True"

inductive server_handshaking :: "server_builder \<Rightarrow> handshaking \<Rightarrow> bool" for b where
  handshake_start: "server_handshake2 E vectored n b = Some h \<Longrightarrow> server_handshaking b h"
| handshake_again: "server_handshaking b h \<Longrightarrow> handshake_poll E b h io = Some (r, h', io') \<Longrightarrow> server_handshaking b h'"

lemma handshake_reading_sound:
  assumes "handshake_reading b d pos io = Some (r, h', io')" "reader_typed d"
  shows "handshake_typed h' \<and> (\<forall>c. r = Ready (Inr c) \<longrightarrow> conn_sound c)"
  using assms
  by (auto simp: handshake_reading_def Let_def bind_eq_Some_conv split: prod.splits poll.splits sum.splits
      dest!: connection_new_sim intro: sim_sound [OF target_window_sim])

lemma handshake_poll_sound:
  assumes "handshake_poll E b h io = Some (r, h', io')" "handshake_typed h"
  shows "handshake_typed h' \<and> (\<forall>c. r = Ready (Inr c) \<longrightarrow> conn_sound c)"
proof (cases h)
  case (Flushing d)
  have "reader (fst dt') = reader d" if "dst_flush E (d, si_transport io) = Some (p, dt')" for p dt'
    using postD [OF transport_reader(2) [of "(d, si_transport io)" "reader d" "\<lambda>(p, dt'). reader (fst dt') = reader d"] that] by simp
  moreover obtain p d' t where "dst_flush E (d, si_transport io) = Some (p, (d', t))"
    using assms(1) by (auto simp: Flushing handshake_poll_def bind_eq_Some_conv)
  ultimately show ?thesis
    using assms by (cases p) (auto simp: Flushing handshake_poll_def Let_def reader_typed_def dest!: handshake_reading_sound)
qed (use assms in \<open>auto simp: handshake_poll_def dest: handshake_reading_sound\<close>)

lemma server_handshaking_typed: "server_handshaking b h \<Longrightarrow> handshake_typed h"
  by (induction rule: server_handshaking.induct)
    (auto simp: server_handshake2_def dest: handshake_codec_typed handshake_poll_sound)

section \<open>Steps\<close>

inductive handle_step :: "streams \<Rightarrow> streams \<Rightarrow> bool" where
  handle_reserve: "send_stream_reserve_capacity n k s = Some s' \<Longrightarrow> handle_step s s'"
| handle_poll_capacity: "send_stream_poll_capacity w k s = Some (r, s') \<Longrightarrow> handle_step s s'"
| handle_send_data: "send_stream_send_data E b eos k s = Some (r, s') \<Longrightarrow> handle_step s s'"
| handle_send_trailers: "send_stream_send_trailers E m k s = Some (r, s') \<Longrightarrow> handle_step s s'"
| handle_send_reset: "send_stream_send_reset E rs k s = Some s' \<Longrightarrow> handle_step s s'"
| handle_poll_reset: "send_stream_poll_reset w k s = Some (r, s') \<Longrightarrow> handle_step s s'"
| handle_poll_data: "recv_stream_poll_data E w k s = Some (r, s') \<Longrightarrow> handle_step s s'"
| handle_poll_trailers: "recv_stream_poll_trailers E w k s = Some (r, s') \<Longrightarrow> handle_step s s'"
| handle_drop_body: "recv_stream_drop E k s = Some s' \<Longrightarrow> handle_step s s'"
| handle_release: "flow_control_release_capacity n k s = Some (r, s') \<Longrightarrow> handle_step s s'"
| handle_poll_response: "response_future_poll w k s = Some (r, s') \<Longrightarrow> handle_step s s'"
| handle_poll_informational: "response_future_poll_informational E w k s = Some (r, s') \<Longrightarrow> handle_step s s'"
| handle_push_promises: "response_future_push_promises b k s = Some (r, s') \<Longrightarrow> handle_step s s'"
| handle_poll_push: "push_promises_poll w k s = Some (r, s') \<Longrightarrow> handle_step s s'"
| handle_informational: "send_response_informational E rp k s = Some (r, s') \<Longrightarrow> handle_step s s'"
| handle_respond: "send_response_send E rp eos k s = Some (r, s') \<Longrightarrow> handle_step s s'"
| handle_push_request: "send_response_push_request E rq k s = Some (r, s') \<Longrightarrow> handle_step s s'"
| handle_respond_reset: "send_response_send_reset E rs k s = Some s' \<Longrightarrow> handle_step s s'"
| handle_respond_poll_reset: "send_response_poll_reset w k s = Some (r, s') \<Longrightarrow> handle_step s s'"
| handle_clone: "opaque_ref_clone k s = Some s' \<Longrightarrow> handle_step s s'"
| handle_drop: "drop_stream_ref E k s = Some s' \<Longrightarrow> handle_step s s'"
| handle_ready: "send_request_poll_ready E w (p, s) = Some (r, (p', s')) \<Longrightarrow> handle_step s s'"
| handle_request: "send_request_send E rq eos (p, s) = Some (x, (p', s')) \<Longrightarrow> handle_step s s'"
| handle_request_ready: "ready_send_request_poll E w b (p, s) = Some (y, (p', s')) \<Longrightarrow> handle_step s s'"
| handle_request_clone: "send_request_clone (p, s) = ((p', s'), z) \<Longrightarrow> handle_step s s'"
| handle_request_drop: "send_request_drop E (p, s) = Some s' \<Longrightarrow> handle_step s s'"

lemma handle_run: "handle_step s s' \<Longrightarrow> streams_run s s'"
proof (induction rule: handle_step.induct)
  case (handle_ready E w p s r p' s')
  then show ?case using postD [OF poll_ready_runs [of E w "(p, s)"]] by fastforce
next
  case (handle_request E rq eos p s x p' s')
  then show ?case using postD [OF send_request_runs(1) [of E rq eos "(p, s)"]] by fastforce
next
  case (handle_request_ready E w b p s y p' s')
  then show ?case using postD [OF send_request_runs(2) [of E w b "(p, s)"]] by fastforce
next
  case (handle_request_drop E p s s')
  then show ?case using postD [OF send_request_runs(3) [of E "(p, s)"]] by fastforce
next
  case (handle_request_clone p s p' s' z)
  then show ?case using send_request_runs(4) [of "(p, s)"] by simp
qed (erule handle_runs [THEN runs_byD] handle_changes [THEN changes_byD])+

inductive conn_step :: "connection \<Rightarrow> connection \<Rightarrow> bool" where
  client_poll: "client_connection_poll E L w c = Some (r, c') \<Longrightarrow> conn_step c c'"
| server_closed: "server_poll_closed E L w c = Some (r, c') \<Longrightarrow> conn_step c c'"
| server_accept: "server_poll_accept E L w c = Some (q, c') \<Longrightarrow> conn_step c c'"
| abrupt: "server_abrupt_shutdown rs c = Some c' \<Longrightarrow> conn_step c c'"
| graceful: "server_graceful_shutdown c = Some c' \<Longrightarrow> conn_step c c'"
| target_window: "public_set_target_window_size n c = Some c' \<Longrightarrow> conn_step c c'"
| initial_window: "public_set_initial_window_size n c = Some (x, c') \<Longrightarrow> conn_step c c'"
| connect_protocol: "server_enable_connect_protocol c = Some (x, c') \<Longrightarrow> conn_step c c'"
| take_ping: "public_ping_pong c = (b, c') \<Longrightarrow> conn_step c c'"
| send_ping: "pp_user_pings (cn_ping_pong c) = Some u \<Longrightarrow> ping_pong_send_ping u = Some (y, u') \<Longrightarrow>
    conn_step c (c\<lparr>cn_ping_pong := (cn_ping_pong c)\<lparr>pp_user_pings := Some u'\<rparr>\<rparr>)"
| poll_pong: "pp_user_pings (cn_ping_pong c) = Some u \<Longrightarrow> ping_pong_poll_pong w u = Some (z, u') \<Longrightarrow>
    conn_step c (c\<lparr>cn_ping_pong := (cn_ping_pong c)\<lparr>pp_user_pings := Some u'\<rparr>\<rparr>)"
| drop_connection: "conn_drop c = Some c' \<Longrightarrow> conn_step c c'"
| use_handle: "handle_step (cn_streams c) s' \<Longrightarrow> conn_step c (c\<lparr>cn_streams := s'\<rparr>)"

lemma simI:
  "m = Some c' \<Longrightarrow> post m (conn_sim s0) \<Longrightarrow> conn_sim s0 c'"
  "m' = Some (r, c') \<Longrightarrow> post m' (\<lambda>(r, c'). conn_sim s0 c') \<Longrightarrow> conn_sim s0 c'"
  by simp_all

lemma conn_step_sim:
  assumes "conn_step c c'" "conn_sim s0 c"
  shows "conn_sim s0 c'"
  using assms
proof (induction rule: conn_step.induct)
  case (use_handle c s')
  then show ?case by (auto simp: conn_sim_def dest!: handle_run)
next
  case (take_ping c b c')
  then show ?case by (auto simp: public_ping_pong_def split: prod.splits)
qed ((erule simI, auto intro!: conn_rules client_poll_sim server_accept_sim
      simp: server_abrupt_shutdown_def server_graceful_shutdown_def conn_drop_def; fail) | simp)+

lemma conn_step_sound: "conn_step c c' \<Longrightarrow> conn_sound c \<Longrightarrow> conn_sound c'"
  using sim_sound [OF conn_step_sim [OF _ sound_sim]] by (auto simp: conn_sound_def)

inductive conn_reachable :: "connection \<Rightarrow> bool" where
  reach_client: "client_handshake2 wa E vectored n io b = Some (Inr c) \<Longrightarrow> conn_reachable c"
| reach_server: "server_handshaking b h \<Longrightarrow> handshake_poll E b h io = Some (Ready (Inr c), h', io') \<Longrightarrow> conn_reachable c"
| reach_conn_step: "conn_reachable c \<Longrightarrow> conn_step c c' \<Longrightarrow> conn_reachable c'"

lemma conn_reachable_sound: "conn_reachable c \<Longrightarrow> conn_sound c"
  by (induction rule: conn_reachable.induct)
    (auto intro: client_handshake_sound conn_step_sound dest: handshake_poll_sound server_handshaking_typed)

text \<open>A client's connection that sends a request.\<close>

definition sample_write_all :: "transport write_all" where
  "sample_write_all b t = (Inr (), t)"

definition sample_transport :: transport where
  "sample_transport = \<lparr>tr_writes = [], tr_flushes = [], tr_shutdowns = [], tr_reads = []\<rparr>"

definition sample_get :: request where
  "sample_get = sample_post\<lparr>rq_method := ascii ''GET''\<rparr>"


definition sample_client_streams :: "streams option" where
  "sample_client_streams = map_option streams_clone (streams_new Client (streams_config (client_config client_builder_new)))"

lemma sample_get_sent: "case do { s \<leftarrow> sample_client_streams; streams_send_request sample_env sample_get False None s } of
   Some (Inr (k, b), s) \<Rightarrow> k = sample_key \<and> \<not> b \<and>
     map_option send_avail (opaque_ref_clone k s) = Some 65535 \<and> ref_is_pending_open k s \<noteq> None
   | _ \<Rightarrow> False"
  by code_simp

lemma sample_codec: "handshake_codec sample_env True 16384 (cb_settings client_builder_new) \<noteq> None"
  by code_simp

lemma sample_handshake:
  obtains s c where "sample_client_streams = Some s" "conn_reachable c" "cn_streams c = s"
proof -
  obtain s where s: "sample_client_streams = Some s" using sample_get_sent by (cases sample_client_streams) auto
  moreover obtain d where "handshake_codec sample_env True 16384 (cb_settings client_builder_new) = Some d"
    using sample_codec by auto
  moreover have "cb_initial_target_connection_window_size client_builder_new = None" by (simp add: client_builder_new_def)
  ultimately have "\<exists>c. client_handshake2 sample_write_all sample_env True 16384 sample_transport client_builder_new = Some (Inr c) \<and>
      cn_streams c = s"
    by (auto simp: client_handshake2_def bind_connection_def sample_write_all_def sample_client_streams_def
        target_window_from_def connection_new_def)
  then show thesis by (auto intro: that [OF s] reach_client)
qed

lemma sample_request_step:
  assumes "sample_client_streams = Some s"
  obtains s' where "handle_step s s'" "send_avail s' = 65535"
proof -
  obtain s1 s2 w where "streams_send_request sample_env sample_get False None s = Some (Inr (sample_key, False), s1)"
      "opaque_ref_clone sample_key s1 = Some s2" "send_avail s2 = 65535" "ref_is_pending_open sample_key s1 = Some w"
    using sample_get_sent unfolding assms by (auto split: option.split_asm prod.split_asm sum.split_asm)
  then have "send_request_send sample_env sample_get False (None, s) = Some (Inr sample_key, (None, s2))"
    by (simp add: send_request_send_def)
  from that [OF handle_request [OF this]] show thesis using \<open>send_avail s2 = 65535\<close> by simp
qed

section \<open>Properties\<close>

text \<open>C6: the connection refines its streams. In every state that a connection can reach from the handshake of a client or a server,
  through polls, shutdowns, settings and any use of the handles, the streams are in a state that their own transition system reaches;
  its flow control accounts balance; and the codec returns only typed frames from there, whatever the peer sends.\<close>

theorem connection_refines_streams:
  assumes "conn_reachable c"
  shows "streams_reachable (cn_streams c) \<and> flow_inv 0 0 (cn_streams c) \<and>
    (\<forall>L r fr items. read_poll_next L (reader (fst (cn_codec c))) items = (Ready (Some (Ok f)), fr, r) \<longrightarrow> frame_typed f)"
  using conn_reachable_sound [OF assms]
  by (auto simp: conn_sound_def reader_typed_def dest: reachable_flow poll_next_typed)

lemma connection_refines_streams_witness:
  "\<exists>c. conn_reachable c \<and> streams_reachable (cn_streams c) \<and> flow_inv 0 0 (cn_streams c) \<and> send_avail (cn_streams c) = 65535"
proof -
  obtain s c where c: "sample_client_streams = Some s" "conn_reachable c" "cn_streams c = s" by (rule sample_handshake)
  then obtain s' where "handle_step s s'" "send_avail s' = 65535" using sample_request_step [of s] by blast
  with c have "conn_reachable (c\<lparr>cn_streams := s'\<rparr>)" by (auto intro: reach_conn_step use_handle)
  from this connection_refines_streams [OF this] show ?thesis using \<open>send_avail s' = 65535\<close> by (intro exI conjI) auto
qed

end
