(* ===== verification/Conn_Outcomes.thy ===== *)
theory Conn_Outcomes
  imports System
begin

text \<open>
  What \<open>Connection::poll\<close> reports when it is ready. A poll is a sequence of rounds, the iterations of its loop; it ends with an
  I/O error or in the round that finds the connection closed, and what it reports there is determined by the
  reason it was closed for and by the GOAWAY of the peer, if there was one. The error of a single stream
  never ends the connection, and a clean close stays one.
\<close>

section \<open>What the rounds keep\<close>

text \<open>While the connection is open, no operation of a round closes it, and the peer's GOAWAY is not forgotten
  (\<open>b\<close>: one was received before).\<close>

definition open_told :: "bool \<Rightarrow> connection \<Rightarrow> bool" where
  "open_told b c \<longleftrightarrow> cn_state c = ConnOpen \<and> (b \<longrightarrow> cn_error c \<noteq> None)"

text \<open>The reason of a GOAWAY this side has announced.\<close>

definition announced_reason :: "connection \<Rightarrow> reason option" where
  "announced_reason c = map_option goi_reason (gos_going_away (cn_go_away c))"

definition closing_for :: "connection \<Rightarrow> reason \<Rightarrow> bool" where
  "closing_for c r \<longleftrightarrow> r = NO_ERROR \<or> announced_reason c = Some r"

definition round_ok :: "bool \<Rightarrow> bool \<Rightarrow> connection \<Rightarrow> bool" where
  "round_ok a b c \<longleftrightarrow> (b \<longrightarrow> cn_error c \<noteq> None) \<and>
     (a \<longrightarrow> (case cn_state c of ConnOpen \<Rightarrow> True | ConnClosing r _ \<Rightarrow> closing_for c r | ConnClosed r _ \<Rightarrow> closing_for c r))"

named_theorems told_rules "operations of an open connection"

lemmas told_plain [told_rules] =
  post_bind post_map_option post_if post_case_prod post_case_option post_case_sum post_case_outcome post_let post_check post_question
  post_err_map post_case_poll ready_question_sim conn_other postI [of "dst_poll_ready _ _"] postI [of "streams_poll_complete _ _ _"]
  postI [of "recv_settings _ _ _"] postI [of "dst_buffer_frame _ _ _"]

lemma open_told_fields [simp]:
  "open_told b (c\<lparr>cn_go_away := g\<rparr>) = open_told b c" "open_told b (c\<lparr>cn_pending_refusal := p\<rparr>) = open_told b c"
  "open_told b (c\<lparr>cn_ping_pong := q\<rparr>) = open_told b c" "open_told b (c\<lparr>cn_settings := y\<rparr>) = open_told b c"
  "open_told b (c\<lparr>cn_streams := s\<rparr>) = open_told b c" "open_told b (c\<lparr>cn_codec := d\<rparr>) = open_told b c"
  "open_told b c \<Longrightarrow> open_told b (c\<lparr>cn_error := Some f\<rparr>)"
  by (simp_all add: open_told_def)

lemma open_told_round: "open_told b c \<Longrightarrow> round_ok a b c"
  by (simp add: open_told_def round_ok_def)

lemma streams_told [told_rules]:
  "open_told b c \<Longrightarrow> (\<And>r c'. open_told b c' \<Longrightarrow> P (r, c')) \<Longrightarrow> post (on_streams f c) P"
  "open_told b c \<Longrightarrow> (\<And>c'. open_told b c' \<Longrightarrow> Q c') \<Longrightarrow> post (upd_streams g c) Q"
  unfolding on_streams_def upd_streams_def by (auto intro!: postI split: bind_splits)

lemma on_codec_told [told_rules]:
  assumes "open_told b c" and P: "\<And>c'. open_told b c' \<Longrightarrow> P c'"
  shows "post (on_codec f xs c) P"
  using assms(1)
proof (induction xs arbitrary: c)
  case (Cons x xs)
  obtain d t where d: "cn_codec c = (d, t)" by (cases "cn_codec c")
  show ?case
    using Cons by (cases "f x d") (simp_all add: d on_codec.simps)
qed (simp add: P on_codec.simps)

lemma go_away_told [told_rules]:
  "open_told b c \<Longrightarrow> (\<And>c'. open_told b c' \<Longrightarrow> P c') \<Longrightarrow> post (conn_go_away i r c) P"
  "open_told b c \<Longrightarrow> (\<And>c'. open_told b c' \<Longrightarrow> P c') \<Longrightarrow> post (conn_go_away_now r c) P"
  "open_told b c \<Longrightarrow> (\<And>c'. open_told b c' \<Longrightarrow> P c') \<Longrightarrow> post (conn_go_away_now_data r data c) P"
  "open_told b c \<Longrightarrow> (\<And>c'. open_told b c' \<Longrightarrow> P c') \<Longrightarrow> post (conn_handle_error e c) P"
  unfolding conn_go_away_def conn_go_away_now_def conn_go_away_now_data_def conn_handle_error_def
  by (auto intro!: told_rules)

lemma handle_go_away_told [told_rules]:
  "open_told b c \<Longrightarrow> (\<And>c'. round_ok a b c' \<Longrightarrow> P c') \<Longrightarrow> post (conn_handle_go_away r data ini c) P"
  unfolding conn_handle_go_away_def
  by (auto intro!: told_rules open_told_round
      simp: round_ok_def open_told_def closing_for_def announced_reason_def split: option.splits)

lemma handle_io_told [told_rules]:
  "open_told b c \<Longrightarrow> (\<And>r c'. round_ok a b c' \<Longrightarrow> P (r, c')) \<Longrightarrow> post (conn_handle_io_error k m c) P"
  unfolding conn_handle_io_error_def
  by (auto intro!: told_rules open_told_round) (auto simp: round_ok_def open_told_def closing_for_def)

lemma handle_result_told [told_rules]:
  "open_told b c \<Longrightarrow> (\<And>r c'. round_ok a b c' \<Longrightarrow> P (r, c')) \<Longrightarrow> post (conn_handle_poll2_result E result c) P"
  unfolding conn_handle_poll2_result_def
  by (auto intro!: told_rules intro: open_told_round split: proto_error.splits)
    (auto simp: round_ok_def open_told_def closing_for_def)

lemma poll_ready_told [told_rules]:
  "open_told b c \<Longrightarrow> (\<And>p c'. open_told b c' \<Longrightarrow> P (p, c')) \<Longrightarrow> post (poll_ready_when E x c) P"
  unfolding poll_ready_when_def by (auto intro!: told_rules)

lemma send_parts_told [told_rules]:
  "open_told b c \<Longrightarrow> (\<And>r c'. open_told b c' \<Longrightarrow> P (r, c')) \<Longrightarrow> post (conn_poll_go_away E c) P"
  "open_told b c \<Longrightarrow> (\<And>r c'. open_told b c' \<Longrightarrow> Q (r, c')) \<Longrightarrow> post (conn_poll_pong E c) Q"
  "open_told b c \<Longrightarrow> (\<And>r c'. open_told b c' \<Longrightarrow> Q (r, c')) \<Longrightarrow> post (conn_poll_ping E w c) Q"
  "open_told b c \<Longrightarrow> (\<And>r c'. open_told b c' \<Longrightarrow> Q (r, c')) \<Longrightarrow> post (conn_poll_local_settings E c) Q"
  "open_told b c \<Longrightarrow> (\<And>r c'. open_told b c' \<Longrightarrow> Q (r, c')) \<Longrightarrow> post (conn_poll_remote_settings E c) Q"
  unfolding conn_poll_go_away_def conn_poll_pong_def conn_poll_ping_def conn_poll_local_settings_def
    conn_poll_remote_settings_def
  by (auto simp del: on_codec.simps intro!: told_rules split: poll.splits option.splits sum.splits)

lemma refusal_told [told_rules]:
  assumes "open_told b c" and P: "\<And>r c'. open_told b c' \<Longrightarrow> P (r, c')"
  shows "post (conn_poll_refusal E c) P"
  unfolding conn_poll_refusal_def using assms(1)
  by (auto simp del: on_codec.simps intro!: told_rules P split: poll.splits option.splits sum.splits)

lemma poll_frame_told [told_rules]:
  "open_told b c \<Longrightarrow> (\<And>r c'. open_told b c' \<Longrightarrow> P (r, c')) \<Longrightarrow> post (conn_poll_frame L c) P"
  unfolding conn_poll_frame_def by (auto intro!: told_rules)

lemma receive_told [told_rules]:
  "open_told b c \<Longrightarrow> (\<And>r c'. open_told b c' \<Longrightarrow> P (r, c')) \<Longrightarrow> post (conn_recv_settings E v c) P"
  "open_told b c \<Longrightarrow> (\<And>c'. open_told b c' \<Longrightarrow> Q c') \<Longrightarrow> post (conn_recv_ping g c) Q"
  unfolding conn_recv_settings_def conn_recv_ping_def by (auto intro!: told_rules)

lemma recv_frame_told [told_rules]:
  assumes "open_told b c" "\<And>r c'. open_told b c' \<Longrightarrow> P (r, c')"
  shows "post (conn_recv_frame E f c) P"
proof (cases f)
  case (Some v)
  then show ?thesis
    using assms by (cases v) (auto simp: conn_recv_frame_def intro!: told_rules split: sum.splits)
qed (use assms in \<open>auto simp: conn_recv_frame_def intro!: told_rules\<close>)

lemma poll2_told [told_rules]:
  "open_told b c \<Longrightarrow> (\<And>r c'. open_told b c' \<Longrightarrow> P (r, c')) \<Longrightarrow> post (poll2_dispatch E f c) P"
  "open_told b c \<Longrightarrow> (\<And>r c'. open_told b c' \<Longrightarrow> Q (r, c')) \<Longrightarrow> post (conn_poll_ready E w c) Q"
  unfolding poll2_dispatch_def conn_poll_ready_def
  by (auto intro!: told_rules postI [of "check _"] split: received_frame.splits poll.splits sum.splits)

lemma poll2_read_told [told_rules]:
  "open_told b c \<Longrightarrow> (\<And>r c'. open_told b c' \<Longrightarrow> P (r, c')) \<Longrightarrow> post (poll2_read E L w c) P"
  unfolding poll2_read_def by (auto intro!: told_rules split: poll.splits sum.splits)

lemma poll2_step_told [told_rules]:
  "open_told b c \<Longrightarrow> (\<And>r c'. open_told b c' \<Longrightarrow> P (r, c')) \<Longrightarrow> post (poll2_step E L w c) P"
  unfolding poll2_step_def by (auto intro!: told_rules split: poll.splits sum.splits option.splits)

lemma poll2_loop_told [told_rules]:
  assumes c: "open_told b c" and P: "\<And>r c'. open_told b c' \<Longrightarrow> P (r, c')"
  shows "post (poll2_loop E L w c) P"
proof -
  have "\<forall>E L w c. open_told b c \<longrightarrow> post (poll2_loop E L w c) (\<lambda>(r, c'). open_told b c')"
    by (rule poll2_loop.fixp_induct [OF loop_admissible4]) (auto intro!: told_rules split: poll.splits sum.splits loop_flow.splits)
  then show ?thesis using c P by (blast intro: post_result)
qed

lemma conn_poll2_told [told_rules]:
  "open_told b c \<Longrightarrow> (\<And>r c'. open_told b c' \<Longrightarrow> P (r, c')) \<Longrightarrow> post (conn_poll2 E L w c) P"
  unfolding conn_poll2_def by (auto intro!: told_rules)

lemma poll_pending_told [told_rules]:
  "open_told b c \<Longrightarrow> (\<And>r c'. open_told b c' \<Longrightarrow> P (r, c')) \<Longrightarrow> post (poll_pending E w c) P"
  unfolding poll_pending_def by (auto simp: Let_def intro!: told_rules)

text \<open>A round that goes on.\<close>

lemma poll_step_round:
  assumes "poll_step E L w c = Some (None, c')" "round_ok a b c"
  shows "round_ok a b c'"
proof (cases "cn_state c")
  case ConnOpen
  with assms(2) have c: "open_told b c" by (simp add: open_told_def round_ok_def)
  have "post (poll_step E L w c) (\<lambda>(_, c'). round_ok a b c')"
    unfolding poll_step_def ConnOpen
    by (auto intro!: told_rules c intro: open_told_round split: poll.splits)
  from postD [OF this assms(1)] show ?thesis by simp
next
  case (ConnClosing r ini)
  with assms show ?thesis
    by (auto simp: poll_step_def Let_def bind_eq_Some_conv round_ok_def closing_for_def announced_reason_def
        split: if_splits)
qed (use assms in \<open>auto simp: poll_step_def split: prod.splits\<close>)

section \<open>How a poll ends\<close>

lemma io_error_io: "conn_handle_io_error kind m c = Some (Inl e, c') \<Longrightarrow> e = ErrIo kind m"
  by (auto simp: conn_handle_io_error_def bind_eq_Some_conv split: if_splits)

lemma poll2_result_io:
  assumes "conn_handle_poll2_result E result c = Some (Inl e, c')"
  shows "\<exists>kind m. e = ErrIo kind m"
proof (cases result)
  case (Inl e0)
  show ?thesis
  proof (cases e0)
    case (ErrReset i r ini)
    then show ?thesis using assms Inl
      by (auto simp: conn_handle_poll2_result_def bind_eq_Some_conv split: if_splits sum.split_asm)
        (metis obj_sumE surj_pair old.unit.exhaust)
  qed (use assms Inl in \<open>auto simp: conn_handle_poll2_result_def bind_eq_Some_conv dest: io_error_io\<close>)
qed (use assms in \<open>simp add: conn_handle_poll2_result_def\<close>)

text \<open>The rounds of one poll.\<close>

definition poll_rounds :: "env \<Rightarrow> header_lib \<Rightarrow> waker \<Rightarrow> connection \<Rightarrow> connection \<Rightarrow> bool" where
  "poll_rounds E L w = (\<lambda>c c'. poll_step E L w c = Some (None, c'))\<^sup>*\<^sup>*"

lemma poll_rounds_ok:
  assumes "poll_rounds E L w c c1" "round_ok a b c"
  shows "round_ok a b c1"
  using assms unfolding poll_rounds_def
  by (induction rule: rtranclp_induct) (auto intro: poll_step_round)

text \<open>What a closed connection reports: the peer's error if it gave one, else its own reason, else success.\<close>

definition closing_result :: "go_away_frame option \<Rightarrow> reason \<Rightarrow> initiator \<Rightarrow> proto_error + unit" where
  "closing_result err ours ini =
    (case err of
       Some f \<Rightarrow>
         if ga_error_code f \<noteq> NO_ERROR then Inl (ErrGoAway (ga_debug_data f) (ga_error_code f) Remote)
         else if ours = NO_ERROR then Inr () else Inl (ErrGoAway [] ours ini)
     | None \<Rightarrow> if ours = NO_ERROR then Inr () else Inl (ErrGoAway [] ours ini))"

lemma take_error_result:
  "conn_take_error ours ini c = (closing_result (cn_error c) ours ini, c\<lparr>cn_error := None\<rparr>)"
  by (auto simp: conn_take_error_def closing_result_def remote_go_away_def split: option.splits)

definition poll_end :: "connection \<Rightarrow> (proto_error + unit) poll \<Rightarrow> connection \<Rightarrow> bool" where
  "poll_end c p c' \<longleftrightarrow> (\<forall>r. p = Ready r \<longrightarrow>
     (\<exists>kind m. r = Inl (ErrIo kind m)) \<or>
     (\<exists>ours ini. cn_state c = ConnClosed ours ini \<and> c' = c\<lparr>cn_error := None\<rparr> \<and>
        r = closing_result (cn_error c) ours ini))"

lemma io_sum_end: "p \<noteq> IoReady \<Longrightarrow> poll_end c (io_sum p) c'"
  by (cases p) (auto simp: io_sum_def poll_end_def)

lemma poll_pending_end: "poll_pending E w c = Some (Some p, c') \<Longrightarrow> poll_end c0 p c'"
  using io_sum_end [of _ c0 c']
  by (auto simp: poll_pending_def Let_def bind_eq_Some_conv poll_end_def [of _ Pending] split: if_splits)

lemma poll_step_end:
  assumes "poll_step E L w c = Some (Some p, c')"
  shows "poll_end c p c'"
proof (cases "cn_state c")
  case ConnOpen
  then obtain r c1 where "conn_poll2 E L w c = Some (r, c1)" using assms by (auto simp: poll_step_def bind_eq_Some_conv)
  moreover have "poll_end c p c'" if "r = Ready x" "conn_handle_poll2_result E x c1 = Some (q, c2)" for x q c2
    using that calculation assms ConnOpen poll2_result_io [of E x c1]
    by (cases q) (auto simp: poll_step_def poll_end_def)
  ultimately show ?thesis using assms ConnOpen
    by (cases r) (auto simp: poll_step_def bind_eq_Some_conv dest: poll_pending_end)
next
  case (ConnClosing r ini)
  then show ?thesis using assms
    by (auto simp: poll_step_def Let_def bind_eq_Some_conv intro: io_sum_end split: if_splits)
qed (use assms in \<open>auto simp: poll_step_def take_error_result poll_end_def\<close>)

text \<open>A poll that returns went through rounds and ended in a last one.\<close>

lemma conn_poll_rounds:
  assumes "conn_poll E L w c = Some (p, c')"
  obtains c1 where "poll_rounds E L w c c1" "poll_step E L w c1 = Some (Some p, c')"
proof -
  have "\<forall>E L w c. True \<longrightarrow> post (conn_poll E L w c) (\<lambda>(p, c').
      \<exists>c1. poll_rounds E L w c c1 \<and> poll_step E L w c1 = Some (Some p, c'))"
  proof (rule conn_poll.fixp_induct [OF loop_admissible4], simp)
    fix rec
    assume IH: "\<forall>E L w c. True \<longrightarrow> post (rec E L w c) (\<lambda>(p, c').
      \<exists>c1. poll_rounds E L w c c1 \<and> poll_step E L w c1 = Some (Some p, c'))"
    show "\<forall>E L w c. True \<longrightarrow> post (Option.bind (poll_step E L w c) (\<lambda>(r, c).
        case r of None \<Rightarrow> rec E L w c | Some p \<Rightarrow> Some (p, c)))
      (\<lambda>(p, c'). \<exists>c1. poll_rounds E L w c c1 \<and> poll_step E L w c1 = Some (Some p, c'))"
    proof (intro allI impI post_bind postI [of "poll_step _ _ _ _"])
      fix E L w c y
      assume step: "poll_step E L w c = Some y"
      obtain r c2 where y: "y = (r, c2)" by (cases y)
      show "post (case y of (r, c) \<Rightarrow> case r of None \<Rightarrow> rec E L w c | Some p \<Rightarrow> Some (p, c))
        (\<lambda>(p, c'). \<exists>c1. poll_rounds E L w c c1 \<and> poll_step E L w c1 = Some (Some p, c'))"
      proof (cases r)
        case None
        have "poll_rounds E L w c c1" if "poll_rounds E L w c2 c1" for c1
          using step that by (simp add: y None poll_rounds_def converse_rtranclp_into_rtranclp)
        then show ?thesis
          using post_mono [OF IH [rule_format], of E L w c2] by (force simp: y None)
      next
        case (Some p)
        then show ?thesis using step by (auto simp: y poll_rounds_def)
      qed
    qed
  qed
  then have "post (conn_poll E L w c) (\<lambda>(p, c'). \<exists>c1. poll_rounds E L w c c1 \<and> poll_step E L w c1 = Some (Some p, c'))"
    by blast
  from postD [OF this assms] show thesis using that by auto
qed

lemma closed_again:
  assumes "cn_state c = ConnClosed NO_ERROR ini" "cn_error c = None"
  shows "conn_poll E L w c = Some (Ready (Inr ()), c)"
  using assms by (subst conn_poll.simps) (simp add: poll_step_def conn_take_error_def)

section \<open>Properties\<close>

text \<open>C7: how a connection ends. A poll that is ready reports an I/O error, or its rounds have led to a closed connection and it
  reports the end of that: the peer's error code and debug data if the peer sent a GOAWAY with an
  error; else the reason this side closed for, if that is an error; else success. So success means that
  neither side gave an error, and the error of a stream is never reported. A GOAWAY that was received before
  is not lost on the way, and a reason of this side is the one its GOAWAY announced. After
  the poll the peer's error is taken, and after a success every later poll succeeds and changes nothing.\<close>

theorem poll_outcomes:
  assumes "conn_poll E L w c = Some (Ready r, c')"
  shows "(\<exists>kind m. r = Inl (ErrIo kind m)) \<or>
    (\<exists>c1 ours ini. poll_rounds E L w c c1 \<and> cn_state c1 = ConnClosed ours ini \<and> c' = c1\<lparr>cn_error := None\<rparr> \<and>
       (case cn_error c1 of
          Some f \<Rightarrow>
            r = (if ga_error_code f \<noteq> NO_ERROR then Inl (ErrGoAway (ga_debug_data f) (ga_error_code f) Remote)
                 else if ours = NO_ERROR then Inr () else Inl (ErrGoAway [] ours ini))
        | None \<Rightarrow> r = (if ours = NO_ERROR then Inr () else Inl (ErrGoAway [] ours ini))) \<and>
       (cn_error c \<noteq> None \<longrightarrow> cn_error c1 \<noteq> None) \<and>
       (cn_state c = ConnOpen \<longrightarrow> ours = NO_ERROR \<or> announced_reason c1 = Some ours) \<and>
       (r = Inr () \<longrightarrow> (\<forall>E L w. conn_poll E L w c' = Some (Ready (Inr ()), c'))))"
proof -
  obtain c1 where rounds: "poll_rounds E L w c c1" and last: "poll_step E L w c1 = Some (Some (Ready r), c')"
    by (rule conn_poll_rounds [OF assms])
  show ?thesis
  proof (cases "\<exists>kind m. r = Inl (ErrIo kind m)")
    case False
    with poll_step_end [OF last] obtain ours ini where c1: "cn_state c1 = ConnClosed ours ini"
        "c' = c1\<lparr>cn_error := None\<rparr>" "r = closing_result (cn_error c1) ours ini"
      by (auto simp: poll_end_def)
    have told: "cn_error c1 \<noteq> None" if "cn_error c \<noteq> None"
      using poll_rounds_ok [OF rounds, of False True] that by (simp add: round_ok_def)
    have announced: "ours = NO_ERROR \<or> announced_reason c1 = Some ours" if "cn_state c = ConnOpen"
      using poll_rounds_ok [OF rounds, of True False] that c1(1) by (simp add: round_ok_def closing_for_def)
    have again: "conn_poll E L w c' = Some (Ready (Inr ()), c')" if "r = Inr ()" for E L w
      by (rule closed_again [of _ ini])
        (use that c1 in \<open>auto simp: closing_result_def split: option.splits if_splits\<close>)
    show ?thesis
      using rounds c1 told announced again
      by (intro disjI2 exI [of _ c1] exI [of _ ours] exI [of _ ini])
        (auto simp: closing_result_def split: option.splits)
  qed blast
qed

text \<open>A connection that closed cleanly on this side after the peer's GOAWAY with an error.\<close>

lemma poll_outcomes_witness:
  "\<exists>(c :: connection) c'. cn_state c = ConnClosed NO_ERROR Library \<and>
     cn_error c = Some (go_away_new (StreamId 1) ENHANCE_YOUR_CALM) \<and>
     conn_poll sample_env sample_lib 0 c = Some (Ready (Inl (ErrGoAway [] ENHANCE_YOUR_CALM Remote)), c') \<and> cn_error c' = None"
proof -
  obtain c :: connection where c: "cn_error c = Some (go_away_new (StreamId 1) ENHANCE_YOUR_CALM)"
      "cn_state c = ConnClosed NO_ERROR Library"
    by (metis connection.select_convs(2,3))
  obtain r c' where step: "poll_step sample_env sample_lib 0 c = Some (Some (Ready r), c')"
    using c by (simp add: poll_step_def take_error_result)
  then have poll: "conn_poll sample_env sample_lib 0 c = Some (Ready r, c')" by (subst conn_poll.simps) simp
  have last: "poll_rounds sample_env sample_lib 0 c c1 \<Longrightarrow> c1 = c" for c1
    unfolding poll_rounds_def by (erule converse_rtranclpE) (auto simp: step)
  have "r = Inl (ErrGoAway [] ENHANCE_YOUR_CALM Remote) \<and> cn_error c' = None"
    using poll_outcomes [OF poll] c step last
    by (auto simp: poll_step_def conn_take_error_def go_away_new_def remote_go_away_def ENHANCE_YOUR_CALM_def NO_ERROR_def)
  with c poll show ?thesis by blast
qed

end
