(* ===== verification/Buffer_Drain.thy ===== *)
theory Buffer_Drain
  imports Streams_Ledger Streams_Sample
begin

text \<open>
  The loops that empty the deque of one stream end, and what they leave: the slots of that deque are free again, in the buffer that
  all streams share, and the deques of the other streams are as they were.
\<close>

lemma put_put_stream: "put_stream k y (put_stream k x s) = put_stream k y s"
  by (simp add: put_stream_def store_put_def)

lemma put_stream_buffer:
  "(put_stream k x s)\<lparr>ss_send_buffer := b\<rparr> = put_stream k x (s\<lparr>ss_send_buffer := b\<rparr>)"
  "(put_stream k x s)\<lparr>ss_recv := v\<rparr> = put_stream k x (s\<lparr>ss_recv := v\<rparr>)"
  "(put_stream k x s)\<lparr>ss_counts := c\<rparr> = put_stream k x (s\<lparr>ss_counts := c\<rparr>)"
  by (simp_all add: put_stream_def)

lemma restrict_upd_None: "(m(i := None)) |` (- A) = m |` (- insert i A)"
  by (auto simp: restrict_map_def)

lemma restrict_all: "m |` (- {}) = m" "m |` UNIV = m"
  by (auto simp: restrict_map_def)

lemma drop_frames_drains:
  "get_stream k s = Some x \<Longrightarrow> deque_keys (st_pending_send x, ss_send_buffer s) ks \<Longrightarrow>
     drop_frames k s = Some (put_stream k (x\<lparr>st_pending_send := None\<rparr>) (s\<lparr>ss_send_buffer := ss_send_buffer s |` (- set ks)\<rparr>))"
proof (induction ks arbitrary: s x)
  case Nil
  then show ?case
    by (subst drop_frames.simps) (simp add: frame_pop_front_def deque_keys_Nil deque_pop_front_def restrict_all)
next
  case (Cons i ks)
  obtain d where pop: "deque_pop_front (st_pending_send x, ss_send_buffer s) =
        Some (Some (slot_value (the (ss_send_buffer s i))), (d, (ss_send_buffer s)(i := None)))"
      and keys: "deque_keys (d, (ss_send_buffer s)(i := None)) ks"
    using deque_pop_front_keys [OF Cons.prems(2)] by blast
  let ?y = "x\<lparr>st_pending_send := d\<rparr>" and ?s = "s\<lparr>ss_send_buffer := (ss_send_buffer s)(i := None)\<rparr>"
  have "get_stream k (put_stream k ?y ?s) = Some ?y"
    using Cons.prems(1) by (intro get_stream_put [of _ _ x]) (simp_all add: get_stream_def)
  from Cons.IH [OF this] keys show ?case
    by (subst drop_frames.simps)
      (simp add: frame_pop_front_def Cons.prems(1) pop put_put_stream put_stream_buffer restrict_upd_None del: fun_upd_apply restrict_fun_upd)
qed

text \<open>The received events that nobody read; what they release is counted on the way.\<close>

lemma drop_events_drains:
  "get_stream k s = Some x \<Longrightarrow> deque_keys (st_pending_recv x, rv_buffer (ss_recv s)) ks \<Longrightarrow>
     \<exists>m c. drop_events k lim n s = Some (m, put_stream k (x\<lparr>st_pending_recv := None\<rparr>)
       (s\<lparr>ss_recv := (ss_recv s)\<lparr>rv_buffer := rv_buffer (ss_recv s) |` (- set ks)\<rparr>, ss_counts := c\<rparr>))"
proof (induction ks arbitrary: s x n)
  case Nil
  then show ?case
    by (subst drop_events.simps) (auto simp: event_pop_front_def deque_keys_Nil deque_pop_front_def restrict_all intro!: exI [of _ "ss_counts s"])
next
  case (Cons i ks)
  obtain d where pop: "deque_pop_front (st_pending_recv x, rv_buffer (ss_recv s)) =
        Some (Some (slot_value (the (rv_buffer (ss_recv s) i))), (d, (rv_buffer (ss_recv s))(i := None)))"
      and keys: "deque_keys (d, (rv_buffer (ss_recv s))(i := None)) ks"
    using deque_pop_front_keys [OF Cons.prems(2)] by blast
  obtain n' c where drop: "drop_event (slot_value (the (rv_buffer (ss_recv s) i))) lim n (ss_counts s) = (n', c)"
    by (cases "drop_event (slot_value (the (rv_buffer (ss_recv s) i))) lim n (ss_counts s)")
  let ?y = "x\<lparr>st_pending_recv := d\<rparr>"
    and ?s = "s\<lparr>ss_recv := (ss_recv s)\<lparr>rv_buffer := (rv_buffer (ss_recv s))(i := None)\<rparr>, ss_counts := c\<rparr>"
  have "get_stream k (put_stream k ?y ?s) = Some ?y"
    using Cons.prems(1) by (intro get_stream_put [of _ _ x]) (simp_all add: get_stream_def)
  from Cons.IH [OF this, of n'] keys show ?case
    by (subst drop_events.simps)
      (auto simp: event_pop_front_def Cons.prems(1) pop drop put_put_stream put_stream_buffer restrict_upd_None simp del: fun_upd_apply restrict_fun_upd)
qed

text \<open>Every other stream keeps its deque.\<close>

lemma other_deque_kept:
  assumes "deque_keys (d, b) js" "set js \<inter> set ks = {}"
  shows "deque_keys (d, b |` (- set ks)) js \<and> deque_values (b |` (- set ks)) js = deque_values b js"
proof -
  have "(b |` (- set ks)) i = b i" if "i \<in> set js" for i
    using that assms(2) by (auto simp: restrict_map_def)
  from deque_keys_frame [OF assms(1) this] show ?thesis by blast
qed

section \<open>Properties\<close>

text \<open>C18: clearing the queue of a stream ends and frees what it held. If the stream's deque is the list \<open>ks\<close> of slots, they
  are free afterwards and no other slot is; the stream has nothing to send, asks for no capacity and has no frame in the codec that
  would be given back to it; every other stream is as it was, with its frames.\<close>

theorem clear_queue_returns:
  assumes "get_stream k s = Some x" "deque_keys (st_pending_send x, ss_send_buffer s) ks"
  shows "\<exists>s' x'. prio_clear_queue k s = Some s' \<and> get_stream k s' = Some x' \<and>
    st_pending_send x' = None \<and> st_buffered_send_data x' = 0 \<and> st_requested_send_capacity x' = 0 \<and>
    dom (ss_send_buffer s') = dom (ss_send_buffer s) - set ks \<and> pz_in_flight_data_frame (prio s') \<noteq> InFlightDataFrame k \<and>
    (\<forall>j y js. key_index j \<noteq> key_index k \<and> get_stream j s = Some y \<and> deque_keys (st_pending_send y, ss_send_buffer s) js \<and>
        set js \<inter> set ks = {} \<longrightarrow>
      get_stream j s' = Some y \<and> deque_keys (st_pending_send y, ss_send_buffer s') js \<and>
        deque_values (ss_send_buffer s') js = deque_values (ss_send_buffer s) js)"
proof -
  let ?x = "x\<lparr>st_pending_send := None, st_buffered_send_data := 0, st_requested_send_capacity := 0\<rparr>"
    and ?s = "s\<lparr>ss_send_buffer := ss_send_buffer s |` (- set ks)\<rparr>"
  have "get_stream k (put_stream k (x\<lparr>st_pending_send := None\<rparr>) ?s) = Some (x\<lparr>st_pending_send := None\<rparr>)"
    using assms(1) by (intro get_stream_put [of _ _ x]) (simp_all add: get_stream_def)
  then obtain s' where clear: "prio_clear_queue k s = Some s'"
      and s': "ss_send_buffer s' = ss_send_buffer s |` (- set ks)"
        "pz_in_flight_data_frame (prio s') \<noteq> InFlightDataFrame k" "slab s' = (slab s)(unat (key_index k) \<mapsto> ?x)"
    by (simp add: prio_clear_queue_def drop_frames_drains [OF assms] mod_stream_def put_put_stream)
  have "get_stream k s' = Some ?x" using assms(1) by (simp add: get_stream_slab s'(3))
  moreover have "get_stream j s' = Some y" if "key_index j \<noteq> key_index k" "get_stream j s = Some y" for j y
    using that by (auto simp: get_stream_slab s'(3) dest: unsigned_word_eqI)
  moreover have "dom (ss_send_buffer s') = dom (ss_send_buffer s) - set ks" using s'(1) by auto
  ultimately show ?thesis
    using clear s' by (intro exI [of _ s'] exI [of _ ?x]) (auto simp: other_deque_kept)
qed

lemma sample_deque:
  "case do { s \<leftarrow> sample_run; x \<leftarrow> get_stream sample_key s;
       Some (st_pending_send x, map (\<lambda>i. map_option slot_next (ss_send_buffer s i)) [0, 1]) } of
     Some (d, l) \<Rightarrow> d = Some \<lparr>ix_head = 0, ix_tail = 1\<rparr> \<and> l = [Some (Some 1), Some None]
   | _ \<Rightarrow> False"
  by code_simp

lemma clear_queue_returns_witness:
  "\<exists>s s' x'. sample_run = Some s \<and> prio_clear_queue sample_key s = Some s' \<and> get_stream sample_key s' = Some x' \<and>
     st_pending_send x' = None \<and> dom (ss_send_buffer s') = dom (ss_send_buffer s) - {0, 1} \<and> 1 \<in> dom (ss_send_buffer s)"
proof -
  obtain s x where x: "sample_run = Some s" "get_stream sample_key s = Some x"
      "st_pending_send x = Some \<lparr>ix_head = 0, ix_tail = 1\<rparr>"
      "map_option slot_next (ss_send_buffer s 0) = Some (Some 1)" "map_option slot_next (ss_send_buffer s 1) = Some None"
    using sample_deque by (auto split: option.split_asm bind_splits)
  then obtain a b where s: "sample_run = Some s" "get_stream sample_key s = Some x"
      "st_pending_send x = Some \<lparr>ix_head = 0, ix_tail = 1\<rparr>"
      "ss_send_buffer s 0 = Some a" "ss_send_buffer s 1 = Some b" "slot_next a = Some 1" "slot_next b = None"
    by auto
  then have "deque_keys (st_pending_send x, ss_send_buffer s) [0, 1]"
    by (auto simp: deque_keys_Some linked_def buf_next_def)
  from clear_queue_returns [OF s(2) this] obtain s' x' where "prio_clear_queue sample_key s = Some s'"
      "get_stream sample_key s' = Some x'" "st_pending_send x' = None" "dom (ss_send_buffer s') = dom (ss_send_buffer s) - {0, 1}"
    by auto
  then show ?thesis using s by (intro exI conjI) auto
qed

end
