(* ===== verification/Spec2Isabelle.thy ===== *)
theory Spec2Isabelle
  imports Frame_Control Frame_Settings Frame_Data Flow_Control Stream_State Frame_Buffer Store_Queue
    Counts Ping_Pong Go_Away Settings_Sync Hpack_Int Hpack_Header Huffman_Correct Hpack_Decode_Ref Codec_Sound Codec_Wire
    Flow_Reach Codec_Types Recv_Errors Error_Text Server System Conn_Outcomes
    Buffer_Drain
begin

text \<open>
  h2: an HTTP/2 implementation in Rust. This theory imports the whole development, which models the crate under \<open>src/src\<close>; file names
  below are relative to it.

  THE PROGRAM. A connection (\<open>proto/connection.rs\<close>) owns a codec, the states of the three exchanges that concern the whole connection
  (PING, SETTINGS, GOAWAY) and the streams. Its \<open>poll\<close> writes what is due, reads the frames that have arrived, hands each one to the
  exchange or to the streams, and turns an error into RST_STREAM, GOAWAY or the end. The codec (\<open>codec\<close>) cuts bytes into frames and
  back (\<open>frame\<close>), and compresses header blocks (\<open>hpack\<close>). The streams (\<open>proto/streams\<close>) are a slab of stream records, with queues
  threaded through them, deques of frames in one shared slab, counters and two halves: \<open>recv.rs\<close> and \<open>send.rs\<close>, the latter above
  \<open>prioritize.rs\<close>, which shares the flow control window of the connection among the streams. The user works through handles
  (\<open>share.rs\<close>, \<open>client.rs\<close>, \<open>server.rs\<close>) that take the same lock as the connection.

  THEORIES, in the order of the code.
    Foundations: \<open>H2_Prelude\<close> (widths, byte strings, the results of fallible functions, big-endian numbers), \<open>Error_Types\<close> and
      \<open>Error_Text\<close> (\<open>error.rs\<close>, \<open>proto/error.rs\<close>, \<open>codec/error.rs\<close>, \<open>frame/reason.rs\<close>), \<open>Linked_List\<close> (the intrusive lists).
    Frames: \<open>Frame_Head\<close>, \<open>Frame_Control\<close> (PING, PRIORITY, RST_STREAM, WINDOW_UPDATE, GOAWAY), \<open>Frame_Settings\<close>, \<open>Frame_Data\<close>,
      \<open>Frame_Headers\<close> and \<open>Header_Block\<close> (loading of \<open>frame/headers.rs\<close>), \<open>Frame_Encode\<close> (its encoding).
    HPACK: \<open>Hpack_Int\<close>, \<open>Hpack_Header\<close>, \<open>Huffman_Table\<close>, \<open>Huffman_Encode\<close>, \<open>Huffman_Decode\<close> with the proofs in \<open>Huffman_Slow\<close>,
      \<open>Huffman_Fast\<close>, \<open>Huffman_Correct\<close>; \<open>Hpack_Dyn\<close> and \<open>Hpack_Decoder\<close> with \<open>Hpack_Decode_Spec\<close> and \<open>Hpack_Decode_Ref\<close>;
      \<open>Hpack_Enc_Table\<close> and \<open>Hpack_Encoder\<close>.
    Codec: \<open>Codec_Read\<close> with \<open>Codec_Sound\<close> and \<open>Codec_Types\<close>; \<open>Codec_Write\<close> with \<open>Codec_Wire\<close>.
    Streams: \<open>Flow_Control\<close>, \<open>Stream_State\<close>, \<open>Frame_Buffer\<close>, \<open>Stream_Record\<close>, \<open>Store_Queue\<close>, \<open>Counts\<close>, \<open>Streams_State\<close> (what the
      halves share), \<open>Prioritize\<close>, \<open>Send_Half\<close>, \<open>Peer_Convert\<close> (messages), \<open>Recv_Half\<close>, \<open>Streams_Inner\<close> and \<open>Streams_User\<close>
      (\<open>streams.rs\<close>: frames, and handles).
    Connection: \<open>Ping_Pong\<close>, \<open>Go_Away\<close>, \<open>Settings_Sync\<close>, \<open>Connection\<close>, \<open>Handles\<close> (\<open>share.rs\<close>), \<open>Client\<close>, \<open>Server\<close>.
    The composition: \<open>Streams_Ledger\<close> (rules for computations that may panic, and the locale of quantities that operations account for),
      \<open>Flow_Numbers\<close>, \<open>Flow_Accounts\<close>, \<open>Flow_Send\<close>, \<open>Flow_Recv\<close>, \<open>Flow_Streams\<close>, \<open>Flow_Windows\<close>, \<open>Flow_Sent\<close>, \<open>Streams_Steps\<close>,
      \<open>Flow_Reach\<close>, \<open>Buffer_Drain\<close>, \<open>Recv_Errors\<close>, \<open>Conn_Reader\<close>, \<open>Conn_Steps\<close>, \<open>System\<close>, \<open>Conn_Outcomes\<close>; \<open>Streams_Sample\<close> holds the examples.

  HOW THE MODEL CORRESPONDS. A struct is a record and an enum a datatype; the fields and constructors carry the names of the code with
  a prefix where Isabelle needs one. Integers that wrap or are checked are words (\<open>u8\<close>, \<open>u16\<close>, \<open>u32\<close>, \<open>u64\<close>, \<open>i32\<close>); a \<open>usize\<close> that only counts
  or measures is a natural number. A function that the code can panic in returns \<open>None\<close> (or \<open>Panic\<close>, with \<open>Ok\<close> and \<open>Err\<close>) there: assertions,
  failed checked arithmetic, indices, \<open>unwrap\<close>. \<open>Result\<close> is a sum, \<open>Poll\<close> a datatype. Mutated state is passed and returned; \<open>streams\<close> is the state behind
  the two mutexes, and an operation is the time from taking the lock to releasing it. A pointer into the store is its key, a handle of the
  user is the key of its stream. Tasks that are woken are a log (\<open>waker\<close>). A transport is the list of answers that it gives to the
  calls, so that a theorem speaks of every transport.

  WHAT THE LEMMAS SHOW. Frames: loading inverts encoding for each type, and what is loaded is well-formed; a decoded header block does
  not depend on how it was cut, its list is bounded, a malformed one keeps the compression state in step, CONTINUATION frames follow
  their HEADERS and are bounded in number. HPACK: the fast decoders equal specifications without tables, cursors and fuel, and the
  dynamic table evicts from its end within its size. Codec: what the transport took and what waits are the frames in order, and a flush
  that is ready has left nothing. Streams: the state machine refines two half-streams, queues and deques are lists, keys of removed
  streams do not find others, counters count. Flow control: whatever the peer, the user and the clock do, in any order, the window that
  the peer granted bounds what the connection holds and what the streams hold of it; no DATA frame exceeds a window; and unread bytes stay accounted.
  Errors: a frame can end the connection with one of three codes only. Connection: its reachable states, over all
  interleavings of polls and handles, refine the steps of the streams, so that these invariants hold of the whole; and a poll ends as
  it should.

  LOCALES. \<open>frame_codec\<close>, the contract of frames on the wire, is interpreted by each simple frame; \<open>fifo\<close> by the frame
  deques and, through \<open>next_trait\<close>, by the six queues of streams; \<open>ledger\<close>,
  a quantity that queues, notifications and counters leave alone, by the windows the peer granted (\<open>wnd\<close>) and by the accounts (\<open>flow_acct\<close>).

  LOOPS AND BOUNDS. A loop that the code ends by emptying a queue is a \<open>partial_function\<close> over \<open>option\<close>: the functions \<open>conn_poll\<close>, \<open>poll2_loop\<close>,
  \<open>prio_pop_frame\<close>, \<open>assign_capacity_loop\<close> and the other loops that empty queues of streams. Theorems about them are of the
  form: if it returns a result, then. That they return is shown where the deque of one stream is emptied (\<open>Buffer_Drain\<close>), given that it
  is a list; for the queues of streams it is not shown, for it needs their integrity across all operations, and nor is the
  absence of panics in these operations. The other loops terminate by proof: those of Huffman and HPACK, SETTINGS chunks,
  dynamic tables, the preface. Two have fuel, \<open>flush_loop\<close> and \<open>write_block\<close>: each round but two takes a byte of the header
  block, so its length and two rounds are enough, and the lemmas about \<open>fw_flush\<close> and \<open>encode_block\<close> show that they return.

  PARAMETERS. What is not under \<open>src\<close> is an argument: the parsers and the map of the \<open>http\<close> crate (\<open>http_parsers\<close>, \<open>header_lib\<close>), and
  in \<open>env\<close> the key that a slab gives to a new entry, the clock, the hash of a name, the growth of a buffer and the parsers of URI parts.
  The length-delimited codec and the transport of \<open>tokio\<close> are the items that they deliver, and \<open>write_all\<close> is an argument of the
  client's handshake.

  NOT MODELLED. Poisoned mutexes and data races: the lock makes operations atomic. The executor: only what is woken and when. Log lines, tracing spans, and
  \<open>Debug\<close> other than that of reasons. \<open>async\<close> wrappers that only poll what is modelled (\<open>accept\<close>, \<open>data\<close>, \<open>trailers\<close>,
  \<open>ready\<close>, \<open>ping\<close>) and the constructors and accessors of the handles. \<open>num_wired_streams\<close>, which only tests use. Debug assertions that walk a whole table.
  \<open>ext.rs\<close>, \<open>lib.rs\<close>, \<open>fuzz_bridge.rs\<close>, the tests, the fuzzer, the benches, the examples and the generators under \<open>util\<close>.

  FINDINGS. \<open>Streams_Sample\<close> shows that a refused push promise leaves its stream in the store
  (\<open>refused_push_promise_keeps_stream\<close>) and that the count of remote resets can leak (\<open>remote_reset_count_leaks\<close>); \<open>Codec_Sound\<close> that an empty
  header name is dropped in silence in a block without END_HEADERS (\<open>empty_name_skipped\<close>).
\<close>

end
